(* ===== verification/Zmq_Prelude.thy ===== *)
theory Zmq_Prelude
  imports Complex_Main "HOL-Library.Word"
begin

text \<open>
  The shared vocabulary of the development: C pointers and flag words, the Ruby values that
  cross the C boundary, the outcome of running a C function (a value, a Ruby exception, or a
  memory fault), and the combinators in which every function body is written.

  A C function with access to the state is a command: it takes the state and yields an outcome.
  The macros of the headers expand in place, so they are commands in continuation style, whose
  last argument is the rest of the function body.
\<close>

unbundle bit_operations_syntax

named_theorems run \<open>equations that run a command one step on a given state\<close>
named_theorems flag_simps \<open>arithmetic of the one-bit flag words\<close>

section \<open>C and Ruby data\<close>

type_synonym ptr = nat
type_synonym cint = int

abbreviation NULL :: ptr where
  "NULL \<equiv> 0"

abbreviation NUL :: char where
  "NUL \<equiv> CHR 0x00"

text \<open>The Ruby classes the extension tests for.\<close>

datatype klass =
    rb_cZmqContext
  | rb_cZmqPubSocket | rb_cZmqSubSocket | rb_cZmqPushSocket | rb_cZmqPullSocket
  | rb_cZmqRouterSocket | rb_cZmqDealerSocket | rb_cZmqRepSocket | rb_cZmqReqSocket
  | rb_cZmqPairSocket | rb_cZmqXPubSocket | rb_cZmqXSubSocket | rb_cZmqStreamSocket
  | rb_cZmqFrame | rb_cZmqMessage | rb_cZmqLoop | rb_cZmqTimer | rb_cZmqPoller
  | rb_cZmqPollitem | rb_cZmqBeacon
  | rb_cArray | rb_cThread | rb_cIO | rb_cOther string

text \<open>
  A Ruby value. Strings are byte strings, objects are their class and the address of the C
  struct (or of the Ruby object) behind them, so that object identity is equality of values.
  The C null pointer cast to a value is \<open>Qfalse\<close>.
\<close>

datatype rvalue =
    Qfalse | Qtrue | Qnil
  | Fixnum int
  | Float rat
  | Symbol string
  | RString string
  | Object klass ptr

definition NIL_P :: "rvalue \<Rightarrow> bool" where
  "NIL_P v = (v = Qnil)"

text \<open>Every socket class is below \<^verbatim>\<open>ZMQ::Socket\<close>.\<close>

fun socket_klass :: "klass \<Rightarrow> bool" where
  "socket_klass k =
     (k \<in> {rb_cZmqPubSocket, rb_cZmqSubSocket, rb_cZmqPushSocket, rb_cZmqPullSocket,
           rb_cZmqRouterSocket, rb_cZmqDealerSocket, rb_cZmqRepSocket, rb_cZmqReqSocket,
           rb_cZmqPairSocket, rb_cZmqXPubSocket, rb_cZmqXSubSocket, rb_cZmqStreamSocket})"

datatype exn =
    TypeError string
  | NameError string
  | ZmqError string
  | ArgError string
  | RangeError
  | SysError int
  | NoMemError

text \<open>
  Faults of the C program: a struct read or written after it was freed, a null or freed libczmq
  object handed to libczmq, a loop or a library call that never ends, a Ruby value used as a pointer
  to a struct of the extension, an assertion that fails, a format string with directives but no
  arguments, and a conversion of a floating-point number that C leaves undefined.
\<close>

datatype fault =
    UseAfterFree | BadHandle | NonTerminating | WildPointer | AssertFailed | FormatString
  | UndefinedConversion

datatype ('s, 'a) outcome = Return 'a 's | Raise exn 's | Crash fault

type_synonym ('s, 'a) cmd = "'s \<Rightarrow> ('s, 'a) outcome"

section \<open>Commands\<close>

definition ret :: "'a \<Rightarrow> ('s, 'a) cmd" where
  "ret v s = Return v s"

definition raise :: "exn \<Rightarrow> ('s, 'a) cmd" where
  "raise e s = Raise e s"

definition crash :: "fault \<Rightarrow> ('s, 'a) cmd" where
  "crash f s = Crash f"

text \<open>Read from the state, write to the state, and go on.\<close>

definition rd :: "('s \<Rightarrow> 'b) \<Rightarrow> ('b \<Rightarrow> ('s, 'a) cmd) \<Rightarrow> ('s, 'a) cmd" where
  "rd f k s = k (f s) s"

definition wr :: "('s \<Rightarrow> 's) \<Rightarrow> ('s, 'a) cmd \<Rightarrow> ('s, 'a) cmd" where
  "wr f k s = k (f s)"

text \<open>Call another function; an exception or a fault ends the caller too.\<close>

definition call :: "('s, 'b) cmd \<Rightarrow> ('b \<Rightarrow> ('s, 'a) cmd) \<Rightarrow> ('s, 'a) cmd" where
  "call m k s =
     (case m s of Return v s' \<Rightarrow> k v s' | Raise e s' \<Rightarrow> Raise e s' | Crash f \<Rightarrow> Crash f)"

definition check :: "bool \<Rightarrow> exn \<Rightarrow> ('s, 'a) cmd \<Rightarrow> ('s, 'a) cmd" where
  "check b e k = (if b then k else raise e)"

definition require :: "bool \<Rightarrow> fault \<Rightarrow> ('s, 'a) cmd \<Rightarrow> ('s, 'a) cmd" where
  "require b f k = (if b then k else crash f)"

lemma ret_run [simp]: "ret v s = Return v s"
  by (simp add: ret_def)

lemma raise_run [simp]: "raise e s = Raise e s"
  by (simp add: raise_def)

lemma crash_run [simp]: "crash f s = Crash f"
  by (simp add: crash_def)

lemma rd_run [simp]: "rd f k s = k (f s) s"
  by (simp add: rd_def)

lemma wr_run [simp]: "wr f k s = k (f s)"
  by (simp add: wr_def)

lemma check_run [simp]: "check b e k s = (if b then k s else Raise e s)"
  by (simp add: check_def)

lemma require_run [simp]: "require b f k s = (if b then k s else Crash f)"
  by (simp add: require_def)

lemma call_run [run]:
  "m s = Return v s' \<Longrightarrow> call m k s = k v s'"
  "m s = Raise e s' \<Longrightarrow> call m k s = Raise e s'"
  "m s = Crash f \<Longrightarrow> call m k s = Crash f"
  by (simp_all add: call_def)

lemma call_ret [simp]: "call (ret v) k = k v"
  by (rule ext) (simp add: call_def)

lemma call_Return:
  "call m k s = Return v s'' \<longleftrightarrow> (\<exists>u s'. m s = Return u s' \<and> k u s' = Return v s'')"
  by (simp add: call_def split: outcome.splits)

lemma call_Crash:
  "call m k s = Crash f \<longleftrightarrow> m s = Crash f \<or> (\<exists>u s'. m s = Return u s' \<and> k u s' = Crash f)"
  by (auto simp add: call_def split: outcome.splits)

text \<open>
  A C loop: the condition and the body work on the loop variables \<open>x\<close>. A loop that does not end
  is the fault \<open>NonTerminating\<close>; one that ends goes on with \<open>k\<close>.
\<close>

partial_function (option) iterate ::
  "('x \<Rightarrow> bool) \<Rightarrow> ('x \<Rightarrow> ('s, 'x) cmd) \<Rightarrow> 'x \<Rightarrow> 's \<Rightarrow> ('s, 'x) outcome option" where
  "iterate b c x s =
     (if b x then
        (case c x s of
           Return y s' \<Rightarrow> iterate b c y s'
         | Raise e s' \<Rightarrow> Some (Raise e s')
         | Crash f \<Rightarrow> Some (Crash f))
      else Some (Return x s))"

definition while_do ::
  "('x \<Rightarrow> bool) \<Rightarrow> ('x \<Rightarrow> ('s, 'x) cmd) \<Rightarrow> ('x \<Rightarrow> ('s, 'a) cmd) \<Rightarrow> 'x \<Rightarrow> ('s, 'a) cmd" where
  "while_do b c k x s =
     (case iterate b c x s of None \<Rightarrow> Crash NonTerminating | Some r \<Rightarrow> call (\<lambda>_. r) k s)"

lemma while_do_unroll:
  "while_do b c k x s = (if b x then call (c x) (while_do b c k) s else k x s)"
  by (simp add: while_do_def call_def iterate.simps [of b c x s] split: outcome.split option.split)

lemma while_do_stop [run]: "\<not> b x \<Longrightarrow> while_do b c k x s = k x s"
  by (simp add: while_do_unroll)

lemma while_do_step: "b x \<Longrightarrow> c x s = Return y s' \<Longrightarrow> while_do b c k x s = while_do b c k y s'"
  by (simp add: while_do_unroll call_run)

text \<open>The state a command ends in, and the absence of faults.\<close>

fun final_state :: "('s, 'a) outcome \<Rightarrow> 's option" where
  "final_state (Return v s) = Some s"
| "final_state (Raise e s) = Some s"
| "final_state (Crash f) = None"

fun safe :: "('s, 'a) outcome \<Rightarrow> bool" where
  "safe (Crash f) = False"
| "safe _ = True"

section \<open>Checks of the Ruby C API\<close>

definition Check_Fixnum :: "rvalue \<Rightarrow> (int \<Rightarrow> ('s, 'a) cmd) \<Rightarrow> ('s, 'a) cmd" where
  "Check_Fixnum v k =
     (case v of Fixnum n \<Rightarrow> k n | _ \<Rightarrow> raise (TypeError ''wrong argument type (expected Fixnum)''))"

definition Check_String :: "rvalue \<Rightarrow> (string \<Rightarrow> ('s, 'a) cmd) \<Rightarrow> ('s, 'a) cmd" where
  "Check_String v k =
     (case v of RString cs \<Rightarrow> k cs | _ \<Rightarrow> raise (TypeError ''wrong argument type (expected String)''))"

text \<open>
  \<^verbatim>\<open>rb_scan_args\<close>: the format \<^verbatim>\<open>"01"\<close> is one optional argument, \<^verbatim>\<open>"11"\<close> a mandatory and an optional
  one, and so on. A missing optional argument is nil.
\<close>

definition rb_scan_args_01 :: "rvalue list \<Rightarrow> (rvalue \<Rightarrow> ('s, 'a) cmd) \<Rightarrow> ('s, 'a) cmd" where
  "rb_scan_args_01 argv k =
     (case argv of [] \<Rightarrow> k Qnil | [a] \<Rightarrow> k a | _ \<Rightarrow> raise (ArgError ''wrong number of arguments''))"

definition rb_scan_args_11 :: "rvalue list \<Rightarrow> (rvalue \<Rightarrow> rvalue \<Rightarrow> ('s, 'a) cmd) \<Rightarrow> ('s, 'a) cmd" where
  "rb_scan_args_11 argv k =
     (case argv of [a] \<Rightarrow> k a Qnil | [a, b] \<Rightarrow> k a b | _ \<Rightarrow> raise (ArgError ''wrong number of arguments''))"

definition rb_scan_args_12 ::
  "rvalue list \<Rightarrow> (rvalue \<Rightarrow> rvalue \<Rightarrow> rvalue \<Rightarrow> ('s, 'a) cmd) \<Rightarrow> ('s, 'a) cmd" where
  "rb_scan_args_12 argv k =
     (case argv of [a] \<Rightarrow> k a Qnil Qnil | [a, b] \<Rightarrow> k a b Qnil | [a, b, c] \<Rightarrow> k a b c
      | _ \<Rightarrow> raise (ArgError ''wrong number of arguments''))"

definition rb_scan_args_21 ::
  "rvalue list \<Rightarrow> (rvalue \<Rightarrow> rvalue \<Rightarrow> rvalue \<Rightarrow> ('s, 'a) cmd) \<Rightarrow> ('s, 'a) cmd" where
  "rb_scan_args_21 argv k =
     (case argv of [a, b] \<Rightarrow> k a b Qnil | [a, b, c] \<Rightarrow> k a b c
      | _ \<Rightarrow> raise (ArgError ''wrong number of arguments''))"

lemma rb_scan_args_run [simp]:
  "rb_scan_args_01 [] h = h Qnil" "rb_scan_args_01 [a] h = h a"
  "rb_scan_args_11 [a] k = k a Qnil" "rb_scan_args_11 [a, b] k = k a b"
  "rb_scan_args_12 [a] m = m a Qnil Qnil" "rb_scan_args_12 [a, b] m = m a b Qnil"
  "rb_scan_args_12 [a, b, c] m = m a b c"
  "rb_scan_args_21 [a, b] m = m a b Qnil" "rb_scan_args_21 [a, b, c] m = m a b c"
  by (simp_all add: rb_scan_args_01_def rb_scan_args_11_def rb_scan_args_12_def rb_scan_args_21_def)

text \<open>\<^verbatim>\<open>FIX2INT\<close> on a 64-bit machine: a Fixnum outside the C int range raises.\<close>

definition FIX2INT :: "int \<Rightarrow> (cint \<Rightarrow> ('s, 'a) cmd) \<Rightarrow> ('s, 'a) cmd" where
  "FIX2INT n k = check (- (2 ^ 31) \<le> n \<and> n < 2 ^ 31) RangeError (k n)"

text \<open>\<^verbatim>\<open>StringValueCStr\<close> refuses a string with a null byte in it.\<close>

definition StringValueCStr :: "string \<Rightarrow> (string \<Rightarrow> ('s, 'a) cmd) \<Rightarrow> ('s, 'a) cmd" where
  "StringValueCStr cs k = check (NUL \<notin> set cs) (ArgError ''string contains null byte'') (k cs)"

text \<open>What C sees of a byte buffer it reads as a string: the bytes before the first null.\<close>

definition c_str :: "string \<Rightarrow> string" where
  "c_str cs = takeWhile (\<lambda>c. c \<noteq> NUL) cs"

lemma c_str_id [simp]: "NUL \<notin> set cs \<Longrightarrow> c_str cs = cs"
  by (auto simp: c_str_def takeWhile_eq_all_conv)

lemma c_str_append_NUL [simp]: "NUL \<notin> set cs \<Longrightarrow> c_str (cs @ NUL # ds) = cs"
  by (induction cs) (auto simp: c_str_def)

lemma Check_Fixnum_run [simp]:
  "Check_Fixnum (Fixnum n) k = k n"
  by (simp add: Check_Fixnum_def)

lemma Check_String_run [simp]:
  "Check_String (RString cs) k = k cs"
  by (simp add: Check_String_def)

lemma FIX2INT_run [simp]:
  "FIX2INT n k s = (if - (2 ^ 31) \<le> n \<and> n < 2 ^ 31 then k n s else Raise RangeError s)"
  by (simp add: FIX2INT_def)

lemma StringValueCStr_run [simp]:
  "StringValueCStr cs k s =
     (if NUL \<notin> set cs then k cs s else Raise (ArgError ''string contains null byte'') s)"
  by (simp add: StringValueCStr_def)

text \<open>
  Integers going back to Ruby: \<^verbatim>\<open>INT2NUM\<close> takes a C int, \<^verbatim>\<open>LONG2FIX\<close> keeps the 63 bits of a
  Fixnum.
\<close>

definition INT2NUM :: "int \<Rightarrow> rvalue" where
  "INT2NUM n = Fixnum (sint (word_of_int n :: 32 word))"

definition LONG2FIX :: "int \<Rightarrow> rvalue" where
  "LONG2FIX n = Fixnum (sint (word_of_int n :: 63 word))"

lemma INT2NUM_id: "- (2 ^ 31) \<le> n \<Longrightarrow> n < 2 ^ 31 \<Longrightarrow> INT2NUM n = Fixnum n"
  by (simp add: INT2NUM_def sint_sbintrunc' signed_take_bit_int_eq_self)

lemma LONG2FIX_id: "- (2 ^ 62) \<le> n \<Longrightarrow> n < 2 ^ 62 \<Longrightarrow> LONG2FIX n = Fixnum n"
  by (simp add: LONG2FIX_def sint_sbintrunc' signed_take_bit_int_eq_self)

section \<open>Flag words\<close>

type_synonym flags = "32 word"

text \<open>\<^verbatim>\<open>x & flag\<close> as a condition, \<^verbatim>\<open>x |= flag\<close> and \<^verbatim>\<open>x &= ~flag\<close>.\<close>

definition has :: "flags \<Rightarrow> flags \<Rightarrow> bool" where
  "has x f \<longleftrightarrow> x AND f \<noteq> 0"

definition set_flag :: "flags \<Rightarrow> flags \<Rightarrow> flags" where
  "set_flag x f = x OR f"

definition clear_flag :: "flags \<Rightarrow> flags \<Rightarrow> flags" where
  "clear_flag x f = x AND NOT f"

lemma has_set_flag [simp, flag_simps]: "f \<noteq> 0 \<Longrightarrow> has (set_flag x f) f"
  by (simp add: has_def set_flag_def bit.conj_disj_distrib2)

lemma has_clear_flag [simp, flag_simps]: "\<not> has (clear_flag x f) f"
  by (simp add: has_def clear_flag_def) (rule bit_eqI, auto simp: bit_simps)

lemma has_zero [simp, flag_simps]: "\<not> has 0 f"
  by (simp add: has_def)

lemma has_self [simp, flag_simps]: "has f f \<longleftrightarrow> f \<noteq> 0"
  by (simp add: has_def)

section \<open>Lists and maps\<close>

lemma remove1_distinct_set [simp]: "distinct xs \<Longrightarrow> set (remove1 x xs) = set xs - {x}"
  by (simp add: set_remove1_eq)

lemma map_remove1_inj:
  "inj_on f (insert x (set xs)) \<Longrightarrow> map f (remove1 x xs) = remove1 (f x) (map f xs)"
proof (induction xs)
  case (Cons y ys)
  then have "f x = f y \<longleftrightarrow> x = y" by (auto simp: inj_on_def)
  moreover have "inj_on f (insert x (set ys))" using Cons.prems by (auto simp: inj_on_def)
  ultimately show ?case using Cons.IH by auto
qed simp

lemma removeAll_distinct_length:
  "distinct xs \<Longrightarrow> x \<in> set xs \<Longrightarrow> Suc (length (removeAll x xs)) = length xs"
  by (metis One_nat_def Suc_pred distinct_remove1_removeAll length_pos_if_in_set length_remove1)

lemma removeAll_count: "length (removeAll x xs) = length xs - count_list xs x"
proof -
  have "length (removeAll x xs) + count_list xs x = length xs"
    by (induction xs) auto
  then show ?thesis by simp
qed

end
