(* ===== verification/Zmq_Api.thy ===== *)
theory Zmq_Api
  imports Zmq_Prelude
begin

text \<open>
  The boundary to libczmq and libzmq. Neither library is part of the repository, so every
  function of theirs that the extension calls is a field of the record \<open>czmq\<close>, an argument of
  every definition that calls one. The type \<open>'w\<close> is the state of the libraries. What their
  documentation says of a call is stated over the record \<open>cview\<close> of the objects they keep, which
  \<open>view\<close> reads off a state; the predicates \<open>zlist_doc\<close>, \<open>zframe_doc\<close>, \<open>zmsg_doc\<close> and \<open>zsock_doc\<close>
  collect those statements and are the named hypotheses of the theorems that need them.
\<close>

section \<open>What the libraries keep\<close>

text \<open>An item of a czmq list is a \<^verbatim>\<open>void *\<close>: a C pointer or a Ruby value.\<close>

datatype void = PTR ptr | VAL rvalue

text \<open>The poll item of \<^verbatim>\<open>zmq.h\<close>.\<close>

record zmq_pollitem_t =
  pi_socket :: ptr
  pi_fd :: cint
  pi_events :: "16 word"      \<comment> \<open>a short\<close>
  pi_revents :: "16 word"

text \<open>The callbacks the extension registers with a reactor, and what a reactor keeps of them.\<close>

datatype loop_fn =
    Loop_started_callback
  | Loop_breaker_callback
  | Loop_timer_callback
  | Loop_pollitem_callback

datatype registration =
    Timer_reg "64 word" "64 word" loop_fn void
  | Poll_reg zmq_pollitem_t loop_fn void

record cview =
  zframes :: "ptr \<rightharpoonup> string"          \<comment> \<open>allocated frames and their bodies\<close>
  zmsgs :: "ptr \<rightharpoonup> ptr list"          \<comment> \<open>allocated messages and their frames in order\<close>
  zlists :: "ptr \<rightharpoonup> void list"        \<comment> \<open>allocated lists\<close>
  zctxs :: "ptr \<rightharpoonup> int"               \<comment> \<open>open contexts and their I/O threads\<close>
  zsocks :: "ptr \<rightharpoonup> ptr \<times> int"         \<comment> \<open>open sockets: their context and type\<close>
  zopts :: "ptr \<Rightarrow> string \<rightharpoonup> int"      \<comment> \<open>socket options that were set, by name\<close>
  zloops :: "ptr \<rightharpoonup> registration list"  \<comment> \<open>reactors and what is registered with them\<close>
  zbeacons :: "ptr \<rightharpoonup> ptr"             \<comment> \<open>beacons and their pipe sockets\<close>

text \<open>The constants of \<^verbatim>\<open>zmq.h\<close>, \<^verbatim>\<open>czmq.h\<close> and \<^verbatim>\<open>errno.h\<close> the extension names.\<close>

datatype socktype =
    ZMQ_PAIR | ZMQ_PUB | ZMQ_SUB | ZMQ_REQ | ZMQ_REP | ZMQ_DEALER | ZMQ_ROUTER | ZMQ_PULL
  | ZMQ_PUSH | ZMQ_XPUB | ZMQ_XSUB | ZMQ_STREAM

datatype errname =
    EMTHREAD | EAGAIN | EINTR | EINVAL | ENOMEM | ETERM | ENOTSOCK | EFSM | ENOCOMPATPROTO

datatype event =
    ZMQ_EVENT_CONNECTED | ZMQ_EVENT_CONNECT_DELAYED | ZMQ_EVENT_CONNECT_RETRIED
  | ZMQ_EVENT_LISTENING | ZMQ_EVENT_BIND_FAILED | ZMQ_EVENT_ACCEPTED | ZMQ_EVENT_ACCEPT_FAILED
  | ZMQ_EVENT_CLOSED | ZMQ_EVENT_CLOSE_FAILED | ZMQ_EVENT_DISCONNECTED | ZMQ_EVENT_ALL

section \<open>The functions the extension calls\<close>

record 'w czmq =
  view :: "'w \<Rightarrow> cview"
  socktype :: "socktype \<Rightarrow> int"
  errcode :: "errname \<Rightarrow> int"
  eventcode :: "event \<Rightarrow> int"
  ZMQ_POLLIN :: flags
  ZMQ_POLLOUT :: flags
  ZMQ_POLLERR :: flags
  ZMQ_SNDMORE :: flags
  ZMQ_DONTWAIT :: flags
  zmq_errno :: "'w \<Rightarrow> int"
  set_errno :: "int \<Rightarrow> 'w \<Rightarrow> 'w"
  \<comment> \<open>zlist\<close>
  zlist_new :: "'w \<Rightarrow> ptr \<times> 'w"
  zlist_destroy :: "ptr \<Rightarrow> 'w \<Rightarrow> 'w"
  zlist_push :: "ptr \<Rightarrow> void \<Rightarrow> 'w \<Rightarrow> 'w"
  zlist_append :: "ptr \<Rightarrow> void \<Rightarrow> 'w \<Rightarrow> 'w"
  zlist_pop :: "ptr \<Rightarrow> 'w \<Rightarrow> void option \<times> 'w"
  zlist_remove :: "ptr \<Rightarrow> void \<Rightarrow> 'w \<Rightarrow> 'w"
  zlist_first :: "ptr \<Rightarrow> 'w \<Rightarrow> void option \<times> 'w"
  zlist_next :: "ptr \<Rightarrow> 'w \<Rightarrow> void option \<times> 'w"
  zlist_last :: "ptr \<Rightarrow> 'w \<Rightarrow> void option \<times> 'w"
  zlist_size :: "ptr \<Rightarrow> 'w \<Rightarrow> nat"
  zlist_cursor :: "ptr \<Rightarrow> 'w \<Rightarrow> nat option"
  \<comment> \<open>zframe\<close>
  zframe_new :: "string \<Rightarrow> 'w \<Rightarrow> ptr \<times> 'w"
  zframe_destroy :: "ptr \<Rightarrow> 'w \<Rightarrow> 'w"
  zframe_size :: "ptr \<Rightarrow> 'w \<Rightarrow> nat"
  zframe_data :: "ptr \<Rightarrow> 'w \<Rightarrow> string"
  zframe_strhex :: "ptr \<Rightarrow> 'w \<Rightarrow> string"
  zframe_dup :: "ptr \<Rightarrow> 'w \<Rightarrow> ptr \<times> 'w"
  zframe_streq :: "ptr \<Rightarrow> string \<Rightarrow> 'w \<Rightarrow> bool"
  zframe_more :: "ptr \<Rightarrow> 'w \<Rightarrow> int"
  zframe_eq :: "ptr \<Rightarrow> ptr \<Rightarrow> 'w \<Rightarrow> bool"
  zframe_print :: "ptr \<Rightarrow> string \<Rightarrow> 'w \<Rightarrow> 'w"
  zframe_reset :: "ptr \<Rightarrow> string \<Rightarrow> 'w \<Rightarrow> 'w"
  zframe_send :: "ptr \<Rightarrow> ptr \<Rightarrow> flags \<Rightarrow> 'w \<Rightarrow> int \<times> 'w"
  zframe_recv :: "ptr \<Rightarrow> 'w \<Rightarrow> ptr \<times> 'w"
  zframe_recv_nowait :: "ptr \<Rightarrow> 'w \<Rightarrow> ptr \<times> 'w"
  ZFRAME_MORE :: flags
  ZFRAME_REUSE :: flags
  ZFRAME_DONTWAIT :: flags
  \<comment> \<open>zmsg\<close>
  zmsg_new :: "'w \<Rightarrow> ptr \<times> 'w"
  zmsg_destroy :: "ptr \<Rightarrow> 'w \<Rightarrow> 'w"
  zmsg_size :: "ptr \<Rightarrow> 'w \<Rightarrow> nat"
  zmsg_content_size :: "ptr \<Rightarrow> 'w \<Rightarrow> nat"
  zmsg_push :: "ptr \<Rightarrow> ptr \<Rightarrow> 'w \<Rightarrow> int \<times> 'w"
  zmsg_add :: "ptr \<Rightarrow> ptr \<Rightarrow> 'w \<Rightarrow> int \<times> 'w"
  zmsg_pop :: "ptr \<Rightarrow> 'w \<Rightarrow> ptr \<times> 'w"
  zmsg_pushmem :: "ptr \<Rightarrow> string \<Rightarrow> 'w \<Rightarrow> int \<times> 'w"
  zmsg_addmem :: "ptr \<Rightarrow> string \<Rightarrow> 'w \<Rightarrow> int \<times> 'w"
  zmsg_popstr :: "ptr \<Rightarrow> 'w \<Rightarrow> string option \<times> 'w"
  zmsg_wrap :: "ptr \<Rightarrow> ptr \<Rightarrow> 'w \<Rightarrow> 'w"
  zmsg_remove :: "ptr \<Rightarrow> ptr \<Rightarrow> 'w \<Rightarrow> 'w"
  zmsg_first :: "ptr \<Rightarrow> 'w \<Rightarrow> ptr \<times> 'w"
  zmsg_next :: "ptr \<Rightarrow> 'w \<Rightarrow> ptr \<times> 'w"
  zmsg_last :: "ptr \<Rightarrow> 'w \<Rightarrow> ptr \<times> 'w"
  zmsg_cursor :: "ptr \<Rightarrow> 'w \<Rightarrow> nat option"
  zmsg_dup :: "ptr \<Rightarrow> 'w \<Rightarrow> ptr \<times> 'w"
  zmsg_dump :: "ptr \<Rightarrow> 'w \<Rightarrow> 'w"
  zmsg_encode :: "ptr \<Rightarrow> 'w \<Rightarrow> string"
  zmsg_decode :: "string \<Rightarrow> 'w \<Rightarrow> ptr \<times> 'w"
  zmsg_send :: "ptr \<Rightarrow> ptr \<Rightarrow> 'w \<Rightarrow> int \<times> 'w"
  zmsg_recv :: "ptr \<Rightarrow> 'w \<Rightarrow> ptr \<times> 'w"
  \<comment> \<open>zctx and zsocket\<close>
  zctx_new :: "'w \<Rightarrow> ptr \<times> 'w"
  zctx_destroy :: "ptr \<Rightarrow> 'w \<Rightarrow> 'w"
  zctx_set_linger :: "ptr \<Rightarrow> int \<Rightarrow> 'w \<Rightarrow> 'w"
  zctx_set_iothreads :: "ptr \<Rightarrow> int \<Rightarrow> 'w \<Rightarrow> 'w"
  zsys_handler_reset :: "'w \<Rightarrow> 'w"
  zsocket_new :: "ptr \<Rightarrow> int \<Rightarrow> 'w \<Rightarrow> ptr \<times> 'w"
  zsocket_destroy :: "ptr \<Rightarrow> ptr \<Rightarrow> 'w \<Rightarrow> 'w"
  zsocket_type :: "ptr \<Rightarrow> 'w \<Rightarrow> int"
  zsocket_bind :: "ptr \<Rightarrow> string \<Rightarrow> 'w \<Rightarrow> int \<times> 'w"
  zsocket_connect :: "ptr \<Rightarrow> string \<Rightarrow> 'w \<Rightarrow> int \<times> 'w"
  zsocket_disconnect :: "ptr \<Rightarrow> string \<Rightarrow> 'w \<Rightarrow> int \<times> 'w"
  zsocket_unbind :: "ptr \<Rightarrow> string \<Rightarrow> 'w \<Rightarrow> int \<times> 'w"
  zsocket_last_endpoint :: "ptr \<Rightarrow> 'w \<Rightarrow> string option"
  zsocket_fd :: "ptr \<Rightarrow> 'w \<Rightarrow> int"
  zsocket_poll :: "ptr \<Rightarrow> int \<Rightarrow> 'w \<Rightarrow> bool \<times> 'w"
  zsocket_opt :: "string \<Rightarrow> ptr \<Rightarrow> 'w \<Rightarrow> int"
  zsocket_set_opt :: "string \<Rightarrow> ptr \<Rightarrow> int \<Rightarrow> 'w \<Rightarrow> 'w"
  opt_range :: "string \<Rightarrow> int \<Rightarrow> bool"            \<comment> \<open>the values libzmq takes for an option\<close>
  zsocket_set_str :: "string \<Rightarrow> ptr \<Rightarrow> string \<Rightarrow> 'w \<Rightarrow> 'w"
  zmq_sendmsg :: "ptr \<Rightarrow> string \<Rightarrow> flags \<Rightarrow> 'w \<Rightarrow> int \<times> 'w"
  zmq_recvmsg :: "ptr \<Rightarrow> flags \<Rightarrow> 'w \<Rightarrow> (int \<times> string) \<times> 'w"
  zmq_msg_more :: "ptr \<Rightarrow> 'w \<Rightarrow> bool"             \<comment> \<open>of the message last received\<close>
  zmq_connect :: "ptr \<Rightarrow> string \<Rightarrow> 'w \<Rightarrow> int \<times> 'w"
  zmq_event :: "string \<Rightarrow> int \<times> int"              \<comment> \<open>\<^verbatim>\<open>zmq_event_t\<close>: the event and its value\<close>
  zmq_socket_monitor :: "ptr \<Rightarrow> string \<Rightarrow> int \<Rightarrow> 'w \<Rightarrow> int \<times> 'w"
  zmq_proxy :: "ptr \<Rightarrow> ptr \<Rightarrow> ptr \<Rightarrow> 'w \<Rightarrow> int \<times> 'w"
  zmq_poll :: "zmq_pollitem_t list \<Rightarrow> int \<Rightarrow> 'w \<rightharpoonup> (int \<times> zmq_pollitem_t list) \<times> 'w"
    \<comment> \<open>None: the call blocks and never returns\<close>
  \<comment> \<open>zloop\<close>
  zloop_new :: "'w \<Rightarrow> ptr \<times> 'w"
  zloop_destroy :: "ptr \<Rightarrow> 'w \<Rightarrow> 'w"
  zloop_timer :: "ptr \<Rightarrow> 64 word \<Rightarrow> 64 word \<Rightarrow> loop_fn \<Rightarrow> void \<Rightarrow> 'w \<Rightarrow> int \<times> 'w"
  zloop_timer_end :: "ptr \<Rightarrow> void \<Rightarrow> 'w \<Rightarrow> int \<times> 'w"
  zloop_poller :: "ptr \<Rightarrow> zmq_pollitem_t \<Rightarrow> loop_fn \<Rightarrow> void \<Rightarrow> 'w \<Rightarrow> int \<times> 'w"
  zloop_poller_end :: "ptr \<Rightarrow> zmq_pollitem_t \<Rightarrow> 'w \<Rightarrow> 'w"
  zloop_set_verbose :: "ptr \<Rightarrow> bool \<Rightarrow> 'w \<Rightarrow> 'w"
  \<comment> \<open>zbeacon\<close>
  zbeacon_new :: "int \<Rightarrow> 'w \<Rightarrow> ptr \<times> 'w"
  zbeacon_destroy :: "ptr \<Rightarrow> 'w \<Rightarrow> 'w"
  zbeacon_hostname :: "ptr \<Rightarrow> 'w \<Rightarrow> string"
  zbeacon_set_interval :: "ptr \<Rightarrow> int \<Rightarrow> 'w \<Rightarrow> 'w"
  zbeacon_noecho :: "ptr \<Rightarrow> 'w \<Rightarrow> 'w"
  zbeacon_publish :: "ptr \<Rightarrow> string \<Rightarrow> 'w \<Rightarrow> 'w"
  zbeacon_silence :: "ptr \<Rightarrow> 'w \<Rightarrow> 'w"
  zbeacon_subscribe :: "ptr \<Rightarrow> string option \<Rightarrow> 'w \<Rightarrow> 'w"
  zbeacon_unsubscribe :: "ptr \<Rightarrow> 'w \<Rightarrow> 'w"
  zbeacon_socket :: "ptr \<Rightarrow> 'w \<Rightarrow> ptr"
  \<comment> \<open>the process\<close>
  zctx_interrupted :: "'w \<Rightarrow> bool"
  interrupt :: "'w \<Rightarrow> 'w"                        \<comment> \<open>\<^verbatim>\<open>zctx_interrupted = 1\<close>\<close>
  zclock_time :: "'w \<Rightarrow> int"
  zmq_version :: "int \<times> int \<times> int"
  czmq_version :: "int \<times> int \<times> int"

end
