(* ===== verification/Zmq_Objects.thy ===== *)
theory Zmq_Objects
  imports Zmq_Api
begin

text \<open>
  The structs of the headers, the state of the extension, and the macros that fetch a struct from
  a Ruby value and guard the functions.

  The state \<open>vm\<close> holds one heap per struct type, the Ruby arrays the extension creates, the state
  of the libraries, and what the extension asks of its process (the process id, the current
  thread, the source position). An address that is not in its heap was freed (or never was).
\<close>

section \<open>Structs (context.h, socket.h, frame.h, message.h, timer.h, pollitem.h, poller.h, loop.h, beacon.h)\<close>

record zmq_ctx_wrapper =
  c_ctx :: ptr
  c_flags :: flags
  c_pid :: int
  c_pidValue :: rvalue
  c_file :: string
  c_line :: int
  c_sockets :: ptr

record zmq_sock_wrapper =
  s_ctx :: ptr
  s_socket :: ptr
  s_ctx_wrapper :: ptr
  s_flags :: flags
  s_verbose :: bool
  s_state :: flags
  s_endpoints :: rvalue
  s_thread :: rvalue
  s_context :: rvalue
  s_monitor_endpoint :: rvalue
  s_monitor_handler :: rvalue
  s_monitor_thread :: rvalue

record zmq_frame_wrapper =
  f_frame :: ptr
  f_message :: ptr
  f_flags :: flags

record zmq_message_wrapper =
  m_message :: ptr
  m_flags :: flags
  m_frames :: ptr

record zmq_timer_wrapper =
  t_delay :: "64 word"
  t_times :: "64 word"
  t_cancelled :: bool
  t_callback :: rvalue

record zmq_pollitem_wrapper =
  p_socket :: rvalue
  p_io :: rvalue
  p_events :: rvalue
  p_handler :: rvalue
  p_item :: zmq_pollitem_t

record zmq_poll_wrapper =
  pl_pollables :: rvalue
  pl_readables :: rvalue
  pl_writables :: rvalue
  pl_pollset :: "zmq_pollitem_t list"
  pl_poll_size :: cint
  pl_dirty :: bool
  pl_verbose :: bool

record zmq_loop_wrapper =
  l_loop :: ptr
  l_flags :: flags
  l_verbose :: bool
  l_running :: bool
  l_items :: rvalue

record zmq_beacon_wrapper =
  b_beacon :: ptr

text \<open>\<^verbatim>\<open>ZMQ_CONTEXT_DESTROYED\<close>, \<^verbatim>\<open>ZMQ_SOCKET_DESTROYED\<close>, the connection states, and the ownership flags.\<close>

definition ZMQ_CONTEXT_DESTROYED :: flags where "ZMQ_CONTEXT_DESTROYED = 1"
definition ZMQ_SOCKET_DESTROYED :: flags where "ZMQ_SOCKET_DESTROYED = 1"
definition ZMQ_SOCKET_PENDING :: flags where "ZMQ_SOCKET_PENDING = 1"
definition ZMQ_SOCKET_BOUND :: flags where "ZMQ_SOCKET_BOUND = 2"
definition ZMQ_SOCKET_CONNECTED :: flags where "ZMQ_SOCKET_CONNECTED = 4"
definition ZMQ_SOCKET_DISCONNECTED :: flags where "ZMQ_SOCKET_DISCONNECTED = 8"
definition ZMQ_FRAME_OWNED :: flags where "ZMQ_FRAME_OWNED = 1"
definition ZMQ_MESSAGE_OWNED :: flags where "ZMQ_MESSAGE_OWNED = 1"
definition ZMQ_LOOP_DESTROYED :: flags where "ZMQ_LOOP_DESTROYED = 1"

lemma flag_nonzero [simp, flag_simps]:
  "ZMQ_CONTEXT_DESTROYED \<noteq> 0" "ZMQ_SOCKET_DESTROYED \<noteq> 0" "ZMQ_FRAME_OWNED \<noteq> 0"
  "ZMQ_MESSAGE_OWNED \<noteq> 0" "ZMQ_LOOP_DESTROYED \<noteq> 0"
  by (simp_all add: ZMQ_CONTEXT_DESTROYED_def ZMQ_SOCKET_DESTROYED_def ZMQ_FRAME_OWNED_def
      ZMQ_MESSAGE_OWNED_def ZMQ_LOOP_DESTROYED_def)

lemmas socket_state_defs =
  ZMQ_SOCKET_PENDING_def ZMQ_SOCKET_BOUND_def ZMQ_SOCKET_CONNECTED_def ZMQ_SOCKET_DISCONNECTED_def

section \<open>The state\<close>

record 'w vm =
  lib :: 'w
  fresh :: ptr                                  \<comment> \<open>the next address the allocator gives out\<close>
  ctxs :: "ptr \<rightharpoonup> zmq_ctx_wrapper"
  socks :: "ptr \<rightharpoonup> zmq_sock_wrapper"
  frames :: "ptr \<rightharpoonup> zmq_frame_wrapper"
  msgs :: "ptr \<rightharpoonup> zmq_message_wrapper"
  timers :: "ptr \<rightharpoonup> zmq_timer_wrapper"
  pollitems :: "ptr \<rightharpoonup> zmq_pollitem_wrapper"
  pollers :: "ptr \<rightharpoonup> zmq_poll_wrapper"
  loops :: "ptr \<rightharpoonup> zmq_loop_wrapper"
  beacons :: "ptr \<rightharpoonup> zmq_beacon_wrapper"
  arrays :: "ptr \<rightharpoonup> rvalue list"
  ctx_map :: "rvalue \<Rightarrow> rvalue"                  \<comment> \<open>\<^verbatim>\<open>@__zmq_ctx_process\<close>: process id to context\<close>
  pid :: int                                    \<comment> \<open>\<^verbatim>\<open>getpid()\<close>\<close>
  thread :: rvalue                              \<comment> \<open>\<^verbatim>\<open>rb_thread_current()\<close>\<close>
  source :: "string \<times> int"                      \<comment> \<open>\<^verbatim>\<open>rb_sourcefile()\<close>, \<^verbatim>\<open>rb_sourceline()\<close>\<close>

type_synonym ('w, 'a) vcmd = "('w vm, 'a) cmd"

text \<open>
  \<^verbatim>\<open>rb_funcall\<close>: a Ruby method of a given object, with arguments. The code it runs is the
  program's, so it is an argument of the definitions that call back.
\<close>

type_synonym 'w rb_funcall = "rvalue \<Rightarrow> string \<Rightarrow> rvalue list \<Rightarrow> ('w, rvalue) vcmd"

text \<open>Reading a struct through a pointer, and assigning to its fields.\<close>

definition deref :: "('w vm \<Rightarrow> ptr \<rightharpoonup> 'r) \<Rightarrow> ptr \<Rightarrow> ('r \<Rightarrow> ('w, 'a) vcmd) \<Rightarrow> ('w, 'a) vcmd" where
  "deref h p k s = (case h s p of None \<Rightarrow> Crash UseAfterFree | Some r \<Rightarrow> k r s)"

lemma deref_run [simp]:
  "h s p = Some r \<Longrightarrow> deref h p k s = k r s"
  "h s p = None \<Longrightarrow> deref h p k s = Crash UseAfterFree"
  by (simp_all add: deref_def)

text \<open>Assignments to one struct; the struct must still be allocated.\<close>

definition set_frame :: "ptr \<Rightarrow> (zmq_frame_wrapper \<Rightarrow> zmq_frame_wrapper) \<Rightarrow> ('w, 'a) vcmd \<Rightarrow> ('w, 'a) vcmd" where
  "set_frame p g k = deref frames p (\<lambda>r. wr (\<lambda>s. s\<lparr>frames := (frames s)(p \<mapsto> g r)\<rparr>) k)"

definition set_msg :: "ptr \<Rightarrow> (zmq_message_wrapper \<Rightarrow> zmq_message_wrapper) \<Rightarrow> ('w, 'a) vcmd \<Rightarrow> ('w, 'a) vcmd" where
  "set_msg p g k = deref msgs p (\<lambda>r. wr (\<lambda>s. s\<lparr>msgs := (msgs s)(p \<mapsto> g r)\<rparr>) k)"

definition set_sock :: "ptr \<Rightarrow> (zmq_sock_wrapper \<Rightarrow> zmq_sock_wrapper) \<Rightarrow> ('w, 'a) vcmd \<Rightarrow> ('w, 'a) vcmd" where
  "set_sock p g k = deref socks p (\<lambda>r. wr (\<lambda>s. s\<lparr>socks := (socks s)(p \<mapsto> g r)\<rparr>) k)"

definition set_ctx :: "ptr \<Rightarrow> (zmq_ctx_wrapper \<Rightarrow> zmq_ctx_wrapper) \<Rightarrow> ('w, 'a) vcmd \<Rightarrow> ('w, 'a) vcmd" where
  "set_ctx p g k = deref ctxs p (\<lambda>r. wr (\<lambda>s. s\<lparr>ctxs := (ctxs s)(p \<mapsto> g r)\<rparr>) k)"

lemma set_run [simp]:
  "frames s p = Some f \<Longrightarrow> set_frame p g k s = k (s\<lparr>frames := (frames s)(p \<mapsto> g f)\<rparr>)"
  "msgs s p = Some m \<Longrightarrow> set_msg p h k s = k (s\<lparr>msgs := (msgs s)(p \<mapsto> h m)\<rparr>)"
  "socks s p = Some sk \<Longrightarrow> set_sock p u k s = k (s\<lparr>socks := (socks s)(p \<mapsto> u sk)\<rparr>)"
  "ctxs s p = Some c \<Longrightarrow> set_ctx p v k s = k (s\<lparr>ctxs := (ctxs s)(p \<mapsto> v c)\<rparr>)"
  by (simp_all add: set_frame_def set_msg_def set_sock_def set_ctx_def)

text \<open>\<^verbatim>\<open>Data_Make_Struct\<close>: a new struct at an address not in use.\<close>

definition make_struct :: "(ptr \<Rightarrow> 'w vm \<Rightarrow> 'w vm) \<Rightarrow> (ptr \<Rightarrow> ('w, 'a) vcmd) \<Rightarrow> ('w, 'a) vcmd" where
  "make_struct put k s = k (fresh s) (put (fresh s) s\<lparr>fresh := Suc (fresh s)\<rparr>)"

lemma make_struct_run [simp]:
  "make_struct put k s = k (fresh s) (put (fresh s) s\<lparr>fresh := Suc (fresh s)\<rparr>)"
  by (simp add: make_struct_def)

text \<open>Calling into the libraries: a query, an update, and an update with a result.\<close>

definition ask :: "('w \<Rightarrow> 'b) \<Rightarrow> ('b \<Rightarrow> ('w, 'a) vcmd) \<Rightarrow> ('w, 'a) vcmd" where
  "ask f k s = k (f (lib s)) s"

definition tell :: "('w \<Rightarrow> 'w) \<Rightarrow> ('w, 'a) vcmd \<Rightarrow> ('w, 'a) vcmd" where
  "tell f k s = k (s\<lparr>lib := f (lib s)\<rparr>)"

definition invoke :: "('w \<Rightarrow> 'b \<times> 'w) \<Rightarrow> ('b \<Rightarrow> ('w, 'a) vcmd) \<Rightarrow> ('w, 'a) vcmd" where
  "invoke f k s = (case f (lib s) of (r, w) \<Rightarrow> k r (s\<lparr>lib := w\<rparr>))"

lemma ask_run [simp]: "ask f k s = k (f (lib s)) s"
  by (simp add: ask_def)

lemma tell_run [simp]: "tell f k s = k (s\<lparr>lib := f (lib s)\<rparr>)"
  by (simp add: tell_def)

text \<open>A call of a library function that may block for ever.\<close>

definition invoke_blocking :: "('w \<rightharpoonup> 'b \<times> 'w) \<Rightarrow> ('b \<Rightarrow> ('w, 'a) vcmd) \<Rightarrow> ('w, 'a) vcmd" where
  "invoke_blocking f k s =
     (case f (lib s) of None \<Rightarrow> Crash NonTerminating | Some (r, w) \<Rightarrow> k r (s\<lparr>lib := w\<rparr>))"

lemma invoke_blocking_run [simp]:
  "f (lib s) = Some (r, w) \<Longrightarrow> invoke_blocking f k s = k r (s\<lparr>lib := w\<rparr>)"
  "f (lib s) = None \<Longrightarrow> invoke_blocking f k s = Crash NonTerminating"
  by (simp_all add: invoke_blocking_def)

lemma invoke_run [run]: "invoke f k s = (case f (lib s) of (r, w) \<Rightarrow> k r (s\<lparr>lib := w\<rparr>))"
  by (simp add: invoke_def)

lemma invoke_eq [simp]: "f (lib s) = (r, w) \<Longrightarrow> invoke f k s = k r (s\<lparr>lib := w\<rparr>)"
  by (simp add: invoke_def)

text \<open>An object handed to a library function must be one the library still has.\<close>

definition live_frame :: "'w czmq \<Rightarrow> ptr \<Rightarrow> ('w, 'a) vcmd \<Rightarrow> ('w, 'a) vcmd" where
  "live_frame A p k s = (if zframes (view A (lib s)) p = None then Crash BadHandle else k s)"

definition live_msg :: "'w czmq \<Rightarrow> ptr \<Rightarrow> ('w, 'a) vcmd \<Rightarrow> ('w, 'a) vcmd" where
  "live_msg A p k s = (if zmsgs (view A (lib s)) p = None then Crash BadHandle else k s)"

definition live_list :: "'w czmq \<Rightarrow> ptr \<Rightarrow> ('w, 'a) vcmd \<Rightarrow> ('w, 'a) vcmd" where
  "live_list A p k s = (if zlists (view A (lib s)) p = None then Crash BadHandle else k s)"

definition live_sock :: "'w czmq \<Rightarrow> ptr \<Rightarrow> ('w, 'a) vcmd \<Rightarrow> ('w, 'a) vcmd" where
  "live_sock A p k s = (if zsocks (view A (lib s)) p = None then Crash BadHandle else k s)"

definition live_ctx :: "'w czmq \<Rightarrow> ptr \<Rightarrow> ('w, 'a) vcmd \<Rightarrow> ('w, 'a) vcmd" where
  "live_ctx A p k s = (if zctxs (view A (lib s)) p = None then Crash BadHandle else k s)"

lemma live_run [simp]:
  "zframes (view A (lib s)) p = Some b \<Longrightarrow> live_frame A p k s = k s"
  "zmsgs (view A (lib s)) p = Some fs \<Longrightarrow> live_msg A p k s = k s"
  "zlists (view A (lib s)) p = Some xs \<Longrightarrow> live_list A p k s = k s"
  "zsocks (view A (lib s)) p = Some st \<Longrightarrow> live_sock A p k s = k s"
  "zctxs (view A (lib s)) p = Some n \<Longrightarrow> live_ctx A p k s = k s"
  by (simp_all add: live_frame_def live_msg_def live_list_def live_sock_def live_ctx_def)

lemma dead_run [simp]:
  "zframes (view A (lib s)) p = None \<Longrightarrow> live_frame A p k s = Crash BadHandle"
  "zmsgs (view A (lib s)) p = None \<Longrightarrow> live_msg A p k s = Crash BadHandle"
  "zlists (view A (lib s)) p = None \<Longrightarrow> live_list A p k s = Crash BadHandle"
  "zsocks (view A (lib s)) p = None \<Longrightarrow> live_sock A p k s = Crash BadHandle"
  "zctxs (view A (lib s)) p = None \<Longrightarrow> live_ctx A p k s = Crash BadHandle"
  by (simp_all add: live_frame_def live_msg_def live_list_def live_sock_def live_ctx_def)

text \<open>
  An item of a czmq list cast back to a \<^verbatim>\<open>VALUE\<close> (the null pointer is \<open>Qfalse\<close>), and the expression
  \<^verbatim>\<open>v ? v : Qnil\<close>.
\<close>

definition VALUE_of :: "void option \<Rightarrow> rvalue" where
  "VALUE_of x =
     (case x of None \<Rightarrow> Qfalse | Some (VAL v) \<Rightarrow> v | Some (PTR p) \<Rightarrow> Object (rb_cOther ''void *'') p)"

definition or_nil :: "rvalue \<Rightarrow> rvalue" where
  "or_nil v = (if v = Qfalse then Qnil else v)"

lemma VALUE_of_simps [simp]:
  "VALUE_of None = Qfalse" "VALUE_of (Some (VAL v)) = v" "or_nil Qfalse = Qnil"
  "or_nil (Object k p) = Object k p"
  by (simp_all add: VALUE_of_def or_nil_def)

section \<open>Fetching a struct from a Ruby value\<close>

text \<open>
  \<^verbatim>\<open>ZmqAssertType\<close> refuses a value of another class with a TypeError; \<^verbatim>\<open>Data_Get_Struct\<close> yields
  the address behind the object, and a null address is an uninitialized object.
\<close>

definition fetch :: "(klass \<Rightarrow> bool) \<Rightarrow> string \<Rightarrow> string \<Rightarrow> rvalue \<Rightarrow> (ptr \<Rightarrow> ('w, 'a) vcmd) \<Rightarrow> ('w, 'a) vcmd" where
  "fetch K desc uninit obj k =
     (case obj of
        Object c p \<Rightarrow>
          if K c then (if p = NULL then raise (TypeError uninit) else k p)
          else raise (TypeError desc)
      | _ \<Rightarrow> raise (TypeError desc))"

definition ZmqGetContext :: "rvalue \<Rightarrow> (ptr \<Rightarrow> ('w, 'a) vcmd) \<Rightarrow> ('w, 'a) vcmd" where
  "ZmqGetContext obj k =
     fetch (\<lambda>c. c = rb_cZmqContext) ''ZMQ::Context'' ''uninitialized ZMQ context!'' obj (\<lambda>ctx.
     deref ctxs ctx (\<lambda>c.
     check (\<not> has (c_flags c) ZMQ_CONTEXT_DESTROYED)
       (ZmqError ''ZMQ::Context instance has been destroyed by the ZMQ framework'')
     (k ctx)))"

definition ZmqAssertContextPidMatches :: "ptr \<Rightarrow> ('w, 'a) vcmd \<Rightarrow> ('w, 'a) vcmd" where
  "ZmqAssertContextPidMatches ctx k =
     deref ctxs ctx (\<lambda>c.
     rd pid (\<lambda>getpid.
     check (c_pid c = getpid) (ZmqError ''ZMQ::Context instance belongs to another process'') k))"

definition GetZmqSocket :: "rvalue \<Rightarrow> (ptr \<Rightarrow> ('w, 'a) vcmd) \<Rightarrow> ('w, 'a) vcmd" where
  "GetZmqSocket obj k =
     fetch socket_klass ''ZMQ::Socket'' ''uninitialized ZMQ socket!'' obj (\<lambda>sock.
     deref socks sock (\<lambda>w.
     check (\<not> has (s_flags w) ZMQ_SOCKET_DESTROYED)
       (ZmqError ''ZMQ::Socket instance has been destroyed by the ZMQ framework'')
     (k sock)))"

definition ZmqSockGuardCrossThread :: "ptr \<Rightarrow> ('w, 'a) vcmd \<Rightarrow> ('w, 'a) vcmd" where
  "ZmqSockGuardCrossThread sock k =
     deref socks sock (\<lambda>w.
     rd thread (\<lambda>cur.
     check (s_thread w = cur) (ZmqError ''Cross thread violation'') k))"

definition ZmqAssertSocketNotPending :: "ptr \<Rightarrow> string \<Rightarrow> ('w, 'a) vcmd \<Rightarrow> ('w, 'a) vcmd" where
  "ZmqAssertSocketNotPending sock msg k =
     deref socks sock (\<lambda>w.
     check (has (s_state w) (ZMQ_SOCKET_BOUND OR ZMQ_SOCKET_CONNECTED)) (ZmqError msg) k)"

definition ZmqGetFrame :: "rvalue \<Rightarrow> (ptr \<Rightarrow> ('w, 'a) vcmd) \<Rightarrow> ('w, 'a) vcmd" where
  "ZmqGetFrame obj k =
     fetch (\<lambda>c. c = rb_cZmqFrame) ''ZMQ::Frame'' ''uninitialized ZMQ frame!'' obj k"

definition ZmqAssertMessage :: "rvalue \<Rightarrow> ('w, 'a) vcmd \<Rightarrow> ('w, 'a) vcmd" where
  "ZmqAssertMessage obj k =
     (case obj of
        Object c p \<Rightarrow> if c = rb_cZmqMessage then k else raise (TypeError ''ZMQ::Message'')
      | _ \<Rightarrow> raise (TypeError ''ZMQ::Message''))"

definition ZmqGetMessage :: "rvalue \<Rightarrow> (ptr \<Rightarrow> ('w, 'a) vcmd) \<Rightarrow> ('w, 'a) vcmd" where
  "ZmqGetMessage obj k =
     fetch (\<lambda>c. c = rb_cZmqMessage) ''ZMQ::Message'' ''uninitialized ZMQ message!'' obj k"

text \<open>
  \<^verbatim>\<open>(wrapper->flags & ZMQ_FRAME_OWNED) != 0 || (wrapper->message != NULL && ...)\<close>: the condition
  of \<^verbatim>\<open>ZmqAssertFrameOwned\<close> and \<^verbatim>\<open>ZmqReturnNilUnlessFrameOwned\<close>. It reads the message struct
  only when the frame's own flag is clear.
\<close>

definition frame_accessible :: "ptr \<Rightarrow> (bool \<Rightarrow> ('w, 'a) vcmd) \<Rightarrow> ('w, 'a) vcmd" where
  "frame_accessible wrapper k =
     deref frames wrapper (\<lambda>f.
     if has (f_flags f) ZMQ_FRAME_OWNED then k True
     else if f_message f = NULL then k False
     else deref msgs (f_message f) (\<lambda>m. k (has (m_flags m) ZMQ_MESSAGE_OWNED)))"

definition ZmqAssertFrameOwned :: "ptr \<Rightarrow> ('w, 'a) vcmd \<Rightarrow> ('w, 'a) vcmd" where
  "ZmqAssertFrameOwned wrapper k =
     frame_accessible wrapper (\<lambda>ok.
     check ok (ZmqError ''Cannot access frame that belongs to another message or is gone.'') k)"

definition ZmqReturnNilUnlessFrameOwned :: "ptr \<Rightarrow> ('w, rvalue) vcmd \<Rightarrow> ('w, rvalue) vcmd" where
  "ZmqReturnNilUnlessFrameOwned wrapper k =
     frame_accessible wrapper (\<lambda>ok. if ok then k else ret Qnil)"

definition ZmqAssertFrameOwnedNoMessage :: "ptr \<Rightarrow> ('w, 'a) vcmd \<Rightarrow> ('w, 'a) vcmd" where
  "ZmqAssertFrameOwnedNoMessage wrapper k =
     deref frames wrapper (\<lambda>f.
     check (has (f_flags f) ZMQ_FRAME_OWNED)
       (ZmqError ''Cannot access frame that belongs to another message or is gone.'') k)"

definition ZmqReturnNilUnlessOwned :: "ptr \<Rightarrow> ('w, rvalue) vcmd \<Rightarrow> ('w, rvalue) vcmd" where
  "ZmqReturnNilUnlessOwned wrapper k =
     deref msgs wrapper (\<lambda>m. if has (m_flags m) ZMQ_MESSAGE_OWNED then k else ret Qnil)"

definition ZmqAssertMessageOwned :: "ptr \<Rightarrow> ('w, 'a) vcmd \<Rightarrow> ('w, 'a) vcmd" where
  "ZmqAssertMessageOwned wrapper k =
     deref msgs wrapper (\<lambda>m.
     check (has (m_flags m) ZMQ_MESSAGE_OWNED) (TypeError ''Cannot modify a message that is gone.'') k)"

lemma ZmqGetFrame_run [simp]:
  "p \<noteq> NULL \<Longrightarrow> ZmqGetFrame (Object rb_cZmqFrame p) k = k p"
  by (simp add: ZmqGetFrame_def fetch_def)

lemma ZmqGetMessage_run [simp]:
  "p \<noteq> NULL \<Longrightarrow> ZmqGetMessage (Object rb_cZmqMessage p) k = k p"
  by (simp add: ZmqGetMessage_def fetch_def)

lemma message_guard_run [simp]:
  "msgs s p = Some m \<Longrightarrow> has (m_flags m) ZMQ_MESSAGE_OWNED \<Longrightarrow> ZmqAssertMessageOwned p k s = k s"
  "msgs s p = Some m \<Longrightarrow> has (m_flags m) ZMQ_MESSAGE_OWNED \<Longrightarrow> ZmqReturnNilUnlessOwned p k' s = k' s"
  "msgs s p = Some m \<Longrightarrow> \<not> has (m_flags m) ZMQ_MESSAGE_OWNED \<Longrightarrow>
     ZmqAssertMessageOwned p k s = Raise (TypeError ''Cannot modify a message that is gone.'') s"
  "msgs s p = Some m \<Longrightarrow> \<not> has (m_flags m) ZMQ_MESSAGE_OWNED \<Longrightarrow>
     ZmqReturnNilUnlessOwned p k' s = Return Qnil s"
  by (simp_all add: ZmqAssertMessageOwned_def ZmqReturnNilUnlessOwned_def)

text \<open>Whether the frame object at an address may be read, as the guards decide it.\<close>

definition accessible :: "'w vm \<Rightarrow> ptr \<Rightarrow> bool" where
  "accessible s p =
     (case frames s p of
        None \<Rightarrow> False
      | Some f \<Rightarrow> has (f_flags f) ZMQ_FRAME_OWNED \<or>
          (case msgs s (f_message f) of None \<Rightarrow> False | Some m \<Rightarrow>
             f_message f \<noteq> NULL \<and> has (m_flags m) ZMQ_MESSAGE_OWNED))"

lemma frame_accessible_run [run]:
  assumes "frames s p = Some f"
    and "has (f_flags f) ZMQ_FRAME_OWNED \<or> f_message f = NULL \<or> msgs s (f_message f) \<noteq> None"
  shows "frame_accessible p k s = k (accessible s p) s"
  using assms by (auto simp: frame_accessible_def accessible_def split: option.splits)

section \<open>Return codes of the libraries\<close>

text \<open>
  \<^verbatim>\<open>ZmqAssertSysError\<close> raises the system error that \<^verbatim>\<open>zmq_errno()\<close> names, unless there is none or it is
  \<^verbatim>\<open>EAGAIN\<close>. \<^verbatim>\<open>ZmqAssert\<close> on a return code of -1 raises for a context without I/O threads and for any
  other system error, and otherwise makes the calling function return false. Its comparison of
  the return code with \<^verbatim>\<open>ENOMEM\<close> is kept as it is written.
\<close>

definition ZmqAssertSysError :: "'w czmq \<Rightarrow> ('w, 'a) vcmd \<Rightarrow> ('w, 'a) vcmd" where
  "ZmqAssertSysError A k =
     ask (zmq_errno A) (\<lambda>e.
     if e \<noteq> 0 \<and> e \<noteq> errcode A EAGAIN then raise (SysError e) else k)"

definition ZmqAssert :: "'w czmq \<Rightarrow> int \<Rightarrow> ('w, rvalue) vcmd \<Rightarrow> ('w, rvalue) vcmd" where
  "ZmqAssert A rc k =
     (if rc = -1 then
        if rc = errcode A ENOMEM then raise NoMemError
        else
          ask (zmq_errno A) (\<lambda>e.
          if e = errcode A EMTHREAD then
            raise (ZmqError ''There are no I/O thread available to complete this operation.'')
          else ZmqAssertSysError A (ret Qfalse))
      else k)"

lemma ZmqAssert_ok [simp]: "rc \<noteq> -1 \<Longrightarrow> ZmqAssert A rc k = k"
  by (simp add: ZmqAssert_def)

text \<open>An allocation that came back null: the system error if there is one, else out of memory.\<close>

definition ZmqAssertObjOnAlloc :: "'w czmq \<Rightarrow> ptr \<Rightarrow> ('w vm \<Rightarrow> 'w vm) \<Rightarrow> ('w, 'a) vcmd \<Rightarrow> ('w, 'a) vcmd" where
  "ZmqAssertObjOnAlloc A obj xfree k =
     (if obj = NULL then wr xfree (ZmqAssertSysError A (raise NoMemError)) else k)"

lemma ZmqAssertObjOnAlloc_ok [simp]: "obj \<noteq> NULL \<Longrightarrow> ZmqAssertObjOnAlloc A obj xf k = k"
  by (simp add: ZmqAssertObjOnAlloc_def)

section \<open>Ruby arrays\<close>

definition ary :: "'w vm \<Rightarrow> rvalue \<Rightarrow> rvalue list" where
  "ary s v = (case v of Object rb_cArray p \<Rightarrow> (case arrays s p of Some xs \<Rightarrow> xs | None \<Rightarrow> []) | _ \<Rightarrow> [])"

definition rb_ary_new :: "(rvalue \<Rightarrow> ('w, 'a) vcmd) \<Rightarrow> ('w, 'a) vcmd" where
  "rb_ary_new k = make_struct (\<lambda>p s. s\<lparr>arrays := (arrays s)(p \<mapsto> [])\<rparr>) (\<lambda>p. k (Object rb_cArray p))"

text \<open>\<^verbatim>\<open>rb_ary_new3\<close>: a new array with the given elements.\<close>

definition rb_ary_new3 :: "rvalue list \<Rightarrow> (rvalue \<Rightarrow> ('w, 'a) vcmd) \<Rightarrow> ('w, 'a) vcmd" where
  "rb_ary_new3 xs k = make_struct (\<lambda>p s. s\<lparr>arrays := (arrays s)(p \<mapsto> xs)\<rparr>) (\<lambda>p. k (Object rb_cArray p))"

text \<open>A Ruby object the extension only creates and hands on: an exception, a thread, a handler.\<close>

definition rb_object_new :: "klass \<Rightarrow> (rvalue \<Rightarrow> ('w, 'a) vcmd) \<Rightarrow> ('w, 'a) vcmd" where
  "rb_object_new c k = make_struct (\<lambda>p s. s) (\<lambda>p. k (Object c p))"

definition rb_ary_store_all :: "rvalue \<Rightarrow> rvalue list \<Rightarrow> 'w vm \<Rightarrow> 'w vm" where
  "rb_ary_store_all v xs s = (case v of Object rb_cArray p \<Rightarrow> s\<lparr>arrays := (arrays s)(p \<mapsto> xs)\<rparr> | _ \<Rightarrow> s)"

definition rb_ary_push :: "rvalue \<Rightarrow> rvalue \<Rightarrow> ('w, 'a) vcmd \<Rightarrow> ('w, 'a) vcmd" where
  "rb_ary_push v x = wr (\<lambda>s. rb_ary_store_all v (ary s v @ [x]) s)"

text \<open>\<^verbatim>\<open>rb_ary_delete\<close> removes every element equal to the item.\<close>

definition rb_ary_delete :: "rvalue \<Rightarrow> rvalue \<Rightarrow> ('w, 'a) vcmd \<Rightarrow> ('w, 'a) vcmd" where
  "rb_ary_delete v x = wr (\<lambda>s. rb_ary_store_all v (removeAll x (ary s v)) s)"

definition rb_ary_clear :: "rvalue \<Rightarrow> ('w, 'a) vcmd \<Rightarrow> ('w, 'a) vcmd" where
  "rb_ary_clear v = wr (rb_ary_store_all v [])"

text \<open>\<^verbatim>\<open>rb_ary_entry\<close> is nil out of range; the indices the extension uses are not negative.\<close>

definition rb_ary_entry :: "rvalue list \<Rightarrow> nat \<Rightarrow> rvalue" where
  "rb_ary_entry xs i = (if i < length xs then xs ! i else Qnil)"

lemma ary_push_run [simp]:
  "rb_ary_push (Object rb_cArray p) x k s = k (s\<lparr>arrays := (arrays s)(p \<mapsto> ary s (Object rb_cArray p) @ [x])\<rparr>)"
  by (simp add: rb_ary_push_def rb_ary_store_all_def)

lemma ary_delete_run [simp]:
  "rb_ary_delete (Object rb_cArray p) x k s =
     k (s\<lparr>arrays := (arrays s)(p \<mapsto> removeAll x (ary s (Object rb_cArray p)))\<rparr>)"
  by (simp add: rb_ary_delete_def rb_ary_store_all_def)

lemma ary_clear_run [simp]:
  "rb_ary_clear (Object rb_cArray p) k s = k (s\<lparr>arrays := (arrays s)(p \<mapsto> [])\<rparr>)"
  by (simp add: rb_ary_clear_def rb_ary_store_all_def)

lemma ary_new_run [simp]:
  "rb_ary_new k s =
     k (Object rb_cArray (fresh s)) (s\<lparr>arrays := (arrays s)(fresh s \<mapsto> []), fresh := Suc (fresh s)\<rparr>)"
  by (simp add: rb_ary_new_def)

lemma ary_Object [simp]: "arrays s p = Some xs \<Longrightarrow> ary s (Object rb_cArray p) = xs"
  by (simp add: ary_def)

end
