(* ===== verification/Zmq_Docs.thy ===== *)
theory Zmq_Docs
  imports Zmq_Api
begin

text \<open>
  What the documentation of libczmq says of the functions the extension calls, as predicates over
  the record of functions. Each statement is about objects that are allocated; a call that can
  fail (a null pointer, a return code of -1) may fail in any state and then changes nothing.
  These predicates are the hypotheses of the theorems whose code depends on the library.
\<close>

named_theorems lib_simps \<open>what a library call does to the objects it keeps\<close>

section \<open>Lists\<close>

definition zlist_doc :: "'w czmq \<Rightarrow> bool" where
  "zlist_doc A \<longleftrightarrow>
     (\<forall>w. zlists (view A w) NULL = None) \<and>
     (\<forall>w. fst (zlist_new A w) \<noteq> NULL \<and> zlists (view A w) (fst (zlist_new A w)) = None \<and>
        view A (snd (zlist_new A w)) =
          (view A w)\<lparr>zlists := (zlists (view A w))(fst (zlist_new A w) \<mapsto> [])\<rparr> \<and>
        (\<forall>m. zmsg_cursor A m (snd (zlist_new A w)) = zmsg_cursor A m w)) \<and>
     (\<forall>l xs w. zlists (view A w) l = Some xs \<longrightarrow>
        (\<forall>x. view A (zlist_push A l x w) = (view A w)\<lparr>zlists := (zlists (view A w))(l \<mapsto> x # xs)\<rparr>) \<and>
        (\<forall>x. view A (zlist_append A l x w) = (view A w)\<lparr>zlists := (zlists (view A w))(l \<mapsto> xs @ [x])\<rparr> \<and>
             (\<forall>m. zmsg_cursor A m (zlist_append A l x w) = zmsg_cursor A m w)) \<and>
        (\<forall>x. view A (zlist_remove A l x w) = (view A w)\<lparr>zlists := (zlists (view A w))(l \<mapsto> remove1 x xs)\<rparr>) \<and>
        fst (zlist_pop A l w) = (case xs of [] \<Rightarrow> None | x # _ \<Rightarrow> Some x) \<and>
        view A (snd (zlist_pop A l w)) = (view A w)\<lparr>zlists := (zlists (view A w))(l \<mapsto> tl xs)\<rparr> \<and>
        view A (zlist_destroy A l w) = (view A w)\<lparr>zlists := (zlists (view A w))(l := None)\<rparr> \<and>
        zlist_size A l w = length xs \<and>
        fst (zlist_first A l w) = (case xs of [] \<Rightarrow> None | x # _ \<Rightarrow> Some x) \<and>
        view A (snd (zlist_first A l w)) = view A w \<and>
        (xs \<noteq> [] \<longrightarrow> zlist_cursor A l (snd (zlist_first A l w)) = Some 0) \<and>
        fst (zlist_last A l w) = (if xs = [] then None else Some (last xs)) \<and>
        view A (snd (zlist_last A l w)) = view A w \<and>
        view A (snd (zlist_next A l w)) = view A w \<and>
        (\<forall>i. zlist_cursor A l w = Some i \<longrightarrow>
           fst (zlist_next A l w) = (if Suc i < length xs then Some (xs ! Suc i) else None) \<and>
           (Suc i < length xs \<longrightarrow> zlist_cursor A l (snd (zlist_next A l w)) = Some (Suc i))))"

lemma zlist_newD [lib_simps]:
  assumes "zlist_doc A"
  shows "fst (zlist_new A w) \<noteq> NULL" "zlists (view A w) (fst (zlist_new A w)) = None"
    and "view A (snd (zlist_new A w)) =
          (view A w)\<lparr>zlists := (zlists (view A w))(fst (zlist_new A w) \<mapsto> [])\<rparr>"
    and "zmsg_cursor A m (snd (zlist_new A w)) = zmsg_cursor A m w"
    and "zlists (view A w) NULL = None"
  using assms unfolding zlist_doc_def by blast+

lemma zlist_liveD [lib_simps]:
  assumes "zlist_doc A" and "zlists (view A w) l = Some xs"
  shows "view A (zlist_push A l x w) = (view A w)\<lparr>zlists := (zlists (view A w))(l \<mapsto> x # xs)\<rparr>"
    and "view A (zlist_append A l x w) = (view A w)\<lparr>zlists := (zlists (view A w))(l \<mapsto> xs @ [x])\<rparr>"
    and "zmsg_cursor A m (zlist_append A l x w) = zmsg_cursor A m w"
    and "view A (zlist_remove A l x w) = (view A w)\<lparr>zlists := (zlists (view A w))(l \<mapsto> remove1 x xs)\<rparr>"
    and "fst (zlist_pop A l w) = (case xs of [] \<Rightarrow> None | x # _ \<Rightarrow> Some x)"
    and "view A (snd (zlist_pop A l w)) = (view A w)\<lparr>zlists := (zlists (view A w))(l \<mapsto> tl xs)\<rparr>"
    and "view A (zlist_destroy A l w) = (view A w)\<lparr>zlists := (zlists (view A w))(l := None)\<rparr>"
    and "zlist_size A l w = length xs"
    and "fst (zlist_first A l w) = (case xs of [] \<Rightarrow> None | x # _ \<Rightarrow> Some x)"
    and "view A (snd (zlist_first A l w)) = view A w"
    and "fst (zlist_last A l w) = (if xs = [] then None else Some (last xs))"
    and "view A (snd (zlist_last A l w)) = view A w"
    and "view A (snd (zlist_next A l w)) = view A w"
  using assms unfolding zlist_doc_def by blast+

lemma zlist_cursorD:
  assumes "zlist_doc A" and "zlists (view A w) l = Some xs"
  shows "xs \<noteq> [] \<Longrightarrow> zlist_cursor A l (snd (zlist_first A l w)) = Some 0"
    and "zlist_cursor A l w = Some i \<Longrightarrow>
      fst (zlist_next A l w) = (if Suc i < length xs then Some (xs ! Suc i) else None)"
    and "zlist_cursor A l w = Some i \<Longrightarrow> Suc i < length xs \<Longrightarrow>
      zlist_cursor A l (snd (zlist_next A l w)) = Some (Suc i)"
  using assms unfolding zlist_doc_def by blast+

section \<open>Frames\<close>

definition zframe_alloc_doc :: "'w czmq \<Rightarrow> 'w \<Rightarrow> string \<Rightarrow> ptr \<times> 'w \<Rightarrow> bool" where
  "zframe_alloc_doc A w d r =
     (if fst r = NULL then view A (snd r) = view A w
      else zframes (view A w) (fst r) = None \<and>
           view A (snd r) = (view A w)\<lparr>zframes := (zframes (view A w))(fst r \<mapsto> d)\<rparr>)"

definition zframe_doc :: "'w czmq \<Rightarrow> bool" where
  "zframe_doc A \<longleftrightarrow>
     (\<forall>e w. view A (set_errno A e w) = view A w \<and> zmq_errno A (set_errno A e w) = e) \<and>
     (\<forall>w. zframes (view A w) NULL = None) \<and>
     (\<forall>d w. zframe_alloc_doc A w d (zframe_new A d w)) \<and>
     (\<forall>p b w. zframes (view A w) p = Some b \<longrightarrow>
        zframe_size A p w = length b \<and>
        zframe_data A p w = b \<and>
        zframe_alloc_doc A w b (zframe_dup A p w) \<and>
        (\<forall>cs. zframe_streq A p cs w = (b = cs)) \<and>
        view A (zframe_destroy A p w) = (view A w)\<lparr>zframes := (zframes (view A w))(p := None)\<rparr> \<and>
        (\<forall>cs. view A (zframe_print A p cs w) = view A w) \<and>
        (\<forall>d. view A (zframe_reset A p d w) = (view A w)\<lparr>zframes := (zframes (view A w))(p \<mapsto> d)\<rparr>) \<and>
        (\<forall>q c. zframes (view A w) q = Some c \<longrightarrow> zframe_eq A p q w = (b = c)))"

lemma zframe_docD [lib_simps]:
  assumes "zframe_doc A"
  shows "view A (set_errno A e w) = view A w" "zmq_errno A (set_errno A e w) = e"
    and "zframes (view A w) NULL = None"
    and "zframe_alloc_doc A w d (zframe_new A d w)"
  using assms unfolding zframe_doc_def by blast+

lemma zframe_liveD [lib_simps]:
  assumes "zframe_doc A" and "zframes (view A w) p = Some b"
  shows "zframe_size A p w = length b"
    and "zframe_data A p w = b"
    and "zframe_alloc_doc A w b (zframe_dup A p w)"
    and "zframe_streq A p cs w = (b = cs)"
    and "view A (zframe_destroy A p w) = (view A w)\<lparr>zframes := (zframes (view A w))(p := None)\<rparr>"
    and "view A (zframe_print A p cs w) = view A w"
    and "view A (zframe_reset A p d w) = (view A w)\<lparr>zframes := (zframes (view A w))(p \<mapsto> d)\<rparr>"
    and "zframes (view A w) q = Some c \<Longrightarrow> zframe_eq A p q w = (b = c)"
  using assms unfolding zframe_doc_def by blast+

section \<open>Messages\<close>

definition bodies :: "cview \<Rightarrow> ptr list \<Rightarrow> string list" where
  "bodies v fs = map (\<lambda>f. case zframes v f of Some b \<Rightarrow> b | None \<Rightarrow> []) fs"

text \<open>A message that came into being with fresh frames of the given bodies.\<close>

definition zmsg_alloc_doc :: "'w czmq \<Rightarrow> 'w \<Rightarrow> string list \<Rightarrow> ptr \<times> 'w \<Rightarrow> bool" where
  "zmsg_alloc_doc A w bs r =
     (if fst r = NULL then view A (snd r) = view A w
      else zmsgs (view A w) (fst r) = None \<and>
        (\<exists>fs. length fs = length bs \<and> distinct fs \<and> NULL \<notin> set fs \<and>
          (\<forall>f. f \<in> set fs \<longrightarrow> zframes (view A w) f = None) \<and>
          view A (snd r) = (view A w)
            \<lparr>zframes := zframes (view A w) ++ map_of (zip fs bs),
             zmsgs := (zmsgs (view A w))(fst r \<mapsto> fs)\<rparr>))"

text \<open>A frame with the given body joined the message, or the call failed.\<close>

definition zmsg_mem_doc :: "'w czmq \<Rightarrow> 'w \<Rightarrow> ptr \<Rightarrow> (ptr \<Rightarrow> ptr list) \<Rightarrow> string \<Rightarrow> int \<times> 'w \<Rightarrow> bool" where
  "zmsg_mem_doc A w m place d r =
     (if fst r = 0
      then \<exists>f. f \<noteq> NULL \<and> zframes (view A w) f = None \<and>
        view A (snd r) = (view A w)
          \<lparr>zframes := (zframes (view A w))(f \<mapsto> d), zmsgs := (zmsgs (view A w))(m \<mapsto> place f)\<rparr>
      else fst r = -1 \<and> view A (snd r) = view A w)"

definition zmsg_put_doc :: "'w czmq \<Rightarrow> 'w \<Rightarrow> ptr \<Rightarrow> ptr list \<Rightarrow> int \<times> 'w \<Rightarrow> bool" where
  "zmsg_put_doc A w m fs r =
     (if fst r = 0 then view A (snd r) = (view A w)\<lparr>zmsgs := (zmsgs (view A w))(m \<mapsto> fs)\<rparr>
      else fst r = -1 \<and> view A (snd r) = view A w)"

text \<open>
  The encoding the source documents (\<^verbatim>\<open>"\006header\004body"\<close>): a length byte before each body. It is
  stated for bodies below 255 bytes.
\<close>

definition encode_short :: "string list \<Rightarrow> string" where
  "encode_short bs = concat (map (\<lambda>b. char_of (length b) # b) bs)"

definition zmsg_doc :: "'w czmq \<Rightarrow> bool" where
  "zmsg_doc A \<longleftrightarrow>
     (\<forall>w. zmsgs (view A w) NULL = None) \<and>
     (\<forall>w. zmsg_alloc_doc A w [] (zmsg_new A w)) \<and>
     (\<forall>m fs w. zmsgs (view A w) m = Some fs \<longrightarrow>
        zmsg_size A m w = length fs \<and>
        zmsg_content_size A m w = sum_list (map length (bodies (view A w) fs)) \<and>
        (\<forall>f. zmsg_put_doc A w m (f # fs) (zmsg_push A m f w)) \<and>
        (\<forall>f. zmsg_put_doc A w m (fs @ [f]) (zmsg_add A m f w)) \<and>
        fst (zmsg_pop A m w) = (case fs of [] \<Rightarrow> NULL | f # _ \<Rightarrow> f) \<and>
        view A (snd (zmsg_pop A m w)) = (view A w)\<lparr>zmsgs := (zmsgs (view A w))(m \<mapsto> tl fs)\<rparr> \<and>
        (\<forall>d. zmsg_mem_doc A w m (\<lambda>f. f # fs) d (zmsg_pushmem A m d w)) \<and>
        (\<forall>d. zmsg_mem_doc A w m (\<lambda>f. fs @ [f]) d (zmsg_addmem A m d w)) \<and>
        fst (zmsg_popstr A m w) = (case fs of [] \<Rightarrow> None | f # _ \<Rightarrow> zframes (view A w) f) \<and>
        view A (snd (zmsg_popstr A m w)) =
          (case fs of [] \<Rightarrow> view A w
           | f # r \<Rightarrow> (view A w)\<lparr>zframes := (zframes (view A w))(f := None),
                               zmsgs := (zmsgs (view A w))(m \<mapsto> r)\<rparr>) \<and>
        (\<forall>f. zframes (view A w) f \<noteq> None \<longrightarrow>
           (\<exists>e. e \<noteq> NULL \<and> zframes (view A w) e = None \<and>
              view A (zmsg_wrap A m f w) = (view A w)
                \<lparr>zframes := (zframes (view A w))(e \<mapsto> []),
                 zmsgs := (zmsgs (view A w))(m \<mapsto> f # e # fs)\<rparr>)) \<and>
        (\<forall>f. view A (zmsg_remove A m f w) =
           (view A w)\<lparr>zmsgs := (zmsgs (view A w))(m \<mapsto> remove1 f fs)\<rparr>) \<and>
        fst (zmsg_first A m w) = (case fs of [] \<Rightarrow> NULL | f # _ \<Rightarrow> f) \<and>
        view A (snd (zmsg_first A m w)) = view A w \<and>
        (fs \<noteq> [] \<longrightarrow> zmsg_cursor A m (snd (zmsg_first A m w)) = Some 0) \<and>
        fst (zmsg_last A m w) = (if fs = [] then NULL else last fs) \<and>
        view A (snd (zmsg_last A m w)) = view A w \<and>
        view A (snd (zmsg_next A m w)) = view A w \<and>
        (\<forall>i. zmsg_cursor A m w = Some i \<longrightarrow>
           fst (zmsg_next A m w) = (if Suc i < length fs then fs ! Suc i else NULL) \<and>
           (Suc i < length fs \<longrightarrow> zmsg_cursor A m (snd (zmsg_next A m w)) = Some (Suc i))) \<and>
        zmsg_alloc_doc A w (bodies (view A w) fs) (zmsg_dup A m w) \<and>
        view A (zmsg_destroy A m w) =
          (view A w)\<lparr>zframes := (zframes (view A w)) |` (- set fs), zmsgs := (zmsgs (view A w))(m := None)\<rparr> \<and>
        view A (zmsg_dump A m w) = view A w \<and>
        ((\<forall>b. b \<in> set (bodies (view A w) fs) \<longrightarrow> length b < 255) \<longrightarrow>
           zmsg_encode A m w = encode_short (bodies (view A w) fs)) \<and>
        (\<forall>w'. zmsg_alloc_doc A w' (bodies (view A w) fs) (zmsg_decode A (zmsg_encode A m w) w')))"

lemma zmsg_newD [lib_simps]:
  assumes "zmsg_doc A"
  shows "zmsgs (view A w) NULL = None" "zmsg_alloc_doc A w [] (zmsg_new A w)"
  using assms unfolding zmsg_doc_def by blast+

lemma zmsg_liveD [lib_simps]:
  assumes "zmsg_doc A" and "zmsgs (view A w) m = Some fs"
  shows "zmsg_size A m w = length fs"
    and "zmsg_content_size A m w = sum_list (map length (bodies (view A w) fs))"
    and "zmsg_put_doc A w m (f # fs) (zmsg_push A m f w)"
    and "zmsg_put_doc A w m (fs @ [f]) (zmsg_add A m f w)"
    and "fst (zmsg_pop A m w) = (case fs of [] \<Rightarrow> NULL | f # _ \<Rightarrow> f)"
    and "view A (snd (zmsg_pop A m w)) = (view A w)\<lparr>zmsgs := (zmsgs (view A w))(m \<mapsto> tl fs)\<rparr>"
    and "zmsg_mem_doc A w m (\<lambda>f. f # fs) d (zmsg_pushmem A m d w)"
    and "zmsg_mem_doc A w m (\<lambda>f. fs @ [f]) d (zmsg_addmem A m d w)"
    and "fst (zmsg_popstr A m w) = (case fs of [] \<Rightarrow> None | f # _ \<Rightarrow> zframes (view A w) f)"
    and "view A (snd (zmsg_popstr A m w)) =
          (case fs of [] \<Rightarrow> view A w
           | f # r \<Rightarrow> (view A w)\<lparr>zframes := (zframes (view A w))(f := None),
                               zmsgs := (zmsgs (view A w))(m \<mapsto> r)\<rparr>)"
    and "view A (zmsg_remove A m f w) = (view A w)\<lparr>zmsgs := (zmsgs (view A w))(m \<mapsto> remove1 f fs)\<rparr>"
    and "fst (zmsg_first A m w) = (case fs of [] \<Rightarrow> NULL | f # _ \<Rightarrow> f)"
    and "view A (snd (zmsg_first A m w)) = view A w"
    and "fst (zmsg_last A m w) = (if fs = [] then NULL else last fs)"
    and "view A (snd (zmsg_last A m w)) = view A w"
    and "view A (snd (zmsg_next A m w)) = view A w"
    and "zmsg_alloc_doc A w (bodies (view A w) fs) (zmsg_dup A m w)"
    and "view A (zmsg_destroy A m w) =
          (view A w)\<lparr>zframes := (zframes (view A w)) |` (- set fs), zmsgs := (zmsgs (view A w))(m := None)\<rparr>"
    and "view A (zmsg_dump A m w) = view A w"
    and "zmsg_alloc_doc A w' (bodies (view A w) fs) (zmsg_decode A (zmsg_encode A m w) w')"
  using assms unfolding zmsg_doc_def by blast+

lemma zmsg_wrapD:
  assumes "zmsg_doc A" and "zmsgs (view A w) m = Some fs" and "zframes (view A w) f \<noteq> None"
  obtains e where "e \<noteq> NULL" "zframes (view A w) e = None"
    "view A (zmsg_wrap A m f w) = (view A w)
       \<lparr>zframes := (zframes (view A w))(e \<mapsto> []), zmsgs := (zmsgs (view A w))(m \<mapsto> f # e # fs)\<rparr>"
  using assms unfolding zmsg_doc_def by blast

lemma zmsg_encodeD:
  assumes "zmsg_doc A" and "zmsgs (view A w) m = Some fs"
    and "\<And>b. b \<in> set (bodies (view A w) fs) \<Longrightarrow> length b < 255"
  shows "zmsg_encode A m w = encode_short (bodies (view A w) fs)"
  using assms unfolding zmsg_doc_def by blast

lemma zmsg_cursorD:
  assumes "zmsg_doc A" and "zmsgs (view A w) m = Some fs"
  shows "fs \<noteq> [] \<Longrightarrow> zmsg_cursor A m (snd (zmsg_first A m w)) = Some 0"
    and "zmsg_cursor A m w = Some i \<Longrightarrow>
      fst (zmsg_next A m w) = (if Suc i < length fs then fs ! Suc i else NULL)"
    and "zmsg_cursor A m w = Some i \<Longrightarrow> Suc i < length fs \<Longrightarrow>
      zmsg_cursor A m (snd (zmsg_next A m w)) = Some (Suc i)"
  using assms unfolding zmsg_doc_def by blast+

section \<open>Contexts and sockets\<close>

definition zctx_call_doc :: "'w czmq \<Rightarrow> 'w \<Rightarrow> ptr \<Rightarrow> bool" where
  "zctx_call_doc A w c \<longleftrightarrow>
     view A (zctx_destroy A c w) =
       (view A w)\<lparr>zctxs := (zctxs (view A w))(c := None),
         zsocks := (\<lambda>h. case zsocks (view A w) h of None \<Rightarrow> None
                     | Some (d, t) \<Rightarrow> if d = c then None else Some (d, t))\<rparr> \<and>
     (\<forall>i. view A (zctx_set_linger A c i w) = view A w) \<and>
     (\<forall>i. view A (zctx_set_iothreads A c i w) = (view A w)\<lparr>zctxs := (zctxs (view A w))(c \<mapsto> i)\<rparr>) \<and>
     (\<forall>t h w'. zsocket_new A c t w = (h, w') \<longrightarrow>
        (if h = NULL then view A w' = view A w
         else zsocks (view A w) h = None \<and>
           view A w' = (view A w)\<lparr>zsocks := (zsocks (view A w))(h \<mapsto> (c, t)),
                                  zopts := (zopts (view A w))(h := Map.empty)\<rparr>))"

definition zsocket_call_doc :: "'w czmq \<Rightarrow> 'w \<Rightarrow> ptr \<Rightarrow> int \<Rightarrow> bool" where
  "zsocket_call_doc A w h t \<longleftrightarrow>
     (\<forall>c. view A (zsocket_destroy A c h w) = (view A w)\<lparr>zsocks := (zsocks (view A w))(h := None)\<rparr>) \<and>
     zsocket_type A h w = t \<and>
     (\<forall>ep. view A (snd (zsocket_bind A h ep w)) = view A w) \<and>
     (\<forall>ep. view A (snd (zsocket_connect A h ep w)) = view A w) \<and>
     (\<forall>ep. view A (snd (zsocket_disconnect A h ep w)) = view A w) \<and>
     (\<forall>ep. view A (snd (zsocket_unbind A h ep w)) = view A w) \<and>
     (\<forall>d fl. view A (snd (zmq_sendmsg A h d fl w)) = view A w) \<and>
     (\<forall>fl. view A (snd (zmq_recvmsg A h fl w)) = view A w) \<and>
     (\<forall>n. view A (snd (zsocket_poll A h n w)) = view A w) \<and>
     (\<forall>opt cs. view A (zsocket_set_str A opt h cs w) = view A w) \<and>
     (\<forall>opt n. \<exists>x. view A (zsocket_set_opt A opt h n w) =
        (view A w)\<lparr>zopts := (zopts (view A w))(h := (zopts (view A w) h)(opt := x))\<rparr> \<and>
        (opt_range A opt n \<longrightarrow> x = Some n)) \<and>
     (\<forall>opt n. zopts (view A w) h opt = Some n \<longrightarrow> zsocket_opt A opt h w = n)"

definition zsock_doc :: "'w czmq \<Rightarrow> bool" where
  "zsock_doc A \<longleftrightarrow>
     inj (socktype A) \<and>
     (\<forall>w. zctxs (view A w) NULL = None) \<and>
     (\<forall>w. zsocks (view A w) NULL = None) \<and>
     (\<forall>e w. view A (set_errno A e w) = view A w) \<and>
     (\<forall>w. view A (zsys_handler_reset A w) = view A w) \<and>
     (\<forall>w c w'. zctx_new A w = (c, w') \<longrightarrow>
        (if c = NULL then view A w' = view A w
         else zctxs (view A w) c = None \<and>
           view A w' = (view A w)\<lparr>zctxs := (zctxs (view A w))(c \<mapsto> 1)\<rparr>)) \<and>
     (\<forall>c n w. zctxs (view A w) c = Some n \<longrightarrow> zctx_call_doc A w c) \<and>
     (\<forall>h c t w. zsocks (view A w) h = Some (c, t) \<longrightarrow> zsocket_call_doc A w h t)"

lemma zsock_docD [lib_simps]:
  assumes "zsock_doc A"
  shows "inj (socktype A)" "zctxs (view A w) NULL = None" "zsocks (view A w) NULL = None"
    and "view A (set_errno A e w) = view A w"
    and "view A (zsys_handler_reset A w) = view A w"
    and "zctxs (view A w) c = Some n \<Longrightarrow> zctx_call_doc A w c"
    and "zsocks (view A w) h = Some (d, t) \<Longrightarrow> zsocket_call_doc A w h t"
  using assms by (simp_all add: zsock_doc_def)

lemma zctx_newD:
  assumes "zsock_doc A" and "zctx_new A w = (c, w')"
  shows "c = NULL \<Longrightarrow> view A w' = view A w"
    and "c \<noteq> NULL \<Longrightarrow> zctxs (view A w) c = None"
    and "c \<noteq> NULL \<Longrightarrow> view A w' = (view A w)\<lparr>zctxs := (zctxs (view A w))(c \<mapsto> 1)\<rparr>"
proof -
  have "if c = NULL then view A w' = view A w
        else zctxs (view A w) c = None \<and> view A w' = (view A w)\<lparr>zctxs := (zctxs (view A w))(c \<mapsto> 1)\<rparr>"
    using assms by (simp add: zsock_doc_def)
  then show "c = NULL \<Longrightarrow> view A w' = view A w"
    and "c \<noteq> NULL \<Longrightarrow> zctxs (view A w) c = None"
    and "c \<noteq> NULL \<Longrightarrow> view A w' = (view A w)\<lparr>zctxs := (zctxs (view A w))(c \<mapsto> 1)\<rparr>"
    by simp_all
qed

lemma zctx_liveD [lib_simps]:
  assumes "zsock_doc A" and "zctxs (view A w) c = Some n"
  shows "view A (zctx_destroy A c w) =
          (view A w)\<lparr>zctxs := (zctxs (view A w))(c := None),
            zsocks := (\<lambda>h. case zsocks (view A w) h of None \<Rightarrow> None
                        | Some (d, t) \<Rightarrow> if d = c then None else Some (d, t))\<rparr>"
    and "view A (zctx_set_linger A c i w) = view A w"
    and "view A (zctx_set_iothreads A c i w) = (view A w)\<lparr>zctxs := (zctxs (view A w))(c \<mapsto> i)\<rparr>"
proof -
  have "zctx_call_doc A w c" using assms by (rule zsock_docD)
  then show "view A (zctx_destroy A c w) =
          (view A w)\<lparr>zctxs := (zctxs (view A w))(c := None),
            zsocks := (\<lambda>h. case zsocks (view A w) h of None \<Rightarrow> None
                        | Some (d, t) \<Rightarrow> if d = c then None else Some (d, t))\<rparr>"
    and "view A (zctx_set_linger A c i w) = view A w"
    and "view A (zctx_set_iothreads A c i w) = (view A w)\<lparr>zctxs := (zctxs (view A w))(c \<mapsto> i)\<rparr>"
    unfolding zctx_call_doc_def by simp_all
qed

lemma zsocket_newD:
  assumes "zsock_doc A" and "zctxs (view A w) c = Some n" and "zsocket_new A c t w = (h, w')"
  shows "h = NULL \<Longrightarrow> view A w' = view A w"
    and "h \<noteq> NULL \<Longrightarrow> zsocks (view A w) h = None"
    and "h \<noteq> NULL \<Longrightarrow> view A w' = (view A w)\<lparr>zsocks := (zsocks (view A w))(h \<mapsto> (c, t)),
                         zopts := (zopts (view A w))(h := Map.empty)\<rparr>"
proof -
  have "zctx_call_doc A w c" using assms(1,2) by (rule zsock_docD)
  then have "if h = NULL then view A w' = view A w
         else zsocks (view A w) h = None \<and>
           view A w' = (view A w)\<lparr>zsocks := (zsocks (view A w))(h \<mapsto> (c, t)),
                                  zopts := (zopts (view A w))(h := Map.empty)\<rparr>"
    using assms(3) unfolding zctx_call_doc_def by blast
  then show "h = NULL \<Longrightarrow> view A w' = view A w"
    and "h \<noteq> NULL \<Longrightarrow> zsocks (view A w) h = None"
    and "h \<noteq> NULL \<Longrightarrow> view A w' = (view A w)\<lparr>zsocks := (zsocks (view A w))(h \<mapsto> (c, t)),
                         zopts := (zopts (view A w))(h := Map.empty)\<rparr>"
    by simp_all
qed

lemma zsocket_liveD [lib_simps]:
  assumes "zsock_doc A" and "zsocks (view A w) h = Some (c, t)"
  shows "view A (zsocket_destroy A c' h w) = (view A w)\<lparr>zsocks := (zsocks (view A w))(h := None)\<rparr>"
    and "zsocket_type A h w = t"
    and "view A (snd (zsocket_bind A h ep w)) = view A w"
    and "view A (snd (zsocket_connect A h ep w)) = view A w"
    and "view A (snd (zsocket_disconnect A h ep w)) = view A w"
    and "view A (snd (zsocket_unbind A h ep w)) = view A w"
    and "view A (snd (zmq_sendmsg A h d fl w)) = view A w"
    and "view A (snd (zmq_recvmsg A h fl w)) = view A w"
    and "view A (snd (zsocket_poll A h i w)) = view A w"
    and "view A (zsocket_set_str A opt h cs w) = view A w"
    and "\<exists>x. view A (zsocket_set_opt A opt h i w) =
           (view A w)\<lparr>zopts := (zopts (view A w))(h := (zopts (view A w) h)(opt := x))\<rparr> \<and>
           (opt_range A opt i \<longrightarrow> x = Some i)"
    and "zopts (view A w) h opt = Some i \<Longrightarrow> zsocket_opt A opt h w = i"
  by (simp_all add: zsock_docD(7) [OF assms, unfolded zsocket_call_doc_def])

text \<open>An option that is set touches no object; libzmq keeps a value it takes for the option.\<close>

lemma zsocket_set_optD:
  assumes "zsock_doc A" and "zsocks (view A w) h = Some (c, t)"
  shows "zframes (view A (zsocket_set_opt A opt h i w)) = zframes (view A w)"
    and "zmsgs (view A (zsocket_set_opt A opt h i w)) = zmsgs (view A w)"
    and "zlists (view A (zsocket_set_opt A opt h i w)) = zlists (view A w)"
    and "zctxs (view A (zsocket_set_opt A opt h i w)) = zctxs (view A w)"
    and "zsocks (view A (zsocket_set_opt A opt h i w)) = zsocks (view A w)"
    and "opt_range A opt i \<Longrightarrow> view A (zsocket_set_opt A opt h i w) =
           (view A w)\<lparr>zopts := (zopts (view A w))(h := (zopts (view A w) h)(opt \<mapsto> i))\<rparr>"
  using zsocket_liveD(11) [OF assms, of opt i] by auto

section \<open>Frames and messages over sockets\<close>

text \<open>
  A frame that was sent is destroyed unless it is to be reused or the send failed; a message that
  was sent is destroyed with its frames; what is received is a new object.
\<close>

definition zframe_send_doc :: "'w czmq \<Rightarrow> 'w \<Rightarrow> ptr \<Rightarrow> flags \<Rightarrow> int \<times> 'w \<Rightarrow> bool" where
  "zframe_send_doc A w p fl r \<longleftrightarrow>
     (fst r = 0 \<or> fst r = -1) \<and>
     view A (snd r) = (if fst r = 0 \<and> fl AND ZFRAME_REUSE A = 0
       then (view A w)\<lparr>zframes := (zframes (view A w))(p := None)\<rparr> else view A w)"

text \<open>
  What a failed send leaves of a message differs between the versions of CZMQ: it may be kept or
  destroyed, and some of its frames may be gone. Nothing else changes.
\<close>

definition zmsg_send_doc :: "'w czmq \<Rightarrow> 'w \<Rightarrow> ptr \<Rightarrow> ptr list \<Rightarrow> int \<times> 'w \<Rightarrow> bool" where
  "zmsg_send_doc A w m fs r \<longleftrightarrow>
     (fst r = 0 \<or> fst r = -1) \<and>
     (\<exists>gone left. gone \<subseteq> set fs \<and> (fst r = 0 \<longrightarrow> gone = set fs \<and> left = None) \<and>
        view A (snd r) = (view A w)\<lparr>zframes := (zframes (view A w)) |` (- gone),
                                    zmsgs := (zmsgs (view A w))(m := left)\<rparr>)"

definition zsend_doc :: "'w czmq \<Rightarrow> bool" where
  "zsend_doc A \<longleftrightarrow>
     (\<forall>p h fl w. zframes (view A w) p \<noteq> None \<longrightarrow> zsocks (view A w) h \<noteq> None \<longrightarrow>
        zframe_send_doc A w p fl (zframe_send A p h fl w)) \<and>
     (\<forall>m fs h w. zmsgs (view A w) m = Some fs \<longrightarrow> zsocks (view A w) h \<noteq> None \<longrightarrow>
        zmsg_send_doc A w m fs (zmsg_send A m h w)) \<and>
     (\<forall>h w. zsocks (view A w) h \<noteq> None \<longrightarrow> (\<exists>d. zframe_alloc_doc A w d (zframe_recv A h w))) \<and>
     (\<forall>h w. zsocks (view A w) h \<noteq> None \<longrightarrow> (\<exists>d. zframe_alloc_doc A w d (zframe_recv_nowait A h w))) \<and>
     (\<forall>h w. zsocks (view A w) h \<noteq> None \<longrightarrow> (\<exists>bs. zmsg_alloc_doc A w bs (zmsg_recv A h w)))"

lemma zsendD:
  assumes "zsend_doc A" and "zsocks (view A w) h = Some st"
  shows "zframes (view A w) p = Some b \<Longrightarrow> zframe_send_doc A w p fl (zframe_send A p h fl w)"
    and "zmsgs (view A w) m = Some fs \<Longrightarrow> zmsg_send_doc A w m fs (zmsg_send A m h w)"
    and "\<exists>d. zframe_alloc_doc A w d (zframe_recv A h w)"
    and "\<exists>d. zframe_alloc_doc A w d (zframe_recv_nowait A h w)"
    and "\<exists>bs. zmsg_alloc_doc A w bs (zmsg_recv A h w)"
  using assms by (simp_all add: zsend_doc_def)

section \<open>Reactors and beacons\<close>

text \<open>The timers of an argument, and the poll items of a socket or a file descriptor.\<close>

fun timer_for :: "void \<Rightarrow> registration \<Rightarrow> bool" where
  "timer_for x (Timer_reg d n f y) = (x = y)"
| "timer_for x (Poll_reg i f y) = False"

fun poll_for :: "zmq_pollitem_t \<Rightarrow> registration \<Rightarrow> bool" where
  "poll_for i (Timer_reg d n f y) = False"
| "poll_for i (Poll_reg j f y) =
     (if pi_socket i \<noteq> NULL then pi_socket i = pi_socket j else pi_fd i = pi_fd j \<and> pi_socket j = NULL)"

definition zloop_put_doc :: "'w czmq \<Rightarrow> 'w \<Rightarrow> ptr \<Rightarrow> registration list \<Rightarrow> int \<times> 'w \<Rightarrow> bool" where
  "zloop_put_doc A w l rs r =
     (if fst r = 0 then view A (snd r) = (view A w)\<lparr>zloops := (zloops (view A w))(l \<mapsto> rs)\<rparr>
      else fst r = -1 \<and> view A (snd r) = view A w)"

definition zloop_call_doc :: "'w czmq \<Rightarrow> 'w \<Rightarrow> ptr \<Rightarrow> registration list \<Rightarrow> bool" where
  "zloop_call_doc A w l rs \<longleftrightarrow>
     view A (zloop_destroy A l w) = (view A w)\<lparr>zloops := (zloops (view A w))(l := None)\<rparr> \<and>
     (\<forall>d n f x. zloop_put_doc A w l (rs @ [Timer_reg d n f x]) (zloop_timer A l d n f x w)) \<and>
     (\<forall>x. zloop_put_doc A w l (filter (\<lambda>r. \<not> timer_for x r) rs) (zloop_timer_end A l x w)) \<and>
     (\<forall>i f x. zloop_put_doc A w l (rs @ [Poll_reg i f x]) (zloop_poller A l i f x w)) \<and>
     (\<forall>i. view A (zloop_poller_end A l i w) =
        (view A w)\<lparr>zloops := (zloops (view A w))(l \<mapsto> filter (\<lambda>r. \<not> poll_for i r) rs)\<rparr>) \<and>
     (\<forall>b. view A (zloop_set_verbose A l b w) = view A w)"

definition zloop_new_doc :: "'w czmq \<Rightarrow> 'w \<Rightarrow> ptr \<times> 'w \<Rightarrow> bool" where
  "zloop_new_doc A w r =
     (if fst r = NULL then view A (snd r) = view A w
      else zloops (view A w) (fst r) = None \<and>
        view A (snd r) = (view A w)\<lparr>zloops := (zloops (view A w))(fst r \<mapsto> [])\<rparr>)"

definition zloop_doc :: "'w czmq \<Rightarrow> bool" where
  "zloop_doc A \<longleftrightarrow>
     (\<forall>w. zloops (view A w) NULL = None) \<and>
     (\<forall>e w. view A (set_errno A e w) = view A w) \<and>
     (\<forall>w. zloop_new_doc A w (zloop_new A w)) \<and>
     (\<forall>l rs w. zloops (view A w) l = Some rs \<longrightarrow> zloop_call_doc A w l rs)"

lemma zloop_docD:
  assumes "zloop_doc A"
  shows "zloops (view A w) NULL = None" "view A (set_errno A e w) = view A w"
    and "zloop_new_doc A w (zloop_new A w)"
    and "zloops (view A w) l = Some rs \<Longrightarrow> zloop_call_doc A w l rs"
  using assms by (simp_all add: zloop_doc_def)

lemma zloop_liveD:
  assumes "zloop_doc A" and "zloops (view A w) l = Some rs"
  shows "view A (zloop_destroy A l w) = (view A w)\<lparr>zloops := (zloops (view A w))(l := None)\<rparr>"
    and "zloop_put_doc A w l (rs @ [Timer_reg d n f x]) (zloop_timer A l d n f x w)"
    and "zloop_put_doc A w l (filter (\<lambda>r. \<not> timer_for x r) rs) (zloop_timer_end A l x w)"
    and "zloop_put_doc A w l (rs @ [Poll_reg i f x]) (zloop_poller A l i f x w)"
    and "view A (zloop_poller_end A l i w) =
      (view A w)\<lparr>zloops := (zloops (view A w))(l \<mapsto> filter (\<lambda>r. \<not> poll_for i r) rs)\<rparr>"
    and "view A (zloop_set_verbose A l b w) = view A w"
  using zloop_docD(4) [OF assms] by (simp_all add: zloop_call_doc_def)

text \<open>A beacon owns its pipe socket, which belongs to no context of the extension.\<close>

definition zbeacon_new_doc :: "'w czmq \<Rightarrow> 'w \<Rightarrow> ptr \<times> 'w \<Rightarrow> bool" where
  "zbeacon_new_doc A w r =
     (if fst r = NULL then view A (snd r) = view A w
      else zbeacons (view A w) (fst r) = None \<and>
        (\<exists>h t. h \<noteq> NULL \<and> zsocks (view A w) h = None \<and>
          view A (snd r) = (view A w)\<lparr>zsocks := (zsocks (view A w))(h \<mapsto> (NULL, t)),
                                      zbeacons := (zbeacons (view A w))(fst r \<mapsto> h)\<rparr>))"

definition zbeacon_call_doc :: "'w czmq \<Rightarrow> 'w \<Rightarrow> ptr \<Rightarrow> ptr \<Rightarrow> bool" where
  "zbeacon_call_doc A w b h \<longleftrightarrow>
     zbeacon_socket A b w = h \<and>
     view A (zbeacon_destroy A b w) =
       (view A w)\<lparr>zsocks := (zsocks (view A w))(h := None), zbeacons := (zbeacons (view A w))(b := None)\<rparr> \<and>
     (\<forall>n. view A (zbeacon_set_interval A b n w) = view A w) \<and>
     view A (zbeacon_noecho A b w) = view A w \<and>
     (\<forall>cs. view A (zbeacon_publish A b cs w) = view A w) \<and>
     view A (zbeacon_silence A b w) = view A w \<and>
     (\<forall>cs. view A (zbeacon_subscribe A b cs w) = view A w) \<and>
     view A (zbeacon_unsubscribe A b w) = view A w"

definition zbeacon_doc :: "'w czmq \<Rightarrow> bool" where
  "zbeacon_doc A \<longleftrightarrow>
     (\<forall>w. zbeacons (view A w) NULL = None) \<and>
     (\<forall>n w. zbeacon_new_doc A w (zbeacon_new A n w)) \<and>
     (\<forall>b h w. zbeacons (view A w) b = Some h \<longrightarrow> zbeacon_call_doc A w b h)"

lemma zbeacon_docD:
  assumes "zbeacon_doc A"
  shows "zbeacons (view A w) NULL = None" "zbeacon_new_doc A w (zbeacon_new A n w)"
    and "zbeacons (view A w) b = Some h \<Longrightarrow> zbeacon_call_doc A w b h"
  using assms by (simp_all add: zbeacon_doc_def)

lemma zbeacon_liveD:
  assumes "zbeacon_doc A" and "zbeacons (view A w) b = Some h"
  shows "zbeacon_socket A b w = h"
    and "view A (zbeacon_destroy A b w) =
      (view A w)\<lparr>zsocks := (zsocks (view A w))(h := None), zbeacons := (zbeacons (view A w))(b := None)\<rparr>"
    and "view A (zbeacon_set_interval A b n w) = view A w"
    and "view A (zbeacon_noecho A b w) = view A w"
    and "view A (zbeacon_publish A b cs w) = view A w"
    and "view A (zbeacon_silence A b w) = view A w"
    and "view A (zbeacon_subscribe A b fl w) = view A w"
    and "view A (zbeacon_unsubscribe A b w) = view A w"
  using zbeacon_docD(3) [OF assms] by (simp_all add: zbeacon_call_doc_def)

end
