(* ===== verification/Zmq_Ref.thy ===== *)
theory Zmq_Ref
  imports Zmq_Docs Zmq_Objects
begin

text \<open>
  A small executable library that behaves as the documentation says. It is not a model of libczmq;
  it shows that the documented behaviour the theorems assume can be had, and it is what the
  theorems are applied to on concrete inputs. An object is a cell at an address between 1 and
  \<open>rlimit\<close>; a new one gets the next address.
\<close>

datatype cell =
    Dead
  | CFrame string
  | CMsg "ptr list" "nat option"
  | CList "void list" "nat option"
  | CCtx int
  | CSock ptr int
  | CLoop "registration list"
  | CBeacon ptr

record rworld =
  rlimit :: nat
  rcells :: "ptr \<Rightarrow> cell"
  ropts :: "ptr \<Rightarrow> string \<rightharpoonup> int"
  rerr :: int
  rint :: bool

definition cell :: "rworld \<Rightarrow> ptr \<Rightarrow> cell" where
  "cell w p = (if 0 < p \<and> p \<le> rlimit w then rcells w p else Dead)"

definition rview :: "rworld \<Rightarrow> cview" where
  "rview w =
     \<lparr>zframes = (\<lambda>p. case cell w p of CFrame b \<Rightarrow> Some b | _ \<Rightarrow> None),
      zmsgs = (\<lambda>p. case cell w p of CMsg fs i \<Rightarrow> Some fs | _ \<Rightarrow> None),
      zlists = (\<lambda>p. case cell w p of CList xs i \<Rightarrow> Some xs | _ \<Rightarrow> None),
      zctxs = (\<lambda>p. case cell w p of CCtx n \<Rightarrow> Some n | _ \<Rightarrow> None),
      zsocks = (\<lambda>p. case cell w p of CSock c t \<Rightarrow> Some (c, t) | _ \<Rightarrow> None),
      zopts = ropts w,
      zloops = (\<lambda>p. case cell w p of CLoop rs \<Rightarrow> Some rs | _ \<Rightarrow> None),
      zbeacons = (\<lambda>p. case cell w p of CBeacon h \<Rightarrow> Some h | _ \<Rightarrow> None)\<rparr>"

definition rput :: "ptr \<Rightarrow> cell \<Rightarrow> rworld \<Rightarrow> rworld" where
  "rput p c w = w\<lparr>rcells := (rcells w)(p := c)\<rparr>"

definition rnew :: "cell \<Rightarrow> rworld \<Rightarrow> ptr \<times> rworld" where
  "rnew c w = (Suc (rlimit w), w\<lparr>rlimit := Suc (rlimit w), rcells := (rcells w)(Suc (rlimit w) := c)\<rparr>)"

definition raddrs :: "rworld \<Rightarrow> 'a list \<Rightarrow> ptr list" where
  "raddrs w bs = [Suc (rlimit w) ..< Suc (rlimit w + length bs)]"

text \<open>A message with new frames for the given bodies.\<close>

definition rnew_msg :: "string list \<Rightarrow> rworld \<Rightarrow> ptr \<times> rworld" where
  "rnew_msg bs w =
     rnew (CMsg (raddrs w bs) None)
       (w\<lparr>rlimit := rlimit w + length bs,
          rcells := (\<lambda>p. if rlimit w < p \<and> p \<le> rlimit w + length bs
             then CFrame (bs ! (p - Suc (rlimit w))) else rcells w p)\<rparr>)"

definition rframe :: "rworld \<Rightarrow> ptr \<Rightarrow> string" where
  "rframe w p = (case cell w p of CFrame b \<Rightarrow> b | _ \<Rightarrow> [])"

definition rmsg :: "rworld \<Rightarrow> ptr \<Rightarrow> ptr list" where
  "rmsg w p = (case cell w p of CMsg fs i \<Rightarrow> fs | _ \<Rightarrow> [])"

definition rmcur :: "rworld \<Rightarrow> ptr \<Rightarrow> nat option" where
  "rmcur w p = (case cell w p of CMsg fs i \<Rightarrow> i | _ \<Rightarrow> None)"

definition rlist :: "rworld \<Rightarrow> ptr \<Rightarrow> void list" where
  "rlist w p = (case cell w p of CList xs i \<Rightarrow> xs | _ \<Rightarrow> [])"

definition rlcur :: "rworld \<Rightarrow> ptr \<Rightarrow> nat option" where
  "rlcur w p = (case cell w p of CList xs i \<Rightarrow> i | _ \<Rightarrow> None)"

definition rloop :: "rworld \<Rightarrow> ptr \<Rightarrow> registration list" where
  "rloop w p = (case cell w p of CLoop rs \<Rightarrow> rs | _ \<Rightarrow> [])"

definition rbeacon :: "rworld \<Rightarrow> ptr \<Rightarrow> ptr" where
  "rbeacon w p = (case cell w p of CBeacon h \<Rightarrow> h | _ \<Rightarrow> NULL)"

definition rbodies :: "rworld \<Rightarrow> ptr \<Rightarrow> string list" where
  "rbodies w m = map (rframe w) (rmsg w m)"

text \<open>The encoding of short bodies, and its inverse; a longer body is encoded as undecodable.\<close>

definition renc :: "string list \<Rightarrow> string" where
  "renc bs = (if \<forall>b\<in>set bs. length b < 255 then encode_short bs else [char_of (255 :: nat)])"

fun rdec :: "nat \<Rightarrow> string \<Rightarrow> string list option" where
  "rdec k [] = Some []"
| "rdec 0 (c # cs) = None"
| "rdec (Suc k) (c # cs) =
     (let n = of_char c in
      if n < 255 \<and> n \<le> length cs then map_option ((#) (take n cs)) (rdec k (drop n cs)) else None)"

lemma rdec_encode_short:
  "(\<forall>b\<in>set bs. length b < 255) \<Longrightarrow> length bs \<le> k \<Longrightarrow> rdec k (encode_short bs) = Some bs"
proof (induction bs arbitrary: k)
  case (Cons b bs)
  then obtain j where "k = Suc j" by (cases k) auto
  with Cons show ?case by (simp add: encode_short_def)
qed (simp add: encode_short_def)

lemma length_encode_short: "length bs \<le> length (encode_short bs)"
  by (induction bs) (auto simp: encode_short_def)

definition rdecode :: "string \<Rightarrow> rworld \<Rightarrow> ptr \<times> rworld" where
  "rdecode cs w = (case rdec (length cs) cs of None \<Rightarrow> (NULL, w) | Some bs \<Rightarrow> rnew_msg bs w)"

definition rcursor :: "'a list \<Rightarrow> nat option \<Rightarrow> nat option" where
  "rcursor xs i = (case i of None \<Rightarrow> None | Some j \<Rightarrow> if Suc j < length xs then Some (Suc j) else None)"

definition rat_cursor :: "'a list \<Rightarrow> nat option \<Rightarrow> 'a option" where
  "rat_cursor xs i = (case i of None \<Rightarrow> None | Some j \<Rightarrow> if j < length xs then Some (xs ! j) else None)"

definition or_null :: "ptr option \<Rightarrow> ptr" where
  "or_null x = (case x of None \<Rightarrow> NULL | Some p \<Rightarrow> p)"

fun rtype :: "socktype \<Rightarrow> int" where
  "rtype ZMQ_PAIR = 0" | "rtype ZMQ_PUB = 1" | "rtype ZMQ_SUB = 2" | "rtype ZMQ_REQ = 3"
| "rtype ZMQ_REP = 4" | "rtype ZMQ_DEALER = 5" | "rtype ZMQ_ROUTER = 6" | "rtype ZMQ_PULL = 7"
| "rtype ZMQ_PUSH = 8" | "rtype ZMQ_XPUB = 9" | "rtype ZMQ_XSUB = 10" | "rtype ZMQ_STREAM = 11"

fun rerrno :: "errname \<Rightarrow> int" where
  "rerrno EINTR = 4" | "rerrno EAGAIN = 11" | "rerrno ENOMEM = 12" | "rerrno EINVAL = 22"
| "rerrno ENOTSOCK = 88" | "rerrno ETERM = 156384765" | "rerrno EMTHREAD = 156384766"
| "rerrno EFSM = 156384763" | "rerrno ENOCOMPATPROTO = 156384764"

fun revent :: "event \<Rightarrow> int" where
  "revent ZMQ_EVENT_CONNECTED = 1" | "revent ZMQ_EVENT_CONNECT_DELAYED = 2"
| "revent ZMQ_EVENT_CONNECT_RETRIED = 4" | "revent ZMQ_EVENT_LISTENING = 8"
| "revent ZMQ_EVENT_BIND_FAILED = 16" | "revent ZMQ_EVENT_ACCEPTED = 32"
| "revent ZMQ_EVENT_ACCEPT_FAILED = 64" | "revent ZMQ_EVENT_CLOSED = 128"
| "revent ZMQ_EVENT_CLOSE_FAILED = 256" | "revent ZMQ_EVENT_DISCONNECTED = 512"
| "revent ZMQ_EVENT_ALL = 1023"

definition ref :: "rworld czmq" where
  "ref =
     \<lparr>view = rview,
      socktype = rtype,
      errcode = rerrno,
      eventcode = revent,
      ZMQ_POLLIN = 1,
      ZMQ_POLLOUT = 2,
      ZMQ_POLLERR = 4,
      ZMQ_SNDMORE = 2,
      ZMQ_DONTWAIT = 1,
      zmq_errno = rerr,
      set_errno = (\<lambda>e w. w\<lparr>rerr := e\<rparr>),
      zlist_new = rnew (CList [] None),
      zlist_destroy = (\<lambda>l. rput l Dead),
      zlist_push = (\<lambda>l x w. rput l (CList (x # rlist w l) None) w),
      zlist_append = (\<lambda>l x w. rput l (CList (rlist w l @ [x]) None) w),
      zlist_pop = (\<lambda>l w. (rat_cursor (rlist w l) (Some 0), rput l (CList (tl (rlist w l)) None) w)),
      zlist_remove = (\<lambda>l x w. rput l (CList (remove1 x (rlist w l)) None) w),
      zlist_first = (\<lambda>l w. (rat_cursor (rlist w l) (Some 0), rput l (CList (rlist w l) (Some 0)) w)),
      zlist_next = (\<lambda>l w. (rat_cursor (rlist w l) (rcursor (rlist w l) (rlcur w l)), rput l (CList (rlist w l) (rcursor (rlist w l) (rlcur w l))) w)),
      zlist_last = (\<lambda>l w. (rat_cursor (rlist w l) (Some (length (rlist w l) - 1)), rput l (CList (rlist w l) (Some (length (rlist w l) - 1))) w)),
      zlist_size = (\<lambda>l w. length (rlist w l)),
      zlist_cursor = (\<lambda>l w. rlcur w l),
      zframe_new = (\<lambda>d. rnew (CFrame d)),
      zframe_destroy = (\<lambda>p. rput p Dead),
      zframe_size = (\<lambda>p w. length (rframe w p)),
      zframe_data = (\<lambda>p w. rframe w p),
      zframe_strhex = (\<lambda>p w. rframe w p),
      zframe_dup = (\<lambda>p w. rnew (CFrame (rframe w p)) w),
      zframe_streq = (\<lambda>p cs w. rframe w p = cs),
      zframe_more = (\<lambda>p w. 0),
      zframe_eq = (\<lambda>p q w. rframe w p = rframe w q),
      zframe_print = (\<lambda>p cs w. w),
      zframe_reset = (\<lambda>p d. rput p (CFrame d)),
      zframe_send = (\<lambda>p h fl w. (0, if fl AND 2 = 0 then rput p Dead w else w)),
      zframe_recv = (\<lambda>h. rnew (CFrame ''hello'')),
      zframe_recv_nowait = (\<lambda>h w. (NULL, w)),
      ZFRAME_MORE = 1,
      ZFRAME_REUSE = 2,
      ZFRAME_DONTWAIT = 4,
      zmsg_new = rnew_msg [],
      zmsg_destroy = (\<lambda>m w. w\<lparr>rcells := (\<lambda>p. if p = m then Dead else if p \<in> set (rmsg w m) then (case rcells w p of CFrame b \<Rightarrow> Dead | c \<Rightarrow> c) else rcells w p)\<rparr>),
      zmsg_size = (\<lambda>m w. length (rmsg w m)),
      zmsg_content_size = (\<lambda>m w. sum_list (map length (rbodies w m))),
      zmsg_push = (\<lambda>m f w. (0, rput m (CMsg (f # rmsg w m) None) w)),
      zmsg_add = (\<lambda>m f w. (0, rput m (CMsg (rmsg w m @ [f]) None) w)),
      zmsg_pop = (\<lambda>m w. (or_null (rat_cursor (rmsg w m) (Some 0)), rput m (CMsg (tl (rmsg w m)) None) w)),
      zmsg_pushmem = (\<lambda>m d w. case rnew (CFrame d) w of (f, w1) \<Rightarrow> (0, rput m (CMsg (f # rmsg w m) None) w1)),
      zmsg_addmem = (\<lambda>m d w. case rnew (CFrame d) w of (f, w1) \<Rightarrow> (0, rput m (CMsg (rmsg w m @ [f]) None) w1)),
      zmsg_popstr = (\<lambda>m w. case rmsg w m of [] \<Rightarrow> (None, w) | f # fs \<Rightarrow> (zframes (rview w) f, rput m (CMsg fs None) (case cell w f of CFrame b \<Rightarrow> rput f Dead w | c \<Rightarrow> w))),
      zmsg_wrap = (\<lambda>m f w. case rnew (CFrame []) w of (e, w1) \<Rightarrow> rput m (CMsg (f # e # rmsg w m) None) w1),
      zmsg_remove = (\<lambda>m f w. rput m (CMsg (remove1 f (rmsg w m)) None) w),
      zmsg_first = (\<lambda>m w. (or_null (rat_cursor (rmsg w m) (Some 0)), rput m (CMsg (rmsg w m) (Some 0)) w)),
      zmsg_next = (\<lambda>m w. (or_null (rat_cursor (rmsg w m) (rcursor (rmsg w m) (rmcur w m))), rput m (CMsg (rmsg w m) (rcursor (rmsg w m) (rmcur w m))) w)),
      zmsg_last = (\<lambda>m w. (or_null (rat_cursor (rmsg w m) (Some (length (rmsg w m) - 1))), rput m (CMsg (rmsg w m) (Some (length (rmsg w m) - 1))) w)),
      zmsg_cursor = (\<lambda>m w. rmcur w m),
      zmsg_dup = (\<lambda>m w. rnew_msg (rbodies w m) w),
      zmsg_dump = (\<lambda>m w. w),
      zmsg_encode = (\<lambda>m w. renc (rbodies w m)),
      zmsg_decode = rdecode,
      zmsg_send = (\<lambda>m h w. (0, w\<lparr>rcells := (\<lambda>p. if p = m then Dead else if p \<in> set (rmsg w m) then (case rcells w p of CFrame b \<Rightarrow> Dead | c \<Rightarrow> c) else rcells w p)\<rparr>)),
      zmsg_recv = (\<lambda>h. rnew_msg []),
      zctx_new = rnew (CCtx 1),
      zctx_destroy = (\<lambda>c w. w\<lparr>rcells := (\<lambda>p. if p = c then Dead else case rcells w p of CSock d t \<Rightarrow> if d = c then Dead else rcells w p | _ \<Rightarrow> rcells w p)\<rparr>),
      zctx_set_linger = (\<lambda>c i w. w),
      zctx_set_iothreads = (\<lambda>c i. rput c (CCtx i)),
      zsys_handler_reset = (\<lambda>w. w),
      zsocket_new = (\<lambda>c t w. case rnew (CSock c t) w of (h, w1) \<Rightarrow> (h, w1\<lparr>ropts := (ropts w1)(h := Map.empty)\<rparr>)),
      zsocket_destroy = (\<lambda>c h. rput h Dead),
      zsocket_type = (\<lambda>h w. case cell w h of CSock c t \<Rightarrow> t | _ \<Rightarrow> -1),
      zsocket_bind = (\<lambda>h ep w. (0, w)),
      zsocket_connect = (\<lambda>h ep w. (0, w)),
      zsocket_disconnect = (\<lambda>h ep w. (0, w)),
      zsocket_unbind = (\<lambda>h ep w. (0, w)),
      zsocket_last_endpoint = (\<lambda>h w. Some ''tcp://127.0.0.1:5555''),
      zsocket_fd = (\<lambda>h w. 3),
      zsocket_poll = (\<lambda>h n w. (False, w)),
      zsocket_opt = (\<lambda>opt h w. case ropts w h opt of None \<Rightarrow> 0 | Some n \<Rightarrow> n),
      zsocket_set_opt = (\<lambda>opt h n w. if -1 \<le> n then w\<lparr>ropts := (ropts w)(h := (ropts w h)(opt \<mapsto> n))\<rparr> else w),
      opt_range = (\<lambda>opt n. -1 \<le> n),
      zsocket_set_str = (\<lambda>opt h cs w. w),
      zmq_sendmsg = (\<lambda>h d fl w. (int (length d), w)),
      zmq_recvmsg = (\<lambda>h fl w. ((5, ''hello''), w)),
      zmq_msg_more = (\<lambda>h w. True),
      zmq_connect = (\<lambda>h ep w. (0, w)),
      zmq_event = (\<lambda>cs. (1, 0)),
      zmq_socket_monitor = (\<lambda>h ep n w. (0, w)),
      zmq_proxy = (\<lambda>a b c w. (-1, w)),
      zmq_poll = (\<lambda>items t w.
        if t < 0 \<and> (\<forall>i\<in>set items. pi_events i = 0) then None
        else Some ((int (length (filter (\<lambda>i. pi_events i \<noteq> 0) items)), map (\<lambda>i. i\<lparr>pi_revents := pi_events i\<rparr>) items), w)),
      zloop_new = rnew (CLoop []),
      zloop_destroy = (\<lambda>l. rput l Dead),
      zloop_timer = (\<lambda>l d n f x w. (0, rput l (CLoop (rloop w l @ [Timer_reg d n f x])) w)),
      zloop_timer_end = (\<lambda>l x w. (0, rput l (CLoop (filter (\<lambda>r. \<not> timer_for x r) (rloop w l))) w)),
      zloop_poller = (\<lambda>l i f x w. (0, rput l (CLoop (rloop w l @ [Poll_reg i f x])) w)),
      zloop_poller_end = (\<lambda>l i w. rput l (CLoop (filter (\<lambda>r. \<not> poll_for i r) (rloop w l))) w),
      zloop_set_verbose = (\<lambda>l b w. w),
      zbeacon_new = (\<lambda>n w. case rnew (CSock NULL 0) w of (h, w1) \<Rightarrow> rnew (CBeacon h) w1),
      zbeacon_destroy = (\<lambda>b w. rput b Dead (case cell w (rbeacon w b) of CSock c t \<Rightarrow> rput (rbeacon w b) Dead w | _ \<Rightarrow> w)),
      zbeacon_hostname = (\<lambda>b w. ''host''),
      zbeacon_set_interval = (\<lambda>b n w. w),
      zbeacon_noecho = (\<lambda>b w. w),
      zbeacon_publish = (\<lambda>b cs w. w),
      zbeacon_silence = (\<lambda>b w. w),
      zbeacon_subscribe = (\<lambda>b cs w. w),
      zbeacon_unsubscribe = (\<lambda>b w. w),
      zbeacon_socket = (\<lambda>b w. rbeacon w b),
      zctx_interrupted = rint,
      interrupt = (\<lambda>w. w\<lparr>rint := True\<rparr>),
      zclock_time = (\<lambda>w. 1700000000000),
      zmq_version = (4, 0, 3),
      czmq_version = (2, 0, 2)\<rparr>"

lemma rview_ref [simp]: "view ref = rview"
  by (simp add: ref_def)

section \<open>It behaves as documented\<close>

lemma cell_live:
  "zframes (rview w) p = Some b \<longleftrightarrow> cell w p = CFrame b"
  "zmsgs (rview w) p = Some fs \<longleftrightarrow> (\<exists>i. cell w p = CMsg fs i)"
  "zlists (rview w) p = Some xs \<longleftrightarrow> (\<exists>i. cell w p = CList xs i)"
  "zctxs (rview w) p = Some n \<longleftrightarrow> cell w p = CCtx n"
  "zsocks (rview w) p = Some (c, t) \<longleftrightarrow> cell w p = CSock c t"
  "zloops (rview w) p = Some rs \<longleftrightarrow> cell w p = CLoop rs"
  "zbeacons (rview w) p = Some h \<longleftrightarrow> cell w p = CBeacon h"
  by (auto simp: rview_def split: cell.splits)

lemma cell_NULL [simp]: "cell w NULL = Dead"
  by (simp add: cell_def)

lemma cell_rput: "cell w p \<noteq> Dead \<Longrightarrow> cell (rput p d w) = (cell w)(p := d)"
  by (auto simp: cell_def rput_def split: if_splits)

lemma cell_rnew: "cell (snd (rnew c w)) = (cell w)(Suc (rlimit w) := c)"
  by (auto simp: cell_def rnew_def)

lemma fst_rnew [simp]: "fst (rnew c w) = Suc (rlimit w)"
  by (simp add: rnew_def)

lemma cell_new [simp]: "cell w (Suc (rlimit w)) = Dead"
  by (simp add: cell_def)

lemma cell_err [simp]: "cell (w\<lparr>rerr := e\<rparr>) = cell w" "cell (w\<lparr>ropts := opts\<rparr>) = cell w"
  by (simp_all add: cell_def fun_eq_iff)

lemma rview_err [simp]: "rview (w\<lparr>rerr := e\<rparr>) = rview w"
  by (simp add: rview_def)

lemma ropts_upd [simp]: "ropts (rput p c w) = ropts w" "ropts (snd (rnew c w)) = ropts w"
  by (simp_all add: rput_def rnew_def)

lemma rview_eqI:
  assumes "\<And>p. zframes (rview w) p = zframes v p" "\<And>p. zmsgs (rview w) p = zmsgs v p"
    "\<And>p. zlists (rview w) p = zlists v p" "\<And>p. zctxs (rview w) p = zctxs v p"
    "\<And>p. zsocks (rview w) p = zsocks v p" "zopts (rview w) = zopts v"
    "\<And>p. zloops (rview w) p = zloops v p" "\<And>p. zbeacons (rview w) p = zbeacons v p"
  shows "rview w = v"
proof -
  have "zframes (rview w) = zframes v" "zmsgs (rview w) = zmsgs v" "zlists (rview w) = zlists v"
    "zctxs (rview w) = zctxs v" "zsocks (rview w) = zsocks v" "zloops (rview w) = zloops v"
    "zbeacons (rview w) = zbeacons v"
    using assms by auto
  then show ?thesis using assms(6) by (cases v) (simp add: rview_def)
qed

lemma rview_sel:
  "zframes (rview w) p = (case cell w p of CFrame b \<Rightarrow> Some b | _ \<Rightarrow> None)"
  "zmsgs (rview w) p = (case cell w p of CMsg fs i \<Rightarrow> Some fs | _ \<Rightarrow> None)"
  "zlists (rview w) p = (case cell w p of CList xs i \<Rightarrow> Some xs | _ \<Rightarrow> None)"
  "zctxs (rview w) p = (case cell w p of CCtx n \<Rightarrow> Some n | _ \<Rightarrow> None)"
  "zsocks (rview w) p = (case cell w p of CSock c t \<Rightarrow> Some (c, t) | _ \<Rightarrow> None)"
  "zopts (rview w) = ropts w"
  "zloops (rview w) p = (case cell w p of CLoop rs \<Rightarrow> Some rs | _ \<Rightarrow> None)"
  "zbeacons (rview w) p = (case cell w p of CBeacon h \<Rightarrow> Some h | _ \<Rightarrow> None)"
  by (simp_all add: rview_def)



text \<open>Overwriting a cell with one of its kind, or with nothing, and filling a new one.\<close>

lemma rview_put:
  "cell w p = CList xs i \<Longrightarrow> rview (rput p (CList ys j) w) = (rview w)\<lparr>zlists := (zlists (rview w))(p \<mapsto> ys)\<rparr>"
  "cell w p = CFrame b \<Longrightarrow> rview (rput p (CFrame d) w) = (rview w)\<lparr>zframes := (zframes (rview w))(p \<mapsto> d)\<rparr>"
  "cell w p = CMsg fs i \<Longrightarrow> rview (rput p (CMsg gs j) w) = (rview w)\<lparr>zmsgs := (zmsgs (rview w))(p \<mapsto> gs)\<rparr>"
  "cell w p = CCtx n \<Longrightarrow> rview (rput p (CCtx k) w) = (rview w)\<lparr>zctxs := (zctxs (rview w))(p \<mapsto> k)\<rparr>"
  by (rule rview_eqI; simp add: rview_sel cell_rput)+

lemma rview_kill:
  "cell w p = CList xs i \<Longrightarrow> rview (rput p Dead w) = (rview w)\<lparr>zlists := (zlists (rview w))(p := None)\<rparr>"
  "cell w p = CFrame b \<Longrightarrow> rview (rput p Dead w) = (rview w)\<lparr>zframes := (zframes (rview w))(p := None)\<rparr>"
  "cell w p = CSock c t \<Longrightarrow> rview (rput p Dead w) = (rview w)\<lparr>zsocks := (zsocks (rview w))(p := None)\<rparr>"
  by (rule rview_eqI; simp add: rview_sel cell_rput)+

lemma rview_new:
  "rview (snd (rnew (CList ys j) w)) = (rview w)\<lparr>zlists := (zlists (rview w))(Suc (rlimit w) \<mapsto> ys)\<rparr>"
  "rview (snd (rnew (CFrame d) w)) = (rview w)\<lparr>zframes := (zframes (rview w))(Suc (rlimit w) \<mapsto> d)\<rparr>"
  "rview (snd (rnew (CMsg gs j) w)) = (rview w)\<lparr>zmsgs := (zmsgs (rview w))(Suc (rlimit w) \<mapsto> gs)\<rparr>"
  "rview (snd (rnew (CCtx k) w)) = (rview w)\<lparr>zctxs := (zctxs (rview w))(Suc (rlimit w) \<mapsto> k)\<rparr>"
  "rview (snd (rnew (CSock c t) w)) = (rview w)\<lparr>zsocks := (zsocks (rview w))(Suc (rlimit w) \<mapsto> (c, t))\<rparr>"
  by (rule rview_eqI; simp add: rview_sel cell_rnew)+

lemma ref_list_read:
  "cell w l = CList xs i \<Longrightarrow> rlist w l = xs" "cell w l = CList xs i \<Longrightarrow> rlcur w l = i"
  "cell w m = CMsg fs k \<Longrightarrow> rmsg w m = fs" "cell w m = CMsg fs k \<Longrightarrow> rmcur w m = k"
  "cell w p = CFrame b \<Longrightarrow> rframe w p = b"
  "cell w l = CList xs i \<Longrightarrow> rlcur (rput l (CList ys j) w) l = j"
  "cell w m = CMsg fs k \<Longrightarrow> rmcur (rput m (CMsg gs j) w) m = j"
  "cell w l = CList xs i \<Longrightarrow> rmcur (rput l (CList ys j) w) m = rmcur w m"
  "rmcur (snd (rnew (CList ys j) w)) q = rmcur w q"
  by (simp_all add: rlist_def rlcur_def rmsg_def rmcur_def rframe_def cell_rput cell_rnew)

lemma ref_zlist: "zlist_doc ref"
  unfolding zlist_doc_def rview_ref
proof (intro conjI allI impI)
  fix l xs x w i
  assume "zlists (rview w) l = Some xs"
  then obtain k where l: "cell w l = CList xs k" by (auto simp: cell_live)
  note upd = rview_put(1) [OF l] rview_kill(1) [OF l] ref_list_read(1,2,6,8) [OF l]
  show "rview (zlist_push ref l x w) = (rview w)\<lparr>zlists := (zlists (rview w))(l \<mapsto> x # xs)\<rparr>"
    by (simp add: ref_def upd)
  show "rview (zlist_append ref l x w) = (rview w)\<lparr>zlists := (zlists (rview w))(l \<mapsto> xs @ [x])\<rparr>"
    by (simp add: ref_def upd)
  show "zmsg_cursor ref m (zlist_append ref l x w) = zmsg_cursor ref m w" for m
    by (simp add: ref_def upd)
  show "rview (zlist_remove ref l x w) = (rview w)\<lparr>zlists := (zlists (rview w))(l \<mapsto> remove1 x xs)\<rparr>"
    by (simp add: ref_def upd)
  show "fst (zlist_pop ref l w) = (case xs of [] \<Rightarrow> None | x # _ \<Rightarrow> Some x)"
    by (simp add: ref_def upd rat_cursor_def split: list.splits)
  show "rview (snd (zlist_pop ref l w)) = (rview w)\<lparr>zlists := (zlists (rview w))(l \<mapsto> tl xs)\<rparr>"
    by (simp add: ref_def upd)
  show "rview (zlist_destroy ref l w) = (rview w)\<lparr>zlists := (zlists (rview w))(l := None)\<rparr>"
    by (simp add: ref_def upd)
  show "zlist_size ref l w = length xs"
    by (simp add: ref_def upd)
  show "fst (zlist_first ref l w) = (case xs of [] \<Rightarrow> None | x # _ \<Rightarrow> Some x)"
    by (simp add: ref_def upd rat_cursor_def split: list.splits)
  show "rview (snd (zlist_first ref l w)) = rview w"
    by (simp add: ref_def upd fun_upd_idem \<open>zlists (rview w) l = Some xs\<close>)
  show "zlist_cursor ref l (snd (zlist_first ref l w)) = Some 0"
    by (simp add: ref_def upd)
  show "fst (zlist_last ref l w) = (if xs = [] then None else Some (last xs))"
    by (simp add: ref_def upd rat_cursor_def last_conv_nth)
  show "rview (snd (zlist_last ref l w)) = rview w"
    by (simp add: ref_def upd fun_upd_idem \<open>zlists (rview w) l = Some xs\<close>)
  show "rview (snd (zlist_next ref l w)) = rview w"
    by (simp add: ref_def upd fun_upd_idem \<open>zlists (rview w) l = Some xs\<close>)
  assume "zlist_cursor ref l w = Some i"
  then have k: "k = Some i" by (simp add: ref_def upd)
  show "fst (zlist_next ref l w) = (if Suc i < length xs then Some (xs ! Suc i) else None)"
    by (simp add: ref_def upd k rcursor_def rat_cursor_def)
  show "zlist_cursor ref l (snd (zlist_next ref l w)) = Some (Suc i)" if "Suc i < length xs"
    using that by (simp add: ref_def upd k rcursor_def)
qed (simp_all add: ref_def rview_new rview_sel ref_list_read)

lemma ref_zframe: "zframe_doc ref"
  unfolding zframe_doc_def rview_ref
proof (intro conjI allI impI)
  fix p b w cs d q c
  assume "zframes (rview w) p = Some b"
  then have p: "cell w p = CFrame b" by (simp add: cell_live)
  note upd = rview_put(2) [OF p] rview_kill(2) [OF p] ref_list_read(5) [OF p]
  show "zframe_size ref p w = length b" "zframe_data ref p w = b" "zframe_streq ref p cs w = (b = cs)"
    by (simp_all add: ref_def upd)
  show "zframe_alloc_doc ref w b (zframe_dup ref p w)"
    by (simp add: ref_def upd zframe_alloc_doc_def rview_new rview_sel)
  show "rview (zframe_destroy ref p w) = (rview w)\<lparr>zframes := (zframes (rview w))(p := None)\<rparr>"
    by (simp add: ref_def upd)
  show "rview (zframe_print ref p cs w) = rview w"
    by (simp add: ref_def)
  show "rview (zframe_reset ref p d w) = (rview w)\<lparr>zframes := (zframes (rview w))(p \<mapsto> d)\<rparr>"
    by (simp add: ref_def upd)
  assume "zframes (rview w) q = Some c"
  then have "cell w q = CFrame c" by (simp add: cell_live)
  then show "zframe_eq ref p q w = (b = c)" by (simp add: ref_def upd ref_list_read(5))
qed (simp_all add: ref_def zframe_alloc_doc_def rview_new rview_sel)

lemma raddrs_simps [simp]:
  "length (raddrs w bs) = length bs" "distinct (raddrs w bs)"
  "f \<in> set (raddrs w bs) \<longleftrightarrow> rlimit w < f \<and> f \<le> rlimit w + length bs"
  by (auto simp: raddrs_def simp del: upt_Suc)

lemma map_of_raddrs:
  "map_of (zip (raddrs w bs) bs) p =
     (if rlimit w < p \<and> p \<le> rlimit w + length bs then Some (bs ! (p - Suc (rlimit w))) else None)"
proof (cases "rlimit w < p \<and> p \<le> rlimit w + length bs")
  case True
  then have "p - Suc (rlimit w) < length bs" and "raddrs w bs ! (p - Suc (rlimit w)) = p"
    by (auto simp: raddrs_def simp del: upt_Suc)
  with True show ?thesis
    using map_of_zip_nth [of "raddrs w bs" bs "p - Suc (rlimit w)"] by simp
next
  case False
  then have "p \<notin> set (raddrs w bs)" by simp
  then have "map_of (zip (raddrs w bs) bs) p = None"
    using map_of_zip_is_None [of "raddrs w bs" bs p] by simp
  then show ?thesis by (simp only: False if_False)
qed

lemma cell_new_msg:
  "cell (snd (rnew_msg bs w)) p =
     (if p = Suc (rlimit w + length bs) then CMsg (raddrs w bs) None
      else if rlimit w < p \<and> p \<le> rlimit w + length bs then CFrame (bs ! (p - Suc (rlimit w)))
      else cell w p)"
  by (simp add: rnew_msg_def rnew_def cell_def)

lemma ref_new_msg: "zmsg_alloc_doc ref w bs (rnew_msg bs w)"
proof -
  let ?p = "Suc (rlimit w + length bs)" and ?m = "map_of (zip (raddrs w bs) bs)"
  have ptr: "fst (rnew_msg bs w) = ?p" and opts: "ropts (snd (rnew_msg bs w)) = ropts w"
    by (simp_all add: rnew_msg_def)
  have dead: "cell w f = Dead" if "rlimit w < f" for f
    using that by (simp add: cell_def)
  have "rview (snd (rnew_msg bs w)) =
    (rview w)\<lparr>zframes := zframes (rview w) ++ ?m, zmsgs := (zmsgs (rview w))(?p \<mapsto> raddrs w bs)\<rparr>"
    by (intro rview_eqI; simp add: rview_sel cell_new_msg opts map_add_def map_of_raddrs dead)
  then show ?thesis
    unfolding zmsg_alloc_doc_def ptr rview_ref
    by (simp add: rview_sel dead exI [of _ "raddrs w bs"])
qed

lemma bodies_ref: "bodies (rview w) fs = map (rframe w) fs"
  by (simp add: bodies_def rframe_def rview_sel split: cell.split)

lemma cell_keep: "cell w p \<noteq> Dead \<Longrightarrow> cell (snd (rnew c w)) p = cell w p"
  by (auto simp: cell_rnew)

lemma ref_put_new:
  assumes "cell w m = CMsg fs k"
  shows "rview (rput m (CMsg gs j) (snd (rnew (CFrame d) w))) =
    (rview w)\<lparr>zframes := (zframes (rview w))(Suc (rlimit w) \<mapsto> d), zmsgs := (zmsgs (rview w))(m \<mapsto> gs)\<rparr>"
proof -
  have "cell (snd (rnew (CFrame d) w)) m = CMsg fs k"
    using assms by (simp add: cell_keep)
  then show ?thesis by (simp add: rview_put(3) rview_new)
qed

lemma ref_popstr:
  assumes m: "cell w m = CMsg (f # r) k"
  shows "rview (snd (zmsg_popstr ref m w)) =
    (rview w)\<lparr>zframes := (zframes (rview w))(f := None), zmsgs := (zmsgs (rview w))(m \<mapsto> r)\<rparr>"
proof (cases "\<exists>b. cell w f = CFrame b")
  case True
  then obtain b where f: "cell w f = CFrame b" ..
  with m have "m \<noteq> f" by auto
  with f m have "cell (rput f Dead w) m = CMsg (f # r) k" by (simp add: cell_rput)
  then show ?thesis using f by (simp add: ref_def ref_list_read(3) [OF m] rview_put(3) rview_kill)
next
  case False
  then have "zframes (rview w) f = None"
    by (simp add: rview_sel split: cell.splits)
  moreover have "(case cell w f of CFrame b \<Rightarrow> rput f Dead w | c \<Rightarrow> w) = w"
    using False by (simp split: cell.splits)
  ultimately show ?thesis
    by (simp add: ref_def ref_list_read(3) [OF m] rview_put(3) [OF m] fun_upd_idem)
qed

lemma ref_msg_destroy:
  assumes m: "cell w m = CMsg fs k"
  shows "rview (zmsg_destroy ref m w) =
    (rview w)\<lparr>zframes := (zframes (rview w)) |` (- set fs), zmsgs := (zmsgs (rview w))(m := None)\<rparr>"
proof -
  have "cell (zmsg_destroy ref m w) p =
    (if p = m then Dead
     else if p \<in> set fs then (case cell w p of CFrame b \<Rightarrow> Dead | c \<Rightarrow> c) else cell w p)" for p
    by (simp add: ref_def ref_list_read(3) [OF m] cell_def)
  moreover have "ropts (zmsg_destroy ref m w) = ropts w"
    by (simp add: ref_def)
  ultimately show ?thesis
    using m by (intro rview_eqI; auto simp: rview_sel restrict_map_def split: cell.splits)
qed

lemma ref_decode: "zmsg_alloc_doc ref w bs (rdecode (renc bs) w)"
proof (cases "\<forall>b\<in>set bs. length b < 255")
  case True
  then show ?thesis
    by (simp add: rdecode_def renc_def rdec_encode_short length_encode_short ref_new_msg)
next
  case False
  then have "rdecode (renc bs) w = (NULL, w)"
    by (simp only: renc_def if_False) (simp add: rdecode_def)
  then show ?thesis
    by (simp add: zmsg_alloc_doc_def)
qed

lemma ref_zmsg: "zmsg_doc ref"
  unfolding zmsg_doc_def rview_ref
proof (intro conjI allI impI)
  fix m fs w f d i w'
  assume live: "zmsgs (rview w) m = Some fs"
  then obtain k where m: "cell w m = CMsg fs k" by (auto simp: cell_live)
  note upd = rview_put(3) [OF m] ref_list_read(3,4,7) [OF m] fun_upd_idem [where f = "zmsgs (rview w)", OF live]
  show "zmsg_size ref m w = length fs"
    "zmsg_content_size ref m w = sum_list (map length (bodies (rview w) fs))"
    by (simp_all add: ref_def upd rbodies_def bodies_ref)
  show "zmsg_put_doc ref w m (f # fs) (zmsg_push ref m f w)"
    "zmsg_put_doc ref w m (fs @ [f]) (zmsg_add ref m f w)"
    by (simp_all add: zmsg_put_doc_def ref_def upd)
  show "fst (zmsg_pop ref m w) = (case fs of [] \<Rightarrow> NULL | f # _ \<Rightarrow> f)"
    "fst (zmsg_first ref m w) = (case fs of [] \<Rightarrow> NULL | f # _ \<Rightarrow> f)"
    by (simp_all add: ref_def upd rat_cursor_def or_null_def split: list.splits)
  show "rview (snd (zmsg_pop ref m w)) = (rview w)\<lparr>zmsgs := (zmsgs (rview w))(m \<mapsto> tl fs)\<rparr>"
    by (simp add: ref_def upd)
  show "zmsg_mem_doc ref w m (\<lambda>f. f # fs) d (zmsg_pushmem ref m d w)"
    "zmsg_mem_doc ref w m (\<lambda>f. fs @ [f]) d (zmsg_addmem ref m d w)"
    unfolding zmsg_mem_doc_def rview_ref
    using ref_put_new [OF m]
    by (simp_all add: ref_def upd split_beta rview_sel exI [of _ "Suc (rlimit w)"])
  show "fst (zmsg_popstr ref m w) = (case fs of [] \<Rightarrow> None | f # _ \<Rightarrow> zframes (rview w) f)"
    by (simp add: ref_def upd split: list.splits)
  show "rview (snd (zmsg_popstr ref m w)) =
      (case fs of [] \<Rightarrow> rview w
       | f # r \<Rightarrow> (rview w)\<lparr>zframes := (zframes (rview w))(f := None),
                           zmsgs := (zmsgs (rview w))(m \<mapsto> r)\<rparr>)"
  proof (cases fs)
    case Nil
    then show ?thesis by (simp add: ref_def upd)
  next
    case (Cons g r)
    then show ?thesis using ref_popstr [of w m g r k] m by simp
  qed
  show "\<exists>e. e \<noteq> NULL \<and> zframes (rview w) e = None \<and>
      rview (zmsg_wrap ref m f w) = (rview w)
        \<lparr>zframes := (zframes (rview w))(e \<mapsto> []), zmsgs := (zmsgs (rview w))(m \<mapsto> f # e # fs)\<rparr>"
    using ref_put_new [OF m] by (simp add: ref_def upd split_beta rview_sel exI [of _ "Suc (rlimit w)"])
  show "rview (zmsg_remove ref m f w) = (rview w)\<lparr>zmsgs := (zmsgs (rview w))(m \<mapsto> remove1 f fs)\<rparr>"
    by (simp add: ref_def upd)
  show "rview (snd (zmsg_first ref m w)) = rview w" "rview (snd (zmsg_last ref m w)) = rview w"
    "rview (snd (zmsg_next ref m w)) = rview w" "rview (zmsg_dump ref m w) = rview w"
    by (simp_all add: ref_def upd)
  show "zmsg_cursor ref m (snd (zmsg_first ref m w)) = Some 0"
    by (simp add: ref_def upd)
  show "fst (zmsg_last ref m w) = (if fs = [] then NULL else last fs)"
    by (simp add: ref_def upd rat_cursor_def or_null_def last_conv_nth)
  show "zmsg_alloc_doc ref w (bodies (rview w) fs) (zmsg_dup ref m w)"
  proof -
    have "zmsg_dup ref m w = rnew_msg (bodies (rview w) fs) w"
      by (simp add: ref_def upd rbodies_def bodies_ref)
    then show ?thesis using ref_new_msg by simp
  qed
  show "rview (zmsg_destroy ref m w) =
      (rview w)\<lparr>zframes := (zframes (rview w)) |` (- set fs), zmsgs := (zmsgs (rview w))(m := None)\<rparr>"
    by (rule ref_msg_destroy [OF m])
  show "zmsg_encode ref m w = encode_short (bodies (rview w) fs)"
    if "\<forall>b. b \<in> set (bodies (rview w) fs) \<longrightarrow> length b < 255"
    using that by (simp add: ref_def upd rbodies_def bodies_ref renc_def)
  show "zmsg_alloc_doc ref w' (bodies (rview w) fs) (zmsg_decode ref (zmsg_encode ref m w) w')"
  proof -
    have "zmsg_decode ref (zmsg_encode ref m w) w' = rdecode (renc (bodies (rview w) fs)) w'"
      by (simp add: ref_def upd rbodies_def bodies_ref)
    then show ?thesis using ref_decode by simp
  qed
  assume "zmsg_cursor ref m w = Some i"
  then have k: "k = Some i" by (simp add: ref_def upd)
  show "fst (zmsg_next ref m w) = (if Suc i < length fs then fs ! Suc i else NULL)"
    by (simp add: ref_def upd k rcursor_def rat_cursor_def or_null_def)
  show "zmsg_cursor ref m (snd (zmsg_next ref m w)) = Some (Suc i)" if "Suc i < length fs"
    using that by (simp add: ref_def upd k rcursor_def)
next
  show "zmsg_alloc_doc ref w [] (zmsg_new ref w)" for w
  proof -
    have "zmsg_new ref w = rnew_msg [] w" by (simp add: ref_def)
    then show ?thesis using ref_new_msg by simp
  qed
qed (simp_all add: rview_sel)

lemma ref_ctx_destroy:
  assumes c: "cell w c = CCtx n"
  shows "rview (zctx_destroy ref c w) =
    (rview w)\<lparr>zctxs := (zctxs (rview w))(c := None),
      zsocks := (\<lambda>h. case zsocks (rview w) h of None \<Rightarrow> None
                  | Some (d, t) \<Rightarrow> if d = c then None else Some (d, t))\<rparr>"
proof -
  have "cell (zctx_destroy ref c w) p =
    (if p = c then Dead
     else case cell w p of CSock d t \<Rightarrow> if d = c then Dead else cell w p | _ \<Rightarrow> cell w p)" for p
    by (simp add: ref_def cell_def split: cell.split)
  moreover have "ropts (zctx_destroy ref c w) = ropts w"
    by (simp add: ref_def)
  ultimately show ?thesis
    using c by (intro rview_eqI; auto simp: rview_sel split: cell.splits)
qed

lemma rview_opts [simp]: "rview (w\<lparr>ropts := opts\<rparr>) = (rview w)\<lparr>zopts := opts\<rparr>"
  by (simp add: rview_def)

lemma ref_ctx_call:
  assumes "zctxs (rview w) c = Some n"
  shows "zctx_call_doc ref w c"
proof -
  have c: "cell w c = CCtx n" using assms by (simp add: cell_live)
  have new: "h = Suc (rlimit w) \<and>
      rview w' = (rview w)\<lparr>zsocks := (zsocks (rview w))(h \<mapsto> (c, t)),
        zopts := (zopts (rview w))(h := Map.empty)\<rparr>" if "zsocket_new ref c t w = (h, w')" for t h w'
    using that by (auto simp: ref_def split_beta rview_new rview_sel)
  have "zsocks (rview w) (Suc (rlimit w)) = None" by (simp add: rview_sel)
  then have "if h = NULL then rview w' = rview w
       else zsocks (rview w) h = None \<and>
         rview w' = (rview w)\<lparr>zsocks := (zsocks (rview w))(h \<mapsto> (c, t)),
                              zopts := (zopts (rview w))(h := Map.empty)\<rparr>"
    if "zsocket_new ref c t w = (h, w')" for t h w'
    using new [OF that] by simp
  moreover have "rview (zctx_set_linger ref c i w) = rview w"
    and "rview (zctx_set_iothreads ref c i w) = (rview w)\<lparr>zctxs := (zctxs (rview w))(c \<mapsto> i)\<rparr>" for i
    by (simp_all add: ref_def rview_put(4) [OF c])
  ultimately show ?thesis
    unfolding zctx_call_doc_def rview_ref
    using ref_ctx_destroy [OF c] by blast
qed

lemma same_option: "\<exists>x. rview w = rview w\<lparr>zopts := (ropts w)(h := (ropts w h)(opt := x))\<rparr>"
  by (rule exI [of _ "ropts w h opt"]) (simp add: rview_def)

lemma ref_socket_call:
  assumes "zsocks (rview w) h = Some (c, t)"
  shows "zsocket_call_doc ref w h t"
proof -
  have "cell w h = CSock c t" using assms by (simp add: cell_live)
  then show ?thesis
    unfolding zsocket_call_doc_def rview_ref by (simp add: ref_def rview_kill rview_sel same_option)
qed

lemma inj_rtype: "inj rtype"
proof (rule injI)
  fix x y assume "rtype x = rtype y"
  then show "x = y" by (cases x; cases y; simp)
qed

lemma ref_zsock: "zsock_doc ref"
  unfolding zsock_doc_def rview_ref
proof (intro conjI allI impI)
  show "inj (socktype ref)" by (simp add: ref_def inj_rtype)
  fix w c w'
  assume "zctx_new ref w = (c, w')"
  then have "c = Suc (rlimit w) \<and> w' = snd (rnew (CCtx 1) w)"
    by (auto simp: ref_def rnew_def)
  then show "if c = NULL then rview w' = rview w
      else zctxs (rview w) c = None \<and> rview w' = (rview w)\<lparr>zctxs := (zctxs (rview w))(c \<mapsto> 1)\<rparr>"
    by (simp add: rview_new rview_sel)
qed (simp_all add: ref_ctx_call ref_socket_call rview_sel, simp_all add: ref_def)

text \<open>Its functions, for evaluation.\<close>

lemma ref_fields:
  "socktype ref = rtype"
  "errcode ref = rerrno"
  "eventcode ref = revent"
  "ZMQ_POLLIN ref = 1"
  "ZMQ_POLLOUT ref = 2"
  "ZMQ_POLLERR ref = 4"
  "ZMQ_SNDMORE ref = 2"
  "ZMQ_DONTWAIT ref = 1"
  "zmq_errno ref = rerr"
  "set_errno ref = (\<lambda>e w. w\<lparr>rerr := e\<rparr>)"
  "zlist_new ref = rnew (CList [] None)"
  "zlist_destroy ref = (\<lambda>l. rput l Dead)"
  "zlist_push ref = (\<lambda>l x w. rput l (CList (x # rlist w l) None) w)"
  "zlist_append ref = (\<lambda>l x w. rput l (CList (rlist w l @ [x]) None) w)"
  "zlist_pop ref = (\<lambda>l w. (rat_cursor (rlist w l) (Some 0), rput l (CList (tl (rlist w l)) None) w))"
  "zlist_remove ref = (\<lambda>l x w. rput l (CList (remove1 x (rlist w l)) None) w)"
  "zlist_first ref = (\<lambda>l w. (rat_cursor (rlist w l) (Some 0), rput l (CList (rlist w l) (Some 0)) w))"
  "zlist_next ref = (\<lambda>l w. (rat_cursor (rlist w l) (rcursor (rlist w l) (rlcur w l)), rput l (CList (rlist w l) (rcursor (rlist w l) (rlcur w l))) w))"
  "zlist_last ref = (\<lambda>l w. (rat_cursor (rlist w l) (Some (length (rlist w l) - 1)), rput l (CList (rlist w l) (Some (length (rlist w l) - 1))) w))"
  "zlist_size ref = (\<lambda>l w. length (rlist w l))"
  "zlist_cursor ref = (\<lambda>l w. rlcur w l)"
  "zframe_new ref = (\<lambda>d. rnew (CFrame d))"
  "zframe_destroy ref = (\<lambda>p. rput p Dead)"
  "zframe_size ref = (\<lambda>p w. length (rframe w p))"
  "zframe_data ref = (\<lambda>p w. rframe w p)"
  "zframe_strhex ref = (\<lambda>p w. rframe w p)"
  "zframe_dup ref = (\<lambda>p w. rnew (CFrame (rframe w p)) w)"
  "zframe_streq ref = (\<lambda>p cs w. rframe w p = cs)"
  "zframe_more ref = (\<lambda>p w. 0)"
  "zframe_eq ref = (\<lambda>p q w. rframe w p = rframe w q)"
  "zframe_print ref = (\<lambda>p cs w. w)"
  "zframe_reset ref = (\<lambda>p d. rput p (CFrame d))"
  "zframe_send ref = (\<lambda>p h fl w. (0, if fl AND 2 = 0 then rput p Dead w else w))"
  "zframe_recv ref = (\<lambda>h. rnew (CFrame ''hello''))"
  "zframe_recv_nowait ref = (\<lambda>h w. (NULL, w))"
  "ZFRAME_MORE ref = 1"
  "ZFRAME_REUSE ref = 2"
  "ZFRAME_DONTWAIT ref = 4"
  "zmsg_new ref = rnew_msg []"
  "zmsg_destroy ref = (\<lambda>m w. w\<lparr>rcells := (\<lambda>p. if p = m then Dead else if p \<in> set (rmsg w m) then (case rcells w p of CFrame b \<Rightarrow> Dead | c \<Rightarrow> c) else rcells w p)\<rparr>)"
  "zmsg_size ref = (\<lambda>m w. length (rmsg w m))"
  "zmsg_content_size ref = (\<lambda>m w. sum_list (map length (rbodies w m)))"
  "zmsg_push ref = (\<lambda>m f w. (0, rput m (CMsg (f # rmsg w m) None) w))"
  "zmsg_add ref = (\<lambda>m f w. (0, rput m (CMsg (rmsg w m @ [f]) None) w))"
  "zmsg_pop ref = (\<lambda>m w. (or_null (rat_cursor (rmsg w m) (Some 0)), rput m (CMsg (tl (rmsg w m)) None) w))"
  "zmsg_pushmem ref = (\<lambda>m d w. case rnew (CFrame d) w of (f, w1) \<Rightarrow> (0, rput m (CMsg (f # rmsg w m) None) w1))"
  "zmsg_addmem ref = (\<lambda>m d w. case rnew (CFrame d) w of (f, w1) \<Rightarrow> (0, rput m (CMsg (rmsg w m @ [f]) None) w1))"
  "zmsg_popstr ref = (\<lambda>m w. case rmsg w m of [] \<Rightarrow> (None, w) | f # fs \<Rightarrow> (zframes (rview w) f, rput m (CMsg fs None) (case cell w f of CFrame b \<Rightarrow> rput f Dead w | c \<Rightarrow> w)))"
  "zmsg_wrap ref = (\<lambda>m f w. case rnew (CFrame []) w of (e, w1) \<Rightarrow> rput m (CMsg (f # e # rmsg w m) None) w1)"
  "zmsg_remove ref = (\<lambda>m f w. rput m (CMsg (remove1 f (rmsg w m)) None) w)"
  "zmsg_first ref = (\<lambda>m w. (or_null (rat_cursor (rmsg w m) (Some 0)), rput m (CMsg (rmsg w m) (Some 0)) w))"
  "zmsg_next ref = (\<lambda>m w. (or_null (rat_cursor (rmsg w m) (rcursor (rmsg w m) (rmcur w m))), rput m (CMsg (rmsg w m) (rcursor (rmsg w m) (rmcur w m))) w))"
  "zmsg_last ref = (\<lambda>m w. (or_null (rat_cursor (rmsg w m) (Some (length (rmsg w m) - 1))), rput m (CMsg (rmsg w m) (Some (length (rmsg w m) - 1))) w))"
  "zmsg_cursor ref = (\<lambda>m w. rmcur w m)"
  "zmsg_dup ref = (\<lambda>m w. rnew_msg (rbodies w m) w)"
  "zmsg_dump ref = (\<lambda>m w. w)"
  "zmsg_encode ref = (\<lambda>m w. renc (rbodies w m))"
  "zmsg_decode ref = rdecode"
  "zmsg_send ref = (\<lambda>m h w. (0, w\<lparr>rcells := (\<lambda>p. if p = m then Dead else if p \<in> set (rmsg w m) then (case rcells w p of CFrame b \<Rightarrow> Dead | c \<Rightarrow> c) else rcells w p)\<rparr>))"
  "zmsg_recv ref = (\<lambda>h. rnew_msg [])"
  "zctx_new ref = rnew (CCtx 1)"
  "zctx_destroy ref = (\<lambda>c w. w\<lparr>rcells := (\<lambda>p. if p = c then Dead else case rcells w p of CSock d t \<Rightarrow> if d = c then Dead else rcells w p | _ \<Rightarrow> rcells w p)\<rparr>)"
  "zctx_set_linger ref = (\<lambda>c i w. w)"
  "zctx_set_iothreads ref = (\<lambda>c i. rput c (CCtx i))"
  "zsys_handler_reset ref = (\<lambda>w. w)"
  "zsocket_new ref = (\<lambda>c t w. case rnew (CSock c t) w of (h, w1) \<Rightarrow> (h, w1\<lparr>ropts := (ropts w1)(h := Map.empty)\<rparr>))"
  "zsocket_destroy ref = (\<lambda>c h. rput h Dead)"
  "zsocket_type ref = (\<lambda>h w. case cell w h of CSock c t \<Rightarrow> t | _ \<Rightarrow> -1)"
  "zsocket_bind ref = (\<lambda>h ep w. (0, w))"
  "zsocket_connect ref = (\<lambda>h ep w. (0, w))"
  "zsocket_disconnect ref = (\<lambda>h ep w. (0, w))"
  "zsocket_unbind ref = (\<lambda>h ep w. (0, w))"
  "zsocket_last_endpoint ref = (\<lambda>h w. Some ''tcp://127.0.0.1:5555'')"
  "zsocket_fd ref = (\<lambda>h w. 3)"
  "zsocket_poll ref = (\<lambda>h n w. (False, w))"
  "zsocket_opt ref = (\<lambda>opt h w. case ropts w h opt of None \<Rightarrow> 0 | Some n \<Rightarrow> n)"
  "zsocket_set_opt ref = (\<lambda>opt h n w. if -1 \<le> n then w\<lparr>ropts := (ropts w)(h := (ropts w h)(opt \<mapsto> n))\<rparr> else w)"
  "opt_range ref = (\<lambda>opt n. -1 \<le> n)"
  "zsocket_set_str ref = (\<lambda>opt h cs w. w)"
  "zmq_sendmsg ref = (\<lambda>h d fl w. (int (length d), w))"
  "zmq_recvmsg ref = (\<lambda>h fl w. ((5, ''hello''), w))"
  "zmq_msg_more ref = (\<lambda>h w. True)"
  "zmq_connect ref = (\<lambda>h ep w. (0, w))"
  "zmq_event ref = (\<lambda>cs. (1, 0))"
  "zmq_socket_monitor ref = (\<lambda>h ep n w. (0, w))"
  "zmq_proxy ref = (\<lambda>a b c w. (-1, w))"
  "zmq_poll ref = (\<lambda>items t w.
     if t < 0 \<and> (\<forall>i\<in>set items. pi_events i = 0) then None
     else Some ((int (length (filter (\<lambda>i. pi_events i \<noteq> 0) items)), map (\<lambda>i. i\<lparr>pi_revents := pi_events i\<rparr>) items), w))"
  "zloop_new ref = rnew (CLoop [])"
  "zloop_destroy ref = (\<lambda>l. rput l Dead)"
  "zloop_timer ref = (\<lambda>l d n f x w. (0, rput l (CLoop (rloop w l @ [Timer_reg d n f x])) w))"
  "zloop_timer_end ref = (\<lambda>l x w. (0, rput l (CLoop (filter (\<lambda>r. \<not> timer_for x r) (rloop w l))) w))"
  "zloop_poller ref = (\<lambda>l i f x w. (0, rput l (CLoop (rloop w l @ [Poll_reg i f x])) w))"
  "zloop_poller_end ref = (\<lambda>l i w. rput l (CLoop (filter (\<lambda>r. \<not> poll_for i r) (rloop w l))) w)"
  "zloop_set_verbose ref = (\<lambda>l b w. w)"
  "zbeacon_new ref = (\<lambda>n w. case rnew (CSock NULL 0) w of (h, w1) \<Rightarrow> rnew (CBeacon h) w1)"
  "zbeacon_destroy ref = (\<lambda>b w. rput b Dead (case cell w (rbeacon w b) of CSock c t \<Rightarrow> rput (rbeacon w b) Dead w | _ \<Rightarrow> w))"
  "zbeacon_hostname ref = (\<lambda>b w. ''host'')"
  "zbeacon_set_interval ref = (\<lambda>b n w. w)"
  "zbeacon_noecho ref = (\<lambda>b w. w)"
  "zbeacon_publish ref = (\<lambda>b cs w. w)"
  "zbeacon_silence ref = (\<lambda>b w. w)"
  "zbeacon_subscribe ref = (\<lambda>b cs w. w)"
  "zbeacon_unsubscribe ref = (\<lambda>b w. w)"
  "zbeacon_socket ref = (\<lambda>b w. rbeacon w b)"
  "zctx_interrupted ref = rint"
  "interrupt ref = (\<lambda>w. w\<lparr>rint := True\<rparr>)"
  "zclock_time ref = (\<lambda>w. 1700000000000)"
  "zmq_version ref = (4, 0, 3)"
  "czmq_version ref = (2, 0, 2)"
  by (simp_all only: ref_def czmq.simps)

lemma ref_zsend: "zsend_doc ref"
  unfolding zsend_doc_def rview_ref
proof (intro conjI allI impI)
  fix p h fl w
  assume "zframes (rview w) p \<noteq> None"
  then obtain b where "cell w p = CFrame b" by (auto simp: cell_live)
  then show "zframe_send_doc ref w p fl (zframe_send ref p h fl w)"
    by (simp add: zframe_send_doc_def ref_fields rview_kill)
next
  fix m fs h w
  assume "zmsgs (rview w) m = Some fs"
  then obtain k where "cell w m = CMsg fs k" by (auto simp: cell_live)
  from ref_msg_destroy [OF this] show "zmsg_send_doc ref w m fs (zmsg_send ref m h w)"
    by (auto simp: zmsg_send_doc_def ref_fields intro: exI [of _ "set fs"] exI [of _ None])
next
  fix h w
  show "\<exists>d. zframe_alloc_doc ref w d (zframe_recv ref h w)"
    by (rule exI [of _ "''hello''"]) (simp add: ref_fields zframe_alloc_doc_def rview_new rview_sel)
  show "\<exists>d. zframe_alloc_doc ref w d (zframe_recv_nowait ref h w)"
    by (simp add: ref_fields zframe_alloc_doc_def)
  show "\<exists>bs. zmsg_alloc_doc ref w bs (zmsg_recv ref h w)"
    using ref_new_msg [of w "[]"] by (auto simp: ref_fields)
qed

lemma rview_loop:
  "cell w p = CLoop rs \<Longrightarrow> rview (rput p (CLoop qs) w) = (rview w)\<lparr>zloops := (zloops (rview w))(p \<mapsto> qs)\<rparr>"
  "cell w p = CLoop rs \<Longrightarrow> rview (rput p Dead w) = (rview w)\<lparr>zloops := (zloops (rview w))(p := None)\<rparr>"
  "rview (snd (rnew (CLoop qs) w)) = (rview w)\<lparr>zloops := (zloops (rview w))(Suc (rlimit w) \<mapsto> qs)\<rparr>"
  "rview (snd (rnew (CBeacon h) w)) = (rview w)\<lparr>zbeacons := (zbeacons (rview w))(Suc (rlimit w) \<mapsto> h)\<rparr>"
  "cell w p = CBeacon h \<Longrightarrow> rview (rput p Dead w) = (rview w)\<lparr>zbeacons := (zbeacons (rview w))(p := None)\<rparr>"
  by (rule rview_eqI; simp add: rview_sel cell_rput cell_rnew)+

lemma ref_zloop: "zloop_doc ref"
  unfolding zloop_doc_def rview_ref
proof (intro conjI allI impI)
  fix l rs w
  assume "zloops (rview w) l = Some rs"
  then have l: "cell w l = CLoop rs" by (simp add: cell_live)
  then have "rloop w l = rs" by (simp add: rloop_def)
  with l show "zloop_call_doc ref w l rs"
    by (simp add: zloop_call_doc_def zloop_put_doc_def ref_fields rview_loop)
qed (simp_all add: rview_sel ref_fields zloop_new_doc_def rview_loop)

lemma ref_zbeacon: "zbeacon_doc ref"
  unfolding zbeacon_doc_def rview_ref
proof (intro conjI allI impI)
  fix n w
  have "rlimit (snd (rnew (CSock NULL 0) w)) = Suc (rlimit w)" by (simp add: rnew_def)
  moreover have "cell w (Suc (Suc (rlimit w))) = Dead" by (simp add: cell_def)
  ultimately show "zbeacon_new_doc ref w (zbeacon_new ref n w)"
    by (auto simp: zbeacon_new_doc_def ref_fields split_beta rview_loop rview_new rview_sel cell_rnew
        intro!: exI [of _ "Suc (rlimit w)"])
next
  fix b h w
  assume "zbeacons (rview w) b = Some h"
  then have b: "cell w b = CBeacon h" by (simp add: cell_live)
  then have rb: "rbeacon w b = h" by (simp add: rbeacon_def)
  let ?w1 = "case cell w h of CSock c t \<Rightarrow> rput h Dead w | _ \<Rightarrow> w"
  have "cell ?w1 b = CBeacon h"
    using b by (auto simp: cell_rput split: cell.split)
  moreover have "rview ?w1 = (rview w)\<lparr>zsocks := (zsocks (rview w))(h := None)\<rparr>"
    by (cases "cell w h") (auto intro!: rview_eqI simp: rview_sel cell_rput)
  ultimately have "rview (rput b Dead ?w1) = (rview w)\<lparr>zsocks := (zsocks (rview w))(h := None),
      zbeacons := (zbeacons (rview w))(b := None)\<rparr>"
    by (simp add: rview_loop)
  then show "zbeacon_call_doc ref w b h"
    by (simp add: zbeacon_call_doc_def ref_fields rb cong: cell.case_cong)
qed (simp add: rview_sel)


text \<open>The empty world of the reference library, and a state of the extension around it.\<close>

definition rempty :: rworld where
  "rempty = \<lparr>rlimit = 0, rcells = (\<lambda>p. Dead), ropts = (\<lambda>p. Map.empty), rerr = 0, rint = False\<rparr>"

definition vm0 :: "rworld vm" where
  "vm0 =
     \<lparr>lib = rempty, fresh = 1, ctxs = Map.empty, socks = Map.empty, frames = Map.empty,
      msgs = Map.empty, timers = Map.empty, pollitems = Map.empty, pollers = Map.empty,
      loops = Map.empty, beacons = Map.empty, arrays = Map.empty, ctx_map = (\<lambda>k. Qnil), pid = 1,
      thread = Object rb_cThread 1, source = (''main.rb'', 1)\<rparr>"

end
