(* ===== verification/Zmq_Frame.thy ===== *)
theory Zmq_Frame
  imports Zmq_Objects Zmq_Ref
begin

text \<open>
  frame.c: the Ruby object around a czmq frame. A frame object owns its czmq frame while its
  \<^verbatim>\<open>ZMQ_FRAME_OWNED\<close> flag is set; a frame handed to a message is readable through the object while
  the message is owned; a frame that was sent or destroyed is gone.
\<close>

section \<open>Allocation and release\<close>

definition rb_czmq_alloc_frame :: "ptr \<Rightarrow> ('w, rvalue) vcmd" where
  "rb_czmq_alloc_frame frame =
     make_struct
       (\<lambda>f s. s\<lparr>frames := (frames s)(f \<mapsto>
          \<lparr>f_frame = frame, f_message = NULL, f_flags = ZMQ_FRAME_OWNED\<rparr>)\<rparr>)
       (\<lambda>f. ret (Object rb_cZmqFrame f))"

definition rb_czmq_free_frame :: "'w czmq \<Rightarrow> ptr \<Rightarrow> ('w, unit) vcmd" where
  "rb_czmq_free_frame A frame =
     deref frames frame (\<lambda>f.
     if f_frame f \<noteq> NULL \<and> has (f_flags f) ZMQ_FRAME_OWNED then
       live_frame A (f_frame f) (
       tell (zframe_destroy A (f_frame f)) (
       set_frame frame (\<lambda>f. f\<lparr>f_flags := clear_flag (f_flags f) ZMQ_FRAME_OWNED\<rparr>) (
       set_frame frame (\<lambda>f. f\<lparr>f_frame := NULL\<rparr>) (ret ()))))
     else set_frame frame (\<lambda>f. f\<lparr>f_frame := NULL\<rparr>) (ret ()))"

definition rb_czmq_free_frame_gc :: "'w czmq \<Rightarrow> ptr \<Rightarrow> ('w, unit) vcmd" where
  "rb_czmq_free_frame_gc A frame =
     (if frame \<noteq> NULL then
        call (rb_czmq_free_frame A frame) (\<lambda>_.
        wr (\<lambda>s. s\<lparr>frames := (frames s)(frame := None)\<rparr>) (ret ()))
      else ret ())"

definition rb_czmq_frame_s_new :: "'w czmq \<Rightarrow> rvalue list \<Rightarrow> ('w, rvalue) vcmd" where
  "rb_czmq_frame_s_new A argv =
     tell (set_errno A 0) (
     rb_scan_args_01 argv (\<lambda>data.
     let finish = (\<lambda>fr.
       if fr = NULL then ZmqAssertSysError A (raise NoMemError)
       else rb_czmq_alloc_frame fr)
     in if NIL_P data then invoke (zframe_new A []) finish
        else Check_String data (\<lambda>str. invoke (zframe_new A str) finish)))"

definition rb_czmq_frame_destroy :: "'w czmq \<Rightarrow> rvalue \<Rightarrow> ('w, rvalue) vcmd" where
  "rb_czmq_frame_destroy A obj =
     ZmqGetFrame obj (\<lambda>frame.
     ZmqAssertFrameOwned frame (
     call (rb_czmq_free_frame A frame) (\<lambda>_. ret Qnil)))"

section \<open>Reading a frame\<close>

definition rb_czmq_frame_size :: "'w czmq \<Rightarrow> rvalue \<Rightarrow> ('w, rvalue) vcmd" where
  "rb_czmq_frame_size A obj =
     ZmqGetFrame obj (\<lambda>frame.
     ZmqReturnNilUnlessFrameOwned frame (
     deref frames frame (\<lambda>f.
     live_frame A (f_frame f) (
     ask (zframe_size A (f_frame f)) (\<lambda>size. ret (LONG2FIX (int size)))))))"

definition rb_czmq_frame_data :: "'w czmq \<Rightarrow> rvalue \<Rightarrow> ('w, rvalue) vcmd" where
  "rb_czmq_frame_data A obj =
     ZmqGetFrame obj (\<lambda>frame.
     ZmqReturnNilUnlessFrameOwned frame (
     deref frames frame (\<lambda>f.
     live_frame A (f_frame f) (
     ask (zframe_size A (f_frame f)) (\<lambda>size.
     ask (zframe_data A (f_frame f)) (\<lambda>data. ret (RString (take size data))))))))"

text \<open>
  The source calls \<^verbatim>\<open>data\<close> by its name; that is the function above as long as no program redefines the
  method.
\<close>

definition rb_czmq_frame_to_s :: "'w czmq \<Rightarrow> rvalue \<Rightarrow> ('w, rvalue) vcmd" where
  "rb_czmq_frame_to_s A obj = rb_czmq_frame_data A obj"

definition rb_czmq_frame_strhex :: "'w czmq \<Rightarrow> rvalue \<Rightarrow> ('w, rvalue) vcmd" where
  "rb_czmq_frame_strhex A obj =
     ZmqGetFrame obj (\<lambda>frame.
     ZmqReturnNilUnlessFrameOwned frame (
     deref frames frame (\<lambda>f.
     live_frame A (f_frame f) (
     ask (zframe_strhex A (f_frame f)) (\<lambda>str. ret (RString (c_str str)))))))"

definition rb_czmq_frame_dup :: "'w czmq \<Rightarrow> rvalue \<Rightarrow> ('w, rvalue) vcmd" where
  "rb_czmq_frame_dup A obj =
     ZmqGetFrame obj (\<lambda>frame.
     ZmqAssertFrameOwned frame (
     deref frames frame (\<lambda>f.
     live_frame A (f_frame f) (
     invoke (zframe_dup A (f_frame f)) (\<lambda>dup_fr.
     if dup_fr = NULL then ZmqAssertSysError A (raise NoMemError)
     else rb_czmq_alloc_frame dup_fr)))))"

definition rb_czmq_frame_data_equals_p :: "'w czmq \<Rightarrow> rvalue \<Rightarrow> rvalue \<Rightarrow> ('w, rvalue) vcmd" where
  "rb_czmq_frame_data_equals_p A obj data =
     ZmqGetFrame obj (\<lambda>frame.
     ZmqAssertFrameOwned frame (
     Check_String data (\<lambda>str.
     deref frames frame (\<lambda>f.
     live_frame A (f_frame f) (
     ask (zframe_streq A (f_frame f) (c_str str)) (\<lambda>eq. ret (if eq then Qtrue else Qfalse)))))))"

definition rb_czmq_frame_more_p :: "'w czmq \<Rightarrow> rvalue \<Rightarrow> ('w, rvalue) vcmd" where
  "rb_czmq_frame_more_p A obj =
     ZmqGetFrame obj (\<lambda>frame.
     ZmqReturnNilUnlessFrameOwned frame (
     deref frames frame (\<lambda>f.
     live_frame A (f_frame f) (
     ask (zframe_more A (f_frame f)) (\<lambda>more.
     ret (if more = uint (ZFRAME_MORE A) then Qtrue else Qfalse))))))"

definition rb_czmq_frame_eql_p :: "'w czmq \<Rightarrow> rvalue \<Rightarrow> rvalue \<Rightarrow> ('w, rvalue) vcmd" where
  "rb_czmq_frame_eql_p A obj other_frame =
     ZmqGetFrame obj (\<lambda>frame.
     ZmqAssertFrameOwned frame (
     ZmqGetFrame other_frame (\<lambda>other.
     deref frames other (\<lambda>g.
     check (f_frame g \<noteq> NULL) (TypeError ''uninitialized ZMQ frame!'') (
     ZmqAssertFrameOwned other (
     deref frames frame (\<lambda>f.
     live_frame A (f_frame f) (live_frame A (f_frame g) (
     ask (zframe_eq A (f_frame f) (f_frame g)) (\<lambda>eq. ret (if eq then Qtrue else Qfalse)))))))))))"

definition rb_czmq_frame_equals :: "'w czmq \<Rightarrow> rvalue \<Rightarrow> rvalue \<Rightarrow> ('w, rvalue) vcmd" where
  "rb_czmq_frame_equals A obj other_frame =
     (if obj = other_frame then ret Qtrue else rb_czmq_frame_eql_p A obj other_frame)"

text \<open>
  The comparison checks the ownership of \<^verbatim>\<open>frame\<close> twice, as the code does, and never that of
  \<^verbatim>\<open>other\<close>. The difference of the two sizes is a C long.
\<close>

definition rb_czmq_frame_cmp :: "'w czmq \<Rightarrow> rvalue \<Rightarrow> rvalue \<Rightarrow> ('w, rvalue) vcmd" where
  "rb_czmq_frame_cmp A obj other_frame =
     (if obj = other_frame then ret (Fixnum 0)
      else
        ZmqGetFrame obj (\<lambda>frame.
        ZmqAssertFrameOwned frame (
        ZmqGetFrame other_frame (\<lambda>other.
        deref frames other (\<lambda>g.
        check (f_frame g \<noteq> NULL) (TypeError ''uninitialized ZMQ frame!'') (
        ZmqAssertFrameOwned frame (
        deref frames frame (\<lambda>f.
        live_frame A (f_frame f) (live_frame A (f_frame g) (
        ask (zframe_size A (f_frame f)) (\<lambda>a.
        ask (zframe_size A (f_frame g)) (\<lambda>b.
        let diff = sint (of_nat a - of_nat b :: 64 word)
        in ret (Fixnum (if diff = 0 then 0 else if diff > 0 then 1 else -1))))))))))))))"

definition rb_czmq_frame_print :: "'w czmq \<Rightarrow> rvalue list \<Rightarrow> rvalue \<Rightarrow> ('w, rvalue) vcmd" where
  "rb_czmq_frame_print A argv obj =
     ZmqGetFrame obj (\<lambda>frame.
     ZmqAssertFrameOwned frame (
     rb_scan_args_01 argv (\<lambda>prefix.
     let finish = (\<lambda>print_prefix.
       deref frames frame (\<lambda>f.
       live_frame A (f_frame f) (
       tell (zframe_print A (f_frame f) (c_str print_prefix)) (ret Qnil))))
     in if NIL_P prefix then finish [] else Check_String prefix finish)))"

definition rb_czmq_frame_reset :: "'w czmq \<Rightarrow> rvalue \<Rightarrow> rvalue \<Rightarrow> ('w, rvalue) vcmd" where
  "rb_czmq_frame_reset A obj data =
     tell (set_errno A 0) (
     ZmqGetFrame obj (\<lambda>frame.
     ZmqAssertFrameOwned frame (
     Check_String data (\<lambda>str.
     deref frames frame (\<lambda>f.
     live_frame A (f_frame f) (
     tell (zframe_reset A (f_frame f) str) (
     ZmqAssertSysError A (ret Qnil))))))))"

definition rb_czmq_frame_gone :: "rvalue \<Rightarrow> ('w, rvalue) vcmd" where
  "rb_czmq_frame_gone obj =
     ZmqGetFrame obj (\<lambda>frame.
     frame_accessible frame (\<lambda>ok. ret (if ok then Qfalse else Qtrue)))"

section \<open>What the guards let through\<close>

text \<open>
  A frame object can be read when its guards pass; it is gone when they refuse it. The third
  possibility, a frame object whose message struct was freed, is neither.
\<close>

definition gone :: "'w vm \<Rightarrow> ptr \<Rightarrow> bool" where
  "gone s p \<longleftrightarrow>
     (\<exists>f. frames s p = Some f \<and> \<not> has (f_flags f) ZMQ_FRAME_OWNED \<and>
        (f_message f = NULL \<or>
         (\<exists>m. msgs s (f_message f) = Some m \<and> \<not> has (m_flags m) ZMQ_MESSAGE_OWNED)))"

text \<open>The body of a readable frame object: what its accessors are about.\<close>

definition frame_body :: "'w czmq \<Rightarrow> 'w vm \<Rightarrow> rvalue \<Rightarrow> string option" where
  "frame_body A s v =
     (case v of
        Object k p \<Rightarrow>
          if k = rb_cZmqFrame \<and> p \<noteq> NULL \<and> accessible s p
          then (case frames s p of None \<Rightarrow> None | Some f \<Rightarrow> zframes (view A (lib s)) (f_frame f))
          else None
      | _ \<Rightarrow> None)"

lemma frame_bodyE:
  assumes "frame_body A s v = Some b"
  obtains p f where "v = Object rb_cZmqFrame p" "p \<noteq> NULL" "frames s p = Some f"
    "accessible s p" "zframes (view A (lib s)) (f_frame f) = Some b"
  using assms by (auto simp: frame_body_def split: rvalue.splits if_splits option.splits)

lemma accessible_guard [run]:
  assumes "accessible s p"
  shows "frame_accessible p k s = k True s"
    and "ZmqAssertFrameOwned p k' s = k' s"
    and "ZmqReturnNilUnlessFrameOwned p k'' s = k'' s"
proof -
  show *: "frame_accessible p k s = k True s" for k
    using assms by (auto simp: frame_accessible_def accessible_def deref_def split: option.splits)
  show "ZmqAssertFrameOwned p k' s = k' s" "ZmqReturnNilUnlessFrameOwned p k'' s = k'' s"
    by (simp_all add: ZmqAssertFrameOwned_def ZmqReturnNilUnlessFrameOwned_def *)
qed

lemma gone_guard [run]:
  assumes "gone s p"
  shows "frame_accessible p k s = k False s"
    and "ZmqAssertFrameOwned p k' s =
      Raise (ZmqError ''Cannot access frame that belongs to another message or is gone.'') s"
    and "ZmqReturnNilUnlessFrameOwned p k'' s = Return Qnil s"
proof -
  show *: "frame_accessible p k s = k False s" for k
    using assms by (auto simp: frame_accessible_def gone_def)
  show "ZmqAssertFrameOwned p k' s =
      Raise (ZmqError ''Cannot access frame that belongs to another message or is gone.'') s"
    and "ZmqReturnNilUnlessFrameOwned p k'' s = Return Qnil s"
    by (simp_all add: ZmqAssertFrameOwned_def ZmqReturnNilUnlessFrameOwned_def *)
qed

lemma gone_not_accessible: "gone s p \<Longrightarrow> \<not> accessible s p"
  by (auto simp: gone_def accessible_def split: option.splits)

lemma ZmqGetFrame_other [run]:
  assumes "\<And>p. v \<noteq> Object rb_cZmqFrame p"
  shows "ZmqGetFrame v k s = Raise (TypeError ''ZMQ::Frame'') s"
  using assms by (auto simp: ZmqGetFrame_def fetch_def split: rvalue.splits)

section \<open>The contract of the readers\<close>

text \<open>
  \<^verbatim>\<open>size\<close>, \<^verbatim>\<open>data\<close>, \<^verbatim>\<open>to_s\<close>, \<^verbatim>\<open>strhex\<close> and \<^verbatim>\<open>more?\<close> share a contract: on a readable frame they return a
  function of the czmq frame and change nothing, on a gone frame they return nil, and on anything
  else they raise a TypeError. What clients need of a reader is proved once from the contract.
\<close>

locale frame_reader =
  fixes A :: "'w czmq"
    and op :: "rvalue \<Rightarrow> ('w, rvalue) vcmd"
    and result :: "'w \<Rightarrow> ptr \<Rightarrow> string \<Rightarrow> rvalue"
  assumes reads: "\<lbrakk>zframe_doc A; p \<noteq> NULL; frames s p = Some f; accessible s p;
      zframes (view A (lib s)) (f_frame f) = Some b\<rbrakk>
      \<Longrightarrow> op (Object rb_cZmqFrame p) s = Return (result (lib s) (f_frame f) b) s"
    and reads_gone: "p \<noteq> NULL \<Longrightarrow> gone s p \<Longrightarrow> op (Object rb_cZmqFrame p) s = Return Qnil s"
    and reads_typed: "(\<And>p. v \<noteq> Object rb_cZmqFrame p) \<Longrightarrow> op v s = Raise (TypeError ''ZMQ::Frame'') s"
begin

lemma readable:
  assumes "zframe_doc A" and "frame_body A s v = Some b"
  obtains r where "op v s = Return r s"
  using assms(2) by (rule frame_bodyE) (simp add: reads [OF assms(1)] that)

lemma stable:
  assumes "zframe_doc A" and "frame_body A s v = Some b"
  shows "call (op v) (\<lambda>_. op v) s = op v s"
  by (rule readable [OF assms]) (simp add: call_def)

lemma never_changes_state:
  assumes "zframe_doc A"
    and "frame_body A s v \<noteq> None \<or> (\<exists>p. v = Object rb_cZmqFrame p \<and> p \<noteq> NULL \<and> gone s p) \<or>
      (\<forall>p. v \<noteq> Object rb_cZmqFrame p)"
  shows "final_state (op v s) = Some s"
proof -
  consider b where "frame_body A s v = Some b"
    | p where "v = Object rb_cZmqFrame p" "p \<noteq> NULL" "gone s p" | "\<And>p. v \<noteq> Object rb_cZmqFrame p"
    using assms(2) by blast
  then show ?thesis
  proof cases
    case 1
    then show ?thesis by (rule readable [OF assms(1)]) simp
  qed (simp_all add: reads_gone reads_typed)
qed

end

interpretation frame_size: frame_reader A "rb_czmq_frame_size A" "\<lambda>w p b. LONG2FIX (int (length b))"
  for A :: "'w czmq"
  by unfold_locales (simp_all add: rb_czmq_frame_size_def run zframe_liveD)

interpretation frame_data: frame_reader A "rb_czmq_frame_data A" "\<lambda>w p b. RString b"
  for A :: "'w czmq"
  by unfold_locales (simp_all add: rb_czmq_frame_data_def run zframe_liveD)

interpretation frame_to_s: frame_reader A "rb_czmq_frame_to_s A" "\<lambda>w p b. RString b"
  for A :: "'w czmq"
  by unfold_locales
    (simp_all add: rb_czmq_frame_to_s_def frame_data.reads frame_data.reads_gone frame_data.reads_typed)

interpretation frame_strhex: frame_reader A "rb_czmq_frame_strhex A"
    "\<lambda>w p b. RString (c_str (zframe_strhex A p w))"
  for A :: "'w czmq"
  by unfold_locales (simp_all add: rb_czmq_frame_strhex_def run)

interpretation frame_more_p: frame_reader A "rb_czmq_frame_more_p A"
    "\<lambda>w p b. if zframe_more A p w = uint (ZFRAME_MORE A) then Qtrue else Qfalse"
  for A :: "'w czmq"
  by unfold_locales (simp_all add: rb_czmq_frame_more_p_def run)

end
