(* ===== verification/Zmq_Message.thy ===== *)
theory Zmq_Message
  imports Zmq_Frame
begin

text \<open>
  message.c: the Ruby object around a czmq message. Besides the czmq message, which keeps the czmq
  frames in order, it keeps a list of the Ruby frame objects that stand for them; every operation
  updates both lists. A frame object in a message is not owned by Ruby and points to the message.
\<close>

section \<open>Allocation, release and garbage collection\<close>

definition rb_czmq_free_message :: "'w czmq \<Rightarrow> ptr \<Rightarrow> ('w, unit) vcmd" where
  "rb_czmq_free_message A message =
     tell (set_errno A 0) (
     deref msgs message (\<lambda>m.
     let rest =
       set_msg message (\<lambda>m. m\<lparr>m_message := NULL\<rparr>) (
       if m_frames m \<noteq> NULL then
         live_list A (m_frames m) (
         tell (zlist_destroy A (m_frames m)) (
         set_msg message (\<lambda>m. m\<lparr>m_frames := NULL\<rparr>) (ret ())))
       else ret ())
     in if m_message m \<noteq> NULL \<and> has (m_flags m) ZMQ_MESSAGE_OWNED then
          live_msg A (m_message m) (
          tell (zmsg_destroy A (m_message m)) (
          set_msg message (\<lambda>m. m\<lparr>m_flags := clear_flag (m_flags m) ZMQ_MESSAGE_OWNED\<rparr>) rest))
        else rest))"

definition rb_czmq_free_message_gc :: "'w czmq \<Rightarrow> ptr \<Rightarrow> ('w, unit) vcmd" where
  "rb_czmq_free_message_gc A msg =
     (if msg \<noteq> NULL then
        call (rb_czmq_free_message A msg) (\<lambda>_.
        wr (\<lambda>s. s\<lparr>msgs := (msgs s)(msg := None)\<rparr>) (ret ()))
      else ret ())"

text \<open>The mark function, with the values it marks as its result.\<close>

definition rb_czmq_mark_message :: "'w czmq \<Rightarrow> ptr \<Rightarrow> ('w, rvalue list) vcmd" where
  "rb_czmq_mark_message A message =
     deref msgs message (\<lambda>m.
     if m_frames m \<noteq> NULL then
       live_list A (m_frames m) (
       invoke (zlist_first A (m_frames m)) (\<lambda>frame.
       while_do (\<lambda>(frame, marked). frame \<noteq> Qfalse)
         (\<lambda>(frame, marked).
            invoke (zlist_next A (m_frames m)) (\<lambda>next_frame. ret (VALUE_of next_frame, marked @ [frame])))
         (\<lambda>(frame, marked). ret marked)
         (VALUE_of frame, [])))
     else ret [])"

text \<open>
  The tail shared by the operations that wrap a czmq frame of the message in a new frame object:
  allocate the object, clear its ownership, link it to the message.
\<close>

definition attach_new_frame :: "ptr \<Rightarrow> ptr \<Rightarrow> (rvalue \<Rightarrow> ('w, 'a) vcmd) \<Rightarrow> ('w, 'a) vcmd" where
  "attach_new_frame message zframe k =
     call (rb_czmq_alloc_frame zframe) (\<lambda>frame_object.
     ZmqGetFrame frame_object (\<lambda>frame.
     set_frame frame (\<lambda>f. f\<lparr>f_flags := clear_flag (f_flags f) ZMQ_FRAME_OWNED\<rparr>) (
     set_frame frame (\<lambda>f. f\<lparr>f_message := message\<rparr>) (
     k frame_object))))"

definition rb_czmq_alloc_message :: "'w czmq \<Rightarrow> ptr \<Rightarrow> ('w, rvalue) vcmd" where
  "rb_czmq_alloc_message A message =
     tell (set_errno A 0) (
     make_struct
       (\<lambda>m s. s\<lparr>msgs := (msgs s)(m \<mapsto> \<lparr>m_message = NULL, m_flags = 0, m_frames = NULL\<rparr>)\<rparr>) (\<lambda>m.
     set_msg m (\<lambda>w. w\<lparr>m_message := message\<rparr>) (
     ZmqAssertObjOnAlloc A message (\<lambda>s. s\<lparr>msgs := (msgs s)(m := None)\<rparr>) (
     set_msg m (\<lambda>w. w\<lparr>m_flags := ZMQ_MESSAGE_OWNED\<rparr>) (
     invoke (zlist_new A) (\<lambda>frames.
     set_msg m (\<lambda>w. w\<lparr>m_frames := frames\<rparr>) (
     live_msg A message (
     invoke (zmsg_first A message) (\<lambda>zframe.
     while_do (\<lambda>zframe. zframe \<noteq> NULL)
       (\<lambda>zframe.
          attach_new_frame m zframe (\<lambda>frame_object.
          live_list A frames (
          tell (zlist_append A frames (VAL frame_object)) (
          live_msg A message (
          invoke (zmsg_next A message) (\<lambda>next_frame. ret next_frame))))))
       (\<lambda>_. ret (Object rb_cZmqMessage m))
       zframe)))))))))"

text \<open>
  When the message is null the struct is freed, but the Ruby object that was made for it stays: its address
  is the one the garbage collector will hand to the free function, which frees the struct again.
\<close>

lemma failed_alloc_dangles:
  assumes "fresh s \<noteq> NULL"
  shows "\<exists>e t. rb_czmq_alloc_message A NULL s = Raise e t \<and> rb_czmq_free_message_gc A (fresh s) t = Crash UseAfterFree"
  using assms
  by (simp add: rb_czmq_alloc_message_def rb_czmq_free_message_gc_def rb_czmq_free_message_def ZmqAssertObjOnAlloc_def
      ZmqAssertSysError_def Let_def call_def)

definition rb_czmq_message_new :: "'w czmq \<Rightarrow> ('w, rvalue) vcmd" where
  "rb_czmq_message_new A =
     invoke (zmsg_new A) (\<lambda>msg.
     if msg = NULL then raise (ZmqError ''Failed to allocate message object (zmsg_new).'')
     else rb_czmq_alloc_message A msg)"

section \<open>Reading a message\<close>

definition rb_czmq_message_size :: "'w czmq \<Rightarrow> rvalue \<Rightarrow> ('w, rvalue) vcmd" where
  "rb_czmq_message_size A obj =
     ZmqGetMessage obj (\<lambda>message.
     ZmqReturnNilUnlessOwned message (
     deref msgs message (\<lambda>m.
     live_msg A (m_message m) (
     ask (zmsg_size A (m_message m)) (\<lambda>n. ret (INT2NUM (int n)))))))"

definition rb_czmq_message_content_size :: "'w czmq \<Rightarrow> rvalue \<Rightarrow> ('w, rvalue) vcmd" where
  "rb_czmq_message_content_size A obj =
     ZmqGetMessage obj (\<lambda>message.
     ZmqReturnNilUnlessOwned message (
     deref msgs message (\<lambda>m.
     live_msg A (m_message m) (
     ask (zmsg_content_size A (m_message m)) (\<lambda>n. ret (INT2NUM (int n)))))))"

definition rb_czmq_message_print :: "'w czmq \<Rightarrow> rvalue \<Rightarrow> ('w, rvalue) vcmd" where
  "rb_czmq_message_print A obj =
     ZmqGetMessage obj (\<lambda>message.
     ZmqReturnNilUnlessOwned message (
     deref msgs message (\<lambda>m.
     live_msg A (m_message m) (
     tell (zmsg_dump A (m_message m)) (ret Qnil)))))"

definition rb_czmq_message_first :: "'w czmq \<Rightarrow> rvalue \<Rightarrow> ('w, rvalue) vcmd" where
  "rb_czmq_message_first A obj =
     ZmqGetMessage obj (\<lambda>message.
     ZmqReturnNilUnlessOwned message (
     deref msgs message (\<lambda>m.
     live_list A (m_frames m) (
     invoke (zlist_first A (m_frames m)) (\<lambda>frame_obj. ret (or_nil (VALUE_of frame_obj)))))))"

definition rb_czmq_message_next :: "'w czmq \<Rightarrow> rvalue \<Rightarrow> ('w, rvalue) vcmd" where
  "rb_czmq_message_next A obj =
     ZmqGetMessage obj (\<lambda>message.
     ZmqReturnNilUnlessOwned message (
     deref msgs message (\<lambda>m.
     live_list A (m_frames m) (
     invoke (zlist_next A (m_frames m)) (\<lambda>frame_obj. ret (or_nil (VALUE_of frame_obj)))))))"

definition rb_czmq_message_last :: "'w czmq \<Rightarrow> rvalue \<Rightarrow> ('w, rvalue) vcmd" where
  "rb_czmq_message_last A obj =
     ZmqGetMessage obj (\<lambda>message.
     ZmqReturnNilUnlessOwned message (
     deref msgs message (\<lambda>m.
     live_list A (m_frames m) (
     invoke (zlist_last A (m_frames m)) (\<lambda>frame_obj. ret (or_nil (VALUE_of frame_obj)))))))"

definition rb_czmq_message_to_a :: "'w czmq \<Rightarrow> rvalue \<Rightarrow> ('w, rvalue) vcmd" where
  "rb_czmq_message_to_a A obj =
     ZmqGetMessage obj (\<lambda>message.
     ZmqAssertMessageOwned message (
     deref msgs message (\<lambda>m.
     live_list A (m_frames m) (
     rb_ary_new (\<lambda>array.
     invoke (zlist_first A (m_frames m)) (\<lambda>frame_obj.
     while_do (\<lambda>frame_obj. frame_obj \<noteq> Qfalse)
       (\<lambda>frame_obj.
          rb_ary_push array frame_obj (
          invoke (zlist_next A (m_frames m)) (\<lambda>next_obj. ret (VALUE_of next_obj))))
       (\<lambda>_. ret array)
       (VALUE_of frame_obj)))))))"

definition rb_czmq_message_gone :: "rvalue \<Rightarrow> ('w, rvalue) vcmd" where
  "rb_czmq_message_gone obj =
     ZmqGetMessage obj (\<lambda>message.
     deref msgs message (\<lambda>m.
     ret (if has (m_flags m) ZMQ_MESSAGE_OWNED then Qfalse else Qtrue)))"

section \<open>Frames in and out\<close>

definition rb_czmq_message_push :: "'w czmq \<Rightarrow> rvalue \<Rightarrow> rvalue \<Rightarrow> ('w, rvalue) vcmd" where
  "rb_czmq_message_push A obj frame_obj =
     tell (set_errno A 0) (
     ZmqGetMessage obj (\<lambda>message.
     ZmqAssertMessageOwned message (
     ZmqGetFrame frame_obj (\<lambda>frame.
     ZmqAssertFrameOwnedNoMessage frame (
     deref msgs message (\<lambda>m.
     deref frames frame (\<lambda>f.
     live_msg A (m_message m) (live_frame A (f_frame f) (
     invoke (zmsg_push A (m_message m) (f_frame f)) (\<lambda>rc.
     ZmqAssert A rc (
     set_frame frame (\<lambda>f. f\<lparr>f_message := message\<rparr>) (
     set_frame frame (\<lambda>f. f\<lparr>f_flags := clear_flag (f_flags f) ZMQ_FRAME_OWNED\<rparr>) (
     live_list A (m_frames m) (
     tell (zlist_push A (m_frames m) (VAL frame_obj)) (
     ret Qtrue)))))))))))))))"

definition rb_czmq_message_add :: "'w czmq \<Rightarrow> rvalue \<Rightarrow> rvalue \<Rightarrow> ('w, rvalue) vcmd" where
  "rb_czmq_message_add A obj frame_obj =
     tell (set_errno A 0) (
     ZmqGetMessage obj (\<lambda>message.
     ZmqAssertMessageOwned message (
     ZmqGetFrame frame_obj (\<lambda>frame.
     ZmqAssertFrameOwnedNoMessage frame (
     deref msgs message (\<lambda>m.
     deref frames frame (\<lambda>f.
     live_msg A (m_message m) (live_frame A (f_frame f) (
     invoke (zmsg_add A (m_message m) (f_frame f)) (\<lambda>rc.
     ZmqAssert A rc (
     set_frame frame (\<lambda>f. f\<lparr>f_message := message\<rparr>) (
     set_frame frame (\<lambda>f. f\<lparr>f_flags := clear_flag (f_flags f) ZMQ_FRAME_OWNED\<rparr>) (
     live_list A (m_frames m) (
     tell (zlist_append A (m_frames m) (VAL frame_obj)) (
     ret Qtrue)))))))))))))))"

text \<open>Giving a frame object its frame back: \<^verbatim>\<open>pop\<close>, \<^verbatim>\<open>unwrap\<close> and \<^verbatim>\<open>remove\<close> end this way.\<close>

definition detach_frame :: "ptr \<Rightarrow> ('w, 'a) vcmd \<Rightarrow> ('w, 'a) vcmd" where
  "detach_frame frame k =
     set_frame frame (\<lambda>f. f\<lparr>f_flags := set_flag (f_flags f) ZMQ_FRAME_OWNED\<rparr>) (
     set_frame frame (\<lambda>f. f\<lparr>f_message := NULL\<rparr>) k)"

definition rb_czmq_message_pop :: "'w czmq \<Rightarrow> rvalue \<Rightarrow> ('w, rvalue) vcmd" where
  "rb_czmq_message_pop A obj =
     ZmqGetMessage obj (\<lambda>message.
     ZmqAssertMessageOwned message (
     deref msgs message (\<lambda>m.
     live_msg A (m_message m) (
     invoke (zmsg_pop A (m_message m)) (\<lambda>zframe.
     if zframe = NULL then ret Qnil
     else
       live_list A (m_frames m) (
       invoke (zlist_pop A (m_frames m)) (\<lambda>item.
       let frame_obj = VALUE_of item
       in ZmqGetFrame frame_obj (\<lambda>frame.
          detach_frame frame (ret (or_nil frame_obj))))))))))"

definition rb_czmq_message_remove :: "'w czmq \<Rightarrow> rvalue \<Rightarrow> rvalue \<Rightarrow> ('w, rvalue) vcmd" where
  "rb_czmq_message_remove A obj frame_obj =
     ZmqGetMessage obj (\<lambda>message.
     ZmqAssertMessageOwned message (
     ZmqGetFrame frame_obj (\<lambda>frame.
     deref msgs message (\<lambda>m.
     deref frames frame (\<lambda>f.
     live_msg A (m_message m) (live_frame A (f_frame f) (
     tell (zmsg_remove A (m_message m) (f_frame f)) (
     live_list A (m_frames m) (
     tell (zlist_remove A (m_frames m) (VAL frame_obj)) (
     set_frame frame (\<lambda>f. f\<lparr>f_message := NULL\<rparr>) (
     set_frame frame (\<lambda>f. f\<lparr>f_flags := set_flag (f_flags f) ZMQ_FRAME_OWNED\<rparr>) (
     ret Qnil))))))))))))"

definition rb_czmq_message_pushstr :: "'w czmq \<Rightarrow> rvalue \<Rightarrow> rvalue \<Rightarrow> ('w, rvalue) vcmd" where
  "rb_czmq_message_pushstr A obj str =
     tell (set_errno A 0) (
     ZmqGetMessage obj (\<lambda>message.
     ZmqAssertMessageOwned message (
     Check_String str (\<lambda>data.
     deref msgs message (\<lambda>m.
     live_msg A (m_message m) (
     invoke (zmsg_pushmem A (m_message m) data) (\<lambda>rc.
     ZmqAssert A rc (
     invoke (zmsg_first A (m_message m)) (\<lambda>zframe.
     attach_new_frame message zframe (\<lambda>frame_object.
     live_list A (m_frames m) (
     tell (zlist_push A (m_frames m) (VAL frame_object)) (
     ret Qtrue))))))))))))"

definition rb_czmq_message_addstr :: "'w czmq \<Rightarrow> rvalue \<Rightarrow> rvalue \<Rightarrow> ('w, rvalue) vcmd" where
  "rb_czmq_message_addstr A obj str =
     tell (set_errno A 0) (
     ZmqGetMessage obj (\<lambda>message.
     ZmqAssertMessageOwned message (
     Check_String str (\<lambda>data.
     deref msgs message (\<lambda>m.
     live_msg A (m_message m) (
     invoke (zmsg_addmem A (m_message m) data) (\<lambda>rc.
     ZmqAssert A rc (
     invoke (zmsg_last A (m_message m)) (\<lambda>zframe.
     attach_new_frame message zframe (\<lambda>frame_object.
     live_list A (m_frames m) (
     tell (zlist_append A (m_frames m) (VAL frame_object)) (
     ret Qtrue))))))))))))"

definition rb_czmq_message_popstr :: "'w czmq \<Rightarrow> rvalue \<Rightarrow> ('w, rvalue) vcmd" where
  "rb_czmq_message_popstr A obj =
     ZmqGetMessage obj (\<lambda>message.
     ZmqAssertMessageOwned message (
     deref msgs message (\<lambda>m.
     live_msg A (m_message m) (
     invoke (zmsg_popstr A (m_message m)) (\<lambda>popped.
     case popped of
       None \<Rightarrow> ret Qnil
     | Some str \<Rightarrow>
         live_list A (m_frames m) (
         invoke (zlist_pop A (m_frames m)) (\<lambda>_. ret (RString (c_str str)))))))))"

definition rb_czmq_message_wrap :: "'w czmq \<Rightarrow> rvalue \<Rightarrow> rvalue \<Rightarrow> ('w, rvalue) vcmd" where
  "rb_czmq_message_wrap A obj frame_obj =
     tell (set_errno A 0) (
     ZmqGetMessage obj (\<lambda>message.
     ZmqAssertMessageOwned message (
     ZmqGetFrame frame_obj (\<lambda>frame.
     ZmqAssertFrameOwned frame (
     deref msgs message (\<lambda>m.
     deref frames frame (\<lambda>f.
     live_msg A (m_message m) (live_frame A (f_frame f) (
     tell (zmsg_wrap A (m_message m) (f_frame f)) (
     set_frame frame (\<lambda>f. f\<lparr>f_flags := clear_flag (f_flags f) ZMQ_FRAME_OWNED\<rparr>) (
     set_frame frame (\<lambda>f. f\<lparr>f_message := message\<rparr>) (
     invoke (zmsg_first A (m_message m)) (\<lambda>_.
     invoke (zmsg_next A (m_message m)) (\<lambda>empty_frame.
     attach_new_frame message empty_frame (\<lambda>empty_frame_object.
     live_list A (m_frames m) (
     tell (zlist_push A (m_frames m) (VAL empty_frame_object)) (
     tell (zlist_push A (m_frames m) (VAL frame_obj)) (
     ret Qnil))))))))))))))))))"

definition rb_czmq_message_unwrap :: "'w czmq \<Rightarrow> rvalue \<Rightarrow> ('w, rvalue) vcmd" where
  "rb_czmq_message_unwrap A obj =
     ZmqGetMessage obj (\<lambda>message.
     ZmqAssertMessageOwned message (
     deref msgs message (\<lambda>m.
     live_msg A (m_message m) (
     invoke (zmsg_pop A (m_message m)) (\<lambda>zframe.
     let finish = (\<lambda>frame_obj.
           ZmqGetFrame frame_obj (\<lambda>frame.
           set_frame frame (\<lambda>f. f\<lparr>f_message := NULL\<rparr>) (
           set_frame frame (\<lambda>f. f\<lparr>f_flags := set_flag (f_flags f) ZMQ_FRAME_OWNED\<rparr>) (
           ret (or_nil frame_obj)))));
         unwrap_empty = (\<lambda>frame_obj.
           invoke (zmsg_first A (m_message m)) (\<lambda>empty.
           live_frame A empty (
           ask (zframe_size A empty) (\<lambda>size.
           if size = 0 then
             invoke (zmsg_pop A (m_message m)) (\<lambda>empty.
             live_frame A empty (
             tell (zframe_destroy A empty) (
             live_list A (m_frames m) (
             invoke (zlist_pop A (m_frames m)) (\<lambda>_.
             finish frame_obj)))))
           else finish frame_obj))))
     in if zframe \<noteq> NULL then
          live_list A (m_frames m) (
          invoke (zlist_pop A (m_frames m)) (\<lambda>item. unwrap_empty (VALUE_of item)))
        else unwrap_empty Qfalse)))))"

section \<open>Whole messages\<close>

definition rb_czmq_message_dup :: "'w czmq \<Rightarrow> rvalue \<Rightarrow> ('w, rvalue) vcmd" where
  "rb_czmq_message_dup A obj =
     ZmqGetMessage obj (\<lambda>message.
     ZmqAssertMessageOwned message (
     deref msgs message (\<lambda>m.
     live_msg A (m_message m) (
     invoke (zmsg_dup A (m_message m)) (\<lambda>dup_msg.
     rb_czmq_alloc_message A dup_msg)))))"

definition rb_czmq_message_destroy :: "'w czmq \<Rightarrow> rvalue \<Rightarrow> ('w, rvalue) vcmd" where
  "rb_czmq_message_destroy A obj =
     ZmqGetMessage obj (\<lambda>message.
     ZmqAssertMessageOwned message (
     call (rb_czmq_free_message A message) (\<lambda>_. ret Qnil)))"

definition rb_czmq_message_encode :: "'w czmq \<Rightarrow> rvalue \<Rightarrow> ('w, rvalue) vcmd" where
  "rb_czmq_message_encode A obj =
     ZmqGetMessage obj (\<lambda>message.
     ZmqReturnNilUnlessOwned message (
     deref msgs message (\<lambda>m.
     live_msg A (m_message m) (
     ask (zmsg_encode A (m_message m)) (\<lambda>buff. ret (RString buff))))))"

definition rb_czmq_message_s_decode :: "'w czmq \<Rightarrow> rvalue \<Rightarrow> ('w, rvalue) vcmd" where
  "rb_czmq_message_s_decode A buffer =
     Check_String buffer (\<lambda>data.
     invoke (zmsg_decode A data) (\<lambda>m.
     if m = NULL then ret Qnil else rb_czmq_alloc_message A m))"

text \<open>
  \<^verbatim>\<open>strncmp(a, b, n) == 0\<close>: the comparison ends at the first null byte. The two buffers compared
  are those \<^verbatim>\<open>zmsg_encode\<close> filled.
\<close>

definition strncmp_eq :: "string \<Rightarrow> string \<Rightarrow> nat \<Rightarrow> bool" where
  "strncmp_eq a b n \<longleftrightarrow> c_str (take n a) = c_str (take n b)"

definition rb_czmq_message_eql_p :: "'w czmq \<Rightarrow> rvalue \<Rightarrow> rvalue \<Rightarrow> ('w, rvalue) vcmd" where
  "rb_czmq_message_eql_p A obj other_message =
     ZmqGetMessage obj (\<lambda>message.
     ZmqAssertMessage other_message (
     ZmqAssertMessageOwned message (
     ZmqGetMessage other_message (\<lambda>other.
     ZmqAssertMessageOwned other (
     deref msgs message (\<lambda>m.
     deref msgs other (\<lambda>n.
     live_msg A (m_message m) (live_msg A (m_message n) (
     ask (zmsg_size A (m_message m)) (\<lambda>size1.
     ask (zmsg_size A (m_message n)) (\<lambda>size2.
     if size1 \<noteq> size2 then ret Qfalse else
     ask (zmsg_content_size A (m_message m)) (\<lambda>content1.
     ask (zmsg_content_size A (m_message n)) (\<lambda>content2.
     if content1 \<noteq> content2 then ret Qfalse else
     ask (zmsg_encode A (m_message m)) (\<lambda>buff.
     ask (zmsg_encode A (m_message n)) (\<lambda>other_buff.
     if length buff \<noteq> length other_buff then ret Qfalse
     else if \<not> strncmp_eq buff other_buff (length buff) then ret Qfalse
     else ret Qtrue)))))))))))))))"

definition rb_czmq_message_equals :: "'w czmq \<Rightarrow> rvalue \<Rightarrow> rvalue \<Rightarrow> ('w, rvalue) vcmd" where
  "rb_czmq_message_equals A obj other_message =
     (if obj = other_message then ret Qtrue else rb_czmq_message_eql_p A obj other_message)"

end
