(* ===== verification/Zmq_Ownership.thy ===== *)
theory Zmq_Ownership
  imports Zmq_Message
begin

text \<open>
  Who owns what: the abstract store of frames and messages, the invariant that ties the structs and
  the objects of the library to it, and the effect of the elementary transfers of ownership on the
  invariant. The invariant is about six maps only: the frame and message structs, and the frames,
  messages and lists of the library.
\<close>

abbreviation FO :: "ptr \<Rightarrow> void" where
  "FO p \<equiv> VAL (Object rb_cZmqFrame p)"

lemma flag_words [simp]:
  "ZMQ_FRAME_OWNED = 1" "ZMQ_MESSAGE_OWNED = 1"
  "set_flag 0 1 = 1" "set_flag 1 1 = 1" "clear_flag 1 1 = 0" "clear_flag 0 1 = 0"
  by (simp_all add: set_flag_def clear_flag_def ZMQ_FRAME_OWNED_def ZMQ_MESSAGE_OWNED_def)

text \<open>Assignments to both fields of a frame struct.\<close>

lemma frame_fields [simp]:
  "f\<lparr>f_message := m, f_flags := x\<rparr> = \<lparr>f_frame = f_frame f, f_message = m, f_flags = x\<rparr>"
  "f\<lparr>f_flags := x, f_message := m\<rparr> = \<lparr>f_frame = f_frame f, f_message = m, f_flags = x\<rparr>"
  by (cases f; simp)+

section \<open>The invariant\<close>

type_synonym frame_heap = "ptr \<rightharpoonup> zmq_frame_wrapper"
type_synonym msg_heap = "ptr \<rightharpoonup> zmq_message_wrapper"

definition czframe :: "frame_heap \<Rightarrow> ptr \<Rightarrow> ptr" where
  "czframe fr p = (case fr p of Some f \<Rightarrow> f_frame f | None \<Rightarrow> NULL)"

text \<open>A frame object whose guards let its frame be read.\<close>

definition readable :: "frame_heap \<Rightarrow> msg_heap \<Rightarrow> ptr \<Rightarrow> bool" where
  "readable fr ms p \<longleftrightarrow>
     (\<exists>f. fr p = Some f \<and>
        (f_flags f = 1 \<or> f_message f \<noteq> NULL \<and> (\<exists>w. ms (f_message f) = Some w \<and> m_flags w = 1)))"

definition frame_ok :: "msg_heap \<Rightarrow> (ptr \<rightharpoonup> string) \<Rightarrow> (ptr \<rightharpoonup> void list) \<Rightarrow> ptr \<Rightarrow> ptr \<Rightarrow> zmq_frame_wrapper \<Rightarrow> bool" where
  "frame_ok ms zf zl n p f \<longleftrightarrow>
     p \<noteq> NULL \<and> p < n \<and>
     (f_flags f = 1 \<and> f_message f = NULL \<and> zf (f_frame f) \<noteq> None \<or>
      f_flags f = 0 \<and> (f_message f = NULL \<or>
        (\<exists>w. ms (f_message f) = Some w \<and>
           (m_flags w = 1 \<longrightarrow> (\<exists>xs. zl (m_frames w) = Some xs \<and> FO p \<in> set xs)))))"

text \<open>The frame objects of a message, in order, and the czmq frames of the message, correspond.\<close>

definition holds_frames ::
  "frame_heap \<Rightarrow> (ptr \<rightharpoonup> string) \<Rightarrow> (ptr \<rightharpoonup> ptr list) \<Rightarrow> (ptr \<rightharpoonup> void list) \<Rightarrow> ptr \<Rightarrow> zmq_message_wrapper \<Rightarrow> ptr list \<Rightarrow> bool" where
  "holds_frames fr zf zm zl m w ps \<longleftrightarrow>
     zl (m_frames w) = Some (map FO ps) \<and> zm (m_message w) = Some (map (czframe fr) ps) \<and> distinct ps \<and>
     (\<forall>p\<in>set ps. \<exists>f. fr p = Some f \<and> f_flags f = 0 \<and> f_message f = m \<and> zf (f_frame f) \<noteq> None)"

definition message_ok ::
  "frame_heap \<Rightarrow> (ptr \<rightharpoonup> string) \<Rightarrow> (ptr \<rightharpoonup> ptr list) \<Rightarrow> (ptr \<rightharpoonup> void list) \<Rightarrow> ptr \<Rightarrow> ptr \<Rightarrow> zmq_message_wrapper \<Rightarrow> bool" where
  "message_ok fr zf zm zl n m w \<longleftrightarrow>
     m \<noteq> NULL \<and> m < n \<and>
     (m_flags w = 1 \<and> m_message w \<noteq> NULL \<and> m_frames w \<noteq> NULL \<and> (\<exists>ps. holds_frames fr zf zm zl m w ps) \<or>
      m_flags w = 0 \<and> (m_frames w = NULL \<or> zl (m_frames w) \<noteq> None))"

definition frames_ok where
  "frames_ok fr ms zf zl n \<longleftrightarrow> (\<forall>p f. fr p = Some f \<longrightarrow> frame_ok ms zf zl n p f)"

definition readable_inj :: "frame_heap \<Rightarrow> msg_heap \<Rightarrow> bool" where
  "readable_inj fr ms \<longleftrightarrow> inj_on (czframe fr) {p. readable fr ms p}"

definition messages_ok where
  "messages_ok fr ms zf zm zl n \<longleftrightarrow> (\<forall>m w. ms m = Some w \<longrightarrow> message_ok fr zf zm zl n m w)"

definition handles_inj :: "msg_heap \<Rightarrow> (zmq_message_wrapper \<Rightarrow> ptr) \<Rightarrow> bool" where
  "handles_inj ms h \<longleftrightarrow>
     (\<forall>m m' w. ms m = Some w \<longrightarrow> h w \<noteq> NULL \<longrightarrow> map_option h (ms m') = Some (h w) \<longrightarrow> m = m')"

text \<open>A message that was sent keeps the address of its czmq message, which is no handle any more.\<close>

definition owned_message :: "zmq_message_wrapper \<Rightarrow> ptr" where
  "owned_message w = (if m_flags w = 1 then m_message w else NULL)"

definition owns ::
  "frame_heap \<Rightarrow> msg_heap \<Rightarrow> (ptr \<rightharpoonup> string) \<Rightarrow> (ptr \<rightharpoonup> ptr list) \<Rightarrow> (ptr \<rightharpoonup> void list) \<Rightarrow> ptr \<Rightarrow> bool" where
  "owns fr ms zf zm zl n \<longleftrightarrow>
     n \<noteq> NULL \<and> frames_ok fr ms zf zl n \<and> readable_inj fr ms \<and> messages_ok fr ms zf zm zl n \<and>
     handles_inj ms owned_message \<and> handles_inj ms m_frames"

definition fm_inv :: "'w czmq \<Rightarrow> 'w vm \<Rightarrow> bool" where
  "fm_inv A s =
     owns (frames s) (msgs s) (zframes (view A (lib s))) (zmsgs (view A (lib s)))
       (zlists (view A (lib s))) (fresh s)"

lemmas inv_parts = frames_ok_def readable_inj_def messages_ok_def handles_inj_def

lemma ownsD:
  assumes "owns fr ms zf zm zl n"
  shows "n \<noteq> NULL"
    and "fr p = Some f \<Longrightarrow> frame_ok ms zf zl n p f"
    and "readable fr ms p \<Longrightarrow> readable fr ms q \<Longrightarrow> czframe fr p = czframe fr q \<Longrightarrow> p = q"
    and "ms m = Some w \<Longrightarrow> message_ok fr zf zm zl n m w"
    and "ms m = Some w \<Longrightarrow> ms m' = Some w' \<Longrightarrow> m_message w = m_message w' \<Longrightarrow> m_message w \<noteq> NULL \<Longrightarrow>
      m_flags w = 1 \<Longrightarrow> m_flags w' = 1 \<Longrightarrow> m = m'"
    and "ms m = Some w \<Longrightarrow> ms m' = Some w' \<Longrightarrow> m_frames w = m_frames w' \<Longrightarrow> m_frames w \<noteq> NULL \<Longrightarrow> m = m'"
    and "fr NULL = None" and "ms NULL = None" and "fr n = None" and "ms n = None"
proof -
  have frs: "frames_ok fr ms zf zl n" and inj: "readable_inj fr ms" and mss: "messages_ok fr ms zf zm zl n"
    and h: "handles_inj ms owned_message" "handles_inj ms m_frames"
    using assms by (auto simp only: owns_def)
  show "n \<noteq> NULL" using assms by (simp add: owns_def)
  show f: "fr p = Some f \<Longrightarrow> frame_ok ms zf zl n p f" for p f using frs by (simp add: frames_ok_def)
  show "readable fr ms p \<Longrightarrow> readable fr ms q \<Longrightarrow> czframe fr p = czframe fr q \<Longrightarrow> p = q"
    using inj by (simp add: readable_inj_def inj_on_def)
  show m: "ms m = Some w \<Longrightarrow> message_ok fr zf zm zl n m w" for m w using mss by (simp add: messages_ok_def)
  show "ms m = Some w \<Longrightarrow> ms m' = Some w' \<Longrightarrow> m_message w = m_message w' \<Longrightarrow> m_message w \<noteq> NULL \<Longrightarrow>
      m_flags w = 1 \<Longrightarrow> m_flags w' = 1 \<Longrightarrow> m = m'"
    using h(1) by (fastforce simp: handles_inj_def owned_message_def)
  show "ms m = Some w \<Longrightarrow> ms m' = Some w' \<Longrightarrow> m_frames w = m_frames w' \<Longrightarrow> m_frames w \<noteq> NULL \<Longrightarrow> m = m'"
    using h(2) by (fastforce simp: handles_inj_def)
  show "fr NULL = None" using f [of NULL] by (cases "fr NULL") (auto simp: frame_ok_def)
  show "fr n = None" using f [of n] by (cases "fr n") (auto simp: frame_ok_def)
  show "ms NULL = None" using m [of NULL] by (cases "ms NULL") (auto simp: message_ok_def)
  show "ms n = None" using m [of n] by (cases "ms n") (auto simp: message_ok_def)
qed

lemma owned_messageE:
  assumes "owns fr ms zf zm zl n" and "ms m = Some w" and "m_flags w = 1"
  obtains ps where "holds_frames fr zf zm zl m w ps" "m \<noteq> NULL" "m < n" "m_message w \<noteq> NULL" "m_frames w \<noteq> NULL"
  using ownsD(4) [OF assms(1,2)] assms(3) by (auto simp: message_ok_def)

lemma owned_messageD:
  assumes "owns fr ms zf zm zl n" and "ms m = Some w" and "m_flags w = 1"
  shows "m \<noteq> NULL" "m < n" "m_message w \<noteq> NULL" "m_frames w \<noteq> NULL"
    "zm (m_message w) \<noteq> None" "zl (m_frames w) \<noteq> None"
  by (rule owned_messageE [OF assms]; simp add: holds_frames_def)+

lemma owned_frameD:
  assumes "owns fr ms zf zm zl n" and "fr p = Some f" and "f_flags f = 1"
  shows "f_message f = NULL" "zf (f_frame f) \<noteq> None" "p \<noteq> NULL" "p < n"
  using ownsD(2) [OF assms(1,2)] assms(3) by (auto simp: frame_ok_def)

text \<open>A readable frame object has a live frame: it is owned, or in the list of an owned message.\<close>

lemma attachedE:
  assumes own: "owns fr ms zf zm zl n" and p: "fr p = Some f" "f_flags f \<noteq> 1" "f_message f \<noteq> NULL"
    and m: "ms (f_message f) = Some w" "m_flags w = 1"
  obtains ps where "holds_frames fr zf zm zl (f_message f) w ps" "p \<in> set ps"
proof -
  obtain ps where ps: "holds_frames fr zf zm zl (f_message f) w ps"
    using owned_messageE [OF own m] by blast
  have "FO p \<in> set (map FO ps)"
    using ownsD(2) [OF own p(1)] p(2,3) m ps by (auto simp: frame_ok_def holds_frames_def)
  then have "p \<in> set ps" by auto
  with ps that show ?thesis by blast
qed

lemma readable_live:
  assumes own: "owns fr ms zf zm zl n" and "readable fr ms p"
  shows "zf (czframe fr p) \<noteq> None"
proof -
  obtain f where p: "fr p = Some f"
    and "f_flags f = 1 \<or> f_message f \<noteq> NULL \<and> (\<exists>w. ms (f_message f) = Some w \<and> m_flags w = 1)"
    using assms(2) by (auto simp: readable_def)
  then consider "f_flags f = 1" | w where "f_flags f \<noteq> 1" "f_message f \<noteq> NULL" "ms (f_message f) = Some w" "m_flags w = 1"
    by blast
  then show ?thesis
  proof cases
    case 1
    then show ?thesis using owned_frameD(2) [OF own p] p by (simp add: czframe_def)
  next
    case 2
    then obtain ps where "holds_frames fr zf zm zl (f_message f) w ps" "p \<in> set ps"
      using attachedE [OF own p] by blast
    then show ?thesis using p by (force simp: holds_frames_def czframe_def)
  qed
qed

lemma held_readable:
  assumes "holds_frames fr zf zm zl m w ps" "ms m = Some w" "m_flags w = 1" "m \<noteq> NULL" "p \<in> set ps"
  shows "readable fr ms p"
  using assms by (fastforce simp: holds_frames_def readable_def)

lemma held_not_owned:
  assumes "holds_frames fr zf zm zl m w ps" "fr p = Some f" "f_flags f = 1"
  shows "p \<notin> set ps"
  using assms by (force simp: holds_frames_def)

lemma map_FO_inject [simp]: "map FO ps = map FO qs \<longleftrightarrow> ps = qs"
  by (rule inj_map_eq_map) (auto simp: inj_def)

lemma holds_frames_unique:
  "holds_frames fr zf zm zl m w ps \<Longrightarrow> holds_frames fr zf zm zl m w qs \<Longrightarrow> ps = qs"
  by (simp add: holds_frames_def)

section \<open>Transfers of ownership\<close>

text \<open>The bodies of frames may change, and the library may have more frames, than the invariant knows.\<close>

lemma owns_frames_mono:
  assumes own: "owns fr ms zf zm zl n" and "\<And>h. zf h \<noteq> None \<Longrightarrow> zf' h \<noteq> None" and "n \<le> n'"
  shows "owns fr ms zf' zm zl n'"
proof -
  have "frame_ok ms zf zl n p f \<Longrightarrow> frame_ok ms zf' zl n' p f" for p f
    using assms(2,3) by (auto simp: frame_ok_def)
  moreover have "message_ok fr zf zm zl n m w \<Longrightarrow> message_ok fr zf' zm zl n' m w" for m w
    using assms(2,3) by (fastforce simp: message_ok_def holds_frames_def)
  ultimately show ?thesis
    using own \<open>n \<le> n'\<close> by (auto simp: owns_def frames_ok_def messages_ok_def)
qed

lemma owns_new_frame:
  assumes own: "owns fr ms zf zm zl n" and h: "zf h = None"
  shows "owns (fr(n \<mapsto> \<lparr>f_frame = h, f_message = NULL, f_flags = 1\<rparr>)) ms (zf(h \<mapsto> b)) zm zl (Suc n)"
    (is "owns ?fr ms ?zf zm zl ?n")
proof -
  have own': "owns fr ms ?zf zm zl ?n"
    by (rule owns_frames_mono [OF own]) auto
  have n: "fr n = None" and n0: "n \<noteq> NULL" using ownsD [OF own] by simp_all
  have cz: "czframe ?fr p = (if p = n then h else czframe fr p)" for p
    by (simp add: czframe_def)
  have re: "readable ?fr ms p \<longleftrightarrow> p = n \<or> readable fr ms p" for p
    using n by (auto simp: readable_def)
  have "czframe fr p \<noteq> h" if "readable fr ms p" for p
    using readable_live [OF own that] h by auto
  then have "readable_inj ?fr ms"
    using own' by (auto simp: owns_def readable_inj_def inj_on_def cz re)
  moreover have "frames_ok ?fr ms ?zf zl ?n"
    using own' n0 by (auto simp: owns_def frames_ok_def frame_ok_def)
  moreover have "message_ok ?fr ?zf zm zl ?n m w" if "message_ok fr ?zf zm zl ?n m w" for m w
  proof -
    have "holds_frames ?fr ?zf zm zl m w ps" if "holds_frames fr ?zf zm zl m w ps" for ps
      using that n by (auto simp: holds_frames_def cz)
    then show ?thesis using that by (auto simp: message_ok_def)
  qed
  then have "messages_ok ?fr ms ?zf zm zl ?n"
    using own' by (auto simp: owns_def messages_ok_def)
  ultimately show ?thesis using own' by (simp add: owns_def)
qed

lemma holds_frames_cong:
  assumes "holds_frames fr zf zm zl m w ps"
    and "\<And>p. p \<in> set ps \<Longrightarrow> fr' p = fr p" and "zm' (m_message w) = zm (m_message w)"
    and "zl' (m_frames w) = zl (m_frames w)"
    and "\<And>p. p \<in> set ps \<Longrightarrow> zf (czframe fr p) \<noteq> None \<Longrightarrow> zf' (czframe fr p) \<noteq> None"
  shows "holds_frames fr' zf' zm' zl' m w ps"
proof -
  have "map (czframe fr') ps = map (czframe fr) ps"
    using assms(2) by (simp add: czframe_def)
  moreover have "\<exists>f. fr p = Some f \<and> f_flags f = 0 \<and> f_message f = m \<and> zf' (f_frame f) \<noteq> None" if "p \<in> set ps" for p
    using assms(1) assms(5) [OF that] that by (force simp: holds_frames_def czframe_def)
  ultimately show ?thesis
    using assms(1-4) by (auto simp: holds_frames_def)
qed

lemma message_ok_cong:
  assumes "message_ok fr zf zm zl n m w"
    and "\<And>ps. holds_frames fr zf zm zl m w ps \<Longrightarrow> m_flags w = 1 \<Longrightarrow> \<exists>qs. holds_frames fr' zf' zm' zl' m w qs"
    and "m_frames w \<noteq> NULL \<Longrightarrow> zl (m_frames w) \<noteq> None \<Longrightarrow> zl' (m_frames w) \<noteq> None"
    and "n \<le> n'"
  shows "message_ok fr' zf' zm' zl' n' m w"
  using assms unfolding message_ok_def by (meson order_less_le_trans)

text \<open>A frame object that owns its frame destroys it, or hands it to the library.\<close>

lemma owns_lose_frame:
  assumes own: "owns fr ms zf zm zl n" and p: "fr p = Some f" "f_flags f = 1"
    and g: "f_flags g = 0" "f_message g = NULL"
  shows "owns (fr(p \<mapsto> g)) ms (zf(f_frame f := None)) zm zl n"
    (is "owns ?fr ms ?zf zm zl n")
proof -
  have p': "p \<noteq> NULL" "p < n" "readable fr ms p"
    using owned_frameD [OF own p] p by (auto simp: readable_def)
  have re: "readable ?fr ms q \<longleftrightarrow> q \<noteq> p \<and> readable fr ms q" for q
    using g by (auto simp: readable_def)
  have cz: "q \<noteq> p \<Longrightarrow> czframe ?fr q = czframe fr q" for q
    by (simp add: czframe_def)
  have other: "czframe fr q \<noteq> f_frame f" if "q \<noteq> p" "readable fr ms q" for q
    using ownsD(3) [OF own that(2) p'(3)] that(1) p by (auto simp: czframe_def)
  have "readable_inj ?fr ms"
    using own by (auto simp: owns_def readable_inj_def inj_on_def cz re)
  moreover have "frame_ok ms ?zf zl n q g" if "?fr q = Some g" for q g
  proof (cases "q = p")
    case True
    then show ?thesis using that p' g by (auto simp: frame_ok_def)
  next
    case False
    then have g: "fr q = Some g" using that by simp
    have "f_frame g \<noteq> f_frame f" if "f_flags g = 1"
      using other [OF False] that g by (auto simp: readable_def czframe_def)
    then show ?thesis using ownsD(2) [OF own g] by (auto simp: frame_ok_def)
  qed
  moreover have "message_ok ?fr ?zf zm zl n m w" if m: "ms m = Some w" for m w
  proof (rule message_ok_cong [OF ownsD(4) [OF own m]])
    fix ps assume ps: "holds_frames fr zf zm zl m w ps" "m_flags w = 1"
    have "m \<noteq> NULL" by (rule owned_messageD [OF own m ps(2)])+
    have "p \<notin> set ps" using held_not_owned [OF ps(1) p] .
    moreover have "czframe fr q \<noteq> f_frame f" if "q \<in> set ps" for q
      using other [of q] held_readable [where ms = ms and p = q, OF ps(1) m ps(2) \<open>m \<noteq> NULL\<close>] that calculation by blast
    ultimately have "holds_frames ?fr ?zf zm zl m w ps"
      by (intro holds_frames_cong [OF ps(1)]) auto
    then show "\<exists>qs. holds_frames ?fr ?zf zm zl m w qs" ..
  qed simp_all
  ultimately show ?thesis using own by (simp add: owns_def frames_ok_def messages_ok_def)
qed

lemmas owns_kill_frame =
  owns_lose_frame [where g = "\<lparr>f_frame = NULL, f_message = NULL, f_flags = 0\<rparr>", simplified]

text \<open>A message takes an owned frame object at some place of its list.\<close>

lemma owns_attach:
  assumes own: "owns fr ms zf zm zl n" and p: "fr p = Some f" "f_flags f = 1"
    and m: "ms m = Some w" "m_flags w = 1" "holds_frames fr zf zm zl m w (as @ bs)"
  shows "owns (fr(p \<mapsto> \<lparr>f_frame = f_frame f, f_message = m, f_flags = 0\<rparr>)) ms zf
      (zm(m_message w \<mapsto> map (czframe fr) as @ f_frame f # map (czframe fr) bs))
      (zl(m_frames w \<mapsto> map FO as @ FO p # map FO bs)) n"
    (is "owns ?fr ms zf ?zm ?zl n")
proof -
  have w: "m \<noteq> NULL" "m < n" "m_message w \<noteq> NULL" "m_frames w \<noteq> NULL"
    by (rule owned_messageD [OF own m(1,2)])+
  have p': "p \<noteq> NULL" "p < n" "readable fr ms p" "zf (f_frame f) \<noteq> None"
    using owned_frameD [OF own p] p by (auto simp: readable_def)
  have fresh: "p \<notin> set (as @ bs)" using held_not_owned [OF m(3) p] .
  have re: "readable ?fr ms q \<longleftrightarrow> readable fr ms q" for q
    using p' p m w by (auto simp: readable_def)
  have cz: "czframe ?fr q = czframe fr q" for q
    using p by (simp add: czframe_def)
  have "readable_inj ?fr ms"
    using own by (simp add: owns_def readable_inj_def inj_on_def cz re)
  moreover have "frame_ok ms zf ?zl n q g" if "?fr q = Some g" for q g
  proof (cases "q = p")
    case True
    then show ?thesis using that p' m(1) by (auto simp: frame_ok_def)
  next
    case False
    then have "fr q = Some g" using that by simp
    from ownsD(2) [OF own this] show ?thesis
      using m(3) by (fastforce simp: frame_ok_def holds_frames_def)
  qed
  moreover have "message_ok ?fr zf ?zm ?zl n k v" if k: "ms k = Some v" for k v
  proof (rule message_ok_cong [OF ownsD(4) [OF own k]])
    fix ps assume ps: "holds_frames fr zf zm zl k v ps" "m_flags v = 1"
    show "\<exists>qs. holds_frames ?fr zf ?zm ?zl k v qs"
    proof (cases "k = m")
      case True
      then have v: "v = w" and "holds_frames fr zf zm zl m w (as @ bs)" using k m by simp_all
      then have "holds_frames ?fr zf ?zm ?zl m w (as @ p # bs)"
        using fresh p p' by (auto simp: holds_frames_def cz) (simp add: czframe_def)
      then show ?thesis using True v by blast
    next
      case False
      have v: "m_message v \<noteq> NULL" "m_frames v \<noteq> NULL"
        by (rule owned_messageD [OF own k ps(2)])+
      have "m_message v \<noteq> m_message w" "m_frames v \<noteq> m_frames w"
        using ownsD(5,6) [OF own k m(1)] v False ps(2) m(2) by auto
      moreover have "p \<notin> set ps" using held_not_owned [OF ps(1) p] .
      ultimately have "holds_frames ?fr zf ?zm ?zl k v ps"
        by (intro holds_frames_cong [OF ps(1)]) auto
      then show ?thesis ..
    qed
  qed simp_all
  ultimately show ?thesis using own by (simp add: owns_def frames_ok_def messages_ok_def)
qed

text \<open>A frame object of a message takes its frame back.\<close>

lemma owns_detach:
  assumes own: "owns fr ms zf zm zl n"
    and m: "ms m = Some w" "m_flags w = 1" "holds_frames fr zf zm zl m w (as @ p # bs)"
  shows "owns (fr(p \<mapsto> \<lparr>f_frame = czframe fr p, f_message = NULL, f_flags = 1\<rparr>)) ms zf
      (zm(m_message w \<mapsto> map (czframe fr) (as @ bs))) (zl(m_frames w \<mapsto> map FO (as @ bs))) n"
    (is "owns ?fr ms zf ?zm ?zl n")
proof -
  have w: "m \<noteq> NULL" "m < n" "m_message w \<noteq> NULL" "m_frames w \<noteq> NULL"
    by (rule owned_messageD [OF own m(1,2)])+
  obtain f where p: "fr p = Some f" "f_flags f = 0" "f_message f = m" "zf (f_frame f) \<noteq> None"
    using m(3) by (auto simp: holds_frames_def)
  have p': "p \<noteq> NULL" "p < n" using ownsD(2) [OF own p(1)] by (auto simp: frame_ok_def)
  have fresh: "p \<notin> set (as @ bs)" using m(3) by (auto simp: holds_frames_def)
  have re: "readable ?fr ms q \<longleftrightarrow> readable fr ms q" for q
    using p p' m w by (auto simp: readable_def)
  have cz: "czframe ?fr q = czframe fr q" for q
    by (simp add: czframe_def)
  have "readable_inj ?fr ms"
    using own by (simp add: owns_def readable_inj_def inj_on_def cz re)
  moreover have "frame_ok ms zf ?zl n q g" if "?fr q = Some g" for q g
  proof (cases "q = p")
    case True
    then show ?thesis using that p p' by (auto simp: frame_ok_def czframe_def)
  next
    case False
    then have "fr q = Some g" using that by simp
    from ownsD(2) [OF own this] show ?thesis
      using m(3) False by (fastforce simp: frame_ok_def holds_frames_def)
  qed
  moreover have "message_ok ?fr zf ?zm ?zl n k v" if k: "ms k = Some v" for k v
  proof (rule message_ok_cong [OF ownsD(4) [OF own k]])
    fix ps assume ps: "holds_frames fr zf zm zl k v ps" "m_flags v = 1"
    show "\<exists>qs. holds_frames ?fr zf ?zm ?zl k v qs"
    proof (cases "k = m")
      case True
      then have v: "v = w" using k m by simp
      have "map (czframe ?fr) (as @ bs) = map (czframe fr) (as @ bs)" by (simp add: cz)
      then have "holds_frames ?fr zf ?zm ?zl m w (as @ bs)"
        using fresh m(3) by (auto simp: holds_frames_def)
      then show ?thesis using True v by blast
    next
      case False
      have v: "m_message v \<noteq> NULL" "m_frames v \<noteq> NULL"
        by (rule owned_messageD [OF own k ps(2)])+
      have "m_message v \<noteq> m_message w" "m_frames v \<noteq> m_frames w"
        using ownsD(5,6) [OF own k m(1)] v False ps(2) m(2) by auto
      moreover have "p \<notin> set ps" using ps(1) p False by (force simp: holds_frames_def)
      ultimately have "holds_frames ?fr zf ?zm ?zl k v ps"
        by (intro holds_frames_cong [OF ps(1)]) auto
      then show ?thesis ..
    qed
  qed simp_all
  ultimately show ?thesis using own by (simp add: owns_def frames_ok_def messages_ok_def)
qed

text \<open>Lists the messages do not use, and messages of the library no message struct points to.\<close>

lemma owns_lists_cong:
  assumes own: "owns fr ms zf zm zl n"
    and "\<And>m w. ms m = Some w \<Longrightarrow> m_frames w \<noteq> NULL \<Longrightarrow> zl' (m_frames w) = zl (m_frames w)"
    and "\<And>m w. ms m = Some w \<Longrightarrow> m_flags w = 1 \<Longrightarrow> m_message w \<noteq> NULL \<Longrightarrow> zm' (m_message w) = zm (m_message w)"
  shows "owns fr ms zf zm' zl' n"
proof -
  have "message_ok fr zf zm' zl' n m w" if m: "ms m = Some w" for m w
  proof (rule message_ok_cong [OF ownsD(4) [OF own m]])
    fix ps assume ps: "holds_frames fr zf zm zl m w ps" "m_flags w = 1"
    have "m_message w \<noteq> NULL" "m_frames w \<noteq> NULL"
      by (rule owned_messageD [OF own m ps(2)])+
    then have "holds_frames fr zf zm' zl' m w ps"
      using assms(2,3) [OF m] ps(2) by (intro holds_frames_cong [OF ps(1)]) simp_all
    then show "\<exists>qs. holds_frames fr zf zm' zl' m w qs" ..
  qed (use assms(2) [OF m] in simp_all)
  moreover have "frame_ok ms zf zl' n p f" if p: "fr p = Some f" for p f
  proof -
    have same: "zl' (m_frames w) = zl (m_frames w)" if "ms (f_message f) = Some w" "m_flags w = 1" for w
      using assms(2) [OF that(1)] owned_messageD [OF own that] by simp
    show ?thesis
    proof (cases "ms (f_message f)")
      case None
      then show ?thesis using ownsD(2) [OF own p] by (simp add: frame_ok_def)
    next
      case (Some w)
      then show ?thesis using ownsD(2) [OF own p] same [OF Some] by (auto simp: frame_ok_def)
    qed
  qed
  ultimately show ?thesis using own by (simp add: owns_def frames_ok_def messages_ok_def)
qed

text \<open>A new, empty message.\<close>

lemma handles_inj_new:
  assumes "handles_inj ms h" and "\<And>m w. ms m = Some w \<Longrightarrow> h w \<noteq> h v \<or> h w = NULL"
  shows "handles_inj (ms(n \<mapsto> v)) h"
  unfolding handles_inj_def
proof (intro allI impI)
  fix m m' w
  assume w: "(ms(n \<mapsto> v)) m = Some w" "h w \<noteq> NULL" "map_option h ((ms(n \<mapsto> v)) m') = Some (h w)"
  show "m = m'"
    using assms(1) assms(2) [of m] assms(2) [of m'] w
    by (cases "m = n"; cases "m' = n") (auto simp: handles_inj_def)
qed

lemma owns_new_message:
  assumes own: "owns fr ms zf zm zl n" and h: "zm h = None" "h \<noteq> NULL" and l: "zl l = None" "l \<noteq> NULL"
  shows "owns fr (ms(n \<mapsto> \<lparr>m_message = h, m_flags = 1, m_frames = l\<rparr>)) zf (zm(h \<mapsto> [])) (zl(l \<mapsto> [])) (Suc n)"
    (is "owns fr ?ms zf ?zm ?zl ?n")
proof -
  have used: "owned_message w \<noteq> h \<or> owned_message w = NULL" "m_frames w \<noteq> l \<or> m_frames w = NULL"
    if "ms m = Some w" for m w
    using ownsD(4) [OF own that] h l by (auto simp: message_ok_def holds_frames_def owned_message_def)
  have own': "owns fr ms zf ?zm ?zl ?n"
    using used by (intro owns_lists_cong [OF owns_frames_mono [OF own]]) (fastforce simp: owned_message_def)+
  have n: "ms n = None" "n \<noteq> NULL" using ownsD [OF own] by simp_all
  have unused: "f_message f \<noteq> n \<or> f_flags f = 1" if "fr p = Some f" for p f
    using ownsD(2) [OF own that] n by (auto simp: frame_ok_def)
  have re: "readable fr ?ms p \<longleftrightarrow> readable fr ms p" for p
    using unused by (fastforce simp: readable_def)
  have "readable_inj fr ?ms"
    using own by (simp add: owns_def readable_inj_def re)
  moreover have "frame_ok ?ms zf ?zl ?n p f" if p: "fr p = Some f" for p f
    using ownsD(2) [OF own' p] unused [OF p] by (auto simp: frame_ok_def)
  moreover have "message_ok fr zf ?zm ?zl ?n m w" if "?ms m = Some w" for m w
  proof (cases "m = n")
    case True
    then have "holds_frames fr zf ?zm ?zl m w []"
      using that by (auto simp: holds_frames_def)
    then show ?thesis using True that h l n by (auto simp: message_ok_def)
  next
    case False
    then show ?thesis using ownsD(4) [OF own', of m w] that by simp
  qed
  moreover have "handles_inj ?ms owned_message" "handles_inj ?ms m_frames"
    using own used by (auto simp: owns_def owned_message_def [of "\<lparr>m_message = h, m_flags = 1, m_frames = l\<rparr>"] intro!: handles_inj_new)
  ultimately show ?thesis using n by (simp add: owns_def frames_ok_def messages_ok_def)
qed

text \<open>
  A message is given up: destroyed with its frames and its list, or handed to the library, which
  leaves the list behind. The library may drop the message and its frames, and nothing else.
\<close>

definition given_up ::
  "frame_heap \<Rightarrow> (ptr \<rightharpoonup> string) \<Rightarrow> (ptr \<rightharpoonup> ptr list) \<Rightarrow> (ptr \<rightharpoonup> void list) \<Rightarrow> zmq_message_wrapper \<Rightarrow> ptr list \<Rightarrow>
   zmq_message_wrapper \<Rightarrow> (ptr \<rightharpoonup> string) \<Rightarrow> (ptr \<rightharpoonup> ptr list) \<Rightarrow> (ptr \<rightharpoonup> void list) \<Rightarrow> bool" where
  "given_up fr zf zm zl w ps u zf' zm' zl' \<longleftrightarrow>
     m_flags u = 0 \<and> (m_frames u = NULL \<or> m_frames u = m_frames w \<and> zl' (m_frames w) = zl (m_frames w)) \<and>
     (\<forall>h. h \<notin> czframe fr ` set ps \<longrightarrow> zf' h = zf h) \<and> (\<forall>h. h \<noteq> m_message w \<longrightarrow> zm' h = zm h) \<and>
     (\<forall>l. l \<noteq> m_frames w \<longrightarrow> zl' l = zl l)"

lemma given_up_frames:
  assumes own: "owns fr ms zf zm zl n"
    and m: "ms m = Some w" "m_flags w = 1" "holds_frames fr zf zm zl m w ps"
    and up: "given_up fr zf zm zl w ps u zf' zm' zl'" and q: "readable fr ms q" "q \<notin> set ps"
  shows "zf' (czframe fr q) = zf (czframe fr q)"
proof -
  have "m \<noteq> NULL" by (rule owned_messageD [OF own m(1,2)])
  then have "czframe fr q \<noteq> czframe fr p" if "p \<in> set ps" for p
    using ownsD(3) [OF own q(1) held_readable [where ms = ms, OF m(3,1,2) _ that]] that q(2) by auto
  then have "czframe fr q \<notin> czframe fr ` set ps" by blast
  then show ?thesis using up by (simp add: given_up_def)
qed

lemma owns_give_up:
  assumes own: "owns fr ms zf zm zl n"
    and m: "ms m = Some w" "m_flags w = 1" "holds_frames fr zf zm zl m w ps"
    and up: "given_up fr zf zm zl w ps u zf' zm' zl'"
  shows "owns fr (ms(m \<mapsto> u)) zf' zm' zl' n"
    (is "owns fr ?ms _ _ _ n")
proof -
  have w: "m \<noteq> NULL" "m < n" "m_message w \<noteq> NULL" "m_frames w \<noteq> NULL" "zl (m_frames w) \<noteq> None"
    by (rule owned_messageD [OF own m(1,2)])+
  have u: "m_flags u = 0" and uf: "m_frames u = NULL \<or> m_frames u = m_frames w \<and> zl' (m_frames w) = zl (m_frames w)"
    and zl': "\<And>l. l \<noteq> m_frames w \<Longrightarrow> zl' l = zl l" and zm': "\<And>h. h \<noteq> m_message w \<Longrightarrow> zm' h = zm h"
    using up by (simp_all add: given_up_def)
  note keep = given_up_frames [OF own m up]
  have re: "readable fr ?ms p \<Longrightarrow> readable fr ms p" for p
    using u by (auto simp: readable_def split: if_splits)
  have "readable_inj fr ?ms"
    using own re by (auto simp: owns_def readable_inj_def intro: inj_on_subset)
  moreover have "frame_ok ?ms zf' zl' n p f" if p: "fr p = Some f" for p f
  proof (cases "f_flags f = 1")
    case True
    then have "readable fr ms p" "p \<notin> set ps"
      using p held_not_owned [OF m(3) p] by (auto simp: readable_def)
    then show ?thesis using ownsD(2) [OF own p] keep [of p] p True by (auto simp: frame_ok_def czframe_def)
  next
    case False
    moreover have "zl' (m_frames v) = zl (m_frames v)" if "ms (f_message f) = Some v" "m_flags v = 1" "f_message f \<noteq> m" for v
      using ownsD(6) [OF own m(1) that(1)] that w by (intro zl') auto
    ultimately show ?thesis using ownsD(2) [OF own p] u by (fastforce simp: frame_ok_def)
  qed
  moreover have "message_ok fr zf' zm' zl' n k v" if k: "?ms k = Some v" for k v
  proof (cases "k = m")
    case True
    then show ?thesis using k w u uf by (auto simp: message_ok_def)
  next
    case False
    then have k': "ms k = Some v" using k by simp
    show ?thesis
    proof (rule message_ok_cong [OF ownsD(4) [OF own k']])
      fix qs assume qs: "holds_frames fr zf zm zl k v qs" "m_flags v = 1"
      have v: "k \<noteq> NULL" "m_message v \<noteq> NULL" "m_frames v \<noteq> NULL"
        by (rule owned_messageD [OF own k' qs(2)])+
      have "m_message v \<noteq> m_message w" "m_frames v \<noteq> m_frames w"
        using ownsD(5,6) [OF own k' m(1)] v False qs(2) m(2) by auto
      moreover have "q \<notin> set ps" if "q \<in> set qs" for q
        using qs(1) that m(3) False by (force simp: holds_frames_def)
      then have "zf' (czframe fr q) = zf (czframe fr q)" if "q \<in> set qs" for q
        using keep [of q] held_readable [where ms = ms, OF qs(1) k' qs(2) v(1)] that by blast
      ultimately have "holds_frames fr zf' zm' zl' k v qs"
        by (intro holds_frames_cong [OF qs(1)]) (simp_all add: zl' zm')
      then show "\<exists>qs. holds_frames fr zf' zm' zl' k v qs" ..
    next
      assume "m_frames v \<noteq> NULL" "zl (m_frames v) \<noteq> None"
      then show "zl' (m_frames v) \<noteq> None"
        using ownsD(6) [OF own k' m(1)] False by (subst zl') auto
    qed simp
  qed
  moreover have "handles_inj ?ms owned_message" "handles_inj ?ms m_frames"
    using own m(1) u uf by (auto simp: owns_def handles_inj_def owned_message_def)
  ultimately show ?thesis using own by (simp add: owns_def frames_ok_def messages_ok_def)
qed

lemma given_up_destroyed:
  "given_up fr zf zm zl w ps \<lparr>m_message = NULL, m_flags = 0, m_frames = NULL\<rparr>
     (zf |` (- set (map (czframe fr) ps))) (zm(m_message w := None)) (zl(m_frames w := None))"
  by (simp add: given_up_def restrict_map_def)

lemmas owns_kill_message = owns_give_up [OF _ _ _ _ given_up_destroyed]

section \<open>The abstract store\<close>

text \<open>
  What a Ruby program sees: the frame objects that own a frame, with its body, and the messages
  that are not gone, with their frame objects and bodies in order.
\<close>

record store =
  owned :: "ptr \<rightharpoonup> string"
  contents :: "ptr \<rightharpoonup> (ptr \<times> string) list"

definition body_of :: "frame_heap \<Rightarrow> (ptr \<rightharpoonup> string) \<Rightarrow> ptr \<Rightarrow> string" where
  "body_of fr zf p = (case zf (czframe fr p) of Some b \<Rightarrow> b | None \<Rightarrow> [])"

definition owned_of :: "frame_heap \<Rightarrow> (ptr \<rightharpoonup> string) \<Rightarrow> ptr \<rightharpoonup> string" where
  "owned_of fr zf p =
     (case fr p of None \<Rightarrow> None | Some f \<Rightarrow> if f_flags f = 1 then Some (body_of fr zf p) else None)"

definition contents_of ::
  "frame_heap \<Rightarrow> msg_heap \<Rightarrow> (ptr \<rightharpoonup> string) \<Rightarrow> (ptr \<rightharpoonup> void list) \<Rightarrow> ptr \<rightharpoonup> (ptr \<times> string) list" where
  "contents_of fr ms zf zl m =
     (case ms m of None \<Rightarrow> None
      | Some w \<Rightarrow>
          if m_flags w = 1 then
            map_option (map (\<lambda>x. case x of VAL (Object k p) \<Rightarrow> (p, body_of fr zf p) | _ \<Rightarrow> (NULL, [])))
              (zl (m_frames w))
          else None)"

definition store_of :: "frame_heap \<Rightarrow> msg_heap \<Rightarrow> (ptr \<rightharpoonup> string) \<Rightarrow> (ptr \<rightharpoonup> void list) \<Rightarrow> store" where
  "store_of fr ms zf zl = \<lparr>owned = owned_of fr zf, contents = contents_of fr ms zf zl\<rparr>"

definition abs_store :: "'w czmq \<Rightarrow> 'w vm \<Rightarrow> store" where
  "abs_store A s =
     store_of (frames s) (msgs s) (zframes (view A (lib s))) (zlists (view A (lib s)))"

abbreviation items :: "frame_heap \<Rightarrow> (ptr \<rightharpoonup> string) \<Rightarrow> ptr list \<Rightarrow> (ptr \<times> string) list" where
  "items fr zf ps \<equiv> map (\<lambda>p. (p, body_of fr zf p)) ps"

lemma contents_holds:
  "holds_frames fr zf zm zl m w ps \<Longrightarrow> ms m = Some w \<Longrightarrow> m_flags w = 1 \<Longrightarrow>
     contents_of fr ms zf zl m = Some (items fr zf ps)"
  by (simp add: contents_of_def holds_frames_def)

lemma contents_None: "ms m = None \<or> (\<exists>w. ms m = Some w \<and> m_flags w \<noteq> 1) \<Longrightarrow> contents_of fr ms zf zl m = None"
  by (auto simp: contents_of_def)

text \<open>The contents of a message that a step does not touch.\<close>

lemma contents_cong:
  assumes own: "owns fr ms zf zm zl n" and "ms' m = ms m"
    and "\<And>w ps. ms m = Some w \<Longrightarrow> m_flags w = 1 \<Longrightarrow> holds_frames fr zf zm zl m w ps \<Longrightarrow>
      zl' (m_frames w) = zl (m_frames w) \<and> (\<forall>p\<in>set ps. body_of fr' zf' p = body_of fr zf p)"
  shows "contents_of fr' ms' zf' zl' m = contents_of fr ms zf zl m"
proof (cases "\<exists>w. ms m = Some w \<and> m_flags w = 1")
  case True
  then obtain w where w: "ms m = Some w" "m_flags w = 1" by blast
  then obtain ps where "holds_frames fr zf zm zl m w ps"
    using owned_messageE [OF own w] by blast
  then show ?thesis
    using assms(2) assms(3) [OF w] w by (simp add: contents_of_def holds_frames_def)
next
  case False
  then show ?thesis using assms(2) by (auto simp: contents_of_def split: option.split)
qed

lemma other_messageD:
  assumes own: "owns fr ms zf zm zl n" and m: "ms m = Some w" "m_flags w = 1" "holds_frames fr zf zm zl m w ps"
    and k: "ms k = Some v" "m_flags v = 1" "holds_frames fr zf zm zl k v qs" "k \<noteq> m"
  shows "m_frames v \<noteq> m_frames w" "m_message v \<noteq> m_message w" "set ps \<inter> set qs = {}"
    and "czframe fr ` set ps \<inter> czframe fr ` set qs = {}"
proof -
  show "m_frames v \<noteq> m_frames w" "m_message v \<noteq> m_message w"
    using ownsD(5,6) [OF own k(1) m(1)] owned_messageD(3,4) [OF own k(1,2)] k(2,4) m(2) by auto
  show *: "set ps \<inter> set qs = {}"
    using m(3) k(3,4) by (force simp: holds_frames_def)
  have "czframe fr p \<noteq> czframe fr q" if "p \<in> set ps" "q \<in> set qs" for p q
    using ownsD(3) [OF own held_readable [where ms = ms, OF m(3,1,2) _ that(1)]
        held_readable [where ms = ms, OF k(3,1,2) _ that(2)]]
      owned_messageD(1) [OF own m(1,2)] owned_messageD(1) [OF own k(1,2)] * that by auto
  then show "czframe fr ` set ps \<inter> czframe fr ` set qs = {}" by auto
qed

lemma body_upd_other:
  "czframe fr' p = czframe fr p \<Longrightarrow> zf' (czframe fr p) = zf (czframe fr p) \<Longrightarrow> body_of fr' zf' p = body_of fr zf p"
  by (simp add: body_of_def)

lemma store_eqI:
  assumes "\<And>p. owned_of fr zf p = owned st p" and "\<And>m. contents_of fr ms zf zl m = contents st m"
  shows "store_of fr ms zf zl = st"
  using assms by (cases st) (simp add: store_of_def fun_eq_iff)

lemma store_of_simps [simp]:
  "owned (store_of fr ms zf zl) = owned_of fr zf" "contents (store_of fr ms zf zl) = contents_of fr ms zf zl"
  by (simp_all add: store_of_def)

section \<open>The transfers, abstractly\<close>

lemma store_new_frame:
  assumes own: "owns fr ms zf zm zl n" and h: "zf h = None"
  shows "store_of (fr(n \<mapsto> \<lparr>f_frame = h, f_message = NULL, f_flags = 1\<rparr>)) ms (zf(h \<mapsto> b)) zl =
    (store_of fr ms zf zl)\<lparr>owned := (owned_of fr zf)(n \<mapsto> b)\<rparr>"
    (is "store_of ?fr ms ?zf zl = _")
proof (rule store_eqI)
  have same: "body_of ?fr ?zf p = body_of fr zf p" if "readable fr ms p" for p
    using readable_live [OF own that] that h ownsD(9) [OF own]
    by (intro body_upd_other) (auto simp: czframe_def readable_def)
  show "owned_of ?fr ?zf p = owned ((store_of fr ms zf zl)\<lparr>owned := (owned_of fr zf)(n \<mapsto> b)\<rparr>) p" for p
    using same [of p] by (auto simp: owned_of_def readable_def body_of_def czframe_def split: option.splits)
  show "contents_of ?fr ms ?zf zl m = contents ((store_of fr ms zf zl)\<lparr>owned := (owned_of fr zf)(n \<mapsto> b)\<rparr>) m" for m
    using same held_readable owned_messageD(1) [OF own]
    by (simp, intro contents_cong [OF own]) blast+
qed

lemma store_lose_frame:
  assumes own: "owns fr ms zf zm zl n" and p: "fr p = Some f" "f_flags f = 1"
    and g: "f_flags g = 0"
  shows "store_of (fr(p \<mapsto> g)) ms (zf(f_frame f := None)) zl =
    (store_of fr ms zf zl)\<lparr>owned := (owned_of fr zf)(p := None)\<rparr>"
    (is "store_of ?fr ms ?zf zl = _")
proof (rule store_eqI)
  have "readable fr ms p" using p by (auto simp: readable_def)
  then have same: "body_of ?fr ?zf q = body_of fr zf q" if "readable fr ms q" "q \<noteq> p" for q
    using ownsD(3) [OF own that(1)] that p by (intro body_upd_other) (auto simp: czframe_def)
  show "owned_of ?fr ?zf q = owned ((store_of fr ms zf zl)\<lparr>owned := (owned_of fr zf)(p := None)\<rparr>) q" for q
    using same [of q] g by (auto simp: owned_of_def readable_def split: option.splits)
  show "contents_of ?fr ms ?zf zl m = contents ((store_of fr ms zf zl)\<lparr>owned := (owned_of fr zf)(p := None)\<rparr>) m" for m
    using same held_readable owned_messageD(1) [OF own] held_not_owned [where fr = fr and p = p] p
    by (simp, intro contents_cong [OF own]) blast+
qed

lemmas store_kill_frame =
  store_lose_frame [where g = "\<lparr>f_frame = NULL, f_message = NULL, f_flags = 0\<rparr>", simplified]

lemma store_attach:
  assumes own: "owns fr ms zf zm zl n" and p: "fr p = Some f" "f_flags f = 1"
    and m: "ms m = Some w" "m_flags w = 1" "holds_frames fr zf zm zl m w (as @ bs)"
  shows "store_of (fr(p \<mapsto> \<lparr>f_frame = f_frame f, f_message = m, f_flags = 0\<rparr>)) ms zf
      (zl(m_frames w \<mapsto> map FO as @ FO p # map FO bs)) =
    \<lparr>owned = (owned_of fr zf)(p := None),
     contents = (contents_of fr ms zf zl)(m \<mapsto> items fr zf as @ (p, body_of fr zf p) # items fr zf bs)\<rparr>"
    (is "store_of ?fr ms zf ?zl = ?st")
proof (rule store_eqI)
  have same: "body_of ?fr zf q = body_of fr zf q" for q
    using p by (simp add: body_of_def czframe_def)
  show "owned_of ?fr zf q = owned ?st q" for q
    by (cases "q = p") (simp_all add: owned_of_def same split: option.split)
  show "contents_of ?fr ms zf ?zl k = contents ?st k" for k
  proof (cases "k = m")
    case True
    then show ?thesis using m by (simp add: contents_of_def same)
  next
    case False
    have "contents_of ?fr ms zf ?zl k = contents_of fr ms zf zl k"
      using other_messageD(1) [OF own m _ _ _ False] by (intro contents_cong [OF own]) (auto simp: same)
    then show ?thesis using False by simp
  qed
qed

lemma store_detach:
  assumes own: "owns fr ms zf zm zl n"
    and m: "ms m = Some w" "m_flags w = 1" "holds_frames fr zf zm zl m w (as @ p # bs)"
  shows "store_of (fr(p \<mapsto> \<lparr>f_frame = czframe fr p, f_message = NULL, f_flags = 1\<rparr>)) ms zf
      (zl(m_frames w \<mapsto> map FO (as @ bs))) =
    \<lparr>owned = (owned_of fr zf)(p \<mapsto> body_of fr zf p),
     contents = (contents_of fr ms zf zl)(m \<mapsto> items fr zf (as @ bs))\<rparr>"
    (is "store_of ?fr ms zf ?zl = ?st")
proof (rule store_eqI)
  have same: "body_of ?fr zf q = body_of fr zf q" for q
    by (simp add: body_of_def czframe_def)
  show "owned_of ?fr zf q = owned ?st q" for q
    by (cases "q = p") (simp_all add: owned_of_def same split: option.split)
  show "contents_of ?fr ms zf ?zl k = contents ?st k" for k
  proof (cases "k = m")
    case True
    then show ?thesis using m by (simp add: contents_of_def same)
  next
    case False
    have "contents_of ?fr ms zf ?zl k = contents_of fr ms zf zl k"
      using other_messageD(1) [OF own m _ _ _ False] by (intro contents_cong [OF own]) (auto simp: same)
    then show ?thesis using False by simp
  qed
qed

lemma store_new_message:
  assumes own: "owns fr ms zf zm zl n" and l: "zl l = None" "l \<noteq> NULL"
  shows "store_of fr (ms(n \<mapsto> \<lparr>m_message = h, m_flags = 1, m_frames = l\<rparr>)) zf (zl(l \<mapsto> [])) =
    (store_of fr ms zf zl)\<lparr>contents := (contents_of fr ms zf zl)(n \<mapsto> [])\<rparr>"
    (is "store_of fr ?ms zf ?zl = ?st")
proof (rule store_eqI)
  show "contents_of fr ?ms zf ?zl k = contents ?st k" for k
  proof (cases "k = n")
    case True
    then show ?thesis by (simp add: contents_of_def)
  next
    case False
    have "m_frames w \<noteq> l" if "ms k = Some w" "m_flags w = 1" for w
      using owned_messageD(6) [OF own that] l by auto
    then have "contents_of fr ?ms zf ?zl k = contents_of fr ms zf zl k"
      using False by (intro contents_cong [OF own]) auto
    then show ?thesis using False by simp
  qed
qed simp

lemma store_give_up:
  assumes own: "owns fr ms zf zm zl n"
    and m: "ms m = Some w" "m_flags w = 1" "holds_frames fr zf zm zl m w ps"
    and up: "given_up fr zf zm zl w ps u zf' zm' zl'"
  shows "store_of fr (ms(m \<mapsto> u)) zf' zl' =
    (store_of fr ms zf zl)\<lparr>contents := (contents_of fr ms zf zl)(m := None)\<rparr>"
    (is "store_of fr ?ms _ _ = ?st")
proof (rule store_eqI)
  have same: "body_of fr zf' q = body_of fr zf q" if "readable fr ms q" "q \<notin> set ps" for q
    using given_up_frames [OF own m up that] by (intro body_upd_other) simp_all
  show "owned_of fr zf' q = owned ?st q" for q
    using same [of q] held_not_owned [OF m(3)]
    by (auto simp: owned_of_def readable_def split: option.splits)
  show "contents_of fr ?ms zf' zl' k = contents ?st k" for k
  proof (cases "k = m")
    case True
    then show ?thesis using up by (simp add: contents_of_def given_up_def)
  next
    case False
    have "contents_of fr ?ms zf' zl' k = contents_of fr ms zf zl k"
    proof (rule contents_cong [OF own])
      fix v qs assume v: "ms k = Some v" "m_flags v = 1" "holds_frames fr zf zm zl k v qs"
      have "readable fr ms q" "q \<notin> set ps" if "q \<in> set qs" for q
        using held_readable [where ms = ms, OF v(3,1,2) owned_messageD(1) [OF own v(1,2)] that]
          other_messageD(3) [OF own m v False] that by auto
      then show "zl' (m_frames v) = zl (m_frames v) \<and> (\<forall>q\<in>set qs. body_of fr zf' q = body_of fr zf q)"
        using other_messageD(1) [OF own m v False] same up by (simp add: given_up_def)
    qed (use False in simp)
    then show ?thesis using False by simp
  qed
qed

lemmas store_kill_message = store_give_up [OF _ _ _ _ given_up_destroyed]

text \<open>New contents for the frame of a readable frame object.\<close>

definition set_body :: "ptr \<Rightarrow> string \<Rightarrow> store \<Rightarrow> store" where
  "set_body p d st =
     \<lparr>owned = (\<lambda>q. if q = p then map_option (\<lambda>_. d) (owned st q) else owned st q),
      contents = (\<lambda>m. map_option (map (\<lambda>(q, b). if q = p then (q, d) else (q, b))) (contents st m))\<rparr>"

lemma store_set_body:
  assumes own: "owns fr ms zf zm zl n" and p: "readable fr ms p"
  shows "store_of fr ms (zf(czframe fr p \<mapsto> d)) zl = set_body p d (store_of fr ms zf zl)"
    (is "store_of fr ms ?zf zl = ?st")
proof (rule store_eqI)
  have body: "body_of fr ?zf q = (if q = p then d else body_of fr zf q)" if "readable fr ms q" for q
    using ownsD(3) [OF own that p] by (auto simp: body_of_def)
  show "owned_of fr ?zf q = owned ?st q" for q
    using body [of q] by (auto simp: owned_of_def set_body_def readable_def split: option.splits)
  show "contents_of fr ms ?zf zl m = contents ?st m" for m
  proof (cases "\<exists>w. ms m = Some w \<and> m_flags w = 1")
    case True
    then obtain w where w: "ms m = Some w" "m_flags w = 1" by blast
    then obtain ps where ps: "holds_frames fr zf zm zl m w ps"
      using owned_messageE [OF own w] by blast
    have "readable fr ms q" if "q \<in> set ps" for q
      using held_readable [where ms = ms, OF ps w owned_messageD(1) [OF own w] that] .
    then show ?thesis using w ps body by (auto simp: contents_of_def holds_frames_def set_body_def)
  next
    case False
    then have "contents_of fr ms ?zf zl m = None" "contents_of fr ms zf zl m = None"
      by (auto intro: contents_None)
    then show ?thesis by (simp add: set_body_def)
  qed
qed

end
