(* ===== verification/Zmq_Hoare.thy ===== *)
theory Zmq_Hoare
  imports Zmq_Objects
begin

text \<open>
  Weakest preconditions of commands: \<open>wp m Q E s\<close> says that \<open>m\<close>, run in \<open>s\<close>, does not fault, ends in
  \<open>Q\<close> when it returns and in \<open>E\<close> when it raises. The equations take a function body apart step by
  step; a loop needs an invariant and a measure, so that its end is proved with its result.
\<close>

definition wp ::
  "('s, 'a) cmd \<Rightarrow> ('a \<Rightarrow> 's \<Rightarrow> bool) \<Rightarrow> (exn \<Rightarrow> 's \<Rightarrow> bool) \<Rightarrow> 's \<Rightarrow> bool" where
  "wp m Q E s = (case m s of Return v s' \<Rightarrow> Q v s' | Raise e s' \<Rightarrow> E e s' | Crash f \<Rightarrow> False)"

named_theorems wp_simps \<open>weakest preconditions of the combinators\<close>

lemma wp_ret [wp_simps, simp]: "wp (ret v) Q E s = Q v s"
  by (simp add: wp_def)

lemma wp_ret_fun [simp]: "wp (ret v) Q E = Q v"
  by (rule ext) simp

lemma wp_raise [wp_simps, simp]: "wp (raise e) Q E s = E e s"
  by (simp add: wp_def)

lemma wp_crash [wp_simps, simp]: "wp (crash f) Q E s = False"
  by (simp add: wp_def)

lemma wp_rd [wp_simps]: "wp (rd f k) Q E s = wp (k (f s)) Q E s"
  by (simp add: wp_def)

lemma wp_wr [wp_simps]: "wp (wr f k) Q E s = wp k Q E (f s)"
  by (simp add: wp_def)

lemma wp_check [wp_simps]: "wp (check b e k) Q E s = (if b then wp k Q E s else E e s)"
  by (simp add: wp_def)

lemma wp_require [wp_simps]: "wp (require b f k) Q E s \<longleftrightarrow> b \<and> wp k Q E s"
  by (simp add: wp_def)

lemma wp_call [wp_simps]: "wp (call m k) Q E s = wp m (\<lambda>v. wp (k v) Q E) E s"
  by (simp add: wp_def call_def split: outcome.split)

lemma wp_deref [wp_simps]: "wp (deref h p k) Q E s \<longleftrightarrow> (\<exists>r. h s p = Some r \<and> wp (k r) Q E s)"
  by (simp add: wp_def deref_def split: option.split)

lemma wp_set_sock [wp_simps]:
  "wp (set_sock p g k) Q E s \<longleftrightarrow> (\<exists>r. socks s p = Some r \<and> wp k Q E (s\<lparr>socks := (socks s)(p \<mapsto> g r)\<rparr>))"
  by (simp add: set_sock_def wp_simps)

lemma wp_set_ctx [wp_simps]:
  "wp (set_ctx p g k) Q E s \<longleftrightarrow> (\<exists>r. ctxs s p = Some r \<and> wp k Q E (s\<lparr>ctxs := (ctxs s)(p \<mapsto> g r)\<rparr>))"
  by (simp add: set_ctx_def wp_simps)

lemma wp_make_struct [wp_simps]:
  "wp (make_struct put k) Q E s = wp (k (fresh s)) Q E (put (fresh s) s\<lparr>fresh := Suc (fresh s)\<rparr>)"
  by (simp add: wp_def)

lemma wp_ask [wp_simps]: "wp (ask f k) Q E s = wp (k (f (lib s))) Q E s"
  by (simp add: wp_def)

lemma wp_tell [wp_simps]: "wp (tell f k) Q E s = wp k Q E (s\<lparr>lib := f (lib s)\<rparr>)"
  by (simp add: wp_def)

lemma wp_invoke [wp_simps]:
  "wp (invoke f k) Q E s = wp (k (fst (f (lib s)))) Q E (s\<lparr>lib := snd (f (lib s))\<rparr>)"
  by (simp add: wp_def invoke_def split: prod.split)

lemma wp_live [wp_simps]:
  "wp (live_sock A p k) Q E s \<longleftrightarrow> zsocks (view A (lib s)) p \<noteq> None \<and> wp k Q E s"
  "wp (live_ctx A p k) Q E s \<longleftrightarrow> zctxs (view A (lib s)) p \<noteq> None \<and> wp k Q E s"
  "wp (live_list A p k) Q E s \<longleftrightarrow> zlists (view A (lib s)) p \<noteq> None \<and> wp k Q E s"
  "wp (live_frame A p k) Q E s \<longleftrightarrow> zframes (view A (lib s)) p \<noteq> None \<and> wp k Q E s"
  "wp (live_msg A p k) Q E s \<longleftrightarrow> zmsgs (view A (lib s)) p \<noteq> None \<and> wp k Q E s"
  by (auto simp: wp_def live_sock_def live_ctx_def live_list_def live_frame_def live_msg_def)

lemma wp_Check_String [wp_simps]:
  "wp (Check_String v k) Q E s =
     (case v of RString cs \<Rightarrow> wp (k cs) Q E s
      | _ \<Rightarrow> E (TypeError ''wrong argument type (expected String)'') s)"
  by (simp add: Check_String_def wp_simps split: rvalue.split)

lemma wp_Check_Fixnum [wp_simps]:
  "wp (Check_Fixnum v k) Q E s =
     (case v of Fixnum n \<Rightarrow> wp (k n) Q E s
      | _ \<Rightarrow> E (TypeError ''wrong argument type (expected Fixnum)'') s)"
  by (simp add: Check_Fixnum_def wp_simps split: rvalue.split)

lemma wp_FIX2INT [wp_simps]:
  "wp (FIX2INT n k) Q E s = (if - (2 ^ 31) \<le> n \<and> n < 2 ^ 31 then wp (k n) Q E s else E RangeError s)"
  by (simp add: FIX2INT_def wp_simps)

lemma wp_StringValueCStr [wp_simps]:
  "wp (StringValueCStr cs k) Q E s =
     (if NUL \<notin> set cs then wp (k cs) Q E s else E (ArgError ''string contains null byte'') s)"
  by (simp add: StringValueCStr_def wp_simps)

lemma wp_ZmqAssertSysError [wp_simps]:
  "wp (ZmqAssertSysError A k) Q E s =
     (let e = zmq_errno A (lib s) in
      if e \<noteq> 0 \<and> e \<noteq> errcode A EAGAIN then E (SysError e) s else wp k Q E s)"
  by (simp add: ZmqAssertSysError_def wp_simps Let_def)

text \<open>A return code of -1 raises or makes the caller return false; either way the state is unchanged.\<close>

lemma wp_ZmqAssert:
  assumes "rc \<noteq> -1 \<Longrightarrow> wp k Q E s" and "rc = -1 \<Longrightarrow> Q Qfalse s" and "\<And>e. rc = -1 \<Longrightarrow> E e s"
  shows "wp (ZmqAssert A rc k) Q E s"
  using assms by (simp add: ZmqAssert_def wp_simps Let_def)

lemma wp_conseq:
  assumes "wp m Q E s" and "\<And>v t. Q v t \<Longrightarrow> Q' v t" and "\<And>e t. E e t \<Longrightarrow> E' e t"
  shows "wp m Q' E' s"
  using assms by (auto simp: wp_def split: outcome.splits)

text \<open>Loops end: the measure of the loop variables and the state decreases in every round.\<close>

lemma wp_while:
  assumes "I x s"
    and step: "\<And>x s. I x s \<Longrightarrow> b x \<Longrightarrow> wp (c x) (\<lambda>y t. I y t \<and> (m y t :: nat) < m x s) E s"
    and stop: "\<And>x s. I x s \<Longrightarrow> \<not> b x \<Longrightarrow> wp (k x) Q E s"
  shows "wp (while_do b c k x) Q E s"
  using assms(1)
proof (induction "m x s" arbitrary: x s rule: less_induct)
  case less
  show ?case
  proof (cases "b x")
    case True
    have eq: "while_do b c k x s = call (c x) (while_do b c k) s"
      using True by (simp add: while_do_unroll [of b c k x])
    have "wp (call (c x) (while_do b c k)) Q E s"
      unfolding wp_call by (rule wp_conseq [OF step [OF less.prems True]]) (use less.hyps in auto)
    then show ?thesis by (simp add: wp_def eq)
  next
    case False
    then show ?thesis using stop [OF less.prems] by (simp add: wp_def while_do_unroll [of b c k x])
  qed
qed

lemma wp_safe: "wp m Q E s \<Longrightarrow> safe (m s)"
  by (auto simp: wp_def split: outcome.splits)

lemma wp_final: "wp m (\<lambda>_. P) (\<lambda>_. P) s \<Longrightarrow> final_state (m s) = Some s' \<Longrightarrow> P s'"
  by (auto simp: wp_def split: outcome.splits)

lemma wpI: "safe (m s) \<Longrightarrow> (\<And>t. final_state (m s) = Some t \<Longrightarrow> P t) \<Longrightarrow> wp m (\<lambda>_. P) (\<lambda>_. P) s"
  by (cases "m s") (simp_all add: wp_def)

lemma wp_outcome: "wp m Q E s \<longleftrightarrow> (\<exists>v s'. m s = Return v s' \<and> Q v s') \<or> (\<exists>e s'. m s = Raise e s' \<and> E e s')"
  by (cases "m s") (simp_all add: wp_def)

lemma safe_final: "safe r \<Longrightarrow> \<exists>s. final_state r = Some s"
  by (cases r) simp_all

section \<open>Programs\<close>

text \<open>
  A program makes calls, one after the other; an exception ends a call and the program goes on. A
  call needs its objects: \<open>valid\<close> says which calls a state allows.
\<close>

inductive runs :: "('c \<Rightarrow> ('s, 'a) cmd) \<Rightarrow> ('s \<Rightarrow> 'c \<Rightarrow> bool) \<Rightarrow> 's \<Rightarrow> 's \<Rightarrow> bool" for run valid s where
  start: "runs run valid s s"
| step: "runs run valid s t \<Longrightarrow> valid t c \<Longrightarrow> final_state (run c t) = Some u \<Longrightarrow> runs run valid s u"

text \<open>
  A component whose calls keep an invariant, under what \<open>ok\<close> says of the library; and one that
  moreover refines an abstract specification. The two theorems on whole programs are proved once.
\<close>

locale machine =
  fixes run :: "'c \<Rightarrow> ('s, 'a) cmd" and valid :: "'s \<Rightarrow> 'c \<Rightarrow> bool" and inv :: "'s \<Rightarrow> bool" and ok :: bool
  assumes keeps: "ok \<Longrightarrow> inv s \<Longrightarrow> valid s c \<Longrightarrow> wp (run c) (\<lambda>_. inv) (\<lambda>_. inv) s"
begin

lemma runs_inv: "runs run valid s t \<Longrightarrow> ok \<Longrightarrow> inv s \<Longrightarrow> inv t"
  by (induction rule: runs.induct) (blast intro: wp_final [OF keeps])+

lemma runs_safe: "runs run valid s t \<Longrightarrow> ok \<Longrightarrow> inv s \<Longrightarrow> valid t c \<Longrightarrow> safe (run c t)"
  by (rule wp_safe [OF keeps]) (blast intro: runs_inv)+

end

locale refined_machine = machine run valid inv ok
  for run :: "'c \<Rightarrow> ('s, 'a) cmd" and valid :: "'s \<Rightarrow> 'c \<Rightarrow> bool" and inv :: "'s \<Rightarrow> bool" and ok :: bool +
  fixes abs :: "'s \<Rightarrow> 'b" and effect :: "'s \<Rightarrow> 'c \<Rightarrow> 'b \<Rightarrow> 'b"
  assumes refines: "ok \<Longrightarrow> inv s \<Longrightarrow> valid s c \<Longrightarrow> final_state (run c s) = Some t \<Longrightarrow> abs t = effect s c (abs s)"
begin

lemma runs_refine:
  assumes "runs run valid s t" and "ok" and "inv s" and "valid t c"
  shows "\<exists>u. final_state (run c t) = Some u \<and> abs u = effect t c (abs t)"
proof -
  obtain u where u: "final_state (run c t) = Some u" using safe_final [OF runs_safe [OF assms]] by blast
  then show ?thesis using refines [OF assms(2) runs_inv [OF assms(1-3)] assms(4) u] by blast
qed

end

section \<open>The fetching macros\<close>

lemma wp_fetch [wp_simps]:
  "wp (fetch K desc uninit obj k) Q E s =
     (case obj of
        Object c p \<Rightarrow> if K c then (if p = NULL then E (TypeError uninit) s else wp (k p) Q E s)
                     else E (TypeError desc) s
      | _ \<Rightarrow> E (TypeError desc) s)"
  by (simp add: fetch_def wp_simps split: rvalue.split)

text \<open>
  Fetching a socket or a context: the struct behind the object must be allocated; the rest runs
  only on an open one.
\<close>

lemma wp_GetZmqSocket:
  assumes "\<And>e. E e s"
    and "\<And>c q. obj = Object c q \<Longrightarrow> socket_klass c \<Longrightarrow> q \<noteq> NULL \<Longrightarrow> socks s q \<noteq> None"
    and "\<And>c q w. obj = Object c q \<Longrightarrow> socket_klass c \<Longrightarrow> q \<noteq> NULL \<Longrightarrow> socks s q = Some w \<Longrightarrow>
      \<not> has (s_flags w) ZMQ_SOCKET_DESTROYED \<Longrightarrow> wp (k q) Q E s"
  shows "wp (GetZmqSocket obj k) Q E s"
proof (cases obj)
  case (Object c q)
  show ?thesis
  proof (cases "socket_klass c \<and> q \<noteq> NULL")
    case True
    then obtain w where w: "socks s q = Some w" using assms(2) [OF Object] by blast
    have "has (s_flags w) ZMQ_SOCKET_DESTROYED \<or> wp (k q) Q E s" using assms(3) [OF Object _ _ w] True by blast
    then show ?thesis
      using True w assms(1) unfolding Object GetZmqSocket_def wp_fetch wp_deref wp_check by auto
  qed (use assms(1) in \<open>auto simp: Object GetZmqSocket_def wp_fetch\<close>)
qed (simp_all add: GetZmqSocket_def wp_fetch assms(1))

lemma wp_ZmqGetContext:
  assumes "\<And>e. E e s"
    and "\<And>p. obj = Object rb_cZmqContext p \<Longrightarrow> p \<noteq> NULL \<Longrightarrow> ctxs s p \<noteq> None"
    and "\<And>p c. obj = Object rb_cZmqContext p \<Longrightarrow> p \<noteq> NULL \<Longrightarrow> ctxs s p = Some c \<Longrightarrow>
      \<not> has (c_flags c) ZMQ_CONTEXT_DESTROYED \<Longrightarrow> wp (k p) Q E s"
  shows "wp (ZmqGetContext obj k) Q E s"
proof (cases obj)
  case (Object c p)
  show ?thesis
  proof (cases "c = rb_cZmqContext \<and> p \<noteq> NULL")
    case True
    then obtain d where d: "ctxs s p = Some d" using assms(2) [of p] Object by blast
    have "has (c_flags d) ZMQ_CONTEXT_DESTROYED \<or> wp (k p) Q E s" using assms(3) [OF _ _ d] True Object by blast
    then show ?thesis
      using True d assms(1) unfolding Object ZmqGetContext_def wp_fetch wp_deref wp_check by auto
  qed (use assms(1) in \<open>auto simp: Object ZmqGetContext_def wp_fetch\<close>)
qed (simp_all add: ZmqGetContext_def wp_fetch assms(1))

lemma wp_ZmqSockGuardCrossThread [wp_simps]:
  "wp (ZmqSockGuardCrossThread q k) Q E s \<longleftrightarrow>
     (\<exists>w. socks s q = Some w \<and>
        (if s_thread w = thread s then wp k Q E s else E (ZmqError ''Cross thread violation'') s))"
  by (simp add: ZmqSockGuardCrossThread_def wp_simps)

lemma wp_ZmqAssertSocketNotPending [wp_simps]:
  "wp (ZmqAssertSocketNotPending q msg k) Q E s \<longleftrightarrow>
     (\<exists>w. socks s q = Some w \<and>
        (if has (s_state w) (ZMQ_SOCKET_BOUND OR ZMQ_SOCKET_CONNECTED) then wp k Q E s else E (ZmqError msg) s))"
  by (simp add: ZmqAssertSocketNotPending_def wp_simps)

lemma wp_ZmqAssertContextPidMatches [wp_simps]:
  "wp (ZmqAssertContextPidMatches p k) Q E s \<longleftrightarrow>
     (\<exists>c. ctxs s p = Some c \<and>
        (if c_pid c = pid s then wp k Q E s
         else E (ZmqError ''ZMQ::Context instance belongs to another process'') s))"
  by (simp add: ZmqAssertContextPidMatches_def wp_simps)

end
