(* ===== verification/Zmq_Refine.thy ===== *)
theory Zmq_Refine
  imports Zmq_Ownership Zmq_Hoare
begin

text \<open>
  The operations of frame.c and message.c refine the abstract store: on a state of the invariant
  they either do to the store what their documentation says, or refuse and leave it alone, and the
  invariant holds afterwards. No operation faults.
\<close>

definition lib_doc :: "'w czmq \<Rightarrow> bool" where
  "lib_doc A \<longleftrightarrow> zlist_doc A \<and> zframe_doc A \<and> zmsg_doc A"

lemma lib_docD: "lib_doc A \<Longrightarrow> zlist_doc A" "lib_doc A \<Longrightarrow> zframe_doc A" "lib_doc A \<Longrightarrow> zmsg_doc A"
  by (simp_all add: lib_doc_def)

lemma ref_lib_doc: "lib_doc ref"
  by (simp add: lib_doc_def ref_zlist ref_zframe ref_zmsg)

text \<open>The call returns \<open>v\<close> and the store is \<open>st\<close> afterwards; the call is refused.\<close>

definition steps_to :: "'w czmq \<Rightarrow> ('w vm, rvalue) outcome \<Rightarrow> rvalue \<Rightarrow> store \<Rightarrow> bool" where
  "steps_to A r v st \<longleftrightarrow> (\<exists>s'. r = Return v s' \<and> fm_inv A s' \<and> abs_store A s' = st)"

definition refused :: "'w czmq \<Rightarrow> ('w vm, rvalue) outcome \<Rightarrow> store \<Rightarrow> bool" where
  "refused A r st \<longleftrightarrow>
     (\<exists>s'. ((\<exists>e. r = Raise e s') \<or> r = Return Qfalse s') \<and> fm_inv A s' \<and> abs_store A s' = st)"

lemma steps_to_simps [simp]:
  "steps_to A (Return v s') v' st \<longleftrightarrow> v = v' \<and> fm_inv A s' \<and> abs_store A s' = st"
  "\<not> steps_to A (Raise e s') v' st" "\<not> steps_to A (Crash f) v' st"
  by (auto simp: steps_to_def)

lemma refused_simps [simp]:
  "refused A (Raise e s') st \<longleftrightarrow> fm_inv A s' \<and> abs_store A s' = st"
  "refused A (Return v s') st \<longleftrightarrow> v = Qfalse \<and> fm_inv A s' \<and> abs_store A s' = st"
  "\<not> refused A (Crash f) st"
  by (auto simp: refused_def)

section \<open>Opening the invariant\<close>

lemma fm_invD:
  "fm_inv A s \<Longrightarrow> owns (frames s) (msgs s) (zframes (view A (lib s))) (zmsgs (view A (lib s)))
     (zlists (view A (lib s))) (fresh s)"
  by (simp add: fm_inv_def)

text \<open>A message object that is not gone, and a frame object that owns its frame, at their addresses.\<close>

definition msg_at :: "'w czmq \<Rightarrow> 'w vm \<Rightarrow> ptr \<Rightarrow> zmq_message_wrapper \<Rightarrow> ptr list \<Rightarrow> bool" where
  "msg_at A s m w ps \<longleftrightarrow>
     msgs s m = Some w \<and> m_flags w = 1 \<and> m \<noteq> NULL \<and> m_message w \<noteq> NULL \<and> m_frames w \<noteq> NULL \<and>
     holds_frames (frames s) (zframes (view A (lib s))) (zmsgs (view A (lib s))) (zlists (view A (lib s))) m w ps"

definition frame_at :: "'w czmq \<Rightarrow> 'w vm \<Rightarrow> ptr \<Rightarrow> zmq_frame_wrapper \<Rightarrow> string \<Rightarrow> bool" where
  "frame_at A s p f b \<longleftrightarrow>
     frames s p = Some f \<and> f_flags f = 1 \<and> f_message f = NULL \<and> p \<noteq> NULL \<and>
     zframes (view A (lib s)) (f_frame f) = Some b"

lemma msg_atD:
  assumes "msg_at A s m w ps"
  shows "msgs s m = Some w" "m_flags w = 1" "m \<noteq> NULL" "m_message w \<noteq> NULL" "m_frames w \<noteq> NULL"
    "holds_frames (frames s) (zframes (view A (lib s))) (zmsgs (view A (lib s))) (zlists (view A (lib s))) m w ps"
    "zmsgs (view A (lib s)) (m_message w) = Some (map (czframe (frames s)) ps)"
    "zlists (view A (lib s)) (m_frames w) = Some (map FO ps)"
  using assms by (auto simp: msg_at_def holds_frames_def)

lemma frame_atD:
  assumes "frame_at A s p f b"
  shows "frames s p = Some f" "f_flags f = 1" "f_message f = NULL" "p \<noteq> NULL"
    "zframes (view A (lib s)) (f_frame f) = Some b"
    "body_of (frames s) (zframes (view A (lib s))) p = b"
  using assms by (auto simp: frame_at_def body_of_def czframe_def)

lemma contentsE:
  assumes "fm_inv A s" and "contents (abs_store A s) m = Some xs"
  obtains w ps where "msg_at A s m w ps" "xs = items (frames s) (zframes (view A (lib s))) ps"
proof -
  have "contents_of (frames s) (msgs s) (zframes (view A (lib s))) (zlists (view A (lib s))) m = Some xs"
    using assms(2) by (simp add: abs_store_def)
  then obtain w where w: "msgs s m = Some w" "m_flags w = 1"
    by (auto simp: contents_of_def split: option.splits if_splits)
  obtain ps where ps: "holds_frames (frames s) (zframes (view A (lib s))) (zmsgs (view A (lib s)))
      (zlists (view A (lib s))) m w ps"
    by (rule owned_messageE [OF fm_invD [OF assms(1)] w])
  then have "msg_at A s m w ps"
    using w owned_messageD [OF fm_invD [OF assms(1)] w] by (simp add: msg_at_def)
  moreover have "xs = items (frames s) (zframes (view A (lib s))) ps"
    using assms(2) contents_holds [where ms = "msgs s", OF ps w] by (simp add: abs_store_def)
  ultimately show thesis by (rule that)
qed

lemma ownedE:
  assumes "fm_inv A s" and "owned (abs_store A s) p = Some b"
  obtains f where "frame_at A s p f b"
proof -
  have "owned_of (frames s) (zframes (view A (lib s))) p = Some b"
    using assms(2) by (simp add: abs_store_def)
  then obtain f where f: "frames s p = Some f" "f_flags f = 1"
    and b: "body_of (frames s) (zframes (view A (lib s))) p = b"
    by (auto simp: owned_of_def split: option.splits if_splits)
  with owned_frameD [OF fm_invD [OF assms(1)] f] have "frame_at A s p f b"
    by (auto simp: body_of_def czframe_def frame_at_def)
  then show thesis by (rule that)
qed

text \<open>A library call that changes no object.\<close>

lemma view_same [simp]:
  assumes "view A w' = view A (lib s)"
  shows "fm_inv A (s\<lparr>lib := w'\<rparr>) = fm_inv A s" "abs_store A (s\<lparr>lib := w'\<rparr>) = abs_store A s"
  using assms by (simp_all add: fm_inv_def abs_store_def)

lemma ZmqAssert_refused [simp]:
  assumes "fm_inv A s" "abs_store A s = st"
  shows "refused A (ZmqAssert A (-1) k s) st"
  using assms by (simp add: ZmqAssert_def ZmqAssertSysError_def)

lemma frame_freed [simp]:
  "f\<lparr>f_flags := x, f_frame := h\<rparr> = \<lparr>f_frame = h, f_message = f_message f, f_flags = x\<rparr>"
  by (cases f) simp

lemma live_not_null: "h NULL = None \<Longrightarrow> h p = Some x \<Longrightarrow> p \<noteq> NULL"
  by (rule notI) simp

section \<open>Frame objects\<close>

text \<open>
  When libczmq fails in a call on frames and messages: it runs out of memory and answers with the null
  pointer or with another number than 0. The library is asked in the state the call finds it in.
\<close>

definition put_fails :: "(ptr \<Rightarrow> ptr \<Rightarrow> 'w \<Rightarrow> int \<times> 'w) \<Rightarrow> 'w czmq \<Rightarrow> 'w vm \<Rightarrow> ptr \<Rightarrow> ptr \<Rightarrow> bool" where
  "put_fails put A s m p \<longleftrightarrow>
     (case (msgs s m, frames s p) of
        (Some w, Some f) \<Rightarrow> fst (put (m_message w) (f_frame f) (set_errno A 0 (lib s))) \<noteq> 0 | _ \<Rightarrow> False)"

definition mem_fails :: "(ptr \<Rightarrow> string \<Rightarrow> 'w \<Rightarrow> int \<times> 'w) \<Rightarrow> 'w czmq \<Rightarrow> 'w vm \<Rightarrow> ptr \<Rightarrow> string \<Rightarrow> bool" where
  "mem_fails mem A s m d \<longleftrightarrow>
     (case msgs s m of Some w \<Rightarrow> fst (mem (m_message w) d (set_errno A 0 (lib s))) \<noteq> 0 | None \<Rightarrow> False)"

definition dup_fails :: "'w czmq \<Rightarrow> 'w vm \<Rightarrow> ptr \<Rightarrow> bool" where
  "dup_fails A s m \<longleftrightarrow> (case msgs s m of Some w \<Rightarrow> fst (zmsg_dup A (m_message w) (lib s)) = NULL | None \<Rightarrow> False)"

lemma frame_new_refines:
  fixes d :: string
  assumes doc: "lib_doc A" and inv: "fm_inv A s"
  defines "r \<equiv> rb_czmq_frame_s_new A [RString d] s"
  shows "if fst (zframe_new A d (set_errno A 0 (lib s))) = NULL then refused A r (abs_store A s)
    else steps_to A r (Object rb_cZmqFrame (fresh s))
      ((abs_store A s)\<lparr>owned := (owned (abs_store A s))(fresh s \<mapsto> d)\<rparr>)"
proof -
  let ?w0 = "set_errno A 0 (lib s)"
  have v0: "view A ?w0 = view A (lib s)" by (simp add: zframe_docD lib_docD doc)
  obtain h w1 where call: "zframe_new A d ?w0 = (h, w1)" by fastforce
  have alloc: "zframe_alloc_doc A ?w0 d (h, w1)"
    using zframe_docD(4) [of A ?w0 d] doc call by (simp add: lib_docD)
  note step = r_def rb_czmq_frame_s_new_def rb_scan_args_01_def NIL_P_def rb_czmq_alloc_frame_def call
  show ?thesis
  proof (cases "h = NULL")
    case True
    then show ?thesis using True alloc v0 inv by (simp add: step zframe_alloc_doc_def ZmqAssertSysError_def)
  next
    case False
    then have h: "zframes (view A (lib s)) h = None"
      and v1: "view A w1 = (view A (lib s))\<lparr>zframes := (zframes (view A (lib s)))(h \<mapsto> d)\<rparr>"
      using alloc v0 by (simp_all add: zframe_alloc_doc_def)
    show ?thesis
      using owns_new_frame [OF fm_invD [OF inv] h] store_new_frame [OF fm_invD [OF inv] h] False
      by (simp add: step v1 fm_inv_def abs_store_def)
  qed
qed

lemma frame_destroy_refines:
  assumes doc: "lib_doc A" and inv: "fm_inv A s" and p: "owned (abs_store A s) p = Some b"
  shows "steps_to A (rb_czmq_frame_destroy A (Object rb_cZmqFrame p) s) Qnil
      ((abs_store A s)\<lparr>owned := (owned (abs_store A s))(p := None)\<rparr>)"
proof -
  obtain f where "frame_at A s p f b" by (rule ownedE [OF inv p])
  note f = frame_atD [OF this]
  have "f_frame f \<noteq> NULL"
    by (rule live_not_null [OF zframe_docD(3) [OF lib_docD(2) [OF doc]] f(5)])
  moreover have "accessible s p" using f by (simp add: accessible_def)
  ultimately show ?thesis
    using owns_kill_frame [OF fm_invD [OF inv] f(1,2)] store_kill_frame [OF fm_invD [OF inv] f(1,2)]
      zframe_liveD(5) [OF lib_docD(2) [OF doc] f(5)] f
    by (simp add: rb_czmq_frame_destroy_def rb_czmq_free_frame_def accessible_guard call_def
        fm_inv_def abs_store_def)
qed

section \<open>Pushing and adding frames\<close>

lemma put_refines:
  assumes inv: "fm_inv A s" and m: "msg_at A s m w (as @ bs)" and p: "frame_at A s p f b"
    and frs: "frames s' = (frames s)(p \<mapsto> \<lparr>f_frame = f_frame f, f_message = m, f_flags = 0\<rparr>)"
    and v: "view A (lib s') = (view A (lib s))
      \<lparr>zmsgs := (zmsgs (view A (lib s)))(m_message w \<mapsto> map (czframe (frames s)) as @ f_frame f # map (czframe (frames s)) bs),
       zlists := (zlists (view A (lib s)))(m_frames w \<mapsto> map FO as @ FO p # map FO bs)\<rparr>"
    and rest: "msgs s' = msgs s" "fresh s' = fresh s"
  shows "fm_inv A s'"
    and "abs_store A s' = \<lparr>owned = (owned (abs_store A s))(p := None),
      contents = (contents (abs_store A s))(m \<mapsto> items (frames s) (zframes (view A (lib s))) as @
        (p, b) # items (frames s) (zframes (view A (lib s))) bs)\<rparr>"
  using owns_attach [OF fm_invD [OF inv] frame_atD(1,2) [OF p] msg_atD(1,2,6) [OF m]]
    store_attach [OF fm_invD [OF inv] frame_atD(1,2) [OF p] msg_atD(1,2,6) [OF m]] frame_atD(6) [OF p]
  by (simp_all add: fm_inv_def abs_store_def frs v rest)

lemma push_refines:
  assumes doc: "lib_doc A" and inv: "fm_inv A s"
    and m: "contents (abs_store A s) m = Some xs" and p: "owned (abs_store A s) p = Some b"
  defines "r \<equiv> rb_czmq_message_push A (Object rb_cZmqMessage m) (Object rb_cZmqFrame p) s"
  shows "if put_fails (zmsg_push A) A s m p then refused A r (abs_store A s)
    else steps_to A r Qtrue
      \<lparr>owned = (owned (abs_store A s))(p := None), contents = (contents (abs_store A s))(m \<mapsto> (p, b) # xs)\<rparr>"
proof -
  let ?v = "view A (lib s)" and ?w0 = "set_errno A 0 (lib s)"
  obtain w ps where m: "msg_at A s m w ps" and xs: "xs = items (frames s) (zframes ?v) ps"
    by (rule contentsE [OF inv m])
  obtain f where p: "frame_at A s p f b" by (rule ownedE [OF inv p])
  note at = msg_atD [OF m] frame_atD [OF p]
  have v0: "view A ?w0 = ?v" by (simp add: zframe_docD lib_docD doc)
  obtain rc w1 where call: "zmsg_push A (m_message w) (f_frame f) ?w0 = (rc, w1)" by fastforce
  have put: "zmsg_put_doc A ?w0 (m_message w) (f_frame f # map (czframe (frames s)) ps) (rc, w1)"
    using zmsg_liveD(3) [of A ?w0 "m_message w" "map (czframe (frames s)) ps" "f_frame f"] doc at v0 call
    by (simp add: lib_docD)
  have fail: "put_fails (zmsg_push A) A s m p \<longleftrightarrow> rc \<noteq> 0" using at call by (simp add: put_fails_def)
  note step = r_def rb_czmq_message_push_def ZmqAssertFrameOwnedNoMessage_def at v0 call
  show ?thesis
  proof (cases "rc = 0")
    case True
    then have v1: "view A w1 = ?v\<lparr>zmsgs := (zmsgs ?v)(m_message w \<mapsto> f_frame f # map (czframe (frames s)) ps)\<rparr>"
      using put v0 by (simp add: zmsg_put_doc_def)
    have v2: "view A (zlist_push A (m_frames w) (FO p) w1) =
        (view A w1)\<lparr>zlists := (zlists ?v)(m_frames w \<mapsto> FO p # map FO ps)\<rparr>"
      using zlist_liveD(1) [of A w1 "m_frames w" "map FO ps"] doc at v1 by (simp add: lib_docD)
    show ?thesis
      using put_refines [OF inv _ p, of m w "[]" ps] m by (simp add: step True v1 v2 xs fail)
  next
    case False
    have "rc = -1" "view A w1 = ?v" using put v0 False by (simp_all add: zmsg_put_doc_def)
    then show ?thesis using inv by (simp add: step fail)
  qed
qed

lemma add_refines:
  assumes doc: "lib_doc A" and inv: "fm_inv A s"
    and m: "contents (abs_store A s) m = Some xs" and p: "owned (abs_store A s) p = Some b"
  defines "r \<equiv> rb_czmq_message_add A (Object rb_cZmqMessage m) (Object rb_cZmqFrame p) s"
  shows "if put_fails (zmsg_add A) A s m p then refused A r (abs_store A s)
    else steps_to A r Qtrue
      \<lparr>owned = (owned (abs_store A s))(p := None), contents = (contents (abs_store A s))(m \<mapsto> xs @ [(p, b)])\<rparr>"
proof -
  let ?v = "view A (lib s)" and ?w0 = "set_errno A 0 (lib s)"
  obtain w ps where m: "msg_at A s m w ps" and xs: "xs = items (frames s) (zframes ?v) ps"
    by (rule contentsE [OF inv m])
  obtain f where p: "frame_at A s p f b" by (rule ownedE [OF inv p])
  note at = msg_atD [OF m] frame_atD [OF p]
  have v0: "view A ?w0 = ?v" by (simp add: zframe_docD lib_docD doc)
  obtain rc w1 where call: "zmsg_add A (m_message w) (f_frame f) ?w0 = (rc, w1)" by fastforce
  have put: "zmsg_put_doc A ?w0 (m_message w) (map (czframe (frames s)) ps @ [f_frame f]) (rc, w1)"
    using zmsg_liveD(4) [of A ?w0 "m_message w" "map (czframe (frames s)) ps" "f_frame f"] doc at v0 call
    by (simp add: lib_docD)
  have fail: "put_fails (zmsg_add A) A s m p \<longleftrightarrow> rc \<noteq> 0" using at call by (simp add: put_fails_def)
  note step = r_def rb_czmq_message_add_def ZmqAssertFrameOwnedNoMessage_def at v0 call
  show ?thesis
  proof (cases "rc = 0")
    case True
    then have v1: "view A w1 = ?v\<lparr>zmsgs := (zmsgs ?v)(m_message w \<mapsto> map (czframe (frames s)) ps @ [f_frame f])\<rparr>"
      using put v0 by (simp add: zmsg_put_doc_def)
    have v2: "view A (zlist_append A (m_frames w) (FO p) w1) =
        (view A w1)\<lparr>zlists := (zlists ?v)(m_frames w \<mapsto> map FO ps @ [FO p])\<rparr>"
      using zlist_liveD(2) [of A w1 "m_frames w" "map FO ps"] doc at v1 by (simp add: lib_docD)
    show ?thesis
      using put_refines [OF inv _ p, of m w ps "[]"] m by (simp add: step True v1 v2 xs fail)
  next
    case False
    have "rc = -1" "view A w1 = ?v" using put v0 False by (simp_all add: zmsg_put_doc_def)
    then show ?thesis using inv by (simp add: step fail)
  qed
qed

text \<open>A new frame object for a new frame of the message.\<close>

lemma held_defined: "holds_frames fr zf zm zl m w ps \<Longrightarrow> fr n = None \<Longrightarrow> n \<notin> set ps"
  by (force simp: holds_frames_def)

lemma new_frame_holds:
  assumes own: "owns fr ms zf zm zl n" and h: "zf h = None"
    and ps: "holds_frames fr zf zm zl m w ps"
  shows "holds_frames (fr(n \<mapsto> x)) (zf(h \<mapsto> d)) zm zl m w ps"
  using held_defined [OF ps ownsD(9) [OF own]] by (intro holds_frames_cong [OF ps]) auto

lemma owns_put_new:
  assumes own: "owns fr ms zf zm zl n" and h: "zf h = None"
    and m: "ms m = Some w" "m_flags w = 1" "holds_frames fr zf zm zl m w (as @ bs)"
  shows "owns (fr(n \<mapsto> \<lparr>f_frame = h, f_message = m, f_flags = 0\<rparr>)) ms (zf(h \<mapsto> d))
      (zm(m_message w \<mapsto> map (czframe fr) as @ h # map (czframe fr) bs))
      (zl(m_frames w \<mapsto> map FO as @ FO n # map FO bs)) (Suc n)"
    and "store_of (fr(n \<mapsto> \<lparr>f_frame = h, f_message = m, f_flags = 0\<rparr>)) ms (zf(h \<mapsto> d))
        (zl(m_frames w \<mapsto> map FO as @ FO n # map FO bs)) =
      (store_of fr ms zf zl)\<lparr>contents := (contents_of fr ms zf zl)(m \<mapsto>
        items fr zf as @ (n, d) # items fr zf bs)\<rparr>"
proof -
  let ?fr = "fr(n \<mapsto> \<lparr>f_frame = h, f_message = NULL, f_flags = 1\<rparr>)" and ?zf = "zf(h \<mapsto> d)"
  have own': "owns ?fr ms ?zf zm zl (Suc n)" by (rule owns_new_frame [OF own h])
  have held: "holds_frames ?fr ?zf zm zl m w (as @ bs)" by (rule new_frame_holds [OF own h m(3)])
  have n: "?fr n = Some \<lparr>f_frame = h, f_message = NULL, f_flags = 1\<rparr>" by simp
  have fresh: "n \<notin> set (as @ bs)" by (rule held_defined [OF m(3) ownsD(9) [OF own]])
  have cz: "map (czframe ?fr) as = map (czframe fr) as" "map (czframe ?fr) bs = map (czframe fr) bs"
    using fresh by (auto simp: czframe_def)
  have body: "body_of ?fr ?zf p = body_of fr zf p" if "p \<in> set (as @ bs)" for p
  proof -
    have "p \<noteq> n" "zf (czframe fr p) \<noteq> None"
      using that fresh m(3) by (force simp: holds_frames_def czframe_def)+
    then show ?thesis using h by (intro body_upd_other) (auto simp: czframe_def)
  qed
  have "contents_of ?fr ms ?zf zl = contents_of fr ms zf zl"
    and "owned_of ?fr ?zf = (owned_of fr zf)(n \<mapsto> d)"
    using store_new_frame [OF own h, of d] by (auto dest: arg_cong [of _ _ contents] arg_cong [of _ _ owned])
  moreover have "owned_of fr zf n = None" using ownsD(9) [OF own] by (simp add: owned_of_def)
  moreover have "items ?fr ?zf as = items fr zf as" "items ?fr ?zf bs = items fr zf bs" "body_of ?fr ?zf n = d"
    using body by (auto simp: body_of_def czframe_def)
  ultimately show "store_of (fr(n \<mapsto> \<lparr>f_frame = h, f_message = m, f_flags = 0\<rparr>)) ms (zf(h \<mapsto> d))
        (zl(m_frames w \<mapsto> map FO as @ FO n # map FO bs)) =
      (store_of fr ms zf zl)\<lparr>contents := (contents_of fr ms zf zl)(m \<mapsto>
        items fr zf as @ (n, d) # items fr zf bs)\<rparr>"
    using store_attach [OF own' n _ m(1,2) held] by (simp add: fun_upd_idem store_of_def del: map_eq_conv)
  show "owns (fr(n \<mapsto> \<lparr>f_frame = h, f_message = m, f_flags = 0\<rparr>)) ms (zf(h \<mapsto> d))
      (zm(m_message w \<mapsto> map (czframe fr) as @ h # map (czframe fr) bs))
      (zl(m_frames w \<mapsto> map FO as @ FO n # map FO bs)) (Suc n)"
    using owns_attach [OF own' n _ m(1,2) held] cz by simp
qed

lemma put_new_refines:
  assumes inv: "fm_inv A s" and m: "msg_at A s m w (as @ bs)" and h: "zframes (view A (lib s)) h = None"
    and frs: "frames s' = (frames s)(fresh s \<mapsto> \<lparr>f_frame = h, f_message = m, f_flags = 0\<rparr>)"
    and v: "view A (lib s') = (view A (lib s))
      \<lparr>zframes := (zframes (view A (lib s)))(h \<mapsto> d),
       zmsgs := (zmsgs (view A (lib s)))(m_message w \<mapsto> map (czframe (frames s)) as @ h # map (czframe (frames s)) bs),
       zlists := (zlists (view A (lib s)))(m_frames w \<mapsto> map FO as @ FO (fresh s) # map FO bs)\<rparr>"
    and rest: "msgs s' = msgs s" "fresh s' = Suc (fresh s)"
  shows "fm_inv A s'"
    and "abs_store A s' = (abs_store A s)\<lparr>contents := (contents (abs_store A s))(m \<mapsto>
        items (frames s) (zframes (view A (lib s))) as @ (fresh s, d) #
        items (frames s) (zframes (view A (lib s))) bs)\<rparr>"
  using owns_put_new [OF fm_invD [OF inv] h msg_atD(1,2,6) [OF m], of d]
  by (simp_all add: fm_inv_def abs_store_def frs v rest)

lemma attach_new_frame_run [simp]:
  "fresh s \<noteq> NULL \<Longrightarrow> attach_new_frame m h k s =
     k (Object rb_cZmqFrame (fresh s))
       (s\<lparr>fresh := Suc (fresh s), frames := (frames s)(fresh s \<mapsto> \<lparr>f_frame = h, f_message = m, f_flags = 0\<rparr>)\<rparr>)"
  by (simp add: attach_new_frame_def rb_czmq_alloc_frame_def call_def)

lemma pushstr_refines:
  fixes d :: string
  assumes doc: "lib_doc A" and inv: "fm_inv A s" and m: "contents (abs_store A s) m = Some xs"
  defines "r \<equiv> rb_czmq_message_pushstr A (Object rb_cZmqMessage m) (RString d) s"
  shows "if mem_fails (zmsg_pushmem A) A s m d then refused A r (abs_store A s)
    else steps_to A r Qtrue
      ((abs_store A s)\<lparr>contents := (contents (abs_store A s))(m \<mapsto> (fresh s, d) # xs)\<rparr>)"
proof -
  let ?v = "view A (lib s)" and ?w0 = "set_errno A 0 (lib s)"
  obtain w ps where m: "msg_at A s m w ps" and xs: "xs = items (frames s) (zframes ?v) ps"
    by (rule contentsE [OF inv m])
  note at = msg_atD [OF m]
  have v0: "view A ?w0 = ?v" by (simp add: zframe_docD lib_docD doc)
  obtain rc w1 where call: "zmsg_pushmem A (m_message w) d ?w0 = (rc, w1)" by fastforce
  have mem: "zmsg_mem_doc A ?w0 (m_message w) (\<lambda>f. f # map (czframe (frames s)) ps) d (rc, w1)"
    using zmsg_liveD(7) [of A ?w0 "m_message w" "map (czframe (frames s)) ps" d] doc at v0 call
    by (simp add: lib_docD)
  have n: "fresh s \<noteq> NULL" by (rule ownsD(1) [OF fm_invD [OF inv]])
  have fail: "mem_fails (zmsg_pushmem A) A s m d \<longleftrightarrow> rc \<noteq> 0" using at call by (simp add: mem_fails_def)
  note step = r_def rb_czmq_message_pushstr_def at v0 call n
  show ?thesis
  proof (cases "rc = 0")
    case True
    then obtain h where h: "zframes ?v h = None"
      and v1: "view A w1 = ?v\<lparr>zframes := (zframes ?v)(h \<mapsto> d),
        zmsgs := (zmsgs ?v)(m_message w \<mapsto> h # map (czframe (frames s)) ps)\<rparr>"
      using mem v0 by (auto simp: zmsg_mem_doc_def)
    have live: "zmsgs (view A w1) (m_message w) = Some (h # map (czframe (frames s)) ps)" using v1 by simp
    obtain w2 where first: "zmsg_first A (m_message w) w1 = (h, w2)" and v2: "view A w2 = view A w1"
      using zmsg_liveD(12,13) [OF lib_docD(3) [OF doc] live]
      by (cases "zmsg_first A (m_message w) w1") simp
    have v3: "view A (zlist_push A (m_frames w) (FO (fresh s)) w2) =
        (view A w1)\<lparr>zlists := (zlists ?v)(m_frames w \<mapsto> FO (fresh s) # map FO ps)\<rparr>"
      using zlist_liveD(1) [of A w2 "m_frames w" "map FO ps"] doc at v1 v2 by (simp add: lib_docD)
    show ?thesis
      using put_new_refines [OF inv _ h, of m w "[]" ps] m by (simp add: step True first v1 v2 v3 xs fail)
  next
    case False
    have "rc = -1" "view A w1 = ?v" using mem v0 False by (simp_all add: zmsg_mem_doc_def)
    then show ?thesis using inv by (simp add: step fail)
  qed
qed

lemma addstr_refines:
  fixes d :: string
  assumes doc: "lib_doc A" and inv: "fm_inv A s" and m: "contents (abs_store A s) m = Some xs"
  defines "r \<equiv> rb_czmq_message_addstr A (Object rb_cZmqMessage m) (RString d) s"
  shows "if mem_fails (zmsg_addmem A) A s m d then refused A r (abs_store A s)
    else steps_to A r Qtrue
      ((abs_store A s)\<lparr>contents := (contents (abs_store A s))(m \<mapsto> xs @ [(fresh s, d)])\<rparr>)"
proof -
  let ?v = "view A (lib s)" and ?w0 = "set_errno A 0 (lib s)"
  obtain w ps where m: "msg_at A s m w ps" and xs: "xs = items (frames s) (zframes ?v) ps"
    by (rule contentsE [OF inv m])
  note at = msg_atD [OF m]
  have v0: "view A ?w0 = ?v" by (simp add: zframe_docD lib_docD doc)
  obtain rc w1 where call: "zmsg_addmem A (m_message w) d ?w0 = (rc, w1)" by fastforce
  have mem: "zmsg_mem_doc A ?w0 (m_message w) (\<lambda>f. map (czframe (frames s)) ps @ [f]) d (rc, w1)"
    using zmsg_liveD(8) [of A ?w0 "m_message w" "map (czframe (frames s)) ps" d] doc at v0 call
    by (simp add: lib_docD)
  have n: "fresh s \<noteq> NULL" by (rule ownsD(1) [OF fm_invD [OF inv]])
  have fail: "mem_fails (zmsg_addmem A) A s m d \<longleftrightarrow> rc \<noteq> 0" using at call by (simp add: mem_fails_def)
  note step = r_def rb_czmq_message_addstr_def at v0 call n
  show ?thesis
  proof (cases "rc = 0")
    case True
    then obtain h where h: "zframes ?v h = None"
      and v1: "view A w1 = ?v\<lparr>zframes := (zframes ?v)(h \<mapsto> d),
        zmsgs := (zmsgs ?v)(m_message w \<mapsto> map (czframe (frames s)) ps @ [h])\<rparr>"
      using mem v0 by (auto simp: zmsg_mem_doc_def)
    have live: "zmsgs (view A w1) (m_message w) = Some (map (czframe (frames s)) ps @ [h])" using v1 by simp
    obtain w2 where last: "zmsg_last A (m_message w) w1 = (h, w2)" and v2: "view A w2 = view A w1"
      using zmsg_liveD(14,15) [OF lib_docD(3) [OF doc] live]
      by (cases "zmsg_last A (m_message w) w1") simp
    have v3: "view A (zlist_append A (m_frames w) (FO (fresh s)) w2) =
        (view A w1)\<lparr>zlists := (zlists ?v)(m_frames w \<mapsto> map FO ps @ [FO (fresh s)])\<rparr>"
      using zlist_liveD(2) [of A w2 "m_frames w" "map FO ps"] doc at v1 v2 by (simp add: lib_docD)
    show ?thesis
      using put_new_refines [OF inv _ h, of m w ps "[]"] m by (simp add: step True last v1 v2 v3 xs fail)
  next
    case False
    have "rc = -1" "view A w1 = ?v" using mem v0 False by (simp_all add: zmsg_mem_doc_def)
    then show ?thesis using inv by (simp add: step fail)
  qed
qed

section \<open>Taking frames out\<close>

lemma take_refines:
  assumes inv: "fm_inv A s" and m: "msg_at A s m w (as @ p # bs)"
    and frs: "frames s' = (frames s)(p \<mapsto> \<lparr>f_frame = czframe (frames s) p, f_message = NULL, f_flags = 1\<rparr>)"
    and v: "view A (lib s') = (view A (lib s))
      \<lparr>zmsgs := (zmsgs (view A (lib s)))(m_message w \<mapsto> map (czframe (frames s)) (as @ bs)),
       zlists := (zlists (view A (lib s)))(m_frames w \<mapsto> map FO (as @ bs))\<rparr>"
    and rest: "msgs s' = msgs s" "fresh s' = fresh s"
  shows "fm_inv A s'"
    and "abs_store A s' =
      \<lparr>owned = (owned (abs_store A s))(p \<mapsto> body_of (frames s) (zframes (view A (lib s))) p),
       contents = (contents (abs_store A s))(m \<mapsto> items (frames s) (zframes (view A (lib s))) (as @ bs))\<rparr>"
  using owns_detach [OF fm_invD [OF inv] msg_atD(1,2,6) [OF m]]
    store_detach [OF fm_invD [OF inv] msg_atD(1,2,6) [OF m]]
  by (simp_all add: fm_inv_def abs_store_def frs v rest)

text \<open>A frame object of a message, at its address.\<close>

lemma held_frame:
  assumes "fm_inv A s" and "msg_at A s m w ps" and "p \<in> set ps"
  obtains f where "frames s p = Some f" "f_flags f = 0" "f_message f = m" "p \<noteq> NULL"
    "czframe (frames s) p = f_frame f" "f_frame f \<noteq> NULL \<or> zframes (view A (lib s)) NULL \<noteq> None"
    "zframes (view A (lib s)) (f_frame f) = Some (body_of (frames s) (zframes (view A (lib s))) p)"
proof -
  obtain f where f: "frames s p = Some f" "f_flags f = 0" "f_message f = m"
    and live: "zframes (view A (lib s)) (f_frame f) \<noteq> None"
    using assms(2,3) by (auto simp: msg_at_def holds_frames_def)
  have "p \<noteq> NULL" using ownsD(7) [OF fm_invD [OF assms(1)]] f(1) by (rule live_not_null)
  moreover have "czframe (frames s) p = f_frame f" using f by (simp add: czframe_def)
  ultimately show thesis
    using f live by (intro that [of f]) (auto simp: body_of_def)
qed

lemma pop_refines:
  assumes doc: "lib_doc A" and inv: "fm_inv A s" and m: "contents (abs_store A s) m = Some ((p, b) # xs)"
  shows "steps_to A (rb_czmq_message_pop A (Object rb_cZmqMessage m) s) (Object rb_cZmqFrame p)
    \<lparr>owned = (owned (abs_store A s))(p \<mapsto> b), contents = (contents (abs_store A s))(m \<mapsto> xs)\<rparr>"
proof -
  let ?v = "view A (lib s)"
  obtain w qs where m: "msg_at A s m w qs" and "(p, b) # xs = items (frames s) (zframes ?v) qs"
    by (rule contentsE [OF inv m])
  then obtain ps where qs: "qs = p # ps" and b: "b = body_of (frames s) (zframes ?v) p"
    and xs: "xs = items (frames s) (zframes ?v) ps"
    by (cases qs) auto
  note m = m [unfolded qs]
  note at = msg_atD [OF m]
  obtain f where f: "frames s p = Some f" "f_flags f = 0" "f_message f = m" "p \<noteq> NULL"
    "czframe (frames s) p = f_frame f" "f_frame f \<noteq> NULL \<or> zframes ?v NULL \<noteq> None"
    by (rule held_frame [OF inv m, of p]) simp_all
  have nn: "f_frame f \<noteq> NULL" using f(6) zframe_docD(3) [OF lib_docD(2) [OF doc]] by simp
  obtain w1 where pop: "zmsg_pop A (m_message w) (lib s) = (czframe (frames s) p, w1)"
    and v1: "view A w1 = ?v\<lparr>zmsgs := (zmsgs ?v)(m_message w \<mapsto> map (czframe (frames s)) ps)\<rparr>"
    using zmsg_liveD(5,6) [OF lib_docD(3) [OF doc] at(7)]
    by (cases "zmsg_pop A (m_message w) (lib s)") simp
  have live: "zlists (view A w1) (m_frames w) = Some (FO p # map FO ps)" using v1 at by simp
  obtain w2 where lpop: "zlist_pop A (m_frames w) w1 = (Some (FO p), w2)"
    and v2: "view A w2 = (view A w1)\<lparr>zlists := (zlists ?v)(m_frames w \<mapsto> map FO ps)\<rparr>"
    using zlist_liveD(5,6) [OF lib_docD(1) [OF doc] live] v1
    by (cases "zlist_pop A (m_frames w) w1") simp
  show ?thesis
    using take_refines [OF inv, of m w "[]" p ps] m
    by (simp add: rb_czmq_message_pop_def detach_frame_def at f nn pop lpop v1 v2 b xs)
qed

lemma pop_empty:
  assumes doc: "lib_doc A" and inv: "fm_inv A s" and m: "contents (abs_store A s) m = Some []"
  shows "steps_to A (rb_czmq_message_pop A (Object rb_cZmqMessage m) s) Qnil (abs_store A s)"
proof -
  let ?v = "view A (lib s)"
  obtain w ps where m: "msg_at A s m w ps" and "[] = items (frames s) (zframes ?v) ps"
    by (rule contentsE [OF inv m])
  then have m: "msg_at A s m w []" by simp
  note at = msg_atD [OF m]
  obtain w1 where "zmsg_pop A (m_message w) (lib s) = (NULL, w1)"
    and "view A w1 = ?v\<lparr>zmsgs := (zmsgs ?v)(m_message w \<mapsto> [])\<rparr>"
    using zmsg_liveD(5,6) [OF lib_docD(3) [OF doc] at(7)]
    by (cases "zmsg_pop A (m_message w) (lib s)") simp
  then show ?thesis
    using at inv by (simp add: rb_czmq_message_pop_def fun_upd_idem)
qed

lemma remove_refines:
  assumes doc: "lib_doc A" and inv: "fm_inv A s" and m: "contents (abs_store A s) m = Some (xs @ (p, b) # ys)"
  shows "steps_to A (rb_czmq_message_remove A (Object rb_cZmqMessage m) (Object rb_cZmqFrame p) s) Qnil
    \<lparr>owned = (owned (abs_store A s))(p \<mapsto> b), contents = (contents (abs_store A s))(m \<mapsto> xs @ ys)\<rparr>"
proof -
  let ?v = "view A (lib s)"
  obtain w qs where m: "msg_at A s m w qs" and "xs @ (p, b) # ys = items (frames s) (zframes ?v) qs"
    by (rule contentsE [OF inv m])
  then obtain as bs where qs: "qs = as @ p # bs" and b: "b = body_of (frames s) (zframes ?v) p"
    and xs: "xs = items (frames s) (zframes ?v) as" "ys = items (frames s) (zframes ?v) bs"
    by (auto simp: append_eq_map_conv Cons_eq_map_conv)
  note m = m [unfolded qs]
  note at = msg_atD [OF m]
  obtain f where f: "frames s p = Some f" "f_flags f = 0" "f_message f = m" "p \<noteq> NULL"
    "czframe (frames s) p = f_frame f" "zframes ?v (f_frame f) = Some (body_of (frames s) (zframes ?v) p)"
    by (rule held_frame [OF inv m, of p]) simp_all
  have "distinct (as @ p # bs)" using at(6) by (simp add: holds_frames_def)
  moreover have "inj_on (czframe (frames s)) (set (as @ p # bs))"
  proof (rule inj_onI)
    fix q q' assume "q \<in> set (as @ p # bs)" "q' \<in> set (as @ p # bs)" "czframe (frames s) q = czframe (frames s) q'"
    then show "q = q'"
      using ownsD(3) [OF fm_invD [OF inv]] held_readable [where ms = "msgs s", OF at(6,1,2,3)] by blast
  qed
  ultimately have rem: "remove1 (f_frame f) (map (czframe (frames s)) (as @ p # bs)) = map (czframe (frames s)) (as @ bs)"
    "remove1 (FO p) (map FO (as @ p # bs)) = map FO (as @ bs)"
    using f(5) by (auto simp: remove1_append)
  have v1: "view A (zmsg_remove A (m_message w) (f_frame f) (lib s)) =
      ?v\<lparr>zmsgs := (zmsgs ?v)(m_message w \<mapsto> map (czframe (frames s)) (as @ bs))\<rparr>"
    using zmsg_liveD(11) [OF lib_docD(3) [OF doc] at(7)] rem(1) by simp
  have live: "zlists (view A (zmsg_remove A (m_message w) (f_frame f) (lib s))) (m_frames w) =
      Some (map FO (as @ p # bs))"
    using v1 at by simp
  have v2: "view A (zlist_remove A (m_frames w) (FO p) (zmsg_remove A (m_message w) (f_frame f) (lib s))) =
      ?v\<lparr>zmsgs := (zmsgs ?v)(m_message w \<mapsto> map (czframe (frames s)) (as @ bs)),
        zlists := (zlists ?v)(m_frames w \<mapsto> map FO (as @ bs))\<rparr>"
    using zlist_liveD(4) [OF lib_docD(1) [OF doc] live] rem(2) v1 by simp
  show ?thesis
    using take_refines [OF inv m]
    by (simp add: rb_czmq_message_remove_def at live f v2 b xs)
qed

section \<open>Destroying messages\<close>

lemma message_freed [simp]:
  "w\<lparr>m_flags := x, m_message := h, m_frames := l\<rparr> = \<lparr>m_message = h, m_flags = x, m_frames = l\<rparr>"
  by (cases w) simp

lemma free_message_run:
  assumes doc: "lib_doc A" and inv: "fm_inv A s" and m: "msg_at A s m w ps"
  obtains s' where "rb_czmq_free_message A m s = Return () s'" "fm_inv A s'"
    "abs_store A s' = (abs_store A s)\<lparr>contents := (contents (abs_store A s))(m := None)\<rparr>"
    "msgs s' = (msgs s)(m \<mapsto> \<lparr>m_message = NULL, m_flags = 0, m_frames = NULL\<rparr>)" "frames s' = frames s"
    "zframes (view A (lib s')) = zframes (view A (lib s)) |` (- set (map (czframe (frames s)) ps))"
proof -
  let ?v = "view A (lib s)" and ?w0 = "set_errno A 0 (lib s)" and ?fs = "map (czframe (frames s)) ps"
  note at = msg_atD [OF m]
  have v0: "view A ?w0 = ?v" by (simp add: zframe_docD lib_docD doc)
  have v1: "view A (zmsg_destroy A (m_message w) ?w0) =
      ?v\<lparr>zframes := (zframes ?v) |` (- set ?fs), zmsgs := (zmsgs ?v)(m_message w := None)\<rparr>"
    using zmsg_liveD(18) [of A ?w0 "m_message w" ?fs] doc at v0 by (simp add: lib_docD)
  have live: "zlists (view A (zmsg_destroy A (m_message w) ?w0)) (m_frames w) = Some (map FO ps)"
    using v1 at by simp
  have v2: "view A (zlist_destroy A (m_frames w) (zmsg_destroy A (m_message w) ?w0)) =
      ?v\<lparr>zframes := (zframes ?v) |` (- set ?fs), zmsgs := (zmsgs ?v)(m_message w := None),
        zlists := (zlists ?v)(m_frames w := None)\<rparr>"
    using zlist_liveD(7) [OF lib_docD(1) [OF doc] live] v1 by simp
  let ?s = "s\<lparr>lib := zlist_destroy A (m_frames w) (zmsg_destroy A (m_message w) ?w0),
      msgs := (msgs s)(m \<mapsto> \<lparr>m_message = NULL, m_flags = 0, m_frames = NULL\<rparr>)\<rparr>"
  have "rb_czmq_free_message A m s = Return () ?s"
    using at v0 live by (simp add: rb_czmq_free_message_def)
  moreover have "fm_inv A ?s"
    "abs_store A ?s = (abs_store A s)\<lparr>contents := (contents (abs_store A s))(m := None)\<rparr>"
    using owns_kill_message [OF fm_invD [OF inv] at(1,2,6)] store_kill_message [OF fm_invD [OF inv] at(1,2,6)]
    by (simp_all add: fm_inv_def abs_store_def v2)
  moreover have "zframes (view A (lib ?s)) = zframes ?v |` (- set ?fs)"
    by (simp add: v2)
  ultimately show thesis by (intro that [of ?s]) simp_all
qed

lemma message_destroy_refines:
  assumes doc: "lib_doc A" and inv: "fm_inv A s" and m: "contents (abs_store A s) m = Some xs"
  shows "steps_to A (rb_czmq_message_destroy A (Object rb_cZmqMessage m) s) Qnil
    ((abs_store A s)\<lparr>contents := (contents (abs_store A s))(m := None)\<rparr>)"
proof -
  obtain w ps where m: "msg_at A s m w ps" by (rule contentsE [OF inv m])
  obtain s' where "rb_czmq_free_message A m s = Return () s'" "fm_inv A s'"
    "abs_store A s' = (abs_store A s)\<lparr>contents := (contents (abs_store A s))(m := None)\<rparr>"
    by (rule free_message_run [OF doc inv m])
  then show ?thesis
    using msg_atD [OF m] by (simp add: rb_czmq_message_destroy_def call_def)
qed

section \<open>New messages\<close>

text \<open>The frame objects the allocation loop makes for the frames of a message.\<close>

primrec fill :: "frame_heap \<Rightarrow> ptr \<Rightarrow> ptr \<Rightarrow> ptr list \<Rightarrow> frame_heap" where
  "fill fr m n [] = fr"
| "fill fr m n (h # hs) = fill (fr(n \<mapsto> \<lparr>f_frame = h, f_message = m, f_flags = 0\<rparr>)) m (Suc n) hs"

lemma upt_FO: "map FO [n..<Suc (n + k)] = FO n # map FO [Suc n..<Suc (n + k)]"
  by (simp add: upt_rec [of n])

lemma alloc_loop:
  assumes doc: "lib_doc A"
    and "zmsgs (view A (lib s)) h = Some (done @ f # rest)" "zmsg_cursor A h (lib s) = Some (length done)"
    and "zlists (view A (lib s)) l = Some xs" "NULL \<notin> set (f # rest)" "fresh s \<noteq> NULL"
  shows "\<exists>w'. while_do (\<lambda>zframe. zframe \<noteq> NULL)
       (\<lambda>zframe.
          attach_new_frame m zframe (\<lambda>frame_object.
          live_list A l (
          tell (zlist_append A l (VAL frame_object)) (
          live_msg A h (
          invoke (zmsg_next A h) (\<lambda>next_frame. ret next_frame)))))) k f s =
      k NULL (s\<lparr>lib := w', fresh := fresh s + Suc (length rest),
                frames := fill (frames s) m (fresh s) (f # rest)\<rparr>) \<and>
    view A w' = (view A (lib s))
      \<lparr>zlists := (zlists (view A (lib s)))(l \<mapsto> xs @ map FO [fresh s..<fresh s + Suc (length rest)])\<rparr>"
  using assms(2-)
proof (induction rest arbitrary: "done" f s xs)
  case (Cons g rest)
  let ?w1 = "zlist_append A l (FO (fresh s)) (lib s)"
  have v1: "view A ?w1 = (view A (lib s))\<lparr>zlists := (zlists (view A (lib s)))(l \<mapsto> xs @ [FO (fresh s)])\<rparr>"
    and c1: "zmsg_cursor A h ?w1 = Some (length done)"
    using zlist_liveD(2,3) [OF lib_docD(1) [OF doc] Cons.prems(3)] Cons.prems(2) by simp_all
  have live: "zmsgs (view A ?w1) h = Some (done @ f # g # rest)" using v1 Cons.prems(1) by simp
  obtain w2 where nxt: "zmsg_next A h ?w1 = (g, w2)" and v2: "view A w2 = view A ?w1"
    and c2: "zmsg_cursor A h w2 = Some (Suc (length done))"
    using zmsg_liveD(16) [OF lib_docD(3) [OF doc] live] zmsg_cursorD(2,3) [OF lib_docD(3) [OF doc] live c1]
    by (cases "zmsg_next A h ?w1") (simp add: nth_append)
  let ?s = "s\<lparr>lib := w2, fresh := Suc (fresh s),
      frames := (frames s)(fresh s \<mapsto> \<lparr>f_frame = f, f_message = m, f_flags = 0\<rparr>)\<rparr>"
  have IH: "zmsgs (view A (lib ?s)) h = Some ((done @ [f]) @ g # rest)"
    "zmsg_cursor A h (lib ?s) = Some (length (done @ [f]))"
    "zlists (view A (lib ?s)) l = Some (xs @ [FO (fresh s)])" "NULL \<notin> set (g # rest)" "fresh ?s \<noteq> NULL"
    using live v1 v2 c2 Cons.prems by simp_all
  from Cons.IH [OF IH] obtain w' where
    "while_do (\<lambda>zframe. zframe \<noteq> NULL)
       (\<lambda>zframe.
          attach_new_frame m zframe (\<lambda>frame_object.
          live_list A l (
          tell (zlist_append A l (VAL frame_object)) (
          live_msg A h (
          invoke (zmsg_next A h) (\<lambda>next_frame. ret next_frame)))))) k g ?s =
      k NULL (?s\<lparr>lib := w', fresh := fresh ?s + Suc (length rest), frames := fill (frames ?s) m (fresh ?s) (g # rest)\<rparr>)"
    and "view A w' = (view A (lib ?s))
      \<lparr>zlists := (zlists (view A (lib ?s)))(l \<mapsto> (xs @ [FO (fresh s)]) @ map FO [fresh ?s..<fresh ?s + Suc (length rest)])\<rparr>"
    by blast
  moreover have "f \<noteq> NULL" using Cons.prems by auto
  ultimately show ?case
    using Cons.prems live nxt v1 v2 upt_FO [of "fresh s" "Suc (length rest)"]
    by (subst while_do_step [where y = g and s' = ?s]) (auto simp del: upt_Suc intro!: exI [of _ w'])
next
  case Nil
  let ?w1 = "zlist_append A l (FO (fresh s)) (lib s)"
  have v1: "view A ?w1 = (view A (lib s))\<lparr>zlists := (zlists (view A (lib s)))(l \<mapsto> xs @ [FO (fresh s)])\<rparr>"
    and c1: "zmsg_cursor A h ?w1 = Some (length done)"
    using zlist_liveD(2,3) [OF lib_docD(1) [OF doc] Nil.prems(3)] Nil.prems(2) by simp_all
  have live: "zmsgs (view A ?w1) h = Some (done @ [f])" using v1 Nil.prems(1) by simp
  obtain w2 where nxt: "zmsg_next A h ?w1 = (NULL, w2)" and v2: "view A w2 = view A ?w1"
    using zmsg_liveD(16) [OF lib_docD(3) [OF doc] live] zmsg_cursorD(2) [OF lib_docD(3) [OF doc] live c1]
    by (cases "zmsg_next A h ?w1") simp
  let ?s = "s\<lparr>lib := w2, fresh := Suc (fresh s),
      frames := (frames s)(fresh s \<mapsto> \<lparr>f_frame = f, f_message = m, f_flags = 0\<rparr>)\<rparr>"
  have "f \<noteq> NULL" using Nil.prems by auto
  then show ?case
    using Nil.prems live nxt v1 v2
    by (subst while_do_step [where y = NULL and s' = ?s]) (auto simp: while_do_stop intro!: exI [of _ w2])
qed

lemma owns_fill:
  assumes "owns fr ms zf zm zl n" "ms m = Some w" "m_flags w = 1" "holds_frames fr zf zm zl m w ps"
    and "distinct hs" "\<forall>h\<in>set hs. zf h = None" "length bs = length hs"
  shows "owns (fill fr m n hs) ms (zf ++ map_of (zip hs bs))
      (zm(m_message w \<mapsto> map (czframe fr) ps @ hs))
      (zl(m_frames w \<mapsto> map FO ps @ map FO [n..<n + length hs])) (n + length hs) \<and>
    store_of (fill fr m n hs) ms (zf ++ map_of (zip hs bs))
      (zl(m_frames w \<mapsto> map FO ps @ map FO [n..<n + length hs])) =
    (store_of fr ms zf zl)\<lparr>contents := (contents_of fr ms zf zl)(m \<mapsto>
      items fr zf ps @ zip [n..<n + length hs] bs)\<rparr>"
  using assms
proof (induction hs arbitrary: fr zf zm zl ps n bs)
  case Nil
  have "zm(m_message w \<mapsto> map (czframe fr) ps) = zm" "zl(m_frames w \<mapsto> map FO ps) = zl"
    using Nil.prems(4) by (auto simp: holds_frames_def)
  moreover have "(contents_of fr ms zf zl)(m \<mapsto> items fr zf ps) = contents_of fr ms zf zl"
    using contents_holds [where ms = ms, OF Nil.prems(4,2,3)] by auto
  ultimately show ?case using Nil.prems by simp
next
  case (Cons h hs)
  obtain b bs' where bs: "bs = b # bs'" "length bs' = length hs" using Cons.prems(7) by (cases bs) auto
  let ?fr = "fr(n \<mapsto> \<lparr>f_frame = h, f_message = m, f_flags = 0\<rparr>)" and ?zf = "zf(h \<mapsto> b)"
    and ?zm = "zm(m_message w \<mapsto> map (czframe fr) ps @ [h])" and ?zl = "zl(m_frames w \<mapsto> map FO ps @ [FO n])"
  have h: "zf h = None" using Cons.prems(6) by simp
  have ps: "holds_frames fr zf zm zl m w (ps @ [])" using Cons.prems(4) by simp
  have own: "owns ?fr ms ?zf ?zm ?zl (Suc n)"
    and st: "store_of ?fr ms ?zf ?zl =
      (store_of fr ms zf zl)\<lparr>contents := (contents_of fr ms zf zl)(m \<mapsto> items fr zf ps @ [(n, b)])\<rparr>"
    using owns_put_new [OF Cons.prems(1) h Cons.prems(2,3) ps] by simp_all
  obtain qs where "holds_frames ?fr ?zf ?zm ?zl m w qs"
    by (rule owned_messageE [OF own Cons.prems(2,3)])
  moreover from this have "qs = ps @ [n]"
    using map_FO_inject [of qs "ps @ [n]"] by (simp add: holds_frames_def)
  ultimately have held: "holds_frames ?fr ?zf ?zm ?zl m w (ps @ [n])" by simp
  have cz: "map (czframe ?fr) (ps @ [n]) = map (czframe fr) ps @ [h]"
    using held by (simp add: holds_frames_def)
  have "contents_of ?fr ms ?zf ?zl m = Some (items ?fr ?zf (ps @ [n]))"
    by (rule contents_holds [where ms = ms, OF held Cons.prems(2,3)])
  then have it: "items ?fr ?zf (ps @ [n]) = items fr zf ps @ [(n, b)]"
    using arg_cong [OF st, of "\<lambda>st. contents st m"] by simp
  have new: "\<forall>g\<in>set hs. ?zf g = None" using Cons.prems(5,6) by auto
  have "h \<notin> dom (map_of (zip hs bs'))" using Cons.prems(5) bs by (simp add: dom_map_of_zip)
  then have zf: "?zf ++ map_of (zip hs bs') = zf ++ map_of (zip (h # hs) bs)"
    using bs by (simp add: map_add_upd_left)
  have split: "[n..<Suc n + length hs] = n # [Suc n..<Suc n + length hs]"
    by (simp add: upt_conv_Cons del: upt_Suc)
  have con: "contents_of ?fr ms ?zf ?zl = (contents_of fr ms zf zl)(m \<mapsto> items fr zf ps @ [(n, b)])"
    and ow: "owned_of ?fr ?zf = owned_of fr zf"
    using arg_cong [OF st, of contents] arg_cong [OF st, of owned] by simp_all
  have len: "n + length (h # hs) = Suc n + length hs" by simp
  have "distinct hs" using Cons.prems(5) by simp
  from Cons.IH [OF own Cons.prems(2,3) held this new bs(2)] show ?case
    unfolding len split cz it zf st con bs(1) fill.simps fun_upd_upd
    by (simp only: append_assoc append_Cons append_Nil list.map map_append zip_Cons_Cons
        store.update_convs store_of_def)
qed

text \<open>
  The body of the allocation: a new struct, a new list, and the loop over the frames of the message.
\<close>

lemma alloc_message_run:
  assumes doc: "lib_doc A" and h: "h \<noteq> NULL" and hs: "NULL \<notin> set hs"
    and v1: "view A w1 = (view A (lib s))\<lparr>zframes := zf, zmsgs := (zmsgs (view A (lib s)))(h \<mapsto> hs)\<rparr>"
  obtains w' l where "l \<noteq> NULL" "zlists (view A (lib s)) l = None"
    "rb_czmq_alloc_message A h (s\<lparr>lib := w1\<rparr>) = Return (Object rb_cZmqMessage (fresh s))
       (s\<lparr>msgs := (msgs s)(fresh s \<mapsto> \<lparr>m_message = h, m_flags = 1, m_frames = l\<rparr>), lib := w',
          fresh := Suc (fresh s) + length hs, frames := fill (frames s) (fresh s) (Suc (fresh s)) hs\<rparr>)"
    "view A w' = (view A w1)\<lparr>zlists := (zlists (view A (lib s)))(l \<mapsto> map FO [Suc (fresh s)..<Suc (fresh s) + length hs])\<rparr>"
proof -
  let ?m = "fresh s"
  let ?w2 = "set_errno A 0 w1"
  have v2: "view A ?w2 = view A w1" by (simp add: zframe_docD lib_docD doc)
  obtain l w3 where nl: "zlist_new A ?w2 = (l, w3)" by fastforce
  have l: "l \<noteq> NULL" "zlists (view A (lib s)) l = None" and v3: "view A w3 = (view A w1)\<lparr>zlists := (zlists (view A (lib s)))(l \<mapsto> [])\<rparr>"
    using zlist_newD [OF lib_docD(1) [OF doc], where w = ?w2] nl v1 v2 by simp_all
  have live: "zmsgs (view A w3) h = Some hs" using v3 v1 by simp
  obtain f w4 where fst: "zmsg_first A h w3 = (f, w4)" by fastforce
  have f: "f = (case hs of [] \<Rightarrow> NULL | f # _ \<Rightarrow> f)" and v4: "view A w4 = view A w3"
    and c4: "hs \<noteq> [] \<Longrightarrow> zmsg_cursor A h w4 = Some 0"
    using zmsg_liveD(12,13) [OF lib_docD(3) [OF doc] live] zmsg_cursorD(1) [OF lib_docD(3) [OF doc] live] fst
    by simp_all
  let ?W = "\<lparr>m_message = h, m_flags = 1, m_frames = l\<rparr>"
  let ?s = "s\<lparr>fresh := Suc ?m, msgs := (msgs s)(?m \<mapsto> ?W), lib := w4\<rparr>"
  have "\<exists>w'. rb_czmq_alloc_message A h (s\<lparr>lib := w1\<rparr>) =
      Return (Object rb_cZmqMessage ?m) (?s\<lparr>lib := w', fresh := Suc ?m + length hs,
        frames := fill (frames s) ?m (Suc ?m) hs\<rparr>) \<and>
      view A w' = (view A w1)\<lparr>zlists := (zlists (view A (lib s)))(l \<mapsto> map FO [Suc ?m..<Suc ?m + length hs])\<rparr>"
  proof (cases hs)
    case Nil
    have "rb_czmq_alloc_message A h (s\<lparr>lib := w1\<rparr>) = Return (Object rb_cZmqMessage ?m) ?s"
      using Nil h nl fst live f by (simp add: rb_czmq_alloc_message_def while_do_stop)
    then show ?thesis using Nil v3 v4 by (auto intro!: exI [of _ w4])
  next
    case (Cons g rest)
    have pre: "zmsgs (view A (lib ?s)) h = Some ([] @ g # rest)" "zmsg_cursor A h (lib ?s) = Some (length [])"
      "zlists (view A (lib ?s)) l = Some []" "NULL \<notin> set (g # rest)" "fresh ?s \<noteq> NULL"
      using Cons live v4 v3 c4 hs by simp_all
    obtain w' where "while_do (\<lambda>zframe. zframe \<noteq> NULL)
       (\<lambda>zframe.
          attach_new_frame ?m zframe (\<lambda>frame_object.
          live_list A l (
          tell (zlist_append A l (VAL frame_object)) (
          live_msg A h (
          invoke (zmsg_next A h) (\<lambda>next_frame. ret next_frame))))))
       (\<lambda>_. ret (Object rb_cZmqMessage ?m)) g ?s =
       Return (Object rb_cZmqMessage ?m) (?s\<lparr>lib := w', fresh := Suc ?m + length hs,
         frames := fill (frames s) ?m (Suc ?m) hs\<rparr>)"
      and "view A w' = (view A w1)\<lparr>zlists := (zlists (view A (lib s)))(l \<mapsto> map FO [Suc ?m..<Suc ?m + length hs])\<rparr>"
      using alloc_loop [OF doc pre, of ?m "\<lambda>_. ret (Object rb_cZmqMessage ?m)"] Cons v4 v3
      by (auto simp del: upt_Suc)
    then show ?thesis
      using Cons h nl fst live f by (auto simp: rb_czmq_alloc_message_def simp del: upt_Suc)
  qed
  then show thesis using that [OF l] by auto
qed

lemma alloc_message_refines:
  assumes doc: "lib_doc A" and inv: "fm_inv A s" and alloc: "zmsg_alloc_doc A (lib s) bs (h, w1)" and h: "h \<noteq> NULL"
  shows "steps_to A (rb_czmq_alloc_message A h (s\<lparr>lib := w1\<rparr>)) (Object rb_cZmqMessage (fresh s))
    ((abs_store A s)\<lparr>contents := (contents (abs_store A s))(fresh s \<mapsto>
      zip [Suc (fresh s)..<Suc (fresh s) + length bs] bs)\<rparr>)"
proof -
  let ?v = "view A (lib s)" and ?m = "fresh s"
  from alloc h obtain hs where hn: "zmsgs ?v h = None" and hs: "length hs = length bs" "distinct hs" "NULL \<notin> set hs"
    "\<forall>f\<in>set hs. zframes ?v f = None"
    and v1: "view A w1 = ?v\<lparr>zframes := zframes ?v ++ map_of (zip hs bs), zmsgs := (zmsgs ?v)(h \<mapsto> hs)\<rparr>"
    by (auto simp: zmsg_alloc_doc_def)
  obtain w' l where l: "l \<noteq> NULL" "zlists ?v l = None"
    and ret: "rb_czmq_alloc_message A h (s\<lparr>lib := w1\<rparr>) = Return (Object rb_cZmqMessage ?m)
      (s\<lparr>msgs := (msgs s)(?m \<mapsto> \<lparr>m_message = h, m_flags = 1, m_frames = l\<rparr>), lib := w',
         fresh := Suc ?m + length hs, frames := fill (frames s) ?m (Suc ?m) hs\<rparr>)"
    and v': "view A w' = (view A w1)\<lparr>zlists := (zlists ?v)(l \<mapsto> map FO [Suc ?m..<Suc ?m + length hs])\<rparr>"
    by (rule alloc_message_run [OF doc h hs(3) v1])
  let ?W = "\<lparr>m_message = h, m_flags = 1, m_frames = l\<rparr>"
  have own: "owns (frames s) ((msgs s)(?m \<mapsto> ?W)) (zframes ?v) ((zmsgs ?v)(h \<mapsto> [])) ((zlists ?v)(l \<mapsto> [])) (Suc ?m)"
    by (rule owns_new_message [OF fm_invD [OF inv] hn h l(2,1)])
  have held: "holds_frames (frames s) (zframes ?v) ((zmsgs ?v)(h \<mapsto> [])) ((zlists ?v)(l \<mapsto> [])) ?m ?W []"
    by (simp add: holds_frames_def)
  have st: "store_of (frames s) ((msgs s)(?m \<mapsto> ?W)) (zframes ?v) ((zlists ?v)(l \<mapsto> [])) =
      (abs_store A s)\<lparr>contents := (contents (abs_store A s))(?m \<mapsto> [])\<rparr>"
    using store_new_message [OF fm_invD [OF inv] l(2,1)] by (simp add: abs_store_def)
  have con: "contents_of (frames s) ((msgs s)(?m \<mapsto> ?W)) (zframes ?v) ((zlists ?v)(l \<mapsto> [])) =
      (contents (abs_store A s))(?m \<mapsto> [])"
    using arg_cong [OF st, of contents] by simp
  show ?thesis
    using owns_fill [OF own _ _ held hs(2,4) hs(1) [symmetric]]
    by (simp add: ret fm_inv_def abs_store_def v' v1 hs(1) del: upt_Suc)
      (simp add: st [unfolded abs_store_def] con [unfolded abs_store_def] abs_store_def del: upt_Suc)
qed

lemma alloc_null_refused:
  assumes doc: "lib_doc A" and inv: "fm_inv A s" and v: "view A w1 = view A (lib s)"
  shows "refused A (rb_czmq_alloc_message A NULL (s\<lparr>lib := w1\<rparr>)) (abs_store A s)"
proof -
  have n: "msgs s (fresh s) = None" by (rule ownsD(10) [OF fm_invD [OF inv]])
  have v0: "view A (set_errno A 0 w1) = view A (lib s)" by (simp add: zframe_docD lib_docD doc v)
  have "owns (frames s) (msgs s) (zframes (view A (lib s))) (zmsgs (view A (lib s)))
      (zlists (view A (lib s))) (Suc (fresh s))"
    by (rule owns_frames_mono [OF fm_invD [OF inv]]) simp_all
  then show ?thesis
    using n v0 by (simp add: rb_czmq_alloc_message_def ZmqAssertObjOnAlloc_def ZmqAssertSysError_def
        fm_inv_def abs_store_def fun_upd_idem)
qed

lemma message_new_refines:
  assumes doc: "lib_doc A" and inv: "fm_inv A s"
  shows "if fst (zmsg_new A (lib s)) = NULL then refused A (rb_czmq_message_new A s) (abs_store A s)
    else steps_to A (rb_czmq_message_new A s) (Object rb_cZmqMessage (fresh s))
      ((abs_store A s)\<lparr>contents := (contents (abs_store A s))(fresh s \<mapsto> [])\<rparr>)"
proof -
  obtain h w1 where call: "zmsg_new A (lib s) = (h, w1)" by fastforce
  have alloc: "zmsg_alloc_doc A (lib s) [] (h, w1)"
    using zmsg_newD(2) [OF lib_docD(3) [OF doc], of "lib s"] call by simp
  show ?thesis
  proof (cases "h = NULL")
    case True
    then show ?thesis using True alloc inv by (simp add: rb_czmq_message_new_def call zmsg_alloc_doc_def)
  next
    case False
    then show ?thesis
      using alloc_message_refines [OF doc inv alloc False] by (simp add: rb_czmq_message_new_def call)
  qed
qed

lemma bodies_items [simp]: "bodies v (map (czframe fr) ps) = map snd (items fr (zframes v) ps)"
  by (simp add: bodies_def body_of_def)

lemma message_dup_refines:
  assumes doc: "lib_doc A" and inv: "fm_inv A s" and m: "contents (abs_store A s) m = Some xs"
  defines "r \<equiv> rb_czmq_message_dup A (Object rb_cZmqMessage m) s"
  shows "if dup_fails A s m then refused A r (abs_store A s)
    else steps_to A r (Object rb_cZmqMessage (fresh s))
      ((abs_store A s)\<lparr>contents := (contents (abs_store A s))(fresh s \<mapsto>
        zip [Suc (fresh s)..<Suc (fresh s) + length xs] (map snd xs))\<rparr>)"
proof -
  obtain w ps where m: "msg_at A s m w ps" and xs: "xs = items (frames s) (zframes (view A (lib s))) ps"
    by (rule contentsE [OF inv m])
  note at = msg_atD [OF m]
  obtain h w1 where call: "zmsg_dup A (m_message w) (lib s) = (h, w1)" by fastforce
  have alloc: "zmsg_alloc_doc A (lib s) (map snd xs) (h, w1)"
    using zmsg_liveD(17) [OF lib_docD(3) [OF doc] at(7)] call xs by simp
  have run: "r = rb_czmq_alloc_message A h (s\<lparr>lib := w1\<rparr>)" and fail: "dup_fails A s m \<longleftrightarrow> h = NULL"
    using at call by (simp_all add: r_def rb_czmq_message_dup_def dup_fails_def)
  show ?thesis
  proof (cases "h = NULL")
    case True
    then show ?thesis using True alloc alloc_null_refused [OF doc inv, of w1] by (simp add: run fail zmsg_alloc_doc_def)
  next
    case False
    then show ?thesis using alloc_message_refines [OF doc inv alloc False] False by (simp add: run fail del: upt_Suc)
  qed
qed

lemma decode_refines:
  fixes cs :: string
  assumes doc: "lib_doc A" and inv: "fm_inv A s" and alloc: "zmsg_alloc_doc A (lib s) bs (zmsg_decode A cs (lib s))"
  defines "r \<equiv> rb_czmq_message_s_decode A (RString cs) s"
  shows "if fst (zmsg_decode A cs (lib s)) = NULL then steps_to A r Qnil (abs_store A s)
    else steps_to A r (Object rb_cZmqMessage (fresh s))
      ((abs_store A s)\<lparr>contents := (contents (abs_store A s))(fresh s \<mapsto>
        zip [Suc (fresh s)..<Suc (fresh s) + length bs] bs)\<rparr>)"
proof -
  obtain h w1 where call: "zmsg_decode A cs (lib s) = (h, w1)" by fastforce
  show ?thesis
  proof (cases "h = NULL")
    case True
    then show ?thesis using alloc inv by (simp add: r_def rb_czmq_message_s_decode_def call zmsg_alloc_doc_def)
  next
    case False
    then show ?thesis
      using alloc_message_refines [OF doc inv, of bs h w1] alloc
      by (simp add: r_def rb_czmq_message_s_decode_def call del: upt_Suc)
  qed
qed

lemma wrap_refines:
  assumes doc: "lib_doc A" and inv: "fm_inv A s"
    and m: "contents (abs_store A s) m = Some xs" and p: "owned (abs_store A s) p = Some b"
  shows "steps_to A (rb_czmq_message_wrap A (Object rb_cZmqMessage m) (Object rb_cZmqFrame p) s) Qnil
      \<lparr>owned = (owned (abs_store A s))(p := None),
       contents = (contents (abs_store A s))(m \<mapsto> (p, b) # (fresh s, []) # xs)\<rparr>"
proof -
  let ?v = "view A (lib s)" and ?w0 = "set_errno A 0 (lib s)" and ?n = "fresh s"
  obtain w ps where m: "msg_at A s m w ps" and xs: "xs = items (frames s) (zframes ?v) ps"
    by (rule contentsE [OF inv m])
  obtain f where p: "frame_at A s p f b" by (rule ownedE [OF inv p])
  note at = msg_atD [OF m] frame_atD [OF p]
  let ?fs = "map (czframe (frames s)) ps"
  have v0: "view A ?w0 = ?v" by (simp add: zframe_docD lib_docD doc)
  obtain e where e: "zframes ?v e = None" "e \<noteq> NULL"
    and v1: "view A (zmsg_wrap A (m_message w) (f_frame f) ?w0) =
      ?v\<lparr>zframes := (zframes ?v)(e \<mapsto> []), zmsgs := (zmsgs ?v)(m_message w \<mapsto> f_frame f # e # ?fs)\<rparr>"
    using zmsg_wrapD [OF lib_docD(3) [OF doc], of ?w0 "m_message w" ?fs "f_frame f"] at v0 by auto
  let ?w1 = "zmsg_wrap A (m_message w) (f_frame f) ?w0"
  have live: "zmsgs (view A ?w1) (m_message w) = Some (f_frame f # e # ?fs)" using v1 by simp
  obtain g w2 where first: "zmsg_first A (m_message w) ?w1 = (g, w2)" by fastforce
  have v2: "view A w2 = view A ?w1" and c2: "zmsg_cursor A (m_message w) w2 = Some 0"
    using zmsg_liveD(13) [OF lib_docD(3) [OF doc] live] zmsg_cursorD(1) [OF lib_docD(3) [OF doc] live] first
    by simp_all
  have live2: "zmsgs (view A w2) (m_message w) = Some (f_frame f # e # ?fs)" using live v2 by simp
  obtain w3 where nxt: "zmsg_next A (m_message w) w2 = (e, w3)" and v3: "view A w3 = view A w2"
    using zmsg_liveD(16) [OF lib_docD(3) [OF doc] live2] zmsg_cursorD(2) [OF lib_docD(3) [OF doc] live2 c2]
    by (cases "zmsg_next A (m_message w) w2") simp
  let ?w4 = "zlist_push A (m_frames w) (FO ?n) w3"
  have v4: "view A ?w4 = (view A ?w1)\<lparr>zlists := (zlists ?v)(m_frames w \<mapsto> FO ?n # map FO ps)\<rparr>"
    using zlist_liveD(1) [of A w3 "m_frames w" "map FO ps"] doc at v1 v2 v3 by (simp add: lib_docD)
  have v5: "view A (zlist_push A (m_frames w) (FO p) ?w4) =
      (view A ?w1)\<lparr>zlists := (zlists ?v)(m_frames w \<mapsto> FO p # FO ?n # map FO ps)\<rparr>"
    using zlist_liveD(1) [of A ?w4 "m_frames w" "FO ?n # map FO ps"] doc v4 by (simp add: lib_docD)
  have n: "?n \<noteq> NULL" "p \<noteq> ?n" using ownsD [OF fm_invD [OF inv]] at by auto
  let ?fr = "(frames s)(?n \<mapsto> \<lparr>f_frame = e, f_message = m, f_flags = 0\<rparr>)" and ?zf = "(zframes ?v)(e \<mapsto> [])"
    and ?zm = "(zmsgs ?v)(m_message w \<mapsto> e # ?fs)" and ?zl = "(zlists ?v)(m_frames w \<mapsto> FO ?n # map FO ps)"
  have own: "owns ?fr (msgs s) ?zf ?zm ?zl (Suc ?n)"
    and st: "store_of ?fr (msgs s) ?zf ?zl =
      (abs_store A s)\<lparr>contents := (contents (abs_store A s))(m \<mapsto> (?n, []) # xs)\<rparr>"
    using owns_put_new [OF fm_invD [OF inv] e(1) at(1,2), of "[]" ps "[]"] at(6) xs
    by (simp_all add: abs_store_def)
  obtain qs where "holds_frames ?fr ?zf ?zm ?zl m w qs"
    by (rule owned_messageE [OF own at(1,2)])
  moreover from this have "qs = [] @ (?n # ps)"
    using map_FO_inject [of qs "?n # ps"] by (simp add: holds_frames_def)
  ultimately have held: "holds_frames ?fr ?zf ?zm ?zl m w ([] @ (?n # ps))" by simp
  have fp: "?fr p = Some f" using at n by simp
  have cz: "map (czframe ?fr) (?n # ps) = e # ?fs" using held by (simp add: holds_frames_def)
  have it: "items ?fr ?zf (?n # ps) = (?n, []) # xs"
    using contents_holds [where ms = "msgs s", OF held at(1,2)] arg_cong [OF st, of "\<lambda>st. contents st m"] by simp
  have bp: "body_of ?fr ?zf p = b"
    using at n e by (auto simp: body_of_def czframe_def)
  have tw: "((frames s)(p \<mapsto> x))(?n \<mapsto> y) = ((frames s)(?n \<mapsto> y))(p \<mapsto> x)" for x y
    using n by (intro fun_upd_twist) simp
  have stc: "contents_of ?fr (msgs s) ?zf ?zl = (contents (abs_store A s))(m \<mapsto> (?n, []) # xs)"
    and sto: "owned_of ?fr ?zf = owned (abs_store A s)"
    using arg_cong [OF st, of contents] arg_cong [OF st, of owned] by simp_all
  note A = owns_attach [OF own fp at(10) at(1,2) held, unfolded cz]
  note S = store_attach [OF own fp at(10) at(1,2) held, unfolded it bp stc sto]
  have acc: "accessible s p" using at by (simp add: accessible_def)
  show ?thesis
    using A S
    by (simp add: rb_czmq_message_wrap_def accessible_def at v0 first nxt n tw v1 v2 v3 v4 v5 acc
        accessible_guard fm_inv_def abs_store_def)
qed

section \<open>Reading\<close>

lemma held_body:
  assumes inv: "fm_inv A s" and m: "contents (abs_store A s) m = Some xs" and p: "(p, b) \<in> set xs"
  shows "frame_body A s (Object rb_cZmqFrame p) = Some b"
proof -
  obtain w ps where m: "msg_at A s m w ps" and xs: "xs = items (frames s) (zframes (view A (lib s))) ps"
    by (rule contentsE [OF inv m])
  from p xs have "p \<in> set ps" "b = body_of (frames s) (zframes (view A (lib s))) p" by auto
  then obtain f where "frames s p = Some f" "f_flags f = 0" "f_message f = m" "p \<noteq> NULL"
    "zframes (view A (lib s)) (f_frame f) = Some b"
    by (auto intro: held_frame [OF inv m, of p])
  then show ?thesis
    using msg_atD [OF m] by (simp add: frame_body_def accessible_def)
qed

lemma owned_body:
  assumes inv: "fm_inv A s" and p: "owned (abs_store A s) p = Some b"
  shows "frame_body A s (Object rb_cZmqFrame p) = Some b"
proof -
  obtain f where "frame_at A s p f b" by (rule ownedE [OF inv p])
  from frame_atD [OF this] show ?thesis by (simp add: frame_body_def accessible_def)
qed

lemma message_size_run:
  assumes doc: "lib_doc A" and inv: "fm_inv A s" and m: "contents (abs_store A s) m = Some xs"
  shows "rb_czmq_message_size A (Object rb_cZmqMessage m) s = Return (INT2NUM (int (length xs))) s"
    and "rb_czmq_message_content_size A (Object rb_cZmqMessage m) s =
      Return (INT2NUM (int (sum_list (map (length \<circ> snd) xs)))) s"
proof -
  obtain w ps where m: "msg_at A s m w ps" and xs: "xs = items (frames s) (zframes (view A (lib s))) ps"
    by (rule contentsE [OF inv m])
  note at = msg_atD [OF m]
  show "rb_czmq_message_size A (Object rb_cZmqMessage m) s = Return (INT2NUM (int (length xs))) s"
    and "rb_czmq_message_content_size A (Object rb_cZmqMessage m) s =
      Return (INT2NUM (int (sum_list (map (length \<circ> snd) xs)))) s"
    using at xs zmsg_liveD(1,2) [OF lib_docD(3) [OF doc] at(7)]
    by (simp_all add: rb_czmq_message_size_def rb_czmq_message_content_size_def comp_def)
qed

lemma message_encode_run:
  assumes doc: "lib_doc A" and inv: "fm_inv A s" and m: "contents (abs_store A s) m = Some xs"
  obtains h where "rb_czmq_message_encode A (Object rb_cZmqMessage m) s = Return (RString (zmsg_encode A h (lib s))) s"
    "\<And>w'. zmsg_alloc_doc A w' (map snd xs) (zmsg_decode A (zmsg_encode A h (lib s)) w')"
    "(\<forall>b\<in>snd ` set xs. length b < 255) \<Longrightarrow> zmsg_encode A h (lib s) = encode_short (map snd xs)"
proof -
  obtain w ps where m: "msg_at A s m w ps" and xs: "xs = items (frames s) (zframes (view A (lib s))) ps"
    by (rule contentsE [OF inv m])
  note at = msg_atD [OF m]
  have b: "bodies (view A (lib s)) (map (czframe (frames s)) ps) = map snd xs" using xs by simp
  show thesis
  proof (rule that [of "m_message w"])
    show "rb_czmq_message_encode A (Object rb_cZmqMessage m) s =
        Return (RString (zmsg_encode A (m_message w) (lib s))) s"
      using at by (simp add: rb_czmq_message_encode_def)
    show "zmsg_alloc_doc A w' (map snd xs) (zmsg_decode A (zmsg_encode A (m_message w) (lib s)) w')" for w'
      using zmsg_liveD(20) [OF lib_docD(3) [OF doc] at(7), of w'] b by simp
    show "zmsg_encode A (m_message w) (lib s) = encode_short (map snd xs)"
      if short: "\<forall>b\<in>snd ` set xs. length b < 255"
      using zmsg_encodeD [OF lib_docD(3) [OF doc] at(7)] short unfolding b by simp
  qed
qed

text \<open>Walking the list of frame objects collects them in order.\<close>

lemma to_a_loop:
  assumes doc: "lib_doc A"
    and "zlists (view A (lib s)) l = Some (map FO (done @ p # rest))" "zlist_cursor A l (lib s) = Some (length done)"
    and "arrays s a = Some xs"
  defines "body \<equiv> \<lambda>frame_obj.
          rb_ary_push (Object rb_cArray a) frame_obj (
          invoke (zlist_next A l) (\<lambda>next_obj. ret (VALUE_of next_obj)))"
  shows "\<exists>w'. while_do (\<lambda>frame_obj. frame_obj \<noteq> Qfalse) body k (Object rb_cZmqFrame p) s =
      k Qfalse (s\<lparr>lib := w', arrays := (arrays s)(a \<mapsto> xs @ map (Object rb_cZmqFrame) (p # rest))\<rparr>) \<and>
    view A w' = view A (lib s)"
  using assms(2-4)
proof (induction rest arbitrary: "done" p s xs)
  case (Cons q rest)
  obtain w1 where nxt: "zlist_next A l (lib s) = (Some (FO q), w1)" and v1: "view A w1 = view A (lib s)"
    and c1: "zlist_cursor A l w1 = Some (Suc (length done))"
    using zlist_liveD(13) [OF lib_docD(1) [OF doc] Cons.prems(1)]
      zlist_cursorD(2,3) [OF lib_docD(1) [OF doc] Cons.prems(1,2)]
    by (cases "zlist_next A l (lib s)") (simp add: nth_append)
  let ?s = "s\<lparr>lib := w1, arrays := (arrays s)(a \<mapsto> xs @ [Object rb_cZmqFrame p])\<rparr>"
  have "zlists (view A (lib ?s)) l = Some (map FO ((done @ [p]) @ q # rest))"
    "zlist_cursor A l (lib ?s) = Some (length (done @ [p]))"
    "arrays ?s a = Some (xs @ [Object rb_cZmqFrame p])"
    using Cons.prems v1 c1 by simp_all
  from Cons.IH [OF this] obtain w' where
    "while_do (\<lambda>frame_obj. frame_obj \<noteq> Qfalse) body k (Object rb_cZmqFrame q) ?s =
      k Qfalse (?s\<lparr>lib := w', arrays := (arrays ?s)(a \<mapsto> (xs @ [Object rb_cZmqFrame p]) @
        map (Object rb_cZmqFrame) (q # rest))\<rparr>)"
    and "view A w' = view A (lib ?s)" by blast
  moreover have "body (Object rb_cZmqFrame p) s = Return (Object rb_cZmqFrame q) ?s"
    using Cons.prems(3) nxt by (simp add: body_def)
  ultimately show ?case
    using v1 by (subst while_do_step) (auto intro!: exI [of _ w'])
next
  case Nil
  obtain w1 where nxt: "zlist_next A l (lib s) = (None, w1)" and v1: "view A w1 = view A (lib s)"
    using zlist_liveD(13) [OF lib_docD(1) [OF doc] Nil.prems(1)]
      zlist_cursorD(2) [OF lib_docD(1) [OF doc] Nil.prems(1,2)]
    by (cases "zlist_next A l (lib s)") simp
  have "body (Object rb_cZmqFrame p) s =
      Return Qfalse (s\<lparr>lib := w1, arrays := (arrays s)(a \<mapsto> xs @ [Object rb_cZmqFrame p])\<rparr>)"
    using Nil.prems(3) nxt by (simp add: body_def)
  then show ?case
    using v1 by (subst while_do_step) (auto simp: while_do_stop intro!: exI [of _ w1])
qed

lemma view_array [simp]:
  "view A w' = view A (lib s) \<Longrightarrow> n' = Suc (fresh s) \<Longrightarrow> fm_inv A s \<Longrightarrow>
     fm_inv A (s\<lparr>fresh := n', lib := w', arrays := ar\<rparr>)"
  "view A w' = view A (lib s) \<Longrightarrow> abs_store A (s\<lparr>fresh := n', lib := w', arrays := ar\<rparr>) = abs_store A s"
  "n' = Suc (fresh s) \<Longrightarrow> fm_inv A s \<Longrightarrow> fm_inv A (s\<lparr>arrays := ar, fresh := n'\<rparr>)"
  "abs_store A (s\<lparr>arrays := ar, fresh := n'\<rparr>) = abs_store A s"
  using owns_frames_mono [OF fm_invD [of A s], where n' = "Suc (fresh s)" and zf' = "zframes (view A (lib s))"]
  by (simp_all add: fm_inv_def abs_store_def)

lemma to_a_refines:
  assumes doc: "lib_doc A" and inv: "fm_inv A s" and m: "contents (abs_store A s) m = Some xs"
  shows "\<exists>s'. rb_czmq_message_to_a A (Object rb_cZmqMessage m) s = Return (Object rb_cArray (fresh s)) s' \<and>
    fm_inv A s' \<and> abs_store A s' = abs_store A s \<and>
    ary s' (Object rb_cArray (fresh s)) = map (\<lambda>(p, b). Object rb_cZmqFrame p) xs"
proof -
  obtain w ps where m: "msg_at A s m w ps" and xs: "xs = items (frames s) (zframes (view A (lib s))) ps"
    by (rule contentsE [OF inv m])
  note at = msg_atD [OF m]
  let ?s = "s\<lparr>arrays := (arrays s)(fresh s \<mapsto> []), fresh := Suc (fresh s)\<rparr>"
  obtain x w1 where first: "zlist_first A (m_frames w) (lib s) = (x, w1)" by fastforce
  have x: "x = (case ps of [] \<Rightarrow> None | p # _ \<Rightarrow> Some (FO p))" and v1: "view A w1 = view A (lib s)"
    and c1: "ps \<noteq> [] \<Longrightarrow> zlist_cursor A (m_frames w) w1 = Some 0"
    using zlist_liveD(9,10) [OF lib_docD(1) [OF doc] at(8)] zlist_cursorD(1) [OF lib_docD(1) [OF doc] at(8)] first
    by (simp_all split: list.splits)
  show ?thesis
  proof (cases ps)
    case Nil
    then show ?thesis
      using at first x v1 inv xs
      by (simp add: rb_czmq_message_to_a_def while_do_stop)
  next
    case (Cons p rest)
    have pre: "zlists (view A (lib (?s\<lparr>lib := w1\<rparr>))) (m_frames w) = Some (map FO ([] @ p # rest))"
      "zlist_cursor A (m_frames w) (lib (?s\<lparr>lib := w1\<rparr>)) = Some (length ([] :: ptr list))"
      "arrays (?s\<lparr>lib := w1\<rparr>) (fresh s) = Some []"
      using Cons at v1 c1 by simp_all
    obtain w' where loop: "while_do (\<lambda>frame_obj. frame_obj \<noteq> Qfalse)
       (\<lambda>frame_obj.
          rb_ary_push (Object rb_cArray (fresh s)) frame_obj (
          invoke (zlist_next A (m_frames w)) (\<lambda>next_obj. ret (VALUE_of next_obj))))
       (\<lambda>_. ret (Object rb_cArray (fresh s))) (Object rb_cZmqFrame p) (?s\<lparr>lib := w1\<rparr>) =
      Return (Object rb_cArray (fresh s)) (s\<lparr>fresh := Suc (fresh s), lib := w',
        arrays := (arrays s)(fresh s \<mapsto> map (Object rb_cZmqFrame) ps)\<rparr>)"
      and v': "view A w' = view A (lib s)"
      using to_a_loop [OF doc pre, of "\<lambda>_. ret (Object rb_cArray (fresh s))"] Cons v1 by auto
    then show ?thesis
      using at first x v1 inv xs Cons by (simp add: rb_czmq_message_to_a_def)
  qed
qed

end
