(* ===== verification/Zmq_Store.thy ===== *)
theory Zmq_Store
  imports Zmq_Refine
begin

text \<open>
  Programs over frames and messages: the calls a Ruby program makes, what each is documented to do
  to the abstract store, and the theorems over all sequences of calls.
\<close>

section \<open>Calls and their effects\<close>

text \<open>The calls; a pointer names the Ruby object at that address.\<close>

datatype call =
    Frame_new string | Frame_destroy ptr
  | Message_new | Push ptr ptr | Add ptr ptr | Pushstr ptr string | Addstr ptr string
  | Pop ptr | Remove ptr ptr | Wrap ptr ptr | Dup ptr | Destroy ptr

abbreviation Frame :: "ptr \<Rightarrow> rvalue" where "Frame p \<equiv> Object rb_cZmqFrame p"
abbreviation Message :: "ptr \<Rightarrow> rvalue" where "Message m \<equiv> Object rb_cZmqMessage m"

fun exec :: "'w czmq \<Rightarrow> call \<Rightarrow> ('w, rvalue) vcmd" where
  "exec A (Frame_new d) = rb_czmq_frame_s_new A [RString d]"
| "exec A (Frame_destroy p) = rb_czmq_frame_destroy A (Frame p)"
| "exec A Message_new = rb_czmq_message_new A"
| "exec A (Push m p) = rb_czmq_message_push A (Message m) (Frame p)"
| "exec A (Add m p) = rb_czmq_message_add A (Message m) (Frame p)"
| "exec A (Pushstr m d) = rb_czmq_message_pushstr A (Message m) (RString d)"
| "exec A (Addstr m d) = rb_czmq_message_addstr A (Message m) (RString d)"
| "exec A (Pop m) = rb_czmq_message_pop A (Message m)"
| "exec A (Remove m p) = rb_czmq_message_remove A (Message m) (Frame p)"
| "exec A (Wrap m p) = rb_czmq_message_wrap A (Message m) (Frame p)"
| "exec A (Dup m) = rb_czmq_message_dup A (Message m)"
| "exec A (Destroy m) = rb_czmq_message_destroy A (Message m)"

text \<open>
  What the documentation comments of frame.c and message.c promise, on the abstract store: the
  result and the new store, given the next free address. A call that is not allowed has no effect.
\<close>

definition gives :: "ptr \<Rightarrow> ptr \<Rightarrow> (ptr \<times> string) list \<Rightarrow> store \<Rightarrow> store" where
  "gives m p xs st = st\<lparr>owned := (owned st)(p := None), contents := (contents st)(m \<mapsto> xs)\<rparr>"

fun effect :: "ptr \<Rightarrow> call \<Rightarrow> store \<Rightarrow> (rvalue \<times> store) option" where
  "effect n (Frame_new d) st = Some (Frame n, st\<lparr>owned := (owned st)(n \<mapsto> d)\<rparr>)"
| "effect n (Frame_destroy p) st =
     (case owned st p of None \<Rightarrow> None | Some b \<Rightarrow> Some (Qnil, st\<lparr>owned := (owned st)(p := None)\<rparr>))"
| "effect n Message_new st = Some (Message n, st\<lparr>contents := (contents st)(n \<mapsto> [])\<rparr>)"
| "effect n (Push m p) st =
     (case (contents st m, owned st p) of
        (Some xs, Some b) \<Rightarrow> Some (Qtrue, gives m p ((p, b) # xs) st) | _ \<Rightarrow> None)"
| "effect n (Add m p) st =
     (case (contents st m, owned st p) of
        (Some xs, Some b) \<Rightarrow> Some (Qtrue, gives m p (xs @ [(p, b)]) st) | _ \<Rightarrow> None)"
| "effect n (Pushstr m d) st =
     (case contents st m of None \<Rightarrow> None
      | Some xs \<Rightarrow> Some (Qtrue, st\<lparr>contents := (contents st)(m \<mapsto> (n, d) # xs)\<rparr>))"
| "effect n (Addstr m d) st =
     (case contents st m of None \<Rightarrow> None
      | Some xs \<Rightarrow> Some (Qtrue, st\<lparr>contents := (contents st)(m \<mapsto> xs @ [(n, d)])\<rparr>))"
| "effect n (Pop m) st =
     (case contents st m of None \<Rightarrow> None
      | Some [] \<Rightarrow> Some (Qnil, st)
      | Some ((p, b) # xs) \<Rightarrow>
          Some (Frame p, st\<lparr>owned := (owned st)(p \<mapsto> b), contents := (contents st)(m \<mapsto> xs)\<rparr>))"
| "effect n (Remove m p) st =
     (case contents st m of None \<Rightarrow> None
      | Some xs \<Rightarrow>
          (case map_of xs p of None \<Rightarrow> None
           | Some b \<Rightarrow> Some (Qnil, st\<lparr>owned := (owned st)(p \<mapsto> b),
                                 contents := (contents st)(m \<mapsto> filter (\<lambda>x. fst x \<noteq> p) xs)\<rparr>)))"
| "effect n (Wrap m p) st =
     (case (contents st m, owned st p) of
        (Some xs, Some b) \<Rightarrow> Some (Qnil, gives m p ((p, b) # (n, []) # xs) st) | _ \<Rightarrow> None)"
| "effect n (Dup m) st =
     (case contents st m of None \<Rightarrow> None
      | Some xs \<Rightarrow> Some (Message n, st\<lparr>contents := (contents st)(n \<mapsto>
          zip [Suc n..<Suc n + length xs] (map snd xs))\<rparr>))"
| "effect n (Destroy m) st =
     (case contents st m of None \<Rightarrow> None | Some xs \<Rightarrow> Some (Qnil, st\<lparr>contents := (contents st)(m := None)\<rparr>))"

lemma gives_eq [simp]:
  "gives m p xs st = \<lparr>owned = (owned st)(p := None), contents = (contents st)(m \<mapsto> xs)\<rparr>"
  by (cases st) (simp add: gives_def)

lemma store_upd2 [simp]: "st\<lparr>owned := f, contents := g\<rparr> = \<lparr>owned = f, contents = g\<rparr>"
  by (cases st) simp

lemma distinct_frames:
  assumes "fm_inv A s" and "contents (abs_store A s) m = Some xs"
  shows "distinct (map fst xs)"
proof -
  obtain w ps where "msg_at A s m w ps" "xs = items (frames s) (zframes (view A (lib s))) ps"
    by (rule contentsE [OF assms])
  then show ?thesis by (simp add: msg_at_def holds_frames_def comp_def)
qed

lemma filter_distinct:
  "distinct (map fst (xs @ (p, b) # ys)) \<Longrightarrow> filter (\<lambda>x. fst x \<noteq> p) (xs @ (p, b) # ys) = xs @ ys"
proof -
  assume "distinct (map fst (xs @ (p, b) # ys))"
  then have "p \<notin> fst ` set xs" "p \<notin> fst ` set ys" by auto
  then have "\<forall>x\<in>set xs. fst x \<noteq> p" "\<forall>x\<in>set ys. fst x \<noteq> p" by auto
  then show ?thesis by simp
qed

text \<open>The calls that may fail, and when: the library answers this very call with a failure.\<close>

fun lib_fails :: "'w czmq \<Rightarrow> 'w vm \<Rightarrow> call \<Rightarrow> bool" where
  "lib_fails A s (Frame_new d) \<longleftrightarrow> fst (zframe_new A d (set_errno A 0 (lib s))) = NULL"
| "lib_fails A s Message_new \<longleftrightarrow> fst (zmsg_new A (lib s)) = NULL"
| "lib_fails A s (Push m p) \<longleftrightarrow> put_fails (zmsg_push A) A s m p"
| "lib_fails A s (Add m p) \<longleftrightarrow> put_fails (zmsg_add A) A s m p"
| "lib_fails A s (Pushstr m d) \<longleftrightarrow> mem_fails (zmsg_pushmem A) A s m d"
| "lib_fails A s (Addstr m d) \<longleftrightarrow> mem_fails (zmsg_addmem A) A s m d"
| "lib_fails A s (Dup m) \<longleftrightarrow> dup_fails A s m"
| "lib_fails A s c \<longleftrightarrow> False"

lemma exec_effect:
  assumes doc: "lib_doc A" and inv: "fm_inv A s" and eff: "effect (fresh s) c (abs_store A s) = Some (v, st)"
  shows "if lib_fails A s c then refused A (exec A c s) (abs_store A s) else steps_to A (exec A c s) v st"
proof (cases c)
  case (Pop m)
  then show ?thesis
    using eff pop_empty [OF doc inv, of m] pop_refines [OF doc inv, of m]
    by (auto split: option.splits list.splits)
next
  case (Remove m p)
  then obtain xs b where xs: "contents (abs_store A s) m = Some xs" "map_of xs p = Some b"
    and r: "v = Qnil" "st = \<lparr>owned = (owned (abs_store A s))(p \<mapsto> b),
      contents = (contents (abs_store A s))(m \<mapsto> filter (\<lambda>x. fst x \<noteq> p) xs)\<rparr>"
    using eff by (auto split: option.splits)
  obtain ys zs where "xs = ys @ (p, b) # zs"
    using map_of_SomeD [OF xs(2)] by (auto simp: in_set_conv_decomp)
  then show ?thesis
    using remove_refines [OF doc inv, of m ys p b zs] filter_distinct [of ys p b zs]
      distinct_frames [OF inv xs(1)] xs(1) r Remove by simp
next
  case (Frame_new d)
  then show ?thesis using eff frame_new_refines [OF doc inv, of d] by auto
next
  case (Frame_destroy p)
  then show ?thesis using eff frame_destroy_refines [OF doc inv, of p] by (auto split: option.splits)
next
  case Message_new
  then show ?thesis using eff message_new_refines [OF doc inv] by auto
next
  case (Push m p)
  then show ?thesis using eff push_refines [OF doc inv, of m _ p] by (auto split: option.splits)
next
  case (Add m p)
  then show ?thesis using eff add_refines [OF doc inv, of m _ p] by (auto split: option.splits)
next
  case (Pushstr m d)
  then show ?thesis using eff pushstr_refines [OF doc inv, of m _ d] by (auto split: option.splits)
next
  case (Addstr m d)
  then show ?thesis using eff addstr_refines [OF doc inv, of m _ d] by (auto split: option.splits)
next
  case (Wrap m p)
  then show ?thesis using eff wrap_refines [OF doc inv, of m _ p] by (auto split: option.splits)
next
  case (Dup m)
  then show ?thesis using eff message_dup_refines [OF doc inv, of m]
    by (auto split: option.splits simp del: upt_Suc)
next
  case (Destroy m)
  then show ?thesis using eff message_destroy_refines [OF doc inv, of m] by (auto split: option.splits)
qed

section \<open>Objects that are gone\<close>

text \<open>
  A call on objects that exist but are gone, or with a frame that belongs to a message already,
  raises and changes nothing. The three calls whose guards are weaker are restricted: \<^verbatim>\<open>destroy\<close> of a
  frame and \<^verbatim>\<open>wrap\<close> to frames no live message holds, and \<^verbatim>\<open>remove\<close> to frames of the message.
\<close>

fun valid :: "'w czmq \<Rightarrow> 'w vm \<Rightarrow> call \<Rightarrow> bool" where
  "valid A s (Frame_new d) = True"
| "valid A s (Frame_destroy p) \<longleftrightarrow> frames s p \<noteq> None \<and> (owned (abs_store A s) p \<noteq> None \<or> \<not> accessible s p)"
| "valid A s Message_new = True"
| "valid A s (Push m p) \<longleftrightarrow> msgs s m \<noteq> None \<and> frames s p \<noteq> None"
| "valid A s (Add m p) \<longleftrightarrow> msgs s m \<noteq> None \<and> frames s p \<noteq> None"
| "valid A s (Pushstr m d) \<longleftrightarrow> msgs s m \<noteq> None"
| "valid A s (Addstr m d) \<longleftrightarrow> msgs s m \<noteq> None"
| "valid A s (Pop m) \<longleftrightarrow> msgs s m \<noteq> None"
| "valid A s (Remove m p) \<longleftrightarrow> msgs s m \<noteq> None \<and> frames s p \<noteq> None \<and>
     (case contents (abs_store A s) m of None \<Rightarrow> True | Some xs \<Rightarrow> map_of xs p \<noteq> None)"
| "valid A s (Wrap m p) \<longleftrightarrow> msgs s m \<noteq> None \<and> frames s p \<noteq> None \<and>
     (owned (abs_store A s) p \<noteq> None \<or> \<not> accessible s p)"
| "valid A s (Dup m) \<longleftrightarrow> msgs s m \<noteq> None"
| "valid A s (Destroy m) \<longleftrightarrow> msgs s m \<noteq> None"

lemma gone_message:
  assumes inv: "fm_inv A s" and "msgs s m \<noteq> None" and "contents (abs_store A s) m = None"
  obtains w where "msgs s m = Some w" "m_flags w = 0" "m \<noteq> NULL"
proof -
  obtain w where w: "msgs s m = Some w" using assms(2) by blast
  have ok: "message_ok (frames s) (zframes (view A (lib s))) (zmsgs (view A (lib s)))
      (zlists (view A (lib s))) (fresh s) m w"
    by (rule ownsD(4) [OF fm_invD [OF inv] w])
  have "m_flags w \<noteq> 1"
    using assms(3) w owned_messageD(6) [OF fm_invD [OF inv] w]
    by (auto simp: abs_store_def contents_of_def)
  with that w ok show thesis by (auto simp: message_ok_def)
qed

lemma unowned_frame:
  assumes inv: "fm_inv A s" and "frames s p \<noteq> None" and "owned (abs_store A s) p = None"
  obtains f where "frames s p = Some f" "f_flags f = 0" "p \<noteq> NULL" "\<not> accessible s p \<Longrightarrow> gone s p"
proof -
  obtain f where f: "frames s p = Some f" using assms(2) by blast
  have ok: "frame_ok (msgs s) (zframes (view A (lib s))) (zlists (view A (lib s))) (fresh s) p f"
    by (rule ownsD(2) [OF fm_invD [OF inv] f])
  have "f_flags f \<noteq> 1" using assms(3) f by (auto simp: abs_store_def owned_of_def)
  with ok have "f_flags f = 0" "p \<noteq> NULL" by (auto simp: frame_ok_def)
  moreover have "gone s p" if "\<not> accessible s p"
    using that f ok \<open>f_flags f = 0\<close> by (auto simp: gone_def accessible_def frame_ok_def split: option.splits)
  ultimately show thesis using that f by blast
qed

lemma errno_refused:
  assumes "lib_doc A" "fm_inv A s" "abs_store A s = st"
  shows "refused A (Raise e (s\<lparr>lib := set_errno A n (lib s)\<rparr>)) st" "refused A (Raise e s) st"
  using assms by (simp_all add: zframe_docD lib_docD)

lemma message_gone_refused:
  assumes doc: "lib_doc A" and inv: "fm_inv A s" and w: "msgs s m = Some w" "m_flags w = 0" "m \<noteq> NULL"
  shows "refused A (rb_czmq_message_push A (Message m) v s) (abs_store A s)"
    "refused A (rb_czmq_message_add A (Message m) v s) (abs_store A s)"
    "refused A (rb_czmq_message_pushstr A (Message m) v s) (abs_store A s)"
    "refused A (rb_czmq_message_addstr A (Message m) v s) (abs_store A s)"
    "refused A (rb_czmq_message_wrap A (Message m) v s) (abs_store A s)"
    "refused A (rb_czmq_message_remove A (Message m) v s) (abs_store A s)"
    "refused A (rb_czmq_message_pop A (Message m) s) (abs_store A s)"
    "refused A (rb_czmq_message_dup A (Message m) s) (abs_store A s)"
    "refused A (rb_czmq_message_destroy A (Message m) s) (abs_store A s)"
  using w errno_refused [OF doc inv refl] zframe_docD(1) [OF lib_docD(2) [OF doc]] inv
  by (simp_all add: rb_czmq_message_push_def rb_czmq_message_add_def rb_czmq_message_pushstr_def
      rb_czmq_message_addstr_def rb_czmq_message_wrap_def rb_czmq_message_remove_def
      rb_czmq_message_pop_def rb_czmq_message_dup_def rb_czmq_message_destroy_def)

lemma frame_gone_refused:
  assumes doc: "lib_doc A" and inv: "fm_inv A s" and m: "contents (abs_store A s) m = Some xs"
    and f: "frames s p = Some f" "f_flags f = 0" "p \<noteq> NULL"
  shows "refused A (rb_czmq_message_push A (Message m) (Frame p) s) (abs_store A s)"
    "refused A (rb_czmq_message_add A (Message m) (Frame p) s) (abs_store A s)"
    "gone s p \<Longrightarrow> refused A (rb_czmq_message_wrap A (Message m) (Frame p) s) (abs_store A s)"
    "gone s p \<Longrightarrow> refused A (rb_czmq_frame_destroy A (Frame p) s) (abs_store A s)"
proof -
  obtain w ps where "msg_at A s m w ps" by (rule contentsE [OF inv m])
  note at = msg_atD(1-3) [OF this]
  have g: "gone s p \<Longrightarrow> gone (s\<lparr>lib := w'\<rparr>) p" for w' by (simp add: gone_def)
  show "refused A (rb_czmq_message_push A (Message m) (Frame p) s) (abs_store A s)"
    "refused A (rb_czmq_message_add A (Message m) (Frame p) s) (abs_store A s)"
    "gone s p \<Longrightarrow> refused A (rb_czmq_message_wrap A (Message m) (Frame p) s) (abs_store A s)"
    "gone s p \<Longrightarrow> refused A (rb_czmq_frame_destroy A (Frame p) s) (abs_store A s)"
    using at f g zframe_docD(1) [OF lib_docD(2) [OF doc]] inv
    by (simp_all add: rb_czmq_message_push_def rb_czmq_message_add_def rb_czmq_message_wrap_def
        rb_czmq_frame_destroy_def ZmqAssertFrameOwnedNoMessage_def gone_guard)
qed

section \<open>All calls\<close>

lemma remove_None:
  assumes inv: "fm_inv A s" and "contents (abs_store A s) m = Some xs" "map_of xs p \<noteq> None"
  shows "effect n (Remove m p) (abs_store A s) \<noteq> None"
  using assms by (auto split: option.splits)

lemma valid_refused:
  assumes doc: "lib_doc A" and inv: "fm_inv A s" and v: "valid A s c"
    and none: "effect (fresh s) c (abs_store A s) = None"
  shows "refused A (exec A c s) (abs_store A s)"
proof -
  have msg: "refused A (exec A c s) (abs_store A s)"
    if "msgs s m \<noteq> None" "contents (abs_store A s) m = None"
      "\<And>w. msgs s m = Some w \<Longrightarrow> m_flags w = 0 \<Longrightarrow> m \<noteq> NULL \<Longrightarrow> refused A (exec A c s) (abs_store A s)" for m
    using gone_message [OF inv that(1,2)] that(3) by blast
  have frame: "refused A (exec A c s) (abs_store A s)"
    if "frames s p \<noteq> None" "owned (abs_store A s) p = None"
      "\<And>f. frames s p = Some f \<Longrightarrow> f_flags f = 0 \<Longrightarrow> p \<noteq> NULL \<Longrightarrow> (\<not> accessible s p \<Longrightarrow> gone s p) \<Longrightarrow>
        refused A (exec A c s) (abs_store A s)" for p
    using unowned_frame [OF inv that(1,2)] that(3) by blast
  note gm = message_gone_refused [OF doc inv]
  show ?thesis
  proof (cases c)
    case (Frame_destroy p)
    then have p: "owned (abs_store A s) p = None" "frames s p \<noteq> None" "\<not> accessible s p"
      using none v by (auto split: option.splits)
    show ?thesis
    proof (rule frame [OF p(2,1)])
      fix f assume "frames s p = Some f" "f_flags f = 0" "p \<noteq> NULL" "\<not> accessible s p \<Longrightarrow> gone s p"
      then show ?thesis using p inv Frame_destroy by (simp add: rb_czmq_frame_destroy_def gone_guard)
    qed
  next
    case (Push m p)
    then show ?thesis
      using none v msg [of m] gm(1) frame [of p] frame_gone_refused(1) [OF doc inv]
      by (cases "contents (abs_store A s) m"; cases "owned (abs_store A s) p") auto
  next
    case (Add m p)
    then show ?thesis
      using none v msg [of m] gm(2) frame [of p] frame_gone_refused(2) [OF doc inv]
      by (cases "contents (abs_store A s) m"; cases "owned (abs_store A s) p") auto
  next
    case (Wrap m p)
    then show ?thesis
      using none v msg [of m] gm(5) frame [of p] frame_gone_refused(3) [OF doc inv]
      by (cases "contents (abs_store A s) m"; cases "owned (abs_store A s) p") auto
  next
    case (Remove m p)
    then show ?thesis
      using none v msg [of m] gm(6) remove_None [OF inv, of m _ p]
      by (cases "contents (abs_store A s) m") auto
  next
    case (Pushstr m d)
    then show ?thesis using none v msg [of m] gm(3) by (auto split: option.splits)
  next
    case (Addstr m d)
    then show ?thesis using none v msg [of m] gm(4) by (auto split: option.splits)
  next
    case (Pop m)
    then show ?thesis using none v msg [of m] gm(7) by (auto split: option.splits list.splits)
  next
    case (Dup m)
    then show ?thesis using none v msg [of m] gm(8) by (auto split: option.splits)
  next
    case (Destroy m)
    then show ?thesis using none v msg [of m] gm(9) by (auto split: option.splits)
  qed (use none in simp_all)
qed

text \<open>Runs of calls on existing objects.\<close>

abbreviation reach :: "'w czmq \<Rightarrow> 'w vm \<Rightarrow> 'w vm \<Rightarrow> bool" where
  "reach A \<equiv> runs (exec A) (valid A)"

lemma reach_step: "reach A s s1 \<Longrightarrow> valid A s1 c \<Longrightarrow> final_state (exec A c s1) = Some s2 \<Longrightarrow> reach A s s2"
  by (rule runs.step)

definition no_objects :: "'w vm \<Rightarrow> bool" where
  "no_objects s \<longleftrightarrow> frames s = Map.empty \<and> msgs s = Map.empty \<and> fresh s \<noteq> NULL"

lemma no_objects_inv: "no_objects s \<Longrightarrow> fm_inv A s"
  by (simp add: no_objects_def fm_inv_def owns_def inv_parts readable_def)

lemma valid_step:
  assumes doc: "lib_doc A" and inv: "fm_inv A s" and v: "valid A s c"
  shows "safe (exec A c s)" "final_state (exec A c s) = Some s' \<Longrightarrow> fm_inv A s'"
proof -
  have "(\<exists>v st. steps_to A (exec A c s) v st) \<or> refused A (exec A c s) (abs_store A s)"
  proof (cases "effect (fresh s) c (abs_store A s)")
    case None
    then show ?thesis using valid_refused [OF doc inv v] by blast
  next
    case (Some r)
    then obtain u st where "effect (fresh s) c (abs_store A s) = Some (u, st)" by (cases r) simp
    then have "if lib_fails A s c then refused A (exec A c s) (abs_store A s) else steps_to A (exec A c s) u st"
      by (rule exec_effect [OF doc inv])
    then show ?thesis by metis
  qed
  then show "safe (exec A c s)" "final_state (exec A c s) = Some s' \<Longrightarrow> fm_inv A s'"
    by (auto simp: steps_to_def refused_def)
qed

interpretation store: machine "exec A" "valid A" "fm_inv A" "lib_doc A"
  by unfold_locales (blast intro: wpI valid_step)

lemma readable_accessible: "accessible s p \<longleftrightarrow> readable (frames s) (msgs s) p" if "fm_inv A s"
proof -
  have "f_flags f = 0 \<or> f_flags f = 1" if "frames s p = Some f" for f
    using ownsD(2) [OF fm_invD [OF \<open>fm_inv A s\<close>] that] by (auto simp: frame_ok_def)
  moreover have "m_flags w = 0 \<or> m_flags w = 1" if "msgs s m = Some w" for m w
    using ownsD(4) [OF fm_invD [OF \<open>fm_inv A s\<close>] that] by (auto simp: message_ok_def)
  ultimately show ?thesis
    by (fastforce simp: accessible_def readable_def split: option.splits)
qed

end
