(* ===== verification/Zmq_Store_Theorems.thy ===== *)
theory Zmq_Store_Theorems
  imports Zmq_Store
begin

text \<open>
  The properties of frames and messages, each with an application to the reference library.
\<close>

section \<open>A concrete state\<close>

text \<open>
  Message 1 holds the frames \<^verbatim>\<open>"a"\<close> (object 2) and \<^verbatim>\<open>"b"\<close> (object 3), message 5 is empty, and frame
  object 4 owns the frame \<^verbatim>\<open>"c"\<close>.
\<close>

definition world1 :: rworld where
  "world1 =
     \<lparr>rlimit = 7,
      rcells = (\<lambda>p. Dead)(1 := CMsg [3, 4] None, 2 := CList [FO 2, FO 3] None, 3 := CFrame ''a'',
        4 := CFrame ''b'', 5 := CFrame ''c'', 6 := CMsg [] None, 7 := CList [] None),
      ropts = (\<lambda>p. Map.empty), rerr = 0, rint = False\<rparr>"

definition vm1 :: "rworld vm" where
  "vm1 = vm0\<lparr>lib := world1, fresh := 6,
     frames := [2 \<mapsto> \<lparr>f_frame = 3, f_message = 1, f_flags = 0\<rparr>,
                3 \<mapsto> \<lparr>f_frame = 4, f_message = 1, f_flags = 0\<rparr>,
                4 \<mapsto> \<lparr>f_frame = 5, f_message = NULL, f_flags = 1\<rparr>],
     msgs := [1 \<mapsto> \<lparr>m_message = 1, m_flags = 1, m_frames = 2\<rparr>,
              5 \<mapsto> \<lparr>m_message = 6, m_flags = 1, m_frames = 7\<rparr>]\<rparr>"

lemma world1_view:
  "view ref world1 = \<lparr>zframes = [3 \<mapsto> ''a'', 4 \<mapsto> ''b'', 5 \<mapsto> ''c''], zmsgs = [1 \<mapsto> [3, 4], 6 \<mapsto> []],
     zlists = [2 \<mapsto> [FO 2, FO 3], 7 \<mapsto> []], zctxs = Map.empty, zsocks = Map.empty, zopts = (\<lambda>p. Map.empty), zloops = Map.empty,
     zbeacons = Map.empty\<rparr>"
  by (auto simp: rview_def cell_def world1_def fun_eq_iff)

lemma vm1_sel: "lib vm1 = world1" "fresh vm1 = 6"
  "frames vm1 = [2 \<mapsto> \<lparr>f_frame = 3, f_message = 1, f_flags = 0\<rparr>,
                3 \<mapsto> \<lparr>f_frame = 4, f_message = 1, f_flags = 0\<rparr>,
                4 \<mapsto> \<lparr>f_frame = 5, f_message = NULL, f_flags = 1\<rparr>]"
  "msgs vm1 = [1 \<mapsto> \<lparr>m_message = 1, m_flags = 1, m_frames = 2\<rparr>,
              5 \<mapsto> \<lparr>m_message = 6, m_flags = 1, m_frames = 7\<rparr>]"
  by (simp_all add: vm1_def)

lemma vm1_store: "abs_store ref vm1 = \<lparr>owned = [4 \<mapsto> ''c''], contents = [1 \<mapsto> [(2, ''a''), (3, ''b'')], 5 \<mapsto> []]\<rparr>"
  unfolding abs_store_def vm1_sel world1_view
  by (rule store_eqI; simp add: owned_of_def contents_of_def body_of_def czframe_def)

lemma vm1_held:
  "holds_frames (frames vm1) (zframes (view ref world1)) (zmsgs (view ref world1)) (zlists (view ref world1)) 1
     \<lparr>m_message = 1, m_flags = 1, m_frames = 2\<rparr> [2, 3]"
  "holds_frames (frames vm1) (zframes (view ref world1)) (zmsgs (view ref world1)) (zlists (view ref world1)) 5
     \<lparr>m_message = 6, m_flags = 1, m_frames = 7\<rparr> []"
  unfolding vm1_sel world1_view by (simp_all add: holds_frames_def czframe_def)

lemma vm1_inv: "fm_inv ref vm1"
proof -
  have m: "messages_ok (frames vm1) (msgs vm1) (zframes (view ref world1)) (zmsgs (view ref world1)) (zlists (view ref world1)) 6"
    using vm1_held unfolding messages_ok_def message_ok_def vm1_sel(4)
    by (auto split: if_splits)
  have "frames_ok (frames vm1) (msgs vm1) (zframes (view ref world1)) (zlists (view ref world1)) 6"
    unfolding frames_ok_def frame_ok_def vm1_sel world1_view by auto
  moreover have "readable_inj (frames vm1) (msgs vm1)"
    unfolding vm1_sel readable_inj_def inj_on_def readable_def czframe_def by (auto split: if_splits)
  moreover have "handles_inj (msgs vm1) owned_message" "handles_inj (msgs vm1) m_frames"
    unfolding vm1_sel handles_inj_def owned_message_def by auto
  ultimately show ?thesis
    using m by (simp add: fm_inv_def owns_def vm1_sel(1,2))
qed

lemma vm1_contents [simp]:
  "contents (abs_store ref vm1) 1 = Some [(2, ''a''), (3, ''b'')]"
  "contents (abs_store ref vm1) (Suc 0) = Some [(2, ''a''), (3, ''b'')]"
  "contents (abs_store ref vm1) 5 = Some []" "owned (abs_store ref vm1) 4 = Some ''c''"
  by (simp_all add: vm1_store)

lemma vm0_objects: "no_objects vm0"
  by (simp add: no_objects_def vm0_def)

section \<open>All programs\<close>

text \<open>
  In every state that calls on frames and messages reach, no call faults, and a frame object that its
  guards let through has an allocated czmq frame of its own.
\<close>

lemma calls_never_fault:
  assumes "lib_doc A" and "no_objects s" and "reach A s s'"
  shows "(\<forall>c. valid A s' c \<longrightarrow> safe (exec A c s')) \<and>
    (\<forall>p q. accessible s' p \<and> accessible s' q \<and> czframe (frames s') p = czframe (frames s') q \<longrightarrow> p = q) \<and>
    (\<forall>p. accessible s' p \<longrightarrow> zframes (view A (lib s')) (czframe (frames s') p) \<noteq> None)"
proof -
  have inv: "fm_inv A s'" by (rule store.runs_inv [OF assms(3,1) no_objects_inv [OF assms(2)]])
  show ?thesis
    using valid_step(1) [OF assms(1) inv] ownsD(3) [OF fm_invD [OF inv]] readable_live [OF fm_invD [OF inv]]
    unfolding readable_accessible [OF inv] by blast
qed

lemmas run_ref = rnew_def rput_def cell_def rnew_msg_def raddrs_def rlist_def rmsg_def rframe_def rbodies_def
  rlcur_def rmcur_def rview_def rat_cursor_def or_null_def rcursor_def ref_fields



text \<open>The message a call is made on.\<close>

fun message_of :: "call \<Rightarrow> ptr option" where
  "message_of (Push m p) = Some m" | "message_of (Add m p) = Some m" | "message_of (Wrap m p) = Some m"
| "message_of (Remove m p) = Some m" | "message_of (Pushstr m d) = Some m" | "message_of (Addstr m d) = Some m"
| "message_of (Pop m) = Some m" | "message_of (Dup m) = Some m" | "message_of (Destroy m) = Some m"
| "message_of c = None"



section \<open>Frames\<close>

text \<open>
  A frame made from a string is not gone, and \<^verbatim>\<open>data\<close>, \<^verbatim>\<open>to_s\<close> and \<^verbatim>\<open>size\<close> give that string and its
  length back, whatever bytes it has; the frames that were readable before still read the same.
\<close>

lemma frame_new_reads_back:
  assumes "lib_doc A" and "fm_inv A s" and "rb_czmq_frame_s_new A [RString d] s = Return v s'"
  shows "rb_czmq_frame_data A v s' = Return (RString d) s' \<and>
    rb_czmq_frame_to_s A v s' = Return (RString d) s' \<and>
    rb_czmq_frame_size A v s' = Return (LONG2FIX (int (length d))) s' \<and>
    rb_czmq_frame_gone v s' = Return Qfalse s' \<and>
    (\<forall>m xs p b. contents (abs_store A s) m = Some xs \<and> (p, b) \<in> set xs \<longrightarrow>
       rb_czmq_frame_data A (Frame p) s' = Return (RString b) s')"
proof -
  have doc: "zframe_doc A" using assms(1) by (rule lib_docD)
  have st: "v = Frame (fresh s) \<and> fm_inv A s' \<and>
      abs_store A s' = (abs_store A s)\<lparr>owned := (owned (abs_store A s))(fresh s \<mapsto> d)\<rparr> \<or>
      v = Qfalse \<and> fm_inv A s' \<and> abs_store A s' = abs_store A s"
    using frame_new_refines [OF assms(1,2), of d] assms(3) by (auto split: if_splits)
  have "v \<noteq> Qfalse"
    using assms(3) by (auto simp: rb_czmq_frame_s_new_def rb_scan_args_01_def NIL_P_def ZmqAssertSysError_def
        rb_czmq_alloc_frame_def invoke_def split: prod.splits if_splits)
  with st have v: "v = Frame (fresh s)" and inv: "fm_inv A s'"
    and abs: "abs_store A s' = (abs_store A s)\<lparr>owned := (owned (abs_store A s))(fresh s \<mapsto> d)\<rparr>" by auto
  have "owned (abs_store A s') (fresh s) = Some d" by (simp add: abs)
  then have b: "frame_body A s' v = Some d" using owned_body [OF inv] v by blast
  have reads: "rb_czmq_frame_data A x s' = Return (RString c) s'" if "frame_body A s' x = Some c" for x c
    using that by (rule frame_bodyE) (simp add: frame_data.reads [OF doc])
  have "rb_czmq_frame_size A v s' = Return (LONG2FIX (int (length d))) s'"
    "rb_czmq_frame_gone v s' = Return Qfalse s'" "rb_czmq_frame_to_s A v s' = Return (RString d) s'"
    by (rule frame_bodyE [OF b];
        simp add: frame_size.reads [OF doc] frame_to_s.reads [OF doc] rb_czmq_frame_gone_def accessible_guard)+
  moreover have "rb_czmq_frame_data A (Frame p) s' = Return (RString c) s'"
    if "contents (abs_store A s) m = Some xs" "(p, c) \<in> set xs" for m xs p c
    using held_body [OF inv, of m xs p c] that abs by (simp add: reads)
  ultimately show ?thesis using reads [OF b] by blast
qed



lemma size_difference:
  assumes "m < 2 ^ 63" "n < 2 ^ 63"
  shows "sint (of_nat m - of_nat n :: 64 word) = int m - int n"
proof -
  have diff: "(of_nat m - of_nat n :: 64 word) = word_of_int (int m - int n)"
    by simp
  have "int m < int (2 ^ 63)" "int n < int (2 ^ 63)"
    using assms by (simp_all only: of_nat_less_iff)
  then have "- (2 ^ 63) \<le> int m - int n" "int m - int n < 2 ^ 63"
    by simp_all
  then show ?thesis
    unfolding diff by (subst sint_sbintrunc') (simp add: signed_take_bit_int_eq_self)
qed

text \<open>
  \<^verbatim>\<open><=>\<close> on two frames the program can read returns the sign of the difference of their sizes,
  for sizes below 2^63, and \<^verbatim>\<open>==\<close> is true exactly on equal bodies; both change nothing.
\<close>

lemma frame_comparisons:
  assumes "zframe_doc A" and "frame_body A s x = Some a" and "frame_body A s y = Some b"
    and "length a < 2 ^ 63" and "length b < 2 ^ 63"
  shows "rb_czmq_frame_cmp A x y s = Return (Fixnum (sgn (int (length a) - int (length b)))) s \<and>
    rb_czmq_frame_equals A x y s = Return (if a = b then Qtrue else Qfalse) s"
proof (cases "x = y")
  case True
  then show ?thesis using assms by (simp add: rb_czmq_frame_cmp_def rb_czmq_frame_equals_def)
next
  case False
  obtain p f where p: "x = Frame p" "p \<noteq> NULL" "frames s p = Some f" "accessible s p"
    "zframes (view A (lib s)) (f_frame f) = Some a"
    using assms(2) by (rule frame_bodyE)
  obtain q g where q: "y = Frame q" "q \<noteq> NULL" "frames s q = Some g" "accessible s q"
    "zframes (view A (lib s)) (f_frame g) = Some b"
    using assms(3) by (rule frame_bodyE)
  have nn: "f_frame g \<noteq> NULL"
    by (rule live_not_null [OF zframe_docD(3) [OF assms(1)] q(5)])
  show ?thesis
    using p q nn False zframe_liveD(1,8) [OF assms(1) p(5)] zframe_liveD(1) [OF assms(1) q(5)]
      size_difference [OF assms(4,5)]
    by (auto simp: rb_czmq_frame_cmp_def rb_czmq_frame_equals_def rb_czmq_frame_eql_p_def accessible_guard
        Let_def sgn_if)
qed

section \<open>Messages\<close>

text \<open>
  C21: \<^verbatim>\<open>to_a\<close> returns the frame objects of a message in order, each of them reads its body, and
  \<^verbatim>\<open>size\<close> and \<^verbatim>\<open>content_size\<close> are the number of frames and the sum of their lengths.
\<close>

theorem message_reads_frames:
  assumes "lib_doc A" and "fm_inv A s" and "contents (abs_store A s) m = Some xs"
  shows "(\<exists>s' v. rb_czmq_message_to_a A (Message m) s = Return v s' \<and>
      ary s' v = map (\<lambda>(p, b). Frame p) xs \<and> fm_inv A s' \<and> abs_store A s' = abs_store A s) \<and>
    rb_czmq_message_size A (Message m) s = Return (INT2NUM (int (length xs))) s \<and>
    rb_czmq_message_content_size A (Message m) s = Return (INT2NUM (int (sum_list (map (length \<circ> snd) xs)))) s \<and>
    (\<forall>(p, b) \<in> set xs. rb_czmq_frame_data A (Frame p) s = Return (RString b) s)"
proof -
  have "rb_czmq_frame_data A (Frame p) s = Return (RString b) s" if "(p, b) \<in> set xs" for p b
    using held_body [OF assms(2,3) that]
    by (rule frame_bodyE) (simp add: frame_data.reads [OF lib_docD(2) [OF assms(1)]])
  then show ?thesis
    using to_a_refines [OF assms] message_size_run [OF assms] by blast
qed

theorem message_reads_frames_witness:
  "rb_czmq_message_size ref (Message 1) vm1 = Return (Fixnum 2) vm1 \<and>
   rb_czmq_frame_data ref (Frame 3) vm1 = Return (RString ''b'') vm1"
proof -
  have "INT2NUM (int (length [(2 :: nat, ''a''), (3, ''b'')])) = Fixnum 2"
    by (subst INT2NUM_id) simp_all
  then show ?thesis
    using message_reads_frames [OF ref_lib_doc vm1_inv vm1_contents(1)] by auto
qed

text \<open>
  C16: Decoding the encoding of a message gives a new message whose frames have the same bodies in
  the same order, or nil exactly when libczmq returns no message; for bodies below 255 bytes the encoding is
  the documented one, a length byte before each body.
\<close>

theorem decode_encode:
  assumes "lib_doc A" and "fm_inv A s" and "contents (abs_store A s) m = Some xs"
  shows "\<exists>cs. rb_czmq_message_encode A (Message m) s = Return (RString cs) s \<and>
    (if fst (zmsg_decode A cs (lib s)) = NULL
     then steps_to A (rb_czmq_message_s_decode A (RString cs) s) Qnil (abs_store A s)
     else steps_to A (rb_czmq_message_s_decode A (RString cs) s) (Message (fresh s))
      ((abs_store A s)\<lparr>contents := (contents (abs_store A s))(fresh s \<mapsto>
        zip [Suc (fresh s)..<Suc (fresh s) + length xs] (map snd xs))\<rparr>)) \<and>
    ((\<forall>b \<in> snd ` set xs. length b < 255) \<longrightarrow> cs = encode_short (map snd xs))"
proof -
  obtain h where enc: "rb_czmq_message_encode A (Message m) s = Return (RString (zmsg_encode A h (lib s))) s"
    and dec: "\<And>w'. zmsg_alloc_doc A w' (map snd xs) (zmsg_decode A (zmsg_encode A h (lib s)) w')"
    and short: "(\<forall>b\<in>snd ` set xs. length b < 255) \<Longrightarrow> zmsg_encode A h (lib s) = encode_short (map snd xs)"
    using message_encode_run [OF assms] by blast
  show ?thesis
    using enc short decode_refines [OF assms(1,2) dec] unfolding length_map
    by (intro exI [of _ "zmsg_encode A h (lib s)"]) blast
qed

theorem decode_encode_witness:
  "rb_czmq_message_encode ref (Message 1) vm1 = Return (RString [CHR 0x01, CHR ''a'', CHR 0x01, CHR ''b'']) vm1"
proof -
  have "encode_short [''a'', ''b''] = [CHR 0x01, CHR ''a'', CHR 0x01, CHR ''b'']"
    by code_simp
  then show ?thesis
    using decode_encode [OF ref_lib_doc vm1_inv vm1_contents(1)] by auto
qed

section \<open>Where the bookkeeping breaks\<close>

text \<open>A frame object whose guards pass although its czmq frame is not allocated: reading it faults.\<close>

lemma dangling_size:
  assumes "p \<noteq> NULL" "frames s p = Some f" "accessible s p" "zframes (view A (lib s)) (f_frame f) = None"
  shows "rb_czmq_frame_size A (Frame p) s = Crash BadHandle"
  using assms by (simp add: rb_czmq_frame_size_def accessible_guard)

text \<open>
  C27: \<^verbatim>\<open>popstr\<close> returns the first body up to its first null byte and libczmq frees that frame, but a
  frame object for it that the program got before (from \<^verbatim>\<open>first\<close> or \<^verbatim>\<open>to_a\<close>) still points to the
  message and passes the guards: it says it is not gone, and reading it hands the freed frame to
  libczmq.
\<close>

theorem popstr_leaves_dangling_frame:
  assumes doc: "lib_doc A" and inv: "fm_inv A s" and m: "contents (abs_store A s) m = Some ((p, b) # xs)"
  shows "\<exists>s'. rb_czmq_message_popstr A (Message m) s = Return (RString (c_str b)) s' \<and>
    rb_czmq_frame_gone (Frame p) s' = Return Qfalse s' \<and>
    rb_czmq_frame_size A (Frame p) s' = Crash BadHandle"
proof -
  let ?v = "view A (lib s)"
  obtain w qs where m: "msg_at A s m w qs" and "(p, b) # xs = items (frames s) (zframes ?v) qs"
    by (rule contentsE [OF inv m])
  then obtain ps where qs: "qs = p # ps" and b: "b = body_of (frames s) (zframes ?v) p"
    by (cases qs) auto
  note m = m [unfolded qs]
  note at = msg_atD [OF m]
  obtain f where f: "frames s p = Some f" "f_flags f = 0" "f_message f = m" "p \<noteq> NULL"
    "czframe (frames s) p = f_frame f" "zframes ?v (f_frame f) = Some b"
    unfolding b by (rule held_frame [OF inv m, of p]) simp_all
  obtain w1 where pop: "zmsg_popstr A (m_message w) (lib s) = (Some b, w1)"
    and v1: "view A w1 = ?v\<lparr>zframes := (zframes ?v)(f_frame f := None),
      zmsgs := (zmsgs ?v)(m_message w \<mapsto> map (czframe (frames s)) ps)\<rparr>"
    using zmsg_liveD(9,10) [OF lib_docD(3) [OF doc] at(7)] f(5,6)
    by (cases "zmsg_popstr A (m_message w) (lib s)") simp
  have live: "zlists (view A w1) (m_frames w) = Some (FO p # map FO ps)" using v1 at by simp
  obtain w2 where lpop: "zlist_pop A (m_frames w) w1 = (Some (FO p), w2)"
    and v2: "view A w2 = (view A w1)\<lparr>zlists := (zlists ?v)(m_frames w \<mapsto> map FO ps)\<rparr>"
    using zlist_liveD(5,6) [OF lib_docD(1) [OF doc] live] v1
    by (cases "zlist_pop A (m_frames w) w1") simp
  let ?s = "s\<lparr>lib := w2\<rparr>"
  have acc: "accessible ?s p" using f at by (simp add: accessible_def)
  have "rb_czmq_message_popstr A (Message m) s = Return (RString (c_str b)) ?s"
    using at live by (simp add: rb_czmq_message_popstr_def pop lpop)
  moreover have "rb_czmq_frame_size A (Frame p) ?s = Crash BadHandle"
    using f v1 v2 acc by (intro dangling_size [of p ?s f A]) simp_all
  moreover have "rb_czmq_frame_gone (Frame p) ?s = Return Qfalse ?s"
    using f acc by (simp add: rb_czmq_frame_gone_def accessible_guard)
  ultimately show ?thesis by blast
qed

theorem popstr_leaves_dangling_frame_witness:
  "\<exists>s'. rb_czmq_message_popstr ref (Message 1) vm1 = Return (RString ''a'') s' \<and>
     rb_czmq_frame_size ref (Frame 2) s' = Crash BadHandle"
  using popstr_leaves_dangling_frame [OF ref_lib_doc vm1_inv vm1_contents(1)] by auto

text \<open>
  C28: \<^verbatim>\<open>destroy\<close> on a frame that belongs to a live message returns nil and frees nothing, but clears
  the pointer of the frame object, which still passes the guards: the next reader hands a null
  frame to libczmq.
\<close>

theorem destroy_of_held_frame:
  assumes doc: "lib_doc A" and inv: "fm_inv A s"
    and m: "contents (abs_store A s) m = Some xs" and p: "(p, b) \<in> set xs"
  shows "\<exists>s'. rb_czmq_frame_destroy A (Frame p) s = Return Qnil s' \<and> lib s' = lib s \<and>
    rb_czmq_frame_gone (Frame p) s' = Return Qfalse s' \<and>
    rb_czmq_frame_size A (Frame p) s' = Crash BadHandle"
proof -
  let ?v = "view A (lib s)"
  obtain w ps where m: "msg_at A s m w ps" and xs: "xs = items (frames s) (zframes ?v) ps"
    by (rule contentsE [OF inv m])
  note at = msg_atD [OF m]
  have "p \<in> set ps" using p xs by auto
  then obtain f where f: "frames s p = Some f" "f_flags f = 0" "f_message f = m" "p \<noteq> NULL"
    by (rule held_frame [OF inv m])
  let ?s = "s\<lparr>frames := (frames s)(p \<mapsto> f\<lparr>f_frame := NULL\<rparr>)\<rparr>"
  have acc: "accessible s p" "accessible ?s p" using f at by (simp_all add: accessible_def)
  have "rb_czmq_frame_destroy A (Frame p) s = Return Qnil ?s"
    using f acc by (simp add: rb_czmq_frame_destroy_def accessible_guard rb_czmq_free_frame_def call_def)
  moreover have "rb_czmq_frame_size A (Frame p) ?s = Crash BadHandle"
    using f zframe_docD(3) [OF lib_docD(2) [OF doc]] acc(2)
    by (intro dangling_size [of p ?s "f\<lparr>f_frame := NULL\<rparr>" A]) simp_all
  moreover have "rb_czmq_frame_gone (Frame p) ?s = Return Qfalse ?s"
    using f acc by (simp add: rb_czmq_frame_gone_def accessible_guard)
  ultimately show ?thesis by (intro exI [of _ ?s]) simp
qed

theorem destroy_of_held_frame_witness:
  "\<exists>s'. rb_czmq_frame_destroy ref (Frame 2) vm1 = Return Qnil s' \<and>
     rb_czmq_frame_size ref (Frame 2) s' = Crash BadHandle"
  using destroy_of_held_frame [OF ref_lib_doc vm1_inv vm1_contents(1), of 2 "''a''"] by auto

text \<open>
  C29: When a message object is collected while the program still holds one of its frame objects,
  the message struct is freed but the frame object keeps pointing to it: the next call on the frame
  reads the freed struct.
\<close>

theorem collected_message_leaves_dangling_frame:
  assumes doc: "lib_doc A" and inv: "fm_inv A s"
    and m: "contents (abs_store A s) m = Some xs" and p: "(p, b) \<in> set xs"
  shows "\<exists>s'. rb_czmq_free_message_gc A m s = Return () s' \<and>
    rb_czmq_frame_gone (Frame p) s' = Crash UseAfterFree \<and>
    rb_czmq_frame_size A (Frame p) s' = Crash UseAfterFree"
proof -
  obtain w ps where m: "msg_at A s m w ps" and xs: "xs = items (frames s) (zframes (view A (lib s))) ps"
    by (rule contentsE [OF inv m])
  have "p \<in> set ps" using p xs by auto
  then obtain f where f: "frames s p = Some f" "f_flags f = 0" "f_message f = m" "p \<noteq> NULL"
    by (rule held_frame [OF inv m])
  obtain s1 where run: "rb_czmq_free_message A m s = Return () s1" and "frames s1 = frames s"
    by (rule free_message_run [OF doc inv m])
  then show ?thesis
    using f msg_atD(3) [OF m]
    by (intro exI [of _ "s1\<lparr>msgs := (msgs s1)(m := None)\<rparr>"])
      (simp add: rb_czmq_free_message_gc_def call_def rb_czmq_frame_gone_def rb_czmq_frame_size_def
        ZmqReturnNilUnlessFrameOwned_def frame_accessible_def)
qed

theorem collected_message_leaves_dangling_frame_witness:
  "\<exists>s'. rb_czmq_free_message_gc ref 1 vm1 = Return () s' \<and>
     rb_czmq_frame_size ref (Frame 3) s' = Crash UseAfterFree"
  using collected_message_leaves_dangling_frame [OF ref_lib_doc vm1_inv vm1_contents(1), of 3 "''b''"] by auto

text \<open>
  \<^verbatim>\<open>eql?\<close> and \<^verbatim>\<open><=>\<close> differ on a frame that went with a destroyed message: \<^verbatim>\<open>eql?\<close> raises, but \<^verbatim>\<open><=>\<close>
  checks the ownership of the receiver twice instead of that of its argument, and hands the freed
  frame to libczmq.
\<close>

lemma cmp_reads_gone_frame:
  assumes doc: "lib_doc A" and inv: "fm_inv A s" and q: "owned (abs_store A s) q = Some c"
    and m: "contents (abs_store A s) m = Some xs" and p: "(p, b) \<in> set xs"
  shows "\<exists>s' e. rb_czmq_message_destroy A (Message m) s = Return Qnil s' \<and>
    rb_czmq_frame_gone (Frame p) s' = Return Qtrue s' \<and>
    rb_czmq_frame_equals A (Frame q) (Frame p) s' = Raise (ZmqError e) s' \<and>
    rb_czmq_frame_cmp A (Frame q) (Frame p) s' = Crash BadHandle"
proof -
  let ?v = "view A (lib s)"
  obtain w ps where m: "msg_at A s m w ps" and xs: "xs = items (frames s) (zframes ?v) ps"
    by (rule contentsE [OF inv m])
  note at = msg_atD [OF m]
  obtain g where "frame_at A s q g c" by (rule ownedE [OF inv q])
  note g = frame_atD [OF this]
  have pin: "p \<in> set ps" using p xs by auto
  then obtain f where f: "frames s p = Some f" "f_flags f = 0" "f_message f = m" "p \<noteq> NULL"
    "czframe (frames s) p = f_frame f" "f_frame f \<noteq> NULL \<or> zframes ?v NULL \<noteq> None"
    by (rule held_frame [OF inv m])
  have ff: "f_frame f \<noteq> NULL" using f(6) zframe_docD(3) [OF lib_docD(2) [OF doc]] by simp
  obtain s1 where run: "rb_czmq_free_message A m s = Return () s1" and fr: "frames s1 = frames s"
    and ms: "msgs s1 = (msgs s)(m \<mapsto> \<lparr>m_message = NULL, m_flags = 0, m_frames = NULL\<rparr>)"
    and zf: "zframes (view A (lib s1)) = zframes ?v |` (- set (map (czframe (frames s)) ps))"
    by (rule free_message_run [OF doc inv m])
  have dead: "zframes (view A (lib s1)) (f_frame f) = None"
    using zf image_eqI [of "f_frame f" "czframe (frames s)" p "set ps"] pin f(5)
    by (simp add: restrict_map_def)
  have "f_frame g \<noteq> czframe (frames s) p'" if "p' \<in> set ps" for p'
    using ownsD(3) [OF fm_invD [OF inv], of q p'] held_readable [where ms = "msgs s", OF at(6,1,2,3) that]
      held_not_owned [OF at(6) g(1,2)] that g by (auto simp: readable_def czframe_def)
  then have live: "zframes (view A (lib s1)) (f_frame g) = Some c"
    using g(5) zf by (auto simp: restrict_map_def)
  have gone: "gone s1 p" using f fr ms by (simp add: gone_def)
  have acc: "accessible s1 q" using g fr by (simp add: accessible_def)
  have neq: "q \<noteq> p" using f(2) g(1,2) f(1) by auto
  show ?thesis
    using run at fr f g gone acc neq ff dead live
    by (intro exI [of _ s1] exI [of _ "''Cannot access frame that belongs to another message or is gone.''"])
      (simp add: rb_czmq_message_destroy_def call_def rb_czmq_frame_gone_def gone_guard accessible_guard
        rb_czmq_frame_equals_def rb_czmq_frame_eql_p_def rb_czmq_frame_cmp_def)
qed

text \<open>Calls of libczmq that take the first element, as single equations.\<close>

lemma pop_runs:
  assumes "lib_doc A"
  shows "zmsgs (view A w) m = Some (f # fs) \<Longrightarrow> \<exists>w'. zmsg_pop A m w = (f, w') \<and>
      view A w' = (view A w)\<lparr>zmsgs := (zmsgs (view A w))(m \<mapsto> fs)\<rparr>"
    and "zlists (view A w) l = Some (x # xs) \<Longrightarrow> \<exists>w'. zlist_pop A l w = (Some x, w') \<and>
      view A w' = (view A w)\<lparr>zlists := (zlists (view A w))(l \<mapsto> xs)\<rparr>"
    and "zmsgs (view A w) m = Some fs \<Longrightarrow> \<exists>w'. zmsg_first A m w = ((case fs of [] \<Rightarrow> NULL | f # _ \<Rightarrow> f), w') \<and>
      view A w' = view A w"
  using zmsg_liveD(5,6) [OF lib_docD(3) [OF assms], of w m "f # fs"] zlist_liveD(5,6) [OF lib_docD(1) [OF assms], of w l "x # xs"]
    zmsg_liveD(12,13) [OF lib_docD(3) [OF assms], of w m fs]
  by (metis prod.collapse list.case(2) list.sel(3))+

text \<open>\<^verbatim>\<open>unwrap\<close> up to the look at the frame behind the first.\<close>

lemma unwrap_start:
  assumes doc: "lib_doc A" and inv: "fm_inv A s" and m: "msg_at A s m w (p # rs)"
  obtains f w1 w2 w3 where "frames s p = Some f" "f_frame f \<noteq> NULL"
    "zmsg_pop A (m_message w) (lib s) = (f_frame f, w1)" "zlists (view A w1) (m_frames w) = Some (FO p # map FO rs)"
    "zlist_pop A (m_frames w) w1 = (Some (FO p), w2)"
    "zmsg_first A (m_message w) w2 = ((case map (czframe (frames s)) rs of [] \<Rightarrow> NULL | h # _ \<Rightarrow> h), w3)"
    "view A w3 = (view A (lib s))\<lparr>zmsgs := (zmsgs (view A (lib s)))(m_message w \<mapsto> map (czframe (frames s)) rs),
       zlists := (zlists (view A (lib s)))(m_frames w \<mapsto> map FO rs)\<rparr>"
    "zmsgs (view A w2) (m_message w) \<noteq> None"
proof -
  note at = msg_atD [OF m]
  obtain f where f: "frames s p = Some f" "f_flags f = 0" "f_message f = m" "p \<noteq> NULL"
    "czframe (frames s) p = f_frame f" "f_frame f \<noteq> NULL \<or> zframes (view A (lib s)) NULL \<noteq> None"
    by (rule held_frame [OF inv m, of p]) simp_all
  have nn: "f_frame f \<noteq> NULL" using f(6) zframe_docD(3) [OF lib_docD(2) [OF doc]] by simp
  obtain w1 where w1: "zmsg_pop A (m_message w) (lib s) = (f_frame f, w1)"
      "view A w1 = (view A (lib s))\<lparr>zmsgs := (zmsgs (view A (lib s)))(m_message w \<mapsto> map (czframe (frames s)) rs)\<rparr>"
    using pop_runs(1) [OF doc, of "lib s" "m_message w" "f_frame f" "map (czframe (frames s)) rs"] at(7) f(5) by auto
  have l: "zlists (view A w1) (m_frames w) = Some (FO p # map FO rs)" using w1(2) at(8) by simp
  obtain w2 where w2: "zlist_pop A (m_frames w) w1 = (Some (FO p), w2)"
      "view A w2 = (view A w1)\<lparr>zlists := (zlists (view A w1))(m_frames w \<mapsto> map FO rs)\<rparr>"
    using pop_runs(2) [OF doc l] by blast
  have "zmsgs (view A w2) (m_message w) = Some (map (czframe (frames s)) rs)" using w1(2) w2(2) by simp
  from pop_runs(3) [OF doc this] this show thesis using that [OF f(1) nn w1(1) l w2(1)] w1(2) w2(2) by auto
qed

text \<open>The frame object of a frame that \<^verbatim>\<open>unwrap\<close> dropped.\<close>

lemma unwrap_drops:
  assumes doc: "lib_doc A" and inv: "fm_inv A s" and m: "msg_at A s m w (p # q # rs)"
    and empty: "body_of (frames s) (zframes (view A (lib s))) q = []"
  shows "\<exists>s'. rb_czmq_message_unwrap A (Message m) s = Return (Frame p) s' \<and>
    rb_czmq_frame_gone (Frame q) s' = Return Qfalse s' \<and> rb_czmq_frame_size A (Frame q) s' = Crash BadHandle"
proof -
  note at = msg_atD [OF m]
  obtain f w1 w2 w3 where start: "frames s p = Some f" "f_frame f \<noteq> NULL"
    "zmsg_pop A (m_message w) (lib s) = (f_frame f, w1)" "zlists (view A w1) (m_frames w) = Some (FO p # map FO (q # rs))"
    "zlist_pop A (m_frames w) w1 = (Some (FO p), w2)"
    "zmsg_first A (m_message w) w2 = ((case map (czframe (frames s)) (q # rs) of [] \<Rightarrow> NULL | h # _ \<Rightarrow> h), w3)"
    and v3: "view A w3 = (view A (lib s))\<lparr>zmsgs := (zmsgs (view A (lib s)))(m_message w \<mapsto> map (czframe (frames s)) (q # rs)),
       zlists := (zlists (view A (lib s)))(m_frames w \<mapsto> map FO (q # rs))\<rparr>"
    and live: "zmsgs (view A w2) (m_message w) \<noteq> None"
    by (rule unwrap_start [OF doc inv m])
  obtain g where g: "frames s q = Some g" "f_flags g = 0" "f_message g = m" "q \<noteq> NULL"
    "czframe (frames s) q = f_frame g" "zframes (view A (lib s)) (f_frame g) = Some []"
    by (rule held_frame [OF inv m, of q]) (simp_all add: empty)
  have body: "zframes (view A w3) (f_frame g) = Some []" using v3 g(6) by simp
  have "zmsgs (view A w3) (m_message w) = Some (f_frame g # map (czframe (frames s)) rs)" using v3 g(5) by simp
  from pop_runs(1) [OF doc this] obtain w4 where w4: "zmsg_pop A (m_message w) w3 = (f_frame g, w4)"
    "view A w4 = (view A w3)\<lparr>zmsgs := (zmsgs (view A w3))(m_message w \<mapsto> map (czframe (frames s)) rs)\<rparr>" by blast
  have b4: "zframes (view A w4) (f_frame g) = Some []" using w4(2) body by simp
  note v5 = zframe_liveD(5) [OF lib_docD(2) [OF doc] b4]
  have l5: "zlists (view A (zframe_destroy A (f_frame g) w4)) (m_frames w) = Some (FO q # map FO rs)"
    using v5 w4(2) v3 by simp
  obtain w6 where w6: "zlist_pop A (m_frames w) (zframe_destroy A (f_frame g) w4) = (Some (FO q), w6)"
    and v6: "view A w6 = (view A (zframe_destroy A (f_frame g) w4))
      \<lparr>zlists := (zlists (view A (zframe_destroy A (f_frame g) w4)))(m_frames w \<mapsto> map FO rs)\<rparr>"
    using pop_runs(2) [OF doc l5] by blast
  let ?s = "s\<lparr>lib := w6, frames := (frames s)(p \<mapsto> \<lparr>f_frame = f_frame f, f_message = NULL, f_flags = 1\<rparr>)\<rparr>"
  have "f_flags f = 0" "p \<noteq> NULL" using at(6) start(1) ownsD(2) [OF fm_invD [OF inv] start(1)]
    by (auto simp: holds_frames_def frame_ok_def)
  moreover have "zframe_size A (f_frame g) w3 = 0" using zframe_liveD(1) [OF lib_docD(2) [OF doc] body] by simp
  ultimately have "rb_czmq_message_unwrap A (Message m) s = Return (Frame p) ?s"
    using at start g live body w4(1) b4 l5 w6 by (simp add: rb_czmq_message_unwrap_def Let_def)
  moreover have "q \<noteq> p" using at(6) by (auto simp: holds_frames_def)
  then have acc: "accessible ?s q" "frames ?s q = Some g" using g at by (simp_all add: accessible_def)
  moreover have "rb_czmq_frame_size A (Frame q) ?s = Crash BadHandle"
    using v6 v5 g acc by (intro dangling_size [of q ?s g A]) simp_all
  moreover have "rb_czmq_frame_gone (Frame q) ?s = Return Qfalse ?s"
    using g acc by (simp add: rb_czmq_frame_gone_def accessible_guard)
  ultimately show ?thesis by blast
qed

text \<open>
  C26: \<^verbatim>\<open>unwrap\<close> pops the first frame; when the next frame is not empty it is \<^verbatim>\<open>pop\<close>. When the next frame
  is empty libczmq frees it, but its frame object still points to the message and reading it faults.
  On a message of fewer than two frames a null frame is handed to libczmq.
\<close>

theorem unwrap_cases:
  assumes doc: "lib_doc A" and inv: "fm_inv A s" and m: "contents (abs_store A s) m = Some ys"
  shows "case ys of
      (p, b) # (q, c # cs) # xs \<Rightarrow>
        steps_to A (rb_czmq_message_unwrap A (Message m) s) (Frame p)
          \<lparr>owned = (owned (abs_store A s))(p \<mapsto> b), contents = (contents (abs_store A s))(m \<mapsto> (q, c # cs) # xs)\<rparr>
    | (p, b) # (q, []) # xs \<Rightarrow>
        \<exists>s'. rb_czmq_message_unwrap A (Message m) s = Return (Frame p) s' \<and>
          rb_czmq_frame_gone (Frame q) s' = Return Qfalse s' \<and>
          rb_czmq_frame_size A (Frame q) s' = Crash BadHandle
    | _ \<Rightarrow> rb_czmq_message_unwrap A (Message m) s = Crash BadHandle"
proof -
  let ?v = "view A (lib s)"
  obtain w qs where m: "msg_at A s m w qs" and ys: "ys = items (frames s) (zframes ?v) qs"
    by (rule contentsE [OF inv m])
  note at = msg_atD [OF m]
  have null: "zframes (view A w') NULL = None" for w' by (rule zframe_docD(3) [OF lib_docD(2) [OF doc]])
  show ?thesis
  proof (cases qs)
    case Nil
    obtain w1 where "zmsg_pop A (m_message w) (lib s) = (NULL, w1)" "zmsgs (view A w1) (m_message w) = Some []"
      using zmsg_liveD(5,6) [OF lib_docD(3) [OF doc] at(7)] Nil by (cases "zmsg_pop A (m_message w) (lib s)") simp
    moreover obtain w2 where "zmsg_first A (m_message w) w1 = (NULL, w2)"
      using pop_runs(3) [OF doc calculation(2)] by auto
    ultimately show ?thesis using Nil at ys null by (simp add: rb_czmq_message_unwrap_def Let_def)
  next
    case (Cons p rs)
    note m = m [unfolded Cons]
    obtain f w1 w2 w3 where start: "frames s p = Some f" "f_frame f \<noteq> NULL"
      "zmsg_pop A (m_message w) (lib s) = (f_frame f, w1)" "zlists (view A w1) (m_frames w) = Some (FO p # map FO rs)"
      "zlist_pop A (m_frames w) w1 = (Some (FO p), w2)"
      "zmsg_first A (m_message w) w2 = ((case map (czframe (frames s)) rs of [] \<Rightarrow> NULL | h # _ \<Rightarrow> h), w3)"
      and v3: "view A w3 = ?v\<lparr>zmsgs := (zmsgs ?v)(m_message w \<mapsto> map (czframe (frames s)) rs),
         zlists := (zlists ?v)(m_frames w \<mapsto> map FO rs)\<rparr>"
      and live: "zmsgs (view A w2) (m_message w) \<noteq> None"
      by (rule unwrap_start [OF doc inv m])
    have p: "f_flags f = 0" "f_message f = m" "p \<noteq> NULL" "czframe (frames s) p = f_frame f"
      by (rule held_frame [OF inv m, of p]; use start(1) in simp)+
    note run = rb_czmq_message_unwrap_def at start p live
    show ?thesis
    proof (cases rs)
      case Nil
      then show ?thesis using ys Cons null by (simp add: run Let_def)
    next
      case rs: (Cons q ts)
      obtain g where g: "frames s q = Some g" "czframe (frames s) q = f_frame g"
        "zframes ?v (f_frame g) = Some (body_of (frames s) (zframes ?v) q)"
        by (rule held_frame [OF inv m, of q]) (use rs in simp_all)
      show ?thesis
      proof (cases "body_of (frames s) (zframes ?v) q")
        case body: (Cons c cs)
        have b: "zframes (view A w3) (f_frame g) = Some (c # cs)" using v3 g(3) body by simp
        then have "zframe_size A (f_frame g) w3 = length (c # cs)"
          by (rule zframe_liveD(1) [OF lib_docD(2) [OF doc]])
        then show ?thesis
          using take_refines [OF inv, of m w "[]" p rs] m body rs ys b g(2) v3 Cons
          by (simp add: run Let_def)
      next
        case Nil
        then show ?thesis using unwrap_drops [OF doc inv, of m w p q ts] m rs ys Cons by simp
      qed
    qed
  qed
qed

theorem unwrap_cases_witness: "rb_czmq_message_unwrap ref (Message 5) vm1 = Crash BadHandle"
  using unwrap_cases [OF ref_lib_doc vm1_inv vm1_contents(3)] by simp

lemma free_message_frames:
  assumes doc: "lib_doc A" and k: "msgs s k = Some v" "m_flags v = 1" "m_message v \<noteq> NULL" "m_frames v \<noteq> NULL"
    and live: "zmsgs (view A (lib s)) (m_message v) = Some fs" "zlists (view A (lib s)) (m_frames v) = Some xs"
  obtains s' where "rb_czmq_free_message A k s = Return () s'" "frames s' = frames s"
    "zframes (view A (lib s')) = zframes (view A (lib s)) |` (- set fs)"
proof -
  let ?w0 = "set_errno A 0 (lib s)"
  have v0: "view A ?w0 = view A (lib s)" by (simp add: zframe_docD lib_docD doc)
  note v1 = zmsg_liveD(18) [of A ?w0 "m_message v" fs, unfolded v0, OF lib_docD(3) [OF doc] live(1)]
  have l: "zlists (view A (zmsg_destroy A (m_message v) ?w0)) (m_frames v) = Some xs"
    using v1 live by simp
  note v2 = zlist_liveD(7) [OF lib_docD(1) [OF doc] l]
  show thesis
    by (rule that [of "s\<lparr>lib := zlist_destroy A (m_frames v) (zmsg_destroy A (m_message v) ?w0),
        msgs := (msgs s)(k \<mapsto> \<lparr>m_message = NULL, m_flags = 0, m_frames = NULL\<rparr>)\<rparr>"])
      (use k live v0 l v1 v2 in \<open>simp_all add: rb_czmq_free_message_def\<close>)
qed

text \<open>
  C30: \<^verbatim>\<open>remove\<close> does not check that the frame belongs to the message. Removing a frame that another
  message holds makes the frame object its owner although the other message still holds it: when
  that message and then the frame are destroyed, the czmq frame is freed twice.
\<close>

theorem remove_of_foreign_frame:
  assumes doc: "lib_doc A" and inv: "fm_inv A s"
    and m: "contents (abs_store A s) m = Some xs" and k: "contents (abs_store A s) k = Some ys"
    and p: "m \<noteq> k" "(p, b) \<in> set ys"
  shows "\<exists>s1 s2. rb_czmq_message_remove A (Message m) (Frame p) s = Return Qnil s1 \<and>
    rb_czmq_message_destroy A (Message k) s1 = Return Qnil s2 \<and>
    rb_czmq_frame_destroy A (Frame p) s2 = Crash BadHandle"
proof -
  let ?v = "view A (lib s)"
  obtain w ps where m: "msg_at A s m w ps" by (rule contentsE [OF inv m])
  obtain u qs where k: "msg_at A s k u qs" and ys: "ys = items (frames s) (zframes ?v) qs"
    by (rule contentsE [OF inv k])
  note at = msg_atD [OF m] and kt = msg_atD [OF k]
  have pin: "p \<in> set qs" using p ys by auto
  obtain f where f: "frames s p = Some f" "f_flags f = 0" "f_message f = k" "p \<noteq> NULL"
    "czframe (frames s) p = f_frame f" "zframes ?v (f_frame f) = Some (body_of (frames s) (zframes ?v) p)"
    by (rule held_frame [OF inv k pin]) simp_all
  have nn: "f_frame f \<noteq> NULL"
    by (rule live_not_null [OF zframe_docD(3) [OF lib_docD(2) [OF doc]] f(6)])
  have in_k: "f_frame f \<in> set (map (czframe (frames s)) qs)"
    using pin f(5) image_eqI [of "f_frame f" "czframe (frames s)" p "set qs"] by simp
  have sep: "f_frame f \<notin> set (map (czframe (frames s)) ps)" "FO p \<notin> set (map FO ps)"
    using other_messageD(3,4) [OF fm_invD [OF inv] kt(1,2,6) at(1,2,6) p(1)] pin in_k by auto
  let ?w1 = "zmsg_remove A (m_message w) (f_frame f) (lib s)"
  have v1: "view A ?w1 = ?v"
    using zmsg_liveD(11) [OF lib_docD(3) [OF doc] at(7), of "f_frame f"] sep(1) at(7)
    by (simp add: remove1_idem fun_upd_idem del: set_map)
  have l1: "zlists (view A ?w1) (m_frames w) = Some (map FO ps)" using v1 at by simp
  have v2: "view A (zlist_remove A (m_frames w) (FO p) ?w1) = ?v"
    using zlist_liveD(4) [OF lib_docD(1) [OF doc] l1, of "FO p"] sep(2) v1 at(8)
    by (simp add: remove1_idem fun_upd_idem del: set_map)
  let ?s1 = "s\<lparr>lib := zlist_remove A (m_frames w) (FO p) ?w1,
    frames := (frames s)(p \<mapsto> \<lparr>f_frame = f_frame f, f_message = NULL, f_flags = 1\<rparr>)\<rparr>"
  have r1: "rb_czmq_message_remove A (Message m) (Frame p) s = Return Qnil ?s1"
    using at f v1 by (simp add: rb_czmq_message_remove_def)
  obtain s2 where r2: "rb_czmq_free_message A k ?s1 = Return () s2" and fr: "frames s2 = frames ?s1"
    and zf: "zframes (view A (lib s2)) = zframes (view A (lib ?s1)) |` (- set (map (czframe (frames s)) qs))"
  proof -
    have "msgs ?s1 k = Some u" "zmsgs (view A (lib ?s1)) (m_message u) = Some (map (czframe (frames s)) qs)"
      "zlists (view A (lib ?s1)) (m_frames u) = Some (map FO qs)"
      using kt v2 by simp_all
    from free_message_frames [OF doc this(1) kt(2,4,5) this(2,3)] show thesis using that by blast
  qed
  have dead: "zframes (view A (lib s2)) (f_frame f) = None"
    using zf in_k by (simp add: restrict_map_def)
  have fp: "frames s2 p = Some \<lparr>f_frame = f_frame f, f_message = NULL, f_flags = 1\<rparr>" using fr by simp
  have acc: "accessible s2 p" using fp by (simp add: accessible_def)
  have "rb_czmq_message_destroy A (Message k) ?s1 = Return Qnil s2"
    using r2 kt by (simp add: rb_czmq_message_destroy_def call_def)
  moreover have "rb_czmq_frame_destroy A (Frame p) s2 = Crash BadHandle"
    using acc fp f nn dead
    by (simp add: rb_czmq_frame_destroy_def accessible_guard rb_czmq_free_frame_def call_def)
  ultimately show ?thesis using r1 by blast
qed

theorem remove_of_foreign_frame_witness:
  "\<exists>s1 s2. rb_czmq_message_remove ref (Message 5) (Frame 2) vm1 = Return Qnil s1 \<and>
    rb_czmq_message_destroy ref (Message 1) s1 = Return Qnil s2 \<and>
    rb_czmq_frame_destroy ref (Frame 2) s2 = Crash BadHandle"
  using remove_of_foreign_frame [OF ref_lib_doc vm1_inv vm1_contents(3,1), of 2 "''a''"] by simp

section \<open>Comparing messages\<close>

lemma encode_short_inj:
  assumes "\<forall>b\<in>set bs. length b < 255" "\<forall>b\<in>set cs. length b < 255" "encode_short bs = encode_short cs"
  shows "bs = cs"
proof -
  have b: "rdec (length bs + length cs) (encode_short bs) = Some bs"
    by (rule rdec_encode_short [OF assms(1)]) simp
  have c: "rdec (length bs + length cs) (encode_short cs) = Some cs"
    by (rule rdec_encode_short [OF assms(2)]) simp
  show ?thesis
    using trans [OF b [symmetric, unfolded assms(3)] c] by simp
qed

lemma length_encode: "length (encode_short bs) = length bs + sum_list (map length bs)"
  by (induction bs) (auto simp: encode_short_def)

lemma encode_no_NUL:
  assumes "\<forall>b\<in>set bs. 0 < length b \<and> length b < 255 \<and> NUL \<notin> set b"
  shows "NUL \<notin> set (encode_short bs)"
proof -
  have len: "NUL \<noteq> char_of (length b)" if "0 < length b \<and> length b < 255 \<and> NUL \<notin> set b" for b :: string
  proof
    assume "NUL = char_of (length b)"
    then have "of_char NUL = (of_char (char_of (length b)) :: nat)" by simp
    with that show False by simp
  qed
  show ?thesis
    unfolding encode_short_def using assms len by simp
qed

lemma eql_run:
  assumes doc: "lib_doc A" and inv: "fm_inv A s"
    and m: "contents (abs_store A s) m = Some xs" and k: "contents (abs_store A s) k = Some ys"
    and short: "\<forall>b \<in> snd ` (set xs \<union> set ys). length b < 255"
  shows "rb_czmq_message_eql_p A (Message m) (Message k) s = Return
    (if length xs = length ys \<and> sum_list (map (length \<circ> snd) xs) = sum_list (map (length \<circ> snd) ys) \<and>
        c_str (encode_short (map snd xs)) = c_str (encode_short (map snd ys)) then Qtrue else Qfalse) s"
proof -
  let ?v = "view A (lib s)"
  obtain w ps where m: "msg_at A s m w ps" and xs: "xs = items (frames s) (zframes ?v) ps"
    by (rule contentsE [OF inv m])
  obtain u qs where k: "msg_at A s k u qs" and ys: "ys = items (frames s) (zframes ?v) qs"
    by (rule contentsE [OF inv k])
  note at = msg_atD [OF m] and kt = msg_atD [OF k]
  have b: "bodies ?v (map (czframe (frames s)) ps) = map snd xs" "bodies ?v (map (czframe (frames s)) qs) = map snd ys"
    using xs ys by simp_all
  have enc: "zmsg_encode A (m_message w) (lib s) = encode_short (map snd xs)"
    "zmsg_encode A (m_message u) (lib s) = encode_short (map snd ys)"
    using zmsg_encodeD [OF lib_docD(3) [OF doc] at(7)] zmsg_encodeD [OF lib_docD(3) [OF doc] kt(7)] short
    unfolding b by auto
  have size: "zmsg_size A (m_message w) (lib s) = length xs" "zmsg_size A (m_message u) (lib s) = length ys"
    "zmsg_content_size A (m_message w) (lib s) = sum_list (map (length \<circ> snd) xs)"
    "zmsg_content_size A (m_message u) (lib s) = sum_list (map (length \<circ> snd) ys)"
    using zmsg_liveD(1,2) [OF lib_docD(3) [OF doc] at(7)] zmsg_liveD(1,2) [OF lib_docD(3) [OF doc] kt(7)]
    by (simp_all add: xs ys comp_def)
  have "length (encode_short (map snd zs)) = length zs + sum_list (map (length \<circ> snd) zs)" for zs :: "(ptr \<times> string) list"
    by (simp add: length_encode)
  then show ?thesis
    using at(1-5,7) kt(1-5,7)
    by (simp add: rb_czmq_message_eql_p_def ZmqAssertMessage_def enc size strncmp_eq_def)
qed

text \<open>
  C22: \<^verbatim>\<open>==\<close> on two messages with bodies of 1 to 254 bytes without null bytes is true exactly when
  their bodies are equal, in order.
\<close>

theorem message_equality:
  assumes "lib_doc A" and "fm_inv A s"
    and "contents (abs_store A s) m = Some xs" and "contents (abs_store A s) k = Some ys"
    and "\<forall>b \<in> snd ` (set xs \<union> set ys). 0 < length b \<and> length b < 255 \<and> NUL \<notin> set b"
  shows "rb_czmq_message_equals A (Message m) (Message k) s =
    Return (if map snd xs = map snd ys then Qtrue else Qfalse) s"
proof (cases "m = k")
  case True
  then show ?thesis using assms(3,4) by (simp add: rb_czmq_message_equals_def)
next
  case False
  have plain: "\<forall>b\<in>set (map snd xs). 0 < length b \<and> length b < 255 \<and> NUL \<notin> set b"
    "\<forall>b\<in>set (map snd ys). 0 < length b \<and> length b < 255 \<and> NUL \<notin> set b"
    using assms(5) by (simp_all add: ball_Un)
  note nn = plain [THEN encode_no_NUL]
  have "length xs = length ys \<and> sum_list (map (length \<circ> snd) xs) = sum_list (map (length \<circ> snd) ys) \<and>
      encode_short (map snd xs) = encode_short (map snd ys) \<longleftrightarrow> map snd xs = map snd ys"
    using encode_short_inj [of "map snd xs" "map snd ys"] assms(5)
    by (auto simp flip: map_map dest: map_eq_imp_length_eq)
  then show ?thesis
    using False eql_run [OF assms(1-4)] assms(5) nn by (auto simp: rb_czmq_message_equals_def)
qed

theorem message_equality_witness:
  "rb_czmq_message_equals ref (Message 1) (Message 5) vm1 = Return Qfalse vm1"
  using message_equality [OF ref_lib_doc vm1_inv vm1_contents(1,3)] by simp

text \<open>
  The comparison stops at the first null byte, and the length byte of an empty frame is one: two
  messages that start with an empty frame and agree in the number of frames and in the content size
  are \<^verbatim>\<open>eql?\<close>, whatever their other frames say.
\<close>

lemma message_equality_collision:
  assumes "lib_doc A" and "fm_inv A s"
    and "contents (abs_store A s) m = Some ((p, []) # xs)" and "contents (abs_store A s) k = Some ((q, []) # ys)"
    and "length xs = length ys" and "sum_list (map (length \<circ> snd) xs) = sum_list (map (length \<circ> snd) ys)"
    and "\<forall>b \<in> snd ` (set xs \<union> set ys). length b < 255"
  shows "rb_czmq_message_eql_p A (Message m) (Message k) s = Return Qtrue s"
proof -
  have "c_str (encode_short ([] # bs)) = []" for bs
    by (simp add: encode_short_def c_str_def char_of_def)
  then show ?thesis
    using eql_run [OF assms(1-4)] assms(5-7) by simp
qed

text \<open>Message 1 has the bodies \<^verbatim>\<open>""\<close> and \<^verbatim>\<open>"a"\<close>, message 4 has \<^verbatim>\<open>""\<close> and \<^verbatim>\<open>"b"\<close>.\<close>

definition world2 :: rworld where
  "world2 =
     \<lparr>rlimit = 8,
      rcells = (\<lambda>p. Dead)(1 := CMsg [3, 4] None, 2 := CList [FO 2, FO 3] None, 3 := CFrame [],
        4 := CFrame ''a'', 5 := CMsg [7, 8] None, 6 := CList [FO 5, FO 6] None, 7 := CFrame [],
        8 := CFrame ''b''),
      ropts = (\<lambda>p. Map.empty), rerr = 0, rint = False\<rparr>"

definition vm2 :: "rworld vm" where
  "vm2 = vm0\<lparr>lib := world2, fresh := 7,
     frames := [2 \<mapsto> \<lparr>f_frame = 3, f_message = 1, f_flags = 0\<rparr>,
                3 \<mapsto> \<lparr>f_frame = 4, f_message = 1, f_flags = 0\<rparr>,
                5 \<mapsto> \<lparr>f_frame = 7, f_message = 4, f_flags = 0\<rparr>,
                6 \<mapsto> \<lparr>f_frame = 8, f_message = 4, f_flags = 0\<rparr>],
     msgs := [1 \<mapsto> \<lparr>m_message = 1, m_flags = 1, m_frames = 2\<rparr>,
              4 \<mapsto> \<lparr>m_message = 5, m_flags = 1, m_frames = 6\<rparr>]\<rparr>"

lemma world2_view:
  "view ref world2 = \<lparr>zframes = [3 \<mapsto> [], 4 \<mapsto> ''a'', 7 \<mapsto> [], 8 \<mapsto> ''b''], zmsgs = [1 \<mapsto> [3, 4], 5 \<mapsto> [7, 8]],
     zlists = [2 \<mapsto> [FO 2, FO 3], 6 \<mapsto> [FO 5, FO 6]], zctxs = Map.empty, zsocks = Map.empty,
     zopts = (\<lambda>p. Map.empty), zloops = Map.empty,
     zbeacons = Map.empty\<rparr>"
  by (auto simp: rview_def cell_def world2_def fun_eq_iff)

lemma vm2_sel: "lib vm2 = world2" "fresh vm2 = 7"
  "frames vm2 = [2 \<mapsto> \<lparr>f_frame = 3, f_message = 1, f_flags = 0\<rparr>,
                3 \<mapsto> \<lparr>f_frame = 4, f_message = 1, f_flags = 0\<rparr>,
                5 \<mapsto> \<lparr>f_frame = 7, f_message = 4, f_flags = 0\<rparr>,
                6 \<mapsto> \<lparr>f_frame = 8, f_message = 4, f_flags = 0\<rparr>]"
  "msgs vm2 = [1 \<mapsto> \<lparr>m_message = 1, m_flags = 1, m_frames = 2\<rparr>,
              4 \<mapsto> \<lparr>m_message = 5, m_flags = 1, m_frames = 6\<rparr>]"
  by (simp_all add: vm2_def)

lemma vm2_contents:
  "contents (abs_store ref vm2) 1 = Some [(2, []), (3, ''a'')]"
  "contents (abs_store ref vm2) 4 = Some [(5, []), (6, ''b'')]"
  unfolding abs_store_def vm2_sel world2_view
  by (simp_all add: contents_of_def body_of_def czframe_def)

lemma vm2_held:
  "holds_frames (frames vm2) (zframes (view ref world2)) (zmsgs (view ref world2)) (zlists (view ref world2)) 1
     \<lparr>m_message = 1, m_flags = 1, m_frames = 2\<rparr> [2, 3]"
  "holds_frames (frames vm2) (zframes (view ref world2)) (zmsgs (view ref world2)) (zlists (view ref world2)) 4
     \<lparr>m_message = 5, m_flags = 1, m_frames = 6\<rparr> [5, 6]"
  unfolding vm2_sel world2_view by (simp_all add: holds_frames_def czframe_def)

lemma vm2_inv: "fm_inv ref vm2"
proof -
  have m: "messages_ok (frames vm2) (msgs vm2) (zframes (view ref world2)) (zmsgs (view ref world2)) (zlists (view ref world2)) 7"
    using vm2_held unfolding messages_ok_def message_ok_def vm2_sel(4)
    by (auto split: if_splits)
  have "frames_ok (frames vm2) (msgs vm2) (zframes (view ref world2)) (zlists (view ref world2)) 7"
    unfolding frames_ok_def frame_ok_def vm2_sel world2_view by auto
  moreover have "readable_inj (frames vm2) (msgs vm2)"
    unfolding vm2_sel readable_inj_def inj_on_def readable_def czframe_def by (auto split: if_splits)
  moreover have "handles_inj (msgs vm2) owned_message" "handles_inj (msgs vm2) m_frames"
    unfolding vm2_sel handles_inj_def owned_message_def by auto
  ultimately show ?thesis
    using m by (simp add: fm_inv_def owns_def vm2_sel(1,2))
qed

end
