(* ===== verification/Zmq_Module.thy ===== *)
theory Zmq_Module
  imports Zmq_Objects
begin

text \<open>
  rbczmq_ext.c: the functions and the constants of the module \<^verbatim>\<open>ZMQ\<close>.
\<close>

section \<open>Constants\<close>

text \<open>\<^verbatim>\<open>rb_const_get_at(rb_mZmq, id)\<close> for the constants \<^verbatim>\<open>Init_rbczmq_ext\<close> defines, by name.\<close>

definition Init_rbczmq_ext :: "'w czmq \<Rightarrow> (string \<times> int) list" where
  "Init_rbczmq_ext A =
     [(''POLLIN'', uint (ZMQ_POLLIN A)), (''POLLOUT'', uint (ZMQ_POLLOUT A)), (''POLLERR'', uint (ZMQ_POLLERR A)),
      (''PAIR'', socktype A ZMQ_PAIR), (''SUB'', socktype A ZMQ_SUB), (''PUB'', socktype A ZMQ_PUB),
      (''REQ'', socktype A ZMQ_REQ), (''REP'', socktype A ZMQ_REP), (''DEALER'', socktype A ZMQ_DEALER),
      (''ROUTER'', socktype A ZMQ_ROUTER), (''PUSH'', socktype A ZMQ_PUSH), (''PULL'', socktype A ZMQ_PULL),
      (''XSUB'', socktype A ZMQ_XSUB), (''XPUB'', socktype A ZMQ_XPUB), (''STREAM'', socktype A ZMQ_STREAM),
      (''EFSM'', errcode A EFSM), (''ENOCOMPATPROTO'', errcode A ENOCOMPATPROTO), (''ETERM'', errcode A ETERM),
      (''EMTHREAD'', errcode A EMTHREAD),
      (''EVENT_CONNECTED'', eventcode A ZMQ_EVENT_CONNECTED),
      (''EVENT_CONNECT_DELAYED'', eventcode A ZMQ_EVENT_CONNECT_DELAYED),
      (''EVENT_CONNECT_RETRIED'', eventcode A ZMQ_EVENT_CONNECT_RETRIED),
      (''EVENT_LISTENING'', eventcode A ZMQ_EVENT_LISTENING),
      (''EVENT_BIND_FAILED'', eventcode A ZMQ_EVENT_BIND_FAILED),
      (''EVENT_ACCEPTED'', eventcode A ZMQ_EVENT_ACCEPTED),
      (''EVENT_ACCEPT_FAILED'', eventcode A ZMQ_EVENT_ACCEPT_FAILED),
      (''EVENT_CLOSED'', eventcode A ZMQ_EVENT_CLOSED),
      (''EVENT_CLOSE_FAILED'', eventcode A ZMQ_EVENT_CLOSE_FAILED),
      (''EVENT_DISCONNECTED'', eventcode A ZMQ_EVENT_DISCONNECTED),
      (''EVENT_ALL'', eventcode A ZMQ_EVENT_ALL)]"

definition rb_const_get_ZMQ :: "'w czmq \<Rightarrow> string \<Rightarrow> (rvalue \<Rightarrow> ('w, 'a) vcmd) \<Rightarrow> ('w, 'a) vcmd" where
  "rb_const_get_ZMQ A name k =
     (case map_of (Init_rbczmq_ext A) name of
        Some n \<Rightarrow> k (INT2NUM n)
      | None \<Rightarrow> raise (NameError name))"

section \<open>Functions\<close>

definition rb_czmq_m_interrupted_p :: "'w czmq \<Rightarrow> ('w, rvalue) vcmd" where
  "rb_czmq_m_interrupted_p A =
     ask (zctx_interrupted A) (\<lambda>interrupted. ret (if interrupted then Qtrue else Qfalse))"

definition rb_czmq_m_version :: "'w czmq \<Rightarrow> ('w, rvalue) vcmd" where
  "rb_czmq_m_version A =
     (case zmq_version A of (major, minor, patch) \<Rightarrow>
        rb_ary_new3 [INT2NUM major, INT2NUM minor, INT2NUM patch] ret)"

definition rb_czmq_m_czmq_version :: "'w czmq \<Rightarrow> ('w, rvalue) vcmd" where
  "rb_czmq_m_czmq_version A =
     (case czmq_version A of (major, minor, patch) \<Rightarrow>
        rb_ary_new3 [INT2NUM major, INT2NUM minor, INT2NUM patch] ret)"

text \<open>The time is a 64-bit number of milliseconds.\<close>

definition rb_czmq_m_now :: "'w czmq \<Rightarrow> ('w, rvalue) vcmd" where
  "rb_czmq_m_now A = ask (zclock_time A) (\<lambda>msecs. ret (INT2NUM msecs))"

text \<open>
  \<^verbatim>\<open>zclock_log\<close> takes a format and its arguments, like \<^verbatim>\<open>printf\<close>. A format without arguments is
  harmless when each of its percent signs is doubled.
\<close>

fun format_ok :: "string \<Rightarrow> bool" where
  "format_ok [] \<longleftrightarrow> True"
| "format_ok (CHR ''%'' # CHR ''%'' # cs) \<longleftrightarrow> format_ok cs"
| "format_ok (c # cs) \<longleftrightarrow> c \<noteq> CHR ''%'' \<and> format_ok cs"

definition rb_czmq_m_log :: "rvalue \<Rightarrow> ('w, rvalue) vcmd" where
  "rb_czmq_m_log msg =
     Check_String msg (\<lambda>cs.
     StringValueCStr cs (\<lambda>format.
     require (format_ok format) FormatString (ret Qnil)))"

definition rb_czmq_m_error :: "'w czmq \<Rightarrow> ('w, rvalue) vcmd" where
  "rb_czmq_m_error A =
     ask (zmq_errno A) (\<lambda>err.
     if err = 0 then ret Qnil else rb_object_new (rb_cOther ''ZMQ::Error'') ret)"

definition rb_czmq_m_errno :: "'w czmq \<Rightarrow> ('w, rvalue) vcmd" where
  "rb_czmq_m_errno A = ask (zmq_errno A) (\<lambda>err. ret (INT2NUM err))"

definition rb_czmq_m_interrupted_bang :: "'w czmq \<Rightarrow> ('w, rvalue) vcmd" where
  "rb_czmq_m_interrupted_bang A = tell (interrupt A) (ret Qnil)"

section \<open>The proxy\<close>

definition rb_czmq_m_proxy_nogvl :: "'w czmq \<Rightarrow> ptr \<Rightarrow> ptr \<Rightarrow> ptr \<Rightarrow> ('w, int) vcmd" where
  "rb_czmq_m_proxy_nogvl A frontend backend capture =
     live_sock A frontend (live_sock A backend (
     let proxy = invoke (zmq_proxy A frontend backend capture) ret
     in if capture = NULL then proxy else live_sock A capture proxy))"

definition rb_czmq_m_proxy :: "'w czmq \<Rightarrow> rvalue list \<Rightarrow> ('w, rvalue) vcmd" where
  "rb_czmq_m_proxy A argv =
     rb_scan_args_21 argv (\<lambda>frontend backend capture.
     GetZmqSocket frontend (\<lambda>sock. deref socks sock (\<lambda>front.
     GetZmqSocket backend (\<lambda>sock. deref socks sock (\<lambda>back.
     let run = (\<lambda>capt.
       call (rb_czmq_m_proxy_nogvl A (s_socket front) (s_socket back) capt) (\<lambda>rc. ret (INT2NUM rc)))
     in if \<not> NIL_P capture then GetZmqSocket capture (\<lambda>sock. deref socks sock (\<lambda>capt. run (s_socket capt)))
        else run NULL)))))"

end
