(* ===== verification/Zmq_Context.thy ===== *)
theory Zmq_Context
  imports Zmq_Module
begin

text \<open>
  context.c: ZMQ contexts, one per process, and the sockets they own. The functions that run while
  the Ruby lock is released (\<^verbatim>\<open>nogvl\<close>) hold the mutex \<^verbatim>\<open>context_mutex\<close> for their whole body; here they
  are one step.
\<close>

section \<open>Creation and release\<close>

definition get_pid :: "(rvalue \<Rightarrow> ('w, 'a) vcmd) \<Rightarrow> ('w, 'a) vcmd" where
  "get_pid k = rd pid (\<lambda>getpid. k (INT2NUM getpid))"

definition rb_czmq_nogvl_zctx_destroy :: "'w czmq \<Rightarrow> ptr \<Rightarrow> ('w, rvalue) vcmd" where
  "rb_czmq_nogvl_zctx_destroy A ctx =
     tell (set_errno A 0) (
     deref ctxs ctx (\<lambda>c.
     rd pid (\<lambda>getpid.
     let finish =
       set_ctx ctx (\<lambda>c. c\<lparr>c_flags := set_flag (c_flags c) ZMQ_CONTEXT_DESTROYED\<rparr>) (ret Qnil)
     in if c_pid c = getpid then
          live_ctx A (c_ctx c) (
          tell (zctx_destroy A (c_ctx c)) (
          set_ctx ctx (\<lambda>c. c\<lparr>c_ctx := NULL\<rparr>) finish))
        else finish)))"

definition rb_czmq_nogvl_zsocket_destroy :: "'w czmq \<Rightarrow> ptr \<Rightarrow> ('w, rvalue) vcmd" where
  "rb_czmq_nogvl_zsocket_destroy A sock =
     tell (set_errno A 0) (
     deref socks sock (\<lambda>w.
     live_ctx A (s_ctx w) (live_sock A (s_socket w) (
     tell (zsocket_destroy A (s_ctx w) (s_socket w)) (
     ret Qnil)))))"

text \<open>
  Closing a socket, by the program, by its context or by the garbage collector. A socket without a
  context object is the pipe of a beacon, which closes it; here it is only marked.
\<close>

definition mark_socket_closed :: "ptr \<Rightarrow> ('w, unit) vcmd" where
  "mark_socket_closed socket =
     set_sock socket (\<lambda>w. w\<lparr>s_flags := set_flag (s_flags w) ZMQ_SOCKET_DESTROYED\<rparr>) (
     set_sock socket (\<lambda>w. w\<lparr>s_ctx := NULL\<rparr>) (
     set_sock socket (\<lambda>w. w\<lparr>s_socket := NULL\<rparr>) (
     set_sock socket (\<lambda>w. w\<lparr>s_state := ZMQ_SOCKET_DISCONNECTED\<rparr>) (
     ret ()))))"

definition rb_czmq_context_destroy_socket :: "'w czmq \<Rightarrow> ptr \<Rightarrow> ('w, unit) vcmd" where
  "rb_czmq_context_destroy_socket A socket =
     (if socket = NULL then ret ()
      else
        deref socks socket (\<lambda>w.
        if s_context w = Qfalse then ret ()
        else if s_context w = Qnil then mark_socket_closed socket
        else if s_ctx w \<noteq> NULL \<and> s_ctx_wrapper w \<noteq> NULL \<and> \<not> has (s_flags w) ZMQ_SOCKET_DESTROYED then
          deref ctxs (s_ctx_wrapper w) (\<lambda>ctx.
          live_list A (c_sockets ctx) (
          tell (zlist_remove A (c_sockets ctx) (PTR socket)) (
          if s_socket w \<noteq> NULL then
            call (rb_czmq_nogvl_zsocket_destroy A socket) (\<lambda>_. mark_socket_closed socket)
          else mark_socket_closed socket)))
        else mark_socket_closed socket))"

text \<open>\<^verbatim>\<open>socket = zlist_pop(ctx->sockets)\<close>, null at the end.\<close>

definition pop_socket :: "'w czmq \<Rightarrow> ptr \<Rightarrow> (ptr \<Rightarrow> ('w, 'a) vcmd) \<Rightarrow> ('w, 'a) vcmd" where
  "pop_socket A sockets k =
     live_list A sockets (
     invoke (zlist_pop A sockets) (\<lambda>item. case item of Some (PTR p) \<Rightarrow> k p | _ \<Rightarrow> k NULL))"

definition rb_czmq_free_ctx :: "'w czmq \<Rightarrow> ptr \<Rightarrow> ('w, unit) vcmd" where
  "rb_czmq_free_ctx A ctx =
     deref ctxs ctx (\<lambda>c.
     pop_socket A (c_sockets c) (
     while_do (\<lambda>socket. socket \<noteq> NULL)
       (\<lambda>socket. call (rb_czmq_context_destroy_socket A socket) (\<lambda>_. pop_socket A (c_sockets c) ret))
       (\<lambda>_.
          call (rb_czmq_nogvl_zctx_destroy A ctx) (\<lambda>_.
          set_ctx ctx (\<lambda>c. c\<lparr>c_ctx := NULL\<rparr>) (
          wr (\<lambda>s. s\<lparr>ctx_map := (ctx_map s)(c_pidValue c := Qnil)\<rparr>) (
          live_list A (c_sockets c) (
          tell (zlist_destroy A (c_sockets c)) (
          set_ctx ctx (\<lambda>c. c\<lparr>c_sockets := NULL\<rparr>) (ret ())))))))))"

definition rb_czmq_free_ctx_gc :: "'w czmq \<Rightarrow> ptr \<Rightarrow> ('w, unit) vcmd" where
  "rb_czmq_free_ctx_gc A ctx =
     (if ctx \<noteq> NULL then
        deref ctxs ctx (\<lambda>c.
        let xfree = wr (\<lambda>s. s\<lparr>ctxs := (ctxs s)(ctx := None)\<rparr>) (ret ())
        in if c_ctx c \<noteq> NULL \<and> \<not> has (c_flags c) ZMQ_CONTEXT_DESTROYED
           then call (rb_czmq_free_ctx A ctx) (\<lambda>_. xfree) else xfree)
      else ret ())"

text \<open>The mark function, with the values it marks as its result.\<close>

definition rb_czmq_mark_ctx_gc :: "ptr \<Rightarrow> ('w, rvalue list) vcmd" where
  "rb_czmq_mark_ctx_gc ctx =
     (if ctx \<noteq> NULL then deref ctxs ctx (\<lambda>c. ret [c_pidValue c]) else ret [])"

section \<open>Settings\<close>

definition rb_czmq_ctx_set_iothreads :: "'w czmq \<Rightarrow> rvalue \<Rightarrow> rvalue \<Rightarrow> ('w, rvalue) vcmd" where
  "rb_czmq_ctx_set_iothreads A obj threads =
     tell (set_errno A 0) (
     ZmqGetContext obj (\<lambda>ctx.
     ZmqAssertContextPidMatches ctx (
     Check_Fixnum threads (\<lambda>n.
     FIX2INT n (\<lambda>iothreads.
     check (0 \<le> iothreads) (ZmqError ''negative I/O threads count is not supported.'') (
     deref ctxs ctx (\<lambda>c.
     live_ctx A (c_ctx c) (
     tell (zctx_set_iothreads A (c_ctx c) iothreads) (
     ask (zmq_errno A) (\<lambda>e.
     if e = errcode A EINVAL then raise (SysError e) else ret Qnil))))))))))"

definition rb_czmq_ctx_set_linger :: "'w czmq \<Rightarrow> rvalue \<Rightarrow> rvalue \<Rightarrow> ('w, rvalue) vcmd" where
  "rb_czmq_ctx_set_linger A obj linger =
     tell (set_errno A 0) (
     ZmqGetContext obj (\<lambda>ctx.
     ZmqAssertContextPidMatches ctx (
     Check_Fixnum linger (\<lambda>n.
     FIX2INT n (\<lambda>msecs.
     check (0 \<le> msecs) (ZmqError ''negative linger / timeout values is not supported.'') (
     deref ctxs ctx (\<lambda>c.
     live_ctx A (c_ctx c) (
     tell (zctx_set_linger A (c_ctx c) msecs) (
     ret Qnil)))))))))"

section \<open>New contexts\<close>

definition rb_czmq_nogvl_zctx_new :: "'w czmq \<Rightarrow> ('w, ptr) vcmd" where
  "rb_czmq_nogvl_zctx_new A =
     tell (set_errno A 0) (
     invoke (zctx_new A) (\<lambda>ctx.
     live_ctx A ctx (
     tell (zctx_set_linger A ctx 1) (
     tell (zsys_handler_reset A) (
     ret ctx)))))"

definition rb_czmq_ctx_s_new :: "'w czmq \<Rightarrow> rvalue list \<Rightarrow> ('w, rvalue) vcmd" where
  "rb_czmq_ctx_s_new A argv =
     rb_scan_args_01 argv (\<lambda>io_threads.
     get_pid (\<lambda>key.
     rd (\<lambda>s. ctx_map s key) (\<lambda>process_ctx.
     if \<not> NIL_P process_ctx then
       (case process_ctx of
          Object c p \<Rightarrow>
            deref ctxs p (\<lambda>prev.
            raise (ZmqError (''single ZMQ context per process allowed (previous context created at '' @ c_file prev)))
        | _ \<Rightarrow> crash WildPointer)
     else
       make_struct
         (\<lambda>ctx s. s\<lparr>ctxs := (ctxs s)(ctx \<mapsto>
            \<lparr>c_ctx = NULL, c_flags = 0, c_pid = 0, c_pidValue = Qfalse, c_file = [], c_line = 0, c_sockets = NULL\<rparr>)\<rparr>) (\<lambda>ctx.
       call (rb_czmq_nogvl_zctx_new A) (\<lambda>zctx.
       set_ctx ctx (\<lambda>c. c\<lparr>c_ctx := zctx\<rparr>) (
       ZmqAssertObjOnAlloc A zctx (\<lambda>s. s\<lparr>ctxs := (ctxs s)(ctx := None)\<rparr>) (
       set_ctx ctx (\<lambda>c. c\<lparr>c_flags := 0\<rparr>) (
       rd pid (\<lambda>getpid.
       set_ctx ctx (\<lambda>c. c\<lparr>c_pid := getpid\<rparr>) (
       get_pid (\<lambda>pidValue.
       set_ctx ctx (\<lambda>c. c\<lparr>c_pidValue := pidValue\<rparr>) (
       invoke (zlist_new A) (\<lambda>sockets.
       set_ctx ctx (\<lambda>c. c\<lparr>c_sockets := sockets\<rparr>) (
       rd source (\<lambda>(file, line).
       set_ctx ctx (\<lambda>c. c\<lparr>c_file := file\<rparr>) (
       set_ctx ctx (\<lambda>c. c\<lparr>c_line := line\<rparr>) (
       wr (\<lambda>s. s\<lparr>ctx_map := (ctx_map s)(pidValue := Object rb_cZmqContext ctx)\<rparr>) (
       if \<not> NIL_P io_threads then
         call (rb_czmq_ctx_set_iothreads A (Object rb_cZmqContext ctx) io_threads) (\<lambda>_.
         ret (Object rb_cZmqContext ctx))
       else ret (Object rb_cZmqContext ctx)))))))))))))))))))"

definition rb_czmq_ctx_destroy :: "'w czmq \<Rightarrow> rvalue \<Rightarrow> ('w, rvalue) vcmd" where
  "rb_czmq_ctx_destroy A obj =
     ZmqGetContext obj (\<lambda>ctx.
     ZmqAssertContextPidMatches ctx (
     call (rb_czmq_free_ctx A ctx) (\<lambda>_. ret Qnil)))"

section \<open>New sockets\<close>

definition rb_czmq_nogvl_socket_new :: "'w czmq \<Rightarrow> ptr \<Rightarrow> int \<Rightarrow> ('w, ptr) vcmd" where
  "rb_czmq_nogvl_socket_new A ctx type =
     tell (set_errno A 0) (
     live_ctx A ctx (
     invoke (zsocket_new A ctx type) ret))"

definition rb_czmq_ctx_socket_klass :: "'w czmq \<Rightarrow> int \<Rightarrow> (klass \<Rightarrow> ('w, 'a) vcmd) \<Rightarrow> ('w, 'a) vcmd" where
  "rb_czmq_ctx_socket_klass A socket_type k =
     (if socket_type = socktype A ZMQ_PUB then k rb_cZmqPubSocket
      else if socket_type = socktype A ZMQ_SUB then k rb_cZmqSubSocket
      else if socket_type = socktype A ZMQ_PUSH then k rb_cZmqPushSocket
      else if socket_type = socktype A ZMQ_PULL then k rb_cZmqPullSocket
      else if socket_type = socktype A ZMQ_PAIR then k rb_cZmqPairSocket
      else if socket_type = socktype A ZMQ_REQ then k rb_cZmqReqSocket
      else if socket_type = socktype A ZMQ_REP then k rb_cZmqRepSocket
      else if socket_type = socktype A ZMQ_ROUTER then k rb_cZmqRouterSocket
      else if socket_type = socktype A ZMQ_DEALER then k rb_cZmqDealerSocket
      else if socket_type = socktype A ZMQ_XPUB then k rb_cZmqXPubSocket
      else if socket_type = socktype A ZMQ_XSUB then k rb_cZmqXSubSocket
      else if socket_type = socktype A ZMQ_STREAM then k rb_cZmqStreamSocket
      else raise (ZmqError ''ZMQ socket type not supported!''))"

definition rb_czmq_socket_alloc :: "'w czmq \<Rightarrow> rvalue \<Rightarrow> ptr \<Rightarrow> ptr \<Rightarrow> ('w, rvalue) vcmd" where
  "rb_czmq_socket_alloc A context zctx s =
     live_sock A s (
     ask (zsocket_type A s) (\<lambda>type.
     rb_czmq_ctx_socket_klass A type (\<lambda>klass.
     make_struct
       (\<lambda>sock vm. vm\<lparr>socks := (socks vm)(sock \<mapsto>
          \<lparr>s_ctx = NULL, s_socket = NULL, s_ctx_wrapper = NULL, s_flags = 0, s_verbose = False, s_state = 0,
           s_endpoints = Qfalse, s_thread = Qfalse, s_context = Qfalse, s_monitor_endpoint = Qfalse,
           s_monitor_handler = Qfalse, s_monitor_thread = Qfalse\<rparr>)\<rparr>) (\<lambda>sock.
     set_sock sock (\<lambda>w. w\<lparr>s_socket := s\<rparr>) (
     ZmqAssertObjOnAlloc A s (\<lambda>vm. vm\<lparr>socks := (socks vm)(sock := None)\<rparr>) (
     set_sock sock (\<lambda>w. w\<lparr>s_flags := 0\<rparr>) (
     set_sock sock (\<lambda>w. w\<lparr>s_ctx := zctx\<rparr>) (
     let rest = (\<lambda>wrapper.
       set_sock sock (\<lambda>w. w\<lparr>s_ctx_wrapper := wrapper\<rparr>) (
       set_sock sock (\<lambda>w. w\<lparr>s_verbose := False\<rparr>) (
       set_sock sock (\<lambda>w. w\<lparr>s_state := ZMQ_SOCKET_PENDING\<rparr>) (
       rb_ary_new (\<lambda>endpoints.
       set_sock sock (\<lambda>w. w\<lparr>s_endpoints := endpoints\<rparr>) (
       rd thread (\<lambda>current.
       set_sock sock (\<lambda>w. w\<lparr>s_thread := current\<rparr>) (
       set_sock sock (\<lambda>w. w\<lparr>s_context := context\<rparr>) (
       set_sock sock (\<lambda>w. w\<lparr>s_monitor_endpoint := Qnil\<rparr>) (
       set_sock sock (\<lambda>w. w\<lparr>s_monitor_handler := Qnil\<rparr>) (
       set_sock sock (\<lambda>w. w\<lparr>s_monitor_thread := Qnil\<rparr>) (
       ret (Object klass sock)))))))))))))
     in if context = Qnil then rest NULL else ZmqGetContext context rest))))))))"

definition rb_czmq_ctx_socket :: "'w czmq \<Rightarrow> rvalue \<Rightarrow> rvalue \<Rightarrow> ('w, rvalue) vcmd" where
  "rb_czmq_ctx_socket A obj type =
     tell (set_errno A 0) (
     ZmqGetContext obj (\<lambda>ctx.
     ZmqAssertContextPidMatches ctx (
     let open_socket = (\<lambda>n.
       FIX2INT n (\<lambda>socket_type.
       deref ctxs ctx (\<lambda>c.
       call (rb_czmq_nogvl_socket_new A (c_ctx c) socket_type) (\<lambda>socket.
       call (rb_czmq_socket_alloc A obj (c_ctx c) socket) (\<lambda>socket_object.
       GetZmqSocket socket_object (\<lambda>sock.
       live_list A (c_sockets c) (
       tell (zlist_push A (c_sockets c) (PTR sock)) (
       ret socket_object))))))))
     in case type of
          Fixnum n \<Rightarrow> open_socket n
        | Symbol name \<Rightarrow> rb_const_get_ZMQ A name (\<lambda>v. Check_Fixnum v open_socket)
        | _ \<Rightarrow> raise (TypeError ''wrong socket type (expected Fixnum or Symbol)''))))"

end
