(* ===== verification/Zmq_Socket.thy ===== *)
theory Zmq_Socket
  imports Zmq_Context Zmq_Message
begin

text \<open>
  socket.c without the option accessors and the monitor: the life of a socket object, its
  connection state, and sending and receiving strings, frames and messages. A call that libzmq
  makes wait is one step that yields what the library yields in the end.
\<close>

section \<open>Life\<close>

text \<open>The log line of a verbose socket names its type, which is asked of the socket.\<close>

definition verbose_log :: "'w czmq \<Rightarrow> ptr \<Rightarrow> ('w, 'a) vcmd \<Rightarrow> ('w, 'a) vcmd" where
  "verbose_log A sock k =
     deref socks sock (\<lambda>w. if s_verbose w then live_sock A (s_socket w) k else k)"

definition gc_log :: "'w czmq \<Rightarrow> ptr \<Rightarrow> ('w, 'a) vcmd \<Rightarrow> ('w, 'a) vcmd" where
  "gc_log A sock k =
     deref socks sock (\<lambda>w.
     if s_verbose w \<and> \<not> has (s_flags w) ZMQ_SOCKET_DESTROYED then live_sock A (s_socket w) k else k)"

text \<open>The mark function, with the values it marks as its result.\<close>

definition rb_czmq_mark_sock :: "'w czmq \<Rightarrow> ptr \<Rightarrow> ('w, rvalue list) vcmd" where
  "rb_czmq_mark_sock A sock =
     (if sock \<noteq> NULL then
        deref socks sock (\<lambda>w.
        if s_ctx w \<noteq> NULL then
          gc_log A sock (
          ret [s_endpoints w, s_thread w, s_context w, s_monitor_endpoint w, s_monitor_handler w,
               s_monitor_thread w])
        else ret [])
      else ret [])"

definition rb_czmq_free_sock_gc :: "'w czmq \<Rightarrow> ptr \<Rightarrow> ('w, unit) vcmd" where
  "rb_czmq_free_sock_gc A sock =
     (if sock \<noteq> NULL then
        gc_log A sock (
        call (rb_czmq_context_destroy_socket A sock) (\<lambda>_.
        wr (\<lambda>s. s\<lparr>socks := (socks s)(sock := None)\<rparr>) (ret ())))
      else ret ())"

definition rb_czmq_socket_close :: "'w czmq \<Rightarrow> rvalue \<Rightarrow> ('w, rvalue) vcmd" where
  "rb_czmq_socket_close A obj =
     GetZmqSocket obj (\<lambda>sock.
     ZmqSockGuardCrossThread sock (
     set_sock sock (\<lambda>w. w\<lparr>s_state := ZMQ_SOCKET_DISCONNECTED\<rparr>) (
     call (rb_czmq_context_destroy_socket A sock) (\<lambda>_. ret Qnil))))"

definition rb_czmq_socket_endpoints :: "rvalue \<Rightarrow> ('w, rvalue) vcmd" where
  "rb_czmq_socket_endpoints obj = GetZmqSocket obj (\<lambda>sock. deref socks sock (\<lambda>w. ret (s_endpoints w)))"

definition rb_czmq_socket_state :: "rvalue \<Rightarrow> ('w, rvalue) vcmd" where
  "rb_czmq_socket_state obj =
     GetZmqSocket obj (\<lambda>sock. deref socks sock (\<lambda>w. ret (INT2NUM (sint (s_state w)))))"

definition rb_czmq_socket_fd :: "'w czmq \<Rightarrow> rvalue \<Rightarrow> ('w, rvalue) vcmd" where
  "rb_czmq_socket_fd A obj =
     GetZmqSocket obj (\<lambda>sock.
     deref socks sock (\<lambda>w.
     if s_state w = ZMQ_SOCKET_PENDING \<or> s_state w = ZMQ_SOCKET_DISCONNECTED then ret (INT2NUM (-1))
     else live_sock A (s_socket w) (ask (zsocket_fd A (s_socket w)) (\<lambda>fd. ret (INT2NUM fd)))))"

definition rb_czmq_socket_set_verbose :: "rvalue \<Rightarrow> rvalue \<Rightarrow> ('w, rvalue) vcmd" where
  "rb_czmq_socket_set_verbose obj level =
     GetZmqSocket obj (\<lambda>sock.
     let vlevel = (level = Qtrue)
     in set_sock sock (\<lambda>w. w\<lparr>s_verbose := vlevel\<rparr>) (ret Qnil))"

section \<open>Connections\<close>

definition rb_czmq_nogvl_socket_bind :: "'w czmq \<Rightarrow> ptr \<Rightarrow> string \<Rightarrow> ('w, int) vcmd" where
  "rb_czmq_nogvl_socket_bind A socket endpoint =
     tell (set_errno A 0) (
     deref socks socket (\<lambda>w.
     live_sock A (s_socket w) (
     invoke (zsocket_bind A (s_socket w) endpoint) ret)))"

definition rb_czmq_nogvl_socket_connect :: "'w czmq \<Rightarrow> ptr \<Rightarrow> string \<Rightarrow> ('w, int) vcmd" where
  "rb_czmq_nogvl_socket_connect A socket endpoint =
     tell (set_errno A 0) (
     deref socks socket (\<lambda>w.
     live_sock A (s_socket w) (
     invoke (zsocket_connect A (s_socket w) endpoint) ret)))"

definition rb_czmq_nogvl_socket_disconnect :: "'w czmq \<Rightarrow> ptr \<Rightarrow> string \<Rightarrow> ('w, int) vcmd" where
  "rb_czmq_nogvl_socket_disconnect A socket endpoint =
     tell (set_errno A 0) (
     deref socks socket (\<lambda>w.
     live_sock A (s_socket w) (
     invoke (zsocket_disconnect A (s_socket w) endpoint) ret)))"

definition rb_czmq_nogvl_socket_unbind :: "'w czmq \<Rightarrow> ptr \<Rightarrow> string \<Rightarrow> ('w, int) vcmd" where
  "rb_czmq_nogvl_socket_unbind A socket endpoint =
     tell (set_errno A 0) (
     deref socks socket (\<lambda>w.
     live_sock A (s_socket w) (
     invoke (zsocket_unbind A (s_socket w) endpoint) ret)))"

text \<open>\<^verbatim>\<open>rb_str_new_cstr\<close> raises on the null pointer.\<close>

definition rb_str_new_cstr :: "string option \<Rightarrow> (rvalue \<Rightarrow> ('w, 'a) vcmd) \<Rightarrow> ('w, 'a) vcmd" where
  "rb_str_new_cstr cs k =
     (case cs of None \<Rightarrow> raise (ArgError ''NULL pointer given'') | Some str \<Rightarrow> k (RString (c_str str)))"

text \<open>
  After a successful \<^verbatim>\<open>bind\<close> or \<^verbatim>\<open>connect\<close>: ask for the endpoint, record it, set the state. The
  comparison \<^verbatim>\<open>endpoint_string != NULL\<close> that is handed to \<^verbatim>\<open>ZmqAssert\<close> is 0 or 1.
\<close>

definition record_endpoint :: "'w czmq \<Rightarrow> ptr \<Rightarrow> flags \<Rightarrow> ('w, rvalue) vcmd \<Rightarrow> ('w, rvalue) vcmd" where
  "record_endpoint A sock state k =
     deref socks sock (\<lambda>w.
     live_sock A (s_socket w) (
     ask (zsocket_last_endpoint A (s_socket w)) (\<lambda>endpoint_string.
     ZmqAssert A (if endpoint_string \<noteq> None then 1 else 0) (
     verbose_log A sock (
     set_sock sock (\<lambda>w. w\<lparr>s_state := state\<rparr>) (
     rb_str_new_cstr endpoint_string (\<lambda>str.
     rb_ary_push (s_endpoints w) str k)))))))"

definition rb_czmq_socket_bind :: "'w czmq \<Rightarrow> rvalue \<Rightarrow> rvalue \<Rightarrow> ('w, rvalue) vcmd" where
  "rb_czmq_socket_bind A obj endpoint =
     GetZmqSocket obj (\<lambda>sock.
     ZmqSockGuardCrossThread sock (
     Check_String endpoint (\<lambda>cs.
     StringValueCStr cs (\<lambda>cs.
     call (rb_czmq_nogvl_socket_bind A sock cs) (\<lambda>rc.
     let rest = record_endpoint A sock ZMQ_SOCKET_BOUND (ret (INT2NUM rc))
     in if rc < 0 then ZmqAssert A rc rest else rest)))))"

definition rb_czmq_socket_connect :: "'w czmq \<Rightarrow> rvalue \<Rightarrow> rvalue \<Rightarrow> ('w, rvalue) vcmd" where
  "rb_czmq_socket_connect A obj endpoint =
     GetZmqSocket obj (\<lambda>sock.
     ZmqSockGuardCrossThread sock (
     Check_String endpoint (\<lambda>cs.
     StringValueCStr cs (\<lambda>cs.
     call (rb_czmq_nogvl_socket_connect A sock cs) (\<lambda>rc.
     ZmqAssert A rc (
     record_endpoint A sock ZMQ_SOCKET_CONNECTED (ret Qtrue)))))))"

text \<open>After a successful \<^verbatim>\<open>disconnect\<close> or \<^verbatim>\<open>unbind\<close>: forget the endpoint.\<close>

definition forget_endpoint :: "'w czmq \<Rightarrow> ptr \<Rightarrow> rvalue \<Rightarrow> ('w, rvalue) vcmd" where
  "forget_endpoint A sock endpoint =
     verbose_log A sock (
     deref socks sock (\<lambda>w.
     rb_ary_delete (s_endpoints w) endpoint (
     rd (\<lambda>s. length (ary s (s_endpoints w))) (\<lambda>endpoint_count.
     if endpoint_count = 0 then
       set_sock sock (\<lambda>w. w\<lparr>s_state := ZMQ_SOCKET_DISCONNECTED\<rparr>) (ret Qtrue)
     else ret Qtrue))))"

definition rb_czmq_socket_disconnect :: "'w czmq \<Rightarrow> rvalue \<Rightarrow> rvalue \<Rightarrow> ('w, rvalue) vcmd" where
  "rb_czmq_socket_disconnect A obj endpoint =
     GetZmqSocket obj (\<lambda>sock.
     ZmqSockGuardCrossThread sock (
     Check_String endpoint (\<lambda>cs.
     StringValueCStr cs (\<lambda>cs.
     call (rb_czmq_nogvl_socket_disconnect A sock cs) (\<lambda>rc.
     ZmqAssert A rc (
     forget_endpoint A sock endpoint))))))"

definition rb_czmq_socket_unbind :: "'w czmq \<Rightarrow> rvalue \<Rightarrow> rvalue \<Rightarrow> ('w, rvalue) vcmd" where
  "rb_czmq_socket_unbind A obj endpoint =
     GetZmqSocket obj (\<lambda>sock.
     ZmqSockGuardCrossThread sock (
     Check_String endpoint (\<lambda>cs.
     StringValueCStr cs (\<lambda>cs.
     call (rb_czmq_nogvl_socket_unbind A sock cs) (\<lambda>rc.
     ZmqAssert A rc (
     forget_endpoint A sock endpoint))))))"

definition rb_czmq_socket_opt_last_endpoint :: "'w czmq \<Rightarrow> rvalue \<Rightarrow> ('w, rvalue) vcmd" where
  "rb_czmq_socket_opt_last_endpoint A obj =
     GetZmqSocket obj (\<lambda>sock.
     deref socks sock (\<lambda>w.
     live_sock A (s_socket w) (
     ask (zsocket_last_endpoint A (s_socket w)) (\<lambda>endpoint_string.
     rb_str_new_cstr endpoint_string ret))))"

section \<open>Strings\<close>

definition rb_czmq_nogvl_zstr_send_internal :: "'w czmq \<Rightarrow> ptr \<Rightarrow> string \<Rightarrow> flags \<Rightarrow> ('w, int) vcmd" where
  "rb_czmq_nogvl_zstr_send_internal A socket msg flags =
     tell (set_errno A 0) (
     deref socks socket (\<lambda>w.
     live_sock A (s_socket w) (
     invoke (zmq_sendmsg A (s_socket w) msg flags) (\<lambda>rc.
     ret (if rc = -1 then -1 else 0)))))"

definition rb_czmq_nogvl_zstr_send :: "'w czmq \<Rightarrow> ptr \<Rightarrow> string \<Rightarrow> ('w, int) vcmd" where
  "rb_czmq_nogvl_zstr_send A socket msg =
     tell (set_errno A 0) (rb_czmq_nogvl_zstr_send_internal A socket msg 0)"

definition rb_czmq_nogvl_zstr_sendm :: "'w czmq \<Rightarrow> ptr \<Rightarrow> string \<Rightarrow> ('w, int) vcmd" where
  "rb_czmq_nogvl_zstr_sendm A socket msg =
     tell (set_errno A 0) (rb_czmq_nogvl_zstr_send_internal A socket msg (ZMQ_SNDMORE A))"

text \<open>The log line of a string, which reads it as a C string.\<close>

definition verbose_log_str :: "'w czmq \<Rightarrow> ptr \<Rightarrow> string \<Rightarrow> ('w, 'a) vcmd \<Rightarrow> ('w, 'a) vcmd" where
  "verbose_log_str A sock cs k =
     deref socks sock (\<lambda>w.
     if s_verbose w then live_sock A (s_socket w) (StringValueCStr cs (\<lambda>_. k)) else k)"

text \<open>
  \<^verbatim>\<open>StringValue\<close>, and the check of the type after it, which always passes: a string is itself, and any
  other object is asked for one with \<^verbatim>\<open>to_str\<close>. Of the values here only a frame has that method; it is
  an alias of \<^verbatim>\<open>to_s\<close> and answers nil for a frame object without a frame, which is no string.
\<close>

definition StringValue :: "'w czmq \<Rightarrow> rvalue \<Rightarrow> (string \<Rightarrow> ('w, 'a) vcmd) \<Rightarrow> ('w, 'a) vcmd" where
  "StringValue A v k =
     (let convert = (\<lambda>v. case v of RString cs \<Rightarrow> k cs | _ \<Rightarrow> raise (TypeError ''no implicit conversion into String''))
      in case v of
           Object c p \<Rightarrow> if c = rb_cZmqFrame then call (rb_czmq_frame_to_s A v) convert else convert v
         | _ \<Rightarrow> convert v)"

lemma StringValue_run [simp]: "StringValue A (RString cs) k = k cs"
  by (simp add: StringValue_def)

text \<open>A frame that is converted must be readable or gone; then it yields its bytes or a TypeError.\<close>

definition string_arg :: "'w czmq \<Rightarrow> 'w vm \<Rightarrow> rvalue \<Rightarrow> bool" where
  "string_arg A s v \<longleftrightarrow>
     (\<forall>p. v = Object rb_cZmqFrame p \<longrightarrow> p \<noteq> NULL \<longrightarrow> frame_body A s v \<noteq> None \<or> gone s p)"

lemma StringValue_frame:
  assumes "zframe_doc A" and "frame_body A s v = Some b"
  shows "StringValue A v k s = k b s"
  using assms(2) by (rule frame_bodyE) (simp add: StringValue_def call_def frame_to_s.reads [OF assms(1)])

lemma StringValue_cases:
  assumes "string_arg A s v"
  shows "(\<exists>cs. \<forall>k :: string \<Rightarrow> ('w, 'a) vcmd. StringValue A v k s = k cs s) \<or>
    (\<exists>e. \<forall>k :: string \<Rightarrow> ('w, 'a) vcmd. StringValue A v k s = Raise e s)"
proof (cases "\<exists>p. v = Object rb_cZmqFrame p")
  case True
  then obtain p where v: "v = Object rb_cZmqFrame p" by blast
  consider "p = NULL" | b where "p \<noteq> NULL" "frame_body A s v = Some b" | "p \<noteq> NULL" "gone s p"
    using assms v by (auto simp: string_arg_def)
  then show ?thesis
  proof cases
    case 1
    then show ?thesis using v by (simp add: StringValue_def rb_czmq_frame_to_s_def rb_czmq_frame_data_def ZmqGetFrame_def
          fetch_def call_def)
  next
    case 2
    obtain f where "frames s p = Some f" "accessible s p" "zframes (view A (lib s)) (f_frame f) = Some b"
      using 2 v by (auto elim!: frame_bodyE)
    then have "StringValue A v k s = k (take (zframe_size A (f_frame f) (lib s)) (zframe_data A (f_frame f) (lib s))) s"
      for k :: "string \<Rightarrow> ('w, 'a) vcmd"
      using v 2(1) by (simp add: StringValue_def rb_czmq_frame_to_s_def rb_czmq_frame_data_def accessible_guard call_def)
    then show ?thesis by blast
  next
    case 3
    then show ?thesis using v by (simp add: StringValue_def frame_to_s.reads_gone call_def)
  qed
next
  case False
  then show ?thesis by (cases v) (auto simp: StringValue_def Let_def)
qed

definition rb_czmq_socket_send :: "'w czmq \<Rightarrow> rvalue \<Rightarrow> rvalue \<Rightarrow> ('w, rvalue) vcmd" where
  "rb_czmq_socket_send A obj msg =
     GetZmqSocket obj (\<lambda>sock.
     ZmqAssertSocketNotPending sock ''can only send on a bound or connected socket!'' (
     ZmqSockGuardCrossThread sock (
     StringValue A msg (\<lambda>cs.
     call (rb_czmq_nogvl_zstr_send A sock cs) (\<lambda>rc.
     ZmqAssert A rc (
     verbose_log_str A sock cs (ret Qtrue)))))))"

definition rb_czmq_socket_sendm :: "'w czmq \<Rightarrow> rvalue \<Rightarrow> rvalue \<Rightarrow> ('w, rvalue) vcmd" where
  "rb_czmq_socket_sendm A obj msg =
     GetZmqSocket obj (\<lambda>sock.
     ZmqAssertSocketNotPending sock ''can only send on a bound or connected socket!'' (
     ZmqSockGuardCrossThread sock (
     StringValue A msg (\<lambda>cs.
     call (rb_czmq_nogvl_zstr_sendm A sock cs) (\<lambda>rc.
     ZmqAssert A rc (
     verbose_log_str A sock cs (ret Qtrue)))))))"

definition rb_czmq_nogvl_recv :: "'w czmq \<Rightarrow> ptr \<Rightarrow> ('w, int \<times> string) vcmd" where
  "rb_czmq_nogvl_recv A socket =
     tell (set_errno A 0) (
     deref socks socket (\<lambda>w.
     require (s_socket w \<noteq> NULL) AssertFailed (
     live_sock A (s_socket w) (
     invoke (zmq_recvmsg A (s_socket w) 0) ret))))"

definition rb_czmq_socket_recv :: "'w czmq \<Rightarrow> rvalue \<Rightarrow> ('w, rvalue) vcmd" where
  "rb_czmq_socket_recv A obj =
     GetZmqSocket obj (\<lambda>sock.
     ZmqAssertSocketNotPending sock ''can only receive on a bound or connected socket!'' (
     ZmqSockGuardCrossThread sock (
     call (rb_czmq_nogvl_recv A sock) (\<lambda>(rc, message).
     if rc < 0 then ret Qnil
     else
       ZmqAssertSysError A (
       verbose_log A sock (
       ret (RString message)))))))"

definition rb_czmq_socket_recv_nonblock :: "'w czmq \<Rightarrow> rvalue \<Rightarrow> ('w, rvalue) vcmd" where
  "rb_czmq_socket_recv_nonblock A obj =
     tell (set_errno A 0) (
     GetZmqSocket obj (\<lambda>sock.
     ZmqAssertSocketNotPending sock ''can only receive on a bound or connected socket!'' (
     ZmqSockGuardCrossThread sock (
     deref socks sock (\<lambda>w.
     live_sock A (s_socket w) (
     invoke (zmq_recvmsg A (s_socket w) (ZMQ_DONTWAIT A)) (\<lambda>(rc, message).
     if rc < 0 then ret Qnil
     else
       ZmqAssertSysError A (
       verbose_log_str A sock message (
       ret (RString message))))))))))"

section \<open>Frames\<close>

definition rb_czmq_nogvl_send_frame :: "'w czmq \<Rightarrow> ptr \<Rightarrow> ptr \<Rightarrow> flags \<Rightarrow> ('w, int) vcmd" where
  "rb_czmq_nogvl_send_frame A socket frame flags =
     tell (set_errno A 0) (
     deref socks socket (\<lambda>w.
     live_frame A frame (live_sock A (s_socket w) (
     invoke (zframe_send A frame (s_socket w) flags) ret))))"

text \<open>The constants of \<^verbatim>\<open>ZMQ::Frame\<close>, by name.\<close>

definition rb_const_get_Frame :: "'w czmq \<Rightarrow> string \<Rightarrow> (rvalue \<Rightarrow> ('w, 'a) vcmd) \<Rightarrow> ('w, 'a) vcmd" where
  "rb_const_get_Frame A name k =
     (case map_of [(''MORE'', ZFRAME_MORE A), (''REUSE'', ZFRAME_REUSE A), (''DONTWAIT'', ZFRAME_DONTWAIT A)] name of
        Some n \<Rightarrow> k (INT2NUM (uint n))
      | None \<Rightarrow> raise (NameError name))"

definition ZmqDumpFrame :: "'w czmq \<Rightarrow> ptr \<Rightarrow> ptr \<Rightarrow> string \<Rightarrow> ('w, 'a) vcmd \<Rightarrow> ('w, 'a) vcmd" where
  "ZmqDumpFrame A sock frame print_prefix k =
     deref socks sock (\<lambda>w.
     live_sock A (s_socket w) (live_frame A frame (
     tell (zframe_print A frame print_prefix) k)))"

definition frame_flags :: "'w czmq \<Rightarrow> rvalue \<Rightarrow> (flags \<Rightarrow> ('w, 'a) vcmd) \<Rightarrow> ('w, 'a) vcmd" where
  "frame_flags A flags k =
     (let fixnum = (\<lambda>v. Check_Fixnum v (\<lambda>n. FIX2INT n (\<lambda>flgs. k (word_of_int flgs))))
      in if NIL_P flags then k 0
         else case flags of Symbol name \<Rightarrow> rb_const_get_Frame A name fixnum | v \<Rightarrow> fixnum v)"

definition rb_czmq_socket_send_frame :: "'w czmq \<Rightarrow> rvalue list \<Rightarrow> rvalue \<Rightarrow> ('w, rvalue) vcmd" where
  "rb_czmq_socket_send_frame A argv obj =
     GetZmqSocket obj (\<lambda>sock.
     ZmqAssertSocketNotPending sock ''can only send on a bound or connected socket!'' (
     ZmqSockGuardCrossThread sock (
     rb_scan_args_11 argv (\<lambda>frame_obj flags.
     ZmqGetFrame frame_obj (\<lambda>frame.
     ZmqAssertFrameOwnedNoMessage frame (
     frame_flags A flags (\<lambda>flgs.
     deref frames frame (\<lambda>f.
     deref socks sock (\<lambda>w.
     let send = (\<lambda>dump.
       call (rb_czmq_nogvl_send_frame A sock (f_frame f) flgs) (\<lambda>rc.
       ZmqAssert A rc (
       if flgs AND ZFRAME_REUSE A = 0
       then set_frame frame (\<lambda>f. f\<lparr>f_flags := clear_flag (f_flags f) ZMQ_FRAME_OWNED\<rparr>) dump
       else dump)))
     in if s_verbose w then
          if flgs AND ZFRAME_REUSE A \<noteq> 0 then send (ZmqDumpFrame A sock (f_frame f) ''send_frame'' (ret Qtrue))
          else
            live_frame A (f_frame f) (
            invoke (zframe_dup A (f_frame f)) (\<lambda>print_frame.
            send (ZmqDumpFrame A sock print_frame ''send_frame'' (ret Qtrue))))
        else send (ret Qtrue))))))))))"

definition rb_czmq_nogvl_recv_frame :: "'w czmq \<Rightarrow> ptr \<Rightarrow> ('w, ptr) vcmd" where
  "rb_czmq_nogvl_recv_frame A socket =
     tell (set_errno A 0) (
     deref socks socket (\<lambda>w.
     live_sock A (s_socket w) (
     invoke (zframe_recv A (s_socket w)) ret)))"

text \<open>The end of the two receiving functions: a null frame is nil, a verbose socket dumps the frame.\<close>

definition received_frame :: "'w czmq \<Rightarrow> ptr \<Rightarrow> string \<Rightarrow> ptr \<Rightarrow> ('w, rvalue) vcmd" where
  "received_frame A sock method frame =
     (if frame = NULL then ret Qnil
      else
        deref socks sock (\<lambda>w.
        if s_verbose w then ZmqDumpFrame A sock frame method (rb_czmq_alloc_frame frame)
        else rb_czmq_alloc_frame frame))"

definition rb_czmq_socket_recv_frame :: "'w czmq \<Rightarrow> rvalue \<Rightarrow> ('w, rvalue) vcmd" where
  "rb_czmq_socket_recv_frame A obj =
     GetZmqSocket obj (\<lambda>sock.
     ZmqAssertSocketNotPending sock ''can only receive on a bound or connected socket!'' (
     ZmqSockGuardCrossThread sock (
     call (rb_czmq_nogvl_recv_frame A sock) (\<lambda>frame.
     received_frame A sock ''recv_frame'' frame))))"

definition rb_czmq_socket_recv_frame_nonblock :: "'w czmq \<Rightarrow> rvalue \<Rightarrow> ('w, rvalue) vcmd" where
  "rb_czmq_socket_recv_frame_nonblock A obj =
     tell (set_errno A 0) (
     GetZmqSocket obj (\<lambda>sock.
     ZmqAssertSocketNotPending sock ''can only receive on a bound or connected socket!'' (
     ZmqSockGuardCrossThread sock (
     deref socks sock (\<lambda>w.
     live_sock A (s_socket w) (
     invoke (zframe_recv_nowait A (s_socket w)) (\<lambda>frame.
     received_frame A sock ''recv_frame_nonblock'' frame)))))))"

section \<open>Messages\<close>

definition rb_czmq_nogvl_send_message :: "'w czmq \<Rightarrow> ptr \<Rightarrow> ptr \<Rightarrow> ('w, rvalue) vcmd" where
  "rb_czmq_nogvl_send_message A socket message =
     deref socks socket (\<lambda>w.
     tell (set_errno A 0) (
     live_msg A message (live_sock A (s_socket w) (
     invoke (zmsg_send A message (s_socket w)) (\<lambda>_. ret Qnil)))))"

definition ZmqDumpMessage :: "'w czmq \<Rightarrow> ptr \<Rightarrow> ptr \<Rightarrow> ('w, 'a) vcmd \<Rightarrow> ('w, 'a) vcmd" where
  "ZmqDumpMessage A sock message k =
     deref socks sock (\<lambda>w.
     live_sock A (s_socket w) (live_msg A message (
     tell (zmsg_dump A message) k)))"

definition rb_czmq_socket_send_message :: "'w czmq \<Rightarrow> rvalue \<Rightarrow> rvalue \<Rightarrow> ('w, rvalue) vcmd" where
  "rb_czmq_socket_send_message A obj message_obj =
     GetZmqSocket obj (\<lambda>sock.
     ZmqAssertSocketNotPending sock ''can only send on a bound or connected socket!'' (
     ZmqSockGuardCrossThread sock (
     ZmqGetMessage message_obj (\<lambda>message.
     ZmqAssertMessageOwned message (
     deref msgs message (\<lambda>m.
     deref socks sock (\<lambda>w.
     let send = (\<lambda>dump.
       call (rb_czmq_nogvl_send_message A sock (m_message m)) (\<lambda>_.
       set_msg message (\<lambda>m. m\<lparr>m_flags := clear_flag (m_flags m) ZMQ_MESSAGE_OWNED\<rparr>) dump))
     in if s_verbose w then
          live_msg A (m_message m) (
          invoke (zmsg_dup A (m_message m)) (\<lambda>print_message.
          send (ZmqDumpMessage A sock print_message (ret Qnil))))
        else send (ret Qnil))))))))"

definition rb_czmq_nogvl_recv_message :: "'w czmq \<Rightarrow> ptr \<Rightarrow> ('w, ptr) vcmd" where
  "rb_czmq_nogvl_recv_message A socket =
     tell (set_errno A 0) (
     deref socks socket (\<lambda>w.
     live_sock A (s_socket w) (
     invoke (zmsg_recv A (s_socket w)) ret)))"

definition rb_czmq_socket_recv_message :: "'w czmq \<Rightarrow> rvalue \<Rightarrow> ('w, rvalue) vcmd" where
  "rb_czmq_socket_recv_message A obj =
     GetZmqSocket obj (\<lambda>sock.
     ZmqAssertSocketNotPending sock ''can only receive on a bound or connected socket!'' (
     ZmqSockGuardCrossThread sock (
     call (rb_czmq_nogvl_recv_message A sock) (\<lambda>message.
     if message = NULL then ret Qnil
     else
       deref socks sock (\<lambda>w.
       if s_verbose w then ZmqDumpMessage A sock message (rb_czmq_alloc_message A message)
       else rb_czmq_alloc_message A message)))))"

section \<open>Polling one socket\<close>

definition rb_czmq_nogvl_poll :: "'w czmq \<Rightarrow> ptr \<Rightarrow> int \<Rightarrow> ('w, bool) vcmd" where
  "rb_czmq_nogvl_poll A socket timeout =
     deref socks socket (\<lambda>w.
     live_sock A (s_socket w) (
     invoke (zsocket_poll A (s_socket w) timeout) ret))"

definition rb_czmq_socket_poll :: "'w czmq \<Rightarrow> rvalue \<Rightarrow> rvalue \<Rightarrow> ('w, rvalue) vcmd" where
  "rb_czmq_socket_poll A obj timeout =
     GetZmqSocket obj (\<lambda>sock.
     Check_Fixnum timeout (\<lambda>n.
     ZmqSockGuardCrossThread sock (
     FIX2INT n (\<lambda>timeout.
     call (rb_czmq_nogvl_poll A sock timeout) (\<lambda>readable.
     ret (if readable then Qtrue else Qfalse))))))"

end
