(* ===== verification/Zmq_Lifecycle.thy ===== *)
theory Zmq_Lifecycle
  imports Zmq_Socket Zmq_Hoare
begin

text \<open>
  The life of contexts and sockets: the invariant that ties the context objects, the socket objects,
  the lists of sockets that contexts keep, the map from processes to contexts and the objects of
  libzmq, and what each operation of context.c does to it.
\<close>

section \<open>The invariant\<close>

text \<open>A socket of a context that was not closed; the pipe of a beacon has no context.\<close>

definition open_in :: "(ptr \<rightharpoonup> zmq_sock_wrapper) \<Rightarrow> ptr \<Rightarrow> ptr set" where
  "open_in ss p = {q. \<exists>w. ss q = Some w \<and> s_flags w = 0 \<and> s_context w = Object rb_cZmqContext p}"

definition shut :: "zmq_sock_wrapper \<Rightarrow> zmq_sock_wrapper" where
  "shut w = w\<lparr>s_flags := 1, s_ctx := NULL, s_socket := NULL, s_state := ZMQ_SOCKET_DISCONNECTED\<rparr>"

definition sock_ok ::
  "(ptr \<rightharpoonup> zmq_ctx_wrapper) \<Rightarrow> (ptr \<rightharpoonup> ptr \<times> int) \<Rightarrow> zmq_sock_wrapper \<Rightarrow> bool" where
  "sock_ok cs zs w \<longleftrightarrow>
     s_flags w = 1 \<and> s_ctx w = NULL \<and> s_socket w = NULL \<and> s_state w = ZMQ_SOCKET_DISCONNECTED \<or>
     s_flags w = 0 \<and> s_context w = Qnil \<and> s_ctx w = NULL \<or>
     s_flags w = 0 \<and>
       (\<exists>p c t. s_context w = Object rb_cZmqContext p \<and> p \<noteq> NULL \<and> s_ctx_wrapper w = p \<and>
          cs p = Some c \<and> c_flags c = 0 \<and> s_ctx w = c_ctx c \<and> zs (s_socket w) = Some (c_ctx c, t))"

definition ctx_ok ::
  "(ptr \<rightharpoonup> zmq_sock_wrapper) \<Rightarrow> (rvalue \<Rightarrow> rvalue) \<Rightarrow> (ptr \<rightharpoonup> int) \<Rightarrow> (ptr \<rightharpoonup> void list) \<Rightarrow>
   ptr \<Rightarrow> zmq_ctx_wrapper \<Rightarrow> bool" where
  "ctx_ok ss cm zc zl p c \<longleftrightarrow>
     c_flags c = 1 \<and> c_ctx c = NULL \<and> c_sockets c = NULL \<or>
     c_flags c = 0 \<and> zc (c_ctx c) \<noteq> None \<and> c_pidValue c = INT2NUM (c_pid c) \<and>
       cm (c_pidValue c) = Object rb_cZmqContext p \<and>
       (\<exists>qs. zl (c_sockets c) = Some (map PTR qs) \<and> distinct qs \<and> set qs = open_in ss p)"

definition live_inj :: "(ptr \<rightharpoonup> zmq_ctx_wrapper) \<Rightarrow> (zmq_ctx_wrapper \<Rightarrow> ptr) \<Rightarrow> bool" where
  "live_inj cs h \<longleftrightarrow>
     (\<forall>p q c d. cs p = Some c \<and> cs q = Some d \<and> c_flags c = 0 \<and> c_flags d = 0 \<and> h c = h d \<longrightarrow> p = q)"

definition open_inj :: "(ptr \<rightharpoonup> zmq_sock_wrapper) \<Rightarrow> bool" where
  "open_inj ss \<longleftrightarrow>
     (\<forall>p q v w. ss p = Some v \<and> ss q = Some w \<and> s_flags v = 0 \<and> s_flags w = 0 \<and>
        s_context v \<noteq> Qnil \<and> s_context w \<noteq> Qnil \<and> s_socket v = s_socket w \<longrightarrow> p = q)"

text \<open>Every entry of the process map is nil or a live context.\<close>

definition map_ok :: "(ptr \<rightharpoonup> zmq_ctx_wrapper) \<Rightarrow> (rvalue \<Rightarrow> rvalue) \<Rightarrow> bool" where
  "map_ok cs cm \<longleftrightarrow>
     (\<forall>k. cm k = Qnil \<or>
        (\<exists>p c. cm k = Object rb_cZmqContext p \<and> cs p = Some c \<and> c_flags c = 0 \<and> c_pidValue c = k))"

definition life ::
  "(ptr \<rightharpoonup> zmq_ctx_wrapper) \<Rightarrow> (ptr \<rightharpoonup> zmq_sock_wrapper) \<Rightarrow> (rvalue \<Rightarrow> rvalue) \<Rightarrow>
   (ptr \<rightharpoonup> int) \<Rightarrow> (ptr \<rightharpoonup> ptr \<times> int) \<Rightarrow> (ptr \<rightharpoonup> void list) \<Rightarrow> ptr \<Rightarrow> bool" where
  "life cs ss cm zc zs zl n \<longleftrightarrow>
     n \<noteq> NULL \<and> (\<forall>p\<ge>n. cs p = None \<and> ss p = None) \<and> cs NULL = None \<and> ss NULL = None \<and>
     (\<forall>p c. cs p = Some c \<longrightarrow> ctx_ok ss cm zc zl p c) \<and>
     (\<forall>q w. ss q = Some w \<longrightarrow> s_context w \<noteq> Qfalse \<and> sock_ok cs zs w) \<and>
     live_inj cs c_ctx \<and> live_inj cs c_sockets \<and> open_inj ss \<and> map_ok cs cm"

definition life_inv :: "'w czmq \<Rightarrow> 'w vm \<Rightarrow> bool" where
  "life_inv A s \<longleftrightarrow>
     life (ctxs s) (socks s) (ctx_map s) (zctxs (view A (lib s))) (zsocks (view A (lib s)))
       (zlists (view A (lib s))) (fresh s)"

lemma lifeD:
  assumes "life cs ss cm zc zs zl n"
  shows "n \<noteq> NULL" "\<And>p. n \<le> p \<Longrightarrow> cs p = None" "\<And>p. n \<le> p \<Longrightarrow> ss p = None" "cs NULL = None" "ss NULL = None"
    and "\<And>p c. cs p = Some c \<Longrightarrow> ctx_ok ss cm zc zl p c"
    and "\<And>q w. ss q = Some w \<Longrightarrow> s_context w \<noteq> Qfalse"
    and "\<And>q w. ss q = Some w \<Longrightarrow> sock_ok cs zs w"
    and "live_inj cs c_ctx" "live_inj cs c_sockets" "open_inj ss" "map_ok cs cm"
  using assms unfolding life_def by blast+

lemma life_invD:
  "life_inv A s \<Longrightarrow> life (ctxs s) (socks s) (ctx_map s) (zctxs (view A (lib s))) (zsocks (view A (lib s)))
       (zlists (view A (lib s))) (fresh s)"
  by (simp add: life_inv_def)

lemma live_injD:
  "live_inj cs h \<Longrightarrow> cs p = Some c \<Longrightarrow> cs q = Some d \<Longrightarrow> c_flags c = 0 \<Longrightarrow> c_flags d = 0 \<Longrightarrow> h c = h d \<Longrightarrow> p = q"
  unfolding live_inj_def by blast

lemma open_injD:
  "open_inj ss \<Longrightarrow> ss p = Some v \<Longrightarrow> ss q = Some w \<Longrightarrow> s_flags v = 0 \<Longrightarrow> s_flags w = 0 \<Longrightarrow>
     s_context v \<noteq> Qnil \<Longrightarrow> s_context w \<noteq> Qnil \<Longrightarrow> s_socket v = s_socket w \<Longrightarrow> p = q"
  unfolding open_inj_def by blast

lemma flag_cases [simp]: "has 0 ZMQ_SOCKET_DESTROYED = False" "has 1 ZMQ_SOCKET_DESTROYED = True"
  "has 0 ZMQ_CONTEXT_DESTROYED = False" "has 1 ZMQ_CONTEXT_DESTROYED = True"
  "set_flag 0 ZMQ_SOCKET_DESTROYED = 1" "set_flag 1 ZMQ_SOCKET_DESTROYED = 1"
  "set_flag 0 ZMQ_CONTEXT_DESTROYED = 1" "set_flag 1 ZMQ_CONTEXT_DESTROYED = 1"
  by (simp_all add: has_def set_flag_def ZMQ_SOCKET_DESTROYED_def ZMQ_CONTEXT_DESTROYED_def)

section \<open>Live contexts and open sockets\<close>

definition ctx_at :: "'w czmq \<Rightarrow> 'w vm \<Rightarrow> ptr \<Rightarrow> zmq_ctx_wrapper \<Rightarrow> ptr list \<Rightarrow> bool" where
  "ctx_at A s p c qs \<longleftrightarrow>
     p \<noteq> NULL \<and> ctxs s p = Some c \<and> c_flags c = 0 \<and> zctxs (view A (lib s)) (c_ctx c) \<noteq> None \<and>
     c_pidValue c = INT2NUM (c_pid c) \<and> ctx_map s (c_pidValue c) = Object rb_cZmqContext p \<and>
     zlists (view A (lib s)) (c_sockets c) = Some (map PTR qs) \<and> distinct qs \<and> set qs = open_in (socks s) p"

definition sock_at :: "'w czmq \<Rightarrow> 'w vm \<Rightarrow> ptr \<Rightarrow> zmq_sock_wrapper \<Rightarrow> ptr \<Rightarrow> int \<Rightarrow> bool" where
  "sock_at A s q w p t \<longleftrightarrow>
     q \<noteq> NULL \<and> socks s q = Some w \<and> s_flags w = 0 \<and> s_context w = Object rb_cZmqContext p \<and> p \<noteq> NULL \<and>
     s_ctx_wrapper w = p \<and>
     (\<exists>c. ctxs s p = Some c \<and> c_flags c = 0 \<and> s_ctx w = c_ctx c) \<and>
     zsocks (view A (lib s)) (s_socket w) = Some (s_ctx w, t)"

lemma ctx_atD:
  assumes "ctx_at A s p c qs"
  shows "p \<noteq> NULL" "ctxs s p = Some c" "c_flags c = 0" "zctxs (view A (lib s)) (c_ctx c) \<noteq> None"
    "c_pidValue c = INT2NUM (c_pid c)" "ctx_map s (c_pidValue c) = Object rb_cZmqContext p"
    "zlists (view A (lib s)) (c_sockets c) = Some (map PTR qs)" "distinct qs" "set qs = open_in (socks s) p"
  using assms unfolding ctx_at_def by blast+

lemma ctx_atE:
  assumes "life_inv A s" and "ctxs s p = Some c" and "c_flags c = 0"
  obtains qs where "ctx_at A s p c qs"
proof -
  note L = lifeD [OF life_invD [OF assms(1)]]
  have "p \<noteq> NULL" using L(4) assms(2) by (cases "p = NULL") simp_all
  moreover obtain qs where "zlists (view A (lib s)) (c_sockets c) = Some (map PTR qs)" "distinct qs"
    "set qs = open_in (socks s) p" "zctxs (view A (lib s)) (c_ctx c) \<noteq> None"
    "c_pidValue c = INT2NUM (c_pid c)" "ctx_map s (c_pidValue c) = Object rb_cZmqContext p"
    using L(6) [OF assms(2)] assms(3) unfolding ctx_ok_def by auto
  ultimately show thesis using that assms(2,3) unfolding ctx_at_def by blast
qed

lemma sock_atE:
  assumes "life_inv A s" and "socks s q = Some w" and "s_flags w = 0" and "s_context w \<noteq> Qnil"
  obtains p t where "sock_at A s q w p t"
proof -
  note L = lifeD [OF life_invD [OF assms(1)]]
  have "q \<noteq> NULL" using L(5) assms(2) by (cases "q = NULL") simp_all
  moreover obtain p c t where "s_context w = Object rb_cZmqContext p" "p \<noteq> NULL" "s_ctx_wrapper w = p"
    "ctxs s p = Some c" "c_flags c = 0" "s_ctx w = c_ctx c" "zsocks (view A (lib s)) (s_socket w) = Some (c_ctx c, t)"
    using L(8) [OF assms(2)] assms(3,4) unfolding sock_ok_def by auto
  ultimately show thesis using that assms(2,3) unfolding sock_at_def by metis
qed

lemma sock_at_open: "sock_at A s q w p t \<Longrightarrow> q \<in> open_in (socks s) p"
  by (simp add: sock_at_def open_in_def)

lemma open_sock_at:
  assumes "life_inv A s" and "q \<in> open_in (socks s) p"
  obtains w t where "sock_at A s q w p t"
proof -
  obtain w where w: "socks s q = Some w" "s_flags w = 0" "s_context w = Object rb_cZmqContext p"
    using assms(2) by (auto simp: open_in_def)
  obtain p' t where "sock_at A s q w p' t"
    by (rule sock_atE [OF assms(1) w(1,2)]) (use w(3) in simp_all)
  then show thesis using that w(3) by (auto simp: sock_at_def)
qed

section \<open>Closing sockets\<close>

lemma closed_simps [simp]:
  "s_flags (shut w) = 1" "s_ctx (shut w) = NULL" "s_socket (shut w) = NULL"
  "s_state (shut w) = ZMQ_SOCKET_DISCONNECTED" "s_context (shut w) = s_context w"
  "shut (shut w) = shut w"
  by (simp_all add: shut_def)

lemma mark_socket_closed_run:
  assumes "socks s q = Some w" and "s_flags w = 0 \<or> s_flags w = 1"
  shows "mark_socket_closed q s = Return () (s\<lparr>socks := (socks s)(q \<mapsto> shut w)\<rparr>)"
  using assms by (auto simp: mark_socket_closed_def shut_def)

text \<open>The libczmq socket of an open socket, and the list of its context.\<close>

lemma destroy_socket_open:
  assumes doc: "zlist_doc A" "zsock_doc A"
    and w: "socks s q = Some w" "q \<noteq> NULL" "s_flags w = 0" "s_context w = Object rb_cZmqContext p"
      "s_ctx_wrapper w = p" "p \<noteq> NULL" "s_ctx w = c_ctx c"
    and h: "zsocks (view A (lib s)) (s_socket w) = Some (c_ctx c, t)"
    and c: "ctxs s p = Some c" "zctxs (view A (lib s)) (c_ctx c) \<noteq> None"
    and l: "zlists (view A (lib s)) (c_sockets c) = Some xs"
  obtains lb where
    "rb_czmq_context_destroy_socket A q s = Return () (s\<lparr>lib := lb, socks := (socks s)(q \<mapsto> shut w)\<rparr>)"
    "view A lb = (view A (lib s))\<lparr>zlists := (zlists (view A (lib s)))(c_sockets c \<mapsto> remove1 (PTR q) xs),
       zsocks := (zsocks (view A (lib s)))(s_socket w := None)\<rparr>"
proof -
  let ?l1 = "zlist_remove A (c_sockets c) (PTR q) (lib s)" let ?l2 = "set_errno A 0 ?l1"
  let ?l3 = "zsocket_destroy A (c_ctx c) (s_socket w) ?l2"
  obtain n where n: "zctxs (view A (lib s)) (c_ctx c) = Some n" using c(2) by blast
  have nn: "c_ctx c \<noteq> NULL" "s_socket w \<noteq> NULL"
    using n h zsock_docD(2,3) [OF doc(2), of "lib s"] by (metis option.distinct(1))+
  have v2: "view A ?l2 = (view A (lib s))\<lparr>zlists := (zlists (view A (lib s)))(c_sockets c \<mapsto> remove1 (PTR q) xs)\<rparr>"
    by (simp add: zsock_docD(4) [OF doc(2)] zlist_liveD(4) [OF doc(1) l])
  have h2: "zsocks (view A ?l2) (s_socket w) = Some (c_ctx c, t)" using h by (simp add: v2)
  have v3: "view A ?l3 = (view A (lib s))\<lparr>zlists := (zlists (view A (lib s)))(c_sockets c \<mapsto> remove1 (PTR q) xs),
       zsocks := (zsocks (view A (lib s)))(s_socket w := None)\<rparr>"
    by (simp add: zsocket_liveD(1) [OF doc(2) h2]) (simp add: v2)
  have "rb_czmq_context_destroy_socket A q s = Return () (s\<lparr>lib := ?l3, socks := (socks s)(q \<mapsto> shut w)\<rparr>)"
    using w c(1) n h nn l
    by (simp add: rb_czmq_context_destroy_socket_def rb_czmq_nogvl_zsocket_destroy_def call_run v2 h2
        mark_socket_closed_run)
  then show thesis using that v3 by blast
qed

lemma destroy_socket_closed:
  assumes "socks s q = Some w" and "q \<noteq> NULL" and "s_context w \<noteq> Qfalse" and "s_flags w = 1"
  shows "rb_czmq_context_destroy_socket A q s = Return () (s\<lparr>socks := (socks s)(q \<mapsto> shut w)\<rparr>)"
  using assms by (simp add: rb_czmq_context_destroy_socket_def mark_socket_closed_run)

lemma destroy_socket_pipe:
  assumes "socks s q = Some w" and "q \<noteq> NULL" and "s_context w = Qnil" and "s_flags w = 0"
  shows "rb_czmq_context_destroy_socket A q s = Return () (s\<lparr>socks := (socks s)(q \<mapsto> shut w)\<rparr>)"
  using assms by (simp add: rb_czmq_context_destroy_socket_def mark_socket_closed_run)

section \<open>Closing all sockets of a context\<close>

definition close_all :: "ptr set \<Rightarrow> (ptr \<rightharpoonup> zmq_sock_wrapper) \<Rightarrow> ptr \<rightharpoonup> zmq_sock_wrapper" where
  "close_all Q ss = (\<lambda>q. if q \<in> Q then map_option shut (ss q) else ss q)"

definition sockets_of :: "ptr set \<Rightarrow> (ptr \<rightharpoonup> zmq_sock_wrapper) \<Rightarrow> ptr set" where
  "sockets_of Q ss = {s_socket w | q w. q \<in> Q \<and> ss q = Some w}"

lemma close_all_empty [simp]: "close_all {} ss = ss" "sockets_of {} ss = {}"
  by (simp_all add: close_all_def sockets_of_def)

lemma close_all_insert:
  assumes "ss q = Some w" and "q \<notin> Q"
  shows "close_all Q (ss(q \<mapsto> shut w)) = close_all (insert q Q) ss"
    and "sockets_of Q (ss(q \<mapsto> shut w)) = sockets_of Q ss"
    and "sockets_of (insert q Q) ss = insert (s_socket w) (sockets_of Q ss)"
  using assms by (auto simp: close_all_def sockets_of_def fun_eq_iff)

text \<open>What the closing loop needs to know of each socket.\<close>

definition to_close :: "'w czmq \<Rightarrow> 'w vm \<Rightarrow> ptr \<Rightarrow> zmq_ctx_wrapper \<Rightarrow> ptr list \<Rightarrow> bool" where
  "to_close A s p c qs \<longleftrightarrow>
     p \<noteq> NULL \<and> ctxs s p = Some c \<and> zctxs (view A (lib s)) (c_ctx c) \<noteq> None \<and>
     zlists (view A (lib s)) (c_sockets c) = Some (map PTR qs) \<and> distinct qs \<and>
     (\<forall>q\<in>set qs. q \<noteq> NULL \<and> (\<exists>w t. socks s q = Some w \<and> s_flags w = 0 \<and>
        s_context w = Object rb_cZmqContext p \<and> s_ctx_wrapper w = p \<and> s_ctx w = c_ctx c \<and>
        zsocks (view A (lib s)) (s_socket w) = Some (c_ctx c, t))) \<and>
     (\<forall>q\<in>set qs. \<forall>q'\<in>set qs. \<forall>w w'. socks s q = Some w \<and> socks s q' = Some w' \<and> s_socket w = s_socket w' \<longrightarrow>
        q = q')"

lemma to_closeD:
  assumes "to_close A s p c qs"
  shows "p \<noteq> NULL" "ctxs s p = Some c" "zctxs (view A (lib s)) (c_ctx c) \<noteq> None"
    "zlists (view A (lib s)) (c_sockets c) = Some (map PTR qs)" "distinct qs"
    and "q \<in> set qs \<Longrightarrow> q \<noteq> NULL \<and> (\<exists>w t. socks s q = Some w \<and> s_flags w = 0 \<and>
        s_context w = Object rb_cZmqContext p \<and> s_ctx_wrapper w = p \<and> s_ctx w = c_ctx c \<and>
        zsocks (view A (lib s)) (s_socket w) = Some (c_ctx c, t))"
    and "q \<in> set qs \<Longrightarrow> q' \<in> set qs \<Longrightarrow> socks s q = Some w \<Longrightarrow> socks s q' = Some w' \<Longrightarrow>
        s_socket w = s_socket w' \<Longrightarrow> q = q'"
  using assms unfolding to_close_def by blast+

lemma call_pop: "call (pop_socket A l ret) k = pop_socket A l k"
proof
  fix s :: "'a vm"
  obtain x w where x: "zlist_pop A l (lib s) = (x, w)" by fastforce
  show "call (pop_socket A l ret) k s = pop_socket A l k s"
    by (cases "zlists (view A (lib s)) l"; cases x)
      (auto simp: pop_socket_def call_def x split: void.splits)
qed

lemma call_pop_case:
  "(case pop_socket A l ret s of Return v s' \<Rightarrow> k v s' | Raise e s' \<Rightarrow> Raise e s' | Crash f \<Rightarrow> Crash f) =
     pop_socket A l k s"
  using call_pop [of A l k] by (simp add: call_def fun_eq_iff)

lemma to_close_tail:
  assumes "to_close A s p c (q # qs)" and "socks s q = Some w"
    and "view A l = (view A (lib s))\<lparr>zlists := (zlists (view A (lib s)))(c_sockets c \<mapsto> map PTR qs),
      zsocks := (zsocks (view A (lib s)))(s_socket w := None)\<rparr>"
  shows "to_close A (s\<lparr>lib := l, socks := (socks s)(q \<mapsto> shut w)\<rparr>) p c qs"
  unfolding to_close_def
proof (intro conjI ballI)
  note C = to_closeD [OF assms(1)]
  have nq: "q \<notin> set qs" using C(5) by simp
  fix r assume r: "r \<in> set qs"
  then obtain v u where v: "r \<noteq> NULL" "socks s r = Some v" "s_flags v = 0" "s_context v = Object rb_cZmqContext p"
      "s_ctx_wrapper v = p" "s_ctx v = c_ctx c" "zsocks (view A (lib s)) (s_socket v) = Some (c_ctx c, u)"
    using C(6) [of r] by auto
  have "s_socket v \<noteq> s_socket w" using C(7) [of r q v w] r nq v(2) assms(2) by auto
  then show "\<exists>v t. socks (s\<lparr>lib := l, socks := (socks s)(q \<mapsto> shut w)\<rparr>) r = Some v \<and> s_flags v = 0 \<and>
      s_context v = Object rb_cZmqContext p \<and> s_ctx_wrapper v = p \<and> s_ctx v = c_ctx c \<and>
      zsocks (view A (lib (s\<lparr>lib := l, socks := (socks s)(q \<mapsto> shut w)\<rparr>))) (s_socket v) = Some (c_ctx c, t)"
    using v r nq by (intro exI [of _ v] exI [of _ u]) (auto simp: assms(3))
  show "r \<noteq> NULL" by (rule v(1))
next
  note C = to_closeD [OF assms(1)]
  fix r r' assume "r \<in> set qs" "r' \<in> set qs"
  then show "\<forall>v w'. socks (s\<lparr>lib := l, socks := (socks s)(q \<mapsto> shut w)\<rparr>) r = Some v \<and>
      socks (s\<lparr>lib := l, socks := (socks s)(q \<mapsto> shut w)\<rparr>) r' = Some w' \<and> s_socket v = s_socket w' \<longrightarrow> r = r'"
    using C(5) C(7) [of r r'] by auto
qed (use to_closeD(1-5) [OF assms(1)] in \<open>simp_all add: assms(3)\<close>)

text \<open>One round of the loop: the first socket of the list is popped and closed.\<close>

lemma close_round:
  assumes doc: "zlist_doc A" "zsock_doc A" and "to_close A s p c (q # qs)"
  defines "loop \<equiv> \<lambda>k. while_do (\<lambda>socket. socket \<noteq> NULL)
       (\<lambda>socket. call (rb_czmq_context_destroy_socket A socket) (\<lambda>_. pop_socket A (c_sockets c) ret)) k"
  obtains w l2 where "socks s q = Some w" "q \<notin> set qs"
    "to_close A (s\<lparr>lib := l2, socks := (socks s)(q \<mapsto> shut w)\<rparr>) p c qs"
    "view A l2 = (view A (lib s))\<lparr>zlists := (zlists (view A (lib s)))(c_sockets c \<mapsto> map PTR qs),
       zsocks := (zsocks (view A (lib s)))(s_socket w := None)\<rparr>"
    "\<And>k. pop_socket A (c_sockets c) (loop k) s =
       pop_socket A (c_sockets c) (loop k) (s\<lparr>lib := l2, socks := (socks s)(q \<mapsto> shut w)\<rparr>)"
proof -
  note C = to_closeD [OF assms(3)]
  have l: "zlists (view A (lib s)) (c_sockets c) = Some (PTR q # map PTR qs)" using C(4) by simp
  obtain x l1 where x: "zlist_pop A (c_sockets c) (lib s) = (x, l1)" by fastforce
  have x': "x = Some (PTR q)"
    and v1: "view A l1 = (view A (lib s))\<lparr>zlists := (zlists (view A (lib s)))(c_sockets c \<mapsto> map PTR qs)\<rparr>"
    using zlist_liveD(5,6) [OF doc(1) l] by (simp_all add: x)
  define s1 where "s1 = s\<lparr>lib := l1\<rparr>"
  obtain w t where w: "socks s1 q = Some w" "q \<noteq> NULL" "s_flags w = 0" "s_context w = Object rb_cZmqContext p"
      "s_ctx_wrapper w = p" "p \<noteq> NULL" "s_ctx w = c_ctx c"
    and h: "zsocks (view A (lib s1)) (s_socket w) = Some (c_ctx c, t)"
    using C(6) [of q] C(1) by (auto simp: s1_def v1)
  have c: "ctxs s1 p = Some c" "zctxs (view A (lib s1)) (c_ctx c) \<noteq> None"
    "zlists (view A (lib s1)) (c_sockets c) = Some (map PTR qs)" using C(2,3) by (simp_all add: s1_def v1)
  obtain l2 where r2: "rb_czmq_context_destroy_socket A q s1 = Return () (s1\<lparr>lib := l2, socks := (socks s1)(q \<mapsto> shut w)\<rparr>)"
    and v2: "view A l2 = (view A (lib s1))\<lparr>zlists := (zlists (view A (lib s1)))(c_sockets c \<mapsto> remove1 (PTR q) (map PTR qs)),
       zsocks := (zsocks (view A (lib s1)))(s_socket w := None)\<rparr>"
    by (rule destroy_socket_open [OF doc w h c])
  define s2 where "s2 = s\<lparr>lib := l2, socks := (socks s)(q \<mapsto> shut w)\<rparr>"
  have nq: "q \<notin> set qs" using C(5) by simp
  have rm: "remove1 (PTR q) (map PTR qs) = map PTR qs" using nq by (intro remove1_idem) auto
  have sw: "socks s q = Some w" using w(1) by (simp add: s1_def)
  have v2': "view A (lib s2) = (view A (lib s))\<lparr>zlists := (zlists (view A (lib s)))(c_sockets c \<mapsto> map PTR qs),
       zsocks := (zsocks (view A (lib s)))(s_socket w := None)\<rparr>"
    by (simp add: s2_def v2 s1_def v1 rm)
  have "to_close A s2 p c qs"
    unfolding s2_def by (rule to_close_tail [OF assms(3) sw]) (use v2' in \<open>simp add: s2_def\<close>)
  moreover have "pop_socket A (c_sockets c) (loop k) s = pop_socket A (c_sockets c) (loop k) s2" for k
  proof -
    have "pop_socket A (c_sockets c) (loop k) s = loop k q s1" by (simp add: pop_socket_def l x x' s1_def)
    also have "\<dots> = pop_socket A (c_sockets c) (loop k) s2"
      unfolding loop_def while_do_unroll [of _ _ k q] using w(2) r2
      by (simp add: call_def call_pop_case s1_def s2_def)
    finally show ?thesis .
  qed
  ultimately show thesis using sw nq v2' by (intro that [of w l2]) (simp_all add: s2_def)
qed

lemma close_loop:
  assumes doc: "zlist_doc A" "zsock_doc A" and "to_close A s p c qs"
  obtains lb where
    "pop_socket A (c_sockets c) (while_do (\<lambda>socket. socket \<noteq> NULL)
       (\<lambda>socket. call (rb_czmq_context_destroy_socket A socket) (\<lambda>_. pop_socket A (c_sockets c) ret)) k) s =
     k NULL (s\<lparr>lib := lb, socks := close_all (set qs) (socks s)\<rparr>)"
    "view A lb = (view A (lib s))\<lparr>zlists := (zlists (view A (lib s)))(c_sockets c \<mapsto> []),
       zsocks := (zsocks (view A (lib s))) |` (- sockets_of (set qs) (socks s))\<rparr>"
  using assms(3)
proof (induction qs arbitrary: s thesis)
  case Nil
  then have l: "zlists (view A (lib s)) (c_sockets c) = Some []" by (simp add: to_close_def)
  obtain x lb where x: "zlist_pop A (c_sockets c) (lib s) = (x, lb)" by fastforce
  have "x = None" "view A lb = (view A (lib s))\<lparr>zlists := (zlists (view A (lib s)))(c_sockets c \<mapsto> [])\<rparr>"
    using zlist_liveD(5,6) [OF doc(1) l] by (simp_all add: x)
  then have "view A lb = (view A (lib s))\<lparr>zlists := (zlists (view A (lib s)))(c_sockets c \<mapsto> []),
       zsocks := (zsocks (view A (lib s))) |` (- sockets_of (set []) (socks s))\<rparr>"
    by (cases "view A (lib s)") (simp add: restrict_map_def)
  then show ?case
    by (rule Nil.prems(1) [rotated]) (simp add: pop_socket_def l x while_do_stop \<open>x = None\<close>)
next
  case (Cons q qs)
  let ?W = "while_do (\<lambda>socket. socket \<noteq> NULL)
       (\<lambda>socket. call (rb_czmq_context_destroy_socket A socket) (\<lambda>_. pop_socket A (c_sockets c) ret)) k"
  obtain w l2 where sw: "socks s q = Some w" and nq: "q \<notin> set qs"
    and rest: "to_close A (s\<lparr>lib := l2, socks := (socks s)(q \<mapsto> shut w)\<rparr>) p c qs"
    and v2: "view A l2 = (view A (lib s))\<lparr>zlists := (zlists (view A (lib s)))(c_sockets c \<mapsto> map PTR qs),
       zsocks := (zsocks (view A (lib s)))(s_socket w := None)\<rparr>"
    and round: "pop_socket A (c_sockets c) ?W s = pop_socket A (c_sockets c) ?W (s\<lparr>lib := l2, socks := (socks s)(q \<mapsto> shut w)\<rparr>)"
    by (rule close_round [OF doc Cons.prems(2)]) blast
  define s2 where "s2 = s\<lparr>lib := l2, socks := (socks s)(q \<mapsto> shut w)\<rparr>"
  obtain lb where run: "pop_socket A (c_sockets c) ?W s2 = k NULL (s2\<lparr>lib := lb, socks := close_all (set qs) (socks s2)\<rparr>)"
    and vb: "view A lb = (view A (lib s2))\<lparr>zlists := (zlists (view A (lib s2)))(c_sockets c \<mapsto> []),
       zsocks := (zsocks (view A (lib s2))) |` (- sockets_of (set qs) (socks s2))\<rparr>"
    using Cons.IH [OF _ rest] unfolding s2_def by blast
  note ca = close_all_insert [where ss = "socks s", OF sw nq]
  show ?case
  proof (rule Cons.prems(1) [of lb])
    show "pop_socket A (c_sockets c) ?W s = k NULL (s\<lparr>lib := lb, socks := close_all (set (q # qs)) (socks s)\<rparr>)"
      using round run by (simp add: s2_def ca)
    have e: "(zsocks (view A (lib s)))(s_socket w := None) |` (- sockets_of (set qs) (socks s)) =
        zsocks (view A (lib s)) |` (- sockets_of (set (q # qs)) (socks s))"
      by (auto simp: ca restrict_map_def fun_eq_iff)
    have "sockets_of (set qs) (socks s2) = sockets_of (set qs) (socks s)" by (simp add: s2_def ca(2))
    then show "view A lb = (view A (lib s))\<lparr>zlists := (zlists (view A (lib s)))(c_sockets c \<mapsto> []),
       zsocks := (zsocks (view A (lib s))) |` (- sockets_of (set (q # qs)) (socks s))\<rparr>"
      unfolding vb e [symmetric] by (cases "view A (lib s)") (simp add: s2_def v2)
  qed
qed

section \<open>Releasing a context\<close>

definition dead_ctx :: "zmq_ctx_wrapper \<Rightarrow> zmq_ctx_wrapper" where
  "dead_ctx c = c\<lparr>c_ctx := NULL, c_flags := 1, c_sockets := NULL\<rparr>"

text \<open>The libczmq context is destroyed only by the process that made it.\<close>

definition without_ctx :: "bool \<Rightarrow> ptr \<Rightarrow> cview \<Rightarrow> cview" where
  "without_ctx own z v =
     (if own then v\<lparr>zctxs := (zctxs v)(z := None),
        zsocks := (\<lambda>h. case zsocks v h of None \<Rightarrow> None | Some (d, t) \<Rightarrow> if d = z then None else Some (d, t))\<rparr>
      else v)"

lemma ctx_to_close:
  assumes inv: "life_inv A s" and c: "ctx_at A s p c qs"
  shows "to_close A s p c qs"
proof -
  note C = ctx_atD [OF c]
  have w: "\<exists>w t. sock_at A s q w p t" if "q \<in> set qs" for q
    using open_sock_at [OF inv, of q p] that C(9) by blast
  show ?thesis
    unfolding to_close_def
  proof (intro conjI ballI allI impI)
    fix q assume "q \<in> set qs"
    then obtain w t where "sock_at A s q w p t" using w by blast
    then show "q \<noteq> NULL" "\<exists>w t. socks s q = Some w \<and> s_flags w = 0 \<and>
        s_context w = Object rb_cZmqContext p \<and> s_ctx_wrapper w = p \<and> s_ctx w = c_ctx c \<and>
        zsocks (view A (lib s)) (s_socket w) = Some (c_ctx c, t)"
      using C(2) by (auto simp: sock_at_def)
  next
    fix q q' v v' assume q: "q \<in> set qs" "q' \<in> set qs"
      and v: "socks s q = Some v \<and> socks s q' = Some v' \<and> s_socket v = s_socket v'"
    obtain w t w' t' where "sock_at A s q w p t" "sock_at A s q' w' p t'" using w q by blast
    then show "q = q'"
      using v open_injD [OF lifeD(11) [OF life_invD [OF inv]], of q v q' v'] by (auto simp: sock_at_def)
  qed (use C in simp_all)
qed

lemma free_ctx_run:
  assumes doc: "zlist_doc A" "zsock_doc A" and inv: "life_inv A s" and c: "ctx_at A s p c qs"
  obtains lb where
    "rb_czmq_free_ctx A p s = Return () (s\<lparr>lib := lb, socks := close_all (set qs) (socks s),
       ctxs := (ctxs s)(p \<mapsto> dead_ctx c), ctx_map := (ctx_map s)(c_pidValue c := Qnil)\<rparr>)"
    "view A lb = without_ctx (c_pid c = pid s) (c_ctx c)
       ((view A (lib s))\<lparr>zlists := (zlists (view A (lib s)))(c_sockets c := None),
          zsocks := (zsocks (view A (lib s))) |` (- sockets_of (set qs) (socks s))\<rparr>)"
proof -
  note C = ctx_atD [OF c]
  let ?v = "view A (lib s)"
  define k :: "ptr \<Rightarrow> ('a, unit) vcmd" where "k = (\<lambda>_.
          call (rb_czmq_nogvl_zctx_destroy A p) (\<lambda>_.
          set_ctx p (\<lambda>c. c\<lparr>c_ctx := NULL\<rparr>) (
          wr (\<lambda>s. s\<lparr>ctx_map := (ctx_map s)(c_pidValue c := Qnil)\<rparr>) (
          live_list A (c_sockets c) (
          tell (zlist_destroy A (c_sockets c)) (
          set_ctx p (\<lambda>c. c\<lparr>c_sockets := NULL\<rparr>) (ret ())))))))"
  obtain l1 where r1: "pop_socket A (c_sockets c) (while_do (\<lambda>socket. socket \<noteq> NULL)
       (\<lambda>socket. call (rb_czmq_context_destroy_socket A socket) (\<lambda>_. pop_socket A (c_sockets c) ret)) k) s =
     k NULL (s\<lparr>lib := l1, socks := close_all (set qs) (socks s)\<rparr>)"
    and v1: "view A l1 = ?v\<lparr>zlists := (zlists ?v)(c_sockets c \<mapsto> []),
       zsocks := (zsocks ?v) |` (- sockets_of (set qs) (socks s))\<rparr>"
    by (rule close_loop [OF doc ctx_to_close [OF inv c]])
  let ?l2 = "set_errno A 0 l1"
  define l3 where "l3 = (if c_pid c = pid s then zctx_destroy A (c_ctx c) ?l2 else ?l2)"
  have v2: "view A ?l2 = view A l1" by (rule zsock_docD(4) [OF doc(2)])
  obtain n where n: "zctxs (view A ?l2) (c_ctx c) = Some n" using C(4) by (auto simp: v2 v1)
  have v3: "view A l3 = without_ctx (c_pid c = pid s) (c_ctx c) (view A l1)"
    by (simp add: l3_def without_ctx_def zctx_liveD(1) [OF doc(2) n] v2)
  have l3: "zlists (view A l3) (c_sockets c) = Some []" by (simp add: v3 without_ctx_def v1)
  have vb: "view A (zlist_destroy A (c_sockets c) l3) = without_ctx (c_pid c = pid s) (c_ctx c)
       (?v\<lparr>zlists := (zlists ?v)(c_sockets c := None), zsocks := (zsocks ?v) |` (- sockets_of (set qs) (socks s))\<rparr>)"
    by (simp add: zlist_liveD(7) [OF doc(1) l3]) (simp add: v3 without_ctx_def v1)
  have "k NULL (s\<lparr>lib := l1, socks := close_all (set qs) (socks s)\<rparr>) =
      Return () (s\<lparr>lib := zlist_destroy A (c_sockets c) l3, socks := close_all (set qs) (socks s),
       ctxs := (ctxs s)(p \<mapsto> dead_ctx c), ctx_map := (ctx_map s)(c_pidValue c := Qnil)\<rparr>)"
    using C(2,3) n l3
    by (cases "c_pid c = pid s"; cases s; cases c)
      (simp_all add: k_def rb_czmq_nogvl_zctx_destroy_def call_def l3_def dead_ctx_def)
  moreover have "rb_czmq_free_ctx A p s = pop_socket A (c_sockets c) (while_do (\<lambda>socket. socket \<noteq> NULL)
       (\<lambda>socket. call (rb_czmq_context_destroy_socket A socket) (\<lambda>_. pop_socket A (c_sockets c) ret)) k) s"
    using C(2) by (simp add: rb_czmq_free_ctx_def k_def)
  ultimately show thesis using r1 that vb by metis
qed

section \<open>The invariant is kept\<close>

lemma lifeI:
  assumes "n \<noteq> NULL" "\<And>p. n \<le> p \<Longrightarrow> cs p = None" "\<And>p. n \<le> p \<Longrightarrow> ss p = None" "cs NULL = None" "ss NULL = None"
    and "\<And>p c. cs p = Some c \<Longrightarrow> ctx_ok ss cm zc zl p c"
    and "\<And>q w. ss q = Some w \<Longrightarrow> s_context w \<noteq> Qfalse"
    and "\<And>q w. ss q = Some w \<Longrightarrow> sock_ok cs zs w"
    and "live_inj cs c_ctx" "live_inj cs c_sockets" "open_inj ss" "map_ok cs cm"
  shows "life cs ss cm zc zs zl n"
  using assms unfolding life_def by blast

lemma ctx_ok_cong:
  assumes "ctx_ok ss cm zc zl p c"
    and "c_flags c = 0 \<Longrightarrow> open_in ss' p = open_in ss p \<and> cm' (c_pidValue c) = cm (c_pidValue c) \<and>
      (zc (c_ctx c) \<noteq> None \<longrightarrow> zc' (c_ctx c) \<noteq> None) \<and> zl' (c_sockets c) = zl (c_sockets c)"
  shows "ctx_ok ss' cm' zc' zl' p c"
  using assms unfolding ctx_ok_def by auto

lemma open_in_upd:
  "s_flags v \<noteq> 0 \<Longrightarrow> open_in (ss(q \<mapsto> v)) p = open_in ss p - {q}"
  "ss q = Some w \<Longrightarrow> s_flags v = s_flags w \<Longrightarrow> s_context v = s_context w \<Longrightarrow> open_in (ss(q \<mapsto> v)) p = open_in ss p"
  by (auto simp: open_in_def)

lemma open_in_disjoint: "q \<in> open_in ss p \<Longrightarrow> q \<in> open_in ss p' \<Longrightarrow> p = p'"
  by (auto simp: open_in_def)

lemma open_inj_sub:
  "open_inj ss \<Longrightarrow> (\<And>q v. ss' q = Some v \<Longrightarrow> s_flags v = 0 \<Longrightarrow> ss q = Some v) \<Longrightarrow> open_inj ss'"
  unfolding open_inj_def by blast

lemma live_inj_sub:
  "live_inj cs h \<Longrightarrow> (\<And>p c. cs' p = Some c \<Longrightarrow> c_flags c = 0 \<Longrightarrow> cs p = Some c) \<Longrightarrow> live_inj cs' h"
  unfolding live_inj_def by blast

lemma open_inj_shut: "open_inj ss \<Longrightarrow> s_flags v \<noteq> 0 \<Longrightarrow> open_inj (ss(q \<mapsto> v))"
  by (erule open_inj_sub) (auto split: if_splits)

lemma sock_ok_shut: "sock_ok cs zs (shut w)"
  by (simp add: sock_ok_def)

lemma sock_ok_openE:
  assumes "sock_ok cs zs w" and "s_flags w = 0" and "s_context w \<noteq> Qnil"
  obtains p c t where "s_context w = Object rb_cZmqContext p" "p \<noteq> NULL" "s_ctx_wrapper w = p"
    "cs p = Some c" "c_flags c = 0" "s_ctx w = c_ctx c" "zs (s_socket w) = Some (c_ctx c, t)"
  using assms unfolding sock_ok_def by auto

lemma sock_ok_cong:
  assumes "sock_ok cs zs w"
    and "\<And>p c t. s_flags w = 0 \<Longrightarrow> s_context w = Object rb_cZmqContext p \<Longrightarrow> cs p = Some c \<Longrightarrow> c_flags c = 0 \<Longrightarrow>
      s_ctx w = c_ctx c \<Longrightarrow> zs (s_socket w) = Some (c_ctx c, t) \<Longrightarrow>
      (\<exists>c'. cs' p = Some c' \<and> c_flags c' = 0 \<and> c_ctx c' = c_ctx c) \<and> zs' (s_socket w) = Some (c_ctx c, t)"
  shows "sock_ok cs' zs' w"
proof (cases "s_flags w = 0 \<and> s_context w \<noteq> Qnil")
  case True
  then obtain p c t where w: "s_context w = Object rb_cZmqContext p" "p \<noteq> NULL" "s_ctx_wrapper w = p"
    "cs p = Some c" "c_flags c = 0" "s_ctx w = c_ctx c" "zs (s_socket w) = Some (c_ctx c, t)"
    using sock_ok_openE [OF assms(1)] by blast
  then show ?thesis using assms(2) [of p c t] True unfolding sock_ok_def by auto
qed (use assms(1) in \<open>auto simp: sock_ok_def\<close>)

lemma life_alloc:
  assumes "life cs ss cm zc zs zl n"
  shows "cs p = Some c \<Longrightarrow> p \<noteq> NULL \<and> p < n" "ss q = Some w \<Longrightarrow> q \<noteq> NULL \<and> q < n"
proof -
  show "cs p = Some c \<Longrightarrow> p \<noteq> NULL \<and> p < n" using lifeD(2,4) [OF assms] by (metis leI option.distinct(1))
  show "ss q = Some w \<Longrightarrow> q \<noteq> NULL \<and> q < n" using lifeD(3,5) [OF assms] by (metis leI option.distinct(1))
qed

lemma life_close:
  assumes L: "life cs ss cm zc zs zl n"
    and w: "ss q = Some w" "s_flags w = 0" "s_context w = Object rb_cZmqContext p"
    and c: "cs p = Some c" "c_flags c = 0" "zl (c_sockets c) = Some (map PTR qs)" "distinct qs" "set qs = open_in ss p"
  shows "life cs (ss(q \<mapsto> shut w)) cm zc (zs(s_socket w := None)) (zl(c_sockets c \<mapsto> map PTR (remove1 q qs))) n"
proof (rule lifeI)
  note D = lifeD [OF L]
  fix p' d assume d: "cs p' = Some d"
  show "ctx_ok (ss(q \<mapsto> shut w)) cm zc (zl(c_sockets c \<mapsto> map PTR (remove1 q qs))) p' d"
  proof (cases "p' = p")
    case True
    then have "d = c" using d c(1) by simp
    then show ?thesis
      using D(6) [OF c(1)] c(2,4,5) True unfolding ctx_ok_def by (auto simp: open_in_upd)
  next
    case False
    show ?thesis
    proof (rule ctx_ok_cong [OF D(6) [OF d]])
      assume f: "c_flags d = 0"
      have "c_sockets d \<noteq> c_sockets c" using live_injD [OF D(10) d c(1) f c(2)] False by blast
      moreover have "q \<notin> open_in ss p'" using w False by (simp add: open_in_def)
      ultimately show "open_in (ss(q \<mapsto> shut w)) p' = open_in ss p' \<and> cm (c_pidValue d) = cm (c_pidValue d) \<and>
        (zc (c_ctx d) \<noteq> None \<longrightarrow> zc (c_ctx d) \<noteq> None) \<and>
        (zl(c_sockets c \<mapsto> map PTR (remove1 q qs))) (c_sockets d) = zl (c_sockets d)"
        by (simp add: open_in_upd)
    qed
  qed
next
  note D = lifeD [OF L]
  fix r v assume v: "(ss(q \<mapsto> shut w)) r = Some v"
  show "s_context v \<noteq> Qfalse" using v D(7) w(1) by (auto split: if_splits)
  show "sock_ok cs (zs(s_socket w := None)) v"
  proof (cases "r = q")
    case True
    then show ?thesis using v by (auto simp: sock_ok_shut)
  next
    case False
    then have r: "ss r = Some v" using v by simp
    show ?thesis
    proof (rule sock_ok_cong [OF D(8) [OF r]])
      fix p' c' t assume "s_flags v = 0" "s_context v = Object rb_cZmqContext p'"
        "cs p' = Some c'" "c_flags c' = 0" and h: "zs (s_socket v) = Some (c_ctx c', t)"
      then have "s_socket v \<noteq> s_socket w" using open_injD [OF D(11) r w(1)] w(2,3) False by auto
      then show "(\<exists>c''. cs p' = Some c'' \<and> c_flags c'' = 0 \<and> c_ctx c'' = c_ctx c') \<and>
          (zs(s_socket w := None)) (s_socket v) = Some (c_ctx c', t)"
        using h \<open>cs p' = Some c'\<close> \<open>c_flags c' = 0\<close> by auto
    qed
  qed
qed (use lifeD(1-5,9-12) [OF L] life_alloc [OF L] w(1) in \<open>auto simp: open_inj_shut\<close>)

lemma close_all_some:
  "close_all Q ss q = Some v \<longleftrightarrow> (if q \<in> Q then \<exists>w. ss q = Some w \<and> v = shut w else ss q = Some v)"
  by (auto simp: close_all_def)

lemma open_in_close_all: "open_in (close_all Q ss) p = open_in ss p - Q"
  by (auto simp: open_in_def close_all_some split: if_splits)

lemma map_ok_free:
  assumes "map_ok cs cm" and "cs p = Some c"
  shows "map_ok (cs(p \<mapsto> dead_ctx c)) (cm(c_pidValue c := Qnil))"
  unfolding map_ok_def
proof
  fix k
  consider "k = c_pidValue c" | "cm k = Qnil" |
    p' d where "k \<noteq> c_pidValue c" "cm k = Object rb_cZmqContext p'" "cs p' = Some d" "c_flags d = 0" "c_pidValue d = k"
    using assms(1) unfolding map_ok_def by blast
  then show "(cm(c_pidValue c := Qnil)) k = Qnil \<or> (\<exists>p' d. (cm(c_pidValue c := Qnil)) k = Object rb_cZmqContext p' \<and>
      (cs(p \<mapsto> dead_ctx c)) p' = Some d \<and> c_flags d = 0 \<and> c_pidValue d = k)"
  proof cases
    case (3 p' d)
    then have "p' \<noteq> p" using assms(2) by auto
    then show ?thesis using 3 by auto
  qed simp_all
qed

text \<open>The handle of an open socket of another context is not among those of the context's sockets.\<close>

lemma other_handle:
  assumes inj: "open_inj ss" and qs: "set qs = open_in ss p"
    and q: "q \<notin> set qs" "ss q = Some v" "s_flags v = 0" "s_context v = Object rb_cZmqContext p'"
  shows "s_socket v \<notin> sockets_of (set qs) ss"
proof
  assume "s_socket v \<in> sockets_of (set qs) ss"
  then obtain r w where r: "r \<in> set qs" "ss r = Some w" "s_socket v = s_socket w" by (auto simp: sockets_of_def)
  then have "s_flags w = 0" "s_context w = Object rb_cZmqContext p" using qs by (auto simp: open_in_def)
  then show False using open_injD [OF inj q(2) r(2)] r q by auto
qed

lemma life_free:
  assumes L: "life cs ss cm zc zs zl n"
    and c: "cs p = Some c" "c_flags c = 0" "zl (c_sockets c) = Some (map PTR qs)" "set qs = open_in ss p"
      "cm (c_pidValue c) = Object rb_cZmqContext p"
    and zc: "\<And>z. z \<noteq> c_ctx c \<Longrightarrow> zc' z = zc z"
    and zs: "\<And>h z t. zs h = Some (z, t) \<Longrightarrow> z \<noteq> c_ctx c \<Longrightarrow> h \<notin> sockets_of (set qs) ss \<Longrightarrow> zs' h = Some (z, t)"
  shows "life (cs(p \<mapsto> dead_ctx c)) (close_all (set qs) ss) (cm(c_pidValue c := Qnil)) zc' zs' (zl(c_sockets c := None)) n"
proof (rule lifeI)
  note D = lifeD [OF L]
  have dead [simp]: "c_flags (dead_ctx c) = 1" "c_ctx (dead_ctx c) = NULL" "c_sockets (dead_ctx c) = NULL"
    by (simp_all add: dead_ctx_def)
  show "live_inj (cs(p \<mapsto> dead_ctx c)) c_ctx" "live_inj (cs(p \<mapsto> dead_ctx c)) c_sockets"
    by (rule live_inj_sub, rule D, auto split: if_splits)+
  show "open_inj (close_all (set qs) ss)"
    by (rule open_inj_sub [OF D(11)]) (auto simp: close_all_some split: if_splits)
  have key: "c_pidValue d \<noteq> c_pidValue c"
    if d: "cs p' = Some d" "c_flags d = 0" "p' \<noteq> p" for p' d
  proof
    have "cm (c_pidValue d) = Object rb_cZmqContext p'"
      using D(6) [OF d(1)] d(2) unfolding ctx_ok_def by (elim disjE conjE) simp_all
    moreover assume "c_pidValue d = c_pidValue c"
    ultimately show False using c(5) d(3) by simp
  qed
  show "map_ok (cs(p \<mapsto> dead_ctx c)) (cm(c_pidValue c := Qnil))"
    by (rule map_ok_free [OF D(12) c(1)])
  fix p' d assume d: "(cs(p \<mapsto> dead_ctx c)) p' = Some d"
  show "ctx_ok (close_all (set qs) ss) (cm(c_pidValue c := Qnil)) zc' (zl(c_sockets c := None)) p' d"
  proof (cases "p' = p")
    case True
    then show ?thesis using d by (auto simp: ctx_ok_def)
  next
    case False
    then have d': "cs p' = Some d" using d by simp
    show ?thesis
    proof (rule ctx_ok_cong [OF D(6) [OF d']])
      assume f: "c_flags d = 0"
      have "c_sockets d \<noteq> c_sockets c" "c_ctx d \<noteq> c_ctx c"
        using live_injD [OF D(10) d' c(1) f c(2)] live_injD [OF D(9) d' c(1) f c(2)] False by blast+
      moreover have "open_in (close_all (set qs) ss) p' = open_in ss p'"
        using open_in_disjoint [of _ ss p p'] False unfolding open_in_close_all c(4) by blast
      ultimately show "open_in (close_all (set qs) ss) p' = open_in ss p' \<and>
          (cm(c_pidValue c := Qnil)) (c_pidValue d) = cm (c_pidValue d) \<and>
        (zc (c_ctx d) \<noteq> None \<longrightarrow> zc' (c_ctx d) \<noteq> None) \<and> (zl(c_sockets c := None)) (c_sockets d) = zl (c_sockets d)"
        using key [OF d' f False] zc by simp
    qed
  qed
next
  note D = lifeD [OF L]
  fix q v assume "close_all (set qs) ss q = Some v"
  then consider w where "q \<in> set qs" "ss q = Some w" "v = shut w" | "q \<notin> set qs" "ss q = Some v"
    by (auto simp: close_all_some split: if_splits)
  then show "s_context v \<noteq> Qfalse" by cases (use D(7) in auto)
  assume "close_all (set qs) ss q = Some v"
  then consider w where "q \<in> set qs" "ss q = Some w" "v = shut w" | "q \<notin> set qs" "ss q = Some v"
    by (auto simp: close_all_some split: if_splits)
  then show "sock_ok (cs(p \<mapsto> dead_ctx c)) zs' v"
  proof cases
    case 1
    then show ?thesis by (simp add: sock_ok_shut)
  next
    case 2
    show ?thesis
    proof (rule sock_ok_cong [OF D(8) [OF 2(2)]])
      fix p' d t assume v: "s_flags v = 0" "s_context v = Object rb_cZmqContext p'"
        and d: "cs p' = Some d" "c_flags d = 0" and h: "zs (s_socket v) = Some (c_ctx d, t)"
      have "q \<in> open_in ss p'" using 2(2) v by (auto simp: open_in_def)
      then have np: "p' \<noteq> p" using 2(1) c(4) by auto
      have "s_socket v \<notin> sockets_of (set qs) ss" by (rule other_handle [OF D(11) c(4) 2 v])
      moreover have "c_ctx d \<noteq> c_ctx c" using live_injD [OF D(9) d(1) c(1) d(2) c(2)] np by blast
      ultimately show "(\<exists>c'. (cs(p \<mapsto> dead_ctx c)) p' = Some c' \<and> c_flags c' = 0 \<and> c_ctx c' = c_ctx d) \<and>
          zs' (s_socket v) = Some (c_ctx d, t)"
        using zs [OF h] d np by auto
    qed
  qed
qed (use lifeD(1-5) [OF L] life_alloc [OF L] c(1) in \<open>auto simp: close_all_def\<close>)

section \<open>New contexts and sockets\<close>

lemma no_open_in:
  assumes "life cs ss cm zc zs zl n" and "cs p = None"
  shows "open_in ss p = {}"
proof -
  have False if q: "q \<in> open_in ss p" for q
  proof -
    obtain w where w: "ss q = Some w" "s_flags w = 0" "s_context w = Object rb_cZmqContext p"
      using q by (auto simp: open_in_def)
    have "s_context w \<noteq> Qnil" using w(3) by simp
    then obtain p' c where "s_context w = Object rb_cZmqContext p'" "cs p' = Some c"
      using sock_ok_openE [OF lifeD(8) [OF assms(1) w(1)] w(2)] by blast
    then show False using w(3) assms(2) by simp
  qed
  then show ?thesis by blast
qed

lemma live_ctxD:
  assumes "life cs ss cm zc zs zl n" and "cs p = Some c" and "c_flags c = 0"
  shows "zc (c_ctx c) \<noteq> None" "zl (c_sockets c) \<noteq> None" "cm (c_pidValue c) = Object rb_cZmqContext p"
    "c_pidValue c = INT2NUM (c_pid c)"
  using lifeD(6) [OF assms(1,2)] assms(3) unfolding ctx_ok_def by (elim disjE conjE exE; simp)+

lemma life_new_ctx:
  assumes L: "life cs ss cm zc zs zl n" and key: "cm (INT2NUM i) = Qnil" and z: "zc z = None" and l: "zl l = None"
    and c: "c_flags c = 0" "c_ctx c = z" "c_pid c = i" "c_pidValue c = INT2NUM i" "c_sockets c = l"
  shows "life (cs(n \<mapsto> c)) ss (cm(INT2NUM i := Object rb_cZmqContext n)) (zc(z \<mapsto> 1)) zs (zl(l \<mapsto> [])) (Suc n)"
proof (rule lifeI)
  note D = lifeD [OF L]
  have csn: "cs n = None" by (rule D(2)) simp
  have other: "c_ctx d \<noteq> z" "c_sockets d \<noteq> l" "c_pidValue d \<noteq> INT2NUM i"
    if "cs p = Some d" "c_flags d = 0" for p d
    using live_ctxD [OF L that] key z l by (metis rvalue.distinct)+
  fix p d assume d: "(cs(n \<mapsto> c)) p = Some d"
  show "ctx_ok ss (cm(INT2NUM i := Object rb_cZmqContext n)) (zc(z \<mapsto> 1)) (zl(l \<mapsto> [])) p d"
  proof (cases "p = n")
    case True
    then have "d = c" using d by simp
    then show ?thesis using c True no_open_in [OF L csn] unfolding ctx_ok_def
      by (intro disjI2 conjI exI [of _ "[]"]) simp_all
  next
    case False
    then have "cs p = Some d" using d by simp
    then show ?thesis
      by (intro ctx_ok_cong [OF D(6)]) (use other in auto)
  qed
next
  note D = lifeD [OF L]
  have other: "c_ctx d \<noteq> z" "c_sockets d \<noteq> l" "c_pidValue d \<noteq> INT2NUM i"
    if "cs p = Some d" "c_flags d = 0" for p d
    using live_ctxD [OF L that] key z l by (metis rvalue.distinct)+
  show "live_inj (cs(n \<mapsto> c)) c_ctx"
    using D(9) other(1) c(2) unfolding live_inj_def by (metis fun_upd_apply option.inject)
  show "live_inj (cs(n \<mapsto> c)) c_sockets"
    using D(10) other(2) c(5) unfolding live_inj_def by (metis fun_upd_apply option.inject)
  show "map_ok (cs(n \<mapsto> c)) (cm(INT2NUM i := Object rb_cZmqContext n))"
    unfolding map_ok_def
  proof
    fix k
    have csn: "cs n = None" by (rule D(2)) simp
    consider "k = INT2NUM i" | "cm k = Qnil" "k \<noteq> INT2NUM i" |
      p d where "k \<noteq> INT2NUM i" "cm k = Object rb_cZmqContext p" "cs p = Some d" "c_flags d = 0" "c_pidValue d = k"
      using D(12) unfolding map_ok_def by blast
    then show "(cm(INT2NUM i := Object rb_cZmqContext n)) k = Qnil \<or>
        (\<exists>p d. (cm(INT2NUM i := Object rb_cZmqContext n)) k = Object rb_cZmqContext p \<and>
          (cs(n \<mapsto> c)) p = Some d \<and> c_flags d = 0 \<and> c_pidValue d = k)"
    proof cases
      case (3 p d)
      then have "p \<noteq> n" using csn by auto
      then show ?thesis using 3 by auto
    qed (use c in auto)
  qed
  fix q w assume "ss q = Some w"
  then show "sock_ok (cs(n \<mapsto> c)) zs w"
    by (rule sock_ok_cong [OF D(8)]) (use D(2) [of n] in auto)
qed (use lifeD [OF L] in \<open>auto\<close>)

lemma life_new_sock:
  assumes L: "life cs ss cm zc zs zl n" and p: "cs p = Some c" "c_flags c = 0" "zl (c_sockets c) = Some (map PTR qs)"
    "distinct qs" "set qs = open_in ss p"
    and h: "zs h = None" and m: "n < m"
    and w: "s_flags w = 0" "s_ctx w = c_ctx c" "s_socket w = h" "s_ctx_wrapper w = p" "s_context w = Object rb_cZmqContext p"
  shows "life cs (ss(n \<mapsto> w)) cm zc (zs(h \<mapsto> (c_ctx c, t))) (zl(c_sockets c \<mapsto> map PTR (n # qs))) m"
proof (rule lifeI)
  note D = lifeD [OF L]
  have ssn: "ss n = None" by (rule D(3)) simp
  have "p \<noteq> NULL" using life_alloc(1) [OF L p(1)] by blast
  have opn: "open_in (ss(n \<mapsto> w)) p' = (if p' = p then insert n (open_in ss p) else open_in ss p')" for p'
    using w ssn by (auto simp: open_in_def)
  fix p' d assume d: "cs p' = Some d"
  show "ctx_ok (ss(n \<mapsto> w)) cm zc (zl(c_sockets c \<mapsto> map PTR (n # qs))) p' d"
  proof (cases "p' = p")
    case True
    have "n \<notin> set qs" using ssn p(5) by (auto simp: open_in_def)
    moreover have "d = c" using d True p(1) by simp
    ultimately show ?thesis
      using live_ctxD [OF L p(1,2)] p(2,4,5) True unfolding ctx_ok_def
      by (intro disjI2 conjI exI [of _ "n # qs"]) (simp_all add: opn)
  next
    case False
    show ?thesis
    proof (rule ctx_ok_cong [OF D(6) [OF d]])
      assume "c_flags d = 0"
      then have "c_sockets d \<noteq> c_sockets c" using live_injD [OF D(10) d p(1) _ p(2)] False by blast
      then show "open_in (ss(n \<mapsto> w)) p' = open_in ss p' \<and> cm (c_pidValue d) = cm (c_pidValue d) \<and>
          (zc (c_ctx d) \<noteq> None \<longrightarrow> zc (c_ctx d) \<noteq> None) \<and>
          (zl(c_sockets c \<mapsto> map PTR (n # qs))) (c_sockets d) = zl (c_sockets d)"
        using False by (simp add: opn)
    qed
  qed
next
  note D = lifeD [OF L]
  have "p \<noteq> NULL" using life_alloc(1) [OF L p(1)] by blast
  fix q v assume v: "(ss(n \<mapsto> w)) q = Some v"
  show "s_context v \<noteq> Qfalse" using v w(5) D(7) by (auto split: if_splits)
  show "sock_ok cs (zs(h \<mapsto> (c_ctx c, t))) v"
  proof (cases "q = n")
    case True
    then have "v = w" using v by simp
    then show ?thesis using w p(1,2) \<open>p \<noteq> NULL\<close> unfolding sock_ok_def by (intro disjI2) simp
  next
    case False
    then have "ss q = Some v" using v by simp
    then show ?thesis by (rule sock_ok_cong [OF D(8)]) (use h in auto)
  qed
next
  note D = lifeD [OF L]
  have other: "s_socket v \<noteq> h" if "ss q = Some v" "s_flags v = 0" "s_context v \<noteq> Qnil" for q v
    using sock_ok_openE [OF D(8) [OF that(1)] that(2,3)] h by (metis option.distinct(1))
  show "open_inj (ss(n \<mapsto> w))"
    using D(11) other w(3) unfolding open_inj_def by (metis fun_upd_apply option.inject)
qed (use lifeD [OF L] m in \<open>auto\<close>)

end
