(* ===== verification/Zmq_Life.thy ===== *)
theory Zmq_Life
  imports Zmq_Lifecycle
begin

text \<open>
  Programs over contexts and sockets: the calls a Ruby program, the garbage collector and the
  process make, what each does to the live contexts and the open sockets, and the theorems over all
  sequences of calls.
\<close>

section \<open>The abstract store\<close>

text \<open>The live contexts with the process that made them, the open sockets with context and thread.\<close>

record life_store =
  contexts :: "ptr \<rightharpoonup> int"
  sockets :: "ptr \<rightharpoonup> ptr \<times> rvalue"

definition context_of :: "zmq_ctx_wrapper \<Rightarrow> int option" where
  "context_of c = (if c_flags c = 0 then Some (c_pid c) else None)"

definition socket_of :: "zmq_sock_wrapper \<Rightarrow> (ptr \<times> rvalue) option" where
  "socket_of w =
     (if s_flags w = 0 then (case s_context w of Object rb_cZmqContext p \<Rightarrow> Some (p, s_thread w) | _ \<Rightarrow> None)
      else None)"

definition abs_life :: "'w vm \<Rightarrow> life_store" where
  "abs_life s =
     \<lparr>contexts = (\<lambda>p. Option.bind (ctxs s p) context_of), sockets = (\<lambda>q. Option.bind (socks s q) socket_of)\<rparr>"

definition drop_ctx :: "ptr \<Rightarrow> life_store \<Rightarrow> life_store" where
  "drop_ctx p st =
     st\<lparr>contexts := (contexts st)(p := None),
        sockets := (\<lambda>q. case sockets st q of None \<Rightarrow> None | Some (p', t) \<Rightarrow> if p' = p then None else Some (p', t))\<rparr>"

definition drop_sock :: "ptr \<Rightarrow> life_store \<Rightarrow> life_store" where
  "drop_sock q st = st\<lparr>sockets := (sockets st)(q := None)\<rparr>"

lemma socket_of_simps [simp]:
  "s_flags w = 1 \<Longrightarrow> socket_of w = None" "socket_of (shut w) = None"
  "s_flags w = 0 \<Longrightarrow> s_context w = Object rb_cZmqContext p \<Longrightarrow> socket_of w = Some (p, s_thread w)"
  "s_flags w = 0 \<Longrightarrow> s_context w = Qnil \<Longrightarrow> socket_of w = None"
  by (simp_all add: socket_of_def)

lemma context_of_simps [simp]:
  "c_flags c = 1 \<Longrightarrow> context_of c = None" "c_flags c = 0 \<Longrightarrow> context_of c = Some (c_pid c)"
  "context_of (dead_ctx c) = None"
  by (simp_all add: context_of_def dead_ctx_def)

lemma socket_of_Some:
  "socket_of w = Some (p, t) \<longleftrightarrow> s_flags w = 0 \<and> s_context w = Object rb_cZmqContext p \<and> t = s_thread w"
  by (auto simp: socket_of_def split: rvalue.splits klass.splits)

lemma abs_life_close:
  "socks s q = Some w \<Longrightarrow>
     abs_life (s\<lparr>lib := lb, socks := (socks s)(q \<mapsto> shut w)\<rparr>) = drop_sock q (abs_life s)"
  by (auto simp: abs_life_def drop_sock_def fun_eq_iff)

lemma abs_life_free:
  assumes "set qs = open_in (socks s) p"
  shows "abs_life (s\<lparr>lib := lb, socks := close_all (set qs) (socks s), ctxs := (ctxs s)(p \<mapsto> dead_ctx c),
           ctx_map := cm\<rparr>) = drop_ctx p (abs_life s)"
proof -
  have "Option.bind (close_all (set qs) (socks s) q) socket_of =
      (case Option.bind (socks s q) socket_of of None \<Rightarrow> None
       | Some (p', t) \<Rightarrow> if p' = p then None else Some (p', t))" for q
  proof (cases "socks s q")
    case (Some w)
    show ?thesis
    proof (cases "socket_of w")
      case None
      then show ?thesis using Some by (cases "q \<in> set qs") (simp_all add: close_all_def)
    next
      case (Some x)
      then have "q \<in> set qs \<longleftrightarrow> fst x = p"
        using \<open>socks s q = Some w\<close> unfolding assms open_in_def by (cases x) (auto simp: socket_of_Some)
      then show ?thesis using Some \<open>socks s q = Some w\<close> by (cases x) (auto simp: close_all_def)
    qed
  qed (simp add: close_all_def)
  then show ?thesis by (auto simp: abs_life_def drop_ctx_def fun_eq_iff)
qed

section \<open>Calls\<close>

datatype life_call =
    Ctx_new "rvalue list" | Ctx_destroy ptr | Ctx_set_linger ptr rvalue | Ctx_set_iothreads ptr rvalue
  | Ctx_socket ptr rvalue
  | Sock_close ptr | Sock_bind ptr rvalue | Sock_connect ptr rvalue | Sock_disconnect ptr rvalue
  | Sock_unbind ptr rvalue | Sock_send ptr rvalue | Sock_recv ptr | Sock_set_verbose ptr rvalue
  | Collect_ctx ptr | Collect_sock ptr
  | Fork int | Switch_thread rvalue

text \<open>A socket object; which of the socket classes it has makes no difference.\<close>

abbreviation Context :: "ptr \<Rightarrow> rvalue" where "Context p \<equiv> Object rb_cZmqContext p"
abbreviation Socket :: "ptr \<Rightarrow> rvalue" where "Socket q \<equiv> Object rb_cZmqPairSocket q"

fun run_life :: "'w czmq \<Rightarrow> life_call \<Rightarrow> ('w, rvalue) vcmd" where
  "run_life A (Ctx_new argv) = rb_czmq_ctx_s_new A argv"
| "run_life A (Ctx_destroy p) = rb_czmq_ctx_destroy A (Context p)"
| "run_life A (Ctx_set_linger p v) = rb_czmq_ctx_set_linger A (Context p) v"
| "run_life A (Ctx_set_iothreads p v) = rb_czmq_ctx_set_iothreads A (Context p) v"
| "run_life A (Ctx_socket p v) = rb_czmq_ctx_socket A (Context p) v"
| "run_life A (Sock_close q) = rb_czmq_socket_close A (Socket q)"
| "run_life A (Sock_bind q v) = rb_czmq_socket_bind A (Socket q) v"
| "run_life A (Sock_connect q v) = rb_czmq_socket_connect A (Socket q) v"
| "run_life A (Sock_disconnect q v) = rb_czmq_socket_disconnect A (Socket q) v"
| "run_life A (Sock_unbind q v) = rb_czmq_socket_unbind A (Socket q) v"
| "run_life A (Sock_send q v) = rb_czmq_socket_send A (Socket q) v"
| "run_life A (Sock_recv q) = rb_czmq_socket_recv A (Socket q)"
| "run_life A (Sock_set_verbose q v) = rb_czmq_socket_set_verbose (Socket q) v"
| "run_life A (Collect_ctx p) = call (rb_czmq_free_ctx_gc A p) (\<lambda>_. ret Qnil)"
| "run_life A (Collect_sock q) = call (rb_czmq_free_sock_gc A q) (\<lambda>_. ret Qnil)"
| "run_life A (Fork i) = wr (\<lambda>s. s\<lparr>pid := i\<rparr>) (ret Qnil)"
| "run_life A (Switch_thread t) = wr (\<lambda>s. s\<lparr>thread := t\<rparr>) (ret Qnil)"

text \<open>The number of a socket type, given as a number or by name.\<close>

definition type_number :: "'w czmq \<Rightarrow> rvalue \<Rightarrow> int option" where
  "type_number A v =
     (case v of
        Fixnum n \<Rightarrow> if - (2 ^ 31) \<le> n \<and> n < 2 ^ 31 then Some n else None
      | Symbol name \<Rightarrow> map_option (\<lambda>n. sint (word_of_int n :: 32 word)) (map_of (Init_rbczmq_ext A) name)
      | _ \<Rightarrow> None)"

fun life_effect :: "'w czmq \<Rightarrow> ptr \<Rightarrow> int \<Rightarrow> rvalue \<Rightarrow> life_call \<Rightarrow> life_store \<Rightarrow> life_store" where
  "life_effect A n i t (Ctx_new argv) st =
     (if length argv \<le> 1 \<and> (\<forall>p j. contexts st p = Some j \<longrightarrow> INT2NUM j \<noteq> INT2NUM i)
      then st\<lparr>contexts := (contexts st)(n \<mapsto> i)\<rparr> else st)"
| "life_effect A n i t (Ctx_destroy p) st = (if contexts st p = Some i then drop_ctx p st else st)"
| "life_effect A n i t (Ctx_socket p v) st =
     (if contexts st p = Some i \<and> type_number A v \<noteq> None
      then st\<lparr>sockets := (sockets st)(n \<mapsto> (p, t))\<rparr> else st)"
| "life_effect A n i t (Sock_close q) st =
     (if \<exists>p. sockets st q = Some (p, t) then drop_sock q st else st)"
| "life_effect A n i t (Collect_ctx p) st = drop_ctx p st"
| "life_effect A n i t (Collect_sock q) st = drop_sock q st"
| "life_effect A n i t c st = st"

text \<open>
  The calls on an object need the object: it was not collected. The pipes of beacons are left to
  beacon.c, and a number that is no socket type makes libzmq fail, which is another matter.
\<close>

definition usable :: "'w vm \<Rightarrow> ptr \<Rightarrow> bool" where
  "usable s q \<longleftrightarrow> (case socks s q of None \<Rightarrow> False | Some w \<Rightarrow> s_context w \<noteq> Qnil)"

fun life_valid :: "'w czmq \<Rightarrow> 'w vm \<Rightarrow> life_call \<Rightarrow> bool" where
  "life_valid A s (Ctx_destroy p) \<longleftrightarrow> ctxs s p \<noteq> None"
| "life_valid A s (Ctx_set_linger p v) \<longleftrightarrow> ctxs s p \<noteq> None"
| "life_valid A s (Ctx_set_iothreads p v) \<longleftrightarrow> ctxs s p \<noteq> None"
| "life_valid A s (Ctx_socket p v) \<longleftrightarrow>
     ctxs s p \<noteq> None \<and> (\<forall>n. type_number A v = Some n \<longrightarrow> n \<in> range (socktype A))"
| "life_valid A s (Sock_close q) \<longleftrightarrow> usable s q"
| "life_valid A s (Sock_bind q v) \<longleftrightarrow> usable s q"
| "life_valid A s (Sock_connect q v) \<longleftrightarrow> usable s q"
| "life_valid A s (Sock_disconnect q v) \<longleftrightarrow> usable s q"
| "life_valid A s (Sock_unbind q v) \<longleftrightarrow> usable s q"
| "life_valid A s (Sock_send q v) \<longleftrightarrow> usable s q \<and> string_arg A s v"
| "life_valid A s (Sock_recv q) \<longleftrightarrow> usable s q"
| "life_valid A s (Sock_set_verbose q v) \<longleftrightarrow> usable s q"
| "life_valid A s (Collect_ctx p) \<longleftrightarrow> ctxs s p \<noteq> None"
| "life_valid A s (Collect_sock q) \<longleftrightarrow> usable s q"
| "life_valid A s c \<longleftrightarrow> True"

text \<open>libczmq creates a context or a socket of an existing type when it is asked to.\<close>

definition zctx_never_fails :: "'w czmq \<Rightarrow> bool" where
  "zctx_never_fails A \<longleftrightarrow>
     (\<forall>w. fst (zctx_new A w) \<noteq> NULL) \<and> (\<forall>c t w. fst (zsocket_new A c (socktype A t) w) \<noteq> NULL)"

abbreviation life_reach :: "'w czmq \<Rightarrow> 'w vm \<Rightarrow> 'w vm \<Rightarrow> bool" where
  "life_reach A \<equiv> runs (run_life A) (life_valid A)"

lemma life_reach_step:
  "life_reach A s t \<Longrightarrow> life_valid A t c \<Longrightarrow> final_state (run_life A c t) = Some u \<Longrightarrow> life_reach A s u"
  by (rule runs.step)

section \<open>One call\<close>

text \<open>A call does what its effect says, in whatever way it ends.\<close>

definition does :: "'w czmq \<Rightarrow> life_call \<Rightarrow> 'w vm \<Rightarrow> bool" where
  "does A c s \<longleftrightarrow>
     (let P = \<lambda>t. life_inv A t \<and> abs_life t = life_effect A (fresh s) (pid s) (thread s) c (abs_life s)
      in wp (run_life A c) (\<lambda>_. P) (\<lambda>_. P) s)"

lemma abs_life_cong: "ctxs t = ctxs s \<Longrightarrow> socks t = socks s \<Longrightarrow> abs_life t = abs_life s"
  by (simp add: abs_life_def)

lemma life_inv_cong:
  assumes "life_inv A s" and "ctxs t = ctxs s" "socks t = socks s" "ctx_map t = ctx_map s" "fresh s \<le> fresh t"
    and "dom (zctxs (view A (lib s))) \<subseteq> dom (zctxs (view A (lib t)))" "zsocks (view A (lib t)) = zsocks (view A (lib s))"
      "zlists (view A (lib t)) = zlists (view A (lib s))"
  shows "life_inv A t"
proof -
  note D = lifeD [OF life_invD [OF assms(1)]]
  show ?thesis
    unfolding life_inv_def assms(2-4,7,8)
  proof (rule lifeI)
    fix p c assume "ctxs s p = Some c"
    then show "ctx_ok (socks s) (ctx_map s) (zctxs (view A (lib t))) (zlists (view A (lib s))) p c"
      by (rule ctx_ok_cong [OF D(6)]) (use assms(6) in auto)
  qed (use D assms(5) in \<open>auto dest: order_trans\<close>)
qed

text \<open>Fields of an open socket that its life does not depend on.\<close>

definition same_life :: "zmq_sock_wrapper \<Rightarrow> zmq_sock_wrapper \<Rightarrow> bool" where
  "same_life w v \<longleftrightarrow>
     s_flags v = s_flags w \<and> s_ctx v = s_ctx w \<and> s_socket v = s_socket w \<and> s_ctx_wrapper v = s_ctx_wrapper w \<and>
     s_context v = s_context w \<and> s_thread v = s_thread w \<and> (s_flags w = 1 \<longrightarrow> s_state v = s_state w)"

lemma life_sock_upd:
  assumes L: "life cs ss cm zc zs zl n" and w: "ss q = Some w" "same_life w v"
  shows "life cs (ss(q \<mapsto> v)) cm zc zs zl n"
proof (rule lifeI)
  note D = lifeD [OF L]
  note V = w(2) [unfolded same_life_def]
  show "ctx_ok (ss(q \<mapsto> v)) cm zc zl p c" if "cs p = Some c" for p c
    by (rule ctx_ok_cong [OF D(6) [OF that]]) (use V open_in_upd(2) [where ss = ss and q = q and w = w and v = v and p = p] w(1) in simp)
  fix r u assume u: "(ss(q \<mapsto> v)) r = Some u"
  show "s_context u \<noteq> Qfalse" using u D(7) w(1) V by (auto split: if_splits)
  show "sock_ok cs zs u"
  proof (cases "r = q")
    case True
    then have "u = v" using u by simp
    then show ?thesis using D(8) [OF w(1)] V unfolding sock_ok_def by auto
  next
    case False
    then show ?thesis using D(8) u by simp
  qed
next
  show "open_inj (ss(q \<mapsto> v))"
    unfolding open_inj_def
  proof (intro allI impI, elim conjE)
    fix x y a b assume x: "(ss(q \<mapsto> v)) x = Some a" and y: "(ss(q \<mapsto> v)) y = Some b"
      and f: "s_flags a = 0" "s_flags b = 0" "s_context a \<noteq> Qnil" "s_context b \<noteq> Qnil" "s_socket a = s_socket b"
    obtain a' where a': "ss x = Some a'" "same_life a' a"
      using x w by (cases "x = q") (auto simp: same_life_def)
    obtain b' where b': "ss y = Some b'" "same_life b' b"
      using y w by (cases "y = q") (auto simp: same_life_def)
    show "x = y"
      by (rule open_injD [OF lifeD(11) [OF L] a'(1) b'(1)]) (use a'(2) b'(2) f in \<open>simp_all add: same_life_def\<close>)
  qed
qed (use lifeD [OF L] life_alloc [OF L] w(1) in \<open>auto\<close>)

text \<open>A state that differs from another only in what the lives of contexts and sockets do not depend on.\<close>

definition alike :: "'w czmq \<Rightarrow> 'w vm \<Rightarrow> 'w vm \<Rightarrow> bool" where
  "alike A s t \<longleftrightarrow>
     ctxs t = ctxs s \<and> ctx_map t = ctx_map s \<and> fresh s \<le> fresh t \<and> thread t = thread s \<and> pid t = pid s \<and>
     dom (zctxs (view A (lib s))) \<subseteq> dom (zctxs (view A (lib t))) \<and> zsocks (view A (lib t)) = zsocks (view A (lib s)) \<and>
     zlists (view A (lib t)) = zlists (view A (lib s)) \<and>
     (socks t = socks s \<or> (\<exists>q w v. socks s q = Some w \<and> socks t = (socks s)(q \<mapsto> v) \<and> same_life w v))"

lemma alike_life:
  assumes "alike A s t" and "life_inv A s"
  shows "life_inv A t \<and> abs_life t = abs_life s"
proof -
  note a = assms(1) [unfolded alike_def]
  define u where "u = t\<lparr>socks := socks s\<rparr>"
  have u: "life_inv A u" by (rule life_inv_cong [OF assms(2)]) (use a in \<open>simp_all add: u_def\<close>)
  show ?thesis
  proof (cases "socks t = socks s")
    case True
    then have "u = t" by (simp add: u_def)
    then show ?thesis using u a abs_life_cong [of t s] True by simp
  next
    case False
    then obtain q w v where q: "socks s q = Some w" "socks t = (socks s)(q \<mapsto> v)" "same_life w v" using a by blast
    have "life (ctxs u) ((socks u)(q \<mapsto> v)) (ctx_map u) (zctxs (view A (lib u))) (zsocks (view A (lib u)))
       (zlists (view A (lib u))) (fresh u)"
      by (rule life_sock_upd [OF life_invD [OF u] _ q(3)]) (simp add: u_def q(1))
    then have "life_inv A t" by (simp add: life_inv_def u_def q(2))
    moreover have "socket_of v = socket_of w" using q(3) unfolding socket_of_def same_life_def by (elim conjE) (simp only:)
    then have "abs_life t = abs_life s" using a q by (auto simp: abs_life_def fun_eq_iff)
    ultimately show ?thesis by simp
  qed
qed

lemma alike_sock: "socks s q = Some w \<Longrightarrow> same_life w v \<Longrightarrow> alike A s (s\<lparr>socks := (socks s)(q \<mapsto> v)\<rparr>)"
  by (auto simp: alike_def)

lemma does_alike:
  assumes "life_inv A s" and "wp (run_life A c) (\<lambda>_. alike A s) (\<lambda>_. alike A s) s"
    and "life_effect A (fresh s) (pid s) (thread s) c (abs_life s) = abs_life s"
  shows "does A c s"
  unfolding does_def Let_def
  by (rule wp_conseq [OF assms(2)]) (use alike_life [OF _ assms(1)] assms(3) in simp_all)

lemma alike_refl [simp]: "alike A s s"
  by (simp add: alike_def)

section \<open>Calls on sockets\<close>

lemma usableE:
  assumes "usable s q"
  obtains w where "socks s q = Some w" "s_context w \<noteq> Qnil"
  using assms by (auto simp: usable_def split: option.splits)

lemma flags_cases:
  assumes "life_inv A s" and "socks s q = Some w"
  shows "s_flags w = 0 \<or> s_flags w = 1"
  using lifeD(8) [OF life_invD [OF assms(1)] assms(2)] by (auto simp: sock_ok_def)

lemma wp_open_socket:
  assumes "life_inv A s" and "usable s q" and "\<And>e. E e s"
    and "\<And>w p t. sock_at A s q w p t \<Longrightarrow> wp (k q) Q E s"
  shows "wp (GetZmqSocket (Socket q) k) Q E s"
proof (rule wp_GetZmqSocket)
  show "E e s" for e by (rule assms(3))
  obtain w where w: "socks s q = Some w" "s_context w \<noteq> Qnil" by (rule usableE [OF assms(2)])
  fix c q' assume "Socket q = Object c q'"
  then have q: "q' = q" by simp
  show "socks s q' \<noteq> None" using w q by simp
  fix v assume v: "socks s q' = Some v" "\<not> has (s_flags v) ZMQ_SOCKET_DESTROYED"
  have "v = w" using v(1) w(1) q by simp
  then have "s_flags w = 0" using flags_cases [OF assms(1) w(1)] v(2) by auto
  then obtain p t where "sock_at A s q w p t" using sock_atE [OF assms(1) w(1) _ w(2)] by blast
  then show "wp (k q') Q E s" using assms(4) q by blast
qed

lemma sock_atD:
  assumes "sock_at A s q w p t"
  shows "q \<noteq> NULL" "socks s q = Some w" "s_flags w = 0" "s_context w = Context p" "p \<noteq> NULL" "s_ctx_wrapper w = p"
    and "zsocks (view A (lib s)) (s_socket w) = Some (s_ctx w, t)"
  using assms unfolding sock_at_def by blast+

text \<open>A library call that keeps the view keeps everything.\<close>

lemma alike_lib: "view A (lib t) = view A (lib s) \<Longrightarrow> t = s\<lparr>lib := lib t\<rparr> \<Longrightarrow> alike A s t"
  by (cases s; cases t) (simp add: alike_def)

lemma same_life_refl [simp]: "same_life w w"
  by (simp add: same_life_def)

lemma wp_rb_str_new_cstr [wp_simps]:
  "wp (rb_str_new_cstr cs k) Q E s =
     (case cs of None \<Rightarrow> E (ArgError ''NULL pointer given'') s | Some str \<Rightarrow> wp (k (RString (c_str str))) Q E s)"
  by (simp add: rb_str_new_cstr_def wp_simps split: option.split)

lemma wp_verbose_log [wp_simps]:
  "wp (verbose_log A q k) Q E s \<longleftrightarrow>
     (\<exists>w. socks s q = Some w \<and> (s_verbose w \<longrightarrow> zsocks (view A (lib s)) (s_socket w) \<noteq> None) \<and> wp k Q E s)"
  by (auto simp: verbose_log_def wp_simps)

lemma wp_verbose_log_str [wp_simps]:
  "wp (verbose_log_str A q cs k) Q E s \<longleftrightarrow>
     (\<exists>w. socks s q = Some w \<and>
        (if s_verbose w then zsocks (view A (lib s)) (s_socket w) \<noteq> None \<and> wp (StringValueCStr cs (\<lambda>_. k)) Q E s
         else wp k Q E s))"
  by (simp add: verbose_log_str_def wp_simps)

text \<open>The state after a call of the library that keeps the view.\<close>

definition told :: "'w czmq \<Rightarrow> 'w vm \<Rightarrow> 'w vm \<Rightarrow> bool" where
  "told A s t \<longleftrightarrow> (\<exists>w. t = s\<lparr>lib := w\<rparr> \<and> view A w = view A (lib s))"

lemma toldD:
  assumes "told A s t"
  shows "ctxs t = ctxs s" "socks t = socks s" "ctx_map t = ctx_map s" "fresh t = fresh s" "thread t = thread s"
    "pid t = pid s" "arrays t = arrays s" "view A (lib t) = view A (lib s)"
  using assms by (auto simp: told_def)

lemma told_alike: "told A s t \<Longrightarrow> alike A s t"
  by (auto simp: told_def alike_def)

lemma wp_record_endpoint:
  assumes t: "told A s t" and w: "sock_at A s q w p ty"
    and k: "\<And>u. alike A s u \<Longrightarrow> wp k (\<lambda>_. alike A s) (\<lambda>_. alike A s) u"
  shows "wp (record_endpoint A q st k) (\<lambda>_. alike A s) (\<lambda>_. alike A s) t"
proof -
  note T = toldD [OF t] note W = sock_atD [OF w]
  let ?v = "w\<lparr>s_state := st\<rparr>" let ?t = "t\<lparr>socks := (socks t)(q \<mapsto> ?v)\<rparr>"
  have sl: "same_life w ?v" using W(3) by (simp add: same_life_def)
  have a: "alike A s ?t" using sl W(2) by (auto simp: alike_def T)
  have b: "alike A s (rb_ary_store_all arr xs ?t)" for arr xs
    using a by (auto simp: rb_ary_store_all_def alike_def split: rvalue.split klass.split)
  have z: "zsocks (view A (lib t)) (s_socket w) \<noteq> None" "socks t q = Some w" by (simp_all add: T W)
  show ?thesis
    unfolding record_endpoint_def
    using z a b k
    by (auto simp: wp_simps rb_ary_push_def split: option.split)
qed

lemma told_step: "told A s t \<Longrightarrow> view A w = view A (lib t) \<Longrightarrow> told A s (t\<lparr>lib := w\<rparr>)"
  by (auto simp: told_def)

lemma told_refl [simp]: "told A s s"
  unfolding told_def by (rule exI [of _ "lib s"]) simp

text \<open>A function of libczmq that works on the socket, and changes nothing the extension relies on.\<close>

definition on_socket :: "'w czmq \<Rightarrow> ptr \<Rightarrow> (ptr \<Rightarrow> 'w \<Rightarrow> 'b \<times> 'w) \<Rightarrow> ('w, 'b) vcmd" where
  "on_socket A q f =
     tell (set_errno A 0) (deref socks q (\<lambda>w. live_sock A (s_socket w) (invoke (f (s_socket w)) ret)))"

lemma on_socket_eqs:
  "rb_czmq_nogvl_socket_bind A q ep = on_socket A q (\<lambda>h. zsocket_bind A h ep)"
  "rb_czmq_nogvl_socket_connect A q ep = on_socket A q (\<lambda>h. zsocket_connect A h ep)"
  "rb_czmq_nogvl_socket_disconnect A q ep = on_socket A q (\<lambda>h. zsocket_disconnect A h ep)"
  "rb_czmq_nogvl_socket_unbind A q ep = on_socket A q (\<lambda>h. zsocket_unbind A h ep)"
  by (simp_all add: on_socket_def rb_czmq_nogvl_socket_bind_def rb_czmq_nogvl_socket_connect_def
      rb_czmq_nogvl_socket_disconnect_def rb_czmq_nogvl_socket_unbind_def)

lemma wp_on_socket:
  assumes doc: "zsock_doc A" and t: "told A s t" and w: "sock_at A s q w p ty"
    and f: "\<And>lb. zsocks (view A lb) (s_socket w) = Some (s_ctx w, ty) \<Longrightarrow> view A (snd (f (s_socket w) lb)) = view A lb"
    and k: "\<And>r u. told A s u \<Longrightarrow> Q r u"
  shows "wp (on_socket A q f) Q E t"
proof -
  let ?l = "set_errno A 0 (lib t)"
  have v: "view A ?l = view A (lib t)" by (rule zsock_docD(4) [OF doc])
  have h: "zsocks (view A ?l) (s_socket w) = Some (s_ctx w, ty)" using sock_atD(7) [OF w] toldD(8) [OF t] v by simp
  have "told A s (t\<lparr>lib := snd (f (s_socket w) ?l)\<rparr>)" by (rule told_step [OF t]) (simp add: f [OF h] v)
  then show ?thesis
    unfolding on_socket_def using h k sock_atD(2) [OF w] toldD(2) [OF t] by (simp add: wp_simps)
qed

lemma wp_StringValue:
  assumes "string_arg A s v" and "\<And>e. E e s" and "\<And>cs. wp (k cs) Q E s"
  shows "wp (StringValue A v k) Q E s"
proof -
  have "(\<exists>cs. StringValue A v k s = k cs s) \<or> (\<exists>e. StringValue A v k s = Raise e s)"
    using StringValue_cases [OF assms(1)] by blast
  then show ?thesis using assms(2,3) by (auto simp: wp_def)
qed

lemma wp_string:
  assumes "\<And>e. E e s" and "\<And>cs. v = RString cs \<Longrightarrow> NUL \<notin> set cs \<Longrightarrow> wp (k cs) Q E s"
  shows "wp (Check_String v (\<lambda>cs. StringValueCStr cs k)) Q E s"
  using assms by (simp add: wp_simps split: rvalue.split)

text \<open>The common frame of the connection calls.\<close>

lemma wp_connection:
  assumes doc: "zsock_doc A" and inv: "life_inv A s" and u: "usable s q"
    and f: "\<And>h c t cs lb. zsocks (view A lb) h = Some (c, t) \<Longrightarrow> view A (snd (f cs h lb)) = view A lb"
    and k: "\<And>w p ty rc t. sock_at A s q w p ty \<Longrightarrow> told A s t \<Longrightarrow> wp (k q rc) (\<lambda>_. alike A s) (\<lambda>_. alike A s) t"
  shows "wp (GetZmqSocket (Socket q) (\<lambda>sock. ZmqSockGuardCrossThread sock (Check_String v (\<lambda>cs.
      StringValueCStr cs (\<lambda>cs. call (on_socket A sock (f cs)) (k sock)))))) (\<lambda>_. alike A s) (\<lambda>_. alike A s) s"
proof (rule wp_open_socket [OF inv u])
  fix w p ty assume w: "sock_at A s q w p ty"
  have "wp (on_socket A q (f cs)) (\<lambda>rc. wp (k q rc) (\<lambda>_. alike A s) (\<lambda>_. alike A s)) (\<lambda>_. alike A s) s" for cs
    by (rule wp_on_socket [OF doc told_refl w]) (erule f, erule k [OF w])
  then show "wp (ZmqSockGuardCrossThread q (Check_String v (\<lambda>cs. StringValueCStr cs (\<lambda>cs.
      call (on_socket A q (f cs)) (k q))))) (\<lambda>_. alike A s) (\<lambda>_. alike A s) s"
    using sock_atD(2) [OF w] by (simp add: wp_simps split: rvalue.split)
qed simp

lemma wp_ZmqAssert_alike:
  "told A s t \<Longrightarrow> (rc \<noteq> -1 \<Longrightarrow> wp k (\<lambda>_. alike A s) (\<lambda>_. alike A s) t) \<Longrightarrow>
     wp (ZmqAssert A rc k) (\<lambda>_. alike A s) (\<lambda>_. alike A s) t"
  by (rule wp_ZmqAssert) (simp_all add: told_alike)

lemma bind_alike:
  assumes "zsock_doc A" and "life_inv A s" and "usable s q"
  shows "wp (rb_czmq_socket_bind A (Socket q) v) (\<lambda>_. alike A s) (\<lambda>_. alike A s) s"
  unfolding rb_czmq_socket_bind_def on_socket_eqs
proof (rule wp_connection [OF assms, where f = "\<lambda>cs h. zsocket_bind A h cs"])
  fix w p ty rc t assume w: "sock_at A s q w p ty" and t: "told A s t"
  have "wp (record_endpoint A q ZMQ_SOCKET_BOUND (ret (INT2NUM rc))) (\<lambda>_. alike A s) (\<lambda>_. alike A s) t"
    by (rule wp_record_endpoint [OF t w]) simp
  then show "wp (let rest = record_endpoint A q ZMQ_SOCKET_BOUND (ret (INT2NUM rc))
      in if rc < 0 then ZmqAssert A rc rest else rest) (\<lambda>_. alike A s) (\<lambda>_. alike A s) t"
    by (auto simp: Let_def intro: wp_ZmqAssert_alike [OF t])
qed (simp add: zsocket_liveD(3) [OF assms(1)])

lemma connect_alike:
  assumes "zsock_doc A" and "life_inv A s" and "usable s q"
  shows "wp (rb_czmq_socket_connect A (Socket q) v) (\<lambda>_. alike A s) (\<lambda>_. alike A s) s"
  unfolding rb_czmq_socket_connect_def on_socket_eqs
proof (rule wp_connection [OF assms, where f = "\<lambda>cs h. zsocket_connect A h cs"])
  fix w p ty rc t assume w: "sock_at A s q w p ty" and t: "told A s t"
  have "wp (record_endpoint A q ZMQ_SOCKET_CONNECTED (ret Qtrue)) (\<lambda>_. alike A s) (\<lambda>_. alike A s) t"
    by (rule wp_record_endpoint [OF t w]) simp
  then show "wp (ZmqAssert A rc (record_endpoint A q ZMQ_SOCKET_CONNECTED (ret Qtrue)))
      (\<lambda>_. alike A s) (\<lambda>_. alike A s) t"
    by (rule wp_ZmqAssert_alike [OF t])
qed (simp add: zsocket_liveD(4) [OF assms(1)])

lemma forget_alike:
  assumes t: "told A s t" and w: "sock_at A s q w p ty"
  shows "wp (forget_endpoint A q v) (\<lambda>_. alike A s) (\<lambda>_. alike A s) t"
proof -
  note T = toldD [OF t] note W = sock_atD [OF w]
  let ?v = "w\<lparr>s_state := ZMQ_SOCKET_DISCONNECTED\<rparr>"
  have sl: "same_life w ?v" using W(3) by (simp add: same_life_def)
  have a: "alike A s (rb_ary_store_all arr xs t)" "socks (rb_ary_store_all arr xs t) = socks s" for arr xs
    using T by (auto simp: rb_ary_store_all_def alike_def split: rvalue.split klass.split)
  have b: "alike A s (u\<lparr>socks := (socks u)(q \<mapsto> ?v)\<rparr>)" if "alike A s u" "socks u = socks s" for u
    using that sl W(2) by (auto simp: alike_def)
  have z: "zsocks (view A (lib t)) (s_socket w) \<noteq> None" "socks t q = Some w" by (simp_all add: T W)
  show ?thesis
    unfolding forget_endpoint_def
    using z a b [OF a] W(2)
    by (simp add: wp_simps rb_ary_delete_def)
qed

lemma disconnect_alike:
  assumes "zsock_doc A" and "life_inv A s" and "usable s q"
  shows "wp (rb_czmq_socket_disconnect A (Socket q) v) (\<lambda>_. alike A s) (\<lambda>_. alike A s) s"
    "wp (rb_czmq_socket_unbind A (Socket q) v) (\<lambda>_. alike A s) (\<lambda>_. alike A s) s"
proof -
  have e: "wp (ZmqAssert A rc (forget_endpoint A q v)) (\<lambda>_. alike A s) (\<lambda>_. alike A s) t"
    if "sock_at A s q w p ty" "told A s t" for w p ty rc t
    by (rule wp_ZmqAssert_alike [OF that(2)]) (rule forget_alike [OF that(2,1)])
  show "wp (rb_czmq_socket_disconnect A (Socket q) v) (\<lambda>_. alike A s) (\<lambda>_. alike A s) s"
    unfolding rb_czmq_socket_disconnect_def on_socket_eqs
    by (rule wp_connection [OF assms, where f = "\<lambda>cs h. zsocket_disconnect A h cs"])
      (simp add: zsocket_liveD(5) [OF assms(1)], erule (1) e)
  show "wp (rb_czmq_socket_unbind A (Socket q) v) (\<lambda>_. alike A s) (\<lambda>_. alike A s) s"
    unfolding rb_czmq_socket_unbind_def on_socket_eqs
    by (rule wp_connection [OF assms, where f = "\<lambda>cs h. zsocket_unbind A h cs"])
      (simp add: zsocket_liveD(6) [OF assms(1)], erule (1) e)
qed

lemma send_alike:
  assumes doc: "zsock_doc A" and "life_inv A s" and "usable s q" and arg: "string_arg A s v"
  shows "wp (rb_czmq_socket_send A (Socket q) v) (\<lambda>_. alike A s) (\<lambda>_. alike A s) s"
  unfolding rb_czmq_socket_send_def
proof (rule wp_open_socket [OF assms(2,3)])
  fix w p ty assume w: "sock_at A s q w p ty"
  have snd: "wp (rb_czmq_nogvl_zstr_send A q cs) (\<lambda>rc t. told A s t) E s" for cs and E :: "exn \<Rightarrow> 'a vm \<Rightarrow> bool"
  proof -
    have "rb_czmq_nogvl_zstr_send A q cs = tell (set_errno A 0) (call (on_socket A q (\<lambda>h. zmq_sendmsg A h cs 0))
        (\<lambda>rc. ret (if rc = -1 then -1 else 0)))"
      by (rule ext) (simp add: rb_czmq_nogvl_zstr_send_def rb_czmq_nogvl_zstr_send_internal_def on_socket_def
          call_def deref_def live_sock_def invoke_def split: option.split prod.split)
    then show ?thesis
      by (simp only: wp_tell wp_call wp_ret)
        (rule wp_on_socket [OF doc told_step [OF told_refl] w], simp_all add: zsock_docD(4) [OF doc] zsocket_liveD(7) [OF doc])
  qed
  have fin: "wp (ZmqAssert A rc (verbose_log_str A q cs (ret Qtrue))) (\<lambda>_. alike A s) (\<lambda>_. alike A s) t"
    if t: "told A s t" for rc cs t
    by (rule wp_ZmqAssert_alike [OF t])
      (use told_alike [OF t] toldD [OF t] sock_atD [OF w] in \<open>simp add: wp_simps\<close>)
  show "wp (ZmqAssertSocketNotPending q ''can only send on a bound or connected socket!''
      (ZmqSockGuardCrossThread q (StringValue A v (\<lambda>cs. call (rb_czmq_nogvl_zstr_send A q cs) (\<lambda>rc.
       ZmqAssert A rc (verbose_log_str A q cs (ret Qtrue)))))))
      (\<lambda>_. alike A s) (\<lambda>_. alike A s) s"
    using sock_atD(2) [OF w] wp_conseq [OF snd fin]
    by (simp add: wp_simps wp_StringValue [OF arg])
qed simp

lemma recv_alike:
  assumes doc: "zsock_doc A" and "life_inv A s" and "usable s q"
  shows "wp (rb_czmq_socket_recv A (Socket q)) (\<lambda>_. alike A s) (\<lambda>_. alike A s) s"
  unfolding rb_czmq_socket_recv_def
proof (rule wp_open_socket [OF assms(2,3)])
  fix w p ty assume w: "sock_at A s q w p ty"
  note W = sock_atD [OF w]
  have n: "s_socket w \<noteq> NULL" using W(7) zsock_docD(3) [OF doc, of "lib s"] by (metis option.distinct(1))
  have eq: "rb_czmq_nogvl_recv A q s = on_socket A q (\<lambda>h. zmq_recvmsg A h 0) s"
    using W(2) n by (simp add: rb_czmq_nogvl_recv_def on_socket_def)
  have "wp (on_socket A q (\<lambda>h. zmq_recvmsg A h 0)) (\<lambda>rc t. told A s t) E s" for E :: "exn \<Rightarrow> 'a vm \<Rightarrow> bool"
    by (rule wp_on_socket [OF doc told_refl w]) (simp_all add: zsocket_liveD(8) [OF doc])
  then have rcv: "wp (rb_czmq_nogvl_recv A q) (\<lambda>rc t. told A s t) E s" for E :: "exn \<Rightarrow> 'a vm \<Rightarrow> bool"
    by (simp add: wp_def eq)
  let ?k = "\<lambda>x. case x of (rc, message) \<Rightarrow> if rc < 0 then ret Qnil
       else ZmqAssertSysError A (verbose_log A q (ret (RString message)))"
  have fin: "wp (?k x) (\<lambda>_. alike A s) (\<lambda>_. alike A s) t"
    if t: "told A s t" for x t
    using told_alike [OF t] toldD [OF t] sock_atD [OF w] by (simp add: wp_simps Let_def split: prod.split)
  have "wp (rb_czmq_nogvl_recv A q) (\<lambda>x. wp (?k x) (\<lambda>_. alike A s) (\<lambda>_. alike A s)) (\<lambda>_. alike A s) s"
    by (rule wp_conseq [OF rcv [of "\<lambda>_. alike A s"]]) (rule fin)
  then show "wp (ZmqAssertSocketNotPending q ''can only receive on a bound or connected socket!''
      (ZmqSockGuardCrossThread q (call (rb_czmq_nogvl_recv A q) (\<lambda>(rc, message).
       if rc < 0 then ret Qnil else ZmqAssertSysError A (verbose_log A q (ret (RString message)))))))
      (\<lambda>_. alike A s) (\<lambda>_. alike A s) s"
    using W(2) by (simp add: wp_simps)
qed simp

lemma verbose_alike:
  assumes "life_inv A s" and "usable s q"
  shows "wp (rb_czmq_socket_set_verbose (Socket q) v) (\<lambda>_. alike A s) (\<lambda>_. alike A s) s"
  unfolding rb_czmq_socket_set_verbose_def
proof (rule wp_open_socket [OF assms])
  fix w p ty assume w: "sock_at A s q w p ty"
  have "alike A s (s\<lparr>socks := (socks s)(q \<mapsto> w\<lparr>s_verbose := v = Qtrue\<rparr>)\<rparr>)"
    by (rule alike_sock [OF sock_atD(2) [OF w]]) (simp add: same_life_def)
  then show "wp (let vlevel = v = Qtrue in set_sock q (\<lambda>w. w\<lparr>s_verbose := vlevel\<rparr>) (ret Qnil))
      (\<lambda>_. alike A s) (\<lambda>_. alike A s) s"
    using sock_atD(2) [OF w] by (simp add: wp_simps)
qed simp

section \<open>Calls on contexts\<close>

lemma wp_live_context:
  assumes "life_inv A s" and "ctxs s p \<noteq> None" and "\<And>e. E e s"
    and "\<And>c qs. ctx_at A s p c qs \<Longrightarrow> c_pid c = pid s \<Longrightarrow> wp (k p) Q E s"
  shows "wp (ZmqGetContext (Context p) (\<lambda>ctx. ZmqAssertContextPidMatches ctx (k ctx))) Q E s"
proof (rule wp_ZmqGetContext)
  show "E e s" for e by (rule assms(3))
  show "ctxs s p' \<noteq> None" if "Context p = Context p'" for p' using that assms(2) by simp
  fix p' c assume p': "Context p = Context p'" and c: "ctxs s p' = Some c" "\<not> has (c_flags c) ZMQ_CONTEXT_DESTROYED"
  have "c_flags c = 0 \<or> c_flags c = 1" using lifeD(6) [OF life_invD [OF assms(1)] c(1)] by (auto simp: ctx_ok_def)
  then have "c_flags c = 0" using c(2) by auto
  then obtain qs where "ctx_at A s p' c qs" by (rule ctx_atE [OF assms(1) c(1)])
  then show "wp (ZmqAssertContextPidMatches p' (k p')) Q E s"
    using assms(3,4) c(1) p' by (auto simp: wp_simps)
qed

lemma told_life: "told A s t \<Longrightarrow> life_inv A s \<Longrightarrow> life_inv A t"
  using alike_life [OF told_alike] by blast

lemma told_trans: "told A s t \<Longrightarrow> alike A t u \<Longrightarrow> alike A s u"
  using toldD [of A s t] by (simp add: alike_def)

lemma told_errno: "zsock_doc A \<Longrightarrow> told A s (s\<lparr>lib := set_errno A e (lib s)\<rparr>)"
  by (rule told_step [OF told_refl]) (simp add: zsock_docD(4))

lemma linger_alike:
  assumes doc: "zsock_doc A" and inv: "life_inv A s" and p: "ctxs s p \<noteq> None"
  shows "wp (rb_czmq_ctx_set_linger A (Context p) v) (\<lambda>_. alike A s) (\<lambda>_. alike A s) s"
    "wp (rb_czmq_ctx_set_iothreads A (Context p) v) (\<lambda>_. alike A s) (\<lambda>_. alike A s) s"
proof -
  let ?s = "s\<lparr>lib := set_errno A 0 (lib s)\<rparr>"
  have t: "told A s ?s" by (rule told_errno [OF doc])
  have inv': "life_inv A ?s" and p': "ctxs ?s p \<noteq> None" using told_life [OF t inv] p by simp_all
  have l: "alike A s (?s\<lparr>lib := zctx_set_linger A (c_ctx c) i (lib ?s)\<rparr>)"
     "alike A s (?s\<lparr>lib := zctx_set_iothreads A (c_ctx c) i (lib ?s)\<rparr>)" if c: "ctx_at A ?s p c qs" for c qs i
  proof -
    obtain n where n: "zctxs (view A (lib ?s)) (c_ctx c) = Some n" using ctx_atD(4) [OF c] by blast
    show "alike A s (?s\<lparr>lib := zctx_set_linger A (c_ctx c) i (lib ?s)\<rparr>)"
      by (rule told_alike [OF told_step [OF t]]) (rule zctx_liveD(2) [OF doc n])
    show "alike A s (?s\<lparr>lib := zctx_set_iothreads A (c_ctx c) i (lib ?s)\<rparr>)"
      using zctx_liveD(3) [OF doc n] toldD [OF t] by (auto simp: alike_def)
  qed
  show "wp (rb_czmq_ctx_set_linger A (Context p) v) (\<lambda>_. alike A s) (\<lambda>_. alike A s) s"
    unfolding rb_czmq_ctx_set_linger_def wp_tell
  proof (rule wp_live_context [OF inv' p'])
    show "alike A s ?s" by (rule told_alike [OF t])
    fix c qs assume c: "ctx_at A ?s p c qs"
    show "wp (Check_Fixnum v (\<lambda>n. FIX2INT n (\<lambda>msecs. check (0 \<le> msecs)
        (ZmqError ''negative linger / timeout values is not supported.'')
        (deref ctxs p (\<lambda>c. live_ctx A (c_ctx c) (tell (zctx_set_linger A (c_ctx c) msecs) (ret Qnil)))))))
       (\<lambda>_. alike A s) (\<lambda>_. alike A s) ?s"
      using ctx_atD(2,4) [OF c] l(1) [OF c] told_alike [OF t] by (auto simp: wp_simps split: rvalue.split)
  qed
  show "wp (rb_czmq_ctx_set_iothreads A (Context p) v) (\<lambda>_. alike A s) (\<lambda>_. alike A s) s"
    unfolding rb_czmq_ctx_set_iothreads_def wp_tell
  proof (rule wp_live_context [OF inv' p'])
    show "alike A s ?s" by (rule told_alike [OF t])
    fix c qs assume c: "ctx_at A ?s p c qs"
    show "wp (Check_Fixnum v (\<lambda>n. FIX2INT n (\<lambda>iothreads. check (0 \<le> iothreads)
        (ZmqError ''negative I/O threads count is not supported.'')
        (deref ctxs p (\<lambda>c. live_ctx A (c_ctx c) (tell (zctx_set_iothreads A (c_ctx c) iothreads) (
         ask (zmq_errno A) (\<lambda>e. if e = errcode A EINVAL then raise (SysError e) else ret Qnil))))))))
       (\<lambda>_. alike A s) (\<lambda>_. alike A s) ?s"
      using ctx_atD(2,4) [OF c] l(2) [OF c] told_alike [OF t] by (auto simp: wp_simps split: rvalue.split)
  qed
qed

lemma destroy_socket_does:
  assumes doc: "zlist_doc A" "zsock_doc A" and inv: "life_inv A s" and w: "socks s q = Some w"
  obtains lb where "rb_czmq_context_destroy_socket A q s = Return () (s\<lparr>lib := lb, socks := (socks s)(q \<mapsto> shut w)\<rparr>)"
    "life_inv A (s\<lparr>lib := lb, socks := (socks s)(q \<mapsto> shut w)\<rparr>)"
proof -
  have q: "q \<noteq> NULL" using life_alloc(2) [OF life_invD [OF inv] w] by blast
  note D = lifeD [OF life_invD [OF inv]]
  consider "s_flags w = 1" | "s_flags w = 0" "s_context w = Qnil" | "s_flags w = 0" "s_context w \<noteq> Qnil"
    using flags_cases [OF inv w] by blast
  then show thesis
  proof cases
    case 1
    then have "shut w = w" using D(8) [OF w] by (cases w) (auto simp: sock_ok_def shut_def)
    then have "s\<lparr>lib := lib s, socks := (socks s)(q \<mapsto> shut w)\<rparr> = s" using w by (cases s) (simp add: fun_upd_idem)
    then show thesis using that [of "lib s"] destroy_socket_closed [OF w q D(7) [OF w] 1] inv
      by (cases s) simp
  next
    case 2
    have "sock_ok (ctxs s) (zsocks (view A (lib s))) (shut w)" by (rule sock_ok_shut)
    have "life (ctxs s) ((socks s)(q \<mapsto> shut w)) (ctx_map s) (zctxs (view A (lib s))) (zsocks (view A (lib s)))
       (zlists (view A (lib s))) (fresh s)"
    proof (rule lifeI)
      show "ctx_ok ((socks s)(q \<mapsto> shut w)) (ctx_map s) (zctxs (view A (lib s))) (zlists (view A (lib s))) p c"
        if "ctxs s p = Some c" for p c
        by (rule ctx_ok_cong [OF D(6) [OF that]]) (use 2 w in \<open>auto simp: open_in_upd open_in_def\<close>)
      fix r v assume "((socks s)(q \<mapsto> shut w)) r = Some v"
      then show "s_context v \<noteq> Qfalse" "sock_ok (ctxs s) (zsocks (view A (lib s))) v"
        using D(7,8) w sock_ok_shut by (auto split: if_splits)
    qed (use D life_alloc [OF life_invD [OF inv]] w in \<open>auto intro: open_inj_shut\<close>)
    then have "life_inv A (s\<lparr>lib := lib s, socks := (socks s)(q \<mapsto> shut w)\<rparr>)" by (simp add: life_inv_def)
    moreover have "s\<lparr>lib := lib s, socks := (socks s)(q \<mapsto> shut w)\<rparr> = s\<lparr>socks := (socks s)(q \<mapsto> shut w)\<rparr>"
      by (cases s) simp
    ultimately show thesis using that [of "lib s"] destroy_socket_pipe [OF w q 2(2,1)] by metis
  next
    case 3
    then obtain p t where sa: "sock_at A s q w p t" using sock_atE [OF inv w] by blast
    then obtain c where c: "ctxs s p = Some c" "c_flags c = 0" "s_ctx w = c_ctx c" unfolding sock_at_def by blast
    obtain qs where ca: "ctx_at A s p c qs" by (rule ctx_atE [OF inv c(1,2)])
    note S = sock_atD [OF sa] note C = ctx_atD [OF ca]
    have h: "zsocks (view A (lib s)) (s_socket w) = Some (c_ctx c, t)" using S(7) c(3) by simp
    obtain lb where r: "rb_czmq_context_destroy_socket A q s = Return () (s\<lparr>lib := lb, socks := (socks s)(q \<mapsto> shut w)\<rparr>)"
      and v: "view A lb = (view A (lib s))\<lparr>zlists := (zlists (view A (lib s)))(c_sockets c \<mapsto> remove1 (PTR q) (map PTR qs)),
       zsocks := (zsocks (view A (lib s)))(s_socket w := None)\<rparr>"
      by (rule destroy_socket_open [OF doc w q 3(1) S(4,6,5) c(3) h c(1) C(4,7)])
    have rm: "remove1 (PTR q) (map PTR qs) = map PTR (remove1 q qs)"
      by (rule map_remove1_inj [symmetric]) (simp add: inj_on_def)
    have "life_inv A (s\<lparr>lib := lb, socks := (socks s)(q \<mapsto> shut w)\<rparr>)"
      unfolding life_inv_def using life_close [OF life_invD [OF inv] w 3(1) S(4) c(1,2) C(7-9)] by (simp add: v rm)
    then show thesis using that r by blast
  qed
qed

section \<open>Closing and collecting\<close>

lemma sockets_at: "sock_at A s q w p t \<Longrightarrow> sockets (abs_life s) q = Some (p, s_thread w)"
  by (simp add: abs_life_def sock_at_def)

lemma sockets_shut: "socks s q = Some w \<Longrightarrow> s_flags w = 1 \<Longrightarrow> sockets (abs_life s) q = None"
  by (simp add: abs_life_def)

lemma wp_GetZmqSocket_closed:
  assumes "socks s q = Some w" and "s_flags w = 1"
  shows "wp (GetZmqSocket (Socket q) k) Q E s \<longleftrightarrow>
    E (if q = NULL then TypeError ''uninitialized ZMQ socket!''
       else ZmqError ''ZMQ::Socket instance has been destroyed by the ZMQ framework'') s"
  using assms by (simp add: GetZmqSocket_def wp_simps)

lemma wp_GetZmqSocket_open:
  assumes "sock_at A s q w p t"
  shows "wp (GetZmqSocket (Socket q) k) Q E s = wp (k q) Q E s"
  using sock_atD [OF assms] by (simp add: GetZmqSocket_def wp_simps)

lemma close_does:
  assumes doc: "zlist_doc A" "zsock_doc A" and inv: "life_inv A s" and u: "usable s q"
  shows "does A (Sock_close q) s"
proof -
  let ?P = "\<lambda>t. life_inv A t \<and> abs_life t = life_effect A (fresh s) (pid s) (thread s) (Sock_close q) (abs_life s)"
  obtain w where w: "socks s q = Some w" "s_context w \<noteq> Qnil" by (rule usableE [OF u])
  have "wp (rb_czmq_socket_close A (Socket q)) (\<lambda>_. ?P) (\<lambda>_. ?P) s"
  proof (cases "s_flags w = 1")
    case True
    then show ?thesis
      using inv w by (simp add: rb_czmq_socket_close_def wp_GetZmqSocket_closed [OF w(1) True] sockets_shut)
  next
    case False
    then have f: "s_flags w = 0" using flags_cases [OF inv w(1)] by blast
    obtain p t where a: "sock_at A s q w p t" by (rule sock_atE [OF inv w(1) f w(2)])
    let ?s = "s\<lparr>socks := (socks s)(q \<mapsto> w\<lparr>s_state := ZMQ_SOCKET_DISCONNECTED\<rparr>)\<rparr>"
    have al: "alike A s ?s" by (rule alike_sock [OF w(1)]) (simp add: same_life_def f)
    note I = alike_life [OF al inv]
    obtain lb where r: "rb_czmq_context_destroy_socket A q ?s = Return () (?s\<lparr>lib := lb, socks := (socks ?s)(q \<mapsto> shut (w\<lparr>s_state := ZMQ_SOCKET_DISCONNECTED\<rparr>))\<rparr>)"
      and i: "life_inv A (?s\<lparr>lib := lb, socks := (socks ?s)(q \<mapsto> shut (w\<lparr>s_state := ZMQ_SOCKET_DISCONNECTED\<rparr>))\<rparr>)"
      by (rule destroy_socket_does [OF doc I [THEN conjunct1], of q]) simp_all
    have e: "abs_life (?s\<lparr>lib := lb, socks := (socks ?s)(q \<mapsto> shut (w\<lparr>s_state := ZMQ_SOCKET_DISCONNECTED\<rparr>))\<rparr>) = drop_sock q (abs_life s)"
      using abs_life_close [of ?s q] I by simp
    have body: "wp (call (rb_czmq_context_destroy_socket A q) (\<lambda>_. ret Qnil)) (\<lambda>_. ?P) (\<lambda>_. ?P) ?s" if "s_thread w = thread s"
      using r i e that sockets_at [OF a] by (simp add: wp_def call_def)
    show ?thesis
      using body w(1) inv sockets_at [OF a]
      by (auto simp: rb_czmq_socket_close_def wp_GetZmqSocket_open [OF a] wp_ZmqSockGuardCrossThread wp_set_sock)
  qed
  then show ?thesis by (simp add: does_def)
qed

lemma life_inv_collect:
  assumes inv: "life_inv A s"
  shows "socks s q = Some w \<Longrightarrow> s_flags w = 1 \<Longrightarrow> life_inv A (s\<lparr>socks := (socks s)(q := None)\<rparr>)"
    and "ctxs s p = Some c \<Longrightarrow> c_flags c = 1 \<Longrightarrow> life_inv A (s\<lparr>ctxs := (ctxs s)(p := None)\<rparr>)"
proof -
  note D = lifeD [OF life_invD [OF inv]]
  assume w: "socks s q = Some w" "s_flags w = 1"
  have "life (ctxs s) ((socks s)(q := None)) (ctx_map s) (zctxs (view A (lib s))) (zsocks (view A (lib s)))
       (zlists (view A (lib s))) (fresh s)"
  proof (rule lifeI)
    have "open_in ((socks s)(q := None)) p = open_in (socks s) p" for p using w by (auto simp: open_in_def)
    then show "ctx_ok ((socks s)(q := None)) (ctx_map s) (zctxs (view A (lib s))) (zlists (view A (lib s))) p c"
      if "ctxs s p = Some c" for p c using D(6) [OF that] by (rule_tac ctx_ok_cong) auto
    show "open_inj ((socks s)(q := None))" by (rule open_inj_sub [OF D(11)]) (auto split: if_splits)
    fix r v assume "((socks s)(q := None)) r = Some v"
    then have "socks s r = Some v" by (auto split: if_splits)
    then show "s_context v \<noteq> Qfalse" "sock_ok (ctxs s) (zsocks (view A (lib s))) v" using D(7,8) by blast+
  qed (use D in \<open>auto\<close>)
  then show "life_inv A (s\<lparr>socks := (socks s)(q := None)\<rparr>)" by (simp add: life_inv_def)
next
  note D = lifeD [OF life_invD [OF inv]]
  assume c: "ctxs s p = Some c" "c_flags c = 1"
  have "life ((ctxs s)(p := None)) (socks s) (ctx_map s) (zctxs (view A (lib s))) (zsocks (view A (lib s)))
       (zlists (view A (lib s))) (fresh s)"
  proof (rule lifeI)
    fix p' d assume "((ctxs s)(p := None)) p' = Some d"
    then show "ctx_ok (socks s) (ctx_map s) (zctxs (view A (lib s))) (zlists (view A (lib s))) p' d"
      using D(6) by (auto split: if_splits)
  next
    show "live_inj ((ctxs s)(p := None)) c_ctx" "live_inj ((ctxs s)(p := None)) c_sockets"
      by (rule live_inj_sub, rule D, auto split: if_splits)+
    show "map_ok ((ctxs s)(p := None)) (ctx_map s)"
      unfolding map_ok_def
    proof
      fix k
      show "ctx_map s k = Qnil \<or> (\<exists>p' d. ctx_map s k = Object rb_cZmqContext p' \<and>
          ((ctxs s)(p := None)) p' = Some d \<and> c_flags d = 0 \<and> c_pidValue d = k)"
        using D(12) c unfolding map_ok_def by (metis fun_upd_apply option.inject zero_neq_one)
    qed
    fix q w assume "socks s q = Some w"
    then show "sock_ok ((ctxs s)(p := None)) (zsocks (view A (lib s))) w"
      by (rule sock_ok_cong [OF D(8)]) (use c in auto)
  qed (use D in \<open>auto\<close>)
  then show "life_inv A (s\<lparr>ctxs := (ctxs s)(p := None)\<rparr>)" by (simp add: life_inv_def)
qed

lemma collect_sock_does:
  assumes doc: "zlist_doc A" "zsock_doc A" and inv: "life_inv A s" and w: "socks s q = Some w"
    and v: "s_flags w = 0 \<Longrightarrow> s_verbose w \<Longrightarrow> zsocks (view A (lib s)) (s_socket w) \<noteq> None"
  shows "does A (Collect_sock q) s"
proof -
  obtain lb where r: "rb_czmq_context_destroy_socket A q s = Return () (s\<lparr>lib := lb, socks := (socks s)(q \<mapsto> shut w)\<rparr>)"
    and i: "life_inv A (s\<lparr>lib := lb, socks := (socks s)(q \<mapsto> shut w)\<rparr>)"
    by (rule destroy_socket_does [OF doc inv w])
  have q: "q \<noteq> NULL" using life_alloc(2) [OF life_invD [OF inv] w] by blast
  have i2: "life_inv A (s\<lparr>lib := lb, socks := (socks s)(q := None)\<rparr>)"
    using life_inv_collect(1) [OF i, of q "shut w"] by simp
  have a2: "abs_life (s\<lparr>lib := lb, socks := (socks s)(q := None)\<rparr>) = drop_sock q (abs_life s)"
    by (auto simp: abs_life_def drop_sock_def fun_eq_iff)
  have "gc_log A q k s = k s" for k :: "('a, unit) vcmd"
    using w v flags_cases [OF inv w] by (auto simp: gc_log_def)
  then show ?thesis
    using q r i2 a2 by (simp add: does_def Let_def wp_def rb_czmq_free_sock_gc_def call_def)
qed

section \<open>Contexts\<close>

lemma free_ctx_does:
  assumes doc: "zlist_doc A" "zsock_doc A" and inv: "life_inv A s" and c: "ctx_at A s p c qs"
  obtains t where "rb_czmq_free_ctx A p s = Return () t" "life_inv A t" "abs_life t = drop_ctx p (abs_life s)"
    "ctxs t p = Some (dead_ctx c)"
proof -
  note C = ctx_atD [OF c]
  obtain lb where r: "rb_czmq_free_ctx A p s = Return () (s\<lparr>lib := lb, socks := close_all (set qs) (socks s),
       ctxs := (ctxs s)(p \<mapsto> dead_ctx c), ctx_map := (ctx_map s)(c_pidValue c := Qnil)\<rparr>)"
    and v: "view A lb = without_ctx (c_pid c = pid s) (c_ctx c)
       ((view A (lib s))\<lparr>zlists := (zlists (view A (lib s)))(c_sockets c := None),
          zsocks := (zsocks (view A (lib s))) |` (- sockets_of (set qs) (socks s))\<rparr>)"
    by (rule free_ctx_run [OF doc inv c])
  let ?t = "s\<lparr>lib := lb, socks := close_all (set qs) (socks s),
       ctxs := (ctxs s)(p \<mapsto> dead_ctx c), ctx_map := (ctx_map s)(c_pidValue c := Qnil)\<rparr>"
  have "life (ctxs ?t) (socks ?t) (ctx_map ?t) (zctxs (view A lb)) (zsocks (view A lb))
      ((zlists (view A (lib s)))(c_sockets c := None)) (fresh s)"
    unfolding vm.simps vm.update_convs
    by (simp, rule life_free [OF life_invD [OF inv] C(2,3,7,9,6)])
      (auto simp: v without_ctx_def restrict_map_def)
  moreover have "zlists (view A lb) = (zlists (view A (lib s)))(c_sockets c := None)"
    by (simp add: v without_ctx_def)
  ultimately have "life_inv A ?t" by (simp add: life_inv_def)
  moreover have "abs_life ?t = drop_ctx p (abs_life s)" by (rule abs_life_free [OF C(9)])
  ultimately show thesis using that [OF r] by simp
qed

lemma contexts_at: "ctx_at A s p c qs \<Longrightarrow> contexts (abs_life s) p = Some (c_pid c)"
  by (simp add: abs_life_def ctx_at_def)

lemma drop_dead_ctx:
  assumes inv: "life_inv A s" and c: "ctxs s p = Some c" "c_flags c = 1"
  shows "drop_ctx p (abs_life s) = abs_life s"
proof -
  have "sockets (abs_life s) q \<noteq> Some (p, t)" for q t
  proof
    assume "sockets (abs_life s) q = Some (p, t)"
    then obtain w where w: "socks s q = Some w" "socket_of w = Some (p, t)"
      by (auto simp: abs_life_def bind_eq_Some_conv)
    then have f: "s_flags w = 0" "s_context w = Context p" by (simp_all add: socket_of_Some)
    obtain p' t' where "sock_at A s q w p' t'" by (rule sock_atE [OF inv w(1) f(1)]) (simp add: f)
    then show False using f(2) c by (auto simp: sock_at_def)
  qed
  moreover have "contexts (abs_life s) p = None" using c by (simp add: abs_life_def)
  ultimately show ?thesis
    by (cases "abs_life s") (auto simp: drop_ctx_def fun_eq_iff split: option.splits)
qed

lemma flags_cases_ctx: "life_inv A s \<Longrightarrow> ctxs s p = Some c \<Longrightarrow> c_flags c = 0 \<or> c_flags c = 1"
  using lifeD(6) [OF life_invD] by (auto simp: ctx_ok_def)

lemma ctx_destroy_does:
  assumes doc: "zlist_doc A" "zsock_doc A" and inv: "life_inv A s" and p: "ctxs s p \<noteq> None"
  shows "does A (Ctx_destroy p) s"
proof -
  obtain c where c: "ctxs s p = Some c" using p by blast
  have p0: "p \<noteq> NULL" using life_alloc(1) [OF life_invD [OF inv] c] by blast
  consider "c_flags c = 1" | "c_flags c = 0" using flags_cases_ctx [OF inv c] by blast
  then show ?thesis
  proof cases
    case 1
    then have "contexts (abs_life s) p = None" using c by (simp add: abs_life_def)
    then show ?thesis
      using c p0 inv 1 by (simp add: does_def Let_def rb_czmq_ctx_destroy_def ZmqGetContext_def wp_simps)
  next
    case 2
    obtain qs where ca: "ctx_at A s p c qs" by (rule ctx_atE [OF inv c 2])
    obtain t where "rb_czmq_free_ctx A p s = Return () t" "life_inv A t" "abs_life t = drop_ctx p (abs_life s)"
      by (rule free_ctx_does [OF doc inv ca])
    then have "wp (call (rb_czmq_free_ctx A p) (\<lambda>_. ret Qnil)) (\<lambda>_ t. life_inv A t \<and> abs_life t = drop_ctx p (abs_life s)) E s" for E
      by (simp add: wp_def call_def)
    then show ?thesis
      using c p0 2 inv contexts_at [OF ca]
      by (simp add: does_def Let_def rb_czmq_ctx_destroy_def ZmqGetContext_def wp_fetch wp_deref wp_check
          wp_ZmqAssertContextPidMatches)
  qed
qed

lemma collect_ctx_does:
  assumes doc: "zlist_doc A" "zsock_doc A" and inv: "life_inv A s" and p: "ctxs s p \<noteq> None"
  shows "does A (Collect_ctx p) s"
proof -
  obtain c where c: "ctxs s p = Some c" using p by blast
  have p0: "p \<noteq> NULL" using life_alloc(1) [OF life_invD [OF inv] c] by blast
  consider "c_flags c = 1" | "c_flags c = 0" using flags_cases_ctx [OF inv c] by blast
  then show ?thesis
  proof cases
    case 1
    have "abs_life (s\<lparr>ctxs := (ctxs s)(p := None)\<rparr>) = abs_life s"
      using c 1 by (auto simp: abs_life_def fun_eq_iff)
    then show ?thesis
      using c p0 1 life_inv_collect(2) [OF inv c 1] drop_dead_ctx [OF inv c 1]
      by (simp add: does_def Let_def rb_czmq_free_ctx_gc_def wp_simps)
  next
    case 2
    obtain qs where ca: "ctx_at A s p c qs" by (rule ctx_atE [OF inv c 2])
    obtain t where t: "rb_czmq_free_ctx A p s = Return () t" "life_inv A t" "abs_life t = drop_ctx p (abs_life s)"
      "ctxs t p = Some (dead_ctx c)" by (rule free_ctx_does [OF doc inv ca])
    have "c_ctx c \<noteq> NULL" using ctx_atD(4) [OF ca] zsock_docD(2) [OF doc(2), of "lib s"] by metis
    moreover have "life_inv A (t\<lparr>ctxs := (ctxs t)(p := None)\<rparr>)"
      by (rule life_inv_collect(2) [OF t(2,4)]) (simp add: dead_ctx_def)
    moreover have "abs_life (t\<lparr>ctxs := (ctxs t)(p := None)\<rparr>) = abs_life t"
      using t(4) by (auto simp: abs_life_def fun_eq_iff)
    ultimately show ?thesis
      using c p0 2 t by (simp add: does_def Let_def rb_czmq_free_ctx_gc_def wp_def call_def)
  qed
qed

lemma ctx_key:
  assumes inv: "life_inv A s"
  shows "ctx_map s (INT2NUM i) = Qnil \<longleftrightarrow> (\<forall>p j. contexts (abs_life s) p = Some j \<longrightarrow> INT2NUM j \<noteq> INT2NUM i)"
proof -
  note L = life_invD [OF inv]
  have ctx: "contexts (abs_life s) p = Some j \<longleftrightarrow> (\<exists>c. ctxs s p = Some c \<and> c_flags c = 0 \<and> c_pid c = j)" for p j
    by (auto simp: abs_life_def context_of_def bind_eq_Some_conv split: if_splits)
  have "ctx_map s (INT2NUM i) \<noteq> Qnil" if "ctxs s p = Some c" "c_flags c = 0" "INT2NUM (c_pid c) = INT2NUM i" for p c
    using live_ctxD(3,4) [OF L that(1,2)] that(3) by simp
  moreover have "\<exists>p c. ctxs s p = Some c \<and> c_flags c = 0 \<and> INT2NUM (c_pid c) = INT2NUM i"
    if "ctx_map s (INT2NUM i) \<noteq> Qnil"
    using lifeD(12) [OF L] that live_ctxD(4) [OF L] unfolding map_ok_def by metis
  ultimately show ?thesis unfolding ctx by blast
qed

lemma new_lib:
  assumes doc: "zlist_doc A" "zsock_doc A" and ok: "zctx_never_fails A"
  obtains z l where "\<And>s'. lib s' = lb \<Longrightarrow> rb_czmq_nogvl_zctx_new A s' = Return z (s'\<lparr>lib := l\<rparr>)"
    "z \<noteq> NULL" "zctxs (view A lb) z = None" "view A l = (view A lb)\<lparr>zctxs := (zctxs (view A lb))(z \<mapsto> 1)\<rparr>"
proof -
  let ?l0 = "set_errno A 0 lb"
  obtain z l1 where z: "zctx_new A ?l0 = (z, l1)" by fastforce
  have n: "z \<noteq> NULL" using ok z unfolding zctx_never_fails_def by (metis fst_conv)
  have v0: "view A ?l0 = view A lb" by (rule zsock_docD(4) [OF doc(2)])
  have v1: "zctxs (view A lb) z = None" "view A l1 = (view A lb)\<lparr>zctxs := (zctxs (view A lb))(z \<mapsto> 1)\<rparr>"
    using zctx_newD(2,3) [OF doc(2) z n] v0 by simp_all
  have zl: "zctxs (view A l1) z = Some 1" by (simp add: v1)
  let ?l3 = "zsys_handler_reset A (zctx_set_linger A z 1 l1)"
  have "view A ?l3 = view A l1" by (simp add: zsock_docD(5) [OF doc(2)] zctx_liveD(2) [OF doc(2) zl])
  moreover have "rb_czmq_nogvl_zctx_new A s' = Return z (s'\<lparr>lib := ?l3\<rparr>)" if "lib s' = lb" for s' :: "'a vm"
    using z zl that by (simp add: rb_czmq_nogvl_zctx_new_def)
  ultimately show thesis using that n v1 by metis
qed

definition new_context :: "ptr \<Rightarrow> int \<Rightarrow> string \<times> int \<Rightarrow> ptr \<Rightarrow> zmq_ctx_wrapper" where
  "new_context z i src l =
     \<lparr>c_ctx = z, c_flags = 0, c_pid = i, c_pidValue = INT2NUM i, c_file = fst src, c_line = snd src, c_sockets = l\<rparr>"

text \<open>The end of \<^verbatim>\<open>ZMQ::Context.new\<close>, with the optional number of threads.\<close>

definition with_threads :: "'w czmq \<Rightarrow> rvalue \<Rightarrow> rvalue \<Rightarrow> ('w, rvalue) vcmd" where
  "with_threads A obj io_threads =
     (if \<not> NIL_P io_threads then call (rb_czmq_ctx_set_iothreads A obj io_threads) (\<lambda>_. ret obj) else ret obj)"

lemma ctx_s_new_run:
  assumes doc: "zlist_doc A" "zsock_doc A" and ok: "zctx_never_fails A" and inv: "life_inv A s"
    and key: "ctx_map s (INT2NUM (pid s)) = Qnil"
    and argv: "argv = [] \<and> io = Qnil \<or> argv = [io]"
  obtains t where "rb_czmq_ctx_s_new A argv s = with_threads A (Context (fresh s)) io t" "life_inv A t"
    "abs_life t = (abs_life s)\<lparr>contexts := (contexts (abs_life s))(fresh s \<mapsto> pid s)\<rparr>"
    "ctxs t (fresh s) \<noteq> None" "pid t = pid s"
proof -
  obtain z l1 where r: "\<And>s'. lib s' = lib s \<Longrightarrow> rb_czmq_nogvl_zctx_new A s' = Return z (s'\<lparr>lib := l1\<rparr>)"
    and z: "z \<noteq> NULL" "zctxs (view A (lib s)) z = None"
    and v1: "view A l1 = (view A (lib s))\<lparr>zctxs := (zctxs (view A (lib s)))(z \<mapsto> 1)\<rparr>"
    using new_lib [OF doc ok, where lb = "lib s"] by metis
  obtain l l2 where l: "zlist_new A l1 = (l, l2)" by fastforce
  have v2: "zlists (view A l1) l = None" "view A l2 = (view A l1)\<lparr>zlists := (zlists (view A l1))(l \<mapsto> [])\<rparr>"
    using zlist_newD(2,3) [OF doc(1), of l1] l by simp_all
  let ?c = "new_context z (pid s) (source s) l"
  let ?t = "s\<lparr>lib := l2, fresh := Suc (fresh s), ctxs := (ctxs s)(fresh s \<mapsto> ?c),
     ctx_map := (ctx_map s)(INT2NUM (pid s) := Context (fresh s))\<rparr>"
  have run: "rb_czmq_ctx_s_new A argv s = with_threads A (Context (fresh s)) io ?t"
    using argv key r l z
    by (cases s; cases "source s")
      (auto simp: rb_czmq_ctx_s_new_def get_pid_def NIL_P_def call_run with_threads_def new_context_def)
  have "life_inv A ?t"
    using life_new_ctx [OF life_invD [OF inv] key z(2), of l ?c] v1 v2
    by (simp add: life_inv_def new_context_def)
  moreover have "abs_life ?t = (abs_life s)\<lparr>contexts := (contexts (abs_life s))(fresh s \<mapsto> pid s)\<rparr>"
    by (auto simp: abs_life_def new_context_def fun_eq_iff)
  ultimately show thesis using that run by simp
qed

lemma ctx_new_does:
  assumes doc: "zlist_doc A" "zsock_doc A" and ok: "zctx_never_fails A" and inv: "life_inv A s"
  shows "does A (Ctx_new argv) s"
proof -
  define st where "st = life_effect A (fresh s) (pid s) (thread s) (Ctx_new argv) (abs_life s)"
  let ?P = "\<lambda>t. life_inv A t \<and> abs_life t = st"
  note key = ctx_key [OF inv, of "pid s"]
  have "wp (rb_czmq_ctx_s_new A argv) (\<lambda>_. ?P) (\<lambda>_. ?P) s"
  proof (cases "length argv \<le> 1")
    case False
    then have "st = abs_life s" by (simp add: st_def)
    moreover obtain x y xs where "argv = x # y # xs"
      using False by (cases argv; cases "tl argv") auto
    ultimately show ?thesis using inv by (simp add: rb_czmq_ctx_s_new_def rb_scan_args_01_def)
  next
    case True
    obtain io where argv: "argv = [] \<and> io = Qnil \<or> argv = [io]" using True by (cases argv) auto
    show ?thesis
    proof (cases "ctx_map s (INT2NUM (pid s)) = Qnil")
      case True
      obtain t where r: "rb_czmq_ctx_s_new A argv s = with_threads A (Context (fresh s)) io t" and t: "life_inv A t"
        "abs_life t = (abs_life s)\<lparr>contexts := (contexts (abs_life s))(fresh s \<mapsto> pid s)\<rparr>"
        "ctxs t (fresh s) \<noteq> None"
        by (rule ctx_s_new_run [OF doc ok inv True argv])
      have "length argv \<le> 1 \<and> (\<forall>p j. contexts (abs_life s) p = Some j \<longrightarrow> INT2NUM j \<noteq> INT2NUM (pid s))"
        using True key \<open>length argv \<le> 1\<close> by simp
      then have st: "abs_life t = st" unfolding st_def life_effect.simps t(2) by (rule if_P [symmetric])
      have "wp (rb_czmq_ctx_set_iothreads A (Context (fresh s)) io) (\<lambda>_. ?P) (\<lambda>_. ?P) t"
        by (rule wp_conseq [OF linger_alike(2) [OF doc(2) t(1,3)]]) (use alike_life [OF _ t(1)] st in simp_all)
      then have "wp (with_threads A (Context (fresh s)) io) (\<lambda>_. ?P) (\<lambda>_. ?P) t"
        using t(1) st by (simp add: with_threads_def wp_call)
      then show ?thesis by (simp add: wp_def r)
    next
      case False
      then have "\<not> (length argv \<le> 1 \<and> (\<forall>p j. contexts (abs_life s) p = Some j \<longrightarrow> INT2NUM j \<noteq> INT2NUM (pid s)))"
        using key by simp
      then have st: "st = abs_life s" unfolding st_def life_effect.simps by (rule if_not_P)
      obtain p c where "ctx_map s (INT2NUM (pid s)) = Context p" "ctxs s p = Some c"
        using False lifeD(12) [OF life_invD [OF inv]] unfolding map_ok_def by blast
      then have "\<exists>e. rb_czmq_ctx_s_new A argv s = Raise e s"
        using argv by (auto simp: rb_czmq_ctx_s_new_def get_pid_def NIL_P_def)
      then show ?thesis using inv st by (auto simp: wp_def)
    qed
  qed
  then show ?thesis unfolding does_def Let_def st_def [symmetric] by simp
qed

section \<open>New sockets\<close>

lemma if_klass:
  assumes "socket_klass a" and "\<not> b \<Longrightarrow> \<exists>k. socket_klass k \<and> (\<forall>K. R K = K k)"
  shows "\<exists>k. socket_klass k \<and> (\<forall>K. (if b then K a else R K) = K k)"
  using assms by (cases b) auto

lemma socket_klass_known:
  assumes "n \<in> range (socktype A)"
  shows "\<exists>k. socket_klass k \<and> (\<forall>K. rb_czmq_ctx_socket_klass A n K = (K k :: ('w, 'a) vcmd))"
proof -
  obtain t where t: "n = socktype A t" using assms by blast
  show ?thesis
    unfolding rb_czmq_ctx_socket_klass_def
    by ((rule if_klass, simp)+, cases t, simp_all add: t)
qed

definition new_socket :: "ptr \<Rightarrow> ptr \<Rightarrow> ptr \<Rightarrow> ptr \<Rightarrow> rvalue \<Rightarrow> zmq_sock_wrapper" where
  "new_socket z h p arr t =
     \<lparr>s_ctx = z, s_socket = h, s_ctx_wrapper = p, s_flags = 0, s_verbose = False, s_state = ZMQ_SOCKET_PENDING,
      s_endpoints = Object rb_cArray arr, s_thread = t, s_context = Context p, s_monitor_endpoint = Qnil,
      s_monitor_handler = Qnil, s_monitor_thread = Qnil\<rparr>"

text \<open>The part of \<^verbatim>\<open>ZMQ::Context#socket\<close> that runs once the type is known to be a number.\<close>

definition open_socket :: "'w czmq \<Rightarrow> ptr \<Rightarrow> int \<Rightarrow> ('w, rvalue) vcmd" where
  "open_socket A p n =
     FIX2INT n (\<lambda>socket_type.
     deref ctxs p (\<lambda>c.
     call (rb_czmq_nogvl_socket_new A (c_ctx c) socket_type) (\<lambda>socket.
     call (rb_czmq_socket_alloc A (Context p) (c_ctx c) socket) (\<lambda>socket_object.
     GetZmqSocket socket_object (\<lambda>sock.
     live_list A (c_sockets c) (
     tell (zlist_push A (c_sockets c) (PTR sock)) (
     ret socket_object)))))))"

lemma socket_alloc_run:
  assumes doc: "zsock_doc A" and c: "ctxs s p = Some c" "c_flags c = 0" "p \<noteq> NULL"
    and h: "zsocks (view A (lib s)) h = Some (z, n)" "n \<in> range (socktype A)"
  obtains k where "socket_klass k"
    "rb_czmq_socket_alloc A (Context p) z h s = Return (Object k (fresh s))
       (s\<lparr>socks := (socks s)(fresh s \<mapsto> new_socket z h p (Suc (fresh s)) (thread s)), fresh := Suc (Suc (fresh s)),
          arrays := (arrays s)(Suc (fresh s) \<mapsto> [])\<rparr>)"
proof -
  have t: "zsocket_type A h (lib s) = n" by (rule zsocket_liveD(2) [OF doc h(1)])
  have h0: "h \<noteq> NULL" using h(1) zsock_docD(3) [OF doc, of "lib s"] by (metis option.distinct(1))
  obtain k where k: "socket_klass k" "\<And>K. rb_czmq_ctx_socket_klass A n K = (K k :: ('a, rvalue) vcmd)"
    using socket_klass_known [OF h(2)] by blast
  have "rb_czmq_socket_alloc A (Context p) z h s = Return (Object k (fresh s))
       (s\<lparr>socks := (socks s)(fresh s \<mapsto> new_socket z h p (Suc (fresh s)) (thread s)), fresh := Suc (Suc (fresh s)),
          arrays := (arrays s)(Suc (fresh s) \<mapsto> [])\<rparr>)"
    using c h0 h(1) t by (cases s) (simp add: rb_czmq_socket_alloc_def k(2) ZmqGetContext_def fetch_def new_socket_def)
  then show thesis using that k(1) by blast
qed

lemma open_socket_run:
  assumes doc: "zlist_doc A" "zsock_doc A" and ok: "zctx_never_fails A" and inv: "life_inv A s"
    and c: "ctx_at A s p c qs" and n: "n \<in> range (socktype A)" "- (2 ^ 31) \<le> n" "n < 2 ^ 31"
  obtains t k where "open_socket A p n s = Return (Object k (fresh s)) t" "socket_klass k" "life_inv A t"
    "abs_life t = (abs_life s)\<lparr>sockets := (sockets (abs_life s))(fresh s \<mapsto> (p, thread s))\<rparr>"
proof -
  note C = ctx_atD [OF c]
  let ?l1 = "set_errno A 0 (lib s)"
  have v1: "view A ?l1 = view A (lib s)" by (rule zsock_docD(4) [OF doc(2)])
  obtain i where i: "zctxs (view A ?l1) (c_ctx c) = Some i" using C(4) v1 by auto
  obtain h l2 where h: "zsocket_new A (c_ctx c) n ?l1 = (h, l2)" by fastforce
  have h0: "h \<noteq> NULL" using ok n(1) h unfolding zctx_never_fails_def by (metis fst_conv rangeE)
  note H = zsocket_newD(2,3) [OF doc(2) i h h0, unfolded v1]
  let ?s2 = "s\<lparr>lib := l2\<rparr>"
  have new: "rb_czmq_nogvl_socket_new A (c_ctx c) n s = Return h ?s2"
    using i h by (simp add: rb_czmq_nogvl_socket_new_def)
  have h2: "zsocks (view A (lib ?s2)) h = Some (c_ctx c, n)" by (simp add: H(2))
  let ?w = "new_socket (c_ctx c) h p (Suc (fresh s)) (thread s)"
  let ?s3 = "s\<lparr>lib := l2, socks := (socks s)(fresh s \<mapsto> ?w), fresh := Suc (Suc (fresh s)),
          arrays := (arrays s)(Suc (fresh s) \<mapsto> [])\<rparr>"
  obtain k where k: "socket_klass k" "rb_czmq_socket_alloc A (Context p) (c_ctx c) h ?s2 = Return (Object k (fresh s)) ?s3"
    using socket_alloc_run [OF doc(2), of ?s2 p c h "c_ctx c" n] C(1-3) h2 n(1) by auto
  have l3: "zlists (view A l2) (c_sockets c) = Some (map PTR qs)" using C(7) by (simp add: H(2))
  let ?t = "?s3\<lparr>lib := zlist_push A (c_sockets c) (PTR (fresh s)) l2\<rparr>"
  have v: "view A (lib ?t) = (view A (lib s))\<lparr>zsocks := (zsocks (view A (lib s)))(h \<mapsto> (c_ctx c, n)),
      zopts := (zopts (view A (lib s)))(h := Map.empty),
      zlists := (zlists (view A (lib s)))(c_sockets c \<mapsto> map PTR (fresh s # qs))\<rparr>"
    by (simp add: zlist_liveD(1) [OF doc(1) l3]) (simp add: H(2))
  have f0: "fresh s \<noteq> NULL" using lifeD(1) [OF life_invD [OF inv]] .
  have "open_socket A p n s = Return (Object k (fresh s)) ?t"
    using C(2) n(2,3) new k l3 f0
    by (simp add: open_socket_def call_run GetZmqSocket_def fetch_def new_socket_def)
  moreover have "life_inv A ?t"
    unfolding life_inv_def v
    using life_new_sock [OF life_invD [OF inv] C(2,3,7-9) H(1), of "Suc (Suc (fresh s))" ?w n]
    by (simp add: new_socket_def)
  moreover have "abs_life ?t = (abs_life s)\<lparr>sockets := (sockets (abs_life s))(fresh s \<mapsto> (p, thread s))\<rparr>"
    by (auto simp: abs_life_def fun_eq_iff new_socket_def)
  ultimately show thesis using that k(1) by blast
qed

lemma ctx_socket_eq:
  "rb_czmq_ctx_socket A (Context p) v =
     tell (set_errno A 0) (ZmqGetContext (Context p) (\<lambda>ctx. ZmqAssertContextPidMatches ctx (
       case type_number A v of
         Some n \<Rightarrow> open_socket A p n
       | None \<Rightarrow> raise (case v of Fixnum n \<Rightarrow> RangeError | Symbol name \<Rightarrow> NameError name
                      | _ \<Rightarrow> TypeError ''wrong socket type (expected Fixnum or Symbol)''))))"
proof -
  have i: "- (2 ^ 31) \<le> sint (w :: 32 word) \<and> sint w < 2 ^ 31" for w
    using sint_greater_eq [of w] sint_lt [of w] by simp
  have o: "FIX2INT n k = raise RangeError" if "\<not> (- (2 ^ 31) \<le> n \<and> n < 2 ^ 31)" for n and k :: "int \<Rightarrow> ('a, rvalue) vcmd"
    using that unfolding FIX2INT_def check_def by (rule if_not_P)
  have g: "ZmqGetContext (Context p) k = ZmqGetContext (Context p) (\<lambda>_. k p)" for k :: "ptr \<Rightarrow> ('a, rvalue) vcmd"
    by (rule ext) (simp add: ZmqGetContext_def fetch_def)
  have r: "open_socket A p n = raise RangeError" if "\<not> (- (2 ^ 31) \<le> n \<and> n < 2 ^ 31)" for n
    unfolding open_socket_def by (rule o [OF that])
  have e: "rb_czmq_ctx_socket A (Context p) v = tell (set_errno A 0) (ZmqGetContext (Context p) (\<lambda>ctx.
      ZmqAssertContextPidMatches p (case v of Fixnum n \<Rightarrow> open_socket A p n
        | Symbol name \<Rightarrow> rb_const_get_ZMQ A name (\<lambda>v. Check_Fixnum v (open_socket A p))
        | _ \<Rightarrow> raise (TypeError ''wrong socket type (expected Fixnum or Symbol)''))))"
    unfolding rb_czmq_ctx_socket_def Let_def by (subst g) (simp only: open_socket_def [symmetric])
  show ?thesis
    unfolding e
    by (rule sym, subst g)
      (auto simp: type_number_def rb_const_get_ZMQ_def INT2NUM_def i r split: rvalue.split option.split)
qed

lemma ctx_socket_does:
  assumes doc: "zlist_doc A" "zsock_doc A" and ok: "zctx_never_fails A" and inv: "life_inv A s"
    and p: "ctxs s p \<noteq> None" and ty: "\<And>n. type_number A v = Some n \<Longrightarrow> n \<in> range (socktype A)"
  shows "does A (Ctx_socket p v) s"
proof -
  define st where "st = life_effect A (fresh s) (pid s) (thread s) (Ctx_socket p v) (abs_life s)"
  let ?P = "\<lambda>t. life_inv A t \<and> abs_life t = st"
  let ?s = "s\<lparr>lib := set_errno A 0 (lib s)\<rparr>"
  have told: "told A s ?s" by (rule told_errno [OF doc(2)])
  have inv': "life_inv A ?s" by (rule told_life [OF told inv])
  have ab: "abs_life ?s = abs_life s" by (simp add: abs_life_def)
  obtain c where c: "ctxs s p = Some c" using p by blast
  have p0: "p \<noteq> NULL" using life_alloc(1) [OF life_invD [OF inv] c] by blast
  have bounds: "- (2 ^ 31) \<le> n" "n < 2 ^ 31" if "type_number A v = Some n" for n
    using that sint_greater_eq [where 'a = 32] sint_lt [where 'a = 32]
    by (auto simp: type_number_def split: rvalue.splits if_splits)
  consider "c_flags c = 1" | "c_flags c = 0" using flags_cases_ctx [OF inv c] by blast
  then have "wp (rb_czmq_ctx_socket A (Context p) v) (\<lambda>_. ?P) (\<lambda>_. ?P) s"
  proof cases
    case 1
    then have "contexts (abs_life s) p = None" using c by (simp add: abs_life_def)
    then have "st = abs_life s" by (simp add: st_def)
    then show ?thesis
      using c p0 inv' 1 ab unfolding ctx_socket_eq
      by (simp add: wp_tell ZmqGetContext_def wp_fetch wp_deref wp_check)
  next
    case 2
    have c': "ctxs ?s p = Some c" using c by simp
    obtain qs where ca: "ctx_at A ?s p c qs" by (rule ctx_atE [OF inv' c' 2])
    have cp: "contexts (abs_life s) p = Some (c_pid c)" using contexts_at [OF ca] ab by simp
    have body: "wp (case type_number A v of Some n \<Rightarrow> open_socket A p n
       | None \<Rightarrow> raise (case v of Fixnum n \<Rightarrow> RangeError | Symbol name \<Rightarrow> NameError name
                      | _ \<Rightarrow> TypeError ''wrong socket type (expected Fixnum or Symbol)''))
       (\<lambda>_. ?P) (\<lambda>_. ?P) ?s" if "c_pid c = pid s"
    proof (cases "type_number A v")
      case None
      then have "st = abs_life s" by (simp add: st_def)
      then show ?thesis using None inv' ab by simp
    next
      case (Some n)
      obtain t k where "open_socket A p n ?s = Return (Object k (fresh ?s)) t" "life_inv A t"
        "abs_life t = (abs_life ?s)\<lparr>sockets := (sockets (abs_life ?s))(fresh ?s \<mapsto> (p, thread ?s))\<rparr>"
        by (rule open_socket_run [OF doc ok inv' ca ty [OF Some] bounds [OF Some]])
      then show ?thesis using Some cp that ab by (simp add: wp_def st_def)
    qed
    show ?thesis
    proof (cases "c_pid c = pid s")
      case True
      then show ?thesis
        using c p0 2 body [OF True] unfolding ctx_socket_eq
        by (simp add: wp_tell ZmqGetContext_def wp_fetch wp_deref wp_check wp_ZmqAssertContextPidMatches)
    next
      case False
      then have "st = abs_life s" using cp by (simp add: st_def)
      then show ?thesis
        using False c p0 2 inv' ab unfolding ctx_socket_eq
        by (simp add: wp_tell ZmqGetContext_def wp_fetch wp_deref wp_check wp_ZmqAssertContextPidMatches)
    qed
  qed
  then show ?thesis unfolding does_def Let_def st_def [symmetric] by simp
qed

section \<open>Every call\<close>

definition life_doc :: "'w czmq \<Rightarrow> bool" where
  "life_doc A \<longleftrightarrow> zlist_doc A \<and> zsock_doc A \<and> zctx_never_fails A"

lemma life_valid_does:
  assumes doc: "life_doc A" and inv: "life_inv A s" and v: "life_valid A s c"
  shows "does A c s"
proof -
  have d: "zlist_doc A" "zsock_doc A" "zctx_never_fails A" using doc by (simp_all add: life_doc_def)
  show ?thesis
  proof (cases c)
    case (Ctx_socket p x)
    then show ?thesis using v ctx_socket_does [OF d inv, of p x] by simp
  next
    case (Collect_sock q)
    then have u: "usable s q" using v by simp
    then obtain w where w: "socks s q = Some w" "s_context w \<noteq> Qnil" by (rule usableE)
    have "zsocks (view A (lib s)) (s_socket w) \<noteq> None" if f: "s_flags w = 0"
      using sock_atE [OF inv w(1) f w(2)] sock_atD(7) by (metis option.distinct(1))
    then show ?thesis using collect_sock_does [OF d(1,2) inv w(1)] Collect_sock by blast
  next
    case (Fork i)
    have "life_inv A (s\<lparr>pid := i\<rparr>)" "abs_life (s\<lparr>pid := i\<rparr>) = abs_life s"
      using inv by (simp_all add: life_inv_def abs_life_def)
    then show ?thesis using Fork by (simp add: does_def wp_wr)
  next
    case (Switch_thread t)
    have "life_inv A (s\<lparr>thread := t\<rparr>)" "abs_life (s\<lparr>thread := t\<rparr>) = abs_life s"
      using inv by (simp_all add: life_inv_def abs_life_def)
    then show ?thesis using Switch_thread by (simp add: does_def wp_wr)
  next
    case (Ctx_new argv)
    then show ?thesis using ctx_new_does [OF d inv] by simp
  next
    case (Ctx_destroy p)
    then show ?thesis using v ctx_destroy_does [OF d(1,2) inv] by simp
  next
    case (Collect_ctx p)
    then show ?thesis using v collect_ctx_does [OF d(1,2) inv] by simp
  next
    case (Sock_close q)
    then show ?thesis using v close_does [OF d(1,2) inv] by simp
  qed (use v in \<open>auto intro!: does_alike [OF inv] linger_alike [OF d(2) inv] bind_alike [OF d(2) inv]
      connect_alike [OF d(2) inv] disconnect_alike [OF d(2) inv] send_alike [OF d(2) inv]
      recv_alike [OF d(2) inv] verbose_alike [OF inv]\<close>)
qed

lemma life_step:
  assumes "life_doc A" and "life_inv A s" and "life_valid A s c"
  shows "safe (run_life A c s)"
    and "final_state (run_life A c s) = Some t \<Longrightarrow>
      life_inv A t \<and> abs_life t = life_effect A (fresh s) (pid s) (thread s) c (abs_life s)"
proof -
  note d = life_valid_does [OF assms, unfolded does_def Let_def]
  show "safe (run_life A c s)" by (rule wp_safe [OF d])
  show "final_state (run_life A c s) = Some t \<Longrightarrow>
      life_inv A t \<and> abs_life t = life_effect A (fresh s) (pid s) (thread s) c (abs_life s)"
    by (rule wp_final [OF d])
qed

interpretation life: refined_machine "run_life A" "life_valid A" "life_inv A" "life_doc A" abs_life
    "\<lambda>s. life_effect A (fresh s) (pid s) (thread s)"
proof
  fix s c assume a: "life_doc A" "life_inv A s" "life_valid A s c"
  show "wp (run_life A c) (\<lambda>_. life_inv A) (\<lambda>_. life_inv A) s"
    by (rule wp_conseq [OF life_valid_does [OF a, unfolded does_def Let_def]]) simp_all
  show "abs_life t = life_effect A (fresh s) (pid s) (thread s) c (abs_life s)"
    if "final_state (run_life A c s) = Some t" for t
    using wp_final [OF life_valid_does [OF a, unfolded does_def Let_def] that] by simp
qed

text \<open>A process that has not used the extension yet.\<close>

definition fresh_process :: "'w vm \<Rightarrow> bool" where
  "fresh_process s \<longleftrightarrow> ctxs s = Map.empty \<and> socks s = Map.empty \<and> ctx_map s = (\<lambda>_. Qnil) \<and> fresh s \<noteq> NULL"

lemma fresh_process_inv: "fresh_process s \<Longrightarrow> life_inv A s"
  by (simp add: fresh_process_def life_inv_def life_def live_inj_def open_inj_def map_ok_def)

end
