(* ===== verification/Zmq_Life_Theorems.thy ===== *)
theory Zmq_Life_Theorems
  imports Zmq_Life Zmq_Ref
begin

text \<open>
  The properties of contexts and sockets, each with an application to the reference library.
\<close>

section \<open>A concrete program\<close>

lemma ref_life_doc: "life_doc ref"
  by (simp add: life_doc_def ref_zlist ref_zsock zctx_never_fails_def ref_fields split_beta)

lemma vm0_fresh: "fresh_process vm0"
  by (simp add: fresh_process_def vm0_def)

lemma vm0_abs: "abs_life vm0 = \<lparr>contexts = Map.empty, sockets = Map.empty\<rparr>"
  by (simp add: abs_life_def vm0_def)

text \<open>After \<^verbatim>\<open>ZMQ::Context.new\<close>, and after \<^verbatim>\<open>socket(:PUB)\<close> on it.\<close>

lemma made_context:
  assumes "life_doc A" and "fresh_process s"
  obtains t where "life_reach A s t" "abs_life t = \<lparr>contexts = [fresh s \<mapsto> pid s], sockets = Map.empty\<rparr>"
    "pid t = pid s" "ctxs t (fresh s) \<noteq> None"
proof -
  have d: "zlist_doc A" "zsock_doc A" "zctx_never_fails A" using assms(1) by (simp_all add: life_doc_def)
  have m: "ctx_map s (INT2NUM (pid s)) = Qnil" using assms(2) by (simp add: fresh_process_def)
  obtain t where t: "rb_czmq_ctx_s_new A [] s = with_threads A (Context (fresh s)) Qnil t"
      "abs_life t = (abs_life s)\<lparr>contexts := (contexts (abs_life s))(fresh s \<mapsto> pid s)\<rparr>"
      "ctxs t (fresh s) \<noteq> None" "pid t = pid s"
    using ctx_s_new_run [OF d fresh_process_inv [OF assms(2)] m, where argv = "[]" and io = Qnil] by metis
  have f: "final_state (run_life A (Ctx_new []) s) = Some t" by (simp add: t(1) with_threads_def NIL_P_def)
  have "life_reach A s t" by (rule life_reach_step [OF runs.start _ f]) simp
  moreover have "abs_life s = \<lparr>contexts = Map.empty, sockets = Map.empty\<rparr>"
    using assms(2) by (simp add: abs_life_def fresh_process_def)
  ultimately show thesis using that t(2-4) by simp
qed

lemma ref_context:
  obtains t where "life_reach ref vm0 t" "abs_life t = \<lparr>contexts = [1 \<mapsto> 1], sockets = Map.empty\<rparr>"
    "pid t = 1" "ctxs t 1 \<noteq> None"
proof -
  have "fresh vm0 = 1" "pid vm0 = 1" by (simp_all add: vm0_def)
  then show thesis using that made_context [OF ref_life_doc vm0_fresh] by metis
qed

lemma contexts_alloc: "contexts (abs_life t) p = Some i \<Longrightarrow> ctxs t p \<noteq> None"
  by (auto simp: abs_life_def bind_eq_Some_conv)

lemma ref_socket_store:
  obtains t q th where "life_reach ref vm0 t" "abs_life t = \<lparr>contexts = [1 \<mapsto> 1], sockets = [q \<mapsto> (1, th)]\<rparr>" "pid t = 1"
proof -
  obtain t where t: "life_reach ref vm0 t" "abs_life t = \<lparr>contexts = [1 \<mapsto> 1], sockets = Map.empty\<rparr>"
    "pid t = 1" "ctxs t 1 \<noteq> None" by (rule ref_context)
  have ty: "type_number ref (Symbol ''PUB'') = Some 1"
    by (simp add: type_number_def Init_rbczmq_ext_def ref_fields)
  have i: "life_inv ref t" by (rule life.runs_inv [OF t(1) ref_life_doc fresh_process_inv [OF vm0_fresh]])
  have v: "life_valid ref t (Ctx_socket 1 (Symbol ''PUB''))"
    using t(4) ty by (auto simp: ref_fields image_iff intro: exI [of _ ZMQ_PUB])
  obtain u where u: "final_state (run_life ref (Ctx_socket 1 (Symbol ''PUB'')) t) = Some u"
    using life_step(1) [OF ref_life_doc i v] by (metis safe_final)
  let ?u = "u\<lparr>pid := 1\<rparr>"
  have "life_reach ref vm0 u" by (rule life_reach_step [OF t(1) v u])
  then have "life_reach ref vm0 ?u" by (rule life_reach_step [where c = "Fork 1"]) simp_all
  moreover have "abs_life u = life_effect ref (fresh t) (pid t) (thread t) (Ctx_socket 1 (Symbol ''PUB'')) (abs_life t)"
    using life_step(2) [OF ref_life_doc i v u] by blast
  then have "abs_life u = \<lparr>contexts = [1 \<mapsto> 1], sockets = [fresh t \<mapsto> (1, thread t)]\<rparr>"
    using ty by (simp add: t(2,3))
  moreover have "abs_life ?u = abs_life u" by (simp add: abs_life_def)
  ultimately show thesis using that [of ?u] by simp
qed

lemma ref_socket:
  obtains t where "life_reach ref vm0 t" "contexts (abs_life t) 1 = Some 1" "pid t = 1"
    "\<exists>q th. sockets (abs_life t) q = Some (1, th)"
proof -
  obtain t q th where t: "life_reach ref vm0 t" "abs_life t = \<lparr>contexts = [1 \<mapsto> 1], sockets = [q \<mapsto> (1, th)]\<rparr>" "pid t = 1"
    by (rule ref_socket_store)
  show thesis by (rule that [OF t(1) _ t(3)]) (auto simp: t(2))
qed

section \<open>All programs\<close>

text \<open>
  In every state that calls on contexts and sockets reach, no call faults, a live context has an open
  libczmq context, and an open socket has an open libzmq socket of its own.
\<close>

lemma life_calls_safe:
  assumes "life_doc A" and "fresh_process s" and "life_reach A s t"
  shows "(\<forall>c. life_valid A t c \<longrightarrow> safe (run_life A c t)) \<and>
    (\<forall>p c. ctxs t p = Some c \<and> c_flags c = 0 \<longrightarrow> zctxs (view A (lib t)) (c_ctx c) \<noteq> None) \<and>
    (\<forall>q w x. sockets (abs_life t) q = Some x \<and> socks t q = Some w \<longrightarrow> zsocks (view A (lib t)) (s_socket w) \<noteq> None) \<and>
    (\<forall>q q' w w' x x'. sockets (abs_life t) q = Some x \<and> sockets (abs_life t) q' = Some x' \<and>
       socks t q = Some w \<and> socks t q' = Some w' \<and> s_socket w = s_socket w' \<longrightarrow> q = q')"
proof -
  have inv: "life_inv A t" by (rule life.runs_inv [OF assms(3,1) fresh_process_inv [OF assms(2)]])
  note L = life_invD [OF inv]
  have o: "s_flags w = 0 \<and> s_context w \<noteq> Qnil" if "sockets (abs_life t) q = Some x" "socks t q = Some w" for q x w
    using that by (cases x) (simp add: abs_life_def socket_of_Some)
  have "zctxs (view A (lib t)) (c_ctx c) \<noteq> None" if "ctxs t p = Some c" "c_flags c = 0" for p c
    by (rule live_ctxD(1) [OF L that])
  moreover have "zsocks (view A (lib t)) (s_socket w) \<noteq> None"
    if "sockets (abs_life t) q = Some x" "socks t q = Some w" for q w x
    using sock_atE [OF inv that(2)] o [OF that] sock_atD(7) by (metis option.distinct(1))
  moreover have "q = q'" if "sockets (abs_life t) q = Some x" "sockets (abs_life t) q' = Some x'"
      "socks t q = Some w" "socks t q' = Some w'" "s_socket w = s_socket w'" for q q' w w' x x'
    using open_injD [OF lifeD(11) [OF L] that(3,4)] o [OF that(1,3)] o [OF that(2,4)] that(5) by blast
  ultimately show ?thesis using life_step(1) [OF assms(1) inv] by blast
qed



section \<open>Contexts\<close>

text \<open>The contexts of a reachable state, as the store has them.\<close>

lemma reach_inv: "life_doc A \<Longrightarrow> fresh_process s \<Longrightarrow> life_reach A s t \<Longrightarrow> life_inv A t"
  by (rule life.runs_inv [OF _ _ fresh_process_inv])

lemma store_ctxE:
  assumes "life_inv A t" and "contexts (abs_life t) p = Some i"
  obtains c qs where "ctx_at A t p c qs" "c_pid c = i"
proof -
  obtain c where c: "ctxs t p = Some c" "c_flags c = 0" "c_pid c = i"
    using assms(2) by (auto simp: abs_life_def bind_eq_Some_conv context_of_def split: if_splits)
  obtain qs where "ctx_at A t p c qs" by (rule ctx_atE [OF assms(1) c(1,2)])
  then show thesis using that c(3) by blast
qed

lemma store_sockE:
  assumes "life_inv A t" and "sockets (abs_life t) q = Some (p, th)"
  obtains w n where "sock_at A t q w p n"
proof -
  obtain w where w: "socks t q = Some w" "socket_of w = Some (p, th)"
    using assms(2) by (auto simp: abs_life_def bind_eq_Some_conv)
  then have f: "s_flags w = 0" "s_context w = Context p" by (simp_all add: socket_of_Some)
  obtain p' n where s: "sock_at A t q w p' n" by (rule sock_atE [OF assms(1) w(1) f(1)]) (simp add: f)
  have "p' = p" using f(2) s by (simp add: sock_at_def)
  with s that show thesis by blast
qed

text \<open>
  C10: In every state that a program of C4 reaches there is at most one live context per process.
  \<^verbatim>\<open>ZMQ::Context.new\<close> raises with any arguments when the process has one; without a number of threads it
  raises only then, so once the context is destroyed a new one can be made. (As in C4, libczmq does not
  fail to make one. With a number of threads it may also raise for that number: C31.)
\<close>

theorem one_context_per_process:
  assumes "life_doc A" and "fresh_process s" and "life_reach A s t"
  shows "(\<forall>p q i j. contexts (abs_life t) p = Some i \<and> contexts (abs_life t) q = Some j \<and> INT2NUM i = INT2NUM j \<longrightarrow>
      p = q) \<and>
    ((\<exists>p i. contexts (abs_life t) p = Some i \<and> INT2NUM i = INT2NUM (pid t)) \<longrightarrow>
      (\<forall>argv. \<exists>e u. rb_czmq_ctx_s_new A argv t = Raise e u)) \<and>
    (\<forall>argv. argv = [] \<or> argv = [Qnil] \<longrightarrow> (\<exists>e u. rb_czmq_ctx_s_new A argv t = Raise e u) \<longrightarrow>
      (\<exists>p i. contexts (abs_life t) p = Some i \<and> INT2NUM i = INT2NUM (pid t)))"
proof -
  have d: "zlist_doc A" "zsock_doc A" "zctx_never_fails A" using assms(1) by (simp_all add: life_doc_def)
  have inv: "life_inv A t" by (rule reach_inv [OF assms])
  note L = life_invD [OF inv]
  have "p = q" if same: "contexts (abs_life t) p = Some i" "contexts (abs_life t) q = Some j" "INT2NUM i = INT2NUM j"
    for p q i j
  proof -
    obtain c qs where c: "ctx_at A t p c qs" "c_pid c = i" by (rule store_ctxE [OF inv same(1)])
    obtain e rs where e: "ctx_at A t q e rs" "c_pid e = j" by (rule store_ctxE [OF inv same(2)])
    have "Context p = Context q"
      using ctx_atD(5,6) [OF c(1)] ctx_atD(5,6) [OF e(1)] c(2) e(2) same(3) by metis
    then show "p = q" by simp
  qed
  then have one: "\<forall>p q i j. contexts (abs_life t) p = Some i \<and> contexts (abs_life t) q = Some j \<and> INT2NUM i = INT2NUM j \<longrightarrow>
      p = q" by blast
  have taken: "\<exists>e u. rb_czmq_ctx_s_new A argv t = Raise e u" if taken: "ctx_map t (INT2NUM (pid t)) \<noteq> Qnil" for argv
  proof -
    obtain p c where "ctx_map t (INT2NUM (pid t)) = Context p" "ctxs t p = Some c"
      using taken lifeD(12) [OF L] unfolding map_ok_def by blast
    then show ?thesis by (simp add: rb_czmq_ctx_s_new_def get_pid_def NIL_P_def rb_scan_args_01_def split: list.split)
  qed
  have none: "\<not> (\<exists>e u. rb_czmq_ctx_s_new A argv t = Raise e u)"
    if none: "ctx_map t (INT2NUM (pid t)) = Qnil" and argv: "argv = [] \<or> argv = [Qnil]" for argv
  proof -
    obtain u where "rb_czmq_ctx_s_new A argv t = with_threads A (Context (fresh t)) Qnil u"
      using ctx_s_new_run [OF d inv none, where argv = argv and io = Qnil] argv by metis
    then show ?thesis by (simp add: with_threads_def NIL_P_def)
  qed
  note key = ctx_key [OF inv, of "pid t"]
  have "(\<exists>p i. contexts (abs_life t) p = Some i \<and> INT2NUM i = INT2NUM (pid t)) \<longrightarrow>
      (\<forall>argv. \<exists>e u. rb_czmq_ctx_s_new A argv t = Raise e u)" using key taken by metis
  moreover have "\<forall>argv. argv = [] \<or> argv = [Qnil] \<longrightarrow> (\<exists>e u. rb_czmq_ctx_s_new A argv t = Raise e u) \<longrightarrow>
      (\<exists>p i. contexts (abs_life t) p = Some i \<and> INT2NUM i = INT2NUM (pid t))" using key none by metis
  ultimately show ?thesis using one by (intro conjI)
qed

theorem one_context_per_process_witness:
  "\<exists>t e u. life_reach ref vm0 t \<and> contexts (abs_life t) 1 = Some 1 \<and> rb_czmq_ctx_s_new ref [Fixnum 2] t = Raise e u"
proof -
  obtain t where t: "life_reach ref vm0 t" "abs_life t = \<lparr>contexts = [1 \<mapsto> 1], sockets = Map.empty\<rparr>"
    "pid t = 1" by (rule ref_context)
  have one: "contexts (abs_life t) 1 = Some 1" and "INT2NUM 1 = INT2NUM (pid t)" using t by simp_all
  then have "\<exists>p i. contexts (abs_life t) p = Some i \<and> INT2NUM i = INT2NUM (pid t)" by (intro exI conjI)
  from one_context_per_process [OF ref_life_doc vm0_fresh t(1), THEN conjunct2, THEN conjunct1, THEN mp, OF this]
  have "\<exists>e u. rb_czmq_ctx_s_new ref [Fixnum 2] t = Raise e u" by (rule spec)
  then obtain e u where "rb_czmq_ctx_s_new ref [Fixnum 2] t = Raise e u" by (elim exE)
  with t(1) one show ?thesis by (intro exI conjI)
qed

text \<open>
  C23: \<^verbatim>\<open>destroy\<close> of a live context by the process that made it returns nil, destroys the libczmq context
  and every libzmq socket of the context; afterwards closing one of its sockets raises and
  collecting it does not call the library.
\<close>

theorem context_destroy_closes:
  assumes "life_doc A" and "fresh_process s" and "life_reach A s t"
    and "contexts (abs_life t) p = Some (pid t)" and "ctxs t p = Some c"
  shows "\<exists>u. rb_czmq_ctx_destroy A (Context p) t = Return Qnil u \<and>
    contexts (abs_life u) p = None \<and> zctxs (view A (lib u)) (c_ctx c) = None \<and>
    (\<forall>q w th. sockets (abs_life t) q = Some (p, th) \<and> socks t q = Some w \<longrightarrow>
       zsocks (view A (lib u)) (s_socket w) = None \<and>
       (\<exists>e. rb_czmq_socket_close A (Socket q) u = Raise e u) \<and>
       (\<exists>u'. rb_czmq_free_sock_gc A q u = Return () u' \<and> lib u' = lib u))"
proof -
  have d: "zlist_doc A" "zsock_doc A" using assms(1) by (simp_all add: life_doc_def)
  have inv: "life_inv A t" by (rule reach_inv [OF assms(1-3)])
  obtain c' qs where c': "ctx_at A t p c' qs" "c_pid c' = pid t" by (rule store_ctxE [OF inv assms(4)])
  then have c: "ctx_at A t p c qs" "c_pid c = pid t" using ctx_atD(2) [OF c'(1)] assms(5) by simp_all
  note C = ctx_atD [OF c(1)]
  obtain lb where r: "rb_czmq_free_ctx A p t = Return () (t\<lparr>lib := lb, socks := close_all (set qs) (socks t),
       ctxs := (ctxs t)(p \<mapsto> dead_ctx c), ctx_map := (ctx_map t)(c_pidValue c := Qnil)\<rparr>)"
    and v: "view A lb = without_ctx (c_pid c = pid t) (c_ctx c)
       ((view A (lib t))\<lparr>zlists := (zlists (view A (lib t)))(c_sockets c := None),
          zsocks := (zsocks (view A (lib t))) |` (- sockets_of (set qs) (socks t))\<rparr>)"
    by (rule free_ctx_run [OF d inv c(1)])
  let ?u = "t\<lparr>lib := lb, socks := close_all (set qs) (socks t),
       ctxs := (ctxs t)(p \<mapsto> dead_ctx c), ctx_map := (ctx_map t)(c_pidValue c := Qnil)\<rparr>"
  have run: "rb_czmq_ctx_destroy A (Context p) t = Return Qnil ?u"
    using C(1-3) c(2) r
    by (simp add: rb_czmq_ctx_destroy_def ZmqGetContext_def fetch_def ZmqAssertContextPidMatches_def call_run)
  have dead: "contexts (abs_life ?u) p = None" "zctxs (view A (lib ?u)) (c_ctx c) = None"
    using c(2) by (simp_all add: abs_life_def v without_ctx_def)
  have "zsocks (view A (lib ?u)) (s_socket w) = None \<and>
       (\<exists>e. rb_czmq_socket_close A (Socket q) ?u = Raise e ?u) \<and>
       (\<exists>u'. rb_czmq_free_sock_gc A q ?u = Return () u' \<and> lib u' = lib ?u)"
    if q: "sockets (abs_life t) q = Some (p, th)" "socks t q = Some w" for q w th
  proof -
    obtain w' n where "sock_at A t q w' p n" by (rule store_sockE [OF inv q(1)])
    then have w: "sock_at A t q w p n" using q(2) sock_atD(2) by (metis option.inject)
    have qs: "q \<in> set qs" unfolding C(9) by (rule sock_at_open [OF w])
    have uq: "socks ?u q = Some (shut w)" using q(2) qs by (simp add: close_all_def)
    have "s_socket w \<in> sockets_of (set qs) (socks t)" using q(2) qs by (auto simp: sockets_of_def)
    then have "zsocks (view A (lib ?u)) (s_socket w) = None"
      using c(2) by (simp add: v without_ctx_def restrict_map_def)
    moreover have "\<exists>e. rb_czmq_socket_close A (Socket q) ?u = Raise e ?u"
      using uq sock_atD(1) [OF w] by (simp add: rb_czmq_socket_close_def GetZmqSocket_def fetch_def)
    moreover have "\<exists>u'. rb_czmq_free_sock_gc A q ?u = Return () u' \<and> lib u' = lib ?u"
      using uq sock_atD(1,4) [OF w]
      by (simp add: rb_czmq_free_sock_gc_def gc_log_def destroy_socket_closed [OF uq] call_run)
    ultimately show ?thesis by blast
  qed
  then show ?thesis using run dead by blast
qed

theorem context_destroy_closes_witness:
  "\<exists>t u. life_reach ref vm0 t \<and> (\<exists>q th. sockets (abs_life t) q = Some (1, th)) \<and>
     rb_czmq_ctx_destroy ref (Context 1) t = Return Qnil u"
proof -
  obtain t where t: "life_reach ref vm0 t" "contexts (abs_life t) 1 = Some 1" "pid t = 1"
    "\<exists>q th. sockets (abs_life t) q = Some (1, th)" by (rule ref_socket)
  obtain c where c: "ctxs t 1 = Some c" using contexts_alloc [OF t(2)] by blast
  show ?thesis
    using context_destroy_closes [OF ref_life_doc vm0_fresh t(1) _ c] t by auto
qed

text \<open>
  C31: \<^verbatim>\<open>ZMQ::Context.new\<close> with a negative number of threads raises, but only after the context was
  registered: the program holds no context, yet the process has one, and the next \<^verbatim>\<open>new\<close> raises too.
\<close>

theorem new_with_bad_threads_registers:
  assumes "life_doc A" and "fresh_process s" and "life_reach A s t"
    and "\<forall>p i. contexts (abs_life t) p = Some i \<longrightarrow> INT2NUM i \<noteq> INT2NUM (pid t)" and "- (2 ^ 31) \<le> n" and "n < 0"
  shows "\<exists>u e v. rb_czmq_ctx_s_new A [Fixnum n] t =
      Raise (ZmqError ''negative I/O threads count is not supported.'') u \<and>
    contexts (abs_life u) (fresh t) = Some (pid t) \<and> rb_czmq_ctx_s_new A [] u = Raise e v"
proof -
  have d: "zlist_doc A" "zsock_doc A" "zctx_never_fails A" using assms(1) by (simp_all add: life_doc_def)
  have inv: "life_inv A t" by (rule reach_inv [OF assms(1-3)])
  have key: "ctx_map t (INT2NUM (pid t)) = Qnil" using ctx_key [OF inv, of "pid t"] assms(4) by simp
  obtain u where r: "rb_czmq_ctx_s_new A [Fixnum n] t = with_threads A (Context (fresh t)) (Fixnum n) u"
    and u: "life_inv A u" "abs_life u = (abs_life t)\<lparr>contexts := (contexts (abs_life t))(fresh t \<mapsto> pid t)\<rparr>"
      "ctxs u (fresh t) \<noteq> None" "pid u = pid t"
    using ctx_s_new_run [OF d inv key, where argv = "[Fixnum n]" and io = "Fixnum n"] by metis
  have here: "contexts (abs_life u) (fresh t) = Some (pid t)" by (simp add: u(2))
  let ?v = "u\<lparr>lib := set_errno A 0 (lib u)\<rparr>"
  have iv: "life_inv A ?v" by (rule told_life [OF told_errno [OF d(2)] u(1)])
  have av: "abs_life ?v = abs_life u" by (simp add: abs_life_def)
  obtain c qs where c: "ctx_at A u (fresh t) c qs" "c_pid c = pid t" by (rule store_ctxE [OF u(1) here])
  note C = ctx_atD [OF c(1)]
  have "rb_czmq_ctx_set_iothreads A (Context (fresh t)) (Fixnum n) u =
      Raise (ZmqError ''negative I/O threads count is not supported.'') ?v"
    using C(1-3) c(2) assms(5,6) u(4)
    by (simp add: rb_czmq_ctx_set_iothreads_def ZmqGetContext_def fetch_def ZmqAssertContextPidMatches_def)
  then have run: "rb_czmq_ctx_s_new A [Fixnum n] t =
      Raise (ZmqError ''negative I/O threads count is not supported.'') ?v"
    by (simp add: r with_threads_def NIL_P_def call_run)
  have "ctx_map ?v (INT2NUM (pid ?v)) = Context (fresh t)" "ctxs ?v (fresh t) = Some c"
    using C(2,5,6) c(2) u(4) by simp_all
  then have "\<exists>e v. rb_czmq_ctx_s_new A [] ?v = Raise e v"
    by (simp add: rb_czmq_ctx_s_new_def get_pid_def NIL_P_def)
  then show ?thesis using run here av by metis
qed

theorem new_with_bad_threads_registers_witness:
  "\<exists>u e v. rb_czmq_ctx_s_new ref [Fixnum (-1)] vm0 =
      Raise (ZmqError ''negative I/O threads count is not supported.'') u \<and>
    contexts (abs_life u) 1 = Some 1 \<and> rb_czmq_ctx_s_new ref [] u = Raise e v"
proof -
  have "fresh vm0 = 1" "pid vm0 = 1" by (simp_all add: vm0_def)
  then show ?thesis
    using new_with_bad_threads_registers [OF ref_life_doc vm0_fresh runs.start, of "-1"]
    by (simp add: vm0_abs)
qed

text \<open>
  C32: In a forked child, collecting the context object of the parent leaves the libczmq context
  open, as it belongs to the parent, but destroys every libzmq socket of it, which the parent's
  objects still refer to.
\<close>

theorem child_collects_sockets:
  assumes "life_doc A" and "fresh_process s" and "life_reach A s t"
    and "contexts (abs_life t) p = Some i" and "i \<noteq> pid t" and "ctxs t p = Some c"
  shows "\<exists>u. rb_czmq_free_ctx_gc A p t = Return () u \<and> zctxs (view A (lib u)) (c_ctx c) \<noteq> None \<and>
    (\<forall>q w th. sockets (abs_life t) q = Some (p, th) \<and> socks t q = Some w \<longrightarrow>
       zsocks (view A (lib t)) (s_socket w) \<noteq> None \<and> zsocks (view A (lib u)) (s_socket w) = None)"
proof -
  have d: "zlist_doc A" "zsock_doc A" using assms(1) by (simp_all add: life_doc_def)
  have inv: "life_inv A t" by (rule reach_inv [OF assms(1-3)])
  obtain c' qs where c': "ctx_at A t p c' qs" "c_pid c' = i" by (rule store_ctxE [OF inv assms(4)])
  then have c: "ctx_at A t p c qs" "c_pid c \<noteq> pid t" using ctx_atD(2) [OF c'(1)] assms(5,6) by simp_all
  note C = ctx_atD [OF c(1)]
  obtain lb where r: "rb_czmq_free_ctx A p t = Return () (t\<lparr>lib := lb, socks := close_all (set qs) (socks t),
       ctxs := (ctxs t)(p \<mapsto> dead_ctx c), ctx_map := (ctx_map t)(c_pidValue c := Qnil)\<rparr>)"
    and v: "view A lb = without_ctx (c_pid c = pid t) (c_ctx c)
       ((view A (lib t))\<lparr>zlists := (zlists (view A (lib t)))(c_sockets c := None),
          zsocks := (zsocks (view A (lib t))) |` (- sockets_of (set qs) (socks t))\<rparr>)"
    by (rule free_ctx_run [OF d inv c(1)])
  let ?u = "t\<lparr>lib := lb, socks := close_all (set qs) (socks t),
       ctxs := (ctxs t)(p := None), ctx_map := (ctx_map t)(c_pidValue c := Qnil)\<rparr>"
  have n: "c_ctx c \<noteq> NULL" using C(4) zsock_docD(2) [OF d(2), of "lib t"] by metis
  have run: "rb_czmq_free_ctx_gc A p t = Return () ?u"
    using C(1-3) n r by (simp add: rb_czmq_free_ctx_gc_def call_run)
  have "zctxs (view A (lib ?u)) (c_ctx c) \<noteq> None" using C(4) c(2) by (simp add: v without_ctx_def)
  moreover have "zsocks (view A (lib t)) (s_socket w) \<noteq> None \<and> zsocks (view A (lib ?u)) (s_socket w) = None"
    if q: "sockets (abs_life t) q = Some (p, th)" "socks t q = Some w" for q w th
  proof -
    obtain w' n where "sock_at A t q w' p n" by (rule store_sockE [OF inv q(1)])
    then have w: "sock_at A t q w p n" using q(2) sock_atD(2) by (metis option.inject)
    have qs: "q \<in> set qs" unfolding C(9) by (rule sock_at_open [OF w])
    have "s_socket w \<in> sockets_of (set qs) (socks t)" using q(2) qs by (auto simp: sockets_of_def)
    then show ?thesis using c(2) sock_atD(7) [OF w] by (simp add: v without_ctx_def restrict_map_def)
  qed
  ultimately show ?thesis using run by blast
qed

theorem child_collects_sockets_witness:
  "\<exists>t u q w. life_reach ref vm0 t \<and> pid t = 2 \<and> sockets (abs_life t) q \<noteq> None \<and> socks t q = Some w \<and>
     rb_czmq_free_ctx_gc ref 1 t = Return () u \<and> zsocks (view ref (lib u)) (s_socket w) = None"
proof -
  obtain t where t: "life_reach ref vm0 t" "contexts (abs_life t) 1 = Some 1" "pid t = 1"
    "\<exists>q th. sockets (abs_life t) q = Some (1, th)" by (rule ref_socket)
  let ?t = "t\<lparr>pid := 2\<rparr>"
  have r: "life_reach ref vm0 ?t" by (rule life_reach_step [OF t(1), where c = "Fork 2"]) simp_all
  have a: "abs_life ?t = abs_life t" by (simp add: abs_life_def)
  obtain c where c: "ctxs ?t 1 = Some c" using contexts_alloc [OF t(2)] by auto
  obtain q th where q: "sockets (abs_life ?t) q = Some (1, th)" using t(4) a by auto
  then obtain w where w: "socks ?t q = Some w" by (auto simp: abs_life_def bind_eq_Some_conv)
  have "contexts (abs_life ?t) 1 = Some 1" "(1 :: int) \<noteq> pid ?t" using t(2) a by simp_all
  then obtain u where "rb_czmq_free_ctx_gc ref 1 ?t = Return () u" "zsocks (view ref (lib u)) (s_socket w) = None"
    using child_collects_sockets [OF ref_life_doc vm0_fresh r _ _ c] q w by blast
  then show ?thesis using r q w by (intro exI [of _ ?t] exI [of _ u] exI [of _ q] exI [of _ w]) simp
qed

text \<open>
  C33: When libzmq cannot make a context or a socket (too many open files, or a number that is no
  socket type), the null pointer that comes back is handed to libczmq before it is checked.
\<close>

theorem failed_allocation_faults:
  assumes "life_doc A" and "fresh_process s" and "life_reach A s t"
    and "zsock_doc B" and "zctx_new B (set_errno B 0 (lib b)) = (NULL, lb)" and "ctx_map b (INT2NUM (pid b)) = Qnil"
    and "contexts (abs_life t) p = Some (pid t)" and "ctxs t p = Some c"
    and "zsocket_new A (c_ctx c) n (set_errno A 0 (set_errno A 0 (lib t))) = (NULL, lt)" and "0 \<le> n" and "n < 2 ^ 31"
  shows "rb_czmq_ctx_s_new B [] b = Crash BadHandle \<and> rb_czmq_ctx_socket A (Context p) (Fixnum n) t = Crash BadHandle"
proof
  have "view B lb = view B (lib b)" using zctx_newD(1) [OF assms(4,5)] zsock_docD(4) [OF assms(4)] by simp
  then show "rb_czmq_ctx_s_new B [] b = Crash BadHandle"
    using assms(5,6) zsock_docD(2) [OF assms(4), of lb]
    by (simp add: rb_czmq_ctx_s_new_def get_pid_def NIL_P_def rb_czmq_nogvl_zctx_new_def call_def)
next
  have d: "zlist_doc A" "zsock_doc A" using assms(1) by (simp_all add: life_doc_def)
  have inv: "life_inv A t" by (rule reach_inv [OF assms(1-3)])
  obtain c' qs where c': "ctx_at A t p c' qs" "c_pid c' = pid t" by (rule store_ctxE [OF inv assms(7)])
  then have c: "ctx_at A t p c qs" "c_pid c = pid t" using ctx_atD(2) [OF c'(1)] assms(8) by simp_all
  note C = ctx_atD [OF c(1)]
  have "zsocks (view A lt) NULL = None" by (rule zsock_docD(3) [OF d(2)])
  then show "rb_czmq_ctx_socket A (Context p) (Fixnum n) t = Crash BadHandle"
    using C(1-4) c(2) assms(9-11) zsock_docD(4) [OF d(2)]
    by (auto simp: rb_czmq_ctx_socket_def ZmqGetContext_def fetch_def ZmqAssertContextPidMatches_def
        rb_czmq_nogvl_socket_new_def rb_czmq_socket_alloc_def call_def)
qed

text \<open>The reference library without contexts, and without a socket type 99.\<close>

definition no_ctx :: "rworld czmq" where
  "no_ctx = ref\<lparr>zctx_new := \<lambda>w. (NULL, w)\<rparr>"

definition no_99 :: "rworld czmq" where
  "no_99 = ref\<lparr>zsocket_new := \<lambda>c n w. if n = 99 then (NULL, w) else zsocket_new ref c n w\<rparr>"

lemma no_ctx_doc: "zsock_doc no_ctx"
proof -
  have k: "zctx_call_doc no_ctx w c = zctx_call_doc ref w c" "zsocket_call_doc no_ctx w h t = zsocket_call_doc ref w h t"
    for w c h t by (simp_all add: zctx_call_doc_def zsocket_call_doc_def no_ctx_def del: rview_ref cong: if_cong)
  show ?thesis
    using ref_zsock unfolding zsock_doc_def k by (simp add: no_ctx_def)
qed

lemma no_99_doc: "life_doc no_99"
proof -
  have v: "view no_99 = view ref" by (simp add: no_99_def)
  have f: "socktype no_99 = socktype ref" "set_errno no_99 = set_errno ref" "zctx_new no_99 = zctx_new ref"
    "zsys_handler_reset no_99 = zsys_handler_reset ref" by (simp_all add: no_99_def)
  have k: "zsocket_call_doc no_99 w h t = zsocket_call_doc ref w h t" for w h t
    by (simp add: zsocket_call_doc_def no_99_def del: rview_ref)
  have c: "zctx_call_doc no_99 w c" if "zctx_call_doc ref w c" for w c
    unfolding zctx_call_doc_def
  proof (intro conjI allI impI)
    fix t h w' assume n: "zsocket_new no_99 c t w = (h, w')"
    show "if h = NULL then view no_99 w' = view no_99 w
         else zsocks (view no_99 w) h = None \<and>
           view no_99 w' = (view no_99 w)\<lparr>zsocks := (zsocks (view no_99 w))(h \<mapsto> (c, t)),
                                  zopts := (zopts (view no_99 w))(h := Map.empty)\<rparr>"
    proof (cases "t = 99")
      case True
      then show ?thesis using n by (simp add: no_99_def)
    next
      case False
      then have "zsocket_new ref c t w = (h, w')" using n by (simp add: no_99_def)
      then show ?thesis using that unfolding zctx_call_doc_def v by blast
    qed
  qed (use that in \<open>simp_all add: zctx_call_doc_def no_99_def\<close>)
  have s: "zsock_doc no_99"
    using ref_zsock c unfolding zsock_doc_def k v f by (elim conjE) (intro conjI; blast)
  have "zlist_doc no_99 = zlist_doc ref" by (simp add: no_99_def zlist_doc_def del: rview_ref)
  then have l: "zlist_doc no_99" using ref_zlist by simp
  have "rtype t \<noteq> 99" for t by (cases t) simp_all
  then show ?thesis
    using s l by (simp add: life_doc_def zctx_never_fails_def no_99_def ref_fields split_beta)
qed

theorem failed_allocation_faults_witness:
  "rb_czmq_ctx_s_new no_ctx [] vm0 = Crash BadHandle \<and>
   (\<exists>t p. life_reach no_99 vm0 t \<and> rb_czmq_ctx_socket no_99 (Context p) (Fixnum 99) t = Crash BadHandle)"
proof -
  obtain t where t: "life_reach no_99 vm0 t" "abs_life t = \<lparr>contexts = [fresh vm0 \<mapsto> pid vm0], sockets = Map.empty\<rparr>"
    "pid t = pid vm0" "ctxs t (fresh vm0) \<noteq> None" by (rule made_context [OF no_99_doc vm0_fresh])
  obtain c where c: "ctxs t (fresh vm0) = Some c" using t(4) by blast
  have "rb_czmq_ctx_s_new no_ctx [] vm0 = Crash BadHandle \<and>
      rb_czmq_ctx_socket no_99 (Context (fresh vm0)) (Fixnum 99) t = Crash BadHandle"
    by (rule failed_allocation_faults [OF no_99_doc vm0_fresh t(1) no_ctx_doc _ _ _ c])
      (simp_all add: no_ctx_def no_99_def t(2,3), simp_all add: vm0_def)
  then show ?thesis using t(1) by blast
qed

end
