(* ===== verification/Zmq_Sockets.thy ===== *)
theory Zmq_Sockets
  imports Zmq_Socket Zmq_Hoare
begin

text \<open>
  Calls on a socket that may be used: it is open, belongs to the current thread, and libzmq has its
  handle. Almost every method of a socket starts with the same guards, so what they let through and
  what they refuse is proved here once.
\<close>

declare socket_klass.simps [simp del]

section \<open>Usable sockets\<close>

definition open_here :: "'w czmq \<Rightarrow> 'w vm \<Rightarrow> rvalue \<Rightarrow> ptr \<Rightarrow> zmq_sock_wrapper \<Rightarrow> bool" where
  "open_here A s obj q w \<longleftrightarrow>
     (\<exists>k. obj = Object k q \<and> socket_klass k) \<and> q \<noteq> NULL \<and> socks s q = Some w \<and>
     \<not> has (s_flags w) ZMQ_SOCKET_DESTROYED \<and> s_thread w = thread s \<and>
     zsocks (view A (lib s)) (s_socket w) \<noteq> None"

text \<open>
  Any Ruby value a method can be called on: if it is a socket object, its struct is allocated, and
  libzmq has the handle of an open one.
\<close>

definition sound_value :: "'w czmq \<Rightarrow> 'w vm \<Rightarrow> rvalue \<Rightarrow> bool" where
  "sound_value A s obj \<longleftrightarrow>
     (\<forall>k q. obj = Object k q \<longrightarrow> socket_klass k \<longrightarrow> q \<noteq> NULL \<longrightarrow>
        (\<exists>w. socks s q = Some w \<and>
           (has (s_flags w) ZMQ_SOCKET_DESTROYED \<or> zsocks (view A (lib s)) (s_socket w) \<noteq> None)))"

lemma open_hereE:
  assumes "open_here A s obj q w"
  obtains k where "obj = Object k q" "socket_klass k" "q \<noteq> NULL" "socks s q = Some w"
    "\<not> has (s_flags w) ZMQ_SOCKET_DESTROYED" "s_thread w = thread s"
    "zsocks (view A (lib s)) (s_socket w) \<noteq> None"
  using assms unfolding open_here_def by blast

lemma open_hereD:
  assumes "open_here A s obj q w"
  shows "socks s q = Some w" "\<not> has (s_flags w) ZMQ_SOCKET_DESTROYED" "s_thread w = thread s"
    "zsocks (view A (lib s)) (s_socket w) \<noteq> None"
  using assms unfolding open_here_def by blast+

lemma open_here_unique: "open_here A s obj q w \<Longrightarrow> open_here A s obj r u \<Longrightarrow> r = q \<and> u = w"
  by (auto simp: open_here_def)

lemma open_here_sound: "open_here A s obj q w \<Longrightarrow> sound_value A s obj"
  by (auto simp: open_here_def sound_value_def)

text \<open>What a usable socket depends on.\<close>

lemma open_here_cong:
  assumes "open_here A s obj q w" and "socks t q = Some u" and "s_flags u = s_flags w" and "s_thread u = s_thread w"
    and "s_socket u = s_socket w" and "thread t = thread s"
    and "zsocks (view A (lib t)) (s_socket w) = zsocks (view A (lib s)) (s_socket w)"
  shows "open_here A t obj q u"
  using assms by (auto simp: open_here_def)

lemma GetZmqSocket_here: "open_here A s obj q w \<Longrightarrow> GetZmqSocket obj k s = k q s"
  by (elim open_hereE) (simp add: GetZmqSocket_def fetch_def)

lemma guards_here:
  assumes "open_here A s obj q w"
  shows "GetZmqSocket obj (\<lambda>q. ZmqSockGuardCrossThread q (k q)) s = k q s"
  using assms by (elim open_hereE) (simp add: GetZmqSocket_def fetch_def ZmqSockGuardCrossThread_def)

lemma thread_guard_run [simp]:
  "socks s q = Some w \<Longrightarrow> ZmqSockGuardCrossThread q k s =
     (if s_thread w = thread s then k s else Raise (ZmqError ''Cross thread violation'') s)"
  by (simp add: ZmqSockGuardCrossThread_def)

lemma pending_guard_run [simp]:
  "socks s q = Some w \<Longrightarrow> ZmqAssertSocketNotPending q msg k s =
     (if has (s_state w) (ZMQ_SOCKET_BOUND OR ZMQ_SOCKET_CONNECTED) then k s else Raise (ZmqError msg) s)"
  by (simp add: ZmqAssertSocketNotPending_def)

text \<open>On any other value the guards raise.\<close>

lemma guards_refuse:
  assumes "sound_value A s obj" and none: "\<nexists>q w. open_here A s obj q w"
  shows "\<exists>e. GetZmqSocket obj (\<lambda>q. ZmqSockGuardCrossThread q (k q)) s = Raise e s"
proof (cases obj)
  case (Object c q)
  show ?thesis
  proof (cases "socket_klass c \<and> q \<noteq> NULL")
    case True
    then obtain w where w: "socks s q = Some w"
      "has (s_flags w) ZMQ_SOCKET_DESTROYED \<or> zsocks (view A (lib s)) (s_socket w) \<noteq> None"
      using assms(1) Object unfolding sound_value_def by blast
    have "has (s_flags w) ZMQ_SOCKET_DESTROYED \<or> s_thread w \<noteq> thread s"
      using none True w Object unfolding open_here_def by blast
    then show ?thesis using True w(1) Object
      by (cases "has (s_flags w) ZMQ_SOCKET_DESTROYED") (simp_all add: GetZmqSocket_def fetch_def)
  next
    case False
    then show ?thesis by (cases "socket_klass c") (simp_all add: Object GetZmqSocket_def fetch_def)
  qed
qed (simp_all add: GetZmqSocket_def fetch_def)

text \<open>The log lines of a verbose socket change nothing while libzmq has the handle.\<close>

lemma verbose_log_run:
  "socks s q = Some w \<Longrightarrow> zsocks (view A (lib s)) (s_socket w) \<noteq> None \<Longrightarrow> verbose_log A q k s = k s"
  by (auto simp: verbose_log_def)

lemma live_sock_run: "zsocks (view A (lib s)) h \<noteq> None \<Longrightarrow> live_sock A h k s = k s"
  by auto

end
