(* ===== verification/Zmq_Sample.thy ===== *)
theory Zmq_Sample
  imports Zmq_Life Zmq_Ref Zmq_Sockets
begin

text \<open>
  A concrete state on the reference library, to which the theorems on sockets are applied: a context
  (object 1) with one open socket (object 2) of type SUB, in a given connection state, verbose or
  not, that belongs to the current thread.
\<close>

definition world_sock :: rworld where
  "world_sock =
     \<lparr>rlimit = 3, rcells = (\<lambda>p. Dead)(1 := CCtx 1, 2 := CList [PTR 2] None, 3 := CSock 1 2),
      ropts = (\<lambda>p. Map.empty), rerr = 0, rint = False\<rparr>"

definition sample_sock :: "flags \<Rightarrow> bool \<Rightarrow> zmq_sock_wrapper" where
  "sample_sock st verbose =
     (new_socket 1 3 1 3 (Object rb_cThread 1))\<lparr>s_state := st, s_verbose := verbose\<rparr>"

definition vm_sock :: "flags \<Rightarrow> bool \<Rightarrow> rworld vm" where
  "vm_sock st verbose = vm0\<lparr>lib := world_sock, fresh := 4, ctxs := [1 \<mapsto> new_context 1 1 (''main.rb'', 1) 2],
     socks := [2 \<mapsto> sample_sock st verbose], arrays := [3 \<mapsto> []],
     ctx_map := (\<lambda>k. Qnil)(INT2NUM 1 := Context 1)\<rparr>"

lemma world_sock_view:
  "rview world_sock = \<lparr>zframes = Map.empty, zmsgs = Map.empty, zlists = [2 \<mapsto> [PTR 2]], zctxs = [1 \<mapsto> 1],
     zsocks = [3 \<mapsto> (1, 2)], zopts = (\<lambda>p. Map.empty), zloops = Map.empty, zbeacons = Map.empty\<rparr>"
  by (auto simp: rview_def cell_def world_sock_def fun_eq_iff)

lemma vm_sock_sel [simp]:
  "lib (vm_sock st v) = world_sock" "fresh (vm_sock st v) = 4"
  "socks (vm_sock st v) = [2 \<mapsto> sample_sock st v]"
  "ctxs (vm_sock st v) = [1 \<mapsto> new_context 1 1 (''main.rb'', 1) 2]"
  "ctx_map (vm_sock st v) = (\<lambda>k. Qnil)(INT2NUM 1 := Context 1)"
  "arrays (vm_sock st v) = [3 \<mapsto> []]" "thread (vm_sock st v) = Object rb_cThread 1" "pid (vm_sock st v) = 1"
  by (simp_all add: vm_sock_def vm0_def)

lemma sample_sock_sel [simp]:
  "s_flags (sample_sock st v) = 0" "s_socket (sample_sock st v) = 3" "s_ctx (sample_sock st v) = 1"
  "s_ctx_wrapper (sample_sock st v) = 1" "s_context (sample_sock st v) = Context 1"
  "s_thread (sample_sock st v) = Object rb_cThread 1" "s_state (sample_sock st v) = st"
  "s_verbose (sample_sock st v) = v" "s_endpoints (sample_sock st v) = Object rb_cArray 3"
  by (simp_all add: sample_sock_def new_socket_def)

lemma vm_sock_inv: "life_inv ref (vm_sock st v)"
proof -
  have o: "open_in [2 \<mapsto> sample_sock st v] p = (if p = 1 then {2} else {})" for p
    by (auto simp: open_in_def)
  show ?thesis
    unfolding life_inv_def
  proof (rule lifeI)
    show "ctx_ok (socks (vm_sock st v)) (ctx_map (vm_sock st v)) (zctxs (view ref (lib (vm_sock st v))))
        (zlists (view ref (lib (vm_sock st v)))) p c" if "ctxs (vm_sock st v) p = Some c" for p c
      using that by (auto simp: ctx_ok_def o new_context_def world_sock_view split: if_splits intro!: exI [of _ "[2]"])
    show "sock_ok (ctxs (vm_sock st v)) (zsocks (view ref (lib (vm_sock st v)))) w"
      if "socks (vm_sock st v) q = Some w" for q w
      using that by (auto simp: sock_ok_def new_context_def world_sock_view split: if_splits)
    show "live_inj (ctxs (vm_sock st v)) c_ctx" "live_inj (ctxs (vm_sock st v)) c_sockets" "open_inj (socks (vm_sock st v))"
      by (auto simp: live_inj_def open_inj_def split: if_splits)
    show "map_ok (ctxs (vm_sock st v)) (ctx_map (vm_sock st v))"
      by (auto simp: map_ok_def new_context_def)
  qed (auto split: if_splits)
qed

lemma vm_sock_here: "open_here ref (vm_sock st v) (Object rb_cZmqSubSocket 2) 2 (sample_sock st v)"
  by (simp add: open_here_def socket_klass.simps world_sock_view)

end
