(* ===== verification/Zmq_Exchange.thy ===== *)
theory Zmq_Exchange
  imports Zmq_Store Zmq_Sample
begin

text \<open>
  Sending and receiving: which calls the guards let through, and what they do to the frames and
  messages of the program. The abstract store of frames and messages is extended by the calls that
  hand objects to the library and get objects from it.
\<close>

declare socket_klass.simps [simp del]

section \<open>The guards of the nine methods\<close>

definition ready :: "'w czmq \<Rightarrow> 'w vm \<Rightarrow> rvalue \<Rightarrow> ptr \<Rightarrow> zmq_sock_wrapper \<Rightarrow> bool" where
  "ready A s obj q w \<longleftrightarrow> open_here A s obj q w \<and> has (s_state w) (ZMQ_SOCKET_BOUND OR ZMQ_SOCKET_CONNECTED)"

lemma io_ready:
  assumes "ready A s obj q w"
  shows "GetZmqSocket obj (\<lambda>q. ZmqAssertSocketNotPending q msg (ZmqSockGuardCrossThread q (k q))) s = k q s"
proof -
  have h: "open_here A s obj q w" and a: "has (s_state w) (ZMQ_SOCKET_BOUND OR ZMQ_SOCKET_CONNECTED)"
    using assms by (simp_all add: ready_def)
  show ?thesis using open_hereD [OF h] a by (simp add: GetZmqSocket_here [OF h])
qed

lemma io_refused:
  assumes "sound_value A s obj" and none: "\<nexists>q w. ready A s obj q w"
  shows "\<exists>e. GetZmqSocket obj (\<lambda>q. ZmqAssertSocketNotPending q msg (ZmqSockGuardCrossThread q (k q))) s = Raise e s"
proof (cases obj)
  case (Object c q)
  show ?thesis
  proof (cases "socket_klass c \<and> q \<noteq> NULL")
    case True
    then obtain w where w: "socks s q = Some w"
      "has (s_flags w) ZMQ_SOCKET_DESTROYED \<or> zsocks (view A (lib s)) (s_socket w) \<noteq> None"
      using assms(1) Object unfolding sound_value_def by blast
    have "has (s_flags w) ZMQ_SOCKET_DESTROYED \<or> s_thread w \<noteq> thread s \<or>
        \<not> has (s_state w) (ZMQ_SOCKET_BOUND OR ZMQ_SOCKET_CONNECTED)"
      using none True w Object unfolding ready_def open_here_def by blast
    then show ?thesis using True w(1) Object
      by (cases "has (s_flags w) ZMQ_SOCKET_DESTROYED"; cases "has (s_state w) (ZMQ_SOCKET_BOUND OR ZMQ_SOCKET_CONNECTED)")
        (simp_all add: GetZmqSocket_def fetch_def)
  next
    case False
    then show ?thesis by (cases "socket_klass c") (simp_all add: Object GetZmqSocket_def fetch_def)
  qed
qed (simp_all add: GetZmqSocket_def fetch_def)

text \<open>The nine methods.\<close>

datatype io_call =
    Send_str rvalue | Sendm_str rvalue | Recv_str | Recv_str_nonblock
  | Send_frame "rvalue list" | Recv_frame | Recv_frame_nonblock | Send_message rvalue | Recv_message

fun run_io :: "'w czmq \<Rightarrow> rvalue \<Rightarrow> io_call \<Rightarrow> ('w, rvalue) vcmd" where
  "run_io A obj (Send_str v) = rb_czmq_socket_send A obj v"
| "run_io A obj (Sendm_str v) = rb_czmq_socket_sendm A obj v"
| "run_io A obj Recv_str = rb_czmq_socket_recv A obj"
| "run_io A obj Recv_str_nonblock = rb_czmq_socket_recv_nonblock A obj"
| "run_io A obj (Send_frame argv) = rb_czmq_socket_send_frame A argv obj"
| "run_io A obj Recv_frame = rb_czmq_socket_recv_frame A obj"
| "run_io A obj Recv_frame_nonblock = rb_czmq_socket_recv_frame_nonblock A obj"
| "run_io A obj (Send_message v) = rb_czmq_socket_send_message A obj v"
| "run_io A obj Recv_message = rb_czmq_socket_recv_message A obj"

definition errno_reset :: "'w czmq \<Rightarrow> 'w vm \<Rightarrow> 'w vm" where
  "errno_reset A s = s\<lparr>lib := set_errno A 0 (lib s)\<rparr>"

lemma errno_reset_ready:
  assumes "zsock_doc A"
  shows "ready A (errno_reset A s) obj q w \<longleftrightarrow> ready A s obj q w"
    "sound_value A (errno_reset A s) obj \<longleftrightarrow> sound_value A s obj"
  using zsock_docD(4) [OF assms]
  by (simp_all add: ready_def open_here_def sound_value_def errno_reset_def)

text \<open>On any other value they raise; two of them have reset the error number by then.\<close>

lemma io_blocked_here:
  assumes "sound_value A s obj" and "\<nexists>q w. ready A s obj q w"
  shows "\<exists>e t. GetZmqSocket obj (\<lambda>q. ZmqAssertSocketNotPending q msg (ZmqSockGuardCrossThread q (k q))) s = Raise e t \<and>
    t \<in> {s, errno_reset A s}"
  using io_refused [OF assms] by blast

lemma io_blocked_reset:
  assumes "zsock_doc A" and "sound_value A s obj" and "\<nexists>q w. ready A s obj q w"
  shows "\<exists>e t. tell (set_errno A 0) (GetZmqSocket obj (\<lambda>q. ZmqAssertSocketNotPending q msg (ZmqSockGuardCrossThread q (k q)))) s =
    Raise e t \<and> t \<in> {s, errno_reset A s}"
proof -
  have "\<exists>e. GetZmqSocket obj (\<lambda>q. ZmqAssertSocketNotPending q msg (ZmqSockGuardCrossThread q (k q))) (errno_reset A s) =
      Raise e (errno_reset A s)"
    by (rule io_refused [where A = A]) (use assms errno_reset_ready [OF assms(1)] in simp_all)
  then show ?thesis unfolding tell_run errno_reset_def [symmetric] by blast
qed

lemma io_blocked:
  assumes doc: "zsock_doc A" and s: "sound_value A s obj" and none: "\<nexists>q w. ready A s obj q w"
  shows "\<exists>e t. run_io A obj c s = Raise e t \<and> t \<in> {s, errno_reset A s}"
  by (cases c; simp only: run_io.simps rb_czmq_socket_send_def rb_czmq_socket_sendm_def rb_czmq_socket_recv_def
      rb_czmq_socket_recv_nonblock_def rb_czmq_socket_send_frame_def rb_czmq_socket_recv_frame_def
      rb_czmq_socket_recv_frame_nonblock_def rb_czmq_socket_send_message_def rb_czmq_socket_recv_message_def;
      rule io_blocked_here [OF s none] io_blocked_reset [OF assms])


section \<open>Strings\<close>

text \<open>
  What a send does, on a ready socket: the string goes to libzmq first, and only then does the log
  line of a verbose socket ask for its bytes as a C string.
\<close>

lemma send_run:
  assumes doc: "zsock_doc A" and here: "ready A s obj q w"
    and r: "zmq_sendmsg A (s_socket w) cs 0 (set_errno A 0 (set_errno A 0 (lib s))) = (rc, w')" and rc: "rc \<noteq> -1"
  shows "rb_czmq_socket_send A obj (RString cs) s =
    (if s_verbose w \<and> NUL \<in> set cs then Raise (ArgError ''string contains null byte'') (s\<lparr>lib := w'\<rparr>)
     else Return Qtrue (s\<lparr>lib := w'\<rparr>))"
proof -
  note at = open_hereD(1,4) [OF here [unfolded ready_def, THEN conjunct1]]
  let ?w0 = "set_errno A 0 (set_errno A 0 (lib s))"
  have v0: "view A ?w0 = view A (lib s)" by (simp add: zsock_docD(4) [OF doc])
  obtain d t where h: "zsocks (view A ?w0) (s_socket w) = Some (d, t)" using at(2) v0 by auto
  have v': "view A w' = view A ?w0" using zsocket_liveD(7) [OF doc h, of cs 0] r by simp
  show ?thesis
    using at h v' r rc
    by (simp add: rb_czmq_socket_send_def io_ready [OF here] rb_czmq_nogvl_zstr_send_def
        rb_czmq_nogvl_zstr_send_internal_def verbose_log_str_def call_def)
qed

text \<open>A readable frame is sent as its bytes.\<close>

lemma send_frame_run:
  assumes "zframe_doc A" and "ready A s obj q w" and "frame_body A s v = Some b"
  shows "rb_czmq_socket_send A obj v s = rb_czmq_socket_send A obj (RString b) s"
    and "rb_czmq_socket_sendm A obj v s = rb_czmq_socket_sendm A obj (RString b) s"
  using StringValue_frame [OF assms(1,3)]
  by (simp_all add: rb_czmq_socket_send_def rb_czmq_socket_sendm_def io_ready [OF assms(2)])

lemma recv_nonblock_run:
  assumes doc: "zsock_doc A" and here: "ready A s obj q w"
    and r: "zmq_recvmsg A (s_socket w) (ZMQ_DONTWAIT A) (set_errno A 0 (lib s)) = ((rc, cs), w')" and rc: "0 \<le> rc"
    and e: "zmq_errno A w' = 0"
  shows "rb_czmq_socket_recv_nonblock A obj s =
    (if s_verbose w \<and> NUL \<in> set cs then Raise (ArgError ''string contains null byte'') (s\<lparr>lib := w'\<rparr>)
     else Return (RString cs) (s\<lparr>lib := w'\<rparr>))"
proof -
  have here': "ready A (errno_reset A s) obj q w" using here errno_reset_ready(1) [OF doc] by simp
  note at = open_hereD(1,4) [OF here [unfolded ready_def, THEN conjunct1]]
  have v0: "view A (set_errno A 0 (lib s)) = view A (lib s)" by (simp add: zsock_docD(4) [OF doc])
  obtain d t where h: "zsocks (view A (set_errno A 0 (lib s))) (s_socket w) = Some (d, t)" using at(2) v0 by auto
  have v': "view A w' = view A (set_errno A 0 (lib s))" using zsocket_liveD(8) [OF doc h, of "ZMQ_DONTWAIT A"] r by simp
  show ?thesis
    using at h v' r rc e
    by (simp add: io_ready [OF here', unfolded errno_reset_def] rb_czmq_socket_recv_nonblock_def verbose_log_str_def ZmqAssertSysError_def)
qed


section \<open>Frames and messages\<close>

text \<open>
  The copy that a verbose socket prints is an object of the library that no struct points to, which
  neither the invariant nor the store sees.
\<close>

definition more_objects :: "'w czmq \<Rightarrow> 'w \<Rightarrow> 'w \<Rightarrow> bool" where
  "more_objects A w w' \<longleftrightarrow>
     (\<forall>h b. zframes (view A w) h = Some b \<longrightarrow> zframes (view A w') h = Some b) \<and>
     (\<forall>m fs. zmsgs (view A w) m = Some fs \<longrightarrow> zmsgs (view A w') m = Some fs) \<and>
     zlists (view A w') = zlists (view A w) \<and> zsocks (view A w') = zsocks (view A w)"

lemma more_objectsI: "view A w' = view A w \<Longrightarrow> more_objects A w w'"
  by (simp add: more_objects_def)

lemma more_objects_trans: "more_objects A w w' \<Longrightarrow> more_objects A w' w'' \<Longrightarrow> more_objects A w w''"
  by (simp add: more_objects_def)

lemma more_objects_inv:
  assumes inv: "fm_inv A s" and more: "more_objects A (lib s) w'"
  shows "fm_inv A (s\<lparr>lib := w'\<rparr>)" "abs_store A (s\<lparr>lib := w'\<rparr>) = abs_store A s"
proof -
  note own = fm_invD [OF inv]
  have zf: "\<And>h. zframes (view A (lib s)) h \<noteq> None \<Longrightarrow> zframes (view A w') h = zframes (view A (lib s)) h"
    and zm: "\<And>m. zmsgs (view A (lib s)) m \<noteq> None \<Longrightarrow> zmsgs (view A w') m = zmsgs (view A (lib s)) m"
    and zl: "zlists (view A w') = zlists (view A (lib s))"
    using more by (auto simp: more_objects_def)
  have "owns (frames s) (msgs s) (zframes (view A w')) (zmsgs (view A w')) (zlists (view A w')) (fresh s)"
    unfolding zl by (rule owns_lists_cong [OF owns_frames_mono [OF own]])
      (use zf zm owned_messageD(5) [OF own] in simp_all)
  then show "fm_inv A (s\<lparr>lib := w'\<rparr>)" by (simp add: fm_inv_def)
  have same: "body_of (frames s) (zframes (view A w')) p = body_of (frames s) (zframes (view A (lib s))) p"
    if "readable (frames s) (msgs s) p" for p
    using zf [OF readable_live [OF own that]] by (simp add: body_of_def)
  have "store_of (frames s) (msgs s) (zframes (view A w')) (zlists (view A w')) = abs_store A s"
  proof (rule store_eqI)
    show "owned_of (frames s) (zframes (view A w')) p = owned (abs_store A s) p" for p
      using same [of p] by (auto simp: abs_store_def owned_of_def readable_def split: option.splits)
    show "contents_of (frames s) (msgs s) (zframes (view A w')) (zlists (view A w')) m = contents (abs_store A s) m" for m
      using same held_readable owned_messageD(1) [OF own] unfolding zl abs_store_def store_of_simps
      by (intro contents_cong [OF own]) blast+
  qed
  then show "abs_store A (s\<lparr>lib := w'\<rparr>) = abs_store A s" by (simp add: abs_store_def)
qed

lemma dup_more_objects:
  assumes "lib_doc A"
  shows "zframes (view A w) h = Some b \<Longrightarrow> zframe_dup A h w = (g, w') \<Longrightarrow> g \<noteq> NULL \<Longrightarrow>
      more_objects A w w' \<and> zframes (view A w') g = Some b \<and> g \<noteq> h"
  using zframe_liveD(3) [OF lib_docD(2) [OF assms], of w h b] by (auto simp: zframe_alloc_doc_def more_objects_def)

lemma dup_more_messages:
  assumes "lib_doc A" and m: "zmsgs (view A w) m = Some fs" and dup: "zmsg_dup A m w = (k, w')" and k: "k \<noteq> NULL"
  shows "more_objects A w w' \<and> zmsgs (view A w') k \<noteq> None \<and> k \<noteq> m"
proof -
  have "zmsg_alloc_doc A w (bodies (view A w) fs) (k, w')"
    using zmsg_liveD(17) [OF lib_docD(3) [OF assms(1)] m] dup by simp
  then obtain hs where hs: "zmsgs (view A w) k = None" "\<forall>f. f \<in> set hs \<longrightarrow> zframes (view A w) f = None"
    "length hs = length (bodies (view A w) fs)"
    and v: "view A w' = (view A w)\<lparr>zframes := zframes (view A w) ++ map_of (zip hs (bodies (view A w) fs)),
      zmsgs := (zmsgs (view A w))(k \<mapsto> hs)\<rparr>"
    using k by (auto simp: zmsg_alloc_doc_def)
  have "map_of (zip hs (bodies (view A w) fs)) h = None" if "zframes (view A w) h = Some b" for h b
    using hs(2,3) that by (auto simp: map_of_eq_None_iff dest!: set_zip_leftD)
  then show ?thesis using m hs(1) v by (auto simp: more_objects_def map_add_def)
qed

text \<open>The flags a caller gives, as a number or as the name of a constant of \<^verbatim>\<open>ZMQ::Frame\<close>.\<close>

definition flags_of :: "'w czmq \<Rightarrow> rvalue \<Rightarrow> flags option" where
  "flags_of A v =
     (case v of
        Qnil \<Rightarrow> Some 0
      | Fixnum n \<Rightarrow> if - (2 ^ 31) \<le> n \<and> n < 2 ^ 31 then Some (word_of_int n) else None
      | Symbol name \<Rightarrow> map_of [(''MORE'', ZFRAME_MORE A), (''REUSE'', ZFRAME_REUSE A), (''DONTWAIT'', ZFRAME_DONTWAIT A)] name
      | _ \<Rightarrow> None)"

lemma INT2NUM_word: "INT2NUM (uint (n :: flags)) = Fixnum (sint n)"
  by (simp add: INT2NUM_def)

lemma sint_range: "- (2 ^ 31) \<le> sint (n :: flags)" "sint (n :: flags) < 2 ^ 31"
  using sint_ge [of n] sint_lt [of n] by simp_all

lemma frame_flags_run:
  "flags_of A v = Some fl \<Longrightarrow> frame_flags A v k s = k fl s"
  "flags_of A v = None \<Longrightarrow> \<exists>e. frame_flags A v k s = Raise e s"
proof -
  have n: "Check_Fixnum (INT2NUM (uint n)) (\<lambda>n. FIX2INT n (\<lambda>flgs. k (word_of_int flgs))) s = k n s" for n :: flags
    using sint_range [of n] by (simp add: INT2NUM_word)
  show "flags_of A v = Some fl \<Longrightarrow> frame_flags A v k s = k fl s"
    by (cases v) (auto simp: flags_of_def frame_flags_def NIL_P_def rb_const_get_Frame_def n split: if_splits)
  show "flags_of A v = None \<Longrightarrow> \<exists>e. frame_flags A v k s = Raise e s"
    by (cases v) (auto simp: flags_of_def frame_flags_def NIL_P_def rb_const_get_Frame_def Check_Fixnum_def split: if_splits)
qed

text \<open>What the calls need of the library.\<close>

definition exchange_doc :: "'w czmq \<Rightarrow> bool" where
  "exchange_doc A \<longleftrightarrow> lib_doc A \<and> zsock_doc A \<and> zsend_doc A \<and>
     (\<forall>h w. fst (zframe_dup A h w) \<noteq> NULL) \<and> (\<forall>m w. fst (zmsg_dup A m w) \<noteq> NULL)"

lemma exchange_docD:
  assumes "exchange_doc A"
  shows "lib_doc A" "zsock_doc A" "zsend_doc A"
    "zframe_dup A h w = (g, w') \<Longrightarrow> g \<noteq> NULL" "zmsg_dup A m w = (k, w') \<Longrightarrow> k \<noteq> NULL"
  using assms unfolding exchange_doc_def by (metis fst_conv)+

text \<open>Handing a frame to the library, with the rest \<open>dump\<close> of the method.\<close>

lemma hand_over_frame:
  fixes fl :: flags and dump :: "('w, rvalue) vcmd"
  assumes doc: "exchange_doc A" and inv: "fm_inv A s" and p: "frame_at A s p f b"
    and q: "socks s q = Some w" "zsocks (view A (lib s)) (s_socket w) \<noteq> None"
  defines "r \<equiv> call (rb_czmq_nogvl_send_frame A q (f_frame f) fl) (\<lambda>rc. ZmqAssert A rc (
      if fl AND ZFRAME_REUSE A = 0
      then set_frame p (\<lambda>f. f\<lparr>f_flags := clear_flag (f_flags f) ZMQ_FRAME_OWNED\<rparr>) dump else dump)) s"
  shows "(\<exists>t. r = dump t \<and> fm_inv A t \<and> socks t = socks s \<and> zsocks (view A (lib t)) = zsocks (view A (lib s)) \<and>
      (\<forall>h. h \<noteq> f_frame f \<or> fl AND ZFRAME_REUSE A \<noteq> 0 \<longrightarrow> zframes (view A (lib t)) h = zframes (view A (lib s)) h) \<and>
      abs_store A t = (if fl AND ZFRAME_REUSE A = 0 then (abs_store A s)\<lparr>owned := (owned (abs_store A s))(p := None)\<rparr>
        else abs_store A s)) \<or> refused A r (abs_store A s)"
proof -
  let ?w0 = "set_errno A 0 (lib s)" and ?v = "view A (lib s)"
  note f = frame_atD [OF p]
  have v0: "view A ?w0 = ?v" by (simp add: zsock_docD(4) [OF exchange_docD(2) [OF doc]])
  obtain c where c: "zsocks (view A ?w0) (s_socket w) = Some c" using q(2) v0 by auto
  obtain rc w1 where call: "zframe_send A (f_frame f) (s_socket w) fl ?w0 = (rc, w1)" by fastforce
  have send: "zframe_send_doc A ?w0 (f_frame f) fl (rc, w1)"
    using zsendD(1) [OF exchange_docD(3) [OF doc] c, of "f_frame f" b fl] f(5) v0 call by simp
  have run: "r = ZmqAssert A rc (if fl AND ZFRAME_REUSE A = 0
      then set_frame p (\<lambda>f. f\<lparr>f_flags := clear_flag (f_flags f) ZMQ_FRAME_OWNED\<rparr>) dump else dump) (s\<lparr>lib := w1\<rparr>)"
    using q(1) c f(5) v0 call by (simp add: r_def rb_czmq_nogvl_send_frame_def call_def)
  show ?thesis
  proof (cases "rc = -1")
    case True
    then have "view A w1 = ?v" using send v0 by (simp add: zframe_send_doc_def)
    then show ?thesis using inv by (simp add: run True)
  next
    case False
    then have rc: "rc = 0" using send by (simp add: zframe_send_doc_def)
    show ?thesis
    proof (cases "fl AND ZFRAME_REUSE A = 0")
      case True
      let ?g = "f\<lparr>f_flags := 0\<rparr>"
      let ?t = "s\<lparr>lib := w1, frames := (frames s)(p \<mapsto> ?g)\<rparr>"
      have v1: "view A w1 = ?v\<lparr>zframes := (zframes ?v)(f_frame f := None)\<rparr>"
        using send rc True v0 by (simp add: zframe_send_doc_def)
      have g: "f_flags ?g = 0" "f_message ?g = NULL" using f(3) by simp_all
      have "r = dump ?t" using True rc f by (simp add: run)
      moreover have "fm_inv A ?t"
        using owns_lose_frame [OF fm_invD [OF inv] f(1,2) g] by (simp add: fm_inv_def v1)
      moreover have "abs_store A ?t = (abs_store A s)\<lparr>owned := (owned (abs_store A s))(p := None)\<rparr>"
        using store_lose_frame [OF fm_invD [OF inv] f(1,2) g(1)] by (simp add: abs_store_def v1)
      ultimately show ?thesis using True v1 by auto
    next
      case False
      then have v1: "view A w1 = ?v" using send v0 by (simp add: zframe_send_doc_def)
      then show ?thesis using False rc inv by (simp add: run) (intro disjI1 exI [of _ "s\<lparr>lib := w1\<rparr>"], simp)
    qed
  qed
qed

lemma ready_more:
  assumes "ready A s obj q w" and "more_objects A (lib s) w'"
  shows "socks s q = Some w" "zsocks (view A (lib s)) (s_socket w) \<noteq> None" "zsocks (view A w') (s_socket w) \<noteq> None"
  using assms open_hereD(1,4) [of A s obj q w] by (simp_all add: ready_def more_objects_def)

lemma dump_frame_run:
  assumes doc: "exchange_doc A" and q: "socks t q = Some w" "zsocks (view A (lib t)) (s_socket w) \<noteq> None"
    and g: "zframes (view A (lib t)) g = Some b" and inv: "fm_inv A t" and v: "v \<noteq> Qfalse"
  shows "steps_to A (ZmqDumpFrame A q g prefix (ret v) t) v (abs_store A t)"
  using q g inv zframe_liveD(6) [OF lib_docD(2) [OF exchange_docD(1) [OF doc]] g]
  by (simp add: ZmqDumpFrame_def live_sock_run)

text \<open>With the log line of a verbose socket, which prints a frame that is live after the call.\<close>

lemma hand_over_dump:
  fixes fl :: flags
  assumes doc: "exchange_doc A" and inv: "fm_inv A s" and p: "frame_at A s p f b"
    and q: "socks s q = Some w" "zsocks (view A (lib s)) (s_socket w) \<noteq> None"
    and g: "zframes (view A (lib s)) g = Some c" "g \<noteq> f_frame f \<or> fl AND ZFRAME_REUSE A \<noteq> 0"
    and st: "st = (if fl AND ZFRAME_REUSE A = 0 then (abs_store A s)\<lparr>owned := (owned (abs_store A s))(p := None)\<rparr>
        else abs_store A s)"
    and r: "r = call (rb_czmq_nogvl_send_frame A q (f_frame f) fl) (\<lambda>rc. ZmqAssert A rc (
      if fl AND ZFRAME_REUSE A = 0
      then set_frame p (\<lambda>f. f\<lparr>f_flags := clear_flag (f_flags f) ZMQ_FRAME_OWNED\<rparr>)
        (ZmqDumpFrame A q g prefix (ret Qtrue)) else ZmqDumpFrame A q g prefix (ret Qtrue))) s"
  shows "steps_to A r Qtrue st \<or> refused A r (abs_store A s)"
  using hand_over_frame [OF doc inv p q, of fl "ZmqDumpFrame A q g prefix (ret Qtrue)"] unfolding r [symmetric] st [symmetric]
proof (elim disjE exE conjE)
  fix t
  assume t: "r = ZmqDumpFrame A q g prefix (ret Qtrue) t" "fm_inv A t" "socks t = socks s"
    "zsocks (view A (lib t)) = zsocks (view A (lib s))" "abs_store A t = st"
    "\<forall>h. h \<noteq> f_frame f \<or> fl AND ZFRAME_REUSE A \<noteq> 0 \<longrightarrow> zframes (view A (lib t)) h = zframes (view A (lib s)) h"
  have "steps_to A (ZmqDumpFrame A q g prefix (ret Qtrue) t) Qtrue (abs_store A t)"
    by (rule dump_frame_run [OF doc, of t q w g c]) (use t q g in simp_all)
  then show ?thesis using t(1,5) by simp
qed (rule disjI2)

lemma send_frame_refines:
  assumes doc: "exchange_doc A" and inv: "fm_inv A s" and here: "ready A s obj q w"
    and p: "owned (abs_store A s) p = Some b" and fl: "flags_of A v = Some fl"
  defines "r \<equiv> rb_czmq_socket_send_frame A [Object rb_cZmqFrame p, v] obj s"
  shows "steps_to A r Qtrue (if fl AND ZFRAME_REUSE A = 0 then (abs_store A s)\<lparr>owned := (owned (abs_store A s))(p := None)\<rparr>
      else abs_store A s) \<or> refused A r (abs_store A s)"
    (is "steps_to A r Qtrue ?st \<or> _")
proof -
  obtain f where at: "frame_at A s p f b" by (rule ownedE [OF inv p])
  note f = frame_atD [OF at]
  note q = ready_more(1,2) [OF here more_objectsI [OF refl]]
  let ?send = "\<lambda>dump. call (rb_czmq_nogvl_send_frame A q (f_frame f) fl) (\<lambda>rc. ZmqAssert A rc (
      if fl AND ZFRAME_REUSE A = 0
      then set_frame p (\<lambda>f. f\<lparr>f_flags := clear_flag (f_flags f) ZMQ_FRAME_OWNED\<rparr>) dump else dump))"
  have run: "r = (if s_verbose w then
        if fl AND ZFRAME_REUSE A \<noteq> 0 then ?send (ZmqDumpFrame A q (f_frame f) ''send_frame'' (ret Qtrue)) s
        else live_frame A (f_frame f) (invoke (zframe_dup A (f_frame f)) (\<lambda>print_frame.
          ?send (ZmqDumpFrame A q print_frame ''send_frame'' (ret Qtrue)))) s
      else ?send (ret Qtrue) s)"
    using f fl q by (simp add: r_def rb_czmq_socket_send_frame_def io_ready [OF here] frame_flags_run(1) [OF fl]
        ZmqAssertFrameOwnedNoMessage_def Let_def)
  consider "\<not> s_verbose w" | "s_verbose w" "fl AND ZFRAME_REUSE A \<noteq> 0" | "s_verbose w" "fl AND ZFRAME_REUSE A = 0" by blast
  then show ?thesis
  proof cases
    case 1
    then show ?thesis using hand_over_frame [OF doc inv at q, of fl "ret Qtrue"] unfolding run by auto
  next
    case 2
    then show ?thesis
      by (intro hand_over_dump [OF doc inv at q f(5) disjI2 refl]) (simp_all add: run)
  next
    case 3
    obtain g w1 where dup: "zframe_dup A (f_frame f) (lib s) = (g, w1)" by fastforce
    have more: "more_objects A (lib s) w1" and g: "zframes (view A w1) g = Some b" "g \<noteq> f_frame f"
      using dup_more_objects [OF exchange_docD(1) [OF doc] f(5) dup exchange_docD(4) [OF doc dup]] by simp_all
    let ?s1 = "s\<lparr>lib := w1\<rparr>"
    note inv1 = more_objects_inv [OF inv more]
    have at1: "frame_at A ?s1 p f b" using at more by (simp add: frame_at_def more_objects_def)
    have q1: "socks ?s1 q = Some w" "zsocks (view A (lib ?s1)) (s_socket w) \<noteq> None" using ready_more [OF here more] by simp_all
    have run1: "r = ?send (ZmqDumpFrame A q g ''send_frame'' (ret Qtrue)) ?s1"
      using 3 f(5) dup by (simp add: run)
    have g1: "zframes (view A (lib ?s1)) g = Some b" using g(1) by simp
    show ?thesis
      using hand_over_dump [OF doc inv1(1) at1 q1 g1 disjI1 [OF g(2)] refl run1] unfolding inv1(2) .
  qed
qed

text \<open>Handing a message to the library: the object is gone whatever the library answers.\<close>

lemma hand_over_message:
  fixes dump :: "('w, rvalue) vcmd"
  assumes doc: "exchange_doc A" and inv: "fm_inv A s" and m: "msg_at A s m w ps"
    and q: "socks s q = Some u" "zsocks (view A (lib s)) (s_socket u) \<noteq> None"
  obtains t where "call (rb_czmq_nogvl_send_message A q (m_message w)) (\<lambda>_.
      set_msg m (\<lambda>m. m\<lparr>m_flags := clear_flag (m_flags m) ZMQ_MESSAGE_OWNED\<rparr>) dump) s = dump t"
    "fm_inv A t" "socks t = socks s" "zsocks (view A (lib t)) = zsocks (view A (lib s))"
    "\<And>k. k \<noteq> m_message w \<Longrightarrow> zmsgs (view A (lib t)) k = zmsgs (view A (lib s)) k"
    "abs_store A t = (abs_store A s)\<lparr>contents := (contents (abs_store A s))(m := None)\<rparr>"
proof -
  let ?w0 = "set_errno A 0 (lib s)" and ?v = "view A (lib s)"
  note at = msg_atD [OF m]
  have v0: "view A ?w0 = ?v" by (simp add: zsock_docD(4) [OF exchange_docD(2) [OF doc]])
  obtain c where c: "zsocks (view A ?w0) (s_socket u) = Some c" using q(2) v0 by auto
  obtain rc w1 where call: "zmsg_send A (m_message w) (s_socket u) ?w0 = (rc, w1)" by fastforce
  let ?fs = "map (czframe (frames s)) ps"
  have send: "zmsg_send_doc A ?w0 (m_message w) ?fs (rc, w1)"
    using zsendD(2) [OF exchange_docD(3) [OF doc] c, of "m_message w" ?fs] at(7) v0 call by simp
  let ?t = "s\<lparr>lib := w1, msgs := (msgs s)(m \<mapsto> w\<lparr>m_flags := 0\<rparr>)\<rparr>"
  have up: "given_up (frames s) (zframes ?v) (zmsgs ?v) (zlists ?v) w ps (w\<lparr>m_flags := 0\<rparr>)
      (zframes (view A w1)) (zmsgs (view A w1)) (zlists (view A w1))"
    and z: "zsocks (view A w1) = zsocks ?v"
    and zm: "\<And>k. k \<noteq> m_message w \<Longrightarrow> zmsgs (view A w1) k = zmsgs ?v k"
    using send v0 by (auto simp: given_up_def zmsg_send_doc_def restrict_map_def)
  show thesis
  proof (rule that [of ?t])
    show "call (rb_czmq_nogvl_send_message A q (m_message w)) (\<lambda>_.
      set_msg m (\<lambda>m. m\<lparr>m_flags := clear_flag (m_flags m) ZMQ_MESSAGE_OWNED\<rparr>) dump) s = dump ?t"
      using q(1) c at v0 call by (simp add: rb_czmq_nogvl_send_message_def call_def)
    show "fm_inv A ?t"
      using owns_give_up [OF fm_invD [OF inv] at(1,2,6) up] by (simp add: fm_inv_def)
    show "abs_store A ?t = (abs_store A s)\<lparr>contents := (contents (abs_store A s))(m := None)\<rparr>"
      using store_give_up [OF fm_invD [OF inv] at(1,2,6) up] by (simp add: abs_store_def)
  qed (simp_all add: z zm)
qed

lemma send_message_refines:
  assumes doc: "exchange_doc A" and inv: "fm_inv A s" and here: "ready A s obj q u"
    and m: "contents (abs_store A s) m = Some xs"
  shows "steps_to A (rb_czmq_socket_send_message A obj (Object rb_cZmqMessage m) s) Qnil
    ((abs_store A s)\<lparr>contents := (contents (abs_store A s))(m := None)\<rparr>)"
proof -
  obtain w ps where msg: "msg_at A s m w ps" by (rule contentsE [OF inv m])
  note at = msg_atD [OF msg]
  note q = ready_more(1,2) [OF here more_objectsI [OF refl]]
  let ?send = "\<lambda>dump. call (rb_czmq_nogvl_send_message A q (m_message w)) (\<lambda>_.
      set_msg m (\<lambda>m. m\<lparr>m_flags := clear_flag (m_flags m) ZMQ_MESSAGE_OWNED\<rparr>) dump)"
  have run: "rb_czmq_socket_send_message A obj (Object rb_cZmqMessage m) s = (if s_verbose u then
      live_msg A (m_message w) (invoke (zmsg_dup A (m_message w)) (\<lambda>k. ?send (ZmqDumpMessage A q k (ret Qnil)))) s
      else ?send (ret Qnil) s)"
    using at q by (simp add: rb_czmq_socket_send_message_def io_ready [OF here] Let_def)
  show ?thesis
  proof (cases "s_verbose u")
    case False
    show ?thesis
      by (rule hand_over_message [OF doc inv msg q, of "ret Qnil"]) (simp add: run False)
  next
    case True
    obtain k w1 where dup: "zmsg_dup A (m_message w) (lib s) = (k, w1)" by fastforce
    have more: "more_objects A (lib s) w1" and k: "zmsgs (view A w1) k \<noteq> None" "k \<noteq> m_message w"
      using dup_more_messages [OF exchange_docD(1) [OF doc] at(7) dup exchange_docD(5) [OF doc dup]] by simp_all
    let ?s1 = "s\<lparr>lib := w1\<rparr>"
    note inv1 = more_objects_inv [OF inv more]
    have msg1: "msg_at A ?s1 m w ps"
      using msg more by (auto simp: msg_at_def holds_frames_def more_objects_def)
    have q1: "socks ?s1 q = Some u" "zsocks (view A (lib ?s1)) (s_socket u) \<noteq> None" using ready_more [OF here more] by simp_all
    show ?thesis
    proof (rule hand_over_message [OF doc inv1(1) msg1 q1, of "ZmqDumpMessage A q k (ret Qnil)"])
      fix t
      assume t: "?send (ZmqDumpMessage A q k (ret Qnil)) ?s1 = ZmqDumpMessage A q k (ret Qnil) t" "fm_inv A t"
        "socks t = socks ?s1" "zsocks (view A (lib t)) = zsocks (view A (lib ?s1))"
        "\<And>j. j \<noteq> m_message w \<Longrightarrow> zmsgs (view A (lib t)) j = zmsgs (view A (lib ?s1)) j"
        "abs_store A t = (abs_store A ?s1)\<lparr>contents := (contents (abs_store A ?s1))(m := None)\<rparr>"
      obtain fs where fs: "zmsgs (view A (lib t)) k = Some fs" using t(5) [OF k(2)] k(1) by auto
      have "steps_to A (ZmqDumpMessage A q k (ret Qnil) t) Qnil (abs_store A t)"
        using t(2,3,4) q1 fs zmsg_liveD(19) [OF lib_docD(3) [OF exchange_docD(1) [OF doc]] fs]
        by (simp add: ZmqDumpMessage_def live_sock_run)
      then show ?thesis using True at(7) dup t(1,6) inv1(2) by (simp add: run)
    qed
  qed
qed

section \<open>Receiving\<close>

lemma received_frame_refines:
  assumes doc: "exchange_doc A" and inv: "fm_inv A s" and q: "socks s q = Some w" "zsocks (view A (lib s)) (s_socket w) \<noteq> None"
    and alloc: "zframe_alloc_doc A (lib s) d (h, w1)"
  shows "steps_to A (received_frame A q method h (s\<lparr>lib := w1\<rparr>)) Qnil (abs_store A s) \<or>
    steps_to A (received_frame A q method h (s\<lparr>lib := w1\<rparr>)) (Object rb_cZmqFrame (fresh s))
      ((abs_store A s)\<lparr>owned := (owned (abs_store A s))(fresh s \<mapsto> d)\<rparr>)"
proof (cases "h = NULL")
  case True
  then show ?thesis using alloc inv by (simp add: received_frame_def zframe_alloc_doc_def)
next
  case False
  have h: "zframes (view A (lib s)) h = None"
    and v1: "view A w1 = (view A (lib s))\<lparr>zframes := (zframes (view A (lib s)))(h \<mapsto> d)\<rparr>"
    using alloc False by (simp_all add: zframe_alloc_doc_def)
  have live: "zframes (view A w1) h = Some d" using v1 by simp
  have p: "view A (zframe_print A h method w1) = view A w1"
    by (rule zframe_liveD(6) [OF lib_docD(2) [OF exchange_docD(1) [OF doc]] live])
  have new: "steps_to A (rb_czmq_alloc_frame h (s\<lparr>lib := w2\<rparr>)) (Object rb_cZmqFrame (fresh s))
      ((abs_store A s)\<lparr>owned := (owned (abs_store A s))(fresh s \<mapsto> d)\<rparr>)" if "view A w2 = view A w1" for w2
    using owns_new_frame [OF fm_invD [OF inv] h] store_new_frame [OF fm_invD [OF inv] h]
    by (simp add: rb_czmq_alloc_frame_def that v1 fm_inv_def abs_store_def)
  show ?thesis
    using new [OF refl] new [OF p] False q live v1
    by (auto simp: received_frame_def ZmqDumpFrame_def live_sock_run)
qed

lemma alloc_errno:
  assumes "zsock_doc A"
  shows "zframe_alloc_doc A (set_errno A e w) d r = zframe_alloc_doc A w d r"
    "zmsg_alloc_doc A (set_errno A e w) bs r = zmsg_alloc_doc A w bs r"
  by (simp_all add: zframe_alloc_doc_def zmsg_alloc_doc_def zsock_docD(4) [OF assms])

lemma recv_frame_refines:
  assumes doc: "exchange_doc A" and inv: "fm_inv A s" and here: "ready A s obj q w"
  shows "steps_to A (rb_czmq_socket_recv_frame A obj s) Qnil (abs_store A s) \<or>
      (\<exists>d. steps_to A (rb_czmq_socket_recv_frame A obj s) (Object rb_cZmqFrame (fresh s))
        ((abs_store A s)\<lparr>owned := (owned (abs_store A s))(fresh s \<mapsto> d)\<rparr>))" (is ?blocking)
    and "steps_to A (rb_czmq_socket_recv_frame_nonblock A obj s) Qnil (abs_store A s) \<or>
      (\<exists>d. steps_to A (rb_czmq_socket_recv_frame_nonblock A obj s) (Object rb_cZmqFrame (fresh s))
        ((abs_store A s)\<lparr>owned := (owned (abs_store A s))(fresh s \<mapsto> d)\<rparr>))" (is ?nonblock)
proof -
  let ?w0 = "set_errno A 0 (lib s)" and ?h = "s_socket w"
  note q = ready_more(1,2) [OF here more_objectsI [OF refl]]
  have v0: "view A ?w0 = view A (lib s)" by (simp add: zsock_docD(4) [OF exchange_docD(2) [OF doc]])
  obtain c where c: "zsocks (view A ?w0) ?h = Some c" using q(2) v0 by auto
  show ?blocking
  proof -
    obtain h w1 where call: "zframe_recv A ?h ?w0 = (h, w1)" by fastforce
    obtain d where d: "zframe_alloc_doc A (lib s) d (h, w1)"
      using zsendD(3) [OF exchange_docD(3) [OF doc] c] call alloc_errno [OF exchange_docD(2) [OF doc]] by metis
    have "rb_czmq_socket_recv_frame A obj s = received_frame A q ''recv_frame'' h (s\<lparr>lib := w1\<rparr>)"
      using q(1) c call by (simp add: rb_czmq_socket_recv_frame_def io_ready [OF here] rb_czmq_nogvl_recv_frame_def call_def)
    then show ?thesis using received_frame_refines [OF doc inv q d] by auto
  qed
  have here': "ready A (errno_reset A s) obj q w" using here errno_reset_ready(1) [OF exchange_docD(2) [OF doc]] by simp
  obtain h w1 where call: "zframe_recv_nowait A ?h ?w0 = (h, w1)" by fastforce
  obtain d where d: "zframe_alloc_doc A (lib s) d (h, w1)"
    using zsendD(4) [OF exchange_docD(3) [OF doc] c] call alloc_errno [OF exchange_docD(2) [OF doc]] by metis
  have "rb_czmq_socket_recv_frame_nonblock A obj s = received_frame A q ''recv_frame_nonblock'' h (s\<lparr>lib := w1\<rparr>)"
    using q(1) c call by (simp add: rb_czmq_socket_recv_frame_nonblock_def io_ready [OF here', unfolded errno_reset_def])
  then show ?nonblock using received_frame_refines [OF doc inv q d] by auto
qed

lemma recv_message_refines:
  assumes doc: "exchange_doc A" and inv: "fm_inv A s" and here: "ready A s obj q w"
  shows "steps_to A (rb_czmq_socket_recv_message A obj s) Qnil (abs_store A s) \<or>
    (\<exists>bs. steps_to A (rb_czmq_socket_recv_message A obj s) (Object rb_cZmqMessage (fresh s))
      ((abs_store A s)\<lparr>contents := (contents (abs_store A s))(fresh s \<mapsto>
        zip [Suc (fresh s)..<Suc (fresh s) + length bs] bs)\<rparr>))"
proof -
  let ?w0 = "set_errno A 0 (lib s)" and ?h = "s_socket w"
  note q = ready_more(1,2) [OF here more_objectsI [OF refl]]
  have v0: "view A ?w0 = view A (lib s)" by (simp add: zsock_docD(4) [OF exchange_docD(2) [OF doc]])
  obtain c where c: "zsocks (view A ?w0) ?h = Some c" using q(2) v0 by auto
  obtain k w1 where call: "zmsg_recv A ?h ?w0 = (k, w1)" by fastforce
  obtain bs where bs: "zmsg_alloc_doc A (lib s) bs (k, w1)"
    using zsendD(5) [OF exchange_docD(3) [OF doc] c] call alloc_errno [OF exchange_docD(2) [OF doc]] by metis
  let ?alloc = "rb_czmq_alloc_message A k"
  have run: "rb_czmq_socket_recv_message A obj s = (if k = NULL then Return Qnil (s\<lparr>lib := w1\<rparr>)
      else if s_verbose w then ZmqDumpMessage A q k ?alloc (s\<lparr>lib := w1\<rparr>) else ?alloc (s\<lparr>lib := w1\<rparr>))"
    using q(1) c call by (simp add: rb_czmq_socket_recv_message_def io_ready [OF here] rb_czmq_nogvl_recv_message_def call_def)
  show ?thesis
  proof (cases "k = NULL")
    case True
    then show ?thesis using bs inv by (simp add: run zmsg_alloc_doc_def)
  next
    case False
    obtain hs where live: "zmsgs (view A w1) k = Some hs" and z: "zsocks (view A w1) = zsocks (view A (lib s))"
      using bs False by (auto simp: zmsg_alloc_doc_def)
    have p: "view A (zmsg_dump A k w1) = view A w1"
      by (rule zmsg_liveD(19) [OF lib_docD(3) [OF exchange_docD(1) [OF doc]] live])
    have bs': "zmsg_alloc_doc A (lib s) bs (k, zmsg_dump A k w1)"
      using bs unfolding zmsg_alloc_doc_def fst_conv snd_conv p .
    show ?thesis
      using alloc_message_refines [OF exchange_docD(1) [OF doc] inv bs False]
        alloc_message_refines [OF exchange_docD(1) [OF doc] inv bs' False] False q live z
      by (auto simp: run ZmqDumpMessage_def live_sock_run simp del: upt_Suc)
  qed
qed

section \<open>All calls\<close>

text \<open>What the invariant and the store do not see: a call that leaves the objects of the library alone.\<close>

definition view_kept :: "'w czmq \<Rightarrow> 'w vm \<Rightarrow> 'w vm \<Rightarrow> bool" where
  "view_kept A s t \<longleftrightarrow> (\<exists>w'. t = s\<lparr>lib := w'\<rparr> \<and> view A w' = view A (lib s))"

lemma view_kept_store: "view_kept A s t \<Longrightarrow> fm_inv A s \<Longrightarrow> fm_inv A t \<and> abs_store A t = abs_store A s"
  by (auto simp: view_kept_def)

lemma view_keptI: "view A w' = view A (lib s) \<Longrightarrow> view_kept A s (s\<lparr>lib := w'\<rparr>)"
  by (auto simp: view_kept_def)

text \<open>The end of the four methods on strings, in a state the library has left.\<close>

lemma verbose_tail:
  assumes q: "socks s q = Some w" "zsocks (view A (lib s)) (s_socket w) \<noteq> None" and v: "view A w' = view A (lib s)"
  shows "wp (verbose_log_str A q cs (ret x)) (\<lambda>_. view_kept A s) (\<lambda>_. view_kept A s) (s\<lparr>lib := w'\<rparr>)"
    "wp (verbose_log A q (ret x)) (\<lambda>_. view_kept A s) (\<lambda>_. view_kept A s) (s\<lparr>lib := w'\<rparr>)"
  using q v view_keptI [OF v]
  by (simp_all add: verbose_log_str_def verbose_log_def wp_simps del: StringValueCStr_run)

lemma assert_tail:
  assumes v: "view A w' = view A (lib s)"
    and "rc \<noteq> -1 \<Longrightarrow> wp k (\<lambda>_. view_kept A s) (\<lambda>_. view_kept A s) (s\<lparr>lib := w'\<rparr>)"
  shows "wp (ZmqAssert A rc k) (\<lambda>_. view_kept A s) (\<lambda>_. view_kept A s) (s\<lparr>lib := w'\<rparr>)"
  by (rule wp_ZmqAssert) (use assms view_keptI [OF v] in auto)

lemma io_wp:
  assumes "ready A s obj q w"
  shows "wp (GetZmqSocket obj (\<lambda>q. ZmqAssertSocketNotPending q msg (ZmqSockGuardCrossThread q (k q)))) Q E s = wp (k q) Q E s"
  by (simp add: wp_def io_ready [OF assms])

lemma string_io_kept:
  assumes doc: "zsock_doc A" and here: "ready A s obj q w"
    and c: "c \<in> {Send_str v, Sendm_str v, Recv_str, Recv_str_nonblock}"
    and arg: "c \<in> {Send_str v, Sendm_str v} \<Longrightarrow> string_arg A s v"
  shows "wp (run_io A obj c) (\<lambda>_. view_kept A s) (\<lambda>_. view_kept A s) s"
proof -
  let ?h = "s_socket w"
  note q = ready_more(1,2) [OF here more_objectsI [OF refl]]
  have v0: "view A (set_errno A 0 w') = view A w'" for w' by (rule zsock_docD(4) [OF doc])
  have kept: "view A (snd (zmq_sendmsg A ?h cs fl w')) = view A (lib s)" "view A (snd (zmq_recvmsg A ?h fl w')) = view A (lib s)"
    if eq: "view A w' = view A (lib s)" for w' cs fl
  proof -
    obtain d t where h: "zsocks (view A w') ?h = Some (d, t)" using q(2) eq by auto
    show "view A (snd (zmq_sendmsg A ?h cs fl w')) = view A (lib s)" "view A (snd (zmq_recvmsg A ?h fl w')) = view A (lib s)"
      using zsocket_liveD(7,8) [OF doc h] eq by simp_all
  qed
  have null: "?h \<noteq> NULL"
  proof
    assume "?h = NULL"
    then show False using q(2) zsock_docD(3) [OF doc, of "lib s"] by simp
  qed
  have s: "view_kept A s s" using view_keptI [OF refl, of A s] by simp
  have here': "ready A (s\<lparr>lib := set_errno A 0 (lib s)\<rparr>) obj q w"
    using here errno_reset_ready(1) [OF doc] by (simp add: errno_reset_def)
  note simps = wp_simps io_wp [OF here] rb_czmq_nogvl_zstr_send_def rb_czmq_nogvl_zstr_sendm_def
    rb_czmq_nogvl_zstr_send_internal_def rb_czmq_nogvl_recv_def v0 split_beta
  have send: "wp (rb_czmq_socket_send A obj v) (\<lambda>_. view_kept A s) (\<lambda>_. view_kept A s) s"
    "wp (rb_czmq_socket_sendm A obj v) (\<lambda>_. view_kept A s) (\<lambda>_. view_kept A s) s" if "string_arg A s v"
    unfolding rb_czmq_socket_send_def rb_czmq_socket_sendm_def io_wp [OF here]
    by (rule wp_StringValue [OF that]; use q s in \<open>auto simp: simps kept intro!: assert_tail verbose_tail view_keptI\<close>)+
  have recv: "wp (rb_czmq_socket_recv A obj) (\<lambda>_. view_kept A s) (\<lambda>_. view_kept A s) s"
    using q null by (auto simp: rb_czmq_socket_recv_def simps kept Let_def intro!: verbose_tail view_keptI)
  have nonblock: "wp (rb_czmq_socket_recv_nonblock A obj) (\<lambda>_. view_kept A s) (\<lambda>_. view_kept A s) s"
    using q by (auto simp: rb_czmq_socket_recv_nonblock_def simps io_wp [OF here'] kept Let_def intro!: verbose_tail view_keptI)
  show ?thesis using c arg send recv nonblock by auto
qed

text \<open>
  A program makes calls on frames and messages, and sends and receives over any sockets. The frame or
  message object a caller passes must be allocated, as every object a Ruby program holds is.
\<close>

datatype xcall = Store call | Io rvalue io_call

fun xexec :: "'w czmq \<Rightarrow> xcall \<Rightarrow> ('w, rvalue) vcmd" where
  "xexec A (Store c) = exec A c"
| "xexec A (Io obj c) = run_io A obj c"

fun io_args :: "'w vm \<Rightarrow> io_call \<Rightarrow> bool" where
  "io_args s (Send_frame argv) \<longleftrightarrow> (\<forall>p. argv \<noteq> [] \<longrightarrow> hd argv = Frame p \<longrightarrow> p \<noteq> NULL \<longrightarrow> frames s p \<noteq> None)"
| "io_args s (Send_str v) \<longleftrightarrow> (\<forall>p. v = Frame p \<longrightarrow> p \<noteq> NULL \<longrightarrow> frames s p \<noteq> None)"
| "io_args s (Sendm_str v) \<longleftrightarrow> (\<forall>p. v = Frame p \<longrightarrow> p \<noteq> NULL \<longrightarrow> frames s p \<noteq> None)"
| "io_args s (Send_message v) \<longleftrightarrow> (\<forall>m. v = Message m \<longrightarrow> m \<noteq> NULL \<longrightarrow> msgs s m \<noteq> None)"
| "io_args s _ \<longleftrightarrow> True"

fun xvalid :: "'w czmq \<Rightarrow> 'w vm \<Rightarrow> xcall \<Rightarrow> bool" where
  "xvalid A s (Store c) \<longleftrightarrow> valid A s c"
| "xvalid A s (Io obj c) \<longleftrightarrow> sound_value A s obj \<and> io_args s c"

text \<open>
  What a call that succeeds may do to the store, given the next free address \<open>n\<close>: a sent frame object
  is not owned any more unless the flags say so, a sent message object has no contents, a received
  frame or message is new, and strings do not touch the store.
\<close>

fun io_result :: "'w czmq \<Rightarrow> ptr \<Rightarrow> io_call \<Rightarrow> store \<Rightarrow> rvalue \<Rightarrow> store \<Rightarrow> bool" where
  "io_result A n (Send_frame argv) st r st' \<longleftrightarrow>
     (\<exists>p v b fl. (argv = [Frame p, v] \<or> argv = [Frame p] \<and> v = Qnil) \<and> owned st p = Some b \<and>
        flags_of A v = Some fl \<and> r = Qtrue \<and>
        st' = (if fl AND ZFRAME_REUSE A = 0 then st\<lparr>owned := (owned st)(p := None)\<rparr> else st))"
| "io_result A n (Send_message v) st r st' \<longleftrightarrow>
     (\<exists>m xs. v = Message m \<and> contents st m = Some xs \<and> r = Qnil \<and> st' = st\<lparr>contents := (contents st)(m := None)\<rparr>)"
| "io_result A n Recv_frame st r st' \<longleftrightarrow>
     r = Qnil \<and> st' = st \<or> r = Frame n \<and> (\<exists>d. st' = st\<lparr>owned := (owned st)(n \<mapsto> d)\<rparr>)"
| "io_result A n Recv_frame_nonblock st r st' \<longleftrightarrow>
     r = Qnil \<and> st' = st \<or> r = Frame n \<and> (\<exists>d. st' = st\<lparr>owned := (owned st)(n \<mapsto> d)\<rparr>)"
| "io_result A n Recv_message st r st' \<longleftrightarrow>
     r = Qnil \<and> st' = st \<or>
     r = Message n \<and> (\<exists>bs. st' = st\<lparr>contents := (contents st)(n \<mapsto> zip [Suc n..<Suc n + length bs] bs)\<rparr>)"
| "io_result A n _ st r st' \<longleftrightarrow> st' = st"

fun xresult :: "'w czmq \<Rightarrow> ptr \<Rightarrow> xcall \<Rightarrow> store \<Rightarrow> rvalue \<Rightarrow> store \<Rightarrow> bool" where
  "xresult A n (Store c) st r st' \<longleftrightarrow> effect n c st = Some (r, st')"
| "xresult A n (Io obj c) st r st' \<longleftrightarrow> io_result A n c st r st'"

definition does :: "'w czmq \<Rightarrow> 'w vm \<Rightarrow> xcall \<Rightarrow> bool" where
  "does A s c \<longleftrightarrow> refused A (xexec A c s) (abs_store A s) \<or>
     (\<exists>r st. steps_to A (xexec A c s) r st \<and> xresult A (fresh s) c (abs_store A s) r st)"

lemma doesI:
  "steps_to A (xexec A c s) r st \<Longrightarrow> xresult A (fresh s) c (abs_store A s) r st \<Longrightarrow> does A s c"
  by (auto simp: does_def)

lemma refused_flags:
  "flags_of A v = None \<Longrightarrow> fm_inv A s \<Longrightarrow> refused A (frame_flags A v k s) (abs_store A s)"
  using frame_flags_run(2) [of A v k s] by auto

lemma refused_fetch:
  assumes "fm_inv A s"
  shows "\<nexists>p. v = Frame p \<and> p \<noteq> NULL \<Longrightarrow> refused A (ZmqGetFrame v k s) (abs_store A s)"
    "\<nexists>m. v = Message m \<and> m \<noteq> NULL \<Longrightarrow> refused A (ZmqGetMessage v k s) (abs_store A s)"
  using assms by (cases v; auto simp: ZmqGetFrame_def ZmqGetMessage_def fetch_def)+

lemma send_frame_two:
  assumes doc: "exchange_doc A" and inv: "fm_inv A s" and here: "ready A s obj q w"
    and a: "\<And>p. a = Frame p \<Longrightarrow> p \<noteq> NULL \<Longrightarrow> frames s p \<noteq> None"
  shows "(\<exists>p b fl. a = Frame p \<and> owned (abs_store A s) p = Some b \<and> flags_of A v = Some fl \<and>
      steps_to A (rb_czmq_socket_send_frame A [a, v] obj s) Qtrue (if fl AND ZFRAME_REUSE A = 0
        then (abs_store A s)\<lparr>owned := (owned (abs_store A s))(p := None)\<rparr> else abs_store A s)) \<or>
    refused A (rb_czmq_socket_send_frame A [a, v] obj s) (abs_store A s)"
proof (cases "\<exists>p. a = Frame p \<and> p \<noteq> NULL")
  case True
  then obtain p f where p: "a = Frame p" "p \<noteq> NULL" "frames s p = Some f" using a by blast
  show ?thesis
  proof (cases "owned (abs_store A s) p")
    case None
    then obtain g where "frames s p = Some g" "f_flags g = 0" using unowned_frame [OF inv _ None] p(3) by blast
    then show ?thesis
      using p inv by (simp add: rb_czmq_socket_send_frame_def io_ready [OF here] ZmqAssertFrameOwnedNoMessage_def)
  next
    case (Some b)
    obtain g where g: "frame_at A s p g b" by (rule ownedE [OF inv Some])
    show ?thesis
    proof (cases "flags_of A v")
      case None
      then show ?thesis
        using refused_flags [OF None inv] frame_atD [OF g] p
        by (simp add: rb_czmq_socket_send_frame_def io_ready [OF here] ZmqAssertFrameOwnedNoMessage_def)
    next
      fix fl
      assume "flags_of A v = Some fl"
      then show ?thesis using send_frame_refines [OF doc inv here Some] p(1) Some by blast
    qed
  qed
next
  case False
  then show ?thesis
    using refused_fetch(1) [OF inv False] by (simp add: rb_czmq_socket_send_frame_def io_ready [OF here])
qed

lemma send_frame_args:
  assumes doc: "exchange_doc A" and inv: "fm_inv A s" and here: "ready A s obj q w" and args: "io_args s (Send_frame argv)"
    and argv: "argv = [a, v] \<or> argv = [a] \<and> v = Qnil"
  shows "does A s (Io obj (Send_frame argv))"
proof -
  have two: "(\<exists>p b fl. a = Frame p \<and> owned (abs_store A s) p = Some b \<and> flags_of A v = Some fl \<and>
      steps_to A (rb_czmq_socket_send_frame A [a, v] obj s) Qtrue (if fl AND ZFRAME_REUSE A = 0
        then (abs_store A s)\<lparr>owned := (owned (abs_store A s))(p := None)\<rparr> else abs_store A s)) \<or>
    refused A (rb_czmq_socket_send_frame A [a, v] obj s) (abs_store A s)"
    by (rule send_frame_two [OF doc inv here]) (use args argv in auto)
  have run: "rb_czmq_socket_send_frame A argv obj = rb_czmq_socket_send_frame A [a, v] obj"
    using argv by (auto simp: rb_czmq_socket_send_frame_def)
  show ?thesis
    using two
  proof (elim disjE exE conjE)
    fix p b fl
    assume p: "a = Frame p" "owned (abs_store A s) p = Some b" "flags_of A v = Some fl"
      and st: "steps_to A (rb_czmq_socket_send_frame A [a, v] obj s) Qtrue (if fl AND ZFRAME_REUSE A = 0
        then (abs_store A s)\<lparr>owned := (owned (abs_store A s))(p := None)\<rparr> else abs_store A s)"
        (is "steps_to A _ Qtrue ?st")
    have "io_result A (fresh s) (Send_frame argv) (abs_store A s) Qtrue ?st"
      using p argv unfolding io_result.simps by blast
    then show ?thesis
      using st run by (intro doesI [of A _ s Qtrue ?st]) (simp_all only: xexec.simps run_io.simps xresult.simps)
  qed (simp add: does_def run)
qed

lemma send_frame_any:
  assumes doc: "exchange_doc A" and inv: "fm_inv A s" and here: "ready A s obj q w" and args: "io_args s (Send_frame argv)"
  shows "does A s (Io obj (Send_frame argv))"
proof (cases "\<exists>a v. argv = [a, v] \<or> argv = [a] \<and> v = Qnil")
  case True
  then show ?thesis using send_frame_args [OF assms] by blast
next
  case False
  then have "rb_scan_args_11 argv k s = Raise (ArgError ''wrong number of arguments'') s" for k :: "_ \<Rightarrow> _ \<Rightarrow> ('a, rvalue) vcmd"
    by (auto simp: rb_scan_args_11_def split: list.split)
  then show ?thesis using inv by (simp add: does_def rb_czmq_socket_send_frame_def io_ready [OF here])
qed

lemma does_kept:
  assumes inv: "fm_inv A s" and "wp (run_io A obj c) (\<lambda>_. view_kept A s) (\<lambda>_. view_kept A s) s"
    and "\<And>r. io_result A (fresh s) c (abs_store A s) r (abs_store A s)"
  shows "does A s (Io obj c)"
  using assms(2) unfolding wp_outcome
proof (elim disjE exE conjE)
  fix v t assume "run_io A obj c s = Return v t" "view_kept A s t"
  then show ?thesis using view_kept_store [of A s t] inv assms(3) by (auto simp: does_def)
next
  fix e t assume "run_io A obj c s = Raise e t" "view_kept A s t"
  then show ?thesis using view_kept_store [of A s t] inv by (auto simp: does_def)
qed

lemma send_message_any:
  assumes doc: "exchange_doc A" and inv: "fm_inv A s" and here: "ready A s obj q w" and args: "io_args s (Send_message v)"
  shows "does A s (Io obj (Send_message v))"
proof (cases "\<exists>m. v = Message m \<and> m \<noteq> NULL")
  case True
  then obtain m where m: "v = Message m" "m \<noteq> NULL" by blast
  then have ms: "msgs s m \<noteq> None" using args by simp
  show ?thesis
  proof (cases "contents (abs_store A s) m")
    case None
    obtain u where "msgs s m = Some u" "m_flags u = 0" by (rule gone_message [OF inv ms None])
    then show ?thesis using m inv
      by (simp add: does_def rb_czmq_socket_send_message_def io_ready [OF here])
  next
    case (Some xs)
    then show ?thesis using send_message_refines [OF doc inv here Some] m by (auto simp: does_def)
  qed
next
  case False
  then show ?thesis using refused_fetch(2) [OF inv False]
    by (simp add: does_def rb_czmq_socket_send_message_def io_ready [OF here])
qed

text \<open>Every allocated frame object can be asked for its bytes.\<close>

lemma string_arg_inv:
  assumes inv: "fm_inv A s" and v: "\<forall>p. v = Frame p \<longrightarrow> p \<noteq> NULL \<longrightarrow> frames s p \<noteq> None"
  shows "string_arg A s v"
  unfolding string_arg_def
proof (intro allI impI)
  fix p assume p: "v = Frame p" "p \<noteq> NULL"
  then obtain f where f: "frames s p = Some f" using v by auto
  show "frame_body A s v \<noteq> None \<or> gone s p"
  proof (cases "accessible s p")
    case True
    then have "zframes (view A (lib s)) (czframe (frames s) p) \<noteq> None"
      unfolding readable_accessible [OF inv] by (rule readable_live [OF fm_invD [OF inv]])
    then have "zframes (view A (lib s)) (f_frame f) \<noteq> None" using f by (simp add: czframe_def)
    then show ?thesis using True p f by (auto simp: frame_body_def)
  next
    case False
    have "owned (abs_store A s) p = None"
    proof (rule ccontr)
      assume "owned (abs_store A s) p \<noteq> None"
      then show False using False f by (auto simp: abs_store_def owned_of_def accessible_def split: if_splits)
    qed
    then show ?thesis using False f unowned_frame [OF inv] by (metis option.distinct(1))
  qed
qed

lemma io_does:
  assumes doc: "exchange_doc A" and inv: "fm_inv A s" and s: "sound_value A s obj" and args: "io_args s c"
  shows "does A s (Io obj c)"
proof (cases "\<exists>q w. ready A s obj q w")
  case False
  obtain e t where r: "run_io A obj c s = Raise e t" "t \<in> {s, errno_reset A s}"
    using io_blocked [OF exchange_docD(2) [OF doc] s False] by blast
  have "view A (set_errno A 0 (lib s)) = view A (lib s)" by (rule zsock_docD(4) [OF exchange_docD(2) [OF doc]])
  then show ?thesis using r inv by (auto simp: does_def errno_reset_def)
next
  case True
  then obtain q w where here: "ready A s obj q w" by blast
  note kept = string_io_kept [OF exchange_docD(2) [OF doc] here]
  show ?thesis
  proof (cases c)
    case (Send_str v)
    then have "string_arg A s v" using string_arg_inv [OF inv] args by simp
    then show ?thesis using Send_str by (intro does_kept [OF inv kept]) auto
  next
    case (Sendm_str v)
    then have "string_arg A s v" using string_arg_inv [OF inv] args by simp
    then show ?thesis using Sendm_str by (intro does_kept [OF inv kept]) auto
  next
    case Recv_str
    then show ?thesis by (intro does_kept [OF inv kept [of _ Qnil]]) auto
  next
    case Recv_str_nonblock
    then show ?thesis by (intro does_kept [OF inv kept [of _ Qnil]]) auto
  next
    case (Send_frame argv)
    then show ?thesis using send_frame_any [OF doc inv here] args by simp
  next
    case Recv_frame
    then show ?thesis using recv_frame_refines(1) [OF doc inv here] by (auto simp: does_def)
  next
    case Recv_frame_nonblock
    then show ?thesis using recv_frame_refines(2) [OF doc inv here] by (auto simp: does_def)
  next
    case Recv_message
    then show ?thesis using recv_message_refines [OF doc inv here] by (fastforce simp: does_def simp del: upt_Suc)
  next
    case (Send_message v)
    then show ?thesis using send_message_any [OF doc inv here] args by simp
  qed
qed

lemma xexec_does:
  assumes doc: "exchange_doc A" and inv: "fm_inv A s" and v: "xvalid A s c"
  shows "does A s c"
proof (cases c)
  case (Store k)
  then show ?thesis
    using exec_effect [OF exchange_docD(1) [OF doc] inv, of k] valid_refused [OF exchange_docD(1) [OF doc] inv, of k] v
    by (cases "effect (fresh s) k (abs_store A s)") (auto simp: does_def split: if_splits)
next
  case (Io obj k)
  then show ?thesis using io_does [OF doc inv] v by simp
qed

lemma does_inv: "does A s c \<Longrightarrow> wp (xexec A c) (\<lambda>_. fm_inv A) (\<lambda>_. fm_inv A) s"
  by (auto simp: does_def steps_to_def refused_def wp_def)

text \<open>Calls on frames and messages and calls of sockets, in any order, as one machine.\<close>

interpretation exchange: machine "xexec A" "xvalid A" "fm_inv A" "exchange_doc A"
  by unfold_locales (rule does_inv [OF xexec_does])

section \<open>Properties\<close>

lemma ref_exchange_doc: "exchange_doc ref"
  by (simp add: exchange_doc_def ref_lib_doc ref_zsock ref_zsend ref_fields rnew_def rnew_msg_def)

lemma vm_sock_ready: "ready ref (vm_sock ZMQ_SOCKET_BOUND v) (Object rb_cZmqSubSocket 2) 2 (sample_sock ZMQ_SOCKET_BOUND v)"
  by (simp add: ready_def vm_sock_here has_def socket_state_defs)

lemma vm_sock_store: "fm_inv ref (vm_sock st v)"
  by (rule no_objects_inv) (simp add: no_objects_def vm_sock_def vm0_def)

text \<open>
  C15: a socket that is not ready refuses to send and to receive. Each of the nine methods, called on
  any value with any arguments, raises unless the value is an open socket of the current thread that
  is bound or connected; nothing is sent, received, allocated or destroyed, and at most the error
  number has been reset.
\<close>

theorem unready_socket_refuses:
  assumes "zsock_doc A" and "sound_value A s obj"
    and "\<nexists>q w. open_here A s obj q w \<and> has (s_state w) (ZMQ_SOCKET_BOUND OR ZMQ_SOCKET_CONNECTED)"
  shows "\<exists>e t. run_io A obj c s = Raise e t \<and> (t = s \<or> t = s\<lparr>lib := set_errno A 0 (lib s)\<rparr>)"
  using io_blocked [OF assms(1,2), of c] assms(3) by (simp add: ready_def errno_reset_def)

theorem unready_socket_refuses_witness:
  "\<exists>e t. rb_czmq_socket_recv_message ref (Object rb_cZmqSubSocket 2) (vm_sock ZMQ_SOCKET_DISCONNECTED True) = Raise e t"
proof -
  have "\<nexists>q w. open_here ref (vm_sock ZMQ_SOCKET_DISCONNECTED True) (Object rb_cZmqSubSocket 2) q w \<and>
      has (s_state w) (ZMQ_SOCKET_BOUND OR ZMQ_SOCKET_CONNECTED)"
    by (auto dest!: open_here_unique [OF vm_sock_here] simp: has_def socket_state_defs)
  from unready_socket_refuses [OF ref_zsock open_here_sound [OF vm_sock_here] this, of Recv_message]
  show ?thesis by auto
qed

text \<open>
  A null byte makes a verbose socket raise after the fact. When libzmq has taken the string of a
  \<^verbatim>\<open>send\<close>, the method returns true, except that a verbose socket raises an ArgError for a string with a
  null byte: the caller sees a failure of a message that went out. When libzmq has handed over a
  string to \<^verbatim>\<open>recv_nonblock\<close>, the method returns it, except that a verbose socket raises for a null byte and
  the received message is lost.
\<close>

lemma verbose_null_byte:
  assumes "zsock_doc A" and "ready A s obj q w"
    and "zmq_sendmsg A (s_socket w) cs 0 (set_errno A 0 (set_errno A 0 (lib s))) = (sent, w1)" and "sent \<noteq> -1"
    and "zmq_recvmsg A (s_socket w) (ZMQ_DONTWAIT A) (set_errno A 0 (lib s)) = ((got, cs), w2)" and "0 \<le> got"
    and "zmq_errno A w2 = 0"
  shows "rb_czmq_socket_send A obj (RString cs) s =
      (if s_verbose w \<and> NUL \<in> set cs then Raise (ArgError ''string contains null byte'') (s\<lparr>lib := w1\<rparr>)
       else Return Qtrue (s\<lparr>lib := w1\<rparr>)) \<and>
    rb_czmq_socket_recv_nonblock A obj s =
      (if s_verbose w \<and> NUL \<in> set cs then Raise (ArgError ''string contains null byte'') (s\<lparr>lib := w2\<rparr>)
       else Return (RString cs) (s\<lparr>lib := w2\<rparr>))"
  using send_run [OF assms(1-4)] recv_nonblock_run [OF assms(1,2,5-7)] by simp


definition no_send :: "rworld czmq" where
  "no_send = ref\<lparr>zmsg_send := \<lambda>m h w. (-1, w)\<rparr>"

lemma no_send_doc: "exchange_doc no_send"
proof -
  have v: "view no_send = view ref" by (simp add: no_send_def)
  have "zlist_doc no_send = zlist_doc ref" by (simp add: no_send_def zlist_doc_def del: rview_ref)
  moreover have "zframe_doc no_send = zframe_doc ref"
    by (simp add: no_send_def zframe_doc_def zframe_alloc_doc_def del: rview_ref cong: if_cong)
  moreover have "zmsg_doc no_send = zmsg_doc ref"
  proof -
    have k: "zmsg_mem_doc no_send = zmsg_mem_doc ref" "zmsg_put_doc no_send = zmsg_put_doc ref"
      "zmsg_alloc_doc no_send = zmsg_alloc_doc ref"
      by (simp_all add: fun_eq_iff zmsg_mem_doc_def zmsg_put_doc_def zmsg_alloc_doc_def v)
    have f: "zmsg_new no_send = zmsg_new ref" "zmsg_size no_send = zmsg_size ref"
      "zmsg_content_size no_send = zmsg_content_size ref" "zmsg_push no_send = zmsg_push ref" "zmsg_add no_send = zmsg_add ref"
      "zmsg_pop no_send = zmsg_pop ref" "zmsg_pushmem no_send = zmsg_pushmem ref" "zmsg_addmem no_send = zmsg_addmem ref"
      "zmsg_popstr no_send = zmsg_popstr ref" "zmsg_wrap no_send = zmsg_wrap ref" "zmsg_remove no_send = zmsg_remove ref"
      "zmsg_first no_send = zmsg_first ref" "zmsg_cursor no_send = zmsg_cursor ref" "zmsg_last no_send = zmsg_last ref"
      "zmsg_next no_send = zmsg_next ref" "zmsg_dup no_send = zmsg_dup ref" "zmsg_destroy no_send = zmsg_destroy ref"
      "zmsg_dump no_send = zmsg_dump ref" "zmsg_encode no_send = zmsg_encode ref" "zmsg_decode no_send = zmsg_decode ref"
      by (simp_all add: no_send_def)
    show ?thesis by (simp only: zmsg_doc_def k f v)
  qed
  ultimately have "lib_doc no_send" using ref_lib_doc by (simp add: lib_doc_def)
  moreover have "zsock_doc no_send = zsock_doc ref"
    by (simp add: no_send_def zsock_doc_def zctx_call_doc_def zsocket_call_doc_def del: rview_ref cong: if_cong)
  moreover have "zmsg_send_doc no_send w m fs (zmsg_send no_send m h w)" if "zmsgs (view no_send w) m = Some fs" for m fs h w
    unfolding zmsg_send_doc_def using that
    by (intro conjI exI [of _ "{}"] exI [of _ "Some fs"]) (simp_all add: no_send_def restrict_map_def fun_upd_idem)
  then have "zsend_doc no_send"
    using ref_zsend by (simp add: no_send_def zsend_doc_def zframe_send_doc_def zframe_alloc_doc_def
        zmsg_alloc_doc_def del: rview_ref cong: if_cong)
  moreover have "zframe_dup no_send = zframe_dup ref" "zmsg_dup no_send = zmsg_dup ref" by (simp_all add: no_send_def)
  ultimately show ?thesis using ref_exchange_doc by (simp add: exchange_doc_def)
qed




end
