(* ===== verification/Zmq_Connection.thy ===== *)
theory Zmq_Connection
  imports Zmq_Sockets Zmq_Sample
begin

text \<open>
  The connection state of a socket. What the four connection methods do to a socket is specified on
  its state and its list of endpoints alone; the code refines that specification, and over programs
  the state and the endpoints agree.
\<close>

declare socket_klass.simps [simp del]

section \<open>Specification\<close>

datatype conn_call = Bind rvalue | Connect rvalue | Disconnect rvalue | Unbind rvalue

record conn =
  conn_state :: flags
  conn_endpoints :: "rvalue list"

text \<open>
  After \<^verbatim>\<open>bind\<close> and \<^verbatim>\<open>connect\<close> the socket has the new state and the endpoint that libzmq reports last;
  after \<^verbatim>\<open>disconnect\<close> and \<^verbatim>\<open>unbind\<close> the endpoint given by the caller is forgotten, and without
  endpoints the socket is disconnected.
\<close>

definition joined :: "flags \<Rightarrow> string option \<Rightarrow> conn \<Rightarrow> conn" where
  "joined st endpoint C =
     \<lparr>conn_state = st,
      conn_endpoints = conn_endpoints C @ (case endpoint of None \<Rightarrow> [] | Some e \<Rightarrow> [RString (c_str e)])\<rparr>"

definition left :: "rvalue \<Rightarrow> conn \<Rightarrow> conn" where
  "left endpoint C =
     (let eps = removeAll endpoint (conn_endpoints C)
      in \<lparr>conn_state = (if eps = [] then ZMQ_SOCKET_DISCONNECTED else conn_state C), conn_endpoints = eps\<rparr>)"

text \<open>A method raises before it calls the library unless its argument is a string without null bytes.\<close>

definition with_endpoint :: "rvalue \<Rightarrow> (string \<Rightarrow> conn) \<Rightarrow> conn \<Rightarrow> conn" where
  "with_endpoint v f C = (case v of RString cs \<Rightarrow> if NUL \<in> set cs then C else f cs | _ \<Rightarrow> C)"

fun conn_effect :: "'w czmq \<Rightarrow> ptr \<Rightarrow> 'w \<Rightarrow> conn_call \<Rightarrow> conn \<Rightarrow> conn" where
  "conn_effect A h w (Bind v) C = with_endpoint v (\<lambda>cs.
     let (rc, w') = zsocket_bind A h cs (set_errno A 0 w)
     in if rc = -1 then C else joined ZMQ_SOCKET_BOUND (zsocket_last_endpoint A h w') C) C"
| "conn_effect A h w (Connect v) C = with_endpoint v (\<lambda>cs.
     let (rc, w') = zsocket_connect A h cs (set_errno A 0 w)
     in if rc = -1 then C else joined ZMQ_SOCKET_CONNECTED (zsocket_last_endpoint A h w') C) C"
| "conn_effect A h w (Disconnect v) C = with_endpoint v (\<lambda>cs.
     let (rc, w') = zsocket_disconnect A h cs (set_errno A 0 w)
     in if rc = -1 then C else left v C) C"
| "conn_effect A h w (Unbind v) C = with_endpoint v (\<lambda>cs.
     let (rc, w') = zsocket_unbind A h cs (set_errno A 0 w)
     in if rc = -1 then C else left v C) C"

fun run_conn :: "'w czmq \<Rightarrow> rvalue \<Rightarrow> conn_call \<Rightarrow> ('w, rvalue) vcmd" where
  "run_conn A obj (Bind v) = rb_czmq_socket_bind A obj v"
| "run_conn A obj (Connect v) = rb_czmq_socket_connect A obj v"
| "run_conn A obj (Disconnect v) = rb_czmq_socket_disconnect A obj v"
| "run_conn A obj (Unbind v) = rb_czmq_socket_unbind A obj v"

definition abs_conn :: "ptr \<Rightarrow> 'w vm \<Rightarrow> conn" where
  "abs_conn q s =
     (case socks s q of None \<Rightarrow> \<lparr>conn_state = 0, conn_endpoints = []\<rparr>
      | Some w \<Rightarrow> \<lparr>conn_state = s_state w, conn_endpoints = ary s (s_endpoints w)\<rparr>)"

text \<open>The socket stays usable, with the same handle and the same array of endpoints.\<close>

definition conn_inv :: "'w czmq \<Rightarrow> rvalue \<Rightarrow> ptr \<Rightarrow> ptr \<Rightarrow> 'w vm \<Rightarrow> bool" where
  "conn_inv A obj q h s \<longleftrightarrow>
     (\<exists>w p. open_here A s obj q w \<and> s_socket w = h \<and> s_endpoints w = Object rb_cArray p)"

section \<open>The methods refine it\<close>

lemma wp_guards_here:
  assumes "open_here A s obj q w"
  shows "wp (GetZmqSocket obj (\<lambda>q. ZmqSockGuardCrossThread q (k q))) Q E s = wp (k q) Q E s"
  by (simp add: wp_def guards_here [OF assms])

text \<open>Changing the connection state and the arrays keeps the socket usable.\<close>

lemma conn_inv_upd:
  assumes "open_here A s obj q w" and "s_endpoints w = Object rb_cArray p" and "u = w\<lparr>s_state := st\<rparr>"
  shows "conn_inv A obj q (s_socket w) (s\<lparr>socks := (socks s)(q \<mapsto> u)\<rparr>)"
    "conn_inv A obj q (s_socket w) (s\<lparr>arrays := a\<rparr>)"
    "conn_inv A obj q (s_socket w) (s\<lparr>socks := (socks s)(q \<mapsto> u), arrays := a\<rparr>)"
    "conn_inv A obj q (s_socket w) (s\<lparr>arrays := a, socks := (socks s)(q \<mapsto> u)\<rparr>)"
proof -
  note at = open_hereD(1) [OF assms(1)]
  have "open_here A (s\<lparr>socks := (socks s)(q \<mapsto> u)\<rparr>) obj q u" "open_here A (s\<lparr>arrays := a\<rparr>) obj q w"
    "open_here A (s\<lparr>socks := (socks s)(q \<mapsto> u), arrays := a\<rparr>) obj q u"
    "open_here A (s\<lparr>arrays := a, socks := (socks s)(q \<mapsto> u)\<rparr>) obj q u"
    by (rule open_here_cong [OF assms(1)]; simp add: assms(3) at)+
  then show "conn_inv A obj q (s_socket w) (s\<lparr>socks := (socks s)(q \<mapsto> u)\<rparr>)"
    "conn_inv A obj q (s_socket w) (s\<lparr>arrays := a\<rparr>)"
    "conn_inv A obj q (s_socket w) (s\<lparr>socks := (socks s)(q \<mapsto> u), arrays := a\<rparr>)"
    "conn_inv A obj q (s_socket w) (s\<lparr>arrays := a, socks := (socks s)(q \<mapsto> u)\<rparr>)"
    unfolding conn_inv_def using assms(2,3) by fastforce+
qed

text \<open>What is to be shown of a method: it ends, and does what the specification says.\<close>

definition conn_to :: "'w czmq \<Rightarrow> rvalue \<Rightarrow> ptr \<Rightarrow> ptr \<Rightarrow> conn \<Rightarrow> 'w vm \<Rightarrow> bool" where
  "conn_to A obj q h C t \<longleftrightarrow> conn_inv A obj q h t \<and> abs_conn q t = C"

lemma record_endpoint_to:
  assumes "open_here A s obj q w" and "s_endpoints w = Object rb_cArray p"
    and C: "C = joined st (zsocket_last_endpoint A (s_socket w) (lib s)) (abs_conn q s)"
  shows "wp (record_endpoint A q st (ret v)) (\<lambda>_. conn_to A obj q (s_socket w) C)
     (\<lambda>_. conn_to A obj q (s_socket w) C) s"
  using open_hereD(1,4) [OF assms(1)] conn_inv_upd [OF assms(1,2) refl] assms(2)
  by (cases "zsocket_last_endpoint A (s_socket w) (lib s)")
    (simp_all add: wp_def record_endpoint_def live_sock_run verbose_log_run rb_str_new_cstr_def C joined_def
      conn_to_def abs_conn_def ary_def split: option.split)

lemma forget_endpoint_to:
  assumes "open_here A s obj q w" and "s_endpoints w = Object rb_cArray p" and C: "C = left v (abs_conn q s)"
  shows "wp (forget_endpoint A q v) (\<lambda>_. conn_to A obj q (s_socket w) C)
     (\<lambda>_. conn_to A obj q (s_socket w) C) s"
  using open_hereD(1,4) [OF assms(1)] conn_inv_upd [OF assms(1,2) refl] assms(2)
  by (simp add: wp_def forget_endpoint_def verbose_log_run C left_def conn_to_def abs_conn_def ary_def Let_def
      split: option.split)

lemma ary_lib [simp]: "ary (s\<lparr>lib := w'\<rparr>) v = ary s v"
  by (cases v) (simp_all add: ary_def split: klass.split)

text \<open>The state after the call of the library, in which the tail runs.\<close>

lemma after_call:
  assumes "open_here A s obj q w" and "view A w' = view A (lib s)"
  shows "open_here A (s\<lparr>lib := w'\<rparr>) obj q w" "abs_conn q (s\<lparr>lib := w'\<rparr>) = abs_conn q s"
  by (rule open_here_cong [OF assms(1)])
    (simp_all add: assms(2) open_hereD [OF assms(1)] abs_conn_def split: option.split)

lemma same_conn:
  assumes "open_here A s obj q w" and "s_endpoints w = Object rb_cArray p" and "view A w' = view A (lib s)"
  shows "conn_to A obj q (s_socket w) (abs_conn q s) (s\<lparr>lib := w'\<rparr>)"
  using after_call [OF assms(1,3)] assms(2) unfolding conn_to_def conn_inv_def by blast

text \<open>The common part of the four methods: the guards, the check of the argument, the call.\<close>

lemma endpoint_method_to:
  fixes g :: "ptr \<Rightarrow> string \<Rightarrow> 'w \<Rightarrow> int \<times> 'w"
  assumes doc: "zsock_doc A" and here: "open_here A s obj q w" and eps: "s_endpoints w = Object rb_cArray p"
    and keeps: "\<And>c t w cs. zsocks (view A w) h = Some (c, t) \<Longrightarrow> view A (snd (g h cs w)) = view A w"
    and h: "h = s_socket w" and C: "C = with_endpoint v F (abs_conn q s)"
    and nogvl: "\<And>cs. f q cs = tell (set_errno A 0) (deref socks q (\<lambda>w. live_sock A (s_socket w) (invoke (g (s_socket w) cs) ret)))"
    and tail: "\<And>cs rc w'. v = RString cs \<Longrightarrow> NUL \<notin> set cs \<Longrightarrow> g h cs (set_errno A 0 (lib s)) = (rc, w') \<Longrightarrow>
      view A w' = view A (lib s) \<Longrightarrow> wp (k q rc) (\<lambda>_. conn_to A obj q h (F cs)) (\<lambda>_. conn_to A obj q h (F cs)) (s\<lparr>lib := w'\<rparr>)"
  shows "wp (GetZmqSocket obj (\<lambda>sock. ZmqSockGuardCrossThread sock (Check_String v (\<lambda>cs. StringValueCStr cs (\<lambda>cs.
      call (f sock cs) (k sock)))))) (\<lambda>_. conn_to A obj q h C) (\<lambda>_. conn_to A obj q h C) s"
proof (cases "\<exists>cs. v = RString cs \<and> NUL \<notin> set cs")
  case True
  then obtain cs where v: "v = RString cs" "NUL \<notin> set cs" by blast
  let ?w = "set_errno A 0 (lib s)"
  have v0: "view A ?w = view A (lib s)" by (rule zsock_docD(4) [OF doc])
  obtain d t where z: "zsocks (view A ?w) h = Some (d, t)" using open_hereD(4) [OF here] v0 h by auto
  obtain rc w' where r: "g h cs ?w = (rc, w')" by fastforce
  have v': "view A w' = view A (lib s)" using keeps [OF z, of cs] r v0 by simp
  show ?thesis
    using tail [OF v r v'] v r z h C open_hereD(1) [OF here]
    by (simp add: wp_guards_here [OF here] wp_simps nogvl with_endpoint_def)
next
  case False
  have "conn_to A obj q h (abs_conn q s) s" using same_conn [OF here eps, of "lib s"] h by simp
  then show ?thesis
    using False C by (cases v) (auto simp: wp_guards_here [OF here] wp_simps with_endpoint_def simp del: StringValueCStr_run)
qed

lemma assert_to:
  assumes "open_here A s obj q w" and "s_endpoints w = Object rb_cArray p" and "view A w' = view A (lib s)"
    and "rc = -1 \<Longrightarrow> C = abs_conn q s"
    and "rc \<noteq> -1 \<Longrightarrow> wp k (\<lambda>_. conn_to A obj q (s_socket w) C) (\<lambda>_. conn_to A obj q (s_socket w) C) (s\<lparr>lib := w'\<rparr>)"
  shows "wp (ZmqAssert A rc k) (\<lambda>_. conn_to A obj q (s_socket w) C) (\<lambda>_. conn_to A obj q (s_socket w) C) (s\<lparr>lib := w'\<rparr>)"
  by (rule wp_ZmqAssert) (use assms(4,5) same_conn [OF assms(1-3)] in auto)

text \<open>The four methods; what differs is the call and what is done after it.\<close>

lemma bind_to:
  assumes doc: "zsock_doc A" and here: "open_here A s obj q w" and eps: "s_endpoints w = Object rb_cArray p"
    and C: "C = conn_effect A (s_socket w) (lib s) (Bind v) (abs_conn q s)"
  shows "wp (run_conn A obj (Bind v)) (\<lambda>_. conn_to A obj q (s_socket w) C) (\<lambda>_. conn_to A obj q (s_socket w) C) s"
  unfolding run_conn.simps rb_czmq_socket_bind_def
proof (rule endpoint_method_to [where g = "zsocket_bind A" and f = "rb_czmq_nogvl_socket_bind A",
      OF doc here eps zsocket_liveD(3) [OF doc] refl], assumption,
      rule C [unfolded conn_effect.simps], rule rb_czmq_nogvl_socket_bind_def)
  fix cs rc w'
  assume a: "zsocket_bind A (s_socket w) cs (set_errno A 0 (lib s)) = (rc, w')" "view A w' = view A (lib s)"
  note after = after_call [OF here a(2)]
  let ?C = "let (rc, w') = zsocket_bind A (s_socket w) cs (set_errno A 0 (lib s))
    in if rc = -1 then abs_conn q s
       else joined ZMQ_SOCKET_BOUND (zsocket_last_endpoint A (s_socket w) w') (abs_conn q s)"
  have k: "wp (record_endpoint A q ZMQ_SOCKET_BOUND (ret (INT2NUM rc))) (\<lambda>_. conn_to A obj q (s_socket w) ?C)
      (\<lambda>_. conn_to A obj q (s_socket w) ?C) (s\<lparr>lib := w'\<rparr>)" if "rc \<noteq> -1"
    by (rule record_endpoint_to [OF after(1) eps]) (simp add: a(1) that after(2))
  show "wp (let rest = record_endpoint A q ZMQ_SOCKET_BOUND (ret (INT2NUM rc))
      in if rc < 0 then ZmqAssert A rc rest else rest) (\<lambda>_. conn_to A obj q (s_socket w) ?C)
      (\<lambda>_. conn_to A obj q (s_socket w) ?C) (s\<lparr>lib := w'\<rparr>)"
    using assert_to [OF here eps a(2) _ k] k a(1) by (cases "rc < 0") (auto simp: Let_def)
qed

lemma connect_to:
  assumes doc: "zsock_doc A" and here: "open_here A s obj q w" and eps: "s_endpoints w = Object rb_cArray p"
    and C: "C = conn_effect A (s_socket w) (lib s) (Connect v) (abs_conn q s)"
  shows "wp (run_conn A obj (Connect v)) (\<lambda>_. conn_to A obj q (s_socket w) C) (\<lambda>_. conn_to A obj q (s_socket w) C) s"
  unfolding run_conn.simps rb_czmq_socket_connect_def
proof (rule endpoint_method_to [where g = "zsocket_connect A" and f = "rb_czmq_nogvl_socket_connect A",
      OF doc here eps zsocket_liveD(4) [OF doc] refl], assumption,
      rule C [unfolded conn_effect.simps], rule rb_czmq_nogvl_socket_connect_def, rule assert_to [OF here eps])
  fix cs rc w'
  assume a: "zsocket_connect A (s_socket w) cs (set_errno A 0 (lib s)) = (rc, w')" "view A w' = view A (lib s)" "rc \<noteq> -1"
  note after = after_call [OF here a(2)]
  let ?C = "let (rc, w') = zsocket_connect A (s_socket w) cs (set_errno A 0 (lib s))
    in if rc = -1 then abs_conn q s
       else joined ZMQ_SOCKET_CONNECTED (zsocket_last_endpoint A (s_socket w) w') (abs_conn q s)"
  show "wp (record_endpoint A q ZMQ_SOCKET_CONNECTED (ret Qtrue)) (\<lambda>_. conn_to A obj q (s_socket w) ?C)
      (\<lambda>_. conn_to A obj q (s_socket w) ?C) (s\<lparr>lib := w'\<rparr>)"
    by (rule record_endpoint_to [OF after(1) eps]) (simp add: a after(2))
qed simp_all

lemma disconnect_to:
  assumes doc: "zsock_doc A" and here: "open_here A s obj q w" and eps: "s_endpoints w = Object rb_cArray p"
    and C: "C = conn_effect A (s_socket w) (lib s) (Disconnect v) (abs_conn q s)"
  shows "wp (run_conn A obj (Disconnect v)) (\<lambda>_. conn_to A obj q (s_socket w) C) (\<lambda>_. conn_to A obj q (s_socket w) C) s"
  unfolding run_conn.simps rb_czmq_socket_disconnect_def
proof (rule endpoint_method_to [where g = "zsocket_disconnect A" and f = "rb_czmq_nogvl_socket_disconnect A",
      OF doc here eps zsocket_liveD(5) [OF doc] refl], assumption,
      rule C [unfolded conn_effect.simps], rule rb_czmq_nogvl_socket_disconnect_def, rule assert_to [OF here eps])
  fix cs rc w'
  assume a: "zsocket_disconnect A (s_socket w) cs (set_errno A 0 (lib s)) = (rc, w')" "view A w' = view A (lib s)" "rc \<noteq> -1"
  note after = after_call [OF here a(2)]
  let ?C = "let (rc, w') = zsocket_disconnect A (s_socket w) cs (set_errno A 0 (lib s))
    in if rc = -1 then abs_conn q s else left v (abs_conn q s)"
  show "wp (forget_endpoint A q v) (\<lambda>_. conn_to A obj q (s_socket w) ?C)
      (\<lambda>_. conn_to A obj q (s_socket w) ?C) (s\<lparr>lib := w'\<rparr>)"
    by (rule forget_endpoint_to [OF after(1) eps]) (simp add: a after(2))
qed simp_all

lemma unbind_to:
  assumes doc: "zsock_doc A" and here: "open_here A s obj q w" and eps: "s_endpoints w = Object rb_cArray p"
    and C: "C = conn_effect A (s_socket w) (lib s) (Unbind v) (abs_conn q s)"
  shows "wp (run_conn A obj (Unbind v)) (\<lambda>_. conn_to A obj q (s_socket w) C) (\<lambda>_. conn_to A obj q (s_socket w) C) s"
  unfolding run_conn.simps rb_czmq_socket_unbind_def
proof (rule endpoint_method_to [where g = "zsocket_unbind A" and f = "rb_czmq_nogvl_socket_unbind A",
      OF doc here eps zsocket_liveD(6) [OF doc] refl], assumption,
      rule C [unfolded conn_effect.simps], rule rb_czmq_nogvl_socket_unbind_def, rule assert_to [OF here eps])
  fix cs rc w'
  assume a: "zsocket_unbind A (s_socket w) cs (set_errno A 0 (lib s)) = (rc, w')" "view A w' = view A (lib s)" "rc \<noteq> -1"
  note after = after_call [OF here a(2)]
  let ?C = "let (rc, w') = zsocket_unbind A (s_socket w) cs (set_errno A 0 (lib s))
    in if rc = -1 then abs_conn q s else left v (abs_conn q s)"
  show "wp (forget_endpoint A q v) (\<lambda>_. conn_to A obj q (s_socket w) ?C)
      (\<lambda>_. conn_to A obj q (s_socket w) ?C) (s\<lparr>lib := w'\<rparr>)"
    by (rule forget_endpoint_to [OF after(1) eps]) (simp add: a after(2))
qed simp_all

lemma run_conn_to:
  assumes "zsock_doc A" and "open_here A s obj q w" and "s_endpoints w = Object rb_cArray p"
    and "C = conn_effect A (s_socket w) (lib s) c (abs_conn q s)"
  shows "wp (run_conn A obj c) (\<lambda>_. conn_to A obj q (s_socket w) C) (\<lambda>_. conn_to A obj q (s_socket w) C) s"
  using bind_to [OF assms(1-3)] connect_to [OF assms(1-3)] disconnect_to [OF assms(1-3)] unbind_to [OF assms(1-3)] assms(4)
  by (cases c) simp_all

lemma conn_step:
  assumes "zsock_doc A" and "conn_inv A obj q h s"
  shows "wp (run_conn A obj c) (\<lambda>_. conn_to A obj q h (conn_effect A h (lib s) c (abs_conn q s)))
    (\<lambda>_. conn_to A obj q h (conn_effect A h (lib s) c (abs_conn q s))) s"
  using assms(2) run_conn_to [OF assms(1)] unfolding conn_inv_def by blast

text \<open>The methods of a socket as a machine that refines the specification.\<close>

interpretation conn: refined_machine "run_conn A obj" "\<lambda>s c. True" "conn_inv A obj q h" "zsock_doc A"
    "abs_conn q" "\<lambda>s. conn_effect A h (lib s)" for A obj q h
proof
  show "wp (run_conn A obj c) (\<lambda>_. conn_inv A obj q h) (\<lambda>_. conn_inv A obj q h) s"
    if "zsock_doc A" "conn_inv A obj q h s" for s c
    by (rule wp_conseq [OF conn_step [OF that]]) (simp_all add: conn_to_def)
  show "abs_conn q t = conn_effect A h (lib s) c (abs_conn q s)"
    if "zsock_doc A" "conn_inv A obj q h s" "final_state (run_conn A obj c s) = Some t" for s c t
    using wp_final [OF conn_step [OF that(1,2)] that(3)] by (simp add: conn_to_def)
qed

abbreviation conn_reach :: "'w czmq \<Rightarrow> rvalue \<Rightarrow> 'w vm \<Rightarrow> 'w vm \<Rightarrow> bool" where
  "conn_reach A obj \<equiv> runs (run_conn A obj) (\<lambda>s c. True)"

section \<open>State and endpoints agree\<close>

definition agreeing :: "conn \<Rightarrow> bool" where
  "agreeing C \<longleftrightarrow>
     (conn_state C \<in> {ZMQ_SOCKET_BOUND, ZMQ_SOCKET_CONNECTED} \<and> conn_endpoints C \<noteq> [] \<or>
      conn_state C \<in> {ZMQ_SOCKET_PENDING, ZMQ_SOCKET_DISCONNECTED} \<and> conn_endpoints C = [])"

lemma agreeing_active:
  "agreeing C \<Longrightarrow> has (conn_state C) (ZMQ_SOCKET_BOUND OR ZMQ_SOCKET_CONNECTED) \<longleftrightarrow> conn_endpoints C \<noteq> []"
  by (auto simp: agreeing_def has_def socket_state_defs)

lemma agreeing_joined:
  "agreeing C \<Longrightarrow> st \<in> {ZMQ_SOCKET_BOUND, ZMQ_SOCKET_CONNECTED} \<Longrightarrow> e \<noteq> None \<Longrightarrow> agreeing (joined st e C)"
  by (auto simp: agreeing_def joined_def)

lemma removeAll_nonempty: "removeAll x xs \<noteq> [] \<Longrightarrow> xs \<noteq> []"
  by auto

lemma agreeing_left: "agreeing C \<Longrightarrow> agreeing (left v C)"
  using removeAll_nonempty [of v "conn_endpoints C"] by (auto simp: agreeing_def left_def Let_def)

lemma agreeing_with: "agreeing C \<Longrightarrow> (\<And>cs. agreeing (f cs)) \<Longrightarrow> agreeing (with_endpoint v f C)"
  by (auto simp: with_endpoint_def split: rvalue.split)

text \<open>libzmq reports an endpoint of every socket it has bound or connected.\<close>

definition reports_endpoint :: "'w czmq \<Rightarrow> bool" where
  "reports_endpoint A \<longleftrightarrow>
     (\<forall>h ep w. fst (zsocket_bind A h ep w) \<noteq> -1 \<longrightarrow> zsocket_last_endpoint A h (snd (zsocket_bind A h ep w)) \<noteq> None) \<and>
     (\<forall>h ep w. fst (zsocket_connect A h ep w) \<noteq> -1 \<longrightarrow> zsocket_last_endpoint A h (snd (zsocket_connect A h ep w)) \<noteq> None)"

lemma reports_endpointD:
  "reports_endpoint A \<Longrightarrow> zsocket_bind A h ep w = (rc, w') \<Longrightarrow> rc \<noteq> -1 \<Longrightarrow> zsocket_last_endpoint A h w' \<noteq> None"
  "reports_endpoint A \<Longrightarrow> zsocket_connect A h ep w = (rc, w') \<Longrightarrow> rc \<noteq> -1 \<Longrightarrow> zsocket_last_endpoint A h w' \<noteq> None"
  unfolding reports_endpoint_def by (metis fst_conv snd_conv)+

lemma agreeing_effect: "reports_endpoint A \<Longrightarrow> agreeing C \<Longrightarrow> agreeing (conn_effect A h w c C)"
  by (cases c) (auto intro!: agreeing_with agreeing_left agreeing_joined dest: reports_endpointD simp del: not_None_eq
      split: prod.split)

lemma agreeing_runs:
  assumes "zsock_doc A" and "reports_endpoint A" and "conn_inv A obj q h s" and "agreeing (abs_conn q s)"
    and "conn_reach A obj s t"
  shows "agreeing (abs_conn q t)"
  using assms(5)
proof induction
  case (step t c u)
  then show ?case
    using conn.refines [OF assms(1) conn.runs_inv [OF step.hyps(1) assms(1,3)] TrueI step.hyps(3)]
      agreeing_effect [OF assms(2) step.IH] by simp
qed (rule assms(4))

section \<open>Properties\<close>

text \<open>
  C7: binding, connecting, disconnecting and unbinding refine their specification. In every program
  of such calls on a usable socket, with any arguments and whatever libzmq answers, the next call
  ends without a fault, and the state and the endpoints it leaves are those that the specification
  computes from the state and the endpoints before, the answer of libzmq and the endpoint it
  reports: a refused argument or a return code of -1 changes nothing; success records the reported
  endpoint, or forgets the given one and disconnects when none is left.
\<close>

theorem connections_refine:
  assumes "zsock_doc A" and "open_here A s obj q w" and "s_endpoints w = Object rb_cArray p"
    and "conn_reach A obj s t"
  shows "\<exists>u. final_state (run_conn A obj c t) = Some u \<and>
    abs_conn q u = conn_effect A (s_socket w) (lib t) c (abs_conn q t)"
proof -
  have "conn_inv A obj q (s_socket w) s" using assms(2,3) unfolding conn_inv_def by blast
  then show ?thesis by (rule conn.runs_refine [OF assms(4,1) _ TrueI])
qed

theorem connections_refine_witness:
  "\<exists>u. final_state (rb_czmq_socket_bind ref (Object rb_cZmqSubSocket 2) (RString ''tcp://127.0.0.1:*'') (vm_sock 1 True)) = Some u \<and>
     abs_conn 2 u = \<lparr>conn_state = ZMQ_SOCKET_BOUND, conn_endpoints = [RString ''tcp://127.0.0.1:5555'']\<rparr>"
proof -
  have a: "abs_conn 2 (vm_sock 1 True) = \<lparr>conn_state = 1, conn_endpoints = []\<rparr>" by (simp add: abs_conn_def)
  show ?thesis
    using connections_refine [OF ref_zsock vm_sock_here [of 1 True] sample_sock_sel(9) runs.start,
        of "Bind (RString ''tcp://127.0.0.1:*'')"]
    by (simp add: a joined_def with_endpoint_def ref_fields)
qed

text \<open>
  C9: an open socket is bound or connected exactly when it has an endpoint. In every program of
  connection calls on a socket that started without endpoints, when libzmq reports an endpoint after
  each successful bind or connect, the state of the socket is one of the four states of the header,
  it is bound or connected if and only if the list of endpoints is not empty, and with an empty list
  \<^verbatim>\<open>send\<close> and \<^verbatim>\<open>recv\<close> raise without calling libzmq.
\<close>

theorem bound_iff_endpoint:
  assumes "zsock_doc A" and "reports_endpoint A" and "open_here A s obj q w"
    and "s_endpoints w = Object rb_cArray p" and "s_state w = ZMQ_SOCKET_PENDING" and "arrays s p = Some []"
    and "conn_reach A obj s t"
  shows "conn_state (abs_conn q t) \<in>
      {ZMQ_SOCKET_PENDING, ZMQ_SOCKET_BOUND, ZMQ_SOCKET_CONNECTED, ZMQ_SOCKET_DISCONNECTED} \<and>
    (has (conn_state (abs_conn q t)) (ZMQ_SOCKET_BOUND OR ZMQ_SOCKET_CONNECTED) \<longleftrightarrow>
       conn_endpoints (abs_conn q t) \<noteq> []) \<and>
    (conn_endpoints (abs_conn q t) = [] \<longrightarrow>
       rb_czmq_socket_send A obj msg t = Raise (ZmqError ''can only send on a bound or connected socket!'') t \<and>
       rb_czmq_socket_recv A obj t = Raise (ZmqError ''can only receive on a bound or connected socket!'') t)"
proof -
  have inv: "conn_inv A obj q (s_socket w) s" using assms(3,4) unfolding conn_inv_def by blast
  have "agreeing (abs_conn q s)"
    using open_hereD(1) [OF assms(3)] assms(4-6) by (simp add: abs_conn_def agreeing_def)
  then have a: "agreeing (abs_conn q t)" by (rule agreeing_runs [OF assms(1,2) inv _ assms(7)])
  obtain u where u: "open_here A t obj q u"
    using conn.runs_inv [OF assms(7,1) inv] unfolding conn_inv_def by blast
  have "has (s_state u) (ZMQ_SOCKET_BOUND OR ZMQ_SOCKET_CONNECTED) \<longleftrightarrow> conn_endpoints (abs_conn q t) \<noteq> []"
    using agreeing_active [OF a] open_hereD(1) [OF u] by (simp add: abs_conn_def)
  then show ?thesis
    using a open_hereD(1) [OF u] agreeing_active [OF a]
    by (auto simp: agreeing_def rb_czmq_socket_send_def rb_czmq_socket_recv_def GetZmqSocket_here [OF u])
qed

lemma ref_reports_endpoint: "reports_endpoint ref"
  by (simp add: reports_endpoint_def ref_fields)

theorem bound_iff_endpoint_witness:
  "rb_czmq_socket_send ref (Object rb_cZmqSubSocket 2) (RString ''hi'') (vm_sock ZMQ_SOCKET_PENDING True) =
     Raise (ZmqError ''can only send on a bound or connected socket!'') (vm_sock ZMQ_SOCKET_PENDING True)"
  using bound_iff_endpoint [OF ref_zsock ref_reports_endpoint vm_sock_here [of ZMQ_SOCKET_PENDING True]
      sample_sock_sel(9) _ _ runs.start, of "RString ''hi''"]
  by (simp add: abs_conn_def)

end
