(* ===== verification/Zmq_Options.thy ===== *)
theory Zmq_Options
  imports Zmq_Socket
begin

text \<open>
  The option accessors of socket.c. A setter is one of the three macros of socket.h applied to a
  function of libczmq; the functions of one family are the fields \<open>zsocket_opt\<close>, \<open>zsocket_set_opt\<close> and
  \<open>zsocket_set_str\<close> of the library, by the name of the option.
\<close>

section \<open>The macros of socket.h\<close>

definition ZmqAssertSockOptFor :: "'w czmq \<Rightarrow> ptr \<Rightarrow> socktype \<Rightarrow> ('w, 'a) vcmd \<Rightarrow> ('w, 'a) vcmd" where
  "ZmqAssertSockOptFor A sock sock_type k =
     deref socks sock (\<lambda>w.
     live_sock A (s_socket w) (
     ask (zsocket_type A (s_socket w)) (\<lambda>type.
     check (type = socktype A sock_type) (ZmqError ''Socket option not supported on this socket!'') k)))"

definition CheckBoolean :: "rvalue \<Rightarrow> ('s, 'a) cmd \<Rightarrow> ('s, 'a) cmd" where
  "CheckBoolean arg k =
     check (arg = Qtrue \<or> arg = Qfalse) (TypeError ''wrong argument (expected true or false)'') k"

definition ZmqSetSockOpt :: "'w czmq \<Rightarrow> rvalue \<Rightarrow> string \<Rightarrow> rvalue \<Rightarrow> ('w, rvalue) vcmd" where
  "ZmqSetSockOpt A obj opt value =
     GetZmqSocket obj (\<lambda>sock.
     ZmqSockGuardCrossThread sock (
     Check_Fixnum value (\<lambda>n.
     FIX2INT n (\<lambda>val.
     deref socks sock (\<lambda>w.
     live_sock A (s_socket w) (
     tell (zsocket_set_opt A opt (s_socket w) val) (
     verbose_log A sock (
     ret Qnil))))))))"

definition ZmqSetStringSockOpt ::
  "'w czmq \<Rightarrow> rvalue \<Rightarrow> string \<Rightarrow> rvalue \<Rightarrow> (ptr \<Rightarrow> ('w, rvalue) vcmd \<Rightarrow> ('w, rvalue) vcmd) \<Rightarrow> ('w, rvalue) vcmd" where
  "ZmqSetStringSockOpt A obj opt value assertion =
     GetZmqSocket obj (\<lambda>sock.
     ZmqSockGuardCrossThread sock (
     Check_String value (\<lambda>cs.
     assertion sock (
     StringValueCStr cs (\<lambda>val.
     deref socks sock (\<lambda>w.
     live_sock A (s_socket w) (
     tell (zsocket_set_str A opt (s_socket w) val) (
     verbose_log A sock (
     ret Qnil)))))))))"

definition ZmqSetBooleanSockOpt :: "'w czmq \<Rightarrow> rvalue \<Rightarrow> string \<Rightarrow> rvalue \<Rightarrow> ('w, rvalue) vcmd" where
  "ZmqSetBooleanSockOpt A obj opt value =
     GetZmqSocket obj (\<lambda>sock.
     ZmqSockGuardCrossThread sock (
     CheckBoolean value (
     let val = (if value = Qtrue then 1 else 0)
     in deref socks sock (\<lambda>w.
        live_sock A (s_socket w) (
        tell (zsocket_set_opt A opt (s_socket w) val) (
        verbose_log A sock (
        ret Qnil)))))))"

text \<open>The body of the integer getters.\<close>

definition get_sock_opt :: "'w czmq \<Rightarrow> rvalue \<Rightarrow> string \<Rightarrow> (int \<Rightarrow> ('w, rvalue) vcmd) \<Rightarrow> ('w, rvalue) vcmd" where
  "get_sock_opt A obj opt k =
     GetZmqSocket obj (\<lambda>sock.
     deref socks sock (\<lambda>w.
     live_sock A (s_socket w) (
     ask (zsocket_opt A opt (s_socket w)) k)))"

section \<open>Integer options\<close>

definition rb_czmq_socket_opt_sndhwm :: "'w czmq \<Rightarrow> rvalue \<Rightarrow> ('w, rvalue) vcmd" where
  "rb_czmq_socket_opt_sndhwm A obj = get_sock_opt A obj ''SNDHWM'' (\<lambda>n. ret (INT2NUM n))"

definition rb_czmq_socket_set_opt_sndhwm :: "'w czmq \<Rightarrow> rvalue \<Rightarrow> rvalue \<Rightarrow> ('w, rvalue) vcmd" where
  "rb_czmq_socket_set_opt_sndhwm A obj value = ZmqSetSockOpt A obj ''SNDHWM'' value"

definition rb_czmq_socket_opt_rcvhwm :: "'w czmq \<Rightarrow> rvalue \<Rightarrow> ('w, rvalue) vcmd" where
  "rb_czmq_socket_opt_rcvhwm A obj = get_sock_opt A obj ''RCVHWM'' (\<lambda>n. ret (INT2NUM n))"

definition rb_czmq_socket_set_opt_rcvhwm :: "'w czmq \<Rightarrow> rvalue \<Rightarrow> rvalue \<Rightarrow> ('w, rvalue) vcmd" where
  "rb_czmq_socket_set_opt_rcvhwm A obj value = ZmqSetSockOpt A obj ''RCVHWM'' value"

definition rb_czmq_socket_opt_affinity :: "'w czmq \<Rightarrow> rvalue \<Rightarrow> ('w, rvalue) vcmd" where
  "rb_czmq_socket_opt_affinity A obj = get_sock_opt A obj ''AFFINITY'' (\<lambda>n. ret (INT2NUM n))"

definition rb_czmq_socket_set_opt_affinity :: "'w czmq \<Rightarrow> rvalue \<Rightarrow> rvalue \<Rightarrow> ('w, rvalue) vcmd" where
  "rb_czmq_socket_set_opt_affinity A obj value = ZmqSetSockOpt A obj ''AFFINITY'' value"

definition rb_czmq_socket_opt_rate :: "'w czmq \<Rightarrow> rvalue \<Rightarrow> ('w, rvalue) vcmd" where
  "rb_czmq_socket_opt_rate A obj = get_sock_opt A obj ''RATE'' (\<lambda>n. ret (INT2NUM n))"

definition rb_czmq_socket_set_opt_rate :: "'w czmq \<Rightarrow> rvalue \<Rightarrow> rvalue \<Rightarrow> ('w, rvalue) vcmd" where
  "rb_czmq_socket_set_opt_rate A obj value = ZmqSetSockOpt A obj ''RATE'' value"

definition rb_czmq_socket_opt_recovery_ivl :: "'w czmq \<Rightarrow> rvalue \<Rightarrow> ('w, rvalue) vcmd" where
  "rb_czmq_socket_opt_recovery_ivl A obj = get_sock_opt A obj ''RECOVERY_IVL'' (\<lambda>n. ret (INT2NUM n))"

definition rb_czmq_socket_set_opt_recovery_ivl :: "'w czmq \<Rightarrow> rvalue \<Rightarrow> rvalue \<Rightarrow> ('w, rvalue) vcmd" where
  "rb_czmq_socket_set_opt_recovery_ivl A obj value = ZmqSetSockOpt A obj ''RECOVERY_IVL'' value"

definition rb_czmq_socket_opt_maxmsgsize :: "'w czmq \<Rightarrow> rvalue \<Rightarrow> ('w, rvalue) vcmd" where
  "rb_czmq_socket_opt_maxmsgsize A obj = get_sock_opt A obj ''MAXMSGSIZE'' (\<lambda>n. ret (INT2NUM n))"

definition rb_czmq_socket_set_opt_maxmsgsize :: "'w czmq \<Rightarrow> rvalue \<Rightarrow> rvalue \<Rightarrow> ('w, rvalue) vcmd" where
  "rb_czmq_socket_set_opt_maxmsgsize A obj value = ZmqSetSockOpt A obj ''MAXMSGSIZE'' value"

definition rb_czmq_socket_opt_multicast_hops :: "'w czmq \<Rightarrow> rvalue \<Rightarrow> ('w, rvalue) vcmd" where
  "rb_czmq_socket_opt_multicast_hops A obj = get_sock_opt A obj ''MULTICAST_HOPS'' (\<lambda>n. ret (INT2NUM n))"

definition rb_czmq_socket_set_opt_multicast_hops :: "'w czmq \<Rightarrow> rvalue \<Rightarrow> rvalue \<Rightarrow> ('w, rvalue) vcmd" where
  "rb_czmq_socket_set_opt_multicast_hops A obj value = ZmqSetSockOpt A obj ''MULTICAST_HOPS'' value"

definition rb_czmq_socket_opt_sndbuf :: "'w czmq \<Rightarrow> rvalue \<Rightarrow> ('w, rvalue) vcmd" where
  "rb_czmq_socket_opt_sndbuf A obj = get_sock_opt A obj ''SNDBUF'' (\<lambda>n. ret (INT2NUM n))"

definition rb_czmq_socket_set_opt_sndbuf :: "'w czmq \<Rightarrow> rvalue \<Rightarrow> rvalue \<Rightarrow> ('w, rvalue) vcmd" where
  "rb_czmq_socket_set_opt_sndbuf A obj value = ZmqSetSockOpt A obj ''SNDBUF'' value"

definition rb_czmq_socket_opt_rcvbuf :: "'w czmq \<Rightarrow> rvalue \<Rightarrow> ('w, rvalue) vcmd" where
  "rb_czmq_socket_opt_rcvbuf A obj = get_sock_opt A obj ''RCVBUF'' (\<lambda>n. ret (INT2NUM n))"

definition rb_czmq_socket_set_opt_rcvbuf :: "'w czmq \<Rightarrow> rvalue \<Rightarrow> rvalue \<Rightarrow> ('w, rvalue) vcmd" where
  "rb_czmq_socket_set_opt_rcvbuf A obj value = ZmqSetSockOpt A obj ''RCVBUF'' value"

text \<open>The linger getter does not ask the library.\<close>

definition rb_czmq_socket_opt_linger :: "rvalue \<Rightarrow> ('w, rvalue) vcmd" where
  "rb_czmq_socket_opt_linger obj = GetZmqSocket obj (\<lambda>sock. ret (INT2NUM (-1)))"

definition rb_czmq_socket_set_opt_linger :: "'w czmq \<Rightarrow> rvalue \<Rightarrow> rvalue \<Rightarrow> ('w, rvalue) vcmd" where
  "rb_czmq_socket_set_opt_linger A obj value = ZmqSetSockOpt A obj ''LINGER'' value"

definition rb_czmq_socket_opt_backlog :: "'w czmq \<Rightarrow> rvalue \<Rightarrow> ('w, rvalue) vcmd" where
  "rb_czmq_socket_opt_backlog A obj = get_sock_opt A obj ''BACKLOG'' (\<lambda>n. ret (INT2NUM n))"

definition rb_czmq_socket_set_opt_backlog :: "'w czmq \<Rightarrow> rvalue \<Rightarrow> rvalue \<Rightarrow> ('w, rvalue) vcmd" where
  "rb_czmq_socket_set_opt_backlog A obj value = ZmqSetSockOpt A obj ''BACKLOG'' value"

definition rb_czmq_socket_opt_reconnect_ivl :: "'w czmq \<Rightarrow> rvalue \<Rightarrow> ('w, rvalue) vcmd" where
  "rb_czmq_socket_opt_reconnect_ivl A obj = get_sock_opt A obj ''RECONNECT_IVL'' (\<lambda>n. ret (INT2NUM n))"

definition rb_czmq_socket_set_opt_reconnect_ivl :: "'w czmq \<Rightarrow> rvalue \<Rightarrow> rvalue \<Rightarrow> ('w, rvalue) vcmd" where
  "rb_czmq_socket_set_opt_reconnect_ivl A obj value = ZmqSetSockOpt A obj ''RECONNECT_IVL'' value"

definition rb_czmq_socket_opt_reconnect_ivl_max :: "'w czmq \<Rightarrow> rvalue \<Rightarrow> ('w, rvalue) vcmd" where
  "rb_czmq_socket_opt_reconnect_ivl_max A obj = get_sock_opt A obj ''RECONNECT_IVL_MAX'' (\<lambda>n. ret (INT2NUM n))"

definition rb_czmq_socket_set_opt_reconnect_ivl_max :: "'w czmq \<Rightarrow> rvalue \<Rightarrow> rvalue \<Rightarrow> ('w, rvalue) vcmd" where
  "rb_czmq_socket_set_opt_reconnect_ivl_max A obj value = ZmqSetSockOpt A obj ''RECONNECT_IVL_MAX'' value"

definition rb_czmq_socket_opt_rcvtimeo :: "'w czmq \<Rightarrow> rvalue \<Rightarrow> ('w, rvalue) vcmd" where
  "rb_czmq_socket_opt_rcvtimeo A obj = get_sock_opt A obj ''RCVTIMEO'' (\<lambda>n. ret (INT2NUM n))"

definition rb_czmq_socket_set_opt_rcvtimeo :: "'w czmq \<Rightarrow> rvalue \<Rightarrow> rvalue \<Rightarrow> ('w, rvalue) vcmd" where
  "rb_czmq_socket_set_opt_rcvtimeo A obj value = ZmqSetSockOpt A obj ''RCVTIMEO'' value"

definition rb_czmq_socket_opt_sndtimeo :: "'w czmq \<Rightarrow> rvalue \<Rightarrow> ('w, rvalue) vcmd" where
  "rb_czmq_socket_opt_sndtimeo A obj = get_sock_opt A obj ''SNDTIMEO'' (\<lambda>n. ret (INT2NUM n))"

definition rb_czmq_socket_set_opt_sndtimeo :: "'w czmq \<Rightarrow> rvalue \<Rightarrow> rvalue \<Rightarrow> ('w, rvalue) vcmd" where
  "rb_czmq_socket_set_opt_sndtimeo A obj value = ZmqSetSockOpt A obj ''SNDTIMEO'' value"

definition rb_czmq_socket_opt_events :: "'w czmq \<Rightarrow> rvalue \<Rightarrow> ('w, rvalue) vcmd" where
  "rb_czmq_socket_opt_events A obj = get_sock_opt A obj ''EVENTS'' (\<lambda>n. ret (INT2NUM n))"

definition rb_czmq_socket_opt_rcvmore :: "'w czmq \<Rightarrow> rvalue \<Rightarrow> ('w, rvalue) vcmd" where
  "rb_czmq_socket_opt_rcvmore A obj =
     get_sock_opt A obj ''RCVMORE'' (\<lambda>n. ret (if n = 1 then Qtrue else Qfalse))"

section \<open>Boolean options\<close>

definition rb_czmq_socket_opt_ipv4only :: "'w czmq \<Rightarrow> rvalue \<Rightarrow> ('w, rvalue) vcmd" where
  "rb_czmq_socket_opt_ipv4only A obj =
     get_sock_opt A obj ''IPV4ONLY'' (\<lambda>ipv4only. ret (if ipv4only = 0 then Qfalse else Qtrue))"

definition rb_czmq_socket_set_opt_ipv4only :: "'w czmq \<Rightarrow> rvalue \<Rightarrow> rvalue \<Rightarrow> ('w, rvalue) vcmd" where
  "rb_czmq_socket_set_opt_ipv4only A obj value = ZmqSetBooleanSockOpt A obj ''IPV4ONLY'' value"

definition rb_czmq_socket_set_opt_delay_attach_on_connect :: "'w czmq \<Rightarrow> rvalue \<Rightarrow> rvalue \<Rightarrow> ('w, rvalue) vcmd" where
  "rb_czmq_socket_set_opt_delay_attach_on_connect A obj value = ZmqSetBooleanSockOpt A obj ''DELAY_ATTACH_ON_CONNECT'' value"

definition rb_czmq_socket_set_opt_router_mandatory :: "'w czmq \<Rightarrow> rvalue \<Rightarrow> rvalue \<Rightarrow> ('w, rvalue) vcmd" where
  "rb_czmq_socket_set_opt_router_mandatory A obj value = ZmqSetBooleanSockOpt A obj ''ROUTER_MANDATORY'' value"

definition rb_czmq_socket_set_opt_router_raw :: "'w czmq \<Rightarrow> rvalue \<Rightarrow> rvalue \<Rightarrow> ('w, rvalue) vcmd" where
  "rb_czmq_socket_set_opt_router_raw A obj value = ZmqSetBooleanSockOpt A obj ''ROUTER_RAW'' value"

definition rb_czmq_socket_set_opt_xpub_verbose :: "'w czmq \<Rightarrow> rvalue \<Rightarrow> rvalue \<Rightarrow> ('w, rvalue) vcmd" where
  "rb_czmq_socket_set_opt_xpub_verbose A obj value = ZmqSetBooleanSockOpt A obj ''XPUB_VERBOSE'' value"

section \<open>String options\<close>

definition rb_czmq_socket_set_opt_identity :: "'w czmq \<Rightarrow> rvalue \<Rightarrow> rvalue \<Rightarrow> ('w, rvalue) vcmd" where
  "rb_czmq_socket_set_opt_identity A obj value =
     GetZmqSocket obj (\<lambda>sock.
     ZmqSockGuardCrossThread sock (
     Check_String value (\<lambda>cs.
     check (length cs \<noteq> 0) (ZmqError ''socket identity cannot be empty.'') (
     check (length cs \<le> 255) (ZmqError ''maximum socket identity is 255 chars.'') (
     StringValueCStr cs (\<lambda>val.
     deref socks sock (\<lambda>w.
     live_sock A (s_socket w) (
     tell (zsocket_set_str A ''IDENTITY'' (s_socket w) val) (
     verbose_log A sock (
     ret Qnil))))))))))"

definition rb_czmq_socket_set_opt_subscribe :: "'w czmq \<Rightarrow> rvalue \<Rightarrow> rvalue \<Rightarrow> ('w, rvalue) vcmd" where
  "rb_czmq_socket_set_opt_subscribe A obj value =
     ZmqSetStringSockOpt A obj ''SUBSCRIBE'' value (\<lambda>sock. ZmqAssertSockOptFor A sock ZMQ_SUB)"

definition rb_czmq_socket_set_opt_unsubscribe :: "'w czmq \<Rightarrow> rvalue \<Rightarrow> rvalue \<Rightarrow> ('w, rvalue) vcmd" where
  "rb_czmq_socket_set_opt_unsubscribe A obj value =
     ZmqSetStringSockOpt A obj ''UNSUBSCRIBE'' value (\<lambda>sock. ZmqAssertSockOptFor A sock ZMQ_SUB)"

end
