(* ===== verification/Zmq_Option_Theorems.thy ===== *)
theory Zmq_Option_Theorems
  imports Zmq_Options Zmq_Sockets Zmq_Sample
begin

text \<open>
  The option accessors of socket.c, all of them at once. An option is a record of its name, the Ruby
  values it takes and its functions; two locales state what a setter and an accessor promise, and
  every option of the code is an instance.
\<close>

declare socket_klass.simps [simp del]

section \<open>Contracts\<close>

text \<open>The C int an option gets for a Ruby value, if the value is one the option takes.\<close>

fun encode_int :: "rvalue \<Rightarrow> int option" where
  "encode_int (Fixnum n) = (if - (2 ^ 31) \<le> n \<and> n < 2 ^ 31 then Some n else None)"
| "encode_int v = None"

fun encode_bool :: "rvalue \<Rightarrow> int option" where
  "encode_bool Qtrue = Some 1"
| "encode_bool Qfalse = Some 0"
| "encode_bool v = None"

definition decode_bool :: "int \<Rightarrow> rvalue" where
  "decode_bool n = (if n = 0 then Qfalse else Qtrue)"

text \<open>What a setter leaves behind: the library was told, and nothing else happened.\<close>

definition told_option :: "'w czmq \<Rightarrow> string \<Rightarrow> ptr \<Rightarrow> int \<Rightarrow> 'w vm \<Rightarrow> 'w vm" where
  "told_option A name h n s = s\<lparr>lib := zsocket_set_opt A name h n (lib s)\<rparr>"

locale option_setter =
  fixes A :: "'w czmq" and name :: string and encode :: "rvalue \<Rightarrow> int option"
    and put :: "rvalue \<Rightarrow> rvalue \<Rightarrow> ('w, rvalue) vcmd"
  assumes accepts: "zsock_doc A \<Longrightarrow> open_here A s obj q w \<Longrightarrow> encode v = Some n \<Longrightarrow>
      put obj v s = Return Qnil (told_option A name (s_socket w) n s)"
    and refuses: "sound_value A s obj \<Longrightarrow> (\<nexists>q w. open_here A s obj q w) \<or> encode v = None \<Longrightarrow>
      \<exists>e. put obj v s = Raise e s"
begin

lemma put_cases:
  assumes "zsock_doc A" and "sound_value A s obj"
  shows "(\<exists>q w n. open_here A s obj q w \<and> encode v = Some n \<and>
            put obj v s = Return Qnil (told_option A name (s_socket w) n s)) \<or>
         ((\<nexists>q w. open_here A s obj q w) \<or> encode v = None) \<and> (\<exists>e. put obj v s = Raise e s)"
proof (cases "(\<exists>q w. open_here A s obj q w) \<and> encode v \<noteq> None")
  case True
  then show ?thesis using accepts [OF assms(1)] by blast
next
  case False
  then show ?thesis using refuses [OF assms(2), of v] by blast
qed

end

locale option_accessor = option_setter A name encode put
  for A :: "'w czmq" and name :: string and encode :: "rvalue \<Rightarrow> int option"
    and put :: "rvalue \<Rightarrow> rvalue \<Rightarrow> ('w, rvalue) vcmd" +
  fixes decode :: "int \<Rightarrow> rvalue" and get :: "rvalue \<Rightarrow> ('w, rvalue) vcmd"
  assumes reads: "open_here A s obj q w \<Longrightarrow>
      get obj s = Return (decode (zsocket_opt A name (s_socket w) (lib s))) s"
    and decodes: "encode v = Some n \<Longrightarrow> decode n = v"

lemma told_option_sel [simp]:
  "lib (told_option A name h n s) = zsocket_set_opt A name h n (lib s)"
  "socks (told_option A name h n s) = socks s" "thread (told_option A name h n s) = thread s"
  by (simp_all add: told_option_def)

lemma told_option_view:
  assumes "zsock_doc A" and "zsocks (view A (lib s)) h \<noteq> None"
  shows "zsocks (view A (lib (told_option A name h n s))) = zsocks (view A (lib s))"
    and "opt_range A name n \<Longrightarrow> view A (lib (told_option A name h n s)) =
      (view A (lib s))\<lparr>zopts := (zopts (view A (lib s)))(h := (zopts (view A (lib s)) h)(name \<mapsto> n))\<rparr>"
  using assms by (auto simp: zsocket_set_optD)

lemma told_option_open:
  assumes "zsock_doc A" and "open_here A s obj q w"
  shows "open_here A (told_option A name (s_socket w) n s) obj q w"
  using assms(2) by (rule open_hereE)
    (rule open_here_cong [OF assms(2)], simp_all add: told_option_view(1) [OF assms(1), simplified])

context option_accessor
begin

lemma put_get:
  assumes "zsock_doc A" and "open_here A s obj q w" and "encode v = Some n" and range: "opt_range A name n"
  shows "get obj (told_option A name (s_socket w) n s) = Return v (told_option A name (s_socket w) n s)"
proof -
  note live = open_hereD(4) [OF assms(2)]
  obtain c t where h: "zsocks (view A (lib (told_option A name (s_socket w) n s))) (s_socket w) = Some (c, t)"
    using live told_option_view(1) [OF assms(1) live] by auto
  have "zopts (view A (lib (told_option A name (s_socket w) n s))) (s_socket w) name = Some n"
    using told_option_view(2) [OF assms(1) live range] by simp
  then have "zsocket_opt A name (s_socket w) (lib (told_option A name (s_socket w) n s)) = n"
    by (rule zsocket_liveD(12) [OF assms(1) h])
  then show ?thesis using reads [OF told_option_open [OF assms(1,2)]] decodes [OF assms(3)] by simp
qed

end

section \<open>The macros keep the contract\<close>

lemma ZmqSetSockOpt_accepts:
  assumes "zsock_doc A" and "open_here A s obj q w" and "encode_int v = Some n"
  shows "ZmqSetSockOpt A obj name v s = Return Qnil (told_option A name (s_socket w) n s)"
proof -
  have v: "v = Fixnum n" "- (2 ^ 31) \<le> n" "n < 2 ^ 31"
    using assms(3) by (cases v; simp split: if_splits)+
  note w = open_hereD(1,4) [OF assms(2)]
  show ?thesis
    using w v told_option_view(1) [OF assms(1) w(2), of name n]
    by (simp add: ZmqSetSockOpt_def guards_here [OF assms(2)] live_sock_run verbose_log_run told_option_def)
qed

lemma ZmqSetBooleanSockOpt_accepts:
  assumes "zsock_doc A" and "open_here A s obj q w" and "encode_bool v = Some n"
  shows "ZmqSetBooleanSockOpt A obj name v s = Return Qnil (told_option A name (s_socket w) n s)"
proof -
  have v: "v = Qtrue \<or> v = Qfalse" "n = (if v = Qtrue then 1 else 0)"
    using assms(3) by (cases v; simp)+
  note w = open_hereD(1,4) [OF assms(2)]
  show ?thesis
    using w v(1) told_option_view(1) [OF assms(1) w(2), of name n]
    by (auto simp: ZmqSetBooleanSockOpt_def guards_here [OF assms(2)] CheckBoolean_def live_sock_run
        verbose_log_run told_option_def v(2))
qed

lemma ZmqSetSockOpt_refuses:
  assumes "sound_value A s obj" and "(\<nexists>q w. open_here A s obj q w) \<or> encode_int v = None"
  shows "\<exists>e. ZmqSetSockOpt A obj name v s = Raise e s"
proof (cases "\<exists>q w. open_here A s obj q w")
  case True
  then obtain q w where h: "open_here A s obj q w" by blast
  have "encode_int v = None" using True assms(2) by blast
  then show ?thesis by (cases v) (auto simp: ZmqSetSockOpt_def guards_here [OF h] Check_Fixnum_def)
next
  case False
  show ?thesis unfolding ZmqSetSockOpt_def by (rule guards_refuse [OF assms(1) False])
qed

lemma ZmqSetBooleanSockOpt_refuses:
  assumes "sound_value A s obj" and "(\<nexists>q w. open_here A s obj q w) \<or> encode_bool v = None"
  shows "\<exists>e. ZmqSetBooleanSockOpt A obj name v s = Raise e s"
proof (cases "\<exists>q w. open_here A s obj q w")
  case True
  then obtain q w where h: "open_here A s obj q w" by blast
  have "encode_bool v = None" using True assms(2) by blast
  then show ?thesis by (cases v) (auto simp: ZmqSetBooleanSockOpt_def guards_here [OF h] CheckBoolean_def)
next
  case False
  show ?thesis unfolding ZmqSetBooleanSockOpt_def by (rule guards_refuse [OF assms(1) False])
qed

lemma get_sock_opt_reads:
  assumes "open_here A s obj q w"
  shows "get_sock_opt A obj name k s = k (zsocket_opt A name (s_socket w) (lib s)) s"
  using open_hereD(1,4) [OF assms] by (simp add: get_sock_opt_def GetZmqSocket_here [OF assms] live_sock_run)

lemma INT2NUM_encode: "encode_int v = Some n \<Longrightarrow> INT2NUM n = v"
  by (cases v) (auto simp: INT2NUM_id split: if_splits)

lemma decode_encode_bool: "encode_bool v = Some n \<Longrightarrow> decode_bool n = v"
  by (cases v) (auto simp: decode_bool_def)

lemma int_setter:
  assumes "\<And>obj v. put obj v = ZmqSetSockOpt A obj name v"
  shows "option_setter A name encode_int put"
  by (rule option_setter.intro)
    (simp add: assms ZmqSetSockOpt_accepts, simp only: assms ZmqSetSockOpt_refuses)

lemma bool_setter:
  assumes "\<And>obj v. put obj v = ZmqSetBooleanSockOpt A obj name v"
  shows "option_setter A name encode_bool put"
  by (rule option_setter.intro)
    (simp add: assms ZmqSetBooleanSockOpt_accepts, simp only: assms ZmqSetBooleanSockOpt_refuses)

lemma int_accessor:
  assumes "\<And>obj v. put obj v = ZmqSetSockOpt A obj name v"
    and "\<And>obj. get obj = get_sock_opt A obj name (\<lambda>n. ret (INT2NUM n))"
  shows "option_accessor A name encode_int put INT2NUM get"
  by (intro option_accessor.intro int_setter option_accessor_axioms.intro)
    (simp_all add: assms get_sock_opt_reads INT2NUM_encode)

lemma bool_accessor:
  assumes "\<And>obj v. put obj v = ZmqSetBooleanSockOpt A obj name v"
    and "\<And>obj. get obj = get_sock_opt A obj name (\<lambda>n. ret (decode_bool n))"
  shows "option_accessor A name encode_bool put decode_bool get"
  by (intro option_accessor.intro bool_setter option_accessor_axioms.intro)
    (simp_all add: assms get_sock_opt_reads decode_encode_bool)

section \<open>Every option of the code is an instance\<close>

interpretation sndhwm: option_accessor A "''SNDHWM''" encode_int "rb_czmq_socket_set_opt_sndhwm A"
    INT2NUM "rb_czmq_socket_opt_sndhwm A" for A
  by (rule int_accessor) (simp_all add: rb_czmq_socket_set_opt_sndhwm_def rb_czmq_socket_opt_sndhwm_def)

interpretation rcvhwm: option_accessor A "''RCVHWM''" encode_int "rb_czmq_socket_set_opt_rcvhwm A"
    INT2NUM "rb_czmq_socket_opt_rcvhwm A" for A
  by (rule int_accessor) (simp_all add: rb_czmq_socket_set_opt_rcvhwm_def rb_czmq_socket_opt_rcvhwm_def)

interpretation affinity: option_accessor A "''AFFINITY''" encode_int "rb_czmq_socket_set_opt_affinity A"
    INT2NUM "rb_czmq_socket_opt_affinity A" for A
  by (rule int_accessor) (simp_all add: rb_czmq_socket_set_opt_affinity_def rb_czmq_socket_opt_affinity_def)

interpretation rate: option_accessor A "''RATE''" encode_int "rb_czmq_socket_set_opt_rate A"
    INT2NUM "rb_czmq_socket_opt_rate A" for A
  by (rule int_accessor) (simp_all add: rb_czmq_socket_set_opt_rate_def rb_czmq_socket_opt_rate_def)

interpretation recovery_ivl: option_accessor A "''RECOVERY_IVL''" encode_int "rb_czmq_socket_set_opt_recovery_ivl A"
    INT2NUM "rb_czmq_socket_opt_recovery_ivl A" for A
  by (rule int_accessor) (simp_all add: rb_czmq_socket_set_opt_recovery_ivl_def rb_czmq_socket_opt_recovery_ivl_def)

interpretation maxmsgsize: option_accessor A "''MAXMSGSIZE''" encode_int "rb_czmq_socket_set_opt_maxmsgsize A"
    INT2NUM "rb_czmq_socket_opt_maxmsgsize A" for A
  by (rule int_accessor) (simp_all add: rb_czmq_socket_set_opt_maxmsgsize_def rb_czmq_socket_opt_maxmsgsize_def)

interpretation multicast_hops: option_accessor A "''MULTICAST_HOPS''" encode_int "rb_czmq_socket_set_opt_multicast_hops A"
    INT2NUM "rb_czmq_socket_opt_multicast_hops A" for A
  by (rule int_accessor) (simp_all add: rb_czmq_socket_set_opt_multicast_hops_def rb_czmq_socket_opt_multicast_hops_def)

interpretation sndbuf: option_accessor A "''SNDBUF''" encode_int "rb_czmq_socket_set_opt_sndbuf A"
    INT2NUM "rb_czmq_socket_opt_sndbuf A" for A
  by (rule int_accessor) (simp_all add: rb_czmq_socket_set_opt_sndbuf_def rb_czmq_socket_opt_sndbuf_def)

interpretation rcvbuf: option_accessor A "''RCVBUF''" encode_int "rb_czmq_socket_set_opt_rcvbuf A"
    INT2NUM "rb_czmq_socket_opt_rcvbuf A" for A
  by (rule int_accessor) (simp_all add: rb_czmq_socket_set_opt_rcvbuf_def rb_czmq_socket_opt_rcvbuf_def)

interpretation backlog: option_accessor A "''BACKLOG''" encode_int "rb_czmq_socket_set_opt_backlog A"
    INT2NUM "rb_czmq_socket_opt_backlog A" for A
  by (rule int_accessor) (simp_all add: rb_czmq_socket_set_opt_backlog_def rb_czmq_socket_opt_backlog_def)

interpretation reconnect_ivl: option_accessor A "''RECONNECT_IVL''" encode_int "rb_czmq_socket_set_opt_reconnect_ivl A"
    INT2NUM "rb_czmq_socket_opt_reconnect_ivl A" for A
  by (rule int_accessor) (simp_all add: rb_czmq_socket_set_opt_reconnect_ivl_def rb_czmq_socket_opt_reconnect_ivl_def)

interpretation reconnect_ivl_max: option_accessor A "''RECONNECT_IVL_MAX''" encode_int "rb_czmq_socket_set_opt_reconnect_ivl_max A"
    INT2NUM "rb_czmq_socket_opt_reconnect_ivl_max A" for A
  by (rule int_accessor) (simp_all add: rb_czmq_socket_set_opt_reconnect_ivl_max_def rb_czmq_socket_opt_reconnect_ivl_max_def)

interpretation rcvtimeo: option_accessor A "''RCVTIMEO''" encode_int "rb_czmq_socket_set_opt_rcvtimeo A"
    INT2NUM "rb_czmq_socket_opt_rcvtimeo A" for A
  by (rule int_accessor) (simp_all add: rb_czmq_socket_set_opt_rcvtimeo_def rb_czmq_socket_opt_rcvtimeo_def)

interpretation sndtimeo: option_accessor A "''SNDTIMEO''" encode_int "rb_czmq_socket_set_opt_sndtimeo A"
    INT2NUM "rb_czmq_socket_opt_sndtimeo A" for A
  by (rule int_accessor) (simp_all add: rb_czmq_socket_set_opt_sndtimeo_def rb_czmq_socket_opt_sndtimeo_def)

interpretation ipv4only: option_accessor A "''IPV4ONLY''" encode_bool "rb_czmq_socket_set_opt_ipv4only A"
    decode_bool "rb_czmq_socket_opt_ipv4only A" for A
  by (rule bool_accessor)
    (simp_all add: rb_czmq_socket_set_opt_ipv4only_def rb_czmq_socket_opt_ipv4only_def decode_bool_def)

interpretation linger: option_setter A "''LINGER''" encode_int "rb_czmq_socket_set_opt_linger A" for A
  by (rule int_setter) (simp add: rb_czmq_socket_set_opt_linger_def)

interpretation delay_attach_on_connect: option_setter A "''DELAY_ATTACH_ON_CONNECT''" encode_bool "rb_czmq_socket_set_opt_delay_attach_on_connect A" for A
  by (rule bool_setter) (simp add: rb_czmq_socket_set_opt_delay_attach_on_connect_def)

interpretation router_mandatory: option_setter A "''ROUTER_MANDATORY''" encode_bool "rb_czmq_socket_set_opt_router_mandatory A" for A
  by (rule bool_setter) (simp add: rb_czmq_socket_set_opt_router_mandatory_def)

interpretation router_raw: option_setter A "''ROUTER_RAW''" encode_bool "rb_czmq_socket_set_opt_router_raw A" for A
  by (rule bool_setter) (simp add: rb_czmq_socket_set_opt_router_raw_def)

interpretation xpub_verbose: option_setter A "''XPUB_VERBOSE''" encode_bool "rb_czmq_socket_set_opt_xpub_verbose A" for A
  by (rule bool_setter) (simp add: rb_czmq_socket_set_opt_xpub_verbose_def)

text \<open>The options that can be set, and those that can be read back too.\<close>

record 'w sockopt =
  opt_name :: string
  opt_encode :: "rvalue \<Rightarrow> int option"
  opt_set :: "rvalue \<Rightarrow> rvalue \<Rightarrow> ('w, rvalue) vcmd"

record 'w sockattr = "'w sockopt" +
  opt_decode :: "int \<Rightarrow> rvalue"
  opt_get :: "rvalue \<Rightarrow> ('w, rvalue) vcmd"

definition attr_options :: "'w czmq \<Rightarrow> 'w sockattr list" where
  "attr_options A =
     [\<lparr>opt_name = ''SNDHWM'', opt_encode = encode_int, opt_set = rb_czmq_socket_set_opt_sndhwm A,
        opt_decode = INT2NUM, opt_get = rb_czmq_socket_opt_sndhwm A\<rparr>,
      \<lparr>opt_name = ''RCVHWM'', opt_encode = encode_int, opt_set = rb_czmq_socket_set_opt_rcvhwm A,
        opt_decode = INT2NUM, opt_get = rb_czmq_socket_opt_rcvhwm A\<rparr>,
      \<lparr>opt_name = ''AFFINITY'', opt_encode = encode_int, opt_set = rb_czmq_socket_set_opt_affinity A,
        opt_decode = INT2NUM, opt_get = rb_czmq_socket_opt_affinity A\<rparr>,
      \<lparr>opt_name = ''RATE'', opt_encode = encode_int, opt_set = rb_czmq_socket_set_opt_rate A,
        opt_decode = INT2NUM, opt_get = rb_czmq_socket_opt_rate A\<rparr>,
      \<lparr>opt_name = ''RECOVERY_IVL'', opt_encode = encode_int, opt_set = rb_czmq_socket_set_opt_recovery_ivl A,
        opt_decode = INT2NUM, opt_get = rb_czmq_socket_opt_recovery_ivl A\<rparr>,
      \<lparr>opt_name = ''MAXMSGSIZE'', opt_encode = encode_int, opt_set = rb_czmq_socket_set_opt_maxmsgsize A,
        opt_decode = INT2NUM, opt_get = rb_czmq_socket_opt_maxmsgsize A\<rparr>,
      \<lparr>opt_name = ''MULTICAST_HOPS'', opt_encode = encode_int, opt_set = rb_czmq_socket_set_opt_multicast_hops A,
        opt_decode = INT2NUM, opt_get = rb_czmq_socket_opt_multicast_hops A\<rparr>,
      \<lparr>opt_name = ''SNDBUF'', opt_encode = encode_int, opt_set = rb_czmq_socket_set_opt_sndbuf A,
        opt_decode = INT2NUM, opt_get = rb_czmq_socket_opt_sndbuf A\<rparr>,
      \<lparr>opt_name = ''RCVBUF'', opt_encode = encode_int, opt_set = rb_czmq_socket_set_opt_rcvbuf A,
        opt_decode = INT2NUM, opt_get = rb_czmq_socket_opt_rcvbuf A\<rparr>,
      \<lparr>opt_name = ''BACKLOG'', opt_encode = encode_int, opt_set = rb_czmq_socket_set_opt_backlog A,
        opt_decode = INT2NUM, opt_get = rb_czmq_socket_opt_backlog A\<rparr>,
      \<lparr>opt_name = ''RECONNECT_IVL'', opt_encode = encode_int, opt_set = rb_czmq_socket_set_opt_reconnect_ivl A,
        opt_decode = INT2NUM, opt_get = rb_czmq_socket_opt_reconnect_ivl A\<rparr>,
      \<lparr>opt_name = ''RECONNECT_IVL_MAX'', opt_encode = encode_int, opt_set = rb_czmq_socket_set_opt_reconnect_ivl_max A,
        opt_decode = INT2NUM, opt_get = rb_czmq_socket_opt_reconnect_ivl_max A\<rparr>,
      \<lparr>opt_name = ''RCVTIMEO'', opt_encode = encode_int, opt_set = rb_czmq_socket_set_opt_rcvtimeo A,
        opt_decode = INT2NUM, opt_get = rb_czmq_socket_opt_rcvtimeo A\<rparr>,
      \<lparr>opt_name = ''SNDTIMEO'', opt_encode = encode_int, opt_set = rb_czmq_socket_set_opt_sndtimeo A,
        opt_decode = INT2NUM, opt_get = rb_czmq_socket_opt_sndtimeo A\<rparr>,
      \<lparr>opt_name = ''IPV4ONLY'', opt_encode = encode_bool, opt_set = rb_czmq_socket_set_opt_ipv4only A,
        opt_decode = decode_bool, opt_get = rb_czmq_socket_opt_ipv4only A\<rparr>]"

definition setter_options :: "'w czmq \<Rightarrow> 'w sockopt list" where
  "setter_options A =
     map sockopt.truncate (attr_options A) @
     [\<lparr>opt_name = ''LINGER'', opt_encode = encode_int, opt_set = rb_czmq_socket_set_opt_linger A\<rparr>,
      \<lparr>opt_name = ''DELAY_ATTACH_ON_CONNECT'', opt_encode = encode_bool, opt_set = rb_czmq_socket_set_opt_delay_attach_on_connect A\<rparr>,
      \<lparr>opt_name = ''ROUTER_MANDATORY'', opt_encode = encode_bool, opt_set = rb_czmq_socket_set_opt_router_mandatory A\<rparr>,
      \<lparr>opt_name = ''ROUTER_RAW'', opt_encode = encode_bool, opt_set = rb_czmq_socket_set_opt_router_raw A\<rparr>,
      \<lparr>opt_name = ''XPUB_VERBOSE'', opt_encode = encode_bool, opt_set = rb_czmq_socket_set_opt_xpub_verbose A\<rparr>]"

lemma attr_option:
  assumes "P \<in> set (attr_options A)"
  shows "option_accessor A (opt_name P) (opt_encode P) (opt_set P) (opt_decode P) (opt_get P)"
proof -
  have "list_all (\<lambda>P. option_accessor A (opt_name P) (opt_encode P) (opt_set P) (opt_decode P) (opt_get P))
      (attr_options A)"
    unfolding attr_options_def
    by (simp add:
        sndhwm.option_accessor_axioms rcvhwm.option_accessor_axioms affinity.option_accessor_axioms
        rate.option_accessor_axioms recovery_ivl.option_accessor_axioms maxmsgsize.option_accessor_axioms
        multicast_hops.option_accessor_axioms sndbuf.option_accessor_axioms rcvbuf.option_accessor_axioms
        backlog.option_accessor_axioms reconnect_ivl.option_accessor_axioms reconnect_ivl_max.option_accessor_axioms
        rcvtimeo.option_accessor_axioms sndtimeo.option_accessor_axioms ipv4only.option_accessor_axioms)
  then show ?thesis using assms by (simp add: list_all_iff)
qed

lemma setter_option:
  assumes "P \<in> set (setter_options A)"
  shows "option_setter A (opt_name P) (opt_encode P) (opt_set P)"
proof -
  have "option_setter A (opt_name P) (opt_encode P) (opt_set P)" if "P \<in> set (map sockopt.truncate (attr_options A))"
    using that option_accessor.axioms(1) [OF attr_option] by (auto simp: sockopt.truncate_def)
  moreover have "list_all (\<lambda>P. option_setter A (opt_name P) (opt_encode P) (opt_set P))
      (drop (length (attr_options A)) (setter_options A))"
    unfolding setter_options_def
    by (simp add: linger.option_setter_axioms delay_attach_on_connect.option_setter_axioms router_mandatory.option_setter_axioms router_raw.option_setter_axioms xpub_verbose.option_setter_axioms)
  ultimately show ?thesis using assms by (auto simp: setter_options_def list_all_iff)
qed

lemma identity_here:
  assumes "zsock_doc A" and "open_here A s obj q w"
  shows "rb_czmq_socket_set_opt_identity A obj (RString cs) s =
    (if cs = [] then Raise (ZmqError ''socket identity cannot be empty.'') s
     else if 255 < length cs then Raise (ZmqError ''maximum socket identity is 255 chars.'') s
     else if NUL \<in> set cs then Raise (ArgError ''string contains null byte'') s
     else Return Qnil (s\<lparr>lib := zsocket_set_str A ''IDENTITY'' (s_socket w) cs (lib s)\<rparr>))"
proof -
  note w = open_hereD(1,4) [OF assms(2)]
  obtain c t where h: "zsocks (view A (lib s)) (s_socket w) = Some (c, t)" using w(2) by auto
  show ?thesis
    using w zsocket_liveD(10) [OF assms(1) h]
    by (simp add: rb_czmq_socket_set_opt_identity_def guards_here [OF assms(2)] live_sock_run verbose_log_run)
qed

section \<open>Properties\<close>

text \<open>
  C12: what was set is read back. On a usable socket, each of the fifteen options with a getter and a
  setter takes every value of its type (a Fixnum in the range of a C int, or true and false). For a
  value that libzmq takes for that option, and so keeps (\<open>opt_range\<close>, a parameter), the getter then
  returns that very value: both methods name the same option and translate the value consistently.
  Neither call changes another option, another socket or any object of the extension.
\<close>

theorem options_round_trip:
  assumes "zsock_doc A" and "P \<in> set (attr_options A)" and "open_here A s obj q w"
    and "opt_encode P v = Some n" and "opt_range A (opt_name P) n"
  shows "\<exists>w'. opt_set P obj v s = Return Qnil (s\<lparr>lib := w'\<rparr>) \<and>
    opt_get P obj (s\<lparr>lib := w'\<rparr>) = Return v (s\<lparr>lib := w'\<rparr>) \<and>
    view A w' = (view A (lib s))\<lparr>zopts := (zopts (view A (lib s)))
      (s_socket w := (zopts (view A (lib s)) (s_socket w))(opt_name P \<mapsto> n))\<rparr>"
proof -
  note P = attr_option [OF assms(2)]
  show ?thesis
    using option_setter.accepts [OF option_accessor.axioms(1) [OF P] assms(1,3,4)]
      option_accessor.put_get [OF P assms(1,3-5)] told_option_view(2) [OF assms(1) open_hereD(4) [OF assms(3)] assms(5)]
    unfolding told_option_def by force
qed

theorem options_round_trip_witness:
  "\<exists>w'. rb_czmq_socket_set_opt_sndhwm ref (Object rb_cZmqSubSocket 2) (Fixnum 1000) (vm_sock 1 True) =
      Return Qnil (vm_sock 1 True\<lparr>lib := w'\<rparr>) \<and>
    rb_czmq_socket_opt_sndhwm ref (Object rb_cZmqSubSocket 2) (vm_sock 1 True\<lparr>lib := w'\<rparr>) =
      Return (Fixnum 1000) (vm_sock 1 True\<lparr>lib := w'\<rparr>)"
proof -
  let ?P = "attr_options ref ! 0"
  have P: "?P \<in> set (attr_options ref)" "opt_set ?P = rb_czmq_socket_set_opt_sndhwm ref"
    "opt_get ?P = rb_czmq_socket_opt_sndhwm ref" "opt_encode ?P (Fixnum 1000) = Some 1000"
    by (simp_all add: attr_options_def)
  show ?thesis
    using options_round_trip [OF ref_zsock P(1) vm_sock_here [of 1 True] P(4)] unfolding P(2,3)
    by (auto simp: ref_fields)
qed

text \<open>
  C13: a setter checks before it acts. Called on any Ruby value with any argument, each of the twenty
  option setters either finds a usable socket and a value of its type, and then tells libzmq that
  number under that option and returns nil, or raises an exception with nothing changed. No setter
  reaches the library with a closed socket, from another thread, or with a number out of range.
\<close>

theorem setters_check_first:
  assumes "zsock_doc A" and "P \<in> set (setter_options A)" and "sound_value A s obj"
  shows "(\<exists>q w n. open_here A s obj q w \<and> opt_encode P v = Some n \<and>
      opt_set P obj v s = Return Qnil (s\<lparr>lib := zsocket_set_opt A (opt_name P) (s_socket w) n (lib s)\<rparr>)) \<or>
    ((\<nexists>q w. open_here A s obj q w) \<or> opt_encode P v = None) \<and> (\<exists>e. opt_set P obj v s = Raise e s)"
  using option_setter.put_cases [OF setter_option [OF assms(2)] assms(1,3)] unfolding told_option_def .

theorem setters_check_first_witness:
  "\<exists>e. rb_czmq_socket_set_opt_router_raw ref (Object rb_cZmqSubSocket 2) (Fixnum 1) (vm_sock 1 True) =
     Raise e (vm_sock 1 True)"
proof -
  let ?P = "setter_options ref ! 18"
  have P: "?P \<in> set (setter_options ref)" "opt_set ?P = rb_czmq_socket_set_opt_router_raw ref"
    "opt_encode ?P (Fixnum 1) = None"
    by (simp_all add: setter_options_def attr_options_def)
  show ?thesis
    using setters_check_first [OF ref_zsock P(1) open_here_sound [OF vm_sock_here [of 1 True]], of "Fixnum 1"] P(3)
    unfolding P(2) by simp
qed

text \<open>
  C25: the identity of a socket. Called on any Ruby value, the setter accepts exactly the strings of
  1 to 255 bytes without a null byte, on a usable socket, and hands those very bytes to libzmq; the
  empty string, 256 bytes or more, a null byte, a value that is no string, and an unusable socket
  raise with nothing changed.
\<close>

theorem identity_bounds:
  assumes "zsock_doc A" and "sound_value A s obj"
  shows "(\<exists>q w cs. open_here A s obj q w \<and> v = RString cs \<and> 1 \<le> length cs \<and> length cs \<le> 255 \<and> NUL \<notin> set cs \<and>
      rb_czmq_socket_set_opt_identity A obj v s =
        Return Qnil (s\<lparr>lib := zsocket_set_str A ''IDENTITY'' (s_socket w) cs (lib s)\<rparr>)) \<or>
    (\<nexists>q w cs. open_here A s obj q w \<and> v = RString cs \<and> 1 \<le> length cs \<and> length cs \<le> 255 \<and> NUL \<notin> set cs) \<and>
      (\<exists>e. rb_czmq_socket_set_opt_identity A obj v s = Raise e s)"
proof (cases "\<exists>q w. open_here A s obj q w")
  case True
  then obtain q w where h: "open_here A s obj q w" by blast
  show ?thesis
  proof (cases v)
    case (RString cs)
    note r = identity_here [OF assms(1) h, of cs]
    show ?thesis
    proof (cases "1 \<le> length cs \<and> length cs \<le> 255 \<and> NUL \<notin> set cs")
      case True
      then have "rb_czmq_socket_set_opt_identity A obj v s =
          Return Qnil (s\<lparr>lib := zsocket_set_str A ''IDENTITY'' (s_socket w) cs (lib s)\<rparr>)"
        using r RString by (auto simp: not_le)
      then show ?thesis using h True RString by blast
    next
      case False
      then have "\<exists>e. rb_czmq_socket_set_opt_identity A obj v s = Raise e s"
        using r RString by (auto simp: not_le Suc_le_eq)
      then show ?thesis using False RString by blast
    qed
  qed (simp_all add: rb_czmq_socket_set_opt_identity_def guards_here [OF h] Check_String_def)
next
  case False
  have "\<exists>e. rb_czmq_socket_set_opt_identity A obj v s = Raise e s"
    unfolding rb_czmq_socket_set_opt_identity_def by (rule guards_refuse [OF assms(2) False])
  then show ?thesis using False by blast
qed

theorem identity_bounds_witness:
  "(\<exists>t. rb_czmq_socket_set_opt_identity ref (Object rb_cZmqSubSocket 2) (RString (replicate 255 CHR ''x''))
      (vm_sock 1 True) = Return Qnil t) \<and>
   (\<exists>e. rb_czmq_socket_set_opt_identity ref (Object rb_cZmqSubSocket 2) (RString (replicate 256 CHR ''x''))
      (vm_sock 1 True) = Raise e (vm_sock 1 True))"
proof
  note t = identity_bounds [OF ref_zsock open_here_sound [OF vm_sock_here [of 1 True]]]
  have x: "NUL \<notin> set (replicate 255 CHR ''x'')" by simp
  show "\<exists>t. rb_czmq_socket_set_opt_identity ref (Object rb_cZmqSubSocket 2) (RString (replicate 255 CHR ''x''))
      (vm_sock 1 True) = Return Qnil t"
    using t [of "RString (replicate 255 CHR ''x'')"] vm_sock_here [of 1 True] x
    by auto
  show "\<exists>e. rb_czmq_socket_set_opt_identity ref (Object rb_cZmqSubSocket 2) (RString (replicate 256 CHR ''x''))
      (vm_sock 1 True) = Raise e (vm_sock 1 True)"
    using t [of "RString (replicate 256 CHR ''x'')"] by auto
qed

end
