(* ===== verification/Zmq_Pollitem.thy ===== *)
theory Zmq_Pollitem
  imports Zmq_Objects
begin

text \<open>
  pollitem.c: a poll item pairs a socket or an IO object with the events to poll for and a handler.
\<close>

definition set_pollitem :: "ptr \<Rightarrow> (zmq_pollitem_wrapper \<Rightarrow> zmq_pollitem_wrapper) \<Rightarrow> ('w, 'a) vcmd \<Rightarrow> ('w, 'a) vcmd" where
  "set_pollitem p g k = deref pollitems p (\<lambda>r. wr (\<lambda>s. s\<lparr>pollitems := (pollitems s)(p \<mapsto> g r)\<rparr>) k)"

lemma set_pollitem_run [simp]:
  "pollitems s p = Some i \<Longrightarrow> set_pollitem p g k s = k (s\<lparr>pollitems := (pollitems s)(p \<mapsto> g i)\<rparr>)"
  by (simp add: set_pollitem_def)

definition ZmqGetPollitem :: "rvalue \<Rightarrow> (ptr \<Rightarrow> ('w, 'a) vcmd) \<Rightarrow> ('w, 'a) vcmd" where
  "ZmqGetPollitem obj k =
     fetch (\<lambda>c. c = rb_cZmqPollitem) ''ZMQ::Pollitem'' ''uninitialized ZMQ pollitem!'' obj k"

lemma ZmqGetPollitem_run [simp]: "p \<noteq> NULL \<Longrightarrow> ZmqGetPollitem (Object rb_cZmqPollitem p) k = k p"
  by (simp add: ZmqGetPollitem_def fetch_def)

definition is_socket :: "rvalue \<Rightarrow> bool" where
  "is_socket v = (case v of Object c p \<Rightarrow> socket_klass c | _ \<Rightarrow> False)"

definition rb_czmq_mark_pollitem :: "ptr \<Rightarrow> ('w, rvalue list) vcmd" where
  "rb_czmq_mark_pollitem ptr =
     (if ptr \<noteq> NULL then
        deref pollitems ptr (\<lambda>i. ret [p_socket i, p_io i, p_events i, p_handler i])
      else ret [])"

definition rb_czmq_free_pollitem_gc :: "ptr \<Rightarrow> ('w, unit) vcmd" where
  "rb_czmq_free_pollitem_gc ptr =
     (if ptr \<noteq> NULL then
        deref pollitems ptr (\<lambda>_. wr (\<lambda>s. s\<lparr>pollitems := (pollitems s)(ptr := None)\<rparr>) (ret ()))
      else ret ())"

text \<open>
  A new poll item. The C item is allocated without clearing it; its \<^verbatim>\<open>revents\<close>, zero here, are written by
  libzmq before the extension reads them. The file number of an IO object is asked of Ruby.
\<close>

definition rb_czmq_pollitem_s_new :: "'w czmq \<Rightarrow> 'w rb_funcall \<Rightarrow> rvalue list \<Rightarrow> ('w, rvalue) vcmd" where
  "rb_czmq_pollitem_s_new A rb_funcall argv =
     rb_scan_args_11 argv (\<lambda>pollable events.
     let events = (if NIL_P events then INT2NUM (uint (ZMQ_POLLIN A OR ZMQ_POLLOUT A)) else events)
     in Check_Fixnum events (\<lambda>n.
        FIX2INT n (\<lambda>n.
        let evts = (word_of_int n :: flags)
        in check (has evts (ZMQ_POLLIN A) \<or> has evts (ZMQ_POLLOUT A))
             (ZmqError ''invalid socket event: Only ZMQ::POLLIN and ZMQ::POLLOUT events are supported!'') (
           make_struct
             (\<lambda>p s. s\<lparr>pollitems := (pollitems s)(p \<mapsto>
                \<lparr>p_socket = Qfalse, p_io = Qfalse, p_events = events, p_handler = Qnil,
                 p_item = \<lparr>pi_socket = NULL, pi_fd = 0, pi_events = ucast evts, pi_revents = 0\<rparr>\<rparr>)\<rparr>) (\<lambda>p.
           if is_socket pollable then
             GetZmqSocket pollable (\<lambda>sock.
             ZmqAssertSocketNotPending sock
               ''socket in a pending state (not bound or connected) and thus cannot be registered as a poll item!'' (
             ZmqSockGuardCrossThread sock (
             set_pollitem p (\<lambda>i. i\<lparr>p_socket := pollable\<rparr>) (
             set_pollitem p (\<lambda>i. i\<lparr>p_io := Qnil\<rparr>) (
             deref socks sock (\<lambda>w.
             set_pollitem p (\<lambda>i. i\<lparr>p_item := (p_item i)\<lparr>pi_fd := 0, pi_socket := s_socket w\<rparr>\<rparr>) (
             ret (Object rb_cZmqPollitem p))))))))
           else
             (case pollable of
                Object rb_cIO q \<Rightarrow>
                  set_pollitem p (\<lambda>i. i\<lparr>p_io := pollable\<rparr>) (
                  set_pollitem p (\<lambda>i. i\<lparr>p_socket := Qnil\<rparr>) (
                  call (rb_funcall pollable ''fileno'' []) (\<lambda>fileno.
                  Check_Fixnum fileno (\<lambda>n.
                  FIX2INT n (\<lambda>fd.
                  set_pollitem p (\<lambda>i. i\<lparr>p_item := (p_item i)\<lparr>pi_socket := NULL, pi_fd := fd\<rparr>\<rparr>) (
                  ret (Object rb_cZmqPollitem p)))))))
              | _ \<Rightarrow>
                  raise (TypeError ''wrong pollable type. Only objects of type ZMQ::Socket and IO supported.'')))))))"

definition rb_czmq_pollitem_s_coerce :: "'w czmq \<Rightarrow> 'w rb_funcall \<Rightarrow> rvalue \<Rightarrow> ('w, rvalue) vcmd" where
  "rb_czmq_pollitem_s_coerce A rb_funcall pollable =
     (case pollable of
        Object rb_cZmqPollitem p \<Rightarrow> ret pollable
      | _ \<Rightarrow> rb_czmq_pollitem_s_new A rb_funcall [pollable])"

definition rb_czmq_pollitem_coerce :: "'w czmq \<Rightarrow> 'w rb_funcall \<Rightarrow> rvalue \<Rightarrow> ('w, rvalue) vcmd" where
  "rb_czmq_pollitem_coerce A rb_funcall pollable = rb_czmq_pollitem_s_coerce A rb_funcall pollable"

definition rb_czmq_pollitem_pollable :: "rvalue \<Rightarrow> ('w, rvalue) vcmd" where
  "rb_czmq_pollitem_pollable obj =
     ZmqGetPollitem obj (\<lambda>p.
     deref pollitems p (\<lambda>i. ret (if NIL_P (p_socket i) then p_io i else p_socket i)))"

definition rb_czmq_pollitem_events :: "rvalue \<Rightarrow> ('w, rvalue) vcmd" where
  "rb_czmq_pollitem_events obj = ZmqGetPollitem obj (\<lambda>p. deref pollitems p (\<lambda>i. ret (p_events i)))"

definition rb_czmq_pollitem_handler :: "rvalue \<Rightarrow> ('w, rvalue) vcmd" where
  "rb_czmq_pollitem_handler obj = ZmqGetPollitem obj (\<lambda>p. deref pollitems p (\<lambda>i. ret (p_handler i)))"

text \<open>What a handler responds to is the program's, so it is an argument.\<close>

definition ZmqAssertHandler ::
  "(rvalue \<Rightarrow> string \<Rightarrow> bool) \<Rightarrow> rvalue \<Rightarrow> rvalue \<Rightarrow> string \<Rightarrow> ('w, 'a) vcmd \<Rightarrow> ('w, 'a) vcmd" where
  "ZmqAssertHandler rb_respond_to obj handler callback k =
     (if rb_respond_to handler callback then k
      else
        call (rb_czmq_pollitem_pollable obj) (\<lambda>_.
        raise (ZmqError (''expected to implement an '' @ callback @ '' callback!''))))"

definition rb_czmq_pollitem_handler_equals ::
  "(rvalue \<Rightarrow> string \<Rightarrow> bool) \<Rightarrow> rvalue \<Rightarrow> rvalue \<Rightarrow> ('w, rvalue) vcmd" where
  "rb_czmq_pollitem_handler_equals rb_respond_to obj handler =
     ZmqGetPollitem obj (\<lambda>p.
     ZmqAssertHandler rb_respond_to obj handler ''on_error'' (
     ZmqAssertHandler rb_respond_to obj handler ''on_readable'' (
     ZmqAssertHandler rb_respond_to obj handler ''on_writable'' (
     set_pollitem p (\<lambda>i. i\<lparr>p_handler := handler\<rparr>) (
     ret Qnil)))))"

definition rb_czmq_pollitem_set_verbose :: "rvalue \<Rightarrow> rvalue \<Rightarrow> ('w, rvalue) vcmd" where
  "rb_czmq_pollitem_set_verbose obj level =
     ZmqGetPollitem obj (\<lambda>p.
     let vlevel = (level = Qtrue)
     in deref pollitems p (\<lambda>i.
        if is_socket (p_socket i) then
          GetZmqSocket (p_socket i) (\<lambda>sock. set_sock sock (\<lambda>w. w\<lparr>s_verbose := vlevel\<rparr>) (ret Qnil))
        else ret Qnil))"

end
