(* ===== verification/Zmq_Float.thy ===== *)
theory Zmq_Float
  imports Complex_Main "HOL-Library.Log_Nat"
begin

text \<open>
  The arithmetic of C's \<^verbatim>\<open>double\<close> on finite numbers, as far as the extension uses it: the result of an
  operation is the exact result rounded to 53 significant bits, to the nearest such number and to
  the one with the even significand between two of them (the default rounding of IEEE 754). The
  range of the exponents is not bounded: a number too large for a double is also too large for the
  integers these numbers are converted to, and one too small for a normal double is converted to 0
  either way. Infinities and NaN are not modelled.
\<close>

section \<open>Rounding\<close>

text \<open>To the nearest integer, and to the even one in the middle.\<close>

definition half_even :: "rat \<Rightarrow> int" where
  "half_even x =
     (let n = \<lfloor>x\<rfloor>; d = x - of_int n
      in if d < 1 / 2 \<or> d = 1 / 2 \<and> even n then n else n + 1)"

text \<open>The exponent of the power of two below a positive number, from the lengths of its numerator and denominator.\<close>

definition binade :: "rat \<Rightarrow> int" where
  "binade x =
     (case quotient_of x of (a, b) \<Rightarrow>
        let k = bitlen a - bitlen b
        in if 2 powi k \<le> x then k else k - 1)"

text \<open>The number rounded to 53 bits: \<open>u\<close> is the spacing of the doubles around it.\<close>

definition fl :: "rat \<Rightarrow> rat" where
  "fl x =
     (if x = 0 then 0
      else let u = 2 powi (binade \<bar>x\<bar> - 52) in of_int (half_even (x / u)) * u)"

section \<open>How far it rounds\<close>

lemma floor_half_even: "\<lfloor>x\<rfloor> \<le> half_even x" "half_even x \<le> \<lceil>x\<rceil>"
  by (auto simp: half_even_def Let_def ceiling_altdef) 

lemma half_even_error: "\<bar>of_int (half_even x) - x\<bar> \<le> 1 / 2"
proof -
  have "of_int \<lfloor>x\<rfloor> \<le> x" "x < of_int \<lfloor>x\<rfloor> + 1" by linarith+
  then show ?thesis by (cases "x - of_int \<lfloor>x\<rfloor> < 1 / 2") (auto simp: half_even_def Let_def abs_le_iff)
qed

lemma half_even_int [simp]: "half_even (of_int n) = n"
  by (simp add: half_even_def)

lemma binade_bounds:
  assumes "0 < x"
  shows "2 powi binade x \<le> x" "x < 2 powi (binade x + 1)"
proof -
  obtain a b where q: "quotient_of x = (a, b)" by (metis surj_pair)
  have b: "0 < b" using q by (rule quotient_of_denom_pos)
  have x: "x = of_int a / of_int b" using q by (rule quotient_of_div)
  have a: "0 < a" using assms b by (simp add: x zero_less_divide_iff)
  have len: "0 < bitlen a" "0 < bitlen b" using a b bitlen_nonneg bitlen_eq_zero_iff by (metis order_le_less less_le_not_le)+
  have pow: "(2 :: rat) powi (bitlen n - 1) \<le> of_int n \<and> of_int n < (2 :: rat) powi bitlen n" if "0 < n" for n
  proof -
    have l: "0 < bitlen n" using that bitlen_nonneg bitlen_eq_zero_iff by (metis order_le_less less_le_not_le)
    have "2 ^ nat (bitlen n - 1) \<le> n \<and> n < 2 ^ nat (bitlen n)" using that by (rule bitlen_bounds)
    then have "(of_int (2 ^ nat (bitlen n - 1)) :: rat) \<le> of_int n \<and> (of_int n :: rat) < of_int (2 ^ nat (bitlen n))" 
      by (simp only: of_int_le_iff of_int_less_iff)
    then show ?thesis using l by (simp add: power_int_def)
  qed
  let ?k = "bitlen a - bitlen b"
  have "2 powi (?k - 1) \<le> x"
  proof -
    have "(2 :: rat) powi (?k - 1) * of_int b \<le> 2 powi (?k - 1) * 2 powi bitlen b"
      using pow [OF b] by (intro mult_left_mono) auto
    also have "\<dots> = 2 powi (bitlen a - 1)" by (simp add: power_int_add [symmetric])
    also have "\<dots> \<le> of_int a" using pow [OF a] by simp
    finally show ?thesis using b by (simp add: x pos_le_divide_eq)
  qed
  moreover have "x < 2 powi (?k + 1)"
  proof -
    have "of_int a < (2 :: rat) powi bitlen a" using pow [OF a] by simp
    also have "\<dots> = 2 powi (?k + 1) * 2 powi (bitlen b - 1)" by (simp add: power_int_add [symmetric])
    also have "\<dots> \<le> 2 powi (?k + 1) * of_int b" using pow [OF b] by (intro mult_left_mono) auto
    finally show ?thesis using b by (simp add: x pos_divide_less_eq)
  qed
  ultimately show "2 powi binade x \<le> x" "x < 2 powi (binade x + 1)"
    by (auto simp: binade_def q Let_def)
qed

text \<open>Below \<open>2 ^ 53\<close> the spacing of the doubles divides 1, so the integers there are doubles.\<close>

lemma spacing:
  assumes "0 < x" "x < 2 ^ 53"
  obtains j where "2 powi (binade x - 52) = (1 :: rat) / 2 ^ j"
proof -
  have "(2 :: rat) powi binade x < 2 powi 53" using binade_bounds(1) [OF assms(1)] assms(2) by (simp add: power_int_def)
  then have "\<not> 53 \<le> binade x" using power_int_increasing [of 53 "binade x" "2 :: rat"] by linarith
  then have "2 powi (binade x - 52) = (1 :: rat) / 2 ^ nat (52 - binade x)"
    by (cases "binade x = 52") (simp_all add: power_int_def divide_simps) 
  then show thesis by (rule that)
qed

lemma fl_between:
  assumes "\<bar>x\<bar> < 2 ^ 53"
  shows "of_int \<lfloor>x\<rfloor> \<le> fl x" "fl x \<le> of_int \<lceil>x\<rceil>"
proof -
  have "of_int \<lfloor>x\<rfloor> \<le> fl x \<and> fl x \<le> of_int \<lceil>x\<rceil>"
  proof (cases "x = 0")
    case False
    then obtain j where u: "2 powi (binade \<bar>x\<bar> - 52) = (1 :: rat) / 2 ^ j" using spacing [of "\<bar>x\<bar>"] assms by auto
    have "\<lfloor>x\<rfloor> * 2 ^ j \<le> \<lfloor>x * 2 ^ j\<rfloor>" by (simp add: le_floor_iff) 
    then have "of_int (\<lfloor>x\<rfloor> * 2 ^ j) \<le> (of_int (half_even (x * 2 ^ j)) :: rat)"
      using floor_half_even(1) [of "x * 2 ^ j"] by (simp only: of_int_le_iff) 
    moreover have "\<lceil>x * 2 ^ j\<rceil> \<le> \<lceil>x\<rceil> * 2 ^ j" by (simp add: ceiling_le_iff)
    then have "(of_int (half_even (x * 2 ^ j)) :: rat) \<le> of_int (\<lceil>x\<rceil> * 2 ^ j)"
      using floor_half_even(2) [of "x * 2 ^ j"] by (simp only: of_int_le_iff)
    ultimately show ?thesis using False by (simp add: fl_def u field_simps)
  qed (simp add: fl_def)
  then show "of_int \<lfloor>x\<rfloor> \<le> fl x" "fl x \<le> of_int \<lceil>x\<rceil>" by simp_all
qed

lemma fl_int: "\<bar>n\<bar> < 2 ^ 53 \<Longrightarrow> fl (of_int n) = of_int n"
  using fl_between [of "of_int n"] by (simp add: of_int_abs [symmetric] order_antisym del: of_int_abs)

lemma fl_error: "\<bar>fl x - x\<bar> \<le> \<bar>x\<bar> / 2 ^ 53"
proof (cases "x = 0")
  case False
  let ?u = "2 powi (binade \<bar>x\<bar> - 52) :: rat"
  have "2 powi binade \<bar>x\<bar> \<le> \<bar>x\<bar>" using False by (intro binade_bounds) simp
  moreover have "fl x - x = (of_int (half_even (x / ?u)) - x / ?u) * ?u"
    using False by (simp add: fl_def Let_def left_diff_distrib)
  then have "\<bar>fl x - x\<bar> = \<bar>of_int (half_even (x / ?u)) - x / ?u\<bar> * ?u" by (simp add: abs_mult)
  moreover have "\<bar>of_int (half_even (x / ?u)) - x / ?u\<bar> * ?u \<le> 1 / 2 * ?u"
    by (rule mult_right_mono [OF half_even_error]) simp
  ultimately have "\<bar>fl x - x\<bar> \<le> 1 / 2 * ?u" by (simp only:)
  also have "\<dots> = 2 powi binade \<bar>x\<bar> / 2 ^ 53" by (simp add: power_int_diff)
  also have "\<dots> \<le> \<bar>x\<bar> / 2 ^ 53" using \<open>2 powi binade \<bar>x\<bar> \<le> \<bar>x\<bar>\<close> by (rule divide_right_mono) simp
  finally show ?thesis .
qed (simp add: fl_def)

text \<open>What is at most -1 stays so.\<close>

lemma fl_negative:
  assumes "x \<le> -1"
  shows "fl x \<le> -1"
proof (cases "\<bar>x\<bar> < 2 ^ 53")
  case True
  have "fl x \<le> of_int \<lceil>x\<rceil>" using True by (rule fl_between)
  also have "of_int \<lceil>x\<rceil> \<le> (of_int (- 1) :: rat)" unfolding of_int_le_iff ceiling_le_iff using assms by simp
  finally show ?thesis by simp
next
  case False
  then show ?thesis using fl_error [of x] assms by (simp add: abs_le_iff field_simps)
qed

text \<open>Examples: the double nearest to 0.57 is below it, and its product with 1000 is rounded back to 570.\<close>

lemma fl_examples:
  "fl (1 / 3) = 6004799503160661 / 18014398509481984"
  "fl (2 ^ 53 + 1) = 2 ^ 53"
  "fl (57 / 100) = 5134103575202365 / 9007199254740992"
  "fl (5134103575202365 / 9007199254740992 * 1000) = 570"
  by code_simp+

end
