(* ===== verification/Zmq_Timer.thy ===== *)
theory Zmq_Timer
  imports Zmq_Objects Zmq_Float
begin

text \<open>
  timer.c: a timer object holds a delay in milliseconds, a number of times to fire, and a callback.
\<close>

definition set_timer :: "ptr \<Rightarrow> (zmq_timer_wrapper \<Rightarrow> zmq_timer_wrapper) \<Rightarrow> ('w, 'a) vcmd \<Rightarrow> ('w, 'a) vcmd" where
  "set_timer p g k = deref timers p (\<lambda>r. wr (\<lambda>s. s\<lparr>timers := (timers s)(p \<mapsto> g r)\<rparr>) k)"

lemma set_timer_run [simp]:
  "timers s p = Some t \<Longrightarrow> set_timer p g k s = k (s\<lparr>timers := (timers s)(p \<mapsto> g t)\<rparr>)"
  by (simp add: set_timer_def)

definition ZmqGetTimer :: "rvalue \<Rightarrow> (ptr \<Rightarrow> ('w, 'a) vcmd) \<Rightarrow> ('w, 'a) vcmd" where
  "ZmqGetTimer obj k = fetch (\<lambda>c. c = rb_cZmqTimer) ''ZMQ::Timer'' ''uninitialized ZMQ timer!'' obj k"

lemma ZmqGetTimer_run [simp]: "p \<noteq> NULL \<Longrightarrow> ZmqGetTimer (Object rb_cZmqTimer p) k = k p"
  by (simp add: ZmqGetTimer_def fetch_def)

text \<open>
  Seconds in milliseconds as a \<^verbatim>\<open>size_t\<close>. The conditional of the source has the common type of its
  branches, so a Fixnum is converted to a double first; the product is a double, and its conversion
  truncates towards zero. C leaves the conversion undefined when the truncated number is not a
  \<^verbatim>\<open>size_t\<close>: then there is no number, and the methods fault.
\<close>

definition truncate_rat :: "rat \<Rightarrow> int" where
  "truncate_rat x = (if 0 \<le> x then \<lfloor>x\<rfloor> else \<lceil>x\<rceil>)"

definition size_t_msecs :: "rat \<Rightarrow> 64 word option" where
  "size_t_msecs secs =
     (let msecs = truncate_rat (fl (secs * 1000))
      in if 0 \<le> msecs \<and> msecs < 2 ^ 64 then Some (word_of_int msecs) else None)"

definition to_msecs :: "rat \<Rightarrow> (64 word \<Rightarrow> ('w, 'a) vcmd) \<Rightarrow> ('w, 'a) vcmd" where
  "to_msecs secs k = (case size_t_msecs secs of None \<Rightarrow> crash UndefinedConversion | Some n \<Rightarrow> k n)"

lemma to_msecs_run [simp]:
  "size_t_msecs secs = Some n \<Longrightarrow> to_msecs secs k = k n"
  "size_t_msecs secs = None \<Longrightarrow> to_msecs secs k = crash UndefinedConversion"
  by (simp_all add: to_msecs_def)

text \<open>A whole number of milliseconds below \<open>2 ^ 53\<close> is exact; what is negative has no conversion.\<close>

lemma truncate_of_int [simp]: "truncate_rat (of_int n) = n"
  by (simp add: truncate_rat_def)

lemma size_t_msecs_whole:
  assumes "secs * 1000 = of_int m" and "0 \<le> m" and "m < 2 ^ 53"
  shows "size_t_msecs secs = Some (word_of_int m)"
proof -
  have "fl (secs * 1000) = of_int m" unfolding assms(1) by (rule fl_int) (use assms in simp)
  then show ?thesis using assms(2,3) by (simp add: size_t_msecs_def)
qed

lemma size_t_msecs_Fixnum:
  assumes "0 \<le> n" and "n * 1000 < 2 ^ 53"
  shows "size_t_msecs (fl (of_int n)) = Some (word_of_int (n * 1000))"
proof -
  have "fl (of_int n) = of_int n" by (rule fl_int) (use assms in simp)
  then show ?thesis by (simp only:) (rule size_t_msecs_whole, use assms in simp_all)
qed

lemma size_t_msecs_negative:
  assumes "secs * 1000 \<le> -1"
  shows "size_t_msecs secs = None"
proof -
  have f: "fl (secs * 1000) \<le> of_int (- 1)" using fl_negative [OF assms] by simp
  then have "\<lceil>fl (secs * 1000)\<rceil> \<le> - 1" unfolding ceiling_le_iff .
  then have "truncate_rat (fl (secs * 1000)) < 0" using f by (simp add: truncate_rat_def)
  then show ?thesis by (simp add: size_t_msecs_def)
qed

definition secs_of :: "rvalue \<Rightarrow> string \<Rightarrow> (rat \<Rightarrow> ('w, 'a) vcmd) \<Rightarrow> ('w, 'a) vcmd" where
  "secs_of v desc k =
     (case v of Fixnum n \<Rightarrow> k (fl (of_int n)) | Float r \<Rightarrow> k r | _ \<Rightarrow> raise (TypeError desc))"

definition rb_czmq_mark_timer :: "ptr \<Rightarrow> ('w, rvalue list) vcmd" where
  "rb_czmq_mark_timer timer = deref timers timer (\<lambda>t. ret [t_callback t])"

definition rb_czmq_free_timer_gc :: "ptr \<Rightarrow> ('w, unit) vcmd" where
  "rb_czmq_free_timer_gc timer =
     (if timer \<noteq> NULL then wr (\<lambda>s. s\<lparr>timers := (timers s)(timer := None)\<rparr>) (ret ()) else ret ())"

text \<open>The block of the call, nil without one, is the last argument.\<close>

definition rb_czmq_timer_s_new :: "rvalue list \<Rightarrow> rvalue \<Rightarrow> ('w, rvalue) vcmd" where
  "rb_czmq_timer_s_new argv block =
     rb_scan_args_21 argv (\<lambda>delay times proc.
     if NIL_P proc \<and> NIL_P block then raise (ArgError ''no callback given!'')
     else
       let callback = (if NIL_P proc then block else proc)
       in secs_of delay ''wrong delay type (expected Fixnum or Float)'' (\<lambda>secs.
          Check_Fixnum times (\<lambda>n.
          to_msecs secs (\<lambda>timer_delay.
          make_struct
            (\<lambda>tr s. s\<lparr>timers := (timers s)(tr \<mapsto>
               \<lparr>t_delay = 0, t_times = 0, t_cancelled = False, t_callback = Qfalse\<rparr>)\<rparr>) (\<lambda>tr.
          set_timer tr (\<lambda>t. t\<lparr>t_cancelled := False\<rparr>) (
          set_timer tr (\<lambda>t. t\<lparr>t_delay := timer_delay\<rparr>) (
          FIX2INT n (\<lambda>n.
          set_timer tr (\<lambda>t. t\<lparr>t_times := word_of_int n\<rparr>) (
          set_timer tr (\<lambda>t. t\<lparr>t_callback := callback\<rparr>) (
          ret (Object rb_cZmqTimer tr)))))))))))"

definition rb_czmq_timer_fire :: "'w rb_funcall \<Rightarrow> rvalue \<Rightarrow> rvalue list \<Rightarrow> ('w, rvalue) vcmd" where
  "rb_czmq_timer_fire rb_apply obj args =
     ZmqGetTimer obj (\<lambda>timer.
     deref timers timer (\<lambda>t.
     check (\<not> t_cancelled t) (ZmqError ''cannot fire timer, already cancelled!'') (
     rb_apply (t_callback t) ''call'' args)))"

definition rb_czmq_timer_cancel :: "rvalue \<Rightarrow> ('w, rvalue) vcmd" where
  "rb_czmq_timer_cancel obj =
     ZmqGetTimer obj (\<lambda>timer. set_timer timer (\<lambda>t. t\<lparr>t_cancelled := True\<rparr>) (ret Qnil))"

end
