(* ===== verification/Zmq_Poller.thy ===== *)
theory Zmq_Poller
  imports Zmq_Pollitem Zmq_Timer
begin

text \<open>
  poller.c: a poller keeps an array of poll items and a C array built from it, polls the C array,
  and collects what became readable or writable.
\<close>

definition set_poller :: "ptr \<Rightarrow> (zmq_poll_wrapper \<Rightarrow> zmq_poll_wrapper) \<Rightarrow> ('w, 'a) vcmd \<Rightarrow> ('w, 'a) vcmd" where
  "set_poller p g k = deref pollers p (\<lambda>r. wr (\<lambda>s. s\<lparr>pollers := (pollers s)(p \<mapsto> g r)\<rparr>) k)"

lemma set_poller_run [simp]:
  "pollers s p = Some q \<Longrightarrow> set_poller p g k s = k (s\<lparr>pollers := (pollers s)(p \<mapsto> g q)\<rparr>)"
  by (simp add: set_poller_def)

definition ZmqGetPoller :: "rvalue \<Rightarrow> (ptr \<Rightarrow> ('w, 'a) vcmd) \<Rightarrow> ('w, 'a) vcmd" where
  "ZmqGetPoller obj k = fetch (\<lambda>c. c = rb_cZmqPoller) ''ZMQ::Poller'' ''uninitialized ZMQ poller!'' obj k"

lemma ZmqGetPoller_run [simp]: "p \<noteq> NULL \<Longrightarrow> ZmqGetPoller (Object rb_cZmqPoller p) k = k p"
  by (simp add: ZmqGetPoller_def fetch_def)

definition rb_czmq_mark_poller :: "ptr \<Rightarrow> ('w, rvalue list) vcmd" where
  "rb_czmq_mark_poller poller =
     (if poller \<noteq> NULL then deref pollers poller (\<lambda>q. ret [pl_pollables q, pl_readables q, pl_writables q])
      else ret [])"

definition rb_czmq_free_poller_gc :: "ptr \<Rightarrow> ('w, unit) vcmd" where
  "rb_czmq_free_poller_gc poller =
     (if poller \<noteq> NULL then
        deref pollers poller (\<lambda>_. wr (\<lambda>s. s\<lparr>pollers := (pollers s)(poller := None)\<rparr>) (ret ()))
      else ret ())"

text \<open>
  The C array is new and not cleared; an entry not yet filled is the zero item here. The events of an
  item are a short, which \<^verbatim>\<open>&\<close> promotes to an int.
\<close>

definition no_item :: zmq_pollitem_t where
  "no_item = \<lparr>pi_socket = NULL, pi_fd = 0, pi_events = 0, pi_revents = 0\<rparr>"

definition rb_czmq_poller_rebuild_pollset :: "ptr \<Rightarrow> ('w, int) vcmd" where
  "rb_czmq_poller_rebuild_pollset poller =
     deref pollers poller (\<lambda>q.
     set_poller poller (\<lambda>q. q\<lparr>pl_pollset := replicate (nat (pl_poll_size q)) no_item\<rparr>) (
     while_do (\<lambda>rebuilt. int rebuilt < pl_poll_size q)
       (\<lambda>rebuilt.
          rd (\<lambda>s. rb_ary_entry (ary s (pl_pollables q)) rebuilt) (\<lambda>pollable.
          ZmqGetPollitem pollable (\<lambda>p.
          deref pollitems p (\<lambda>i.
          set_poller poller (\<lambda>q. q\<lparr>pl_pollset := (pl_pollset q)[rebuilt := p_item i]\<rparr>) (
          ret (Suc rebuilt))))))
       (\<lambda>_. set_poller poller (\<lambda>q. q\<lparr>pl_dirty := False\<rparr>) (ret 0))
       0))"

definition rb_czmq_poller_rebuild_selectables :: "'w czmq \<Rightarrow> ptr \<Rightarrow> ('w, int) vcmd" where
  "rb_czmq_poller_rebuild_selectables A poller =
     deref pollers poller (\<lambda>q.
     rb_ary_clear (pl_readables q) (
     rb_ary_clear (pl_writables q) (
     while_do (\<lambda>rebuilt. int rebuilt < pl_poll_size q)
       (\<lambda>rebuilt.
          let item = pl_pollset q ! rebuilt
          in rd (\<lambda>s. rb_ary_entry (ary s (pl_pollables q)) rebuilt) (\<lambda>pollable.
             ZmqGetPollitem pollable (\<lambda>_.
             let push_to = (\<lambda>array k. call (rb_czmq_pollitem_pollable pollable) (\<lambda>v. rb_ary_push array v k));
                 writable =
                   (if has (scast (pi_revents item)) (ZMQ_POLLOUT A) then push_to (pl_writables q) (ret (Suc rebuilt))
                    else ret (Suc rebuilt))
             in if has (scast (pi_revents item)) (ZMQ_POLLIN A) then push_to (pl_readables q) writable
                else writable)))
       (\<lambda>_. ret 0)
       0)))"

definition rb_czmq_poller_new :: "('w, rvalue) vcmd" where
  "rb_czmq_poller_new =
     make_struct
       (\<lambda>p s. s\<lparr>pollers := (pollers s)(p \<mapsto>
          \<lparr>pl_pollables = Qfalse, pl_readables = Qfalse, pl_writables = Qfalse, pl_pollset = [],
           pl_poll_size = 0, pl_dirty = False, pl_verbose = False\<rparr>)\<rparr>) (\<lambda>p.
     rb_ary_new (\<lambda>pollables.
     set_poller p (\<lambda>q. q\<lparr>pl_pollables := pollables\<rparr>) (
     rb_ary_new (\<lambda>readables.
     set_poller p (\<lambda>q. q\<lparr>pl_readables := readables\<rparr>) (
     rb_ary_new (\<lambda>writables.
     set_poller p (\<lambda>q. q\<lparr>pl_writables := writables\<rparr>) (
     ret (Object rb_cZmqPoller p))))))))"

text \<open>
  \<^verbatim>\<open>rb_czmq_nogvl_poll\<close> of poller.c: libzmq is handed live sockets and writes the events it saw. It
  may block for ever.
\<close>

definition rb_czmq_nogvl_poll_items :: "'w czmq \<Rightarrow> ptr \<Rightarrow> int \<Rightarrow> ('w, int) vcmd" where
  "rb_czmq_nogvl_poll_items A poller timeout =
     deref pollers poller (\<lambda>q.
     rd (\<lambda>s. \<forall>i \<in> set (pl_pollset q). pi_socket i \<noteq> NULL \<longrightarrow> zsocks (view A (lib s)) (pi_socket i) \<noteq> None) (\<lambda>live.
     require live BadHandle (
     invoke_blocking (zmq_poll A (pl_pollset q) timeout) (\<lambda>(rc, items).
     set_poller poller (\<lambda>q. q\<lparr>pl_pollset := items\<rparr>) (ret rc)))))"

text \<open>
  \<^verbatim>\<open>ZMQ::Poller#poll\<close>. The test \<^verbatim>\<open>timeout < 0\<close> is on an unsigned number; the timeout libzmq gets is that
  number as a long.
\<close>

definition rb_czmq_poller_poll :: "'w czmq \<Rightarrow> rvalue list \<Rightarrow> rvalue \<Rightarrow> ('w, rvalue) vcmd" where
  "rb_czmq_poller_poll A argv obj =
     ZmqGetPoller obj (\<lambda>poller.
     rb_scan_args_01 argv (\<lambda>tmout.
     let tmout = (if NIL_P tmout then INT2NUM 0 else tmout)
     in secs_of tmout ''wrong timeout type (expected Fixnum or Float)'' (\<lambda>secs.
        deref pollers poller (\<lambda>q.
        if pl_poll_size q = 0 then ret (INT2NUM 0)
        else
          let poll =
            to_msecs secs (\<lambda>timeout.
             let timeout = (if timeout < 0 then - 1 else timeout)
             in rb_ary_clear (pl_readables q) (
                rb_ary_clear (pl_writables q) (
                call (rb_czmq_nogvl_poll_items A poller (sint timeout)) (\<lambda>rc.
                let finish =
                  (if 0 < rc then call (rb_czmq_poller_rebuild_selectables A poller) (\<lambda>_. ret (INT2NUM rc))
                   else ret (INT2NUM rc))
                in if rc < 0 then
                     ask (zmq_errno A) (\<lambda>e.
                     if e = errcode A EINTR \<or> e = errcode A EAGAIN then finish else ZmqAssert A rc finish)
                   else finish))))
          in if pl_dirty q then
               call (rb_czmq_poller_rebuild_pollset poller) (\<lambda>rc.
               check (rc \<noteq> -1) (ZmqError ''failed in rebuilding the pollset!'') poll)
             else poll))))"

definition rb_czmq_poller_register :: "'w czmq \<Rightarrow> 'w rb_funcall \<Rightarrow> rvalue \<Rightarrow> rvalue \<Rightarrow> ('w, rvalue) vcmd" where
  "rb_czmq_poller_register A rb_funcall obj pollable =
     ZmqGetPoller obj (\<lambda>poller.
     call (rb_czmq_pollitem_coerce A rb_funcall pollable) (\<lambda>pollable.
     ZmqGetPollitem pollable (\<lambda>_.
     deref pollers poller (\<lambda>q.
     let push =
       rb_ary_push (pl_pollables q) pollable (
       set_poller poller (\<lambda>q. q\<lparr>pl_poll_size := pl_poll_size q + 1\<rparr>) (
       set_poller poller (\<lambda>q. q\<lparr>pl_dirty := True\<rparr>) (
       ret pollable)))
     in if pl_verbose q then call (rb_czmq_pollitem_set_verbose pollable Qtrue) (\<lambda>_. push) else push))))"

text \<open>The search of \<^verbatim>\<open>remove\<close> runs over positions until it finds the item; \<open>Inr\<close> holds what it returns.\<close>

definition rb_czmq_poller_remove :: "'w czmq \<Rightarrow> 'w rb_funcall \<Rightarrow> rvalue \<Rightarrow> rvalue \<Rightarrow> ('w, rvalue) vcmd" where
  "rb_czmq_poller_remove A rb_funcall obj pollable =
     ZmqGetPoller obj (\<lambda>poller.
     call (rb_czmq_pollitem_coerce A rb_funcall pollable) (\<lambda>pollable.
     ZmqGetPollitem pollable (\<lambda>_.
     deref pollers poller (\<lambda>q.
     while_do (\<lambda>st. case st of Inl pos \<Rightarrow> int pos < pl_poll_size q | Inr v \<Rightarrow> False)
       (\<lambda>st. case st of
          Inr v \<Rightarrow> ret (Inr v)
        | Inl pos \<Rightarrow>
            rd (\<lambda>s. rb_ary_entry (ary s (pl_pollables q)) pos) (\<lambda>rpollable.
            let remove =
                  rb_ary_delete (pl_pollables q) rpollable (
                  set_poller poller (\<lambda>q. q\<lparr>pl_poll_size := pl_poll_size q - 1\<rparr>) (
                  set_poller poller (\<lambda>q. q\<lparr>pl_dirty := True\<rparr>) (
                  ret (Inr rpollable))))
            in if pollable = rpollable then remove
               else
                 call (rb_czmq_pollitem_pollable pollable) (\<lambda>a.
                 call (rb_czmq_pollitem_pollable rpollable) (\<lambda>b.
                 if a = b then remove else ret (Inl (Suc pos))))))
       (\<lambda>st. ret (case st of Inl pos \<Rightarrow> Qfalse | Inr v \<Rightarrow> v))
       (Inl 0)))))"

definition rb_czmq_poller_readables :: "rvalue \<Rightarrow> ('w, rvalue) vcmd" where
  "rb_czmq_poller_readables obj = ZmqGetPoller obj (\<lambda>poller. deref pollers poller (\<lambda>q. ret (pl_readables q)))"

definition rb_czmq_poller_writables :: "rvalue \<Rightarrow> ('w, rvalue) vcmd" where
  "rb_czmq_poller_writables obj = ZmqGetPoller obj (\<lambda>poller. deref pollers poller (\<lambda>q. ret (pl_writables q)))"

definition rb_czmq_poller_set_verbose :: "rvalue \<Rightarrow> rvalue \<Rightarrow> ('w, rvalue) vcmd" where
  "rb_czmq_poller_set_verbose obj level =
     ZmqGetPoller obj (\<lambda>poller.
     let vlevel = (level = Qtrue)
     in set_poller poller (\<lambda>q. q\<lparr>pl_verbose := vlevel\<rparr>) (ret Qnil))"

end
