(* ===== verification/Zmq_Items.thy ===== *)
theory Zmq_Items
  imports Zmq_Pollitem Zmq_Sockets
begin

text \<open>
  Poll items: the methods of pollers and reactors take a poll item, a socket or an IO object; which
  values give a poll item, and what the making of one changes.
\<close>

declare socket_klass.simps [simp del]

section \<open>Making poll items\<close>

text \<open>
  The poll item of a value, given what \<^verbatim>\<open>fileno\<close> answers for an open IO object: a usable socket that is
  bound or connected, or an IO object with a file number.
\<close>

definition pollitem_for :: "'w czmq \<Rightarrow> (ptr \<Rightarrow> int option) \<Rightarrow> 'w vm \<Rightarrow> rvalue \<Rightarrow> zmq_pollitem_wrapper option" where
  "pollitem_for A fd s v =
     (let evts = ZMQ_POLLIN A OR ZMQ_POLLOUT A;
          item = \<lparr>p_socket = Qnil, p_io = Qnil, p_events = Fixnum (sint evts), p_handler = Qnil,
                  p_item = \<lparr>pi_socket = NULL, pi_fd = 0, pi_events = ucast evts, pi_revents = 0\<rparr>\<rparr>
      in case v of
           Object c q \<Rightarrow>
             if socket_klass c then
               (if q = NULL then None
                else case socks s q of
                  None \<Rightarrow> None
                | Some w \<Rightarrow>
                    if \<not> has (s_flags w) ZMQ_SOCKET_DESTROYED \<and> s_thread w = thread s \<and>
                       has (s_state w) (ZMQ_SOCKET_BOUND OR ZMQ_SOCKET_CONNECTED)
                    then Some (item\<lparr>p_socket := v, p_item := (p_item item)\<lparr>pi_socket := s_socket w\<rparr>\<rparr>)
                    else None)
             else if c = rb_cIO then
               (case fd q of
                  None \<Rightarrow> None
                | Some n \<Rightarrow>
                    if - (2 ^ 31) \<le> n \<and> n < 2 ^ 31
                    then Some (item\<lparr>p_io := v, p_item := (p_item item)\<lparr>pi_fd := n\<rparr>\<rparr>) else None)
             else None
         | _ \<Rightarrow> None)"

text \<open>A program's values: the struct of a socket or poll item object is allocated.\<close>

definition struct_value :: "'w vm \<Rightarrow> rvalue \<Rightarrow> bool" where
  "struct_value s v \<longleftrightarrow>
     (\<forall>c q. v = Object c q \<longrightarrow> q \<noteq> NULL \<longrightarrow>
        (socket_klass c \<longrightarrow> socks s q \<noteq> None) \<and> (c = rb_cZmqPollitem \<longrightarrow> pollitems s q \<noteq> None))"

text \<open>The file number of an open IO object; a closed one raises.\<close>

definition fileno_doc :: "'w rb_funcall \<Rightarrow> (ptr \<Rightarrow> int option) \<Rightarrow> bool" where
  "fileno_doc rb_funcall fd \<longleftrightarrow>
     (\<forall>q s. case fd q of
        Some n \<Rightarrow> rb_funcall (Object rb_cIO q) ''fileno'' [] s = Return (Fixnum n) s
      | None \<Rightarrow> \<exists>e. rb_funcall (Object rb_cIO q) ''fileno'' [] s = Raise e s)"

definition grown :: "'w vm \<Rightarrow> 'w vm \<Rightarrow> bool" where
  "grown s t \<longleftrightarrow>
     t = s \<or> (\<exists>it. t = s\<lparr>pollitems := (pollitems s)(fresh s \<mapsto> it), fresh := Suc (fresh s)\<rparr>)"

lemma no_io_socket [simp]: "\<not> socket_klass rb_cIO" "\<not> socket_klass rb_cZmqPollitem" "\<not> socket_klass rb_cArray"
  by (simp_all add: socket_klass.simps)

lemma has_or: "f \<noteq> 0 \<Longrightarrow> has (f OR g) f"
proof -
  have "(f OR g) AND f = f" by (rule bit_eqI) (auto simp: bit_simps)
  then show "f \<noteq> 0 \<Longrightarrow> has (f OR g) f" by (simp add: has_def)
qed

lemma word_of_sint: "word_of_int (sint (n :: flags)) = n" "- (2 ^ 31) \<le> sint (n :: flags)" "sint (n :: flags) < 2 ^ 31"
  using sint_ge [of n] sint_lt [of n] by simp_all

lemma filenoD:
  assumes "fileno_doc f fd"
  shows "fd q = Some n \<Longrightarrow> f (Object rb_cIO q) ''fileno'' [] s = Return (Fixnum n) s"
    and "fd q = None \<Longrightarrow> \<exists>e. f (Object rb_cIO q) ''fileno'' [] s = Raise e s"
proof -
  have "case fd q of Some n \<Rightarrow> f (Object rb_cIO q) ''fileno'' [] s = Return (Fixnum n) s
      | None \<Rightarrow> \<exists>e. f (Object rb_cIO q) ''fileno'' [] s = Raise e s"
    using assms by (simp add: fileno_doc_def)
  then show "fd q = Some n \<Longrightarrow> f (Object rb_cIO q) ''fileno'' [] s = Return (Fixnum n) s"
    "fd q = None \<Longrightarrow> \<exists>e. f (Object rb_cIO q) ''fileno'' [] s = Raise e s" by simp_all
qed

lemma grown_simps [simp]:
  "grown s s"
  "grown s (s\<lparr>pollitems := (pollitems s)(fresh s \<mapsto> it), fresh := Suc (fresh s)\<rparr>)"
  "grown s (s\<lparr>fresh := Suc (fresh s), pollitems := (pollitems s)(fresh s \<mapsto> it)\<rparr>)"
  unfolding grown_def by (blast, blast, intro disjI2 exI [of _ it], simp)

lemma new_item_run:
  assumes "ZMQ_POLLIN A \<noteq> 0" and "struct_value s v" and "fileno_doc f fd"
  shows "case pollitem_for A fd s v of
      Some it \<Rightarrow> rb_czmq_pollitem_s_new A f [v] s = Return (Object rb_cZmqPollitem (fresh s))
        (s\<lparr>pollitems := (pollitems s)(fresh s \<mapsto> it), fresh := Suc (fresh s)\<rparr>)
    | None \<Rightarrow> \<exists>e t. rb_czmq_pollitem_s_new A f [v] s = Raise e t \<and> grown s t"
proof -
  note evts = has_or [OF assms(1)] word_of_sint
  note new = rb_czmq_pollitem_s_new_def INT2NUM_def NIL_P_def pollitem_for_def Let_def is_socket_def
  show ?thesis
  proof (cases v)
    case (Object c q)
    consider (sock) "socket_klass c" | (io) "c = rb_cIO" | (other) "\<not> socket_klass c" "c \<noteq> rb_cIO" by blast
    then show ?thesis
    proof cases
      case sock
      show ?thesis
      proof (cases "q = NULL")
        case True
        then show ?thesis using Object sock evts by (auto simp: new GetZmqSocket_def fetch_def)
      next
        case False
        then obtain w where "socks s q = Some w" using assms(2) Object sock by (auto simp: struct_value_def)
        then show ?thesis using Object sock evts False by (auto simp: new GetZmqSocket_def fetch_def)
      qed
    next
      case io
      show ?thesis
      proof (cases "fd q")
        case None
        then obtain e where e: "f (Object rb_cIO q) ''fileno'' [] t = Raise (e t) t" for t
          using filenoD(2) [OF assms(3)] by metis
        then show ?thesis using Object io evts None by (auto simp: new call_run(2) [OF e])
      next
        case (Some n)
        note n = filenoD(1) [OF assms(3) Some]
        then show ?thesis using Object io evts Some by (auto simp: new call_run(1) [OF n])
      qed
    next
      case other
      then have "(case c of rb_cIO \<Rightarrow> x | _ \<Rightarrow> y) = y" for x y :: "('a, rvalue) vcmd" by (cases c) simp_all
      then show ?thesis using Object evts other by (simp add: new)
    qed
  qed (use evts in \<open>auto simp: new\<close>)
qed

text \<open>The poll item that a poller method works on: the one it is given, or a new one.\<close>

definition coerced :: "'w czmq \<Rightarrow> (ptr \<Rightarrow> int option) \<Rightarrow> 'w vm \<Rightarrow> rvalue \<Rightarrow> (ptr \<times> zmq_pollitem_wrapper) option" where
  "coerced A fd s v =
     (case v of
        Object c i \<Rightarrow>
          if c = rb_cZmqPollitem then (if i = NULL then None else map_option (Pair i) (pollitems s i))
          else map_option (Pair (fresh s)) (pollitem_for A fd s v)
      | _ \<Rightarrow> None)"

lemma coerced_run:
  assumes "ZMQ_POLLIN A \<noteq> 0" and "struct_value s v" and "fileno_doc f fd" and "0 < fresh s"
  shows "case coerced A fd s v of
      Some (i, it) \<Rightarrow> i \<noteq> NULL \<and> (\<exists>t. rb_czmq_pollitem_coerce A f v s = Return (Object rb_cZmqPollitem i) t \<and>
        grown s t \<and> pollitems t i = Some it \<and> (v = Object rb_cZmqPollitem i \<or> fresh t = Suc (fresh s)))
    | None \<Rightarrow> \<exists>t. grown s t \<and> ((\<exists>e. rb_czmq_pollitem_coerce A f v s = Raise e t) \<or>
        rb_czmq_pollitem_coerce A f v s = Return (Object rb_cZmqPollitem NULL) t)"
proof -
  note new = new_item_run [OF assms(1-3)]
  show ?thesis
  proof (cases "\<exists>i. v = Object rb_cZmqPollitem i")
    case True
    then show ?thesis using assms(2)
      by (auto simp: coerced_def rb_czmq_pollitem_coerce_def rb_czmq_pollitem_s_coerce_def struct_value_def
          split: option.split if_splits)
  next
    case False
    then have c: "rb_czmq_pollitem_coerce A f v = rb_czmq_pollitem_s_new A f [v]"
      "coerced A fd s v = map_option (Pair (fresh s)) (pollitem_for A fd s v)"
      by (auto simp: coerced_def rb_czmq_pollitem_coerce_def rb_czmq_pollitem_s_coerce_def pollitem_for_def Let_def
          split: rvalue.split klass.split)
    show ?thesis
    proof (cases "pollitem_for A fd s v")
      case None
      then show ?thesis using new c by auto
    next
      case (Some it)
      then show ?thesis using new c assms(4) by (auto simp: grown_def)
    qed
  qed
qed

text \<open>Fetching the item of a method.\<close>

lemma wp_coerced:
  assumes doc: "ZMQ_POLLIN A \<noteq> 0" "struct_value s v" "fileno_doc f fd" and pos: "0 < fresh s"
    and none: "\<And>t e. coerced A fd s v = None \<Longrightarrow> grown s t \<Longrightarrow> E e t"
    and some: "\<And>i it t. coerced A fd s v = Some (i, it) \<Longrightarrow> i \<noteq> NULL \<Longrightarrow> grown s t \<Longrightarrow> pollitems t i = Some it \<Longrightarrow>
      v = Object rb_cZmqPollitem i \<or> fresh t = Suc (fresh s) \<Longrightarrow> wp (k (Object rb_cZmqPollitem i) i) Q E t"
  shows "wp (call (rb_czmq_pollitem_coerce A f v) (\<lambda>v. ZmqGetPollitem v (k v))) Q E s"
proof (cases "coerced A fd s v")
  case None
  then obtain t where "grown s t" "(\<exists>e. rb_czmq_pollitem_coerce A f v s = Raise e t) \<or>
      rb_czmq_pollitem_coerce A f v s = Return (Object rb_cZmqPollitem NULL) t"
    using coerced_run [OF doc pos] by auto
  then show ?thesis using none [OF None] by (auto simp: wp_def call_def ZmqGetPollitem_def fetch_def)
next
  case (Some x)
  obtain i it where x: "x = (i, it)" by fastforce
  then obtain t where "i \<noteq> NULL" "rb_czmq_pollitem_coerce A f v s = Return (Object rb_cZmqPollitem i) t" "grown s t"
    "pollitems t i = Some it" "v = Object rb_cZmqPollitem i \<or> fresh t = Suc (fresh s)"
    using coerced_run [OF doc pos] Some by auto
  then show ?thesis using some [of i it t] Some x by (simp add: wp_def call_def)
qed

text \<open>A verbose poller or reactor makes the socket of a new member verbose, for which it must be open.\<close>

definition announced :: "'w vm \<Rightarrow> zmq_pollitem_wrapper \<Rightarrow> bool" where
  "announced s it =
     (case p_socket it of
        Object c q \<Rightarrow> \<not> socket_klass c \<or> q \<noteq> NULL \<and>
          (case socks s q of None \<Rightarrow> False | Some w \<Rightarrow> \<not> has (s_flags w) ZMQ_SOCKET_DESTROYED)
      | _ \<Rightarrow> True)"

lemma announce_run:
  assumes "i \<noteq> NULL" "pollitems t i = Some it" "struct_value t (p_socket it)"
  shows "announced t it \<Longrightarrow> \<exists>ss. rb_czmq_pollitem_set_verbose (Object rb_cZmqPollitem i) Qtrue t = Return Qnil (t\<lparr>socks := ss\<rparr>)"
    and "\<not> announced t it \<Longrightarrow> \<exists>e. rb_czmq_pollitem_set_verbose (Object rb_cZmqPollitem i) Qtrue t = Raise e t"
proof -
  have "announced t it \<and> (\<exists>ss. rb_czmq_pollitem_set_verbose (Object rb_cZmqPollitem i) Qtrue t = Return Qnil (t\<lparr>socks := ss\<rparr>)) \<or>
      \<not> announced t it \<and> (\<exists>e. rb_czmq_pollitem_set_verbose (Object rb_cZmqPollitem i) Qtrue t = Raise e t)"
  proof (cases "p_socket it")
    case (Object c q)
    show ?thesis
    proof (cases "socket_klass c")
      case True
      show ?thesis
      proof (cases "q = NULL")
        case True
        then show ?thesis using Object \<open>socket_klass c\<close> assms
          by (simp add: announced_def rb_czmq_pollitem_set_verbose_def is_socket_def GetZmqSocket_def fetch_def)
      next
        case False
        then obtain w where "socks t q = Some w" using assms(3) Object True by (auto simp: struct_value_def)
        then show ?thesis using Object True False assms(1,2)
          by (auto simp: announced_def rb_czmq_pollitem_set_verbose_def is_socket_def GetZmqSocket_def fetch_def)
      qed
    next
      case False
      then show ?thesis using Object assms
        by (auto simp: announced_def rb_czmq_pollitem_set_verbose_def is_socket_def intro: exI [of _ "socks t"])
    qed
  qed (use assms in \<open>auto simp: announced_def rb_czmq_pollitem_set_verbose_def is_socket_def intro: exI [of _ "socks t"]\<close>)
  then show "announced t it \<Longrightarrow> \<exists>ss. rb_czmq_pollitem_set_verbose (Object rb_cZmqPollitem i) Qtrue t = Return Qnil (t\<lparr>socks := ss\<rparr>)"
    "\<not> announced t it \<Longrightarrow> \<exists>e. rb_czmq_pollitem_set_verbose (Object rb_cZmqPollitem i) Qtrue t = Raise e t" by blast+
qed

lemma grown_announced: "grown s t \<Longrightarrow> announced t it \<longleftrightarrow> announced s it"
  by (auto simp: grown_def announced_def split: rvalue.split)

lemma pollitem_for_socket:
  "pollitem_for A fd s v = Some it \<Longrightarrow> p_socket it = v \<or> p_socket it = Qnil"
  by (auto simp: pollitem_for_def Let_def split: rvalue.splits if_splits option.splits)

lemma coerced_socket:
  assumes "coerced A fd s v = Some (i, it)" and "struct_value s v"
    and "\<And>i it. v = Object rb_cZmqPollitem i \<Longrightarrow> pollitems s i = Some it \<Longrightarrow> struct_value s (p_socket it)"
  shows "struct_value s (p_socket it)"
proof -
  have "struct_value s Qnil" by (simp add: struct_value_def)
  then show ?thesis
    using assms pollitem_for_socket [of A fd s v it]
    by (auto simp: coerced_def split: rvalue.splits if_splits)
qed

lemma grown_struct: "grown s t \<Longrightarrow> struct_value s v \<Longrightarrow> struct_value t v"
  by (auto simp: struct_value_def grown_def)

end
