(* ===== verification/Zmq_Poll_Theorems.thy ===== *)
theory Zmq_Poll_Theorems
  imports Zmq_Poller Zmq_Items Zmq_Sample
begin

text \<open>
  Pollers. What registering, removing and polling do is specified on the members of a poller and the
  two lists it reports; the code, with its C array of poll items that is rebuilt on demand, refines
  that specification in every program.
\<close>

declare socket_klass.simps [simp del]

section \<open>Counting loops\<close>

text \<open>A loop over positions: \<open>S k\<close> is the state after \<open>k\<close> rounds.\<close>

lemma count_loop:
  assumes "\<And>k. k < n \<Longrightarrow> c k (S k) = Return (Suc k) (S (Suc k))"
  shows "while_do (\<lambda>k. int k < int n) c K 0 (S 0) = K n (S n)"
proof -
  have "while_do (\<lambda>k. int k < int n) c K (n - d) (S (n - d)) = K n (S n)" if "d \<le> n" for d
    using that
  proof (induction d)
    case 0
    then show ?case by (simp add: while_do_stop)
  next
    case (Suc d)
    then have "Suc (n - Suc d) = n - d" by simp
    then show ?case
      using Suc assms [of "n - Suc d"] by (subst while_do_step [where y = "n - d" and s' = "S (n - d)"]) simp_all
  qed
  from this [of n] show ?thesis by simp
qed

text \<open>A search over positions that stops at the first hit.\<close>

lemma search_loop:
  fixes c :: "nat + 'v \<Rightarrow> ('w vm, nat + 'v) cmd"
  assumes "\<And>i. i < n \<Longrightarrow> \<not> hit i \<Longrightarrow> c (Inl i) s = Return (Inl (Suc i)) s"
    and "\<And>i. i < n \<Longrightarrow> hit i \<Longrightarrow> c (Inl i) s = Return (Inr (v i)) (t i)"
  shows "while_do (\<lambda>st. case st of Inl i \<Rightarrow> int i < int n | Inr x \<Rightarrow> False) c K (Inl 0) s =
    (case List.find hit [0..<n] of None \<Rightarrow> K (Inl n) s | Some i \<Rightarrow> K (Inr (v i)) (t i))"
proof -
  have "while_do (\<lambda>st. case st of Inl i \<Rightarrow> int i < int n | Inr x \<Rightarrow> False) c K (Inl (n - d)) s =
      (case List.find hit [n - d..<n] of None \<Rightarrow> K (Inl n) s | Some i \<Rightarrow> K (Inr (v i)) (t i))" if "d \<le> n" for d
    using that
  proof (induction d)
    case 0
    then show ?case by (simp add: while_do_stop)
  next
    case (Suc d)
    then have n: "n - Suc d < n" "[n - Suc d..<n] = (n - Suc d) # [n - d..<n]" "Suc (n - Suc d) = n - d"
      by (simp_all add: upt_conv_Cons Suc_diff_Suc)
    show ?case
    proof (cases "hit (n - Suc d)")
      case True
      then show ?thesis
        using n assms(2) [OF n(1) True]
        by (subst while_do_step [where y = "Inr (v (n - Suc d))" and s' = "t (n - Suc d)"]) (simp_all add: while_do_stop)
    next
      case False
      then show ?thesis
        using n assms(1) [OF n(1) False] Suc
        by (subst while_do_step [where y = "Inl (n - d)" and s' = s]) simp_all
    qed
  qed
  from this [OF order.refl] show ?thesis by (simp only: diff_self_eq_0)
qed

section \<open>The state of a poller\<close>

definition no_pollitem :: zmq_pollitem_wrapper where
  "no_pollitem = \<lparr>p_socket = Qnil, p_io = Qnil, p_events = Qnil, p_handler = Qnil, p_item = no_item\<rparr>"

definition item_of :: "'w vm \<Rightarrow> rvalue \<Rightarrow> zmq_pollitem_wrapper" where
  "item_of s v =
     (case v of Object c i \<Rightarrow> (case pollitems s i of Some it \<Rightarrow> it | None \<Rightarrow> no_pollitem) | _ \<Rightarrow> no_pollitem)"

definition pollable_of :: "zmq_pollitem_wrapper \<Rightarrow> rvalue" where
  "pollable_of it = (if NIL_P (p_socket it) then p_io it else p_socket it)"

text \<open>What is polled, without the events of the last poll.\<close>

definition unseen :: "zmq_pollitem_t \<Rightarrow> zmq_pollitem_t" where
  "unseen i = i\<lparr>pi_revents := 0\<rparr>"

text \<open>
  The abstract state: the members in order, each a poll item object with its pollable and what is
  polled for, and the two lists the poller reports.
\<close>

type_synonym member = "rvalue \<times> rvalue \<times> zmq_pollitem_t"

record poller_view =
  members :: "member list"
  readable_now :: "rvalue list"
  writable_now :: "rvalue list"
  chatty :: bool

definition member_of :: "'w vm \<Rightarrow> rvalue \<Rightarrow> member" where
  "member_of s v = (v, pollable_of (item_of s v), unseen (p_item (item_of s v)))"

definition abs_poller :: "ptr \<Rightarrow> 'w vm \<Rightarrow> poller_view" where
  "abs_poller p s =
     (case pollers s p of
        None \<Rightarrow> \<lparr>members = [], readable_now = [], writable_now = [], chatty = False\<rparr>
      | Some q \<Rightarrow> \<lparr>members = map (member_of s) (ary s (pl_pollables q)), readable_now = ary s (pl_readables q),
          writable_now = ary s (pl_writables q), chatty = pl_verbose q\<rparr>)"

text \<open>
  The invariant: the three arrays are distinct, the size is the number of members, the members are
  distinct poll items, and a C array that is not marked dirty is the one the members would give.
\<close>

definition registered :: "'w vm \<Rightarrow> rvalue \<Rightarrow> bool" where
  "registered s v \<longleftrightarrow>
     (\<exists>i it. v = Object rb_cZmqPollitem i \<and> i \<noteq> NULL \<and> i < fresh s \<and> pollitems s i = Some it)"

definition poller_at :: "'w vm \<Rightarrow> ptr \<Rightarrow> zmq_poll_wrapper \<Rightarrow> ptr \<Rightarrow> ptr \<Rightarrow> ptr \<Rightarrow> rvalue list \<Rightarrow> bool" where
  "poller_at s p q a r w vs \<longleftrightarrow>
     p \<noteq> NULL \<and> 0 < fresh s \<and> pollers s p = Some q \<and> pl_pollables q = Object rb_cArray a \<and>
     pl_readables q = Object rb_cArray r \<and> pl_writables q = Object rb_cArray w \<and>
     a \<noteq> r \<and> a \<noteq> w \<and> r \<noteq> w \<and> arrays s a = Some vs \<and> arrays s r \<noteq> None \<and> arrays s w \<noteq> None \<and>
     pl_poll_size q = int (length vs) \<and> distinct vs \<and> (\<forall>v. v \<in> set vs \<longrightarrow> registered s v) \<and>
     (\<not> pl_dirty q \<longrightarrow> map unseen (pl_pollset q) = map (\<lambda>v. unseen (p_item (item_of s v))) vs)"

definition poller_inv :: "ptr \<Rightarrow> 'w vm \<Rightarrow> bool" where
  "poller_inv p s \<longleftrightarrow> (\<exists>q a r w vs. poller_at s p q a r w vs)"

lemma poller_atD:
  assumes "poller_at s p q a r w vs"
  shows "p \<noteq> NULL" "0 < fresh s" "pollers s p = Some q" "pl_pollables q = Object rb_cArray a"
    "pl_readables q = Object rb_cArray r" "pl_writables q = Object rb_cArray w"
    "a \<noteq> r" "a \<noteq> w" "r \<noteq> w" "arrays s a = Some vs" "arrays s r \<noteq> None" "arrays s w \<noteq> None"
    "pl_poll_size q = int (length vs)" "distinct vs" "v \<in> set vs \<Longrightarrow> registered s v"
    "\<not> pl_dirty q \<Longrightarrow> map unseen (pl_pollset q) = map (\<lambda>v. unseen (p_item (item_of s v))) vs"
  using assms by (simp_all add: poller_at_def)

lemma registered_grown:
  assumes "registered s v" and "grown s t"
  shows "registered t v" "item_of t v = item_of s v" "member_of t v = member_of s v"
  using assms by (auto simp: registered_def grown_def item_of_def member_of_def)

lemma ary_cong:
  assumes "arrays t = arrays s"
  shows "ary t = ary s"
  unfolding ary_def assms by (rule refl)

lemma poller_at_grown:
  assumes "poller_at s p q a r w vs" and "grown s t"
  shows "poller_at t p q a r w vs" "abs_poller p t = abs_poller p s"
proof -
  note reg = registered_grown [OF poller_atD(15) [OF assms(1)] assms(2)]
  have t: "pollers t = pollers s" "arrays t = arrays s" "0 < fresh s \<Longrightarrow> 0 < fresh t"
    using assms(2) by (auto simp: grown_def)
  have "map (\<lambda>v. unseen (p_item (item_of t v))) vs = map (\<lambda>v. unseen (p_item (item_of s v))) vs"
    using reg(2) by simp
  then show "poller_at t p q a r w vs"
    using assms(1) reg(1) t unfolding poller_at_def by auto
  note ary_cong [OF t(2)]
  then show "abs_poller p t = abs_poller p s"
    using poller_atD(3,4,10) [OF assms(1)] reg(3) t(1) by (simp add: abs_poller_def)
qed

section \<open>The pollset and the reported lists\<close>

lemma rebuild_pollset:
  assumes "poller_at s p q a r w vs"
  shows "rb_czmq_poller_rebuild_pollset p s = Return 0
    (s\<lparr>pollers := (pollers s)(p \<mapsto> q\<lparr>pl_pollset := map (\<lambda>v. p_item (item_of s v)) vs, pl_dirty := False\<rparr>)\<rparr>)"
proof -
  note at = poller_atD [OF assms]
  let ?set = "\<lambda>k. map (\<lambda>v. p_item (item_of s v)) (take k vs) @ replicate (length vs - k) no_item"
  let ?S = "\<lambda>k. s\<lparr>pollers := (pollers s)(p \<mapsto> q\<lparr>pl_pollset := ?set k\<rparr>)\<rparr>"
  let ?c = "\<lambda>k. rd (\<lambda>s. rb_ary_entry (ary s (pl_pollables q)) k) (\<lambda>pollable.
      ZmqGetPollitem pollable (\<lambda>i. deref pollitems i (\<lambda>it.
      set_poller p (\<lambda>q. q\<lparr>pl_pollset := (pl_pollset q)[k := p_item it]\<rparr>) (ret (Suc k)))))"
  have step: "?c k (?S k) = Return (Suc k) (?S (Suc k))" if k: "k < length vs" for k
  proof -
    obtain i it where i: "vs ! k = Object rb_cZmqPollitem i" "i \<noteq> NULL" "pollitems s i = Some it"
      using at(15) [OF nth_mem [OF k]] by (auto simp: registered_def)
    have "length vs - k = Suc (length vs - Suc k)" using k by simp
    then have "(?set k)[k := p_item it] = ?set (Suc k)"
      using k i by (simp add: list_update_append take_Suc_conv_app_nth item_of_def)
    then show ?thesis using i at k by (simp add: rb_ary_entry_def ary_def)
  qed
  have "while_do (\<lambda>k. int k < int (length vs)) ?c (\<lambda>_. set_poller p (\<lambda>q. q\<lparr>pl_dirty := False\<rparr>) (ret 0)) 0 (?S 0) =
      set_poller p (\<lambda>q. q\<lparr>pl_dirty := False\<rparr>) (ret 0) (?S (length vs))"
    by (rule count_loop [of "length vs" ?c ?S, OF step])
  then show ?thesis using at by (simp add: rb_czmq_poller_rebuild_pollset_def)
qed

text \<open>What is reported of the pollables and the events that libzmq saw on them, for one kind of event.\<close>

definition reported :: "flags \<Rightarrow> (rvalue \<times> zmq_pollitem_t) list \<Rightarrow> rvalue list" where
  "reported f xs = map fst (filter (\<lambda>(x, i). has (scast (pi_revents i)) f) xs)"

lemma reported_snoc:
  "reported f (xs @ [(x, i)]) = (if has (scast (pi_revents i)) f then reported f xs @ [x] else reported f xs)"
  by (simp add: reported_def)

lemma pollable_run:
  assumes "registered s v"
  shows "rb_czmq_pollitem_pollable v s = Return (pollable_of (item_of s v)) s"
  using assms by (auto simp: registered_def rb_czmq_pollitem_pollable_def pollable_of_def item_of_def)

lemma pollable_call [simp]:
  "i \<noteq> NULL \<Longrightarrow> pollitems s i = Some it \<Longrightarrow>
     call (rb_czmq_pollitem_pollable (Object rb_cZmqPollitem i)) k s = k (pollable_of it) s"
  by (simp add: rb_czmq_pollitem_pollable_def pollable_of_def call_def)

lemma rebuild_selectables:
  assumes "poller_at s p q a r w vs" and "length (pl_pollset q) = length vs"
  defines "seen \<equiv> zip (map (\<lambda>v. pollable_of (item_of s v)) vs) (pl_pollset q)"
  shows "rb_czmq_poller_rebuild_selectables A p s = Return 0 (s\<lparr>arrays := (arrays s)
    (r \<mapsto> reported (ZMQ_POLLIN A) seen, w \<mapsto> reported (ZMQ_POLLOUT A) seen)\<rparr>)"
proof -
  note at = poller_atD [OF assms(1)]
  let ?S = "\<lambda>k. s\<lparr>arrays := (arrays s)
    (r \<mapsto> reported (ZMQ_POLLIN A) (take k seen), w \<mapsto> reported (ZMQ_POLLOUT A) (take k seen))\<rparr>"
  let ?c = "\<lambda>k. let item = pl_pollset q ! k
      in rd (\<lambda>s. rb_ary_entry (ary s (pl_pollables q)) k) (\<lambda>pollable.
         ZmqGetPollitem pollable (\<lambda>_.
         let push_to = (\<lambda>array k. call (rb_czmq_pollitem_pollable pollable) (\<lambda>v. rb_ary_push array v k));
             writable =
               (if has (scast (pi_revents item)) (ZMQ_POLLOUT A) then push_to (pl_writables q) (ret (Suc k))
                else ret (Suc k))
         in if has (scast (pi_revents item)) (ZMQ_POLLIN A) then push_to (pl_readables q) writable
            else writable))"
  have step: "?c k (?S k) = Return (Suc k) (?S (Suc k))" if k: "k < length vs" for k
  proof -
    obtain i it where i: "vs ! k = Object rb_cZmqPollitem i" "i \<noteq> NULL" "pollitems s i = Some it"
      using at(15) [OF nth_mem [OF k]] by (auto simp: registered_def)
    have "take (Suc k) seen = take k seen @ [(pollable_of it, pl_pollset q ! k)]"
      using k assms(2) i by (simp add: seen_def take_Suc_conv_app_nth item_of_def)
    then show ?thesis
      using i at k by (simp add: rb_ary_entry_def ary_def reported_snoc fun_upd_twist [OF at(9)])
  qed
  have "while_do (\<lambda>k. int k < int (length vs)) ?c (\<lambda>_. ret 0) 0 (?S 0) = ret 0 (?S (length vs))"
    by (rule count_loop [of "length vs" ?c ?S, OF step])
  then show ?thesis
    using at assms(2) by (simp add: rb_czmq_poller_rebuild_selectables_def seen_def reported_def)
qed

section \<open>What the methods do\<close>

text \<open>
  What the methods rely on: with a timeout that is not negative libzmq returns. It writes the events
  it saw into the items it is given and nothing else, whatever events were there before, and answers
  how many items have events.
\<close>

definition poll_doc :: "'w czmq \<Rightarrow> bool" where
  "poll_doc A \<longleftrightarrow>
     ZMQ_POLLIN A \<noteq> 0 \<and>
     (\<forall>items t w. (\<forall>i. i \<in> set items \<longrightarrow> pi_socket i \<noteq> NULL \<longrightarrow> zsocks (view A w) (pi_socket i) \<noteq> None) \<longrightarrow>
        zmq_poll A items t w = zmq_poll A (map unseen items) t w \<and>
        (0 \<le> t \<longrightarrow> zmq_poll A items t w \<noteq> None) \<and>
        (\<forall>rc out w'. zmq_poll A items t w = Some ((rc, out), w') \<longrightarrow>
           map unseen out = map unseen items \<and> view A w' = view A w \<and>
           (0 \<le> rc \<longrightarrow> rc = int (length (filter (\<lambda>i. pi_revents i \<noteq> 0) out)))))"

lemma poll_docD:
  assumes "poll_doc A"
    and "\<And>i. i \<in> set items \<Longrightarrow> pi_socket i \<noteq> NULL \<Longrightarrow> zsocks (view A w) (pi_socket i) \<noteq> None"
  shows "zmq_poll A (map unseen items) t w = zmq_poll A items t w" "0 \<le> t \<Longrightarrow> zmq_poll A items t w \<noteq> None"
    "zmq_poll A items t w = Some ((rc, out), w') \<Longrightarrow> map unseen out = map unseen items"
    "zmq_poll A items t w = Some ((rc, out), w') \<Longrightarrow> view A w' = view A w"
    "zmq_poll A items t w = Some ((rc, out), w') \<Longrightarrow> 0 \<le> rc \<Longrightarrow> rc = int (length (filter (\<lambda>i. pi_revents i \<noteq> 0) out))"
proof -
  note d = conjunct2 [OF assms(1) [unfolded poll_doc_def], THEN spec, of items, THEN spec, of t, THEN spec, of w,
    THEN mp, OF allI, OF impI, OF impI, OF assms(2)]
  show "zmq_poll A (map unseen items) t w = zmq_poll A items t w" using d by simp
  show "0 \<le> t \<Longrightarrow> zmq_poll A items t w \<noteq> None" using d by blast
  show "map unseen out = map unseen items" "view A w' = view A w"
      "0 \<le> rc \<Longrightarrow> rc = int (length (filter (\<lambda>i. pi_revents i \<noteq> 0) out))"
    if "zmq_poll A items t w = Some ((rc, out), w')" using d that by blast+
qed

datatype poller_call = Register rvalue | Deregister rvalue | Poll "rvalue list" | Set_verbose rvalue

fun run_poller :: "'w czmq \<Rightarrow> 'w rb_funcall \<Rightarrow> rvalue \<Rightarrow> poller_call \<Rightarrow> ('w, rvalue) vcmd" where
  "run_poller A f obj (Register v) = rb_czmq_poller_register A f obj v"
| "run_poller A f obj (Deregister v) = rb_czmq_poller_remove A f obj v"
| "run_poller A f obj (Poll argv) = rb_czmq_poller_poll A argv obj"
| "run_poller A f obj (Set_verbose v) = rb_czmq_poller_set_verbose obj v"

text \<open>
  The seconds of a \<^verbatim>\<open>poll\<close>, when its arguments are accepted, and the timeout in milliseconds, when C
  can convert the seconds.
\<close>

definition seconds_of :: "rvalue list \<Rightarrow> rat option" where
  "seconds_of argv =
     (case argv of
        [] \<Rightarrow> Some 0
      | [v] \<Rightarrow> (case v of Qnil \<Rightarrow> Some 0 | Fixnum n \<Rightarrow> Some (fl (of_int n)) | Float r \<Rightarrow> Some r | _ \<Rightarrow> None)
      | _ \<Rightarrow> None)"

definition timeout_of :: "rvalue list \<Rightarrow> 64 word option" where
  "timeout_of argv = Option.bind (seconds_of argv) size_t_msecs"

text \<open>
  The calls of a program: a poll item is registered once; when something is polled, its sockets are
  open and the timeout is one that C can convert and that is not negative for libzmq.
\<close>

fun poller_valid :: "'w czmq \<Rightarrow> ptr \<Rightarrow> 'w vm \<Rightarrow> poller_call \<Rightarrow> bool" where
  "poller_valid A p s (Register v) \<longleftrightarrow>
     struct_value s v \<and> v \<notin> fst ` set (members (abs_poller p s)) \<and>
     (\<forall>i it. v = Object rb_cZmqPollitem i \<longrightarrow> pollitems s i = Some it \<longrightarrow> i < fresh s \<and> struct_value s (p_socket it))"
| "poller_valid A p s (Deregister v) \<longleftrightarrow> struct_value s v"
| "poller_valid A p s (Poll argv) \<longleftrightarrow>
     (\<forall>m. m \<in> set (members (abs_poller p s)) \<longrightarrow> pi_socket (snd (snd m)) \<noteq> NULL \<longrightarrow>
        zsocks (view A (lib s)) (pi_socket (snd (snd m))) \<noteq> None) \<and>
     (seconds_of argv \<noteq> None \<longrightarrow> members (abs_poller p s) \<noteq> [] \<longrightarrow> (\<exists>n. timeout_of argv = Some n \<and> 0 \<le> sint n))"
| "poller_valid A p s (Set_verbose v) \<longleftrightarrow> True"

text \<open>What a poll reports, given the answer of libzmq for the members.\<close>

definition polled :: "'w czmq \<Rightarrow> rvalue list \<Rightarrow> 'w \<Rightarrow> poller_view \<Rightarrow> poller_view" where
  "polled A argv w V =
     (case timeout_of argv of
        None \<Rightarrow> V
      | Some t \<Rightarrow>
          if members V = [] then V
          else (case zmq_poll A (map (snd \<circ> snd) (members V)) (sint t) w of
                  None \<Rightarrow> V
                | Some ((rc, out), w') \<Rightarrow>
                    let seen = (if 0 < rc then zip (map (fst \<circ> snd) (members V)) out else [])
                    in V\<lparr>readable_now := reported (ZMQ_POLLIN A) seen, writable_now := reported (ZMQ_POLLOUT A) seen\<rparr>))"

text \<open>\<^verbatim>\<open>remove\<close> takes the first member that is the item, or whose pollable is that of the item.\<close>

definition matching :: "rvalue \<Rightarrow> rvalue \<Rightarrow> member list \<Rightarrow> member option" where
  "matching v x ms = List.find (\<lambda>m. v = fst m \<or> x = fst (snd m)) ms"

fun poller_effect ::
  "'w czmq \<Rightarrow> (ptr \<Rightarrow> int option) \<Rightarrow> 'w vm \<Rightarrow> poller_call \<Rightarrow> poller_view \<Rightarrow> poller_view" where
  "poller_effect A fd s (Register v) V =
     (case coerced A fd s v of
        None \<Rightarrow> V
      | Some (i, it) \<Rightarrow>
          if chatty V \<and> \<not> announced s it then V
          else V\<lparr>members := members V @ [(Object rb_cZmqPollitem i, pollable_of it, unseen (p_item it))]\<rparr>)"
| "poller_effect A fd s (Deregister v) V =
     (case coerced A fd s v of
        None \<Rightarrow> V
      | Some (i, it) \<Rightarrow>
          (case matching (Object rb_cZmqPollitem i) (pollable_of it) (members V) of
             None \<Rightarrow> V
           | Some m \<Rightarrow> V\<lparr>members := filter (\<lambda>n. fst n \<noteq> fst m) (members V)\<rparr>))"
| "poller_effect A fd s (Poll argv) V = polled A argv (lib s) V"
| "poller_effect A fd s (Set_verbose v) V = V\<lparr>chatty := (v = Qtrue)\<rparr>"

definition poller_to :: "ptr \<Rightarrow> poller_view \<Rightarrow> 'w vm \<Rightarrow> bool" where
  "poller_to p V t \<longleftrightarrow> poller_inv p t \<and> abs_poller p t = V"

lemma poller_toI: "poller_at t p q a r w vs \<Longrightarrow> abs_poller p t = V \<Longrightarrow> poller_to p V t"
  unfolding poller_to_def poller_inv_def by blast

lemma same_items:
  assumes "pollitems t = pollitems s"
  shows "item_of t = item_of s" "member_of t = member_of s"
proof -
  show "item_of t = item_of s" unfolding item_of_def assms by (rule refl)
  then show "member_of t = member_of s" unfolding member_of_def by (rule arg_cong)
qed

text \<open>A poller does not depend on the state of the libraries.\<close>

lemma poller_lib [simp]:
  "poller_inv p (s\<lparr>lib := w\<rparr>) \<longleftrightarrow> poller_inv p s" "abs_poller p (s\<lparr>lib := w\<rparr>) = abs_poller p s"
proof -
  have same: "item_of (s\<lparr>lib := w\<rparr>) = item_of s" "member_of (s\<lparr>lib := w\<rparr>) = member_of s"
    by (rule same_items, simp)+
  show "poller_inv p (s\<lparr>lib := w\<rparr>) \<longleftrightarrow> poller_inv p s"
    unfolding poller_inv_def poller_at_def same by (simp add: registered_def)
  have "ary (s\<lparr>lib := w\<rparr>) = ary s" by (rule ary_cong) simp
  then show "abs_poller p (s\<lparr>lib := w\<rparr>) = abs_poller p s"
    unfolding abs_poller_def same by (cases "pollers s p") simp_all
qed

text \<open>The state after a method, from its three arrays and the struct of the poller.\<close>

lemma poller_to_upd:
  assumes at: "poller_at s p q a r w vs" and t: "pollitems t = pollitems s" "fresh t = fresh s" "pollers t p = Some q'"
    and q: "pl_pollables q' = pl_pollables q" "pl_readables q' = pl_readables q" "pl_writables q' = pl_writables q"
    and arrays: "arrays t a = Some vs'" "arrays t r = Some rs" "arrays t w = Some ws"
    and size: "pl_poll_size q' = int (length vs')" "distinct vs'"
    and reg: "\<And>v. v \<in> set vs' \<Longrightarrow> registered s v"
    and clean: "\<not> pl_dirty q' \<Longrightarrow> map unseen (pl_pollset q') = map (\<lambda>v. unseen (p_item (item_of s v))) vs'"
  shows "poller_to p \<lparr>members = map (member_of s) vs', readable_now = rs, writable_now = ws, chatty = pl_verbose q'\<rparr> t"
proof -
  note at = poller_atD [OF at] and same = same_items [OF t(1)]
  have "registered t v" if "v \<in> set vs'" for v using reg [OF that] t by (simp add: registered_def)
  then have "poller_at t p q' a r w vs'"
    unfolding poller_at_def same using at t q arrays size clean by auto
  then have "poller_inv p t" unfolding poller_inv_def by blast
  moreover have "abs_poller p t =
      \<lparr>members = map (member_of s) vs', readable_now = rs, writable_now = ws, chatty = pl_verbose q'\<rparr>"
    using at t q arrays by (simp add: abs_poller_def same)
  ultimately show ?thesis by (simp add: poller_to_def)
qed

lemma abs_poller_at:
  assumes "poller_at s p q a r w vs"
  obtains rs ws where "arrays s r = Some rs" "arrays s w = Some ws"
    "abs_poller p s = \<lparr>members = map (member_of s) vs, readable_now = rs, writable_now = ws, chatty = pl_verbose q\<rparr>"
  using poller_atD [OF assms] by (auto simp: abs_poller_def)

lemma set_verbose_to:
  assumes "poller_at s p q a r w vs"
  shows "wp (rb_czmq_poller_set_verbose (Object rb_cZmqPoller p) v)
    (\<lambda>_. poller_to p ((abs_poller p s)\<lparr>chatty := (v = Qtrue)\<rparr>)) E s"
proof -
  note at = poller_atD [OF assms]
  obtain rs ws where abs: "arrays s r = Some rs" "arrays s w = Some ws"
    "abs_poller p s = \<lparr>members = map (member_of s) vs, readable_now = rs, writable_now = ws, chatty = pl_verbose q\<rparr>"
    by (rule abs_poller_at [OF assms])
  let ?q = "q\<lparr>pl_verbose := (v = Qtrue)\<rparr>"
  have "poller_to p \<lparr>members = map (member_of s) vs, readable_now = rs, writable_now = ws, chatty = pl_verbose ?q\<rparr>
      (s\<lparr>pollers := (pollers s)(p \<mapsto> ?q)\<rparr>)"
    by (rule poller_to_upd [OF assms]) (use at abs in simp_all)
  then show ?thesis
    using at abs by (simp add: wp_outcome rb_czmq_poller_set_verbose_def)
qed

text \<open>The item that was fetched is allocated, and its socket is; a new one is no member yet.\<close>

lemma coerced_item:
  assumes "coerced A fd s v = Some (i, it)" and "i \<noteq> NULL" and "grown s t" and "pollitems t i = Some it"
    and new: "v = Object rb_cZmqPollitem i \<or> fresh t = Suc (fresh s)"
    and valid: "poller_valid A p s (Register v)" and at: "poller_at s p q a r w vs"
  shows "struct_value t (p_socket it)" "registered t (Object rb_cZmqPollitem i)" "Object rb_cZmqPollitem i \<notin> set vs"
    "member_of t (Object rb_cZmqPollitem i) = (Object rb_cZmqPollitem i, pollable_of it, unseen (p_item it))"
proof -
  obtain rs ws where abs: "abs_poller p s = \<lparr>members = map (member_of s) vs, readable_now = rs, writable_now = ws,
      chatty = pl_verbose q\<rparr>" by (rule abs_poller_at [OF at])
  have fst: "fst ` set (members (abs_poller p s)) = set vs" by (simp add: abs image_comp comp_def member_of_def)
  have up: "struct_value t x" if "struct_value s x" for x
    using that assms(3) by (auto simp: struct_value_def grown_def)
  show "member_of t (Object rb_cZmqPollitem i) = (Object rb_cZmqPollitem i, pollable_of it, unseen (p_item it))"
    using assms(4) by (simp add: member_of_def item_of_def)
  consider (old) "v = Object rb_cZmqPollitem i" "pollitems s i = Some it"
    | (new) "i = fresh s" "pollitem_for A fd s v = Some it" "\<And>j. v \<noteq> Object rb_cZmqPollitem j"
    using assms(1) by (fastforce simp: coerced_def split: rvalue.splits if_splits)
  then have "struct_value s (p_socket it) \<and> i < fresh t \<and> Object rb_cZmqPollitem i \<notin> set vs"
  proof cases
    case old
    then show ?thesis using valid fst assms(3) by (auto simp: grown_def)
  next
    case new
    have "Object rb_cZmqPollitem i \<notin> set vs" using poller_atD(15) [OF at] new(1) by (auto simp: registered_def)
    moreover have "struct_value s Qnil" by (simp add: struct_value_def)
    ultimately show ?thesis using new valid pollitem_for_socket [OF new(2)] assms(5) by auto
  qed
  then show "struct_value t (p_socket it)" "registered t (Object rb_cZmqPollitem i)" "Object rb_cZmqPollitem i \<notin> set vs"
    using up assms(2,4) by (auto simp: registered_def)
qed

text \<open>What \<^verbatim>\<open>register\<close> does with the poll item.\<close>

abbreviation push_item :: "ptr \<Rightarrow> rvalue \<Rightarrow> ('w, rvalue) vcmd" where
  "push_item p pollable \<equiv> deref pollers p (\<lambda>q.
     let push =
       rb_ary_push (pl_pollables q) pollable (
       set_poller p (\<lambda>q. q\<lparr>pl_poll_size := pl_poll_size q + 1\<rparr>) (
       set_poller p (\<lambda>q. q\<lparr>pl_dirty := True\<rparr>) (
       ret pollable)))
     in if pl_verbose q then call (rb_czmq_pollitem_set_verbose pollable Qtrue) (\<lambda>_. push) else push)"

lemma push_item_to:
  assumes at: "poller_at s p q a r w vs" and valid: "poller_valid A p s (Register v)"
    and c: "coerced A fd s v = Some (i, it)" "i \<noteq> NULL" "grown s t" "pollitems t i = Some it"
      "v = Object rb_cZmqPollitem i \<or> fresh t = Suc (fresh s)"
  defines "V \<equiv> poller_effect A fd s (Register v) (abs_poller p s)"
  shows "wp (push_item p (Object rb_cZmqPollitem i)) (\<lambda>_. poller_to p V) (\<lambda>_. poller_to p V) t"
proof -
  obtain rs ws where abs: "arrays s r = Some rs" "arrays s w = Some ws" "abs_poller p s =
      \<lparr>members = map (member_of s) vs, readable_now = rs, writable_now = ws, chatty = pl_verbose q\<rparr>"
    by (rule abs_poller_at [OF at])
  note kept = poller_at_grown [OF at]
  have unchanged: "poller_to p (abs_poller p s) t" if "grown s t" for t
    using kept [OF that] unfolding poller_to_def poller_inv_def by blast
  note item = coerced_item [OF c valid at]
  note att = poller_atD [OF kept(1) [OF c(3)]]
  let ?v = "Object rb_cZmqPollitem i" and ?q = "q\<lparr>pl_poll_size := int (length vs) + 1, pl_dirty := True\<rparr>"
  let ?u = "\<lambda>ss. t\<lparr>socks := ss, arrays := (arrays t)(a \<mapsto> vs @ [?v]), pollers := (pollers t)(p \<mapsto> ?q)\<rparr>"
  have arr: "arrays t = arrays s" using c(3) by (auto simp: grown_def)
  have "poller_to p \<lparr>members = map (member_of t) (vs @ [?v]), readable_now = rs, writable_now = ws, chatty = pl_verbose ?q\<rparr>
      (?u ss)" for ss
    by (rule poller_to_upd [OF kept(1) [OF c(3)]]) (use att abs arr item in auto)
  moreover have "map (member_of t) vs = map (member_of s) vs"
    using registered_grown(3) [OF poller_atD(15) [OF at] c(3)] by simp
  ultimately have pushed: "poller_to p ((abs_poller p s)\<lparr>members := members (abs_poller p s) @ [(?v, pollable_of it, unseen (p_item it))]\<rparr>) (?u ss)"
    for ss using abs item(4) by simp
  show ?thesis
  proof (cases "pl_verbose q")
    case False
    have "?u (socks t) = t\<lparr>arrays := (arrays t)(a \<mapsto> vs @ [?v]), pollers := (pollers t)(p \<mapsto> ?q)\<rparr>" by simp
    then show ?thesis using pushed [of "socks t"] False att c(1) abs(3) by (simp add: wp_outcome V_def)
  next
    case True
    show ?thesis
    proof (cases "announced t it")
      case True
      then obtain ss where "rb_czmq_pollitem_set_verbose ?v Qtrue t = Return Qnil (t\<lparr>socks := ss\<rparr>)"
        using announce_run(1) [OF c(2,4) item(1)] by blast
      then show ?thesis using pushed [of ss] \<open>pl_verbose q\<close> att c(1) abs(3) True grown_announced [OF c(3)]
        by (simp add: wp_outcome V_def call_def ary_def)
    next
      case False
      then obtain e where "rb_czmq_pollitem_set_verbose ?v Qtrue t = Raise e t"
        using announce_run(2) [OF c(2,4) item(1)] by blast
      then show ?thesis using unchanged [OF c(3)] \<open>pl_verbose q\<close> att c(1) abs(3) False grown_announced [OF c(3)]
        by (simp add: wp_outcome V_def call_def)
    qed
  qed
qed

lemma register_to:
  assumes at: "poller_at s p q a r w vs" and doc: "poll_doc A" "fileno_doc f fd" and valid: "poller_valid A p s (Register v)"
  defines "V \<equiv> poller_effect A fd s (Register v) (abs_poller p s)"
  shows "wp (rb_czmq_poller_register A f (Object rb_cZmqPoller p) v) (\<lambda>_. poller_to p V) (\<lambda>_. poller_to p V) s"
proof -
  have unchanged: "poller_to p (abs_poller p s) t" if "grown s t" for t
    using poller_at_grown [OF at that] unfolding poller_to_def poller_inv_def by blast
  have pin: "ZMQ_POLLIN A \<noteq> 0" using doc(1) by (simp add: poll_doc_def)
  have sv: "struct_value s v" using valid by simp
  have "wp (call (rb_czmq_pollitem_coerce A f v) (\<lambda>v. ZmqGetPollitem v (\<lambda>_. push_item p v))) (\<lambda>_. poller_to p V) (\<lambda>_. poller_to p V) s"
  proof (rule wp_coerced [OF pin sv doc(2) poller_atD(2) [OF at]])
    fix t e assume "coerced A fd s v = None" "grown s t"
    then show "poller_to p V t" using unchanged by (simp add: V_def)
  qed (rule push_item_to [OF at valid, where fd = fd, folded V_def])
  then show ?thesis
    using poller_atD(1) [OF at] by (simp add: rb_czmq_poller_register_def)
qed

text \<open>The search of \<^verbatim>\<open>remove\<close>, in a state where the item is allocated.\<close>

lemma find_nth: "List.find P xs = map_option (\<lambda>k. xs ! k) (List.find (\<lambda>k. P (xs ! k)) [0..<length xs])"
proof -
  have "List.find P (map f ks) = map_option f (List.find (\<lambda>k. P (f k)) ks)" for f :: "nat \<Rightarrow> 'a" and ks
    by (induction ks) simp_all
  from this [of "\<lambda>k. xs ! k" "[0..<length xs]"] show ?thesis by (simp add: map_nth)
qed

lemma find_bound: "List.find P [0..<n] = Some j \<Longrightarrow> j < n"
  by (auto simp: find_Some_iff)

lemma remove_search:
  assumes q: "pollers t p = Some q" "pl_pollables q = Object rb_cArray a" "arrays t a = Some vs"
      "pl_poll_size q = int (length vs)" "\<And>v. v \<in> set vs \<Longrightarrow> registered t v"
    and i: "i \<noteq> NULL" "pollitems t i = Some it"
  defines "v \<equiv> Object rb_cZmqPollitem i"
  defines "hit \<equiv> \<lambda>k. v = vs ! k \<or> pollable_of it = pollable_of (item_of t (vs ! k))"
  defines "u \<equiv> \<lambda>k. t\<lparr>arrays := (arrays t)(a \<mapsto> removeAll (vs ! k) vs),
      pollers := (pollers t)(p \<mapsto> q\<lparr>pl_poll_size := int (length vs) - 1, pl_dirty := True\<rparr>)\<rparr>"
  shows "while_do (\<lambda>st. case st of Inl pos \<Rightarrow> int pos < pl_poll_size q | Inr v \<Rightarrow> False)
       (\<lambda>st. case st of
          Inr v \<Rightarrow> ret (Inr v)
        | Inl pos \<Rightarrow>
            rd (\<lambda>s. rb_ary_entry (ary s (pl_pollables q)) pos) (\<lambda>rpollable.
            let remove =
                  rb_ary_delete (pl_pollables q) rpollable (
                  set_poller p (\<lambda>q. q\<lparr>pl_poll_size := pl_poll_size q - 1\<rparr>) (
                  set_poller p (\<lambda>q. q\<lparr>pl_dirty := True\<rparr>) (
                  ret (Inr rpollable))))
            in if v = rpollable then remove
               else
                 call (rb_czmq_pollitem_pollable v) (\<lambda>a.
                 call (rb_czmq_pollitem_pollable rpollable) (\<lambda>b.
                 if a = b then remove else ret (Inl (Suc pos))))))
       (\<lambda>st. ret (case st of Inl pos \<Rightarrow> Qfalse | Inr v \<Rightarrow> v))
       (Inl 0) t =
    (case List.find hit [0..<length vs] of None \<Rightarrow> Return Qfalse t | Some k \<Rightarrow> Return (vs ! k) (u k))"
    (is "while_do ?b ?c ?K _ _ = _")
proof -
  have b: "?b = (\<lambda>st. case st of Inl k \<Rightarrow> int k < int (length vs) | Inr x \<Rightarrow> False)"
    unfolding q(4) by (rule refl)
  have entry: "\<exists>j jt. vs ! k = Object rb_cZmqPollitem j \<and> j \<noteq> NULL \<and> pollitems t j = Some jt" if "k < length vs" for k
    using q(5) [OF nth_mem [OF that]] by (auto simp: registered_def)
  have miss: "?c (Inl k) t = Return (Inl (Suc k)) t" if k: "k < length vs" "\<not> hit k" for k
  proof -
    obtain j jt where j: "vs ! k = Object rb_cZmqPollitem j" "j \<noteq> NULL" "pollitems t j = Some jt" using entry [OF k(1)] by blast
    then show ?thesis using k q i by (simp add: hit_def v_def rb_ary_entry_def item_of_def)
  qed
  have found: "?c (Inl k) t = Return (Inr (vs ! k)) (u k)" if k: "k < length vs" "hit k" for k
  proof -
    obtain j jt where j: "vs ! k = Object rb_cZmqPollitem j" "j \<noteq> NULL" "pollitems t j = Some jt" using entry [OF k(1)] by blast
    then show ?thesis using k q i
      by (cases "i = j") (simp_all add: hit_def v_def u_def rb_ary_entry_def item_of_def Let_def)
  qed
  have "while_do (\<lambda>st. case st of Inl k \<Rightarrow> int k < int (length vs) | Inr x \<Rightarrow> False) ?c ?K (Inl 0) t =
      (case List.find hit [0..<length vs] of None \<Rightarrow> ?K (Inl (length vs)) t | Some k \<Rightarrow> ?K (Inr (vs ! k)) (u k))"
    by (rule search_loop [where c = ?c and hit = hit and v = "\<lambda>k. vs ! k" and t = u]) (fact miss, fact found)
  then show ?thesis unfolding b by (simp only: ret_run sum.case)
qed

lemma matching_members:
  "matching v x (map (member_of t) vs) = map_option (\<lambda>k. member_of t (vs ! k))
     (List.find (\<lambda>k. v = vs ! k \<or> x = pollable_of (item_of t (vs ! k))) [0..<length vs])"
proof -
  have "matching v x (map (member_of t) vs) = map_option (member_of t) (List.find (\<lambda>y. v = y \<or> x = pollable_of (item_of t y)) vs)"
    by (induction vs) (simp_all add: matching_def member_of_def)
  then show ?thesis by (simp add: find_nth [of _ vs] option.map_comp comp_def)
qed

text \<open>What \<^verbatim>\<open>remove\<close> does with the poll item: a round of the search, and the search.\<close>

abbreviation search_item :: "ptr \<Rightarrow> rvalue \<Rightarrow> zmq_poll_wrapper \<Rightarrow> nat + rvalue \<Rightarrow> ('w, nat + rvalue) vcmd" where
  "search_item p \<equiv> \<lambda>pollable q st. case st of
          Inr v \<Rightarrow> ret (Inr v)
        | Inl pos \<Rightarrow>
            rd (\<lambda>s. rb_ary_entry (ary s (pl_pollables q)) pos) (\<lambda>rpollable.
            let remove =
                  rb_ary_delete (pl_pollables q) rpollable (
                  set_poller p (\<lambda>q. q\<lparr>pl_poll_size := pl_poll_size q - 1\<rparr>) (
                  set_poller p (\<lambda>q. q\<lparr>pl_dirty := True\<rparr>) (
                  ret (Inr rpollable))))
            in if pollable = rpollable then remove
               else
                 call (rb_czmq_pollitem_pollable pollable) (\<lambda>a.
                 call (rb_czmq_pollitem_pollable rpollable) (\<lambda>b.
                 if a = b then remove else ret (Inl (Suc pos)))))"

abbreviation take_item :: "ptr \<Rightarrow> rvalue \<Rightarrow> ('w, rvalue) vcmd" where
  "take_item p pollable \<equiv> deref pollers p (\<lambda>q.
     while_do (\<lambda>st. case st of Inl pos \<Rightarrow> int pos < pl_poll_size q | Inr v \<Rightarrow> False) (search_item p pollable q)
       (\<lambda>st. ret (case st of Inl pos \<Rightarrow> Qfalse | Inr v \<Rightarrow> v)) (Inl 0))"

lemma take_item_to:
  assumes at: "poller_at s p q a r w vs"
    and c: "coerced A fd s v = Some (i, it)" "i \<noteq> NULL" "grown s t" "pollitems t i = Some it"
  defines "V \<equiv> poller_effect A fd s (Deregister v) (abs_poller p s)"
  shows "wp (take_item p (Object rb_cZmqPollitem i)) (\<lambda>_. poller_to p V) (\<lambda>_. poller_to p V) t"
proof -
  note kept = poller_at_grown [OF at]
  have unchanged: "poller_to p (abs_poller p s) t" if "grown s t" for t
    using kept [OF that] unfolding poller_to_def poller_inv_def by blast
  note att = poller_atD [OF kept(1) [OF c(3)]]
  obtain rs ws where abs: "arrays t r = Some rs" "arrays t w = Some ws" "abs_poller p t =
      \<lparr>members = map (member_of t) vs, readable_now = rs, writable_now = ws, chatty = pl_verbose q\<rparr>"
    by (rule abs_poller_at [OF kept(1) [OF c(3)]])
  let ?v = "Object rb_cZmqPollitem i"
  let ?hit = "\<lambda>k. ?v = vs ! k \<or> pollable_of it = pollable_of (item_of t (vs ! k))"
  have run: "take_item p ?v t = (case List.find ?hit [0..<length vs] of None \<Rightarrow> Return Qfalse t
    | Some k \<Rightarrow> Return (vs ! k) (t\<lparr>arrays := (arrays t)(a \<mapsto> removeAll (vs ! k) vs),
        pollers := (pollers t)(p \<mapsto> q\<lparr>pl_poll_size := int (length vs) - 1, pl_dirty := True\<rparr>)\<rparr>))"
    using remove_search [OF att(3,4,10,13,15) c(2,4)] att(3) by (simp cong: option.case_cong)
  have match: "matching ?v (pollable_of it) (members (abs_poller p s)) =
      map_option (\<lambda>k. member_of t (vs ! k)) (List.find ?hit [0..<length vs])"
    unfolding kept(2) [OF c(3), symmetric] abs by (simp add: matching_members)
  show ?thesis
  proof (cases "List.find ?hit [0..<length vs]")
    case None
    then show ?thesis using run match unchanged [OF c(3)] c(1) by (simp add: wp_outcome V_def)
  next
    case (Some j)
    then have j: "vs ! j \<in> set vs" using find_bound by (metis nth_mem)
    let ?vs = "removeAll (vs ! j) vs" and ?q = "q\<lparr>pl_poll_size := int (length vs) - 1, pl_dirty := True\<rparr>"
    let ?u = "t\<lparr>arrays := (arrays t)(a \<mapsto> ?vs), pollers := (pollers t)(p \<mapsto> ?q)\<rparr>"
    have "int (length vs) = int (length ?vs) + 1"
      using removeAll_distinct_length [OF att(14) j] by linarith
    then have "poller_to p \<lparr>members = map (member_of t) ?vs, readable_now = rs, writable_now = ws, chatty = pl_verbose ?q\<rparr> ?u"
      by (intro poller_to_upd [OF kept(1) [OF c(3)]]) (use att abs in \<open>auto simp: distinct_removeAll\<close>)
    moreover have "map (member_of t) ?vs = filter (\<lambda>n. fst n \<noteq> vs ! j) (map (member_of t) vs)"
      by (simp add: filter_map comp_def member_of_def removeAll_filter_not_eq eq_commute)
    ultimately have "poller_to p V ?u"
      using c(1) match Some abs(3) kept(2) [OF c(3)] by (simp add: V_def member_of_def [of t "vs ! j"])
    then show ?thesis using run Some by (simp add: wp_outcome)
  qed
qed

lemma remove_to:
  assumes at: "poller_at s p q a r w vs" and doc: "poll_doc A" "fileno_doc f fd" and sv: "struct_value s v"
  defines "V \<equiv> poller_effect A fd s (Deregister v) (abs_poller p s)"
  shows "wp (rb_czmq_poller_remove A f (Object rb_cZmqPoller p) v) (\<lambda>_. poller_to p V) (\<lambda>_. poller_to p V) s"
proof -
  have unchanged: "poller_to p (abs_poller p s) t" if "grown s t" for t
    using poller_at_grown [OF at that] unfolding poller_to_def poller_inv_def by blast
  have pin: "ZMQ_POLLIN A \<noteq> 0" using doc(1) by (simp add: poll_doc_def)
  have "wp (call (rb_czmq_pollitem_coerce A f v) (\<lambda>v. ZmqGetPollitem v (\<lambda>_. take_item p v))) (\<lambda>_. poller_to p V) (\<lambda>_. poller_to p V) s"
  proof (rule wp_coerced [OF pin sv doc(2) poller_atD(2) [OF at]])
    fix t e assume "coerced A fd s v = None" "grown s t"
    then show "poller_to p V t" using unchanged by (simp add: V_def)
  qed (rule take_item_to [OF at, where fd = fd and A = A and v = v, folded V_def])
  then show ?thesis
    using poller_atD(1) [OF at] by (simp add: rb_czmq_poller_remove_def)
qed

lemma polled_live:
  assumes "poller_valid A p s (Poll argv)" and "i \<in> set (map (snd \<circ> snd) (members (abs_poller p s)))" and "pi_socket i \<noteq> NULL"
  shows "zsocks (view A (lib s)) (pi_socket i) \<noteq> None"
proof -
  obtain m where "m \<in> set (members (abs_poller p s))" "snd (snd m) = i" using assms(2) by auto
  then show ?thesis using assms(1,3) unfolding poller_valid.simps by metis
qed

text \<open>Polling, with a pollset that is the one of the members.\<close>

lemma poll_items:
  assumes at: "poller_at s p q a r w vs" and clean: "\<not> pl_dirty q" and doc: "poll_doc A"
    and live: "poller_valid A p s (Poll argv)"
    and call: "zmq_poll A (map (snd \<circ> snd) (members (abs_poller p s))) n (lib s) = Some ((rc, out), w')"
  shows "rb_czmq_nogvl_poll_items A p n s =
      Return rc (s\<lparr>lib := w', pollers := (pollers s)(p \<mapsto> q\<lparr>pl_pollset := out\<rparr>)\<rparr>)"
    and "map unseen out = map (\<lambda>v. unseen (p_item (item_of s v))) vs" and "view A w' = view A (lib s)"
proof -
  note att = poller_atD [OF at]
  obtain rs ws where abs: "abs_poller p s =
      \<lparr>members = map (member_of s) vs, readable_now = rs, writable_now = ws, chatty = pl_verbose q\<rparr>"
    by (rule abs_poller_at [OF at])
  have eq: "map unseen (pl_pollset q) = map (snd \<circ> snd) (members (abs_poller p s))"
    using att(16) [OF clean] by (simp add: abs member_of_def)
  have sock: "zsocks (view A (lib s)) (pi_socket i) \<noteq> None" if "i \<in> set (pl_pollset q)" "pi_socket i \<noteq> NULL" for i
  proof -
    have "unseen i \<in> set (map (snd \<circ> snd) (members (abs_poller p s)))" unfolding eq [symmetric] using that(1) by simp
    then show ?thesis using polled_live [OF live, of "unseen i"] that(2) by (simp add: unseen_def)
  qed
  note d = poll_docD [OF doc sock, of "pl_pollset q" n]
  have c: "zmq_poll A (pl_pollset q) n (lib s) = Some ((rc, out), w')" using d(1) call by (simp add: eq)
  then show "map unseen out = map (\<lambda>v. unseen (p_item (item_of s v))) vs" "view A w' = view A (lib s)"
    using d(3,4) att(16) [OF clean] by simp_all
  show "rb_czmq_nogvl_poll_items A p n s =
      Return rc (s\<lparr>lib := w', pollers := (pollers s)(p \<mapsto> q\<lparr>pl_pollset := out\<rparr>)\<rparr>)"
    using att(3) c sock by (simp add: rb_czmq_nogvl_poll_items_def)
qed

text \<open>The two steps before libzmq is called: the pollset is rebuilt, and the lists are cleared.\<close>

lemma rebuilt_at:
  assumes at: "poller_at s p q a r w vs"
  defines "q' \<equiv> q\<lparr>pl_pollset := map (\<lambda>v. p_item (item_of s v)) vs, pl_dirty := False\<rparr>"
  defines "t \<equiv> s\<lparr>pollers := (pollers s)(p \<mapsto> q')\<rparr>"
  shows "poller_at t p q' a r w vs" "abs_poller p t = abs_poller p s"
proof -
  have "pollitems t = pollitems s" by (simp add: t_def)
  note same = same_items [OF this]
  show "poller_at t p q' a r w vs"
    using poller_atD [OF at] unfolding poller_at_def same by (simp add: t_def q'_def registered_def)
  show "abs_poller p t = abs_poller p s"
    using poller_atD [OF at] unfolding abs_poller_def same by (simp add: t_def q'_def ary_def)
qed

lemma cleared_at:
  fixes rs ws :: "rvalue list"
  assumes at: "poller_at s p q a r w vs"
  defines "t \<equiv> s\<lparr>arrays := (arrays s)(r \<mapsto> rs, w \<mapsto> ws)\<rparr>"
  shows "poller_at t p q a r w vs" "abs_poller p t = (abs_poller p s)\<lparr>readable_now := rs, writable_now := ws\<rparr>"
proof -
  have "pollitems t = pollitems s" by (simp add: t_def)
  note same = same_items [OF this]
  show "poller_at t p q a r w vs"
    using poller_atD [OF at] unfolding poller_at_def same by (simp add: t_def registered_def)
  show "abs_poller p t = (abs_poller p s)\<lparr>readable_now := rs, writable_now := ws\<rparr>"
    using poller_atD [OF at] unfolding abs_poller_def same by (simp add: t_def ary_def)
qed

text \<open>The call of libzmq and what is made of its answer.\<close>

definition poll_core :: "'w czmq \<Rightarrow> ptr \<Rightarrow> zmq_poll_wrapper \<Rightarrow> 64 word \<Rightarrow> ('w, rvalue) vcmd" where
  "poll_core A poller q timeout =
     rb_ary_clear (pl_readables q) (
     rb_ary_clear (pl_writables q) (
     call (rb_czmq_nogvl_poll_items A poller (sint timeout)) (\<lambda>rc.
     let finish =
       (if 0 < rc then call (rb_czmq_poller_rebuild_selectables A poller) (\<lambda>_. ret (INT2NUM rc))
        else ret (INT2NUM rc))
     in if rc < 0 then
          ask (zmq_errno A) (\<lambda>e.
          if e = errcode A EINTR \<or> e = errcode A EAGAIN then finish else ZmqAssert A rc finish)
        else finish)))"

lemma poller_poll_run:
  assumes "p \<noteq> NULL" and "pollers s p = Some q"
  shows "seconds_of argv = None \<Longrightarrow> \<exists>e. rb_czmq_poller_poll A argv (Object rb_cZmqPoller p) s = Raise e s"
    and "seconds_of argv = Some secs \<Longrightarrow> rb_czmq_poller_poll A argv (Object rb_cZmqPoller p) s =
      (if pl_poll_size q = 0 then Return (INT2NUM 0) s
       else if pl_dirty q then call (rb_czmq_poller_rebuild_pollset p) (\<lambda>rc.
         check (rc \<noteq> -1) (ZmqError ''failed in rebuilding the pollset!'') (to_msecs secs (poll_core A p q))) s
       else to_msecs secs (poll_core A p q) s)"
proof -
  show "seconds_of argv = None \<Longrightarrow> \<exists>e. rb_czmq_poller_poll A argv (Object rb_cZmqPoller p) s = Raise e s"
    using assms by (auto simp: seconds_of_def rb_czmq_poller_poll_def rb_scan_args_01_def secs_of_def NIL_P_def INT2NUM_def
        split: list.splits rvalue.splits)
  have "fl (of_int 0) = 0" using fl_int [of 0] by simp
  moreover have "poll_core A p q = (\<lambda>timeout. let timeout = (if timeout < 0 then - 1 else timeout) in poll_core A p q timeout)"
    by (rule ext) simp
  ultimately show "seconds_of argv = Some secs \<Longrightarrow> rb_czmq_poller_poll A argv (Object rb_cZmqPoller p) s =
      (if pl_poll_size q = 0 then Return (INT2NUM 0) s
       else if pl_dirty q then call (rb_czmq_poller_rebuild_pollset p) (\<lambda>rc.
         check (rc \<noteq> -1) (ZmqError ''failed in rebuilding the pollset!'') (to_msecs secs (poll_core A p q))) s
       else to_msecs secs (poll_core A p q) s)"
    using assms by (auto simp: seconds_of_def rb_czmq_poller_poll_def rb_scan_args_01_def secs_of_def NIL_P_def INT2NUM_def
        poll_core_def [abs_def] Let_def split: list.splits rvalue.splits)
qed

lemma poller_poll_timeout:
  assumes "p \<noteq> NULL" and "pollers s p = Some q" and "timeout_of argv = Some n"
  shows "rb_czmq_poller_poll A argv (Object rb_cZmqPoller p) s =
      (if pl_poll_size q = 0 then Return (INT2NUM 0) s
       else if pl_dirty q then call (rb_czmq_poller_rebuild_pollset p) (\<lambda>rc.
         check (rc \<noteq> -1) (ZmqError ''failed in rebuilding the pollset!'') (poll_core A p q n)) s
       else poll_core A p q n s)"
proof -
  obtain secs where "seconds_of argv = Some secs" "size_t_msecs secs = Some n"
    using assms(3) by (auto simp: timeout_of_def bind_eq_Some_conv)
  then show ?thesis using poller_poll_run(2) [OF assms(1,2)] by simp
qed

text \<open>What \<^verbatim>\<open>poll\<close> does with the answer of libzmq.\<close>

lemma wp_poll_finish:
  assumes "0 < rc \<Longrightarrow> wp (call (rb_czmq_poller_rebuild_selectables A p) (\<lambda>_. ret (INT2NUM rc))) Q E t"
    and "\<not> 0 < rc \<Longrightarrow> Q (INT2NUM rc) t" and "rc < 0 \<Longrightarrow> Q Qfalse t" and "\<And>e. rc < 0 \<Longrightarrow> E e t"
  shows "wp (let finish = (if 0 < rc then call (rb_czmq_poller_rebuild_selectables A p) (\<lambda>_. ret (INT2NUM rc)) else ret (INT2NUM rc))
     in if rc < 0 then
          ask (zmq_errno A) (\<lambda>e. if e = errcode A EINTR \<or> e = errcode A EAGAIN then finish else ZmqAssert A rc finish)
        else finish) Q E t"
proof (cases "rc < 0")
  case True
  have "wp (ZmqAssert A rc (ret (INT2NUM rc))) Q E t" by (rule wp_ZmqAssert) (use True assms in \<open>simp_all add: wp_simps\<close>)
  then show ?thesis using True assms(2) by (simp add: wp_simps Let_def)
next
  case False
  then show ?thesis using assms(1,2) by (simp add: wp_simps Let_def)
qed

lemma poll_core_to:
  assumes at: "poller_at s p q a r w vs" and clean: "\<not> pl_dirty q" and doc: "poll_doc A"
    and live: "poller_valid A p s (Poll argv)" and n: "timeout_of argv = Some n" and vs: "vs \<noteq> []"
    and c: "zmq_poll A (map (snd \<circ> snd) (members (abs_poller p s))) (sint n) (lib s) = Some ((rc, out), w')"
  defines "V \<equiv> polled A argv (lib s) (abs_poller p s)"
  shows "wp (poll_core A p q n) (\<lambda>v t. poller_to p V t \<and> (0 \<le> rc \<longrightarrow> v = INT2NUM rc)) (\<lambda>e t. poller_to p V t \<and> rc < 0) s"
proof -
  let ?s = "s\<lparr>arrays := (arrays s)(r \<mapsto> [], w \<mapsto> [])\<rparr>"
  let ?t = "?s\<lparr>lib := w', pollers := (pollers s)(p \<mapsto> q\<lparr>pl_pollset := out\<rparr>)\<rparr>"
  note atts = poller_atD [OF at] and cleared = cleared_at [OF at, of "[]" "[]"]
  obtain rs ws where abs: "abs_poller p s =
      \<lparr>members = map (member_of s) vs, readable_now = rs, writable_now = ws, chatty = pl_verbose q\<rparr>"
    by (rule abs_poller_at [OF at])
  have live': "poller_valid A p ?s (Poll argv)" using live by (simp add: cleared(2))
  have c': "zmq_poll A (map (snd \<circ> snd) (members (abs_poller p ?s))) (sint n) (lib ?s) = Some ((rc, out), w')"
    using c by (simp add: cleared(2))
  have same: "item_of ?s = item_of s" "member_of ?s = member_of s" "item_of ?t = item_of s" "member_of ?t = member_of s"
    by (rule same_items, simp)+
  note run = poll_items [OF cleared(1) clean doc live' c', unfolded same]
  have len: "length out = length vs" using arg_cong [OF run(2), of length] by simp
  let ?seen = "zip (map (\<lambda>v. pollable_of (item_of s v)) vs) out"
  have V: "V = \<lparr>members = map (member_of s) vs,
      readable_now = (if 0 < rc then reported (ZMQ_POLLIN A) ?seen else []),
      writable_now = (if 0 < rc then reported (ZMQ_POLLOUT A) ?seen else []), chatty = pl_verbose q\<rparr>"
    using n vs c by (simp add: V_def polled_def abs comp_def member_of_def reported_def Let_def)
  have att: "poller_at ?t p (q\<lparr>pl_pollset := out\<rparr>) a r w vs"
    using poller_atD [OF cleared(1)] run(2) unfolding poller_at_def same by (simp add: registered_def)
  have to: "poller_to p \<lparr>members = map (member_of s) vs, readable_now = xs, writable_now = ys, chatty = pl_verbose q\<rparr>
      (?t\<lparr>arrays := (arrays ?t)(r \<mapsto> xs, w \<mapsto> ys)\<rparr>)" for xs ys
  proof -
    note lists = cleared_at [OF att, of xs ys]
    have "abs_poller p ?t = \<lparr>members = map (member_of s) vs, readable_now = [], writable_now = [], chatty = pl_verbose q\<rparr>"
      using poller_atD [OF att] unfolding abs_poller_def same by (simp add: ary_def)
    then show ?thesis by (intro poller_toI [OF lists(1)]) (simp only: lists(2) poller_view.simps)
  qed
  have empty: "?t\<lparr>arrays := (arrays ?t)(r \<mapsto> [], w \<mapsto> [])\<rparr> = ?t" using atts(9) by (simp add: fun_upd_twist)
  have quiet: "poller_to p V ?t" if "\<not> 0 < rc" using to [of "[]" "[]", unfolded empty] that by (simp add: V)
  have "rb_czmq_nogvl_poll_items A p (sint n) ?s = Return rc ?t" using run(1) by simp
  then have core: "poll_core A p q n s =
      (let finish = (if 0 < rc then call (rb_czmq_poller_rebuild_selectables A p) (\<lambda>_. ret (INT2NUM rc)) else ret (INT2NUM rc))
       in if rc < 0 then
            ask (zmq_errno A) (\<lambda>e. if e = errcode A EINTR \<or> e = errcode A EAGAIN then finish else ZmqAssert A rc finish)
          else finish) ?t"
    using atts by (simp add: poll_core_def call_def)
  have "wp (call (rb_czmq_poller_rebuild_selectables A p) (\<lambda>_. ret (INT2NUM rc)))
      (\<lambda>v t. poller_to p V t \<and> (0 \<le> rc \<longrightarrow> v = INT2NUM rc)) (\<lambda>e t. poller_to p V t \<and> rc < 0) ?t" if "0 < rc"
    using rebuild_selectables [OF att, of A] len to that unfolding same by (simp add: wp_def call_def V)
  then show ?thesis
    unfolding wp_def core using quiet
    by (intro wp_poll_finish [unfolded wp_def]) auto
qed

text \<open>The whole method: the result of a poll that libzmq does not refuse is its answer.\<close>

lemma poll_to:
  assumes at: "poller_at s p q a r w vs" and doc: "poll_doc A" and live: "poller_valid A p s (Poll argv)"
  defines "V \<equiv> polled A argv (lib s) (abs_poller p s)"
  shows "wp (rb_czmq_poller_poll A argv (Object rb_cZmqPoller p))
    (\<lambda>v t. poller_to p V t \<and> (\<forall>n rc out w'. timeout_of argv = Some n \<longrightarrow> vs \<noteq> [] \<longrightarrow> 0 \<le> rc \<longrightarrow>
       zmq_poll A (map (snd \<circ> snd) (members (abs_poller p s))) (sint n) (lib s) = Some ((rc, out), w') \<longrightarrow> v = INT2NUM rc))
    (\<lambda>e t. poller_to p V t \<and> (\<forall>n rc out w'. timeout_of argv = Some n \<longrightarrow> vs \<noteq> [] \<longrightarrow>
       zmq_poll A (map (snd \<circ> snd) (members (abs_poller p s))) (sint n) (lib s) = Some ((rc, out), w') \<longrightarrow> rc < 0)) s"
    (is "wp _ ?Q ?E s")
proof -
  note atts = poller_atD [OF at] and run = poller_poll_run [OF poller_atD(1,3) [OF at], where argv = argv and A = A]
  have here: "poller_to p (abs_poller p s) s" by (rule poller_toI [OF at refl])
  obtain rs ws where abs: "abs_poller p s =
      \<lparr>members = map (member_of s) vs, readable_now = rs, writable_now = ws, chatty = pl_verbose q\<rparr>"
    by (rule abs_poller_at [OF at])
  show ?thesis
  proof (cases "vs = [] \<or> seconds_of argv = None")
    case True
    then have "timeout_of argv = None \<or> vs = []" by (auto simp: timeout_of_def)
    then have "V = abs_poller p s" by (auto simp: V_def polled_def abs split: option.split)
    moreover have "(\<exists>e. rb_czmq_poller_poll A argv (Object rb_cZmqPoller p) s = Raise e s \<and> timeout_of argv = None) \<or>
        (\<exists>v. rb_czmq_poller_poll A argv (Object rb_cZmqPoller p) s = Return v s \<and> vs = [])"
      using True run atts(13) by (cases "seconds_of argv") (auto simp: timeout_of_def)
    ultimately show ?thesis using here by (auto simp: wp_def)
  next
    case False
    then have "members (abs_poller p s) \<noteq> []" by (simp add: abs)
    then obtain n where Some: "timeout_of argv = Some n" and n: "0 \<le> sint n" using live False by auto
    note run = poller_poll_timeout [OF atts(1,3) Some]
    from False have False: "vs \<noteq> []" by simp
    show ?thesis
    proof -
      obtain rc out w' where c: "zmq_poll A (map (snd \<circ> snd) (members (abs_poller p s))) (sint n) (lib s) = Some ((rc, out), w')"
        using poll_docD(2) [OF doc polled_live [OF live] n, of "map (snd \<circ> snd) (members (abs_poller p s))"]
        by (metis option.exhaust surj_pair)
      have size: "pl_poll_size q \<noteq> 0" using False atts(13) by simp
      let ?q = "q\<lparr>pl_pollset := map (\<lambda>v. p_item (item_of s v)) vs, pl_dirty := False\<rparr>"
      let ?t = "s\<lparr>pollers := (pollers s)(p \<mapsto> ?q)\<rparr>"
      note clean = rebuilt_at [OF at]
      have "poller_valid A p ?t (Poll argv)" using live by (simp add: clean(2))
      moreover have "lib ?t = lib s" by simp
      ultimately have core: "wp (poll_core A p ?q n) (\<lambda>v t. poller_to p V t \<and> (0 \<le> rc \<longrightarrow> v = INT2NUM rc))
          (\<lambda>e t. poller_to p V t \<and> rc < 0) ?t"
        using poll_core_to [OF clean(1) _ doc _ Some False] c unfolding clean(2) V_def by simp
      have same: "poll_core A p ?q n = poll_core A p q n" by (simp add: poll_core_def)
      have "wp (rb_czmq_poller_poll A argv (Object rb_cZmqPoller p))
          (\<lambda>v t. poller_to p V t \<and> (0 \<le> rc \<longrightarrow> v = INT2NUM rc)) (\<lambda>e t. poller_to p V t \<and> rc < 0) s"
      proof (cases "pl_dirty q")
        case True
        have "rb_czmq_poller_poll A argv (Object rb_cZmqPoller p) s = poll_core A p q n ?t"
          using run size True by (simp add: call_def rebuild_pollset [OF at] same)
        then show ?thesis using core unfolding wp_def same by simp
      next
        case False
        then show ?thesis
          using poll_core_to [OF at False doc live Some \<open>vs \<noteq> []\<close> c] run size unfolding wp_def V_def by simp
      qed
      then show ?thesis by (rule wp_conseq) (use Some c in auto)
    qed
  qed
qed

lemma poller_call_to:
  assumes doc: "poll_doc A" "fileno_doc f fd" and inv: "poller_inv p s" and valid: "poller_valid A p s c"
  defines "V \<equiv> poller_effect A fd s c (abs_poller p s)"
  shows "wp (run_poller A f (Object rb_cZmqPoller p) c) (\<lambda>_. poller_to p V) (\<lambda>_. poller_to p V) s"
proof -
  obtain q a r w vs where at: "poller_at s p q a r w vs" using inv unfolding poller_inv_def by blast
  show ?thesis
  proof (cases c)
    case (Register v)
    then show ?thesis using register_to [OF at doc] valid unfolding V_def by simp
  next
    case (Deregister v)
    then show ?thesis using remove_to [OF at doc] valid unfolding V_def by simp
  next
    case (Poll argv)
    have "wp (rb_czmq_poller_poll A argv (Object rb_cZmqPoller p)) (\<lambda>_. poller_to p V) (\<lambda>_. poller_to p V) s"
      by (rule wp_conseq [OF poll_to [OF at doc(1)]]) (use valid Poll in \<open>simp_all add: V_def del: poller_valid.simps\<close>)
    then show ?thesis using Poll by simp
  next
    case (Set_verbose v)
    then show ?thesis using set_verbose_to [OF at] unfolding V_def by simp
  qed
qed

lemma poller_to_inv: "poller_to p V t \<Longrightarrow> poller_inv p t" and poller_to_abs: "poller_to p V t \<Longrightarrow> abs_poller p t = V"
  by (simp_all add: poller_to_def)

interpretation poller: refined_machine "run_poller A f (Object rb_cZmqPoller p)" "poller_valid A p" "poller_inv p"
    "poll_doc A \<and> fileno_doc f fd" "abs_poller p" "poller_effect A fd"
proof unfold_locales
  fix s c assume h: "poll_doc A \<and> fileno_doc f fd" "poller_inv p s" "poller_valid A p s c"
  note to = poller_call_to [OF conjunct1 [OF h(1)] conjunct2 [OF h(1)] h(2,3)]
  show "wp (run_poller A f (Object rb_cZmqPoller p) c) (\<lambda>_. poller_inv p) (\<lambda>_. poller_inv p) s"
    by (rule wp_conseq [OF to]) (rule poller_to_inv, assumption)+
  fix t assume "final_state (run_poller A f (Object rb_cZmqPoller p) c s) = Some t"
  then show "abs_poller p t = poller_effect A fd s c (abs_poller p s)"
    using wp_final [OF to] poller_to_abs by blast
qed

section \<open>Properties\<close>

lemma ref_poll: "poll_doc ref"
  by (auto simp: poll_doc_def ref_fields comp_def unseen_def)

lemma no_fileno: "fileno_doc (\<lambda>v m xs s. Raise (TypeError ''closed stream'') s) (\<lambda>q. None)"
  by (simp add: fileno_doc_def)

text \<open>A new poller has no members.\<close>

lemma new_poller:
  assumes "0 < fresh s"
  obtains t where "rb_czmq_poller_new s = Return (Object rb_cZmqPoller (fresh s)) t" "poller_inv (fresh s) t"
    "abs_poller (fresh s) t = \<lparr>members = [], readable_now = [], writable_now = [], chatty = False\<rparr>"
    "pollitems t = pollitems s" "socks t = socks s" "lib t = lib s" "thread t = thread s" "fresh t = fresh s + 4"
proof -
  let ?q = "\<lparr>pl_pollables = Object rb_cArray (fresh s + 1), pl_readables = Object rb_cArray (fresh s + 2),
      pl_writables = Object rb_cArray (fresh s + 3), pl_pollset = [], pl_poll_size = 0, pl_dirty = False, pl_verbose = False\<rparr>"
  obtain t where t: "rb_czmq_poller_new s = Return (Object rb_cZmqPoller (fresh s)) t" "pollers t (fresh s) = Some ?q"
    "arrays t (fresh s + 1) = Some []" "arrays t (fresh s + 2) = Some []" "arrays t (fresh s + 3) = Some []"
    "pollitems t = pollitems s" "socks t = socks s" "lib t = lib s" "thread t = thread s" "fresh t = fresh s + 4"
    by (simp add: rb_czmq_poller_new_def)
  have at: "poller_at t (fresh s) ?q (fresh s + 1) (fresh s + 2) (fresh s + 3) []"
    using assms t by (simp add: poller_at_def)
  then have "poller_inv (fresh s) t" unfolding poller_inv_def by blast
  then show thesis
    by (rule that [OF t(1)]) (use t in \<open>simp_all add: abs_poller_def\<close>)
qed

text \<open>A poller with the sample socket, on the reference library.\<close>

lemma sample_poller:
  obtains t where "rb_czmq_poller_new (vm_sock ZMQ_SOCKET_BOUND False) = Return (Object rb_cZmqPoller 4) t" "poller_inv 4 t"
    "abs_poller 4 t = \<lparr>members = [], readable_now = [], writable_now = [], chatty = False\<rparr>"
    "poller_valid ref 4 t (Register (Object rb_cZmqSubSocket 2))"
    "coerced ref (\<lambda>q. None) t (Object rb_cZmqSubSocket 2) = Some (8,
       \<lparr>p_socket = Object rb_cZmqSubSocket 2, p_io = Qnil, p_events = Fixnum 3, p_handler = Qnil,
        p_item = \<lparr>pi_socket = 3, pi_fd = 0, pi_events = 3, pi_revents = 0\<rparr>\<rparr>)" "lib t = world_sock"
proof -
  obtain t where t: "rb_czmq_poller_new (vm_sock ZMQ_SOCKET_BOUND False) = Return (Object rb_cZmqPoller 4) t" "poller_inv 4 t"
    "abs_poller 4 t = \<lparr>members = [], readable_now = [], writable_now = [], chatty = False\<rparr>"
    "socks t = [2 \<mapsto> sample_sock ZMQ_SOCKET_BOUND False]" "thread t = Object rb_cThread 1" "fresh t = 8" "lib t = world_sock"
    by (rule new_poller [of "vm_sock ZMQ_SOCKET_BOUND False"]) simp_all
  show thesis
  proof (rule that [OF t(1-3) _ _ t(7)])
    show "poller_valid ref 4 t (Register (Object rb_cZmqSubSocket 2))"
      using t by (simp add: struct_value_def)
    show "coerced ref (\<lambda>q. None) t (Object rb_cZmqSubSocket 2) = Some (8,
       \<lparr>p_socket = Object rb_cZmqSubSocket 2, p_io = Qnil, p_events = Fixnum 3, p_handler = Qnil,
        p_item = \<lparr>pi_socket = 3, pi_fd = 0, pi_events = 3, pi_revents = 0\<rparr>\<rparr>)"
      using t by (simp add: coerced_def pollitem_for_def socket_klass.simps ref_fields has_def socket_state_defs Let_def)
  qed
qed



lemma empty_poll:
  assumes "poller_inv p t" and "members (abs_poller p t) = []" and "timeout_of argv = Some n"
  shows "rb_czmq_poller_poll A argv (Object rb_cZmqPoller p) t = Return (INT2NUM 0) t"
proof -
  obtain q a r w vs where at: "poller_at t p q a r w vs" using assms(1) unfolding poller_inv_def by blast
  have "vs = []" using assms(2) abs_poller_at [OF at] by (metis map_is_Nil_conv poller_view.select_convs(1))
  then show ?thesis using poller_poll_timeout [OF poller_atD(1,3) [OF at] assms(3)] poller_atD(13) [OF at] by simp
qed

text \<open>Timeouts of the examples: none, one second, and half a second.\<close>

lemma timeout_examples:
  "timeout_of [] = Some 0" "timeout_of [Fixnum 1] = Some 1000" "timeout_of [Float (1 / 2)] = Some 500"
  using size_t_msecs_whole [of 0 0] size_t_msecs_Fixnum [of 1] size_t_msecs_whole [of "1 / 2" 500]
  by (simp_all add: timeout_of_def seconds_of_def)

lemma nothing_reported: "\<forall>i. i \<in> set out \<longrightarrow> pi_revents i = 0 \<Longrightarrow> reported f (zip xs out) = []"
  by (auto simp: reported_def filter_empty_conv dest: set_zip_rightD)


lemma sample_member:
  obtains t u where "rb_czmq_poller_new (vm_sock ZMQ_SOCKET_BOUND False) = Return (Object rb_cZmqPoller 4) t"
    "rb_czmq_poller_register ref (\<lambda>v m xs s. Raise (TypeError ''closed stream'') s) (Object rb_cZmqPoller 4)
       (Object rb_cZmqSubSocket 2) t = Return (Object rb_cZmqPollitem 8) u" "lib u = world_sock"
  by (simp add: rb_czmq_poller_new_def rb_czmq_poller_register_def rb_czmq_pollitem_coerce_def rb_czmq_pollitem_s_coerce_def
      rb_czmq_pollitem_s_new_def NIL_P_def INT2NUM_def is_socket_def socket_klass.simps ref_fields has_def socket_state_defs
      GetZmqSocket_def fetch_def Let_def call_def)

abbreviation closed_streams :: "'w rb_funcall" where
  "closed_streams \<equiv> (\<lambda>v m xs s. Raise (TypeError ''closed stream'') s)"

lemma sample_registered:
  obtains t u where "rb_czmq_poller_new (vm_sock ZMQ_SOCKET_BOUND False) = Return (Object rb_cZmqPoller 4) t"
    "rb_czmq_poller_register ref closed_streams (Object rb_cZmqPoller 4) (Object rb_cZmqSubSocket 2) t =
      Return (Object rb_cZmqPollitem 8) u"
    "lib u = world_sock" "poller_inv 4 t" "poller_inv 4 u"
    "runs (run_poller ref closed_streams (Object rb_cZmqPoller 4)) (poller_valid ref 4) t u"
    "members (abs_poller 4 u) = [(Object rb_cZmqPollitem 8, Object rb_cZmqSubSocket 2,
       \<lparr>pi_socket = 3, pi_fd = 0, pi_events = 3, pi_revents = 0\<rparr>)]"
proof -
  obtain t u where t: "rb_czmq_poller_new (vm_sock ZMQ_SOCKET_BOUND False) = Return (Object rb_cZmqPoller 4) t"
    and u: "rb_czmq_poller_register ref closed_streams (Object rb_cZmqPoller 4) (Object rb_cZmqSubSocket 2) t =
      Return (Object rb_cZmqPollitem 8) u" "lib u = world_sock" by (rule sample_member)
  obtain t' where t': "rb_czmq_poller_new (vm_sock ZMQ_SOCKET_BOUND False) = Return (Object rb_cZmqPoller 4) t'"
    "poller_inv 4 t'"
    "abs_poller 4 t' = \<lparr>members = [], readable_now = [], writable_now = [], chatty = False\<rparr>"
    "poller_valid ref 4 t' (Register (Object rb_cZmqSubSocket 2))"
    "coerced ref (\<lambda>q. None) t' (Object rb_cZmqSubSocket 2) = Some (8,
       \<lparr>p_socket = Object rb_cZmqSubSocket 2, p_io = Qnil, p_events = Fixnum 3, p_handler = Qnil,
        p_item = \<lparr>pi_socket = 3, pi_fd = 0, pi_events = 3, pi_revents = 0\<rparr>\<rparr>)"
    by (rule sample_poller)
  have eq: "t' = t" using t t'(1) by simp
  have run: "final_state (run_poller ref closed_streams (Object rb_cZmqPoller 4) (Register (Object rb_cZmqSubSocket 2)) t) = Some u"
    by (simp add: u(1))
  have runs: "runs (run_poller ref closed_streams (Object rb_cZmqPoller 4)) (poller_valid ref 4) t u"
    by (rule runs.step [where c = "Register (Object rb_cZmqSubSocket 2)"]) (rule runs.start, rule t'(4) [unfolded eq], rule run)
  show thesis
  proof (rule that [OF t u t'(2) [unfolded eq] _ runs])
    show "poller_inv 4 u" by (rule poller.runs_inv [OF runs conjI [OF ref_poll no_fileno] t'(2) [unfolded eq]])
    show "members (abs_poller 4 u) = [(Object rb_cZmqPollitem 8, Object rb_cZmqSubSocket 2,
        \<lparr>pi_socket = 3, pi_fd = 0, pi_events = 3, pi_revents = 0\<rparr>)]"
      using poller.refines [OF conjI [OF ref_poll no_fileno] t'(2,4), unfolded eq, OF run] t'(3,5)
      by (simp add: eq pollable_of_def NIL_P_def unseen_def)
  qed
qed


text \<open>A poller whose size is larger than its array, which holds poll items, and which is to be rebuilt.\<close>

definition stuck :: "ptr \<Rightarrow> 'w vm \<Rightarrow> bool" where
  "stuck p s \<longleftrightarrow> p \<noteq> NULL \<and>
     (\<exists>q a vs. pollers s p = Some q \<and> pl_pollables q = Object rb_cArray a \<and> arrays s a = Some vs \<and>
        (\<forall>v. v \<in> set vs \<longrightarrow> registered s v) \<and> int (length vs) < pl_poll_size q \<and> pl_dirty q)"

lemma wp_set_poller:
  "wp (set_poller p g k) Q E s \<longleftrightarrow> (\<exists>l. pollers s p = Some l \<and> wp k Q E (s\<lparr>pollers := (pollers s)(p \<mapsto> g l)\<rparr>))"
  by (simp add: set_poller_def wp_simps)

lemma stuck_rebuild:
  assumes "stuck p s"
  shows "wp (rb_czmq_poller_rebuild_pollset p) (\<lambda>_ _. False) (\<lambda>e t. e = TypeError ''ZMQ::Pollitem'' \<and> stuck p t) s"
    (is "wp _ _ ?E s")
proof -
  obtain q a vs where q: "p \<noteq> NULL" "pollers s p = Some q" "pl_pollables q = Object rb_cArray a" "arrays s a = Some vs"
    "\<And>v. v \<in> set vs \<Longrightarrow> registered s v" "int (length vs) < pl_poll_size q" "pl_dirty q"
    using assms unfolding stuck_def by blast
  let ?I = "\<lambda>k t. k \<le> length vs \<and> (\<exists>ps. pollers t p = Some (q\<lparr>pl_pollset := ps\<rparr>)) \<and> arrays t = arrays s \<and>
      pollitems t = pollitems s \<and> fresh t = fresh s"
  let ?c = "\<lambda>k. rd (\<lambda>s. rb_ary_entry (ary s (pl_pollables q)) k) (\<lambda>pollable.
          ZmqGetPollitem pollable (\<lambda>i.
          deref pollitems i (\<lambda>it.
          set_poller p (\<lambda>q. q\<lparr>pl_pollset := (pl_pollset q)[k := p_item it]\<rparr>) (
          ret (Suc k)))))"
  have stuck: "stuck p t" if I: "?I k t" for k t
  proof -
    obtain ps where "pollers t p = Some (q\<lparr>pl_pollset := ps\<rparr>)" using I by blast
    moreover have "registered t v" if "v \<in> set vs" for v using q(5) [OF that] I by (simp add: registered_def)
    ultimately show ?thesis unfolding stuck_def using q I by (intro conjI exI [of _ "q\<lparr>pl_pollset := ps\<rparr>"] exI [of _ a] exI [of _ vs]) simp_all
  qed
  have round: "wp (?c k) (\<lambda>y t. ?I y t \<and> nat (pl_poll_size q) - y < nat (pl_poll_size q) - k) ?E t"
    if I: "?I k t" and k: "int k < pl_poll_size q" for k t
  proof (cases "k < length vs")
    case True
    then obtain i it where i: "vs ! k = Object rb_cZmqPollitem i" "i \<noteq> NULL" "pollitems s i = Some it"
      using q(5) [OF nth_mem [OF True]] by (auto simp: registered_def)
    have "wp (set_poller p (\<lambda>q. q\<lparr>pl_pollset := (pl_pollset q)[k := p_item it]\<rparr>) (ret (Suc k)))
        (\<lambda>y t. ?I y t \<and> nat (pl_poll_size q) - y < nat (pl_poll_size q) - k) ?E t"
      using I True k by (auto simp: wp_set_poller)
    then show ?thesis using i q(3,4) I True by (simp add: wp_simps ary_def rb_ary_entry_def)
  next
    case False
    then have "rb_ary_entry (ary t (pl_pollables q)) k = Qnil" using q(3,4) I by (simp add: rb_ary_entry_def ary_def)
    then show ?thesis using stuck [OF I] by (simp add: wp_simps ZmqGetPollitem_def fetch_def)
  qed
  have "wp (while_do (\<lambda>k. int k < pl_poll_size q) ?c (\<lambda>_. set_poller p (\<lambda>q. q\<lparr>pl_dirty := False\<rparr>) (ret 0)) 0)
      (\<lambda>_ _. False) ?E (s\<lparr>pollers := (pollers s)(p \<mapsto> q\<lparr>pl_pollset := replicate (nat (pl_poll_size q)) no_item\<rparr>)\<rparr>)"
    by (rule wp_while [where I = ?I and m = "\<lambda>k _. nat (pl_poll_size q) - k"]) (use round q(6) in auto)
  then show ?thesis using q(2) by (simp add: rb_czmq_poller_rebuild_pollset_def wp_deref wp_set_poller)
qed

lemma stuck_poll:
  assumes "stuck p s" and "seconds_of argv \<noteq> None"
  shows "\<exists>t. rb_czmq_poller_poll B argv (Object rb_cZmqPoller p) s = Raise (TypeError ''ZMQ::Pollitem'') t \<and> stuck p t"
proof -
  obtain q where q: "p \<noteq> NULL" "pollers s p = Some q" "0 < pl_poll_size q" "pl_dirty q"
    using assms(1) unfolding stuck_def by (metis of_nat_0_le_iff order_le_less_trans)
  obtain secs where secs: "seconds_of argv = Some secs" using assms(2) by blast
  obtain t where "rb_czmq_poller_rebuild_pollset p s = Raise (TypeError ''ZMQ::Pollitem'') t" "stuck p t"
    using stuck_rebuild [OF assms(1)] by (auto simp: wp_def split: outcome.splits)
  then show ?thesis using poller_poll_run(2) [OF q(1,2) secs] q(3,4) by (simp add: call_def)
qed

lemma stuck_runs:
  assumes "runs (run_poller B g (Object rb_cZmqPoller p)) (\<lambda>_ c. \<exists>argv. c = Poll argv) s t" and "stuck p s"
  shows "stuck p t"
  using assms
proof (induction rule: runs.induct)
  case (step t c u)
  then obtain argv where argv: "c = Poll argv" by blast
  have t: "stuck p t" using step by blast
  show ?case
  proof (cases "seconds_of argv")
    case None
    obtain q where "p \<noteq> NULL" "pollers t p = Some q" using t unfolding stuck_def by blast
    then obtain e where "rb_czmq_poller_poll B argv (Object rb_cZmqPoller p) t = Raise e t"
      using poller_poll_run(1) [OF _ _ None] by blast
    then show ?thesis using step.hyps(3) t argv by simp
  next
    case (Some secs)
    then show ?thesis using stuck_poll [OF t, of argv B] step.hyps(3) argv by auto
  qed
qed

text \<open>
  C35: registering a poll item twice and removing it once breaks a poller. In a poller that is not
  verbose, with any members before it as long as none of them is the item or has its pollable, \<^verbatim>\<open>remove\<close> deletes both
  occurrences of the item from the array but decrements the size by one, so the size stays one too
  large. The next poll, with any timeout of an accepted type, raises a TypeError for the nil it finds
  behind the end of the array, and so does every later one, whatever was polled in between.
\<close>

theorem duplicate_registration_breaks:
  assumes "poller_inv p s" and "\<not> chatty (abs_poller p s)"
    and "i \<noteq> NULL" and "i < fresh s" and "pollitems s i = Some it"
    and "\<And>m. m \<in> set (members (abs_poller p s)) \<Longrightarrow> fst m \<noteq> Object rb_cZmqPollitem i \<and> fst (snd m) \<noteq> pollable_of it"
  shows "\<exists>t u w. rb_czmq_poller_register A f (Object rb_cZmqPoller p) (Object rb_cZmqPollitem i) s = Return (Object rb_cZmqPollitem i) t \<and>
    rb_czmq_poller_register A f (Object rb_cZmqPoller p) (Object rb_cZmqPollitem i) t = Return (Object rb_cZmqPollitem i) u \<and>
    rb_czmq_poller_remove A f (Object rb_cZmqPoller p) (Object rb_cZmqPollitem i) u = Return (Object rb_cZmqPollitem i) w \<and>
    (\<forall>x argv. runs (run_poller B g (Object rb_cZmqPoller p)) (\<lambda>_ c. \<exists>argv. c = Poll argv) w x \<longrightarrow> seconds_of argv \<noteq> None \<longrightarrow>
       (\<exists>y. rb_czmq_poller_poll B argv (Object rb_cZmqPoller p) x = Raise (TypeError ''ZMQ::Pollitem'') y))"
proof -
  obtain q a r z vs where at0: "poller_at s p q a r z vs" using assms(1) unfolding poller_inv_def by blast
  note at = poller_atD [OF at0]
  have q: "\<not> pl_verbose q" using assms(2) at by (simp add: abs_poller_def)
  let ?v = "Object rb_cZmqPollitem i"
  let ?s = "\<lambda>xs n. s\<lparr>arrays := (arrays s)(a \<mapsto> xs), pollers := (pollers s)(p \<mapsto> q\<lparr>pl_poll_size := n, pl_dirty := True\<rparr>)\<rparr>"
  have other: "?v \<noteq> v" "pollable_of it \<noteq> pollable_of (item_of s v)" if "v \<in> set vs" for v
  proof -
    obtain rs ws where "abs_poller p s = \<lparr>members = map (member_of s) vs, readable_now = rs, writable_now = ws, chatty = pl_verbose q\<rparr>"
      by (rule abs_poller_at [OF at0])
    then have "member_of s v \<in> set (members (abs_poller p s))" using that by simp
    from assms(6) [OF this] show "?v \<noteq> v" "pollable_of it \<noteq> pollable_of (item_of s v)" by (auto simp: member_of_def)
  qed
  have coerce: "call (rb_czmq_pollitem_coerce A f ?v) k = k ?v" for k :: "rvalue \<Rightarrow> ('a, rvalue) vcmd"
    by (simp add: rb_czmq_pollitem_coerce_def rb_czmq_pollitem_s_coerce_def)
  let ?n = "int (length vs)" and ?two = "?s (vs @ [?v, ?v]) (int (length vs) + 2)"
  have reg: "rb_czmq_poller_register A f (Object rb_cZmqPoller p) ?v s = Return ?v (?s (vs @ [?v]) (?n + 1))"
    "rb_czmq_poller_register A f (Object rb_cZmqPoller p) ?v (?s (vs @ [?v]) (?n + 1)) = Return ?v ?two"
    using at q assms(3,5) by (simp_all add: rb_czmq_poller_register_def coerce add.commute [of 2])
  have "removeAll ?v vs = vs" using other(1) by (auto intro: removeAll_id)
  then have gone: "removeAll ?v (vs @ [?v, ?v]) = vs" by simp
  have two: "pollitems ?two = pollitems s" "fresh ?two = fresh s" by simp_all
  have regs: "registered ?two v" if "v \<in> set (vs @ [?v, ?v])" for v
    using that at(15) assms(3-5) by (auto simp: registered_def two)
  let ?q2 = "q\<lparr>pl_poll_size := ?n + 2, pl_dirty := True\<rparr>"
  let ?hit = "\<lambda>k. ?v = (vs @ [?v, ?v]) ! k \<or> pollable_of it = pollable_of (item_of ?two ((vs @ [?v, ?v]) ! k))"
  have find: "List.find ?hit [0..<length (vs @ [?v, ?v])] = Some (length vs)"
    unfolding find_Some_iff same_items(1) [OF two(1)] using other
    by (intro exI [of _ "length vs"]) (auto simp: nth_append simp del: upt_Suc)
  have q2: "pollers ?two p = Some ?q2" "pl_pollables ?q2 = Object rb_cArray a" "arrays ?two a = Some (vs @ [?v, ?v])"
    "pl_poll_size ?q2 = int (length (vs @ [?v, ?v]))" "pollitems ?two i = Some it" using at(4) assms(5) by simp_all
  note found = remove_search [OF q2(1-4) regs assms(3) q2(5), unfolded find option.case]
  have "(vs @ [?v, ?v]) ! length vs = ?v" by simp
  moreover have "?two\<lparr>arrays := (arrays ?two)(a \<mapsto> removeAll ?v (vs @ [?v, ?v])),
      pollers := (pollers ?two)(p \<mapsto> ?q2\<lparr>pl_poll_size := int (length (vs @ [?v, ?v])) - 1, pl_dirty := True\<rparr>)\<rparr> = ?s vs (?n + 1)"
    unfolding gone by (simp add: add.commute)
  ultimately have "take_item p ?v ?two = Return ?v (?s vs (?n + 1))"
    using found unfolding deref_run(1) [where h = pollers, OF q2(1)] by (simp only:)
  then have rem: "rb_czmq_poller_remove A f (Object rb_cZmqPoller p) ?v ?two = Return ?v (?s vs (?n + 1))"
    by (simp only: rb_czmq_poller_remove_def ZmqGetPoller_run [OF at(1)] coerce ZmqGetPollitem_run [OF assms(3)])
  have "stuck p (?s vs (?n + 1))" unfolding stuck_def using at by (auto simp: registered_def)
  then have "\<exists>y. rb_czmq_poller_poll B argv (Object rb_cZmqPoller p) x = Raise (TypeError ''ZMQ::Pollitem'') y"
    if "runs (run_poller B g (Object rb_cZmqPoller p)) (\<lambda>_ c. \<exists>argv. c = Poll argv) (?s vs (?n + 1)) x" "seconds_of argv \<noteq> None"
    for x argv using stuck_poll [OF stuck_runs [OF that(1)] that(2)] by blast
  then show ?thesis using reg rem by blast
qed

theorem duplicate_registration_breaks_witness:
  "\<exists>s t u w x. rb_czmq_poller_register ref closed_streams (Object rb_cZmqPoller 4) (Object rb_cZmqPollitem 3) s = Return (Object rb_cZmqPollitem 3) t \<and>
    rb_czmq_poller_register ref closed_streams (Object rb_cZmqPoller 4) (Object rb_cZmqPollitem 3) t = Return (Object rb_cZmqPollitem 3) u \<and>
    rb_czmq_poller_remove ref closed_streams (Object rb_cZmqPoller 4) (Object rb_cZmqPollitem 3) u = Return (Object rb_cZmqPollitem 3) w \<and>
    rb_czmq_poller_poll ref [Fixnum 1] (Object rb_cZmqPoller 4) w = Raise (TypeError ''ZMQ::Pollitem'') x"
proof -
  let ?s = "(vm_sock ZMQ_SOCKET_BOUND False)\<lparr>pollitems := [3 \<mapsto> no_pollitem]\<rparr>"
  obtain t where t: "rb_czmq_poller_new ?s = Return (Object rb_cZmqPoller 4) t" "poller_inv 4 t"
    "abs_poller 4 t = \<lparr>members = [], readable_now = [], writable_now = [], chatty = False\<rparr>"
    "pollitems t = [3 \<mapsto> no_pollitem]" "fresh t = 8" by (rule new_poller [of ?s]) simp_all
  have "seconds_of [Fixnum 1] \<noteq> None" by (simp add: seconds_of_def)
  then show ?thesis
    using duplicate_registration_breaks [OF t(2), of 3 no_pollitem ref closed_streams ref closed_streams] t(3-5) runs.start by fastforce
qed

text \<open>
  The documented \<open>poll(-1)\<close>, like any other whole negative number of seconds, has no conversion to the
  unsigned timeout: with a member the method faults, so the test \<^verbatim>\<open>timeout < 0\<close> behind it never helps.
\<close>

lemma negative_timeout_faults:
  assumes "poller_inv p s" and "members (abs_poller p s) \<noteq> []" and "n < 0" and "- (2 ^ 53) < n"
  shows "rb_czmq_poller_poll A [Fixnum n] (Object rb_cZmqPoller p) s = Crash UndefinedConversion"
proof -
  obtain q a r w vs where at: "poller_at s p q a r w vs" using assms(1) unfolding poller_inv_def by blast
  have "fl (of_int n) = of_int n" by (rule fl_int) (use assms in simp)
  moreover have "size_t_msecs (of_int n) = None"
  proof (rule size_t_msecs_negative)
    have "of_int (n * 1000) \<le> (of_int (- 1) :: rat)" unfolding of_int_le_iff using assms(3) by simp
    then show "of_int n * 1000 \<le> (-1 :: rat)" by simp
  qed
  ultimately have secs: "seconds_of [Fixnum n] = Some (of_int n)" and none: "size_t_msecs (of_int n) = None"
    by (simp_all add: seconds_of_def)
  have "vs \<noteq> []" using assms(2) abs_poller_at [OF at] by force
  then have "pl_poll_size q \<noteq> 0" using poller_atD(13) [OF at] by simp
  then show ?thesis
    using poller_poll_run(2) [OF poller_atD(1,3) [OF at] secs] none
    by (simp add: call_def rebuild_pollset [OF at])
qed

text \<open>
  C36: a registered socket that was closed reaches libzmq. The poll items keep the handle of their
  socket; closing the socket does not unregister it, and the next poll of the poller, with any
  timeout that C can convert, hands the closed handle to libzmq.
\<close>

theorem closed_socket_polled:
  assumes "poller_inv p s" and "timeout_of argv = Some n" and "m \<in> set (members (abs_poller p s))"
    and "pi_socket (snd (snd m)) \<noteq> NULL" and "zsocks (view A (lib s)) (pi_socket (snd (snd m))) = None"
  shows "rb_czmq_poller_poll A argv (Object rb_cZmqPoller p) s = Crash BadHandle"
proof -
  obtain q a r w vs where at: "poller_at s p q a r w vs" using assms(1) unfolding poller_inv_def by blast
  note atD = poller_atD [OF at]
  have ms: "members (abs_poller p s) = map (member_of s) vs" using atD by (simp add: abs_poller_def)
  have core: "poll_core A p q n t = Crash BadHandle"
    if "pollers t p = Some x" "lib t = lib s" "map unseen (pl_pollset x) = map (\<lambda>v. unseen (p_item (item_of s v))) vs" for t x
  proof -
    have "snd (snd m) \<in> set (map unseen (pl_pollset x))" using assms(3) unfolding that(3) ms by (auto simp: member_of_def)
    then obtain i where "i \<in> set (pl_pollset x)" "snd (snd m) = unseen i" by auto
    then have "\<not> (\<forall>i \<in> set (pl_pollset x). pi_socket i \<noteq> NULL \<longrightarrow> zsocks (view A (lib s)) (pi_socket i) \<noteq> None)"
      using assms(4,5) by (auto simp: unseen_def)
    then show ?thesis
      using atD(5,6) that(1,2) by (simp add: poll_core_def rb_czmq_nogvl_poll_items_def call_def) blast
  qed
  have ne: "pl_poll_size q \<noteq> 0" using assms(3) ms atD(13) by auto
  show ?thesis
  proof (cases "pl_dirty q")
    case True
    then show ?thesis
      using ne by (simp add: poller_poll_timeout [OF atD(1,3) assms(2)] call_def rebuild_pollset [OF at])
        (rule core, simp, simp, simp add: comp_def)
  next
    case False
    then show ?thesis
      using ne core [OF atD(3) refl atD(16)] by (simp add: poller_poll_timeout [OF atD(1,3) assms(2)])
  qed
qed

theorem closed_socket_polled_witness:
  "\<exists>t u. rb_czmq_poller_new (vm_sock ZMQ_SOCKET_BOUND False) = Return (Object rb_cZmqPoller 4) t \<and>
     rb_czmq_poller_register ref closed_streams (Object rb_cZmqPoller 4) (Object rb_cZmqSubSocket 2) t =
       Return (Object rb_cZmqPollitem 8) u \<and>
     rb_czmq_poller_poll ref [Float (1 / 2)] (Object rb_cZmqPoller 4) (u\<lparr>lib := zsocket_destroy ref 1 3 (lib u)\<rparr>) = Crash BadHandle"
proof -
  obtain t u where t: "rb_czmq_poller_new (vm_sock ZMQ_SOCKET_BOUND False) = Return (Object rb_cZmqPoller 4) t"
    and u: "rb_czmq_poller_register ref closed_streams (Object rb_cZmqPoller 4) (Object rb_cZmqSubSocket 2) t =
      Return (Object rb_cZmqPollitem 8) u" "lib u = world_sock" "poller_inv 4 u"
    and abs: "members (abs_poller 4 u) = [(Object rb_cZmqPollitem 8, Object rb_cZmqSubSocket 2,
       \<lparr>pi_socket = 3, pi_fd = 0, pi_events = 3, pi_revents = 0\<rparr>)]" by (rule sample_registered)
  let ?u = "u\<lparr>lib := zsocket_destroy ref 1 3 (lib u)\<rparr>"
  have "poller_inv 4 ?u" "abs_poller 4 ?u = abs_poller 4 u" using u(3) by simp_all
  moreover have "zsocks (view ref (lib ?u)) 3 = None" by (simp add: u(2) ref_fields world_sock_def rview_def cell_def rput_def)
  ultimately have "rb_czmq_poller_poll ref [Float (1 / 2)] (Object rb_cZmqPoller 4) ?u = Crash BadHandle"
    using closed_socket_polled [of 4 ?u "[Float (1 / 2)]" 500 "(Object rb_cZmqPollitem 8, Object rb_cZmqSubSocket 2,
       \<lparr>pi_socket = 3, pi_fd = 0, pi_events = 3, pi_revents = 0\<rparr>)" ref] abs timeout_examples(3) by simp
  then show ?thesis using t u(1) by blast
qed

end
