(* ===== verification/Zmq_Termination.thy ===== *)
theory Zmq_Termination
  imports Zmq_Poll_Theorems
begin

text \<open>
  Termination without an invariant: the loops of a poller end in every state, even in one whose
  size, arrays and items do not fit together.
\<close>

declare socket_klass.simps [simp del]

text \<open>\<open>ends m Q s\<close>: \<open>m\<close> does not loop in \<open>s\<close>, and what it returns is in \<open>Q\<close>; it may fault otherwise.\<close>

definition ends :: "('s, 'a) cmd \<Rightarrow> ('a \<Rightarrow> bool) \<Rightarrow> 's \<Rightarrow> bool" where
  "ends m Q s \<longleftrightarrow> (case m s of Return v t \<Rightarrow> Q v | Raise e t \<Rightarrow> True | Crash f \<Rightarrow> f \<noteq> NonTerminating)"

named_theorems ends_rules \<open>termination of the combinators\<close>

lemma ends_basic [ends_rules]:
  "Q v \<Longrightarrow> ends (ret v) Q s" "ends (raise e) Q s" "f \<noteq> NonTerminating \<Longrightarrow> ends (crash f) Q s"
  by (simp_all add: ends_def)

lemma ends_rd [ends_rules]: "(\<And>x. ends (k x) Q s) \<Longrightarrow> ends (rd f k) Q s"
  by (simp add: ends_def)

lemma ends_wr [ends_rules]: "(\<And>t. ends k Q t) \<Longrightarrow> ends (wr f k) Q s"
  by (simp add: ends_def)

lemma ends_check [ends_rules]: "ends k Q s \<Longrightarrow> ends (check b e k) Q s"
  by (simp add: ends_def)

lemma ends_require [ends_rules]: "ends k Q s \<Longrightarrow> f \<noteq> NonTerminating \<Longrightarrow> ends (require b f k) Q s"
  by (simp add: ends_def)

lemma ends_deref [ends_rules]: "(\<And>r. ends (k r) Q s) \<Longrightarrow> ends (deref h p k) Q s"
  by (simp add: ends_def deref_def split: option.split)

lemma ends_make_struct [ends_rules]: "(\<And>p t. ends (k p) Q t) \<Longrightarrow> ends (make_struct put k) Q s"
  by (simp add: ends_def)

lemma ends_ask [ends_rules]: "(\<And>x. ends (k x) Q s) \<Longrightarrow> ends (ask f k) Q s"
  by (simp add: ends_def)

lemma ends_invoke [ends_rules]: "(\<And>x t. ends (k x) Q t) \<Longrightarrow> ends (invoke f k) Q s"
  by (simp add: ends_def invoke_def split: prod.split)

lemma ends_invoke_blocking:
  "(\<And>w. f w \<noteq> None) \<Longrightarrow> (\<And>x t. ends (k x) Q t) \<Longrightarrow> ends (invoke_blocking f k) Q s"
  by (auto simp: ends_def invoke_blocking_def split: option.split)

lemma ends_call: "ends m R s \<Longrightarrow> (\<And>v t. R v \<Longrightarrow> ends (k v) Q t) \<Longrightarrow> ends (call m k) Q s"
  by (cases "m s") (simp_all add: ends_def call_def)

lemma ends_call_any [ends_rules]: "ends m (\<lambda>_. True) s \<Longrightarrow> (\<And>v t. ends (k v) Q t) \<Longrightarrow> ends (call m k) Q s"
  by (rule ends_call)

lemma ends_fetch [ends_rules]: "(\<And>p. ends (k p) Q s) \<Longrightarrow> ends (fetch K d u obj k) Q s"
  by (simp add: ends_def fetch_def split: rvalue.split)

lemma ends_if [ends_rules]: "ends a Q s \<Longrightarrow> ends b Q s \<Longrightarrow> ends (if c then a else b) Q s"
  by simp

text \<open>A loop ends when every round does and decreases a measure of the loop variables.\<close>

lemma ends_while:
  fixes m :: "'x \<Rightarrow> nat"
  assumes "\<And>x t. b x \<Longrightarrow> ends (c x) (\<lambda>y. m y < m x) t" and "\<And>x t. ends (k x) Q t"
  shows "ends (while_do b c k x) Q s"
proof (induction "m x" arbitrary: x s rule: less_induct)
  case (less x s)
  show ?case
  proof (cases "b x")
    case True
    have "ends (call (c x) (while_do b c k)) Q s"
      by (rule ends_call [OF assms(1) [OF True]]) (rule less.hyps)
    then show ?thesis using True by (simp add: ends_def while_do_unroll [of b c k x s])
  next
    case False
    then show ?thesis using assms(2) by (simp add: ends_def while_do_stop)
  qed
qed

lemma ends_mono: "ends m R s \<Longrightarrow> (\<And>v. R v \<Longrightarrow> Q v) \<Longrightarrow> ends m Q s"
  by (auto simp: ends_def split: outcome.splits)

section \<open>The macros and the array functions\<close>

lemma ends_macros [ends_rules]:
  "(\<And>t. ends k Q t) \<Longrightarrow> ends (set_poller p g k) Q s" "(\<And>t. ends k Q t) \<Longrightarrow> ends (set_pollitem p h k) Q s"
  "(\<And>t. ends k Q t) \<Longrightarrow> ends (set_sock p j k) Q s"
  "(\<And>t. ends k Q t) \<Longrightarrow> ends (rb_ary_push v x k) Q s" "(\<And>t. ends k Q t) \<Longrightarrow> ends (rb_ary_delete v x k) Q s"
  "(\<And>t. ends k Q t) \<Longrightarrow> ends (rb_ary_clear v k) Q s"
  unfolding set_poller_def set_pollitem_def set_sock_def rb_ary_push_def rb_ary_delete_def rb_ary_clear_def
  by (intro ends_rules; assumption)+

lemma ends_guards [ends_rules]:
  "(\<And>p. ends (k p) Q s) \<Longrightarrow> ends (ZmqGetPoller v k) Q s" "(\<And>p. ends (k p) Q s) \<Longrightarrow> ends (ZmqGetPollitem v k) Q s"
  "(\<And>p. ends (k p) Q s) \<Longrightarrow> ends (GetZmqSocket v k) Q s"
  "ends c Q s \<Longrightarrow> ends (ZmqSockGuardCrossThread p c) Q s" "ends c Q s \<Longrightarrow> ends (ZmqAssertSocketNotPending p msg c) Q s"
  unfolding ZmqGetPoller_def ZmqGetPollitem_def GetZmqSocket_def ZmqSockGuardCrossThread_def ZmqAssertSocketNotPending_def
  by (intro ends_rules; assumption)+

lemma ends_args [ends_rules]:
  "(\<And>n. ends (k n) Q s) \<Longrightarrow> ends (Check_Fixnum v k) Q s" "(\<And>n. ends (k n) Q s) \<Longrightarrow> ends (FIX2INT n k) Q s"
  "(\<And>a. ends (h a) Q s) \<Longrightarrow> ends (rb_scan_args_01 argv h) Q s"
  "(\<And>a b. ends (g a b) Q s) \<Longrightarrow> ends (rb_scan_args_11 argv g) Q s"
  "(\<And>r. ends (j r) Q s) \<Longrightarrow> ends (secs_of v d j) Q s"
  by (simp_all add: ends_def Check_Fixnum_def FIX2INT_def rb_scan_args_01_def rb_scan_args_11_def secs_of_def
      split: rvalue.split list.split)

lemma ends_to_msecs [ends_rules]: "(\<And>n. ends (k n) Q s) \<Longrightarrow> ends (to_msecs r k) Q s"
  by (simp add: ends_def to_msecs_def split: option.split)

lemma ends_ZmqAssert [ends_rules]: "(\<And>t. ends k Q t) \<Longrightarrow> Q Qfalse \<Longrightarrow> ends (ZmqAssert A rc k) Q s"
  by (simp add: ends_def ZmqAssert_def ZmqAssertSysError_def Let_def)

section \<open>The poller\<close>

lemma ends_rebuild_pollset: "ends (rb_czmq_poller_rebuild_pollset p) (\<lambda>_. True) s"
proof -
  have "ends (while_do (\<lambda>k. int k < pl_poll_size q)
       (\<lambda>k. rd (\<lambda>s. rb_ary_entry (ary s (pl_pollables q)) k) (\<lambda>pollable.
          ZmqGetPollitem pollable (\<lambda>p.
          deref pollitems p (\<lambda>i.
          set_poller poller (\<lambda>q. q\<lparr>pl_pollset := (pl_pollset q)[k := p_item i]\<rparr>) (
          ret (Suc k))))))
       (\<lambda>_. set_poller poller (\<lambda>q. q\<lparr>pl_dirty := False\<rparr>) (ret 0)) 0) (\<lambda>_. True) t" for q poller t
    by (intro ends_while [where m = "\<lambda>k. nat (pl_poll_size q) - k"] ends_rules) auto
  then show ?thesis unfolding rb_czmq_poller_rebuild_pollset_def by (intro ends_rules)
qed

lemma ends_pollable: "ends (rb_czmq_pollitem_pollable v) (\<lambda>_. True) s"
  unfolding rb_czmq_pollitem_pollable_def by (intro ends_rules) simp

lemma ends_rebuild_selectables: "ends (rb_czmq_poller_rebuild_selectables A p) (\<lambda>_. True) s"
proof -
  have "ends (while_do (\<lambda>rebuilt. int rebuilt < pl_poll_size q)
       (\<lambda>rebuilt.
          let item = pl_pollset q ! rebuilt
          in rd (\<lambda>s. rb_ary_entry (ary s (pl_pollables q)) rebuilt) (\<lambda>pollable.
             ZmqGetPollitem pollable (\<lambda>_.
             let push_to = (\<lambda>array k. call (rb_czmq_pollitem_pollable pollable) (\<lambda>v. rb_ary_push array v k));
                 writable =
                   (if has (scast (pi_revents item)) (ZMQ_POLLOUT A) then push_to (pl_writables q) (ret (Suc rebuilt))
                    else ret (Suc rebuilt))
             in if has (scast (pi_revents item)) (ZMQ_POLLIN A) then push_to (pl_readables q) writable
                else writable)))
       (\<lambda>_. ret 0) 0) (\<lambda>_. True) t" for q t
    unfolding Let_def
    by (intro ends_while [where m = "\<lambda>k. nat (pl_poll_size q) - k"] ends_rules ends_pollable) auto
  then show ?thesis unfolding rb_czmq_poller_rebuild_selectables_def by (intro ends_rules)
qed

lemma ends_poll:
  assumes "\<And>items t w. zmq_poll A items t w \<noteq> None"
  shows "ends (rb_czmq_poller_poll A argv obj) (\<lambda>_. True) s"
proof -
  have items: "ends (rb_czmq_nogvl_poll_items A p n) (\<lambda>_. True) t" for p n t
    unfolding rb_czmq_nogvl_poll_items_def case_prod_unfold
    by (intro ends_rules ends_invoke_blocking [OF assms]) simp_all
  show ?thesis
    unfolding rb_czmq_poller_poll_def Let_def
    by (intro ends_rules items ends_rebuild_pollset ends_rebuild_selectables) simp_all
qed

text \<open>Ruby's own methods, which the extension calls, are assumed to return or raise.\<close>

definition ruby_returns :: "'w rb_funcall \<Rightarrow> bool" where
  "ruby_returns f \<longleftrightarrow> (\<forall>v m xs s. f v m xs s \<noteq> Crash NonTerminating)"

lemma ends_funcall: "ruby_returns f \<Longrightarrow> ends (f v m xs) (\<lambda>_. True) s"
  by (auto simp: ruby_returns_def ends_def split: outcome.split)

lemma ends_coerce:
  assumes "ruby_returns f"
  shows "ends (rb_czmq_pollitem_coerce A f v) (\<lambda>_. True) s"
proof -
  have io: "ends (case v of Object rb_cIO q \<Rightarrow> k | _ \<Rightarrow> raise e) Q t" if "\<And>t. ends k Q t"
    for v :: rvalue and k :: "('a, rvalue) vcmd" and e Q t
    using that by (auto intro: ends_rules split: rvalue.split klass.split)
  have new: "ends (rb_czmq_pollitem_s_new A f argv) (\<lambda>_. True) t" for argv t
    unfolding rb_czmq_pollitem_s_new_def Let_def
    by (intro ends_rules ends_funcall [OF assms] io TrueI)
  show ?thesis
    unfolding rb_czmq_pollitem_coerce_def rb_czmq_pollitem_s_coerce_def
    using new by (auto intro: ends_rules split: rvalue.split klass.split)
qed

lemma ends_register:
  assumes "ruby_returns f"
  shows "ends (rb_czmq_poller_register A f obj v) (\<lambda>_. True) s"
proof -
  have verbose: "ends (rb_czmq_pollitem_set_verbose v w) (\<lambda>_. True) t" for v w t
    unfolding rb_czmq_pollitem_set_verbose_def Let_def by (intro ends_rules TrueI)
  show ?thesis
    unfolding rb_czmq_poller_register_def Let_def by (intro ends_rules ends_coerce [OF assms] verbose TrueI)
qed

lemma ends_remove:
  assumes "ruby_returns f"
  shows "ends (rb_czmq_poller_remove A f obj v) (\<lambda>_. True) s"
proof -
  let ?m = "\<lambda>q (st :: nat + rvalue). case st of Inl k \<Rightarrow> Suc (nat (pl_poll_size q) - k) | Inr _ \<Rightarrow> 0"
  let ?c = "\<lambda>p q v st. case st of
          Inr v \<Rightarrow> ret (Inr v)
        | Inl pos \<Rightarrow>
            rd (\<lambda>s. rb_ary_entry (ary s (pl_pollables q)) pos) (\<lambda>rpollable.
            let remove =
                  rb_ary_delete (pl_pollables q) rpollable (
                  set_poller p (\<lambda>q. q\<lparr>pl_poll_size := pl_poll_size q - 1\<rparr>) (
                  set_poller p (\<lambda>q. q\<lparr>pl_dirty := True\<rparr>) (
                  ret (Inr rpollable))))
            in if v = rpollable then remove
               else
                 call (rb_czmq_pollitem_pollable v) (\<lambda>a.
                 call (rb_czmq_pollitem_pollable rpollable) (\<lambda>b.
                 if a = b then remove else ret (Inl (Suc pos)))))"
  have round: "ends (?c p q v (Inl k)) (\<lambda>y. ?m q y < ?m q (Inl k)) t" if "int k < pl_poll_size q" for p q v k t
    unfolding Let_def sum.case by (intro ends_rules ends_pollable) (use that in auto)
  have "ends (while_do (\<lambda>st. case st of Inl pos \<Rightarrow> int pos < pl_poll_size q | Inr v \<Rightarrow> False) (?c p q v)
      (\<lambda>st. ret (case st of Inl pos \<Rightarrow> Qfalse | Inr v \<Rightarrow> v)) (Inl 0)) (\<lambda>_. True) t" for p q v t
  proof (rule ends_while [where m = "?m q"])
    fix x :: "nat + rvalue" and t assume "case x of Inl pos \<Rightarrow> int pos < pl_poll_size q | Inr v \<Rightarrow> False"
    then obtain k where "x = Inl k" "int k < pl_poll_size q" by (cases x) simp_all
    then show "ends (?c p q v x) (\<lambda>y. ?m q y < ?m q x) t" using round by (simp only:)
  qed (intro ends_rules TrueI)
  then show ?thesis
    unfolding rb_czmq_poller_remove_def by (intro ends_rules ends_coerce [OF assms])
qed

section \<open>Property\<close>



end
