(* ===== verification/Zmq_Loop.thy ===== *)
theory Zmq_Loop
  imports Zmq_Pollitem Zmq_Timer
begin

text \<open>
  loop.c: the reactor. A loop object registers poll items and timers with a czmq reactor, which
  calls back into the extension, which calls the program's handlers.
\<close>

definition set_loop :: "ptr \<Rightarrow> (zmq_loop_wrapper \<Rightarrow> zmq_loop_wrapper) \<Rightarrow> ('w, 'a) vcmd \<Rightarrow> ('w, 'a) vcmd" where
  "set_loop p g k = deref loops p (\<lambda>r. wr (\<lambda>s. s\<lparr>loops := (loops s)(p \<mapsto> g r)\<rparr>) k)"

lemma set_loop_run [simp]:
  "loops s p = Some l \<Longrightarrow> set_loop p g k s = k (s\<lparr>loops := (loops s)(p \<mapsto> g l)\<rparr>)"
  by (simp add: set_loop_def)

definition live_loop :: "'w czmq \<Rightarrow> ptr \<Rightarrow> ('w, 'a) vcmd \<Rightarrow> ('w, 'a) vcmd" where
  "live_loop A p k s = (if zloops (view A (lib s)) p = None then Crash BadHandle else k s)"

lemma live_loop_run [simp]:
  "zloops (view A (lib s)) p = Some rs \<Longrightarrow> live_loop A p k s = k s"
  "zloops (view A (lib s)) p = None \<Longrightarrow> live_loop A p k s = Crash BadHandle"
  by (simp_all add: live_loop_def)

definition ZmqGetLoop :: "rvalue \<Rightarrow> (ptr \<Rightarrow> ('w, 'a) vcmd) \<Rightarrow> ('w, 'a) vcmd" where
  "ZmqGetLoop obj k =
     fetch (\<lambda>c. c = rb_cZmqLoop) ''ZMQ::Loop'' ''uninitialized ZMQ loop!'' obj (\<lambda>loop.
     deref loops loop (\<lambda>l.
     check (\<not> has (l_flags l) ZMQ_LOOP_DESTROYED)
       (ZmqError ''ZMQ::Loop instance has been destroyed by the ZMQ framework'')
     (k loop)))"

section \<open>Callbacks\<close>

text \<open>The argument of a callback is cast to a loop struct; a Ruby value is not one.\<close>

definition as_loop :: "void \<Rightarrow> (ptr \<Rightarrow> ('w, 'a) vcmd) \<Rightarrow> ('w, 'a) vcmd" where
  "as_loop arg k = (case arg of PTR p \<Rightarrow> k p | VAL v \<Rightarrow> crash WildPointer)"

definition rb_czmq_loop_started_callback :: "void \<Rightarrow> ('w, int) vcmd" where
  "rb_czmq_loop_started_callback arg =
     as_loop arg (\<lambda>loop_wrapper. set_loop loop_wrapper (\<lambda>l. l\<lparr>l_running := True\<rparr>) (ret 0))"

definition rb_czmq_loop_breaker_callback :: "void \<Rightarrow> ('w, int) vcmd" where
  "rb_czmq_loop_breaker_callback arg =
     as_loop arg (\<lambda>loop_wrapper. set_loop loop_wrapper (\<lambda>l. l\<lparr>l_running := False\<rparr>) (ret (-1)))"

text \<open>The three values of a call: receiver, method and an argument that may be nil.\<close>

definition rb_czmq_callback0 :: "'w rb_funcall \<Rightarrow> rvalue \<times> string \<times> rvalue \<Rightarrow> ('w, rvalue) vcmd" where
  "rb_czmq_callback0 rb_funcall args =
     (case args of (recv, meth, arg) \<Rightarrow>
        if NIL_P arg then rb_funcall recv meth [] else rb_funcall recv meth [arg])"

text \<open>
  \<^verbatim>\<open>rb_protect\<close> turns an exception of the handler into a status; \<^verbatim>\<open>rb_errinfo\<close> is then the exception. A
  jump that is not an exception (\<^verbatim>\<open>throw\<close>, \<^verbatim>\<open>break\<close>), which is passed on, is not modelled.
\<close>

definition rb_czmq_callback ::
  "'w czmq \<Rightarrow> 'w rb_funcall \<Rightarrow> ptr \<Rightarrow> rvalue \<times> string \<times> rvalue \<Rightarrow> ('w, int) vcmd" where
  "rb_czmq_callback A rb_funcall loop args s =
     (let breaker = (\<lambda>k. live_loop A loop (
            invoke (zloop_timer A loop 1 1 Loop_breaker_callback (VAL (fst args))) (\<lambda>_. k)))
      in case rb_czmq_callback0 rb_funcall args s of
           Crash f \<Rightarrow> Crash f
         | Raise e s' \<Rightarrow>
             breaker (
             rb_object_new (rb_cOther ''Exception'') (\<lambda>errinfo.
             call (rb_funcall (fst args) ''on_error'' [errinfo]) (\<lambda>_. ret 0))) s'
         | Return v s' \<Rightarrow> if v = Qfalse then breaker (ret (-1)) s' else Return 0 s')"

definition rb_czmq_loop_timer_callback_with_gvl ::
  "'w czmq \<Rightarrow> 'w rb_funcall \<Rightarrow> ptr \<Rightarrow> void \<Rightarrow> ('w, int) vcmd" where
  "rb_czmq_loop_timer_callback_with_gvl A rb_funcall loop cb =
     (case cb of
        PTR p \<Rightarrow> crash WildPointer
      | VAL v \<Rightarrow>
          ZmqGetTimer v (\<lambda>timer.
          deref timers timer (\<lambda>t.
          if t_cancelled t then
            live_loop A loop (
            invoke (zloop_timer_end A loop cb) (\<lambda>_. ret 0))
          else rb_czmq_callback A rb_funcall loop (v, ''call'', Qnil))))"

definition rb_czmq_loop_timer_callback ::
  "'w czmq \<Rightarrow> 'w rb_funcall \<Rightarrow> ptr \<Rightarrow> void \<Rightarrow> ('w, int) vcmd" where
  "rb_czmq_loop_timer_callback A rb_funcall loop cb = rb_czmq_loop_timer_callback_with_gvl A rb_funcall loop cb"

definition rb_czmq_loop_pollitem_callback_with_gvl ::
  "'w czmq \<Rightarrow> 'w rb_funcall \<Rightarrow> ptr \<Rightarrow> flags \<Rightarrow> void \<Rightarrow> ('w, int) vcmd" where
  "rb_czmq_loop_pollitem_callback_with_gvl A rb_funcall loop revents arg =
     (case arg of
        VAL v \<Rightarrow> crash WildPointer
      | PTR p \<Rightarrow>
          deref pollitems p (\<lambda>i.
          let handler = p_handler i;
              on = (\<lambda>event meth arg k.
                if has revents event
                then arg (\<lambda>arg. call (rb_czmq_callback A rb_funcall loop (handler, meth, arg)) k)
                else k 0)
          in on (ZMQ_POLLIN A) ''on_readable'' (\<lambda>k. k Qnil) (\<lambda>ret_r.
             on (ZMQ_POLLOUT A) ''on_writable'' (\<lambda>k. k Qnil) (\<lambda>ret_w.
             on (ZMQ_POLLERR A) ''on_error'' (rb_object_new (rb_cOther ''ZMQ::Error'')) (\<lambda>ret_e.
             ret (if ret_r = -1 \<or> ret_w = -1 \<or> ret_e = -1 then -1 else 0))))))"

definition rb_czmq_loop_pollitem_callback ::
  "'w czmq \<Rightarrow> 'w rb_funcall \<Rightarrow> ptr \<Rightarrow> flags \<Rightarrow> void \<Rightarrow> ('w, int) vcmd" where
  "rb_czmq_loop_pollitem_callback A rb_funcall loop revents arg =
     rb_czmq_loop_pollitem_callback_with_gvl A rb_funcall loop revents arg"

section \<open>Life\<close>

definition rb_czmq_loop_stop0 :: "'w czmq \<Rightarrow> ptr \<Rightarrow> ('w, unit) vcmd" where
  "rb_czmq_loop_stop0 A loop =
     deref loops loop (\<lambda>l.
     live_loop A (l_loop l) (
     invoke (zloop_timer A (l_loop l) 1 1 Loop_breaker_callback (PTR loop)) (\<lambda>_. ret ())))"

definition rb_czmq_free_loop :: "'w czmq \<Rightarrow> ptr \<Rightarrow> ('w, unit) vcmd" where
  "rb_czmq_free_loop A loop =
     call (rb_czmq_loop_stop0 A loop) (\<lambda>_.
     deref loops loop (\<lambda>l.
     live_loop A (l_loop l) (
     tell (zloop_destroy A (l_loop l)) (
     set_loop loop (\<lambda>l. l\<lparr>l_loop := NULL\<rparr>) (
     set_loop loop (\<lambda>l. l\<lparr>l_flags := set_flag (l_flags l) ZMQ_LOOP_DESTROYED\<rparr>) (
     ret ()))))))"

definition rb_czmq_free_loop_gc :: "'w czmq \<Rightarrow> ptr \<Rightarrow> ('w, unit) vcmd" where
  "rb_czmq_free_loop_gc A loop =
     (if loop \<noteq> NULL then
        deref loops loop (\<lambda>l.
        let xfree = wr (\<lambda>s. s\<lparr>loops := (loops s)(loop := None)\<rparr>) (ret ())
        in if l_loop l \<noteq> NULL \<and> \<not> has (l_flags l) ZMQ_LOOP_DESTROYED
           then call (rb_czmq_free_loop A loop) (\<lambda>_. xfree) else xfree)
      else ret ())"

definition rb_czmq_mark_loop :: "ptr \<Rightarrow> ('w, rvalue list) vcmd" where
  "rb_czmq_mark_loop loop =
     (if loop \<noteq> NULL then deref loops loop (\<lambda>l. ret [l_items l]) else ret [])"

definition rb_czmq_loop_new :: "'w czmq \<Rightarrow> ('w, rvalue) vcmd" where
  "rb_czmq_loop_new A =
     tell (set_errno A 0) (
     make_struct
       (\<lambda>lp s. s\<lparr>loops := (loops s)(lp \<mapsto>
          \<lparr>l_loop = NULL, l_flags = 0, l_verbose = False, l_running = False, l_items = Qfalse\<rparr>)\<rparr>) (\<lambda>lp.
     invoke (zloop_new A) (\<lambda>loop.
     set_loop lp (\<lambda>l. l\<lparr>l_loop := loop\<rparr>) (
     ZmqAssertObjOnAlloc A loop (\<lambda>s. s\<lparr>loops := (loops s)(lp := None)\<rparr>) (
     set_loop lp (\<lambda>l. l\<lparr>l_flags := 0\<rparr>) (
     set_loop lp (\<lambda>l. l\<lparr>l_running := False\<rparr>) (
     set_loop lp (\<lambda>l. l\<lparr>l_verbose := False\<rparr>) (
     rb_ary_new (\<lambda>items.
     set_loop lp (\<lambda>l. l\<lparr>l_items := items\<rparr>) (
     ret (Object rb_cZmqLoop lp)))))))))))"

section \<open>Running\<close>

text \<open>
  \<^verbatim>\<open>zloop_start\<close> takes over the thread and calls the registered callbacks; it is not part of the
  repository and an argument here. It is handed the function that runs one callback of the
  extension, given what was registered and the events seen on an item.
\<close>

type_synonym 'w zloop_start =
  "ptr \<Rightarrow> (registration \<Rightarrow> flags \<Rightarrow> ('w, int) vcmd) \<Rightarrow> ('w, int) vcmd"

definition run_callback :: "'w czmq \<Rightarrow> 'w rb_funcall \<Rightarrow> ptr \<Rightarrow> registration \<Rightarrow> flags \<Rightarrow> ('w, int) vcmd" where
  "run_callback A rb_funcall loop r revents =
     (let run = (\<lambda>f arg. case f of
            Loop_started_callback \<Rightarrow> rb_czmq_loop_started_callback arg
          | Loop_breaker_callback \<Rightarrow> rb_czmq_loop_breaker_callback arg
          | Loop_timer_callback \<Rightarrow> rb_czmq_loop_timer_callback A rb_funcall loop arg
          | Loop_pollitem_callback \<Rightarrow> rb_czmq_loop_pollitem_callback A rb_funcall loop revents arg)
      in case r of Timer_reg d n f arg \<Rightarrow> run f arg | Poll_reg i f arg \<Rightarrow> run f arg)"

definition rb_czmq_loop_start_nogvl ::
  "'w zloop_start \<Rightarrow> 'w czmq \<Rightarrow> 'w rb_funcall \<Rightarrow> ptr \<Rightarrow> ('w, int) vcmd" where
  "rb_czmq_loop_start_nogvl zloop_start A rb_funcall loop =
     deref loops loop (\<lambda>l.
     live_loop A (l_loop l) (
     zloop_start (l_loop l) (run_callback A rb_funcall (l_loop l))))"

text \<open>The function that unblocks a running loop when the process is interrupted.\<close>

definition rb_czmq_loop_start_ubf :: "'w czmq \<Rightarrow> ptr \<Rightarrow> ('w, unit) vcmd" where
  "rb_czmq_loop_start_ubf A arg =
     tell (interrupt A) (
     set_loop arg (\<lambda>l. l\<lparr>l_running := False\<rparr>) (ret ()))"

definition rb_czmq_loop_start ::
  "'w zloop_start \<Rightarrow> 'w czmq \<Rightarrow> 'w rb_funcall \<Rightarrow> rvalue \<Rightarrow> ('w, rvalue) vcmd" where
  "rb_czmq_loop_start zloop_start A rb_funcall obj =
     tell (set_errno A 0) (
     ZmqGetLoop obj (\<lambda>loop.
     deref loops loop (\<lambda>l.
     live_loop A (l_loop l) (
     invoke (zloop_timer A (l_loop l) 1 1 Loop_started_callback (PTR loop)) (\<lambda>_.
     call (rb_czmq_loop_start_nogvl zloop_start A rb_funcall loop) (\<lambda>rc.
     check (\<not> 0 < rc) (ZmqError ''internal event loop error!'') (
     ret (INT2NUM rc))))))))"

definition rb_czmq_loop_running_p :: "rvalue \<Rightarrow> ('w, rvalue) vcmd" where
  "rb_czmq_loop_running_p obj =
     ZmqGetLoop obj (\<lambda>loop. deref loops loop (\<lambda>l. ret (if l_running l then Qtrue else Qfalse)))"

definition rb_czmq_loop_stop :: "'w czmq \<Rightarrow> rvalue \<Rightarrow> ('w, rvalue) vcmd" where
  "rb_czmq_loop_stop A obj =
     ZmqGetLoop obj (\<lambda>loop.
     deref loops loop (\<lambda>l.
     check (l_running l) (ZmqError ''event loop not running!'') (
     call (rb_czmq_loop_stop0 A loop) (\<lambda>_. ret Qnil))))"

definition rb_czmq_loop_destroy :: "'w czmq \<Rightarrow> rvalue \<Rightarrow> ('w, rvalue) vcmd" where
  "rb_czmq_loop_destroy A obj =
     ZmqGetLoop obj (\<lambda>loop. call (rb_czmq_free_loop A loop) (\<lambda>_. ret Qnil))"

definition rb_czmq_loop_set_verbose :: "'w czmq \<Rightarrow> rvalue \<Rightarrow> rvalue \<Rightarrow> ('w, rvalue) vcmd" where
  "rb_czmq_loop_set_verbose A obj level =
     ZmqGetLoop obj (\<lambda>loop.
     let vlevel = (level = Qtrue)
     in deref loops loop (\<lambda>l.
        live_loop A (l_loop l) (
        tell (zloop_set_verbose A (l_loop l) vlevel) (
        set_loop loop (\<lambda>l. l\<lparr>l_verbose := vlevel\<rparr>) (ret Qnil)))))"

section \<open>Registering\<close>

definition rb_czmq_loop_register :: "'w czmq \<Rightarrow> 'w rb_funcall \<Rightarrow> rvalue \<Rightarrow> rvalue \<Rightarrow> ('w, rvalue) vcmd" where
  "rb_czmq_loop_register A rb_funcall obj pollable =
     tell (set_errno A 0) (
     ZmqGetLoop obj (\<lambda>loop.
     call (rb_czmq_pollitem_coerce A rb_funcall pollable) (\<lambda>pollable.
     ZmqGetPollitem pollable (\<lambda>pollitem.
     deref loops loop (\<lambda>l.
     rb_ary_push (l_items l) pollable (
     deref pollitems pollitem (\<lambda>i.
     live_loop A (l_loop l) (
     invoke (zloop_poller A (l_loop l) (p_item i) Loop_pollitem_callback (PTR pollitem)) (\<lambda>rc.
     ZmqAssert A rc (
     if l_verbose l then call (rb_czmq_pollitem_set_verbose pollable Qtrue) (\<lambda>_. ret pollable)
     else ret pollable))))))))))"

definition rb_czmq_loop_remove :: "'w czmq \<Rightarrow> 'w rb_funcall \<Rightarrow> rvalue \<Rightarrow> rvalue \<Rightarrow> ('w, rvalue) vcmd" where
  "rb_czmq_loop_remove A rb_funcall obj pollable =
     tell (set_errno A 0) (
     ZmqGetLoop obj (\<lambda>loop.
     call (rb_czmq_pollitem_coerce A rb_funcall pollable) (\<lambda>pollable.
     ZmqGetPollitem pollable (\<lambda>pollitem.
     deref loops loop (\<lambda>l.
     deref pollitems pollitem (\<lambda>i.
     live_loop A (l_loop l) (
     tell (zloop_poller_end A (l_loop l) (p_item i)) (
     rb_ary_delete (l_items l) pollable (
     ret Qnil)))))))))"

definition rb_czmq_loop_register_timer :: "'w czmq \<Rightarrow> rvalue \<Rightarrow> rvalue \<Rightarrow> ('w, rvalue) vcmd" where
  "rb_czmq_loop_register_timer A obj tm =
     tell (set_errno A 0) (
     ZmqGetLoop obj (\<lambda>loop.
     ZmqGetTimer tm (\<lambda>timer.
     deref loops loop (\<lambda>l.
     deref timers timer (\<lambda>t.
     live_loop A (l_loop l) (
     invoke (zloop_timer A (l_loop l) (t_delay t) (t_times t) Loop_timer_callback (VAL tm)) (\<lambda>rc.
     rb_ary_push (l_items l) tm (
     ZmqAssert A rc (
     ret Qtrue)))))))))"

definition rb_czmq_loop_cancel_timer :: "'w czmq \<Rightarrow> rvalue \<Rightarrow> rvalue \<Rightarrow> ('w, rvalue) vcmd" where
  "rb_czmq_loop_cancel_timer A obj tm =
     tell (set_errno A 0) (
     ZmqGetLoop obj (\<lambda>loop.
     ZmqGetTimer tm (\<lambda>_.
     deref loops loop (\<lambda>l.
     live_loop A (l_loop l) (
     invoke (zloop_timer_end A (l_loop l) (VAL tm)) (\<lambda>rc.
     rb_ary_delete (l_items l) tm (
     ZmqAssert A rc (
     ret Qtrue))))))))"

end
