(* ===== verification/Zmq_Loop_Theorems.thy ===== *)
theory Zmq_Loop_Theorems
  imports Zmq_Loop Zmq_Items Zmq_Sample
begin

text \<open>
  Timers and reactors. A reactor of libczmq holds plain pointers to poll items and timers, so their
  Ruby objects must stay in the array that the loop marks; that is an invariant of the methods. The
  callbacks keep it less well: the breaker that a failing handler registers does not point to a loop.
\<close>

declare socket_klass.simps [simp del]

section \<open>Timers\<close>

text \<open>A delay that is not negative becomes the milliseconds between the whole numbers around it.\<close>

lemma size_t_msecs_between:
  assumes "0 \<le> secs" and "secs * 1000 < 2 ^ 53"
  obtains n where "size_t_msecs secs = Some n" "\<lfloor>secs * 1000\<rfloor> \<le> uint n" "uint n \<le> \<lceil>secs * 1000\<rceil>"
proof -
  let ?x = "secs * 1000"
  have x: "\<bar>?x\<bar> < 2 ^ 53" "0 \<le> \<lfloor>?x\<rfloor>" using assms by simp_all
  note b = fl_between [OF x(1)]
  have "(0 :: rat) \<le> of_int \<lfloor>?x\<rfloor>" using x(2) by simp
  then have pos: "0 \<le> fl ?x" using b(1) by linarith
  have low: "\<lfloor>?x\<rfloor> \<le> \<lfloor>fl ?x\<rfloor>" using b(1) by (simp add: le_floor_iff)
  have high: "\<lfloor>fl ?x\<rfloor> \<le> \<lceil>?x\<rceil>" using b(2) by (simp add: floor_le_iff)
  have "?x \<le> of_int (2 ^ 53)" using assms(2) by simp
  then have "\<lceil>?x\<rceil> \<le> 2 ^ 53" by (simp only: ceiling_le_iff)
  then have "\<lfloor>fl ?x\<rfloor> \<le> 2 ^ 53" using high by (rule order_trans [rotated])
  then have bound: "0 \<le> \<lfloor>fl ?x\<rfloor>" "\<lfloor>fl ?x\<rfloor> < 2 ^ 64" using order_trans [OF x(2) low] by simp_all
  have msecs: "size_t_msecs secs = Some (word_of_int \<lfloor>fl ?x\<rfloor>)"
    using pos bound by (simp add: size_t_msecs_def truncate_rat_def)
  have n: "uint (word_of_int \<lfloor>fl ?x\<rfloor> :: 64 word) = \<lfloor>fl ?x\<rfloor>" using bound by (simp add: uint_word_of_int)
  show thesis by (rule that [OF msecs]) (unfold n, fact low, fact high)
qed

text \<open>A delay as the method sees it: a Fixnum, or a Float.\<close>

lemma delay_secs:
  assumes "delay = Fixnum d \<and> secs = of_int d \<or> delay = Float secs" and "\<bar>secs * 1000\<bar> < 2 ^ 53"
  shows "secs_of delay desc k = k secs"
proof (cases "delay = Float secs")
  case False
  then have d: "delay = Fixnum d" "secs = of_int d" using assms(1) by auto
  have "\<bar>secs\<bar> \<le> \<bar>secs * 1000\<bar>" by (simp add: abs_mult)
  then have "\<bar>of_int d :: rat\<bar> < of_int (2 ^ 53)" using assms(2) d(2) by simp
  then have "\<bar>d\<bar> < 2 ^ 53" unfolding of_int_abs [symmetric] of_int_less_iff .
  then show ?thesis using d fl_int [of d] by (simp add: secs_of_def)
qed (simp add: secs_of_def)

section \<open>What a reactor holds\<close>

text \<open>
  A registration is backed when the object its callback will use is in the list \<open>xs\<close>: a poll item
  with the very item that was registered, a timer object, or the loop itself.
\<close>

fun backed :: "'w vm \<Rightarrow> ptr \<Rightarrow> rvalue list \<Rightarrow> registration \<Rightarrow> bool" where
  "backed s loop xs (Poll_reg i f x) \<longleftrightarrow>
     f = Loop_pollitem_callback \<and>
     (\<exists>q it. x = PTR q \<and> pollitems s q = Some it \<and> p_item it = i \<and> Object rb_cZmqPollitem q \<in> set xs)"
| "backed s loop xs (Timer_reg d n f x) \<longleftrightarrow>
     (case x of
        VAL v \<Rightarrow> f = Loop_timer_callback \<and> (\<exists>q. v = Object rb_cZmqTimer q \<and> q \<noteq> NULL) \<and> v \<in> set xs
      | PTR q \<Rightarrow> f = Loop_breaker_callback \<and> q = loop)"

definition loop_at :: "'w czmq \<Rightarrow> 'w vm \<Rightarrow> ptr \<Rightarrow> zmq_loop_wrapper \<Rightarrow> ptr \<Rightarrow> rvalue list \<Rightarrow> registration list \<Rightarrow> bool" where
  "loop_at A s p l a xs regs \<longleftrightarrow>
     p \<noteq> NULL \<and> 0 < fresh s \<and> loops s p = Some l \<and> \<not> has (l_flags l) ZMQ_LOOP_DESTROYED \<and>
     l_items l = Object rb_cArray a \<and> arrays s a = Some xs \<and> zloops (view A (lib s)) (l_loop l) = Some regs"

definition loop_inv :: "'w czmq \<Rightarrow> ptr \<Rightarrow> 'w vm \<Rightarrow> bool" where
  "loop_inv A p s \<longleftrightarrow>
     (\<exists>l a xs regs. loop_at A s p l a xs regs \<and> (\<forall>r. r \<in> set regs \<longrightarrow> backed s p xs r) \<and>
        (\<forall>q. pollitems s q \<noteq> None \<longrightarrow> q < fresh s))"

datatype loop_call =
    Loop_register rvalue | Loop_remove rvalue | Loop_register_timer rvalue | Loop_cancel_timer rvalue
  | Loop_stop | Loop_set_verbose rvalue

fun run_loop :: "'w czmq \<Rightarrow> 'w rb_funcall \<Rightarrow> rvalue \<Rightarrow> loop_call \<Rightarrow> ('w, rvalue) vcmd" where
  "run_loop A f obj (Loop_register v) = rb_czmq_loop_register A f obj v"
| "run_loop A f obj (Loop_remove v) = rb_czmq_loop_remove A f obj v"
| "run_loop A f obj (Loop_register_timer v) = rb_czmq_loop_register_timer A obj v"
| "run_loop A f obj (Loop_cancel_timer v) = rb_czmq_loop_cancel_timer A obj v"
| "run_loop A f obj Loop_stop = rb_czmq_loop_stop A obj"
| "run_loop A f obj (Loop_set_verbose v) = rb_czmq_loop_set_verbose A obj v"

fun loop_valid :: "'w czmq \<Rightarrow> ptr \<Rightarrow> 'w vm \<Rightarrow> loop_call \<Rightarrow> bool" where
  "loop_valid A p s (Loop_register v) \<longleftrightarrow> struct_value s v \<and>
     (\<forall>i it. v = Object rb_cZmqPollitem i \<longrightarrow> pollitems s i = Some it \<longrightarrow> struct_value s (p_socket it))"
| "loop_valid A p s (Loop_remove v) \<longleftrightarrow> struct_value s v"
| "loop_valid A p s (Loop_register_timer v) \<longleftrightarrow> (\<forall>q. v = Object rb_cZmqTimer q \<longrightarrow> q \<noteq> NULL \<longrightarrow> timers s q \<noteq> None)"
| "loop_valid A p s (Loop_cancel_timer v) \<longleftrightarrow>
     (\<forall>l. loops s p = Some l \<longrightarrow> fst (zloop_timer_end A (l_loop l) (VAL v) (set_errno A 0 (lib s))) = 0)"
| "loop_valid A p s _ \<longleftrightarrow> True"

text \<open>
  The programs are restricted only where a call would hand over an object that is not allocated, and
  to those in which libczmq does not fail to cancel a timer; what \<^verbatim>\<open>cancel_timer\<close> does then is the
  second part of C8. What is needed of the library is its documentation.
\<close>

definition reactor_doc :: "'w czmq \<Rightarrow> bool" where
  "reactor_doc A \<longleftrightarrow> zloop_doc A \<and> ZMQ_POLLIN A \<noteq> 0"

lemma loop_atD:
  assumes "loop_at A s p l a xs regs"
  shows "p \<noteq> NULL" "0 < fresh s" "loops s p = Some l" "\<not> has (l_flags l) ZMQ_LOOP_DESTROYED"
    "l_items l = Object rb_cArray a" "arrays s a = Some xs" "zloops (view A (lib s)) (l_loop l) = Some regs"
  using assms by (simp_all add: loop_at_def)

lemma loop_invE:
  assumes "loop_inv A p s"
  obtains l a xs regs where "loop_at A s p l a xs regs" "\<And>r. r \<in> set regs \<Longrightarrow> backed s p xs r"
    "\<And>q. pollitems s q \<noteq> None \<Longrightarrow> q < fresh s"
  using assms that unfolding loop_inv_def by metis

text \<open>The state after a method.\<close>

lemma loop_invI:
  assumes "loop_at A t p l a xs regs" and "\<And>r. r \<in> set regs \<Longrightarrow> backed t p xs r"
    and "\<And>q. pollitems t q \<noteq> None \<Longrightarrow> q < fresh t"
  shows "loop_inv A p t"
  using assms unfolding loop_inv_def by blast

lemma backed_mono:
  assumes "backed s p xs r" and "set xs \<subseteq> set ys" and "\<And>q it. pollitems s q = Some it \<Longrightarrow> pollitems t q = Some it"
  shows "backed t p ys r"
  using assms by (cases r) (auto split: void.splits)

lemma grown_pollitems:
  assumes "grown s t" and "\<And>q. pollitems s q \<noteq> None \<Longrightarrow> q < fresh s"
  shows "pollitems s q = Some it \<Longrightarrow> pollitems t q = Some it" and "pollitems t q \<noteq> None \<Longrightarrow> q < fresh t"
  using assms by (fastforce simp: grown_def less_Suc_eq split: if_splits)+

lemma grown_loop_at:
  assumes "loop_at A s p l a xs regs" and "grown s t"
  shows "loop_at A t p l a xs regs"
  using assms by (auto simp: loop_at_def grown_def)

lemma grown_loop_inv:
  assumes "loop_inv A p s" and "grown s t"
  shows "loop_inv A p t"
proof -
  obtain l a xs regs where s: "loop_at A s p l a xs regs" "\<And>r. r \<in> set regs \<Longrightarrow> backed s p xs r"
    "\<And>q. pollitems s q \<noteq> None \<Longrightarrow> q < fresh s" by (rule loop_invE [OF assms(1)]) blast
  note up = grown_pollitems [OF assms(2) s(3)]
  have "backed t p xs r" if "r \<in> set regs" for r by (rule backed_mono [OF s(2) [OF that] subset_refl up(1)])
  then show ?thesis by (rule loop_invI [OF grown_loop_at [OF s(1) assms(2)] _ up(2)])
qed

lemma loop_lib:
  assumes "view A w = view A (lib s)"
  shows "loop_inv A p (s\<lparr>lib := w\<rparr>) \<longleftrightarrow> loop_inv A p s"
proof -
  have "backed (s\<lparr>lib := w\<rparr>) p xs r \<longleftrightarrow> backed s p xs r" for xs r by (cases r) (simp_all split: void.split)
  then show ?thesis by (simp add: loop_inv_def loop_at_def assms)
qed

lemma loop_inv_upd:
  assumes s: "loop_at A s p l a xs regs" "\<And>q. pollitems s q \<noteq> None \<Longrightarrow> q < fresh s"
    and t: "loops t p = Some l'" "l_items l' = l_items l" "l_loop l' = l_loop l" "l_flags l' = l_flags l"
      "pollitems t = pollitems s" "fresh t = fresh s"
    and ys: "arrays t a = Some ys" and regs: "zloops (view A (lib t)) (l_loop l) = Some regs'"
    and backed: "\<And>r. r \<in> set regs' \<Longrightarrow> backed s p ys r"
  shows "loop_inv A p t"
proof (rule loop_invI)
  show "loop_at A t p l' a ys regs'" using s(1) t ys regs by (simp add: loop_at_def)
  show "backed t p ys r" if "r \<in> set regs'" for r
    by (rule backed_mono [OF backed [OF that]]) (simp_all add: t)
qed (use s(2) t in auto)

lemma ZmqGetLoop_at:
  assumes "loop_at A s p l a xs regs"
  shows "ZmqGetLoop (Object rb_cZmqLoop p) k s = k p s"
  using loop_atD [OF assms] by (simp add: ZmqGetLoop_def fetch_def)

lemma wp_ZmqGetLoop_at:
  assumes "loop_at A s p l a xs regs"
  shows "wp (ZmqGetLoop (Object rb_cZmqLoop p) k) Q E s = wp (k p) Q E s"
  by (simp add: wp_def ZmqGetLoop_at [OF assms])

lemma wp_live_loop: "wp (live_loop A p k) Q E s \<longleftrightarrow> zloops (view A (lib s)) p \<noteq> None \<and> wp k Q E s"
  by (auto simp: wp_def live_loop_def)

lemma wp_set_loop:
  "wp (set_loop p g k) Q E s \<longleftrightarrow> (\<exists>l. loops s p = Some l \<and> wp k Q E (s\<lparr>loops := (loops s)(p \<mapsto> g l)\<rparr>))"
  by (simp add: set_loop_def wp_simps)

lemma wp_ary_push: "wp (rb_ary_push (Object rb_cArray a) x k) Q E s =
    wp k Q E (s\<lparr>arrays := (arrays s)(a \<mapsto> ary s (Object rb_cArray a) @ [x])\<rparr>)"
  by (simp add: wp_def)

lemma wp_ary_delete: "wp (rb_ary_delete (Object rb_cArray a) x k) Q E s =
    wp k Q E (s\<lparr>arrays := (arrays s)(a \<mapsto> removeAll x (ary s (Object rb_cArray a)))\<rparr>)"
  by (simp add: wp_def)

lemmas loop_wp = wp_live_loop wp_set_loop wp_ary_push wp_ary_delete

lemma errno_reset_inv:
  assumes "reactor_doc A"
  shows "loop_inv A p (s\<lparr>lib := set_errno A e (lib s)\<rparr>) \<longleftrightarrow> loop_inv A p s"
  using loop_lib [of A "set_errno A e (lib s)" s p] zloop_docD(2) [of A] assms by (simp add: reactor_doc_def)

section \<open>The methods\<close>

lemma loop_put_inv:
  assumes put: "zloop_put_doc A (lib s) (l_loop l) regs' (rc, w)" and s: "loop_at A s p l a xs regs"
    and items: "\<And>q. pollitems s q \<noteq> None \<Longrightarrow> q < fresh s"
    and backed: "\<And>r. r \<in> set regs \<Longrightarrow> backed s p ys r" "\<And>r. r \<in> set regs' \<Longrightarrow> backed s p ys r"
  shows "loop_inv A p (s\<lparr>lib := w, arrays := (arrays s)(a \<mapsto> ys)\<rparr>)"
proof -
  obtain rs where "zloops (view A w) (l_loop l) = Some rs" "rs = regs \<or> rs = regs'"
    using put loop_atD(7) [OF s] by (auto simp: zloop_put_doc_def split: if_splits)
  then show ?thesis using loop_atD [OF s] backed
    by (intro loop_inv_upd [where l' = l and ys = ys and regs' = rs, OF s items]) auto
qed

text \<open>Making a poll item verbose changes socket structs only.\<close>

lemma loop_inv_socks: "loop_inv A p (s\<lparr>socks := ss\<rparr>) \<longleftrightarrow> loop_inv A p s"
proof -
  have "backed (s\<lparr>socks := ss\<rparr>) p xs r \<longleftrightarrow> backed s p xs r" for xs r by (cases r) (simp_all split: void.split)
  then show ?thesis by (simp add: loop_inv_def loop_at_def)
qed

lemma set_verbose_inv:
  assumes inv: "loop_inv A p s" and i: "i \<noteq> NULL" "pollitems s i = Some it" "struct_value s (p_socket it)"
  shows "wp (call (rb_czmq_pollitem_set_verbose (Object rb_cZmqPollitem i) Qtrue) (\<lambda>_. ret v)) (\<lambda>_. loop_inv A p) (\<lambda>_. loop_inv A p) s"
proof (cases "announced s it")
  case True
  then obtain ss where "rb_czmq_pollitem_set_verbose (Object rb_cZmqPollitem i) Qtrue s = Return Qnil (s\<lparr>socks := ss\<rparr>)"
    using announce_run(1) [OF i] by blast
  then show ?thesis using inv by (simp add: wp_def call_def loop_inv_socks)
next
  case False
  then obtain e where "rb_czmq_pollitem_set_verbose (Object rb_cZmqPollitem i) Qtrue s = Raise e s"
    using announce_run(2) [OF i] by blast
  then show ?thesis using inv by (simp add: wp_def call_def)
qed

text \<open>What \<^verbatim>\<open>register\<close> does with a poll item.\<close>

lemma register_item_inv:
  assumes doc: "zloop_doc A" and t: "loop_at A t p l a xs regs" "\<And>r. r \<in> set regs \<Longrightarrow> backed t p xs r"
      "\<And>q. pollitems t q \<noteq> None \<Longrightarrow> q < fresh t"
    and i: "i \<noteq> NULL" "pollitems t i = Some it" "struct_value t (p_socket it)"
  shows "wp (deref loops p (\<lambda>l.
     rb_ary_push (l_items l) (Object rb_cZmqPollitem i) (
     deref pollitems i (\<lambda>it.
     live_loop A (l_loop l) (
     invoke (zloop_poller A (l_loop l) (p_item it) Loop_pollitem_callback (PTR i)) (\<lambda>rc.
     ZmqAssert A rc (
     if l_verbose l then call (rb_czmq_pollitem_set_verbose (Object rb_cZmqPollitem i) Qtrue) (\<lambda>_. ret (Object rb_cZmqPollitem i))
     else ret (Object rb_cZmqPollitem i)))))))) (\<lambda>_. loop_inv A p) (\<lambda>_. loop_inv A p) t"
proof -
  note at = loop_atD [OF t(1)]
  let ?v = "Object rb_cZmqPollitem i"
  obtain rc w where call: "zloop_poller A (l_loop l) (p_item it) Loop_pollitem_callback (PTR i) (lib t) = (rc, w)" by fastforce
  have put: "zloop_put_doc A (lib t) (l_loop l) (regs @ [Poll_reg (p_item it) Loop_pollitem_callback (PTR i)]) (rc, w)"
    using zloop_liveD(4) [OF doc at(7)] call by metis
  have old: "backed t p (xs @ [?v]) r" if "r \<in> set regs" for r by (rule backed_mono [OF t(2) [OF that]]) auto
  let ?u = "t\<lparr>arrays := (arrays t)(a \<mapsto> xs @ [?v]), lib := w\<rparr>"
  have eq: "?u = t\<lparr>lib := w, arrays := (arrays t)(a \<mapsto> xs @ [?v])\<rparr>" by simp
  have u: "loop_inv A p ?u" unfolding eq by (rule loop_put_inv [OF put t(1,3) old]) (use i(2) old in auto)
  have "struct_value ?u (p_socket it)" "pollitems ?u i = Some it" using i by (simp_all add: struct_value_def)
  note verbose = set_verbose_inv [OF u i(1) this(2,1), of ?v]
  have "wp (ZmqAssert A rc (if l_verbose l then call (rb_czmq_pollitem_set_verbose ?v Qtrue) (\<lambda>_. ret ?v) else ret ?v))
      (\<lambda>_. loop_inv A p) (\<lambda>_. loop_inv A p) ?u"
    by (intro wp_ZmqAssert) (use u verbose in simp_all)
  then show ?thesis using at i(2) call by (simp add: wp_deref loop_wp wp_invoke ary_def)
qed

lemma loop_register_inv:
  assumes doc: "reactor_doc A" "fileno_doc f fd" and inv: "loop_inv A p s" and valid: "loop_valid A p s (Loop_register v)"
  shows "wp (rb_czmq_loop_register A f (Object rb_cZmqLoop p) v) (\<lambda>_. loop_inv A p) (\<lambda>_. loop_inv A p) s"
proof -
  let ?s = "s\<lparr>lib := set_errno A 0 (lib s)\<rparr>"
  have inv0: "loop_inv A p ?s" using inv errno_reset_inv [OF doc(1)] by simp
  obtain l a xs regs where s: "loop_at A ?s p l a xs regs" "\<And>r. r \<in> set regs \<Longrightarrow> backed ?s p xs r"
    "\<And>q. pollitems ?s q \<noteq> None \<Longrightarrow> q < fresh ?s" by (rule loop_invE [OF inv0]) blast
  have pin: "ZMQ_POLLIN A \<noteq> 0" and zdoc: "zloop_doc A" using doc(1) by (simp_all add: reactor_doc_def)
  have sv: "struct_value ?s v" using valid by (simp add: struct_value_def)
  show ?thesis
    unfolding rb_czmq_loop_register_def wp_tell wp_ZmqGetLoop_at [OF s(1)]
  proof (rule wp_coerced [OF pin sv doc(2) loop_atD(2) [OF s(1)]])
    fix t e assume "grown ?s t"
    then show "loop_inv A p t" by (rule grown_loop_inv [OF inv0])
  next
    fix i it t
    assume c: "coerced A fd ?s v = Some (i, it)" "i \<noteq> NULL" "grown ?s t" "pollitems t i = Some it"
    note up = grown_pollitems [OF c(3) s(3)]
    have b: "backed t p xs r" if "r \<in> set regs" for r by (rule backed_mono [OF s(2) [OF that] subset_refl up(1)])
    have "struct_value ?s (p_socket it)"
      by (rule coerced_socket [OF c(1) sv]) (use valid in \<open>auto simp: struct_value_def\<close>)
    then have "struct_value t (p_socket it)" by (rule grown_struct [OF c(3)])
    from register_item_inv [OF zdoc grown_loop_at [OF s(1) c(3)] b up(2) c(2,4) this]
    show "wp (deref loops p (\<lambda>l.
       rb_ary_push (l_items l) (Object rb_cZmqPollitem i) (
       deref pollitems i (\<lambda>it.
       live_loop A (l_loop l) (
       invoke (zloop_poller A (l_loop l) (p_item it) Loop_pollitem_callback (PTR i)) (\<lambda>rc.
       ZmqAssert A rc (
       if l_verbose l then call (rb_czmq_pollitem_set_verbose (Object rb_cZmqPollitem i) Qtrue) (\<lambda>_. ret (Object rb_cZmqPollitem i))
       else ret (Object rb_cZmqPollitem i)))))))) (\<lambda>_. loop_inv A p) (\<lambda>_. loop_inv A p) t" .
  qed
qed

text \<open>An item that was registered is found again by its socket or file descriptor.\<close>

lemma poll_for_self: "poll_for i (Poll_reg i f x)"
  by simp

lemma backed_removed:
  assumes "backed s p xs r" and "pollitems s i = Some it" and "\<not> poll_for (p_item it) r"
  shows "backed s p (removeAll (Object rb_cZmqPollitem i) xs) r"
proof (cases r)
  case (Poll_reg j f x)
  then obtain q qt where q: "x = PTR q" "pollitems s q = Some qt" "p_item qt = j" "Object rb_cZmqPollitem q \<in> set xs"
    "f = Loop_pollitem_callback" using assms(1) by auto
  have "poll_for (p_item qt) r" unfolding Poll_reg q(3) by (rule poll_for_self)
  then have "q \<noteq> i" using assms(2,3) q(2) by auto
  then show ?thesis using q Poll_reg by simp
next
  case (Timer_reg d n f x)
  then show ?thesis using assms(1) by (auto split: void.split)
qed

lemma loop_remove_inv:
  assumes doc: "reactor_doc A" "fileno_doc f fd" and inv: "loop_inv A p s" and valid: "struct_value s v"
  shows "wp (rb_czmq_loop_remove A f (Object rb_cZmqLoop p) v) (\<lambda>_. loop_inv A p) (\<lambda>_. loop_inv A p) s"
proof -
  let ?s = "s\<lparr>lib := set_errno A 0 (lib s)\<rparr>"
  have inv0: "loop_inv A p ?s" using inv errno_reset_inv [OF doc(1)] by simp
  obtain l a xs regs where s: "loop_at A ?s p l a xs regs" "\<And>r. r \<in> set regs \<Longrightarrow> backed ?s p xs r"
    "\<And>q. pollitems ?s q \<noteq> None \<Longrightarrow> q < fresh ?s" by (rule loop_invE [OF inv0]) blast
  have pin: "ZMQ_POLLIN A \<noteq> 0" and zdoc: "zloop_doc A" using doc(1) by (simp_all add: reactor_doc_def)
  have sv: "struct_value ?s v" using valid by (simp add: struct_value_def)
  let ?k = "\<lambda>pollable pollitem. deref loops p (\<lambda>l.
     deref pollitems pollitem (\<lambda>i.
     live_loop A (l_loop l) (
     tell (zloop_poller_end A (l_loop l) (p_item i)) (
     rb_ary_delete (l_items l) pollable (
     ret Qnil)))))"
  have "wp (call (rb_czmq_pollitem_coerce A f v) (\<lambda>v. ZmqGetPollitem v (?k v))) (\<lambda>_. loop_inv A p) (\<lambda>_. loop_inv A p) ?s"
  proof (rule wp_coerced [OF pin sv doc(2) loop_atD(2) [OF s(1)]])
    fix t e assume "grown ?s t"
    then show "loop_inv A p t" by (rule grown_loop_inv [OF inv0])
  next
    fix i it t
    assume c: "i \<noteq> NULL" "grown ?s t" "pollitems t i = Some it"
    note at = loop_atD [OF grown_loop_at [OF s(1) c(2)]]
    note up = grown_pollitems [OF c(2) s(3)]
    let ?v = "Object rb_cZmqPollitem i"
    let ?u = "t\<lparr>lib := zloop_poller_end A (l_loop l) (p_item it) (lib t), arrays := (arrays t)(a \<mapsto> removeAll ?v xs)\<rparr>"
    have b: "backed t p (removeAll ?v xs) r" if "r \<in> set (filter (\<lambda>r. \<not> poll_for (p_item it) r) regs)" for r
      using that by (intro backed_removed [OF backed_mono [OF s(2) subset_refl up(1)] c(3)]) simp_all
    have "loop_inv A p ?u"
      by (rule loop_inv_upd [OF grown_loop_at [OF s(1) c(2)] up(2) _ refl refl refl _ _ _ _ b])
        (use at zloop_liveD(5) [OF zdoc at(7)] in auto)
    then show "wp (?k ?v i) (\<lambda>_. loop_inv A p) (\<lambda>_. loop_inv A p) t"
      using at c(3) by (simp add: wp_deref loop_wp wp_tell ary_def)
  qed
  then show ?thesis
    by (simp add: rb_czmq_loop_remove_def wp_tell wp_ZmqGetLoop_at [OF s(1)])
qed

lemma wp_ZmqGetTimer:
  assumes "\<And>e. E e s" and "\<And>q. v = Object rb_cZmqTimer q \<Longrightarrow> q \<noteq> NULL \<Longrightarrow> wp (k q) Q E s"
  shows "wp (ZmqGetTimer v k) Q E s"
  using assms by (auto simp: ZmqGetTimer_def wp_fetch split: rvalue.split)

lemma loop_register_timer_inv:
  assumes doc: "reactor_doc A" and inv: "loop_inv A p s" and valid: "loop_valid A p s (Loop_register_timer v)"
  shows "wp (rb_czmq_loop_register_timer A (Object rb_cZmqLoop p) v) (\<lambda>_. loop_inv A p) (\<lambda>_. loop_inv A p) s"
proof -
  let ?s = "s\<lparr>lib := set_errno A 0 (lib s)\<rparr>"
  have inv0: "loop_inv A p ?s" using inv errno_reset_inv [OF doc] by simp
  obtain l a xs regs where s: "loop_at A ?s p l a xs regs" "\<And>r. r \<in> set regs \<Longrightarrow> backed ?s p xs r"
    "\<And>q. pollitems ?s q \<noteq> None \<Longrightarrow> q < fresh ?s" by (rule loop_invE [OF inv0]) blast
  note at = loop_atD [OF s(1)]
  have zdoc: "zloop_doc A" using doc by (simp add: reactor_doc_def)
  let ?k = "\<lambda>timer. deref loops p (\<lambda>l.
     deref timers timer (\<lambda>t.
     live_loop A (l_loop l) (
     invoke (zloop_timer A (l_loop l) (t_delay t) (t_times t) Loop_timer_callback (VAL v)) (\<lambda>rc.
     rb_ary_push (l_items l) v (
     ZmqAssert A rc (
     ret Qtrue))))))"
  have "wp (ZmqGetTimer v ?k) (\<lambda>_. loop_inv A p) (\<lambda>_. loop_inv A p) ?s"
  proof (rule wp_ZmqGetTimer)
    fix q assume q: "v = Object rb_cZmqTimer q" "q \<noteq> NULL"
    then obtain t where t: "timers s q = Some t" using valid by auto
    obtain rc w where call: "zloop_timer A (l_loop l) (t_delay t) (t_times t) Loop_timer_callback (VAL v) (lib ?s) = (rc, w)"
      by fastforce
    have "zloop_put_doc A (lib ?s) (l_loop l) (regs @ [Timer_reg (t_delay t) (t_times t) Loop_timer_callback (VAL v)]) (rc, w)"
      using zloop_liveD(2) [OF zdoc at(7)] call by metis
    moreover have "backed ?s p (xs @ [v]) r" if "r \<in> set regs" for r by (rule backed_mono [OF s(2) [OF that]]) auto
    ultimately have "loop_inv A p (?s\<lparr>lib := w, arrays := (arrays ?s)(a \<mapsto> xs @ [v])\<rparr>)"
      by (intro loop_put_inv [OF _ s(1,3)]) (use q in auto)
    then show "wp (?k q) (\<lambda>_. loop_inv A p) (\<lambda>_. loop_inv A p) ?s"
      using at t call by (simp add: wp_deref loop_wp wp_invoke ary_def) (rule wp_ZmqAssert; simp add: wp_simps)
  qed (use inv0 in simp_all)
  then show ?thesis
    by (simp add: rb_czmq_loop_register_timer_def wp_tell wp_ZmqGetLoop_at [OF s(1)])
qed

lemma backed_cancelled:
  assumes "backed s p xs r" and "v = Object rb_cZmqTimer q" and "\<not> timer_for (VAL v) r"
  shows "backed s p (removeAll v xs) r"
  using assms by (cases r) (auto split: void.splits)

lemma loop_cancel_timer_inv:
  assumes doc: "reactor_doc A" and inv: "loop_inv A p s" and valid: "loop_valid A p s (Loop_cancel_timer v)"
  shows "wp (rb_czmq_loop_cancel_timer A (Object rb_cZmqLoop p) v) (\<lambda>_. loop_inv A p) (\<lambda>_. loop_inv A p) s"
proof -
  let ?s = "s\<lparr>lib := set_errno A 0 (lib s)\<rparr>"
  have inv0: "loop_inv A p ?s" using inv errno_reset_inv [OF doc] by simp
  obtain l a xs regs where s: "loop_at A ?s p l a xs regs" "\<And>r. r \<in> set regs \<Longrightarrow> backed ?s p xs r"
    "\<And>q. pollitems ?s q \<noteq> None \<Longrightarrow> q < fresh ?s" by (rule loop_invE [OF inv0]) blast
  note at = loop_atD [OF s(1)]
  have zdoc: "zloop_doc A" using doc by (simp add: reactor_doc_def)
  let ?k = "\<lambda>timer. deref loops p (\<lambda>l.
     live_loop A (l_loop l) (
     invoke (zloop_timer_end A (l_loop l) (VAL v)) (\<lambda>rc.
     rb_ary_delete (l_items l) v (
     ZmqAssert A rc (
     ret Qtrue)))))"
  have "wp (ZmqGetTimer v ?k) (\<lambda>_. loop_inv A p) (\<lambda>_. loop_inv A p) ?s"
  proof (rule wp_ZmqGetTimer)
    fix q assume q: "v = Object rb_cZmqTimer q" "q \<noteq> NULL"
    obtain rc w where call: "zloop_timer_end A (l_loop l) (VAL v) (lib ?s) = (rc, w)" by fastforce
    have rc: "rc = 0" using call valid at(3) by simp
    have put: "zloop_put_doc A (lib ?s) (l_loop l) (filter (\<lambda>r. \<not> timer_for (VAL v) r) regs) (rc, w)"
      using zloop_liveD(3) [OF zdoc at(7)] call by metis
    have b: "backed ?s p (removeAll v xs) r" if "r \<in> set (filter (\<lambda>r. \<not> timer_for (VAL v) r) regs)" for r
      by (rule backed_cancelled [OF s(2) q(1)]) (use that in auto)
    have "loop_inv A p (?s\<lparr>lib := w, arrays := (arrays ?s)(a \<mapsto> removeAll v xs)\<rparr>)"
      by (rule loop_inv_upd [OF s(1,3) _ refl refl refl _ _ _ _ b])
        (use at put rc in \<open>auto simp: zloop_put_doc_def\<close>)
    then show "wp (?k q) (\<lambda>_. loop_inv A p) (\<lambda>_. loop_inv A p) ?s"
      using at call rc by (simp add: wp_deref loop_wp wp_invoke ary_def wp_ZmqAssert wp_simps)
  qed (use inv0 in simp_all)
  then show ?thesis
    by (simp add: rb_czmq_loop_cancel_timer_def wp_tell wp_ZmqGetLoop_at [OF s(1)])
qed

lemma loop_stop_inv:
  assumes doc: "reactor_doc A" and inv: "loop_inv A p s"
  shows "wp (rb_czmq_loop_stop A (Object rb_cZmqLoop p)) (\<lambda>_. loop_inv A p) (\<lambda>_. loop_inv A p) s"
proof -
  obtain l a xs regs where s: "loop_at A s p l a xs regs" "\<And>r. r \<in> set regs \<Longrightarrow> backed s p xs r"
    "\<And>q. pollitems s q \<noteq> None \<Longrightarrow> q < fresh s" by (rule loop_invE [OF inv]) blast
  note at = loop_atD [OF s(1)]
  have zdoc: "zloop_doc A" using doc by (simp add: reactor_doc_def)
  obtain rc w where call: "zloop_timer A (l_loop l) 1 1 Loop_breaker_callback (PTR p) (lib s) = (rc, w)" by fastforce
  have "zloop_put_doc A (lib s) (l_loop l) (regs @ [Timer_reg 1 1 Loop_breaker_callback (PTR p)]) (rc, w)"
    using zloop_liveD(2) [OF zdoc at(7)] call by metis
  then have "loop_inv A p (s\<lparr>lib := w, arrays := (arrays s)(a \<mapsto> xs)\<rparr>)"
    by (rule loop_put_inv [OF _ s(1,3)]) (use s(2) in auto)
  moreover have "(arrays s)(a \<mapsto> xs) = arrays s" using at(6) by auto
  ultimately have "loop_inv A p (s\<lparr>lib := w\<rparr>)" by simp
  then show ?thesis using at call inv
    by (simp add: rb_czmq_loop_stop_def rb_czmq_loop_stop0_def wp_ZmqGetLoop_at [OF s(1)] wp_simps call_def wp_call
        wp_deref loop_wp wp_invoke)
qed

lemma loop_set_verbose_inv:
  assumes doc: "reactor_doc A" and inv: "loop_inv A p s"
  shows "wp (rb_czmq_loop_set_verbose A (Object rb_cZmqLoop p) v) (\<lambda>_. loop_inv A p) (\<lambda>_. loop_inv A p) s"
proof -
  obtain l a xs regs where s: "loop_at A s p l a xs regs" "\<And>r. r \<in> set regs \<Longrightarrow> backed s p xs r"
    "\<And>q. pollitems s q \<noteq> None \<Longrightarrow> q < fresh s" by (rule loop_invE [OF inv]) blast
  note at = loop_atD [OF s(1)]
  have zdoc: "zloop_doc A" using doc by (simp add: reactor_doc_def)
  have "view A (zloop_set_verbose A (l_loop l) b (lib s)) = view A (lib s)" for b
    by (rule zloop_liveD(6) [OF zdoc at(7)])
  then have "loop_inv A p (s\<lparr>lib := zloop_set_verbose A (l_loop l) b (lib s), loops := (loops s)(p \<mapsto> l\<lparr>l_verbose := b\<rparr>)\<rparr>)" for b
    by (intro loop_inv_upd [where l' = "l\<lparr>l_verbose := b\<rparr>" and ys = xs and regs' = regs, OF s(1,3)]) (use at s(2) in simp_all)
  then show ?thesis using at
    by (simp add: rb_czmq_loop_set_verbose_def wp_ZmqGetLoop_at [OF s(1)] wp_simps Let_def
        wp_deref loop_wp wp_tell)
qed

interpretation loop: machine "run_loop A f (Object rb_cZmqLoop p)" "loop_valid A p" "loop_inv A p" "reactor_doc A \<and> fileno_doc f fd"
proof unfold_locales
  fix s c assume h: "reactor_doc A \<and> fileno_doc f fd" "loop_inv A p s" "loop_valid A p s c"
  then show "wp (run_loop A f (Object rb_cZmqLoop p) c) (\<lambda>_. loop_inv A p) (\<lambda>_. loop_inv A p) s"
    using loop_register_inv [OF conjunct1 [OF h(1)] conjunct2 [OF h(1)] h(2)]
      loop_remove_inv [OF conjunct1 [OF h(1)] conjunct2 [OF h(1)] h(2)]
      loop_register_timer_inv [OF conjunct1 [OF h(1)] h(2)] loop_cancel_timer_inv [OF conjunct1 [OF h(1)] h(2)]
      loop_stop_inv [OF conjunct1 [OF h(1)] h(2)] loop_set_verbose_inv [OF conjunct1 [OF h(1)] h(2)]
    by (cases c) (use h(3) in simp_all)
qed

section \<open>Properties\<close>

lemma ref_reactor: "reactor_doc ref"
  using ref_zloop by (simp add: reactor_doc_def ref_fields)

text \<open>A new loop holds nothing.\<close>

lemma loop_new_inv:
  assumes doc: "zloop_doc A" and new: "rb_czmq_loop_new A s = Return (Object rb_cZmqLoop p) t"
    and s: "0 < fresh s" "\<And>q. pollitems s q \<noteq> None \<Longrightarrow> q < fresh s"
  shows "loop_inv A p t"
proof -
  obtain l w where call: "zloop_new A (set_errno A 0 (lib s)) = (l, w)" by fastforce
  have n: "zloop_new_doc A (set_errno A 0 (lib s)) (l, w)" using zloop_docD(3) [OF doc] call by metis
  show ?thesis
  proof (cases "l = NULL")
    case True
    then show ?thesis using new call
      by (simp add: rb_czmq_loop_new_def ZmqAssertObjOnAlloc_def ZmqAssertSysError_def split: if_splits)
  next
    case False
    then have t: "p = fresh s" "t = s\<lparr>lib := w, fresh := fresh s + 2,
        loops := (loops s)(p \<mapsto> \<lparr>l_loop = l, l_flags = 0, l_verbose = False, l_running = False, l_items = Object rb_cArray (fresh s + 1)\<rparr>),
        arrays := (arrays s)(fresh s + 1 \<mapsto> [])\<rparr>"
      using new call by (auto simp: rb_czmq_loop_new_def ZmqAssertObjOnAlloc_def)
    have "zloops (view A w) l = Some []" using n False by (simp add: zloop_new_doc_def)
    then have at: "loop_at A t p \<lparr>l_loop = l, l_flags = 0, l_verbose = False, l_running = False, l_items = Object rb_cArray (fresh s + 1)\<rparr>
        (fresh s + 1) [] []" using t s(1) by (simp add: loop_at_def)
    show ?thesis
      by (rule loop_invI [OF at]) (use t s(2) in \<open>auto intro: less_SucI\<close>)
  qed
qed

text \<open>A timer that libczmq fails to cancel is taken out of the array all the same.\<close>

lemma failed_cancel:
  assumes at: "loop_at A t p l a xs regs" and doc: "zloop_doc A" and q: "v = Object rb_cZmqTimer q" "q \<noteq> NULL"
    and fails: "fst (zloop_timer_end A (l_loop l) (VAL v) (set_errno A 0 (lib t))) = -1"
  shows "\<exists>u. final_state (rb_czmq_loop_cancel_timer A (Object rb_cZmqLoop p) v t) = Some u \<and> loops u p = Some l \<and>
    zloops (view A (lib u)) (l_loop l) = Some regs \<and> v \<notin> set (ary u (l_items l))"
proof -
  note at = loop_atD [OF at]
  let ?s = "t\<lparr>lib := set_errno A 0 (lib t)\<rparr>"
  have view: "view A (set_errno A 0 (lib t)) = view A (lib t)" by (rule zloop_docD(2) [OF doc])
  obtain rc w where ended: "zloop_timer_end A (l_loop l) (VAL v) (lib ?s) = (rc, w)" by fastforce
  then have call: "zloop_timer_end A (l_loop l) (VAL v) (lib ?s) = (-1, w)" using fails by simp
  have "zloop_put_doc A (lib ?s) (l_loop l) (filter (\<lambda>r. \<not> timer_for (VAL v) r) regs) (-1, w)"
    using zloop_liveD(3) [OF doc, of "lib ?s" "l_loop l" regs "VAL v"] call view at(7) by simp
  then have "zloops (view A w) (l_loop l) = Some regs" using view at(7) by (simp add: zloop_put_doc_def)
  moreover have "v \<notin> set (removeAll v xs)" by simp
  ultimately show ?thesis
    using at q call view
    by (simp add: rb_czmq_loop_cancel_timer_def ZmqGetLoop_def fetch_def ZmqGetTimer_run ary_def ZmqAssert_def ZmqAssertSysError_def Let_def)
qed

text \<open>
  C8: what a reactor points to is kept alive by its loop. After any sequence of registering and
  removing poll items, sockets, IO objects and timers on a new loop, of stopping it and of making it
  verbose, whether the calls succeed or raise, every registration of the libczmq reactor carries
  either a poll item or a timer object that is in the array which the garbage collector marks for the
  loop, with the very item that was registered, or the loop itself. This holds as long as libczmq does not fail to cancel
  a timer. When it fails, \<^verbatim>\<open>cancel_timer\<close> breaks it: the timer leaves the array before the result is
  looked at, and stays registered.
\<close>

theorem loop_keeps_registered:
  assumes "reactor_doc A" and "fileno_doc f fd" and "0 < fresh s0" and "\<And>q. pollitems s0 q \<noteq> None \<Longrightarrow> q < fresh s0"
    and "rb_czmq_loop_new A s0 = Return (Object rb_cZmqLoop p) s"
    and "runs (run_loop A f (Object rb_cZmqLoop p)) (loop_valid A p) s t"
  shows "\<exists>l regs marked. loops t p = Some l \<and> zloops (view A (lib t)) (l_loop l) = Some regs \<and>
    rb_czmq_mark_loop p t = Return [marked] t \<and> list_all (backed t p (ary t marked)) regs \<and>
    (\<forall>q. q \<noteq> NULL \<longrightarrow> fst (zloop_timer_end A (l_loop l) (VAL (Object rb_cZmqTimer q)) (set_errno A 0 (lib t))) = -1 \<longrightarrow>
       (\<exists>u. final_state (rb_czmq_loop_cancel_timer A (Object rb_cZmqLoop p) (Object rb_cZmqTimer q) t) = Some u \<and>
          zloops (view A (lib u)) (l_loop l) = Some regs \<and> rb_czmq_mark_loop p u = Return [marked] u \<and>
          Object rb_cZmqTimer q \<notin> set (ary u marked)))"
proof -
  have doc: "zloop_doc A" using assms(1) by (simp add: reactor_doc_def)
  have "loop_inv A p s" by (rule loop_new_inv [OF _ assms(5,3,4)]) (use assms(1) in \<open>simp_all add: reactor_doc_def\<close>)
  then have "loop_inv A p t" using loop.runs_inv [OF assms(6)] assms(1,2) by blast
  then obtain l a xs regs where t: "loop_at A t p l a xs regs" "\<And>r. r \<in> set regs \<Longrightarrow> backed t p xs r"
    by (rule loop_invE) blast
  note at = loop_atD [OF t(1)]
  have mark: "rb_czmq_mark_loop p u = Return [l_items l] u" if "loops u p = Some l" for u
    using at(1) that by (simp add: rb_czmq_mark_loop_def)
  have "list_all (backed t p (ary t (l_items l))) regs" using at t(2) by (simp add: list_all_iff ary_def)
  moreover have "\<exists>u. final_state (rb_czmq_loop_cancel_timer A (Object rb_cZmqLoop p) (Object rb_cZmqTimer q) t) = Some u \<and>
      zloops (view A (lib u)) (l_loop l) = Some regs \<and> rb_czmq_mark_loop p u = Return [l_items l] u \<and>
      Object rb_cZmqTimer q \<notin> set (ary u (l_items l))"
    if "q \<noteq> NULL" "fst (zloop_timer_end A (l_loop l) (VAL (Object rb_cZmqTimer q)) (set_errno A 0 (lib t))) = -1" for q
    using failed_cancel [OF t(1) doc refl that] mark by metis
  ultimately show ?thesis using at mark [OF at(3)]
    by (intro exI [of _ l] exI [of _ regs] exI [of _ "l_items l"]) simp
qed

theorem loop_keeps_registered_witness:
  "\<exists>s t l regs marked. rb_czmq_loop_new ref (vm_sock ZMQ_SOCKET_BOUND False) = Return (Object rb_cZmqLoop 4) s \<and>
     final_state (rb_czmq_loop_register ref (\<lambda>v m xs s. Raise (TypeError ''closed stream'') s) (Object rb_cZmqLoop 4)
       (Object rb_cZmqSubSocket 2) s) = Some t \<and>
     loops t 4 = Some l \<and> zloops (view ref (lib t)) (l_loop l) = Some regs \<and>
     rb_czmq_mark_loop 4 t = Return [marked] t \<and> list_all (backed t 4 (ary t marked)) regs"
proof -
  let ?f = "\<lambda>v m xs s. Raise (TypeError ''closed stream'') s :: (rworld vm, rvalue) outcome"
  let ?r = "run_loop ref ?f (Object rb_cZmqLoop 4)"
  have doc: "fileno_doc ?f (\<lambda>q. None)" by (simp add: fileno_doc_def)
  obtain s where s: "rb_czmq_loop_new ref (vm_sock ZMQ_SOCKET_BOUND False) = Return (Object rb_cZmqLoop 4) s"
    "socks s = [2 \<mapsto> sample_sock ZMQ_SOCKET_BOUND False]"
    by (simp add: rb_czmq_loop_new_def ref_fields ZmqAssertObjOnAlloc_def rnew_def)
  have items: "pollitems (vm_sock ZMQ_SOCKET_BOUND False) q \<noteq> None \<Longrightarrow> q < fresh (vm_sock ZMQ_SOCKET_BOUND False)" for q
    by (simp add: vm_sock_def vm0_def)
  have valid: "loop_valid ref 4 s (Loop_register (Object rb_cZmqSubSocket 2))"
    using s(2) by (simp add: struct_value_def socket_klass.simps)
  have "loop_inv ref 4 s" by (rule loop_new_inv [OF ref_zloop s(1) _ items]) simp_all
  then obtain t where t: "final_state (?r (Loop_register (Object rb_cZmqSubSocket 2)) s) = Some t"
    using safe_final [OF loop.runs_safe [OF runs.start _ _ valid]] ref_reactor doc by blast
  have "runs ?r (loop_valid ref 4) s t" using t by (intro runs.step [where run = ?r and valid = "loop_valid ref 4", OF runs.start valid])
  from loop_keeps_registered [OF ref_reactor doc _ items s(1) this] t s(1) show ?thesis by fastforce
qed





end
