(* ===== verification/Zmq_Beacon.thy ===== *)
theory Zmq_Beacon
  imports Zmq_Socket
begin

text \<open>
  beacon.c: LAN discovery beacons. A beacon object holds a czmq beacon; its pipe is a socket object
  without a context, which the beacon closes.
\<close>

definition set_beacon :: "ptr \<Rightarrow> (zmq_beacon_wrapper \<Rightarrow> zmq_beacon_wrapper) \<Rightarrow> ('w, 'a) vcmd \<Rightarrow> ('w, 'a) vcmd" where
  "set_beacon p g k = deref beacons p (\<lambda>r. wr (\<lambda>s. s\<lparr>beacons := (beacons s)(p \<mapsto> g r)\<rparr>) k)"

lemma set_beacon_run [simp]:
  "beacons s p = Some b \<Longrightarrow> set_beacon p g k s = k (s\<lparr>beacons := (beacons s)(p \<mapsto> g b)\<rparr>)"
  by (simp add: set_beacon_def)

definition live_beacon :: "'w czmq \<Rightarrow> ptr \<Rightarrow> ('w, 'a) vcmd \<Rightarrow> ('w, 'a) vcmd" where
  "live_beacon A p k s = (if zbeacons (view A (lib s)) p = None then Crash BadHandle else k s)"

lemma live_beacon_run [simp]:
  "zbeacons (view A (lib s)) p = Some h \<Longrightarrow> live_beacon A p k s = k s"
  "zbeacons (view A (lib s)) p = None \<Longrightarrow> live_beacon A p k s = Crash BadHandle"
  by (simp_all add: live_beacon_def)

definition GetZmqBeacon :: "rvalue \<Rightarrow> (ptr \<Rightarrow> ('w, 'a) vcmd) \<Rightarrow> ('w, 'a) vcmd" where
  "GetZmqBeacon obj k = fetch (\<lambda>c. c = rb_cZmqBeacon) ''ZMQ::Beacon'' ''uninitialized ZMQ beacon!!'' obj k"

lemma GetZmqBeacon_run [simp]: "p \<noteq> NULL \<Longrightarrow> GetZmqBeacon (Object rb_cZmqBeacon p) k = k p"
  by (simp add: GetZmqBeacon_def fetch_def)

text \<open>A call of a libczmq function on the beacon of an object.\<close>

definition on_beacon :: "'w czmq \<Rightarrow> ptr \<Rightarrow> (ptr \<Rightarrow> 'w \<Rightarrow> 'w) \<Rightarrow> ('w, rvalue) vcmd" where
  "on_beacon A beacon f =
     deref beacons beacon (\<lambda>b. live_beacon A (b_beacon b) (tell (f (b_beacon b)) (ret Qnil)))"

section \<open>Life\<close>

definition rb_czmq_nogvl_beacon_destroy :: "'w czmq \<Rightarrow> ptr \<Rightarrow> ('w, rvalue) vcmd" where
  "rb_czmq_nogvl_beacon_destroy A beacon =
     deref beacons beacon (\<lambda>b.
     if b_beacon b \<noteq> NULL then
       live_beacon A (b_beacon b) (
       tell (zbeacon_destroy A (b_beacon b)) (
       set_beacon beacon (\<lambda>b. b\<lparr>b_beacon := NULL\<rparr>) (ret Qnil)))
     else ret Qnil)"

definition rb_czmq_free_beacon_gc :: "'w czmq \<Rightarrow> ptr \<Rightarrow> ('w, unit) vcmd" where
  "rb_czmq_free_beacon_gc A beacon =
     (if beacon \<noteq> NULL then
        call (rb_czmq_nogvl_beacon_destroy A beacon) (\<lambda>_.
        wr (\<lambda>s. s\<lparr>beacons := (beacons s)(beacon := None)\<rparr>) (ret ()))
      else ret ())"

definition rb_czmq_nogvl_new_beacon :: "'w czmq \<Rightarrow> int \<Rightarrow> ('w, ptr) vcmd" where
  "rb_czmq_nogvl_new_beacon A port = invoke (zbeacon_new A port) ret"

definition rb_czmq_beacon_s_new :: "'w czmq \<Rightarrow> rvalue \<Rightarrow> ('w, rvalue) vcmd" where
  "rb_czmq_beacon_s_new A port =
     Check_Fixnum port (\<lambda>n.
     make_struct (\<lambda>bcn s. s\<lparr>beacons := (beacons s)(bcn \<mapsto> \<lparr>b_beacon = NULL\<rparr>)\<rparr>) (\<lambda>bcn.
     FIX2INT n (\<lambda>prt.
     call (rb_czmq_nogvl_new_beacon A prt) (\<lambda>beacon.
     set_beacon bcn (\<lambda>b. b\<lparr>b_beacon := beacon\<rparr>) (
     ZmqAssertObjOnAlloc A beacon (\<lambda>s. s\<lparr>beacons := (beacons s)(bcn := None)\<rparr>) (
     ret (Object rb_cZmqBeacon bcn)))))))"

definition rb_czmq_beacon_destroy :: "'w czmq \<Rightarrow> rvalue \<Rightarrow> ('w, rvalue) vcmd" where
  "rb_czmq_beacon_destroy A obj =
     GetZmqBeacon obj (\<lambda>beacon. call (rb_czmq_nogvl_beacon_destroy A beacon) (\<lambda>_. ret Qnil))"

section \<open>Settings\<close>

definition rb_czmq_beacon_hostname :: "'w czmq \<Rightarrow> rvalue \<Rightarrow> ('w, rvalue) vcmd" where
  "rb_czmq_beacon_hostname A obj =
     GetZmqBeacon obj (\<lambda>beacon.
     deref beacons beacon (\<lambda>b.
     live_beacon A (b_beacon b) (
     ask (zbeacon_hostname A (b_beacon b)) (\<lambda>host. ret (RString (c_str host))))))"

definition rb_czmq_nogvl_set_interval :: "'w czmq \<Rightarrow> ptr \<Rightarrow> int \<Rightarrow> ('w, rvalue) vcmd" where
  "rb_czmq_nogvl_set_interval A beacon interval = on_beacon A beacon (\<lambda>b. zbeacon_set_interval A b interval)"

definition rb_czmq_beacon_set_interval :: "'w czmq \<Rightarrow> rvalue \<Rightarrow> rvalue \<Rightarrow> ('w, rvalue) vcmd" where
  "rb_czmq_beacon_set_interval A obj interval =
     GetZmqBeacon obj (\<lambda>beacon.
     Check_Fixnum interval (\<lambda>n.
     FIX2INT n (\<lambda>interval.
     call (rb_czmq_nogvl_set_interval A beacon interval) (\<lambda>_. ret Qnil))))"

definition rb_czmq_nogvl_noecho :: "'w czmq \<Rightarrow> ptr \<Rightarrow> ('w, rvalue) vcmd" where
  "rb_czmq_nogvl_noecho A beacon = on_beacon A beacon (zbeacon_noecho A)"

definition rb_czmq_beacon_noecho :: "'w czmq \<Rightarrow> rvalue \<Rightarrow> ('w, rvalue) vcmd" where
  "rb_czmq_beacon_noecho A obj =
     GetZmqBeacon obj (\<lambda>beacon. call (rb_czmq_nogvl_noecho A beacon) (\<lambda>_. ret Qnil))"

definition rb_czmq_nogvl_silence :: "'w czmq \<Rightarrow> ptr \<Rightarrow> ('w, rvalue) vcmd" where
  "rb_czmq_nogvl_silence A beacon = on_beacon A beacon (zbeacon_silence A)"

definition rb_czmq_beacon_silence :: "'w czmq \<Rightarrow> rvalue \<Rightarrow> ('w, rvalue) vcmd" where
  "rb_czmq_beacon_silence A obj =
     GetZmqBeacon obj (\<lambda>beacon. call (rb_czmq_nogvl_silence A beacon) (\<lambda>_. ret Qnil))"

definition rb_czmq_nogvl_unsubscribe :: "'w czmq \<Rightarrow> ptr \<Rightarrow> ('w, rvalue) vcmd" where
  "rb_czmq_nogvl_unsubscribe A beacon = on_beacon A beacon (zbeacon_unsubscribe A)"

definition rb_czmq_beacon_unsubscribe :: "'w czmq \<Rightarrow> rvalue \<Rightarrow> ('w, rvalue) vcmd" where
  "rb_czmq_beacon_unsubscribe A obj =
     GetZmqBeacon obj (\<lambda>beacon. call (rb_czmq_nogvl_unsubscribe A beacon) (\<lambda>_. ret Qnil))"

definition rb_czmq_nogvl_publish :: "'w czmq \<Rightarrow> ptr \<Rightarrow> string \<Rightarrow> ('w, rvalue) vcmd" where
  "rb_czmq_nogvl_publish A beacon transmit = on_beacon A beacon (\<lambda>b. zbeacon_publish A b transmit)"

definition rb_czmq_beacon_publish :: "'w czmq \<Rightarrow> rvalue \<Rightarrow> rvalue \<Rightarrow> ('w, rvalue) vcmd" where
  "rb_czmq_beacon_publish A obj transmit =
     GetZmqBeacon obj (\<lambda>beacon.
     Check_String transmit (\<lambda>transmit.
     call (rb_czmq_nogvl_publish A beacon transmit) (\<lambda>_. ret Qnil)))"

text \<open>Without a filter the beacon gets a null pointer.\<close>

definition rb_czmq_nogvl_subscribe :: "'w czmq \<Rightarrow> ptr \<Rightarrow> string option \<Rightarrow> ('w, rvalue) vcmd" where
  "rb_czmq_nogvl_subscribe A beacon pattern = on_beacon A beacon (\<lambda>b. zbeacon_subscribe A b pattern)"

definition rb_czmq_beacon_subscribe :: "'w czmq \<Rightarrow> rvalue \<Rightarrow> rvalue \<Rightarrow> ('w, rvalue) vcmd" where
  "rb_czmq_beacon_subscribe A obj pattern =
     GetZmqBeacon obj (\<lambda>beacon.
     let subscribe = (\<lambda>pattern. call (rb_czmq_nogvl_subscribe A beacon pattern) (\<lambda>_. ret Qnil))
     in if NIL_P pattern then subscribe None else Check_String pattern (\<lambda>cs. subscribe (Some cs)))"

section \<open>The pipe\<close>

definition rb_czmq_beacon_pipe :: "'w czmq \<Rightarrow> rvalue \<Rightarrow> ('w, rvalue) vcmd" where
  "rb_czmq_beacon_pipe A obj =
     GetZmqBeacon obj (\<lambda>beacon.
     deref beacons beacon (\<lambda>b.
     live_beacon A (b_beacon b) (
     ask (zbeacon_socket A (b_beacon b)) (\<lambda>s.
     call (rb_czmq_socket_alloc A Qnil NULL s) (\<lambda>socket.
     GetZmqSocket socket (\<lambda>sock.
     set_sock sock (\<lambda>w. w\<lparr>s_state := ZMQ_SOCKET_BOUND\<rparr>) (
     ret socket)))))))"

end
