(* ===== verification/Zmq_Beacon_Theorems.thy ===== *)
theory Zmq_Beacon_Theorems
  imports Zmq_Beacon Zmq_Sample Zmq_Hoare
begin

text \<open>
  Beacons. A beacon may be used until it is destroyed; the guard that the other classes have after
  that is missing.
\<close>

declare socket_klass.simps [simp del]

section \<open>Beacons\<close>

datatype beacon_call =
    Beacon_hostname | Beacon_set_interval rvalue | Beacon_noecho | Beacon_silence | Beacon_unsubscribe
  | Beacon_publish rvalue | Beacon_subscribe rvalue | Beacon_pipe | Beacon_destroy

fun run_beacon :: "'w czmq \<Rightarrow> rvalue \<Rightarrow> beacon_call \<Rightarrow> ('w, rvalue) vcmd" where
  "run_beacon A obj Beacon_hostname = rb_czmq_beacon_hostname A obj"
| "run_beacon A obj (Beacon_set_interval v) = rb_czmq_beacon_set_interval A obj v"
| "run_beacon A obj Beacon_noecho = rb_czmq_beacon_noecho A obj"
| "run_beacon A obj Beacon_silence = rb_czmq_beacon_silence A obj"
| "run_beacon A obj Beacon_unsubscribe = rb_czmq_beacon_unsubscribe A obj"
| "run_beacon A obj (Beacon_publish v) = rb_czmq_beacon_publish A obj v"
| "run_beacon A obj (Beacon_subscribe v) = rb_czmq_beacon_subscribe A obj v"
| "run_beacon A obj Beacon_pipe = rb_czmq_beacon_pipe A obj"
| "run_beacon A obj Beacon_destroy = rb_czmq_beacon_destroy A obj"

text \<open>The arguments that the methods accept.\<close>

fun beacon_args :: "beacon_call \<Rightarrow> bool" where
  "beacon_args (Beacon_set_interval v) \<longleftrightarrow> (case v of Fixnum n \<Rightarrow> - (2 ^ 31) \<le> n \<and> n < 2 ^ 31 | _ \<Rightarrow> False)"
| "beacon_args (Beacon_publish v) \<longleftrightarrow> (case v of RString cs \<Rightarrow> True | _ \<Rightarrow> False)"
| "beacon_args (Beacon_subscribe v) \<longleftrightarrow> (case v of Qnil \<Rightarrow> True | RString cs \<Rightarrow> True | _ \<Rightarrow> False)"
| "beacon_args _ \<longleftrightarrow> True"

text \<open>A beacon object has a czmq beacon with its pipe, or a null pointer.\<close>

definition beacon_at :: "'w czmq \<Rightarrow> 'w vm \<Rightarrow> ptr \<Rightarrow> zmq_beacon_wrapper \<Rightarrow> ptr \<Rightarrow> bool" where
  "beacon_at A s p b h \<longleftrightarrow>
     p \<noteq> NULL \<and> 0 < fresh s \<and> beacons s p = Some b \<and> b_beacon b \<noteq> NULL \<and>
     zbeacons (view A (lib s)) (b_beacon b) = Some h \<and> h \<noteq> NULL \<and> zsocks (view A (lib s)) h \<noteq> None"

definition beacon_inv :: "'w czmq \<Rightarrow> ptr \<Rightarrow> 'w vm \<Rightarrow> bool" where
  "beacon_inv A p s \<longleftrightarrow> (\<exists>b h. beacon_at A s p b h) \<or> p \<noteq> NULL \<and> (\<exists>b. beacons s p = Some b \<and> b_beacon b = NULL)"

definition beacon_valid :: "ptr \<Rightarrow> 'w vm \<Rightarrow> beacon_call \<Rightarrow> bool" where
  "beacon_valid p s c \<longleftrightarrow> c = Beacon_destroy \<or> (\<exists>b. beacons s p = Some b \<and> b_beacon b \<noteq> NULL)"

lemma beacon_atD:
  assumes "beacon_at A s p b h"
  shows "p \<noteq> NULL" "0 < fresh s" "beacons s p = Some b" "b_beacon b \<noteq> NULL"
    "zbeacons (view A (lib s)) (b_beacon b) = Some h" "h \<noteq> NULL" "zsocks (view A (lib s)) h \<noteq> None"
  using assms by (simp_all add: beacon_at_def)

lemma beacon_atI: "beacon_at A s p b h \<Longrightarrow> beacon_inv A p s"
  unfolding beacon_inv_def by blast

lemma beacon_lib:
  assumes "beacon_at A s p b h" and "view A w = view A (lib s)"
  shows "beacon_inv A p (s\<lparr>lib := w\<rparr>)"
  by (rule beacon_atI [of _ _ _ b h]) (use assms in \<open>simp add: beacon_at_def\<close>)

lemma wp_live_beacon: "wp (live_beacon A p k) Q E s \<longleftrightarrow> zbeacons (view A (lib s)) p \<noteq> None \<and> wp k Q E s"
  by (auto simp: wp_def live_beacon_def)

lemma wp_GetZmqBeacon: "p \<noteq> NULL \<Longrightarrow> wp (GetZmqBeacon (Object rb_cZmqBeacon p) k) Q E s = wp (k p) Q E s"
  by (simp add: wp_def)

text \<open>A setting of a beacon calls the library and nothing else.\<close>

lemma wp_on_beacon:
  assumes "beacon_at A s p b h" and "view A (g (b_beacon b) (lib s)) = view A (lib s)"
  shows "wp (call (on_beacon A p g) (\<lambda>_. ret Qnil)) (\<lambda>_. beacon_inv A p) (\<lambda>_. beacon_inv A p) s"
  using beacon_atD [OF assms(1)] beacon_lib [OF assms]
  by (simp add: on_beacon_def wp_call wp_deref wp_live_beacon wp_simps)

lemmas beacon_methods =
  rb_czmq_beacon_hostname_def rb_czmq_beacon_set_interval_def rb_czmq_beacon_noecho_def rb_czmq_beacon_silence_def
  rb_czmq_beacon_unsubscribe_def rb_czmq_beacon_publish_def rb_czmq_beacon_subscribe_def rb_czmq_beacon_pipe_def

lemmas beacon_settings =
  rb_czmq_nogvl_set_interval_def rb_czmq_nogvl_noecho_def rb_czmq_nogvl_silence_def rb_czmq_nogvl_unsubscribe_def
  rb_czmq_nogvl_publish_def rb_czmq_nogvl_subscribe_def

text \<open>The pipe of a beacon is a new socket object without a context.\<close>

abbreviation pipe_socket :: "ptr \<Rightarrow> 'w vm \<Rightarrow> zmq_sock_wrapper" where
  "pipe_socket h s \<equiv>
     \<lparr>s_ctx = NULL, s_socket = h, s_ctx_wrapper = NULL, s_flags = 0, s_verbose = False,
      s_state = ZMQ_SOCKET_PENDING, s_endpoints = Object rb_cArray (Suc (fresh s)), s_thread = thread s,
      s_context = Qnil, s_monitor_endpoint = Qnil, s_monitor_handler = Qnil, s_monitor_thread = Qnil\<rparr>"

lemma unknown_klass:
  assumes "n \<notin> range (socktype A)"
  shows "rb_czmq_ctx_socket_klass A n k = raise (ZmqError ''ZMQ socket type not supported!'')"
proof -
  have "n \<noteq> socktype A x" for x using assms by blast
  then show ?thesis by (simp add: rb_czmq_ctx_socket_klass_def)
qed

lemma pipe_alloc:
  assumes "h \<noteq> NULL" and "zsocks (view A (lib s)) h \<noteq> None"
  obtains (unknown) e where "rb_czmq_socket_alloc A Qnil NULL h s = Raise e s"
  | (pipe) k where "socket_klass k"
      "rb_czmq_socket_alloc A Qnil NULL h s = Return (Object k (fresh s))
         (s\<lparr>socks := (socks s)(fresh s \<mapsto> pipe_socket h s), fresh := Suc (Suc (fresh s)), arrays := (arrays s)(Suc (fresh s) \<mapsto> [])\<rparr>)"
proof (cases "zsocket_type A h (lib s) \<in> range (socktype A)")
  case True
  then obtain k where k: "socket_klass k"
    "\<And>K. rb_czmq_ctx_socket_klass A (zsocket_type A h (lib s)) K = (K k :: ('a, rvalue) vcmd)"
    using socket_klass_known by blast
  show ?thesis
    by (rule pipe [OF k(1)])
      (use assms in \<open>auto simp: rb_czmq_socket_alloc_def k(2)\<close>)
next
  case False
  then show ?thesis using assms by (intro unknown) (auto simp: rb_czmq_socket_alloc_def unknown_klass)
qed

lemma pipe_inv:
  assumes at: "beacon_at A s p b h" and doc: "zbeacon_doc A"
  shows "wp (rb_czmq_beacon_pipe A (Object rb_cZmqBeacon p)) (\<lambda>_. beacon_inv A p) (\<lambda>_. beacon_inv A p) s"
proof -
  note D = beacon_atD [OF at]
  have sock: "zbeacon_socket A (b_beacon b) (lib s) = h" by (rule zbeacon_liveD(1) [OF doc D(5)])
  have keep: "beacon_inv A p (s\<lparr>fresh := f, arrays := aa, socks := ss\<rparr>)" if "0 < f" for ss aa f
    by (rule beacon_atI [of _ _ _ b h]) (use at that in \<open>simp add: beacon_at_def\<close>)
  have inv: "beacon_inv A p s" by (rule beacon_atI [OF at])
  show ?thesis
  proof (cases rule: pipe_alloc [OF D(6,7), case_names unknown pipe])
    case (unknown e)
    then show ?thesis using D sock inv
      by (simp add: rb_czmq_beacon_pipe_def wp_GetZmqBeacon wp_deref wp_live_beacon wp_simps wp_call) (simp add: wp_def)
  next
    case (pipe k)
    then show ?thesis using D(1-5) sock keep
      by (simp add: rb_czmq_beacon_pipe_def wp_GetZmqBeacon wp_deref wp_live_beacon wp_simps wp_call) (simp add: wp_def GetZmqSocket_def fetch_def)
  qed
qed

lemma beacon_set_inv:
  assumes at: "beacon_at A s p b h" and doc: "zbeacon_doc A" and c: "c \<noteq> Beacon_destroy"
  shows "wp (run_beacon A (Object rb_cZmqBeacon p) c) (\<lambda>_. beacon_inv A p) (\<lambda>_. beacon_inv A p) s"
proof -
  note D = beacon_atD [OF at]
  note doc = zbeacon_liveD [OF doc D(5)]
  note on = wp_on_beacon [OF at]
  have inv: "beacon_inv A p s" by (rule beacon_atI [OF at])
  show ?thesis
    by (cases c) (use D(1,3,5) inv on doc c pipe_inv [OF at assms(2)] in
      \<open>simp_all add: beacon_methods beacon_settings wp_GetZmqBeacon wp_deref wp_live_beacon wp_simps Let_def split: rvalue.split\<close>)
qed

text \<open>Destroying a beacon frees it once.\<close>

lemma beacon_destroy_run:
  assumes at: "beacon_at A s p b h"
  shows "rb_czmq_beacon_destroy A (Object rb_cZmqBeacon p) s =
    Return Qnil (s\<lparr>lib := zbeacon_destroy A (b_beacon b) (lib s), beacons := (beacons s)(p \<mapsto> b\<lparr>b_beacon := NULL\<rparr>)\<rparr>)"
  using beacon_atD [OF at] by (simp add: rb_czmq_beacon_destroy_def rb_czmq_nogvl_beacon_destroy_def call_def)

lemma beacon_destroyed_run:
  assumes "p \<noteq> NULL" and "beacons s p = Some b" and "b_beacon b = NULL"
  shows "rb_czmq_beacon_destroy A (Object rb_cZmqBeacon p) s = Return Qnil s"
    and "rb_czmq_free_beacon_gc A p s = Return () (s\<lparr>beacons := (beacons s)(p := None)\<rparr>)"
  using assms by (simp_all add: rb_czmq_beacon_destroy_def rb_czmq_nogvl_beacon_destroy_def rb_czmq_free_beacon_gc_def call_def)

interpretation beacon: machine "run_beacon A (Object rb_cZmqBeacon p)" "beacon_valid p" "beacon_inv A p" "zbeacon_doc A"
proof unfold_locales
  fix s c assume doc: "zbeacon_doc A" and inv: "beacon_inv A p s" and valid: "beacon_valid p s c"
  show "wp (run_beacon A (Object rb_cZmqBeacon p) c) (\<lambda>_. beacon_inv A p) (\<lambda>_. beacon_inv A p) s"
  proof (cases "\<exists>b h. beacon_at A s p b h")
    case True
    then obtain b h where at: "beacon_at A s p b h" by blast
    show ?thesis
    proof (cases "c = Beacon_destroy")
      case True
      then show ?thesis using beacon_destroy_run [OF at] beacon_atD(1) [OF at] by (simp add: wp_def beacon_inv_def)
    qed (rule beacon_set_inv [OF at doc])
  next
    case False
    then obtain b where b: "p \<noteq> NULL" "beacons s p = Some b" "b_beacon b = NULL" using inv unfolding beacon_inv_def by blast
    then have "c = Beacon_destroy" using valid by (simp add: beacon_valid_def)
    then show ?thesis using beacon_destroyed_run(1) [OF b] inv by (simp add: wp_def)
  qed
qed

section \<open>Properties\<close>

lemma beacon_new_inv:
  assumes doc: "zbeacon_doc A" and s0: "0 < fresh s0" and new: "rb_czmq_beacon_s_new A port s0 = Return (Object rb_cZmqBeacon p) s"
  shows "beacon_inv A p s"
proof -
  obtain n where n: "port = Fixnum n" "- (2 ^ 31) \<le> n" "n < 2 ^ 31"
    using new by (auto simp: rb_czmq_beacon_s_new_def Check_Fixnum_def split: rvalue.splits if_splits)
  obtain b w where call: "zbeacon_new A n (lib s0) = (b, w)" by fastforce
  have b: "b \<noteq> NULL"
    using new n call by (auto simp: rb_czmq_beacon_s_new_def rb_czmq_nogvl_new_beacon_def call_def ZmqAssertObjOnAlloc_def
        ZmqAssertSysError_def split: if_splits)
  then have s: "p = fresh s0" "s = s0\<lparr>lib := w, fresh := Suc (fresh s0), beacons := (beacons s0)(fresh s0 \<mapsto> \<lparr>b_beacon = b\<rparr>)\<rparr>"
    using new n call by (auto simp: rb_czmq_beacon_s_new_def rb_czmq_nogvl_new_beacon_def call_def)
  obtain h t where "h \<noteq> NULL" "view A w = (view A (lib s0))\<lparr>zsocks := (zsocks (view A (lib s0)))(h \<mapsto> (NULL, t)),
      zbeacons := (zbeacons (view A (lib s0)))(b \<mapsto> h)\<rparr>"
    using zbeacon_docD(2) [OF doc, of "lib s0" n] call b by (auto simp: zbeacon_new_doc_def)
  then have "beacon_at A s p \<lparr>b_beacon = b\<rparr> h" using s s0 b by (simp add: beacon_at_def)
  then show ?thesis by (rule beacon_atI)
qed

text \<open>
  C19: a beacon is safe until it is destroyed. In every program that calls the methods of a new beacon
  with any arguments, takes its pipe any number of times, and destroys it as often as it likes, but
  calls nothing else after that, no call faults.
\<close>

theorem beacon_safe:
  assumes "zbeacon_doc A" and "0 < fresh s0" and "rb_czmq_beacon_s_new A port s0 = Return (Object rb_cZmqBeacon p) s"
    and "runs (run_beacon A (Object rb_cZmqBeacon p)) (beacon_valid p) s t" and "beacon_valid p t c"
  shows "safe (run_beacon A (Object rb_cZmqBeacon p) c t)"
  by (rule beacon.runs_safe [OF assms(4,1) beacon_new_inv [OF assms(1-3)] assms(5)])

lemma sample_beacon:
  obtains s where "rb_czmq_beacon_s_new ref (Fixnum 9999) (vm_sock 0 False) = Return (Object rb_cZmqBeacon 4) s"
    "beacon_at ref s 4 \<lparr>b_beacon = 5\<rparr> 4"
proof -
  obtain s where s: "rb_czmq_beacon_s_new ref (Fixnum 9999) (vm_sock 0 False) = Return (Object rb_cZmqBeacon 4) s"
    "beacons s 4 = Some \<lparr>b_beacon = 5\<rparr>" "0 < fresh s" "zbeacons (view ref (lib s)) 5 = Some 4"
    by (auto simp: rb_czmq_beacon_s_new_def rb_czmq_nogvl_new_beacon_def call_def ref_fields rnew_def world_sock_def
        rview_sel cell_def)
  have "beacon_inv ref 4 s" by (rule beacon_new_inv [OF ref_zbeacon _ s(1)]) simp
  then obtain h where "beacon_at ref s 4 \<lparr>b_beacon = 5\<rparr> h" using s(2) by (auto simp: beacon_inv_def beacon_at_def)
  then show thesis using that s by (simp add: beacon_at_def)
qed

theorem beacon_safe_witness:
  "\<exists>s. rb_czmq_beacon_s_new ref (Fixnum 9999) (vm_sock 0 False) = Return (Object rb_cZmqBeacon 4) s \<and>
     safe (rb_czmq_beacon_pipe ref (Object rb_cZmqBeacon 4) s)"
proof -
  obtain s where s: "rb_czmq_beacon_s_new ref (Fixnum 9999) (vm_sock 0 False) = Return (Object rb_cZmqBeacon 4) s"
    "beacon_at ref s 4 \<lparr>b_beacon = 5\<rparr> 4" by (rule sample_beacon)
  have "beacon_valid 4 s Beacon_pipe" using s(2) by (simp add: beacon_valid_def beacon_at_def)
  from beacon_safe [OF ref_zbeacon _ s(1) runs.start this] s(1) show ?thesis by simp
qed

text \<open>
  C39: a destroyed beacon has no guard. Destroying a beacon frees the czmq beacon and its pipe; a
  second destroy returns nil and the collection of the object does not call the library. But every
  other method, called with arguments it accepts, then hands a null pointer to libczmq.
\<close>

theorem beacon_destroyed:
  assumes "zbeacon_doc A" and "beacon_at A s p b h"
  shows "\<exists>t u. rb_czmq_beacon_destroy A (Object rb_cZmqBeacon p) s = Return Qnil t \<and>
    zbeacons (view A (lib t)) (b_beacon b) = None \<and> zsocks (view A (lib t)) h = None \<and>
    rb_czmq_beacon_destroy A (Object rb_cZmqBeacon p) t = Return Qnil t \<and>
    rb_czmq_free_beacon_gc A p t = Return () u \<and> lib u = lib t \<and>
    (\<forall>c. c \<noteq> Beacon_destroy \<longrightarrow> beacon_args c \<longrightarrow> run_beacon A (Object rb_cZmqBeacon p) c t = Crash BadHandle)"
proof -
  note D = beacon_atD [OF assms(2)]
  let ?t = "s\<lparr>lib := zbeacon_destroy A (b_beacon b) (lib s), beacons := (beacons s)(p \<mapsto> b\<lparr>b_beacon := NULL\<rparr>)\<rparr>"
  have null: "zbeacons (view A w) NULL = None" for w by (rule zbeacon_docD(1) [OF assms(1)])
  have t: "beacons ?t p = Some (b\<lparr>b_beacon := NULL\<rparr>)" "b_beacon (b\<lparr>b_beacon := NULL\<rparr>) = NULL" by simp_all
  have "run_beacon A (Object rb_cZmqBeacon p) c ?t = Crash BadHandle" if "c \<noteq> Beacon_destroy" "beacon_args c" for c
    using that D(1) null
    by (cases c) (auto simp: beacon_methods beacon_settings on_beacon_def call_def NIL_P_def Let_def split: rvalue.splits)
  moreover note beacon_destroy_run [OF assms(2)] zbeacon_liveD(2) [OF assms(1) D(5)] beacon_destroyed_run [OF D(1) t]
  ultimately show ?thesis by (intro exI [of _ ?t] exI [of _ "?t\<lparr>beacons := (beacons ?t)(p := None)\<rparr>"]) simp
qed

theorem beacon_destroyed_witness:
  "\<exists>s t. rb_czmq_beacon_s_new ref (Fixnum 9999) (vm_sock 0 False) = Return (Object rb_cZmqBeacon 4) s \<and>
     rb_czmq_beacon_destroy ref (Object rb_cZmqBeacon 4) s = Return Qnil t \<and>
     rb_czmq_beacon_hostname ref (Object rb_cZmqBeacon 4) t = Crash BadHandle"
proof -
  obtain s where s: "rb_czmq_beacon_s_new ref (Fixnum 9999) (vm_sock 0 False) = Return (Object rb_cZmqBeacon 4) s"
    "beacon_at ref s 4 \<lparr>b_beacon = 5\<rparr> 4" by (rule sample_beacon)
  obtain t where t: "rb_czmq_beacon_destroy ref (Object rb_cZmqBeacon 4) s = Return Qnil t"
    "\<And>c. c \<noteq> Beacon_destroy \<Longrightarrow> beacon_args c \<Longrightarrow> run_beacon ref (Object rb_cZmqBeacon 4) c t = Crash BadHandle"
    using beacon_destroyed [OF ref_zbeacon s(2)] by blast
  from t(2) [of Beacon_hostname] s(1) t(1) show ?thesis by simp
qed

end
