(* ===== verification/Zmq_Monitor.thy ===== *)
theory Zmq_Monitor
  imports Zmq_Socket
begin

text \<open>
  The monitor of socket.c: \<^verbatim>\<open>ZMQ::Socket#monitor\<close> starts a thread that receives the events of a socket
  over a pair socket and calls the handler for each.
\<close>

definition rb_czmq_nogvl_monitor_recv :: "'w czmq \<Rightarrow> ptr \<Rightarrow> ptr \<Rightarrow> ('w, int \<times> string \<times> string) vcmd" where
  "rb_czmq_nogvl_monitor_recv A socket monitored_socket_wrapper =
     deref socks monitored_socket_wrapper (\<lambda>w.
     if has (s_flags w) ZMQ_SOCKET_DESTROYED then ret (-1, [], [])
     else
       live_sock A socket (
       invoke (zmq_recvmsg A socket 0) (\<lambda>(rc, msg_event).
       ask (zmq_msg_more A socket) (\<lambda>more.
       if rc = 0 \<and> more then
         invoke (zmq_recvmsg A socket 0) (\<lambda>(rc, msg_endpoint). ret (rc, msg_event, msg_endpoint))
       else ret (rc, msg_event, [])))))"

text \<open>The switch over the events.\<close>

definition monitor_method :: "'w czmq \<Rightarrow> int \<Rightarrow> string option" where
  "monitor_method A event =
     map_of [(eventcode A ZMQ_EVENT_CONNECTED, ''on_connected''),
             (eventcode A ZMQ_EVENT_CONNECT_DELAYED, ''on_connect_delayed''),
             (eventcode A ZMQ_EVENT_CONNECT_RETRIED, ''on_connect_retried''),
             (eventcode A ZMQ_EVENT_LISTENING, ''on_listening''),
             (eventcode A ZMQ_EVENT_BIND_FAILED, ''on_bind_failed''),
             (eventcode A ZMQ_EVENT_ACCEPTED, ''on_accepted''),
             (eventcode A ZMQ_EVENT_ACCEPT_FAILED, ''on_accept_failed''),
             (eventcode A ZMQ_EVENT_CLOSE_FAILED, ''on_close_failed''),
             (eventcode A ZMQ_EVENT_CLOSED, ''on_closed''),
             (eventcode A ZMQ_EVENT_DISCONNECTED, ''on_disconnected'')] event"

text \<open>One round of the loop; the result tells whether it goes on.\<close>

definition monitor_round :: "'w czmq \<Rightarrow> 'w rb_funcall \<Rightarrow> ptr \<Rightarrow> ptr \<Rightarrow> ('w, bool) vcmd" where
  "monitor_round A rb_funcall s sock =
     call (rb_czmq_nogvl_monitor_recv A s sock) (\<lambda>(rc, msg_event, msg_endpoint).
     ask (zmq_errno A) (\<lambda>e.
     if rc = -1 \<and> e \<in> {errcode A ETERM, errcode A ENOTSOCK, errcode A EINTR} then ret False
     else
       deref socks sock (\<lambda>w.
       if rc = -1 \<and> has (s_flags w) ZMQ_SOCKET_DESTROYED then ret False
       else
         require (rc \<noteq> -1) AssertFailed (
         let (event, val) = zmq_event A msg_event;
             go_on = deref socks sock (\<lambda>w. ret (\<not> has (s_flags w) ZMQ_SOCKET_DESTROYED))
         in case monitor_method A event of
              Some method \<Rightarrow>
                call (rb_funcall (s_monitor_handler w) method [RString msg_endpoint, LONG2FIX val]) (\<lambda>_. go_on)
            | None \<Rightarrow> go_on))))"

definition rb_czmq_socket_monitor_thread :: "'w czmq \<Rightarrow> 'w rb_funcall \<Rightarrow> ptr \<Rightarrow> ('w, rvalue) vcmd" where
  "rb_czmq_socket_monitor_thread A rb_funcall sock =
     deref socks sock (\<lambda>w.
     live_ctx A (s_ctx w) (
     invoke (zsocket_new A (s_ctx w) (socktype A ZMQ_PAIR)) (\<lambda>s.
     require (s \<noteq> NULL) AssertFailed (
     Check_String (s_monitor_endpoint w) (\<lambda>cs.
     StringValueCStr cs (\<lambda>endpoint.
     invoke (zmq_connect A s endpoint) (\<lambda>rc.
     require (rc = 0) AssertFailed (
     while_do (\<lambda>go_on. go_on) (\<lambda>_. monitor_round A rb_funcall s sock) (\<lambda>_. ret Qnil) True))))))))"

definition rb_czmq_socket_monitor :: "'w czmq \<Rightarrow> rvalue list \<Rightarrow> rvalue \<Rightarrow> ('w, rvalue) vcmd" where
  "rb_czmq_socket_monitor A argv obj =
     GetZmqSocket obj (\<lambda>sock.
     ZmqSockGuardCrossThread sock (
     rb_scan_args_12 argv (\<lambda>endpoint handler events.
     Check_String endpoint (\<lambda>cs.
     let start = (\<lambda>events handler.
       Check_Fixnum events (\<lambda>n.
       StringValueCStr cs (\<lambda>ep.
       FIX2INT n (\<lambda>evts.
       deref socks sock (\<lambda>w.
       live_sock A (s_socket w) (
       invoke (zmq_socket_monitor A (s_socket w) ep evts) (\<lambda>rc.
       if rc = 0 then
         set_sock sock (\<lambda>w. w\<lparr>s_monitor_endpoint := endpoint\<rparr>) (
         set_sock sock (\<lambda>w. w\<lparr>s_monitor_handler := handler\<rparr>) (
         rb_object_new rb_cThread (\<lambda>thread.
         set_sock sock (\<lambda>w. w\<lparr>s_monitor_thread := thread\<rparr>) (
         ret Qtrue))))
       else ret Qfalse)))))));
         with_handler = (\<lambda>events.
       if NIL_P handler then rb_object_new (rb_cOther ''ZMQ::Monitor'') (start events)
       else start events handler)
     in if NIL_P events then rb_const_get_ZMQ A ''EVENT_ALL'' with_handler
        else with_handler events))))"

end
