(* ===== verification/Zmq_Monitor_Theorems.thy ===== *)
theory Zmq_Monitor_Theorems
  imports Zmq_Monitor Zmq_Sample
begin

text \<open>
  The monitor thread of a socket: it ends with the socket it watches, and it never sees the endpoint
  of an event.
\<close>

declare socket_klass.simps [simp del]

section \<open>The rounds of the loop\<close>

text \<open>The states that the loop passes through while events keep coming.\<close>

inductive monitoring :: "'w czmq \<Rightarrow> 'w rb_funcall \<Rightarrow> ptr \<Rightarrow> ptr \<Rightarrow> 'w vm \<Rightarrow> 'w vm \<Rightarrow> bool" for A f s sock where
  watch: "monitoring A f s sock t t"
| event: "monitor_round A f s sock t = Return True u \<Longrightarrow> monitoring A f s sock u v \<Longrightarrow> monitoring A f s sock t v"

abbreviation monitor_loop :: "'w czmq \<Rightarrow> 'w rb_funcall \<Rightarrow> ptr \<Rightarrow> ptr \<Rightarrow> ('w, rvalue) vcmd" where
  "monitor_loop A f s sock \<equiv> while_do (\<lambda>go_on. go_on) (\<lambda>_. monitor_round A f s sock) (\<lambda>_. ret Qnil) True"

lemma monitoring_loop:
  assumes "monitoring A f s sock t u"
  shows "monitor_loop A f s sock t = monitor_loop A f s sock u"
  using assms
  by induction (simp_all add: while_do_unroll [of "\<lambda>go_on. go_on" _ _ True] call_def)

text \<open>
  What ends the loop: the watched socket is destroyed when a round begins, the receive call fails
  because the context ends, the monitor socket is closed or a signal arrives, or the handler of an
  event returns with the watched socket destroyed.
\<close>

definition monitor_stops :: "'w czmq \<Rightarrow> 'w rb_funcall \<Rightarrow> ptr \<Rightarrow> ptr \<Rightarrow> 'w vm \<Rightarrow> 'w vm \<Rightarrow> bool" where
  "monitor_stops A f s sock u v \<longleftrightarrow>
     (\<exists>w. socks u sock = Some w \<and>
        (if has (s_flags w) ZMQ_SOCKET_DESTROYED then v = u
         else zsocks (view A (lib u)) s \<noteq> None \<and>
           (case zmq_recvmsg A s 0 (lib u) of ((rc, m), l) \<Rightarrow>
              if rc = -1
              then zmq_errno A l \<in> {errcode A ETERM, errcode A ENOTSOCK, errcode A EINTR} \<and> v = u\<lparr>lib := l\<rparr>
              else 0 < rc \<and>
                (\<exists>meth x. monitor_method A (fst (zmq_event A m)) = Some meth \<and>
                   f (s_monitor_handler w) meth [RString [], LONG2FIX (snd (zmq_event A m))] (u\<lparr>lib := l\<rparr>) = Return x v \<and>
                   (\<exists>w'. socks v sock = Some w' \<and> has (s_flags w') ZMQ_SOCKET_DESTROYED)))))"

text \<open>
  One round with a message of a positive size: what is done with it, given the handler's method if
  the message is an event. The endpoint is the empty string.
\<close>

definition handle_event :: "'w czmq \<Rightarrow> 'w rb_funcall \<Rightarrow> ptr \<Rightarrow> rvalue \<Rightarrow> string \<Rightarrow> ('w, bool) vcmd" where
  "handle_event A f sock handler m =
     (let go_on = deref socks sock (\<lambda>w. ret (\<not> has (s_flags w) ZMQ_SOCKET_DESTROYED))
      in case monitor_method A (fst (zmq_event A m)) of
           Some meth \<Rightarrow> call (f handler meth [RString [], LONG2FIX (snd (zmq_event A m))]) (\<lambda>_. go_on)
         | None \<Rightarrow> go_on)"

lemma event_round:
  assumes "socks u sock = Some w" and "\<not> has (s_flags w) ZMQ_SOCKET_DESTROYED" and "zsocks (view A (lib u)) s \<noteq> None"
    and "zmq_recvmsg A s 0 (lib u) = ((rc, m), l)" and "0 < rc"
  shows "monitor_round A f s sock u = handle_event A f sock (s_monitor_handler w) m (u\<lparr>lib := l\<rparr>)"
  using assms
  by (cases "monitor_method A (fst (zmq_event A m))")
    (auto simp: monitor_round_def rb_czmq_nogvl_monitor_recv_def call_def split_beta handle_event_def)

lemma stopping_round:
  assumes "monitor_stops A f s sock u v"
  shows "monitor_round A f s sock u = Return False v"
proof -
  obtain w where w: "socks u sock = Some w" using assms unfolding monitor_stops_def by blast
  show ?thesis
  proof (cases "has (s_flags w) ZMQ_SOCKET_DESTROYED")
    case True
    then show ?thesis
      using assms w by (simp add: monitor_stops_def monitor_round_def rb_czmq_nogvl_monitor_recv_def call_def)
  next
    case False
    obtain rc m l where r: "zmq_recvmsg A s 0 (lib u) = ((rc, m), l)" by (metis surj_pair)
    show ?thesis
    proof (cases "rc = -1")
      case True
      then show ?thesis
        using assms w False r by (auto simp: monitor_stops_def monitor_round_def rb_czmq_nogvl_monitor_recv_def call_def)
    next
      case neq: False
      then show ?thesis
        using assms w False r event_round [OF w False _ r] by (auto simp: monitor_stops_def call_def handle_event_def Let_def)
    qed
  qed
qed

lemma monitor_thread_run:
  assumes "socks t sock = Some w" and "zctxs (view A (lib t)) (s_ctx w) \<noteq> None"
    and "zsocket_new A (s_ctx w) (socktype A ZMQ_PAIR) (lib t) = (s, l1)" and "s \<noteq> NULL"
    and "s_monitor_endpoint w = RString cs" and "NUL \<notin> set cs" and "zmq_connect A s cs l1 = (0, l2)"
  shows "rb_czmq_socket_monitor_thread A f sock t = monitor_loop A f s sock (t\<lparr>lib := l2\<rparr>)"
  using assms by (auto simp: rb_czmq_socket_monitor_thread_def)

section \<open>Properties\<close>

text \<open>
  C18: a monitor thread ends. The thread opens its socket, connects it to the endpoint, and calls the
  handler for the events that come; after any number of them, once the watched socket has been
  destroyed, by the handler or before the next receive, or the receive call fails because the context
  ends, the monitor socket is closed or a signal arrives, the thread returns nil without another call
  of the library or of the handler.
\<close>

theorem monitor_ends:
  assumes "socks t sock = Some w" and "zctxs (view A (lib t)) (s_ctx w) \<noteq> None"
    and "zsocket_new A (s_ctx w) (socktype A ZMQ_PAIR) (lib t) = (s, l1)" and "s \<noteq> NULL"
    and "s_monitor_endpoint w = RString cs" and "NUL \<notin> set cs" and "zmq_connect A s cs l1 = (0, l2)"
    and "monitoring A f s sock (t\<lparr>lib := l2\<rparr>) u" and "monitor_stops A f s sock u v"
  shows "rb_czmq_socket_monitor_thread A f sock t = Return Qnil v"
  unfolding monitor_thread_run [OF assms(1-7)] monitoring_loop [OF assms(8)]
  using stopping_round [OF assms(9)] by (simp add: while_do_unroll call_def)

abbreviation watched :: "rworld vm" where
  "watched \<equiv> (vm_sock ZMQ_SOCKET_BOUND False)\<lparr>socks := [2 \<mapsto> (sample_sock ZMQ_SOCKET_BOUND False)
     \<lparr>s_monitor_endpoint := RString ''inproc://monitor'', s_monitor_handler := Object (rb_cOther ''Handler'') 9\<rparr>]\<rparr>"

theorem monitor_ends_witness:
  "\<exists>v. rb_czmq_socket_monitor_thread ref (\<lambda>h m xs. rb_czmq_socket_close ref (Object rb_cZmqSubSocket 2)) 2 watched = Return Qnil v"
proof -
  let ?f = "\<lambda>h m xs. rb_czmq_socket_close ref (Object rb_cZmqSubSocket 2) :: (rworld, rvalue) vcmd"
  obtain l1 where l1: "zsocket_new ref 1 (socktype ref ZMQ_PAIR) (lib watched) = (4, l1)" "cell l1 = (cell world_sock)(4 := CSock 1 0)"
    by (auto simp: ref_fields rnew_def world_sock_def cell_def fun_eq_iff)
  let ?u = "watched\<lparr>lib := l1\<rparr>"
  have cell: "cell l1 = (\<lambda>p. Dead)(1 := CCtx 1, 2 := CList [PTR 2] None, 3 := CSock 1 2, 4 := CSock 1 0)"
    "cell (w\<lparr>rerr := e\<rparr>) = cell w" for w e
    unfolding l1(2) by (auto simp: cell_def world_sock_def fun_eq_iff)
  obtain v w' where v: "rb_czmq_socket_close ref (Object rb_cZmqSubSocket 2) ?u = Return Qnil v"
      "socks v 2 = Some w'" "has (s_flags w') ZMQ_SOCKET_DESTROYED"
    by (simp add: rb_czmq_socket_close_def GetZmqSocket_def fetch_def socket_klass.simps ZmqSockGuardCrossThread_def
        rb_czmq_context_destroy_socket_def rb_czmq_nogvl_zsocket_destroy_def mark_socket_closed_def call_def
        live_list_def live_ctx_def live_sock_def new_context_def ref_fields rview_sel cell_rput cell)
  have stops: "monitor_stops ref ?f 4 2 ?u v"
    using v by (simp add: monitor_stops_def rview_sel cell ref_fields monitor_method_def)
  have w: "socks watched 2 = Some (the (socks watched 2))" "zctxs (view ref (lib watched)) (s_ctx (the (socks watched 2))) \<noteq> None"
    "zsocket_new ref (s_ctx (the (socks watched 2))) (socktype ref ZMQ_PAIR) (lib watched) = (4, l1)"
    "s_monitor_endpoint (the (socks watched 2)) = RString ''inproc://monitor''" "zmq_connect ref 4 ''inproc://monitor'' l1 = (0, l1)"
    using l1(1) by (simp_all add: world_sock_view ref_fields)
  from monitor_ends [OF w(1-3) _ w(4) _ w(5) monitoring.watch stops] show ?thesis by (intro exI [of _ v]) simp
qed

text \<open>
  C40: the handler of a monitor never sees an endpoint. libzmq delivers an event as two messages, the
  event and the endpoint, and answers the receipt of each with its size, which is positive; but the
  second is received only when the first answer is zero. The handler is called for the event with an
  empty endpoint, and the next round takes the endpoint for an event.
\<close>

theorem monitor_loses_endpoint:
  assumes "socks u sock = Some w" and "\<not> has (s_flags w) ZMQ_SOCKET_DESTROYED"
    and "zmq_recvmsg A s 0 (lib u) = ((rc, m), l)" and "0 < rc" and "zmq_recvmsg A s 0 l = ((rc', endpoint), l')" and "0 < rc'"
    and "zsocks (view A (lib u)) s \<noteq> None" and "zsocks (view A l) s \<noteq> None"
    and "monitor_method A (fst (zmq_event A m)) = Some meth"
    and "f (s_monitor_handler w) meth [RString [], LONG2FIX (snd (zmq_event A m))] (u\<lparr>lib := l\<rparr>) =
      Return x (u\<lparr>lib := l\<rparr>)"
  shows "monitor_loop A f s sock u =
    call (handle_event A f sock (s_monitor_handler w) endpoint)
      (while_do (\<lambda>go_on. go_on) (\<lambda>_. monitor_round A f s sock) (\<lambda>_. ret Qnil)) (u\<lparr>lib := l'\<rparr>)"
proof -
  have "monitor_round A f s sock u = Return True (u\<lparr>lib := l\<rparr>)"
    using assms by (simp add: event_round [OF assms(1,2,7,3,4)] handle_event_def call_def)
  moreover have "monitor_round A f s sock (u\<lparr>lib := l\<rparr>) = handle_event A f sock (s_monitor_handler w) endpoint (u\<lparr>lib := l'\<rparr>)"
    using assms event_round [of "u\<lparr>lib := l\<rparr>" sock w A s rc' endpoint l' f] by simp
  ultimately show ?thesis
    by (simp add: while_do_unroll [of "\<lambda>go_on. go_on" _ _ True] call_def)
qed

theorem monitor_loses_endpoint_witness:
  "monitor_loop ref (\<lambda>h m xs. Return Qnil) 3 2 (vm_sock ZMQ_SOCKET_BOUND False) =
    call (handle_event ref (\<lambda>h m xs. Return Qnil) 2 Qnil ''hello'')
      (while_do (\<lambda>go_on. go_on) (\<lambda>_. monitor_round ref (\<lambda>h m xs. Return Qnil) 3 2) (\<lambda>_. ret Qnil))
      (vm_sock ZMQ_SOCKET_BOUND False)"
proof -
  have z: "zsocks (view ref (lib (vm_sock ZMQ_SOCKET_BOUND False))) 3 \<noteq> None" "zsocks (view ref world_sock) 3 \<noteq> None"
    by (simp_all add: world_sock_view)
  have r: "zmq_recvmsg ref 3 0 w = ((5, ''hello''), w)"
    "monitor_method ref (fst (zmq_event ref ''hello'')) = Some ''on_connected''" for w
    by (simp_all add: ref_fields monitor_method_def)
  have "(vm_sock ZMQ_SOCKET_BOUND False)\<lparr>lib := world_sock\<rparr> = vm_sock ZMQ_SOCKET_BOUND False"
    "s_monitor_handler (sample_sock ZMQ_SOCKET_BOUND False) = Qnil"
    by (simp_all add: vm_sock_def sample_sock_def new_socket_def)
  with monitor_loses_endpoint [where s = 3 and sock = 2 and x = Qnil and f = "\<lambda>h m xs. Return Qnil",
      OF _ _ r(1) _ r(1) _ z(1) _ r(2)] z(2)
  show ?thesis by simp
qed

end
