(* ===== verification/Zmq_Methods.thy ===== *)
theory Zmq_Methods
  imports Zmq_Options Zmq_Monitor Zmq_Poller Zmq_Loop Zmq_Beacon
begin

text \<open>
  The Ruby classes: which C function runs when a program calls a method of an object. The
  \<^verbatim>\<open>_init_rb_czmq_\<close> functions of the C files register them with the Ruby VM; here each is the table
  that it registers, and a call of a method looks its name up and checks the number of arguments.
\<close>

declare socket_klass.simps [simp del]

section \<open>Tables\<close>

text \<open>
  A C function is registered with an arity: it takes the receiver and as many arguments, or all of
  them as a C array (-1) or as a Ruby array (-2).
\<close>

datatype 'w rb_method =
    Method0 "rvalue \<Rightarrow> ('w, rvalue) vcmd"
  | Method1 "rvalue \<Rightarrow> rvalue \<Rightarrow> ('w, rvalue) vcmd"
  | Method_argv "rvalue list \<Rightarrow> rvalue \<Rightarrow> ('w, rvalue) vcmd"
  | Method_args "rvalue \<Rightarrow> rvalue list \<Rightarrow> ('w, rvalue) vcmd"

record 'w rb_class =
  singletons :: "(string \<times> 'w rb_method) list"
  alloc_func :: "('w, rvalue) vcmd option"
  methods :: "(string \<times> 'w rb_method) list"

text \<open>
  An alias is entered with the function it stands for. The block of a call is an argument of the
  table of the class that uses it, as are the functions of the Ruby VM that the methods call.
\<close>

definition init_rb_czmq_context :: "'w czmq \<Rightarrow> 'w rb_class" where
  "init_rb_czmq_context A =
     \<lparr>singletons = [(''new'', Method_argv (\<lambda>argv _. rb_czmq_ctx_s_new A argv))],
      alloc_func = None,
      methods =
        [(''destroy'', Method0 (rb_czmq_ctx_destroy A)),
         (''iothreads='', Method1 (rb_czmq_ctx_set_iothreads A)),
         (''linger='', Method1 (rb_czmq_ctx_set_linger A)),
         (''socket'', Method1 (rb_czmq_ctx_socket A))]\<rparr>"

definition init_rb_czmq_socket :: "'w czmq \<Rightarrow> 'w rb_class" where
  "init_rb_czmq_socket A =
     \<lparr>singletons = [],
      alloc_func = None,
      methods =
        [(''close'', Method0 (rb_czmq_socket_close A)),
         (''endpoints'', Method0 rb_czmq_socket_endpoints),
         (''state'', Method0 rb_czmq_socket_state),
         (''real_bind'', Method1 (rb_czmq_socket_bind A)),
         (''real_connect'', Method1 (rb_czmq_socket_connect A)),
         (''disconnect'', Method1 (rb_czmq_socket_disconnect A)),
         (''unbind'', Method1 (rb_czmq_socket_unbind A)),
         (''fd'', Method0 (rb_czmq_socket_fd A)),
         (''to_i'', Method0 (rb_czmq_socket_fd A)),
         (''verbose='', Method1 rb_czmq_socket_set_verbose),
         (''send'', Method1 (rb_czmq_socket_send A)),
         (''sendm'', Method1 (rb_czmq_socket_sendm A)),
         (''send_frame'', Method_argv (rb_czmq_socket_send_frame A)),
         (''send_message'', Method1 (rb_czmq_socket_send_message A)),
         (''recv'', Method0 (rb_czmq_socket_recv A)),
         (''recv_nonblock'', Method0 (rb_czmq_socket_recv_nonblock A)),
         (''recv_frame'', Method0 (rb_czmq_socket_recv_frame A)),
         (''recv_frame_nonblock'', Method0 (rb_czmq_socket_recv_frame_nonblock A)),
         (''recv_message'', Method0 (rb_czmq_socket_recv_message A)),
         (''poll'', Method1 (rb_czmq_socket_poll A)),
         (''sndhwm'', Method0 (rb_czmq_socket_opt_sndhwm A)),
         (''sndhwm='', Method1 (rb_czmq_socket_set_opt_sndhwm A)),
         (''rcvhwm'', Method0 (rb_czmq_socket_opt_rcvhwm A)),
         (''rcvhwm='', Method1 (rb_czmq_socket_set_opt_rcvhwm A)),
         (''affinity'', Method0 (rb_czmq_socket_opt_affinity A)),
         (''affinity='', Method1 (rb_czmq_socket_set_opt_affinity A)),
         (''rate'', Method0 (rb_czmq_socket_opt_rate A)),
         (''rate='', Method1 (rb_czmq_socket_set_opt_rate A)),
         (''recovery_ivl'', Method0 (rb_czmq_socket_opt_recovery_ivl A)),
         (''recovery_ivl='', Method1 (rb_czmq_socket_set_opt_recovery_ivl A)),
         (''maxmsgsize'', Method0 (rb_czmq_socket_opt_maxmsgsize A)),
         (''maxmsgsize='', Method1 (rb_czmq_socket_set_opt_maxmsgsize A)),
         (''multicast_hops'', Method0 (rb_czmq_socket_opt_multicast_hops A)),
         (''multicast_hops='', Method1 (rb_czmq_socket_set_opt_multicast_hops A)),
         (''ipv4only?'', Method0 (rb_czmq_socket_opt_ipv4only A)),
         (''ipv4only='', Method1 (rb_czmq_socket_set_opt_ipv4only A)),
         (''delay_attach_on_connect='', Method1 (rb_czmq_socket_set_opt_delay_attach_on_connect A)),
         (''router_mandatory='', Method1 (rb_czmq_socket_set_opt_router_mandatory A)),
         (''router_raw='', Method1 (rb_czmq_socket_set_opt_router_raw A)),
         (''xpub_verbose='', Method1 (rb_czmq_socket_set_opt_xpub_verbose A)),
         (''sndbuf'', Method0 (rb_czmq_socket_opt_sndbuf A)),
         (''sndbuf='', Method1 (rb_czmq_socket_set_opt_sndbuf A)),
         (''rcvbuf'', Method0 (rb_czmq_socket_opt_rcvbuf A)),
         (''rcvbuf='', Method1 (rb_czmq_socket_set_opt_rcvbuf A)),
         (''linger'', Method0 rb_czmq_socket_opt_linger),
         (''linger='', Method1 (rb_czmq_socket_set_opt_linger A)),
         (''backlog'', Method0 (rb_czmq_socket_opt_backlog A)),
         (''backlog='', Method1 (rb_czmq_socket_set_opt_backlog A)),
         (''reconnect_ivl'', Method0 (rb_czmq_socket_opt_reconnect_ivl A)),
         (''reconnect_ivl='', Method1 (rb_czmq_socket_set_opt_reconnect_ivl A)),
         (''reconnect_ivl_max'', Method0 (rb_czmq_socket_opt_reconnect_ivl_max A)),
         (''reconnect_ivl_max='', Method1 (rb_czmq_socket_set_opt_reconnect_ivl_max A)),
         (''identity='', Method1 (rb_czmq_socket_set_opt_identity A)),
         (''subscribe'', Method1 (rb_czmq_socket_set_opt_subscribe A)),
         (''unsubscribe'', Method1 (rb_czmq_socket_set_opt_unsubscribe A)),
         (''rcvmore?'', Method0 (rb_czmq_socket_opt_rcvmore A)),
         (''events'', Method0 (rb_czmq_socket_opt_events A)),
         (''rcvtimeo'', Method0 (rb_czmq_socket_opt_rcvtimeo A)),
         (''rcvtimeo='', Method1 (rb_czmq_socket_set_opt_rcvtimeo A)),
         (''sndtimeo'', Method0 (rb_czmq_socket_opt_sndtimeo A)),
         (''sndtimeo='', Method1 (rb_czmq_socket_set_opt_sndtimeo A)),
         (''monitor'', Method_argv (rb_czmq_socket_monitor A)),
         (''last_endpoint'', Method0 (rb_czmq_socket_opt_last_endpoint A))]\<rparr>"

definition init_rb_czmq_frame :: "'w czmq \<Rightarrow> 'w rb_class" where
  "init_rb_czmq_frame A =
     \<lparr>singletons = [(''new'', Method_argv (\<lambda>argv _. rb_czmq_frame_s_new A argv))],
      alloc_func = None,
      methods =
        [(''destroy'', Method0 (rb_czmq_frame_destroy A)),
         (''size'', Method0 (rb_czmq_frame_size A)),
         (''dup'', Method0 (rb_czmq_frame_dup A)),
         (''data'', Method0 (rb_czmq_frame_data A)),
         (''to_s'', Method0 (rb_czmq_frame_to_s A)),
         (''to_str'', Method0 (rb_czmq_frame_to_s A)),
         (''strhex'', Method0 (rb_czmq_frame_strhex A)),
         (''data_equals?'', Method1 (rb_czmq_frame_data_equals_p A)),
         (''more?'', Method0 (rb_czmq_frame_more_p A)),
         (''eql?'', Method1 (rb_czmq_frame_eql_p A)),
         (''=='', Method1 (rb_czmq_frame_equals A)),
         (''<=>'', Method1 (rb_czmq_frame_cmp A)),
         (''print'', Method_argv (rb_czmq_frame_print A)),
         (''dump'', Method_argv (rb_czmq_frame_print A)),
         (''reset'', Method1 (rb_czmq_frame_reset A)),
         (''gone?'', Method0 rb_czmq_frame_gone)]\<rparr>"

definition init_rb_czmq_message :: "'w czmq \<Rightarrow> 'w rb_class" where
  "init_rb_czmq_message A =
     \<lparr>singletons = [(''decode'', Method1 (\<lambda>_. rb_czmq_message_s_decode A))],
      alloc_func = Some (rb_czmq_message_new A),
      methods =
        [(''size'', Method0 (rb_czmq_message_size A)),
         (''content_size'', Method0 (rb_czmq_message_content_size A)),
         (''push'', Method1 (rb_czmq_message_push A)),
         (''pop'', Method0 (rb_czmq_message_pop A)),
         (''add'', Method1 (rb_czmq_message_add A)),
         (''wrap'', Method1 (rb_czmq_message_wrap A)),
         (''unwrap'', Method0 (rb_czmq_message_unwrap A)),
         (''print'', Method0 (rb_czmq_message_print A)),
         (''first'', Method0 (rb_czmq_message_first A)),
         (''next'', Method0 (rb_czmq_message_next A)),
         (''last'', Method0 (rb_czmq_message_last A)),
         (''remove'', Method1 (rb_czmq_message_remove A)),
         (''pushstr'', Method1 (rb_czmq_message_pushstr A)),
         (''popstr'', Method0 (rb_czmq_message_popstr A)),
         (''addstr'', Method1 (rb_czmq_message_addstr A)),
         (''dup'', Method0 (rb_czmq_message_dup A)),
         (''destroy'', Method0 (rb_czmq_message_destroy A)),
         (''encode'', Method0 (rb_czmq_message_encode A)),
         (''eql?'', Method1 (rb_czmq_message_equals A)),
         (''=='', Method1 (rb_czmq_message_equals A)),
         (''to_a'', Method0 (rb_czmq_message_to_a A)),
         (''gone?'', Method0 rb_czmq_message_gone)]\<rparr>"

definition init_rb_czmq_timer :: "'w rb_funcall \<Rightarrow> rvalue \<Rightarrow> 'w rb_class" where
  "init_rb_czmq_timer f block =
     \<lparr>singletons = [(''new'', Method_argv (\<lambda>argv _. rb_czmq_timer_s_new argv block))],
      alloc_func = None,
      methods =
        [(''fire'', Method_args (rb_czmq_timer_fire f)),
         (''call'', Method_args (rb_czmq_timer_fire f)),
         (''cancel'', Method0 rb_czmq_timer_cancel)]\<rparr>"

definition init_rb_czmq_pollitem :: "'w czmq \<Rightarrow> 'w rb_funcall \<Rightarrow> (rvalue \<Rightarrow> string \<Rightarrow> bool) \<Rightarrow> 'w rb_class" where
  "init_rb_czmq_pollitem A f responds =
     \<lparr>singletons = [(''new'', Method_argv (\<lambda>argv _. rb_czmq_pollitem_s_new A f argv)),
                    (''coerce'', Method1 (\<lambda>_. rb_czmq_pollitem_s_coerce A f))],
      alloc_func = None,
      methods =
        [(''pollable'', Method0 rb_czmq_pollitem_pollable),
         (''events'', Method0 rb_czmq_pollitem_events),
         (''handler'', Method0 rb_czmq_pollitem_handler),
         (''handler='', Method1 (rb_czmq_pollitem_handler_equals responds)),
         (''verbose='', Method1 rb_czmq_pollitem_set_verbose)]\<rparr>"

definition init_rb_czmq_poller :: "'w czmq \<Rightarrow> 'w rb_funcall \<Rightarrow> 'w rb_class" where
  "init_rb_czmq_poller A f =
     \<lparr>singletons = [],
      alloc_func = Some (rb_czmq_poller_new),
      methods =
        [(''poll'', Method_argv (rb_czmq_poller_poll A)),
         (''register'', Method1 (rb_czmq_poller_register A f)),
         (''remove'', Method1 (rb_czmq_poller_remove A f)),
         (''readables'', Method0 rb_czmq_poller_readables),
         (''writables'', Method0 rb_czmq_poller_writables),
         (''verbose='', Method1 rb_czmq_poller_set_verbose)]\<rparr>"

definition init_rb_czmq_loop :: "'w zloop_start \<Rightarrow> 'w czmq \<Rightarrow> 'w rb_funcall \<Rightarrow> 'w rb_class" where
  "init_rb_czmq_loop start A f =
     \<lparr>singletons = [],
      alloc_func = Some (rb_czmq_loop_new A),
      methods =
        [(''start'', Method0 (rb_czmq_loop_start start A f)),
         (''stop'', Method0 (rb_czmq_loop_stop A)),
         (''running?'', Method0 rb_czmq_loop_running_p),
         (''destroy'', Method0 (rb_czmq_loop_destroy A)),
         (''verbose='', Method1 (rb_czmq_loop_set_verbose A)),
         (''register'', Method1 (rb_czmq_loop_register A f)),
         (''remove'', Method1 (rb_czmq_loop_remove A f)),
         (''register_timer'', Method1 (rb_czmq_loop_register_timer A)),
         (''cancel_timer'', Method1 (rb_czmq_loop_cancel_timer A))]\<rparr>"

definition init_rb_czmq_beacon :: "'w czmq \<Rightarrow> 'w rb_class" where
  "init_rb_czmq_beacon A =
     \<lparr>singletons = [(''new'', Method1 (\<lambda>_. rb_czmq_beacon_s_new A))],
      alloc_func = None,
      methods =
        [(''destroy'', Method0 (rb_czmq_beacon_destroy A)),
         (''hostname'', Method0 (rb_czmq_beacon_hostname A)),
         (''interval='', Method1 (rb_czmq_beacon_set_interval A)),
         (''noecho'', Method0 (rb_czmq_beacon_noecho A)),
         (''publish'', Method1 (rb_czmq_beacon_publish A)),
         (''silence'', Method0 (rb_czmq_beacon_silence A)),
         (''subscribe'', Method1 (rb_czmq_beacon_subscribe A)),
         (''unsubscribe'', Method0 (rb_czmq_beacon_unsubscribe A)),
         (''pipe'', Method0 (rb_czmq_beacon_pipe A))]\<rparr>"

text \<open>The functions of the module \<^verbatim>\<open>ZMQ\<close>; the receiver is the module.\<close>

definition init_rb_czmq_module :: "'w czmq \<Rightarrow> (string \<times> 'w rb_method) list" where
  "init_rb_czmq_module A =
     [(''interrupted?'', Method0 (\<lambda>_. rb_czmq_m_interrupted_p A)),
      (''version'', Method0 (\<lambda>_. rb_czmq_m_version A)),
      (''czmq_version'', Method0 (\<lambda>_. rb_czmq_m_czmq_version A)),
      (''now'', Method0 (\<lambda>_. rb_czmq_m_now A)),
      (''log'', Method1 (\<lambda>_. rb_czmq_m_log)),
      (''error'', Method0 (\<lambda>_. rb_czmq_m_error A)),
      (''errno'', Method0 (\<lambda>_. rb_czmq_m_errno A)),
      (''interrupted!'', Method0 (\<lambda>_. rb_czmq_m_interrupted_bang A)),
      (''proxy'', Method_argv (\<lambda>argv _. rb_czmq_m_proxy A argv))]"

section \<open>Calls\<close>

definition rb_method_call :: "'w rb_method \<Rightarrow> rvalue list \<Rightarrow> rvalue \<Rightarrow> ('w, rvalue) vcmd" where
  "rb_method_call m argv obj =
     (case m of
        Method0 g \<Rightarrow> check (argv = []) (ArgError ''wrong number of arguments'') (g obj)
      | Method1 g \<Rightarrow> (case argv of [v] \<Rightarrow> g obj v | _ \<Rightarrow> raise (ArgError ''wrong number of arguments''))
      | Method_argv g \<Rightarrow> g argv obj
      | Method_args g \<Rightarrow> g obj argv)"

text \<open>What the methods get from the Ruby VM: its functions, and the block of the call.\<close>

record 'w ruby =
  rb_start :: "'w zloop_start"
  rb_call :: "'w rb_funcall"
  rb_responds :: "rvalue \<Rightarrow> string \<Rightarrow> bool"
  rb_block :: rvalue

text \<open>
  The methods a class defines, and the class it is under: the classes of the types of sockets define
  none and inherit those of \<^verbatim>\<open>ZMQ::Socket\<close>, of which there are no objects.
\<close>

definition own_methods :: "'w ruby \<Rightarrow> 'w czmq \<Rightarrow> klass \<Rightarrow> (string \<times> 'w rb_method) list" where
  "own_methods R A c =
     (case c of
          rb_cZmqContext \<Rightarrow> methods (init_rb_czmq_context A)
        | rb_cZmqFrame \<Rightarrow> methods (init_rb_czmq_frame A)
        | rb_cZmqMessage \<Rightarrow> methods (init_rb_czmq_message A)
        | rb_cZmqTimer \<Rightarrow> methods (init_rb_czmq_timer (rb_call R) (rb_block R))
        | rb_cZmqPollitem \<Rightarrow> methods (init_rb_czmq_pollitem A (rb_call R) (rb_responds R))
        | rb_cZmqPoller \<Rightarrow> methods (init_rb_czmq_poller A (rb_call R))
        | rb_cZmqLoop \<Rightarrow> methods (init_rb_czmq_loop (rb_start R) A (rb_call R))
        | rb_cZmqBeacon \<Rightarrow> methods (init_rb_czmq_beacon A)
        | _ \<Rightarrow> [])"

fun superclass :: "klass \<Rightarrow> string" where
  "superclass rb_cZmqPubSocket = ''ZMQ::Socket''"
| "superclass rb_cZmqSubSocket = ''ZMQ::Socket''"
| "superclass rb_cZmqPushSocket = ''ZMQ::Socket''"
| "superclass rb_cZmqPullSocket = ''ZMQ::Socket''"
| "superclass rb_cZmqRouterSocket = ''ZMQ::Socket''"
| "superclass rb_cZmqDealerSocket = ''ZMQ::Socket''"
| "superclass rb_cZmqRepSocket = ''ZMQ::Socket''"
| "superclass rb_cZmqReqSocket = ''ZMQ::Socket''"
| "superclass rb_cZmqPairSocket = ''ZMQ::Socket''"
| "superclass rb_cZmqXPubSocket = ''ZMQ::Socket''"
| "superclass rb_cZmqXSubSocket = ''ZMQ::Socket''"
| "superclass rb_cZmqStreamSocket = ''ZMQ::Socket''"
| "superclass c = ''Object''"

definition methods_of :: "'w ruby \<Rightarrow> 'w czmq \<Rightarrow> klass \<Rightarrow> (string \<times> 'w rb_method) list" where
  "methods_of R A c =
     own_methods R A c @ (if superclass c = ''ZMQ::Socket'' then methods (init_rb_czmq_socket A) else [])"

text \<open>
  \<^verbatim>\<open>obj.name(*argv)\<close>, for an object of the extension by itself. A name that is in no table of its class has
  no function here. The methods that the Ruby files under \<^verbatim>\<open>lib/\<close> or a program add to these classes,
  and those every Ruby object has, are not part of the tables; the properties about calls by name are about the names
  in them.
\<close>

definition rb_send :: "'w ruby \<Rightarrow> 'w czmq \<Rightarrow> rvalue \<Rightarrow> string \<Rightarrow> rvalue list \<Rightarrow> ('w, rvalue) vcmd" where
  "rb_send R A obj name argv =
     (case obj of
        Object c p \<Rightarrow>
          (case map_of (methods_of R A c) name of
             Some m \<Rightarrow> rb_method_call m argv obj
           | None \<Rightarrow> raise (NameError name))
      | _ \<Rightarrow> raise (NameError name))"

text \<open>The macros take an object for a socket by its class: it is below \<^verbatim>\<open>ZMQ::Socket\<close>.\<close>

lemma socket_klass_superclass: "socket_klass c \<longleftrightarrow> superclass c = ''ZMQ::Socket''"
  by (cases c) (simp_all add: socket_klass.simps)

lemma methods_of_klass:
  "socket_klass c \<Longrightarrow> methods_of R A c = methods (init_rb_czmq_socket A)"
  "methods_of R A rb_cZmqContext = methods (init_rb_czmq_context A)"
  "methods_of R A rb_cZmqFrame = methods (init_rb_czmq_frame A)"
  "methods_of R A rb_cZmqMessage = methods (init_rb_czmq_message A)"
  "methods_of R A rb_cZmqLoop = methods (init_rb_czmq_loop (rb_start R) A (rb_call R))"
  unfolding socket_klass_superclass by (cases c) (simp_all add: methods_of_def own_methods_def)

text \<open>The constants of \<^verbatim>\<open>ZMQ::Socket\<close>; what \<^verbatim>\<open>state\<close> returns is one of them.\<close>

definition socket_states :: "(string \<times> rvalue) list" where
  "socket_states =
     [(''PENDING'', INT2NUM (uint ZMQ_SOCKET_PENDING)), (''BOUND'', INT2NUM (uint ZMQ_SOCKET_BOUND)),
      (''CONNECTED'', INT2NUM (uint ZMQ_SOCKET_CONNECTED)), (''DISCONNECTED'', INT2NUM (uint ZMQ_SOCKET_DISCONNECTED))]"

lemma state_constant:
  assumes "socket_klass c" and "q \<noteq> NULL" and "socks s q = Some w" and "\<not> has (s_flags w) ZMQ_SOCKET_DESTROYED"
    and "s_state w \<in> {ZMQ_SOCKET_PENDING, ZMQ_SOCKET_BOUND, ZMQ_SOCKET_CONNECTED, ZMQ_SOCKET_DISCONNECTED}"
  shows "\<exists>v. rb_czmq_socket_state (Object c q) s = Return v s \<and> v \<in> snd ` set socket_states"
  using assms
  by (auto simp: rb_czmq_socket_state_def GetZmqSocket_def fetch_def socket_states_def ZMQ_SOCKET_PENDING_def
      ZMQ_SOCKET_BOUND_def ZMQ_SOCKET_CONNECTED_def ZMQ_SOCKET_DISCONNECTED_def simp del: socket_klass.simps)

end
