(* ===== verification/Zmq_Method_Theorems.thy ===== *)
theory Zmq_Method_Theorems
  imports Zmq_Methods Zmq_Sample
begin

text \<open>
  Use after close, over the complete tables of methods: every method of a context, a socket or a loop
  that was destroyed refuses.
\<close>

declare socket_klass.simps [simp del]

text \<open>An object that was destroyed, by the program or by the context that owned it.\<close>

definition destroyed :: "'w vm \<Rightarrow> rvalue \<Rightarrow> bool" where
  "destroyed s obj \<longleftrightarrow>
     (\<exists>c p. obj = Object c p \<and> p \<noteq> NULL \<and>
        (socket_klass c \<and> (\<exists>w. socks s p = Some w \<and> has (s_flags w) ZMQ_SOCKET_DESTROYED) \<or>
         c = rb_cZmqContext \<and> (\<exists>x. ctxs s p = Some x \<and> has (c_flags x) ZMQ_CONTEXT_DESTROYED) \<or>
         c = rb_cZmqLoop \<and> (\<exists>l. loops s p = Some l \<and> has (l_flags l) ZMQ_LOOP_DESTROYED)))"

text \<open>The call raises and changes nothing, except that errno may have been reset.\<close>

definition refuses :: "'w czmq \<Rightarrow> ('w, rvalue) vcmd \<Rightarrow> 'w vm \<Rightarrow> bool" where
  "refuses A m s \<longleftrightarrow> (\<exists>e. m s = Raise e s \<or> m s = Raise e (s\<lparr>lib := set_errno A 0 (lib s)\<rparr>))"

fun method_refuses :: "'w czmq \<Rightarrow> 'w vm \<Rightarrow> rvalue \<Rightarrow> 'w rb_method \<Rightarrow> bool" where
  "method_refuses A s obj (Method0 g) \<longleftrightarrow> refuses A (g obj) s"
| "method_refuses A s obj (Method1 g) \<longleftrightarrow> (\<forall>v. refuses A (g obj v) s)"
| "method_refuses A s obj (Method_argv g) \<longleftrightarrow> (\<forall>argv. refuses A (g argv obj) s)"
| "method_refuses A s obj (Method_args g) \<longleftrightarrow> (\<forall>argv. refuses A (g obj argv) s)"

named_theorems refuse_rules \<open>commands that begin with a guard\<close>

lemma refuses_raise [refuse_rules]: "refuses A (raise e) s"
  by (auto simp: refuses_def)

lemma refuses_check: "\<not> b \<or> refuses A k s \<Longrightarrow> refuses A (check b e k) s"
  by (auto simp: refuses_def)

lemma refuses_call:
  assumes "method_refuses A s obj m"
  shows "refuses A (rb_method_call m argv obj) s"
  using assms
  by (cases m) (auto simp: rb_method_call_def split: list.split intro: refuses_raise refuses_check)

text \<open>The three guards, at the start of a function or after errno was reset.\<close>

lemma closed_socket:
  assumes "socket_klass c" "p \<noteq> NULL" "socks s p = Some w" "has (s_flags w) ZMQ_SOCKET_DESTROYED"
  shows "refuses A (GetZmqSocket (Object c p) k) s" "refuses A (tell (set_errno A 0) (GetZmqSocket (Object c p) k)) s"
  using assms by (auto simp: refuses_def GetZmqSocket_def fetch_def)

lemma closed_context:
  assumes "p \<noteq> NULL" "ctxs s p = Some x" "has (c_flags x) ZMQ_CONTEXT_DESTROYED"
  shows "refuses A (ZmqGetContext (Context p) k) s" "refuses A (tell (set_errno A 0) (ZmqGetContext (Context p) k)) s"
  using assms by (auto simp: refuses_def ZmqGetContext_def fetch_def)

lemma closed_loop:
  assumes "p \<noteq> NULL" "loops s p = Some l" "has (l_flags l) ZMQ_LOOP_DESTROYED"
  shows "refuses A (ZmqGetLoop (Object rb_cZmqLoop p) k) s" "refuses A (tell (set_errno A 0) (ZmqGetLoop (Object rb_cZmqLoop p) k)) s"
  using assms by (auto simp: refuses_def ZmqGetLoop_def fetch_def)

lemma closed_context_methods:
  assumes "p \<noteq> NULL" "ctxs s p = Some x" "has (c_flags x) ZMQ_CONTEXT_DESTROYED"
  shows "list_all (\<lambda>(n, m). method_refuses A s (Context p) m) (methods (init_rb_czmq_context A))"
  by (simp add: init_rb_czmq_context_def rb_czmq_ctx_destroy_def rb_czmq_ctx_set_iothreads_def rb_czmq_ctx_set_linger_def
      rb_czmq_ctx_socket_def closed_context [OF assms])

lemma closed_loop_methods:
  assumes "p \<noteq> NULL" "loops s p = Some l" "has (l_flags l) ZMQ_LOOP_DESTROYED"
  shows "list_all (\<lambda>(n, m). method_refuses A s (Object rb_cZmqLoop p) m) (methods (init_rb_czmq_loop start A f))"
  by (simp add: init_rb_czmq_loop_def rb_czmq_loop_start_def rb_czmq_loop_stop_def rb_czmq_loop_running_p_def
      rb_czmq_loop_destroy_def rb_czmq_loop_set_verbose_def rb_czmq_loop_register_def rb_czmq_loop_remove_def
      rb_czmq_loop_register_timer_def rb_czmq_loop_cancel_timer_def closed_loop [OF assms])

lemmas socket_method_defs =
  rb_czmq_socket_close_def rb_czmq_socket_endpoints_def rb_czmq_socket_state_def rb_czmq_socket_bind_def
  rb_czmq_socket_connect_def rb_czmq_socket_disconnect_def rb_czmq_socket_unbind_def rb_czmq_socket_fd_def
  rb_czmq_socket_set_verbose_def rb_czmq_socket_send_def rb_czmq_socket_sendm_def rb_czmq_socket_send_frame_def
  rb_czmq_socket_send_message_def rb_czmq_socket_recv_def rb_czmq_socket_recv_nonblock_def
  rb_czmq_socket_recv_frame_def rb_czmq_socket_recv_frame_nonblock_def rb_czmq_socket_recv_message_def
  rb_czmq_socket_poll_def rb_czmq_socket_monitor_def

lemmas option_method_defs =
  rb_czmq_socket_opt_sndhwm_def rb_czmq_socket_set_opt_sndhwm_def rb_czmq_socket_opt_rcvhwm_def
  rb_czmq_socket_set_opt_rcvhwm_def rb_czmq_socket_opt_affinity_def rb_czmq_socket_set_opt_affinity_def
  rb_czmq_socket_opt_rate_def rb_czmq_socket_set_opt_rate_def rb_czmq_socket_opt_recovery_ivl_def
  rb_czmq_socket_set_opt_recovery_ivl_def rb_czmq_socket_opt_maxmsgsize_def rb_czmq_socket_set_opt_maxmsgsize_def
  rb_czmq_socket_opt_multicast_hops_def rb_czmq_socket_set_opt_multicast_hops_def rb_czmq_socket_opt_ipv4only_def
  rb_czmq_socket_set_opt_ipv4only_def rb_czmq_socket_set_opt_delay_attach_on_connect_def
  rb_czmq_socket_set_opt_router_mandatory_def rb_czmq_socket_set_opt_router_raw_def
  rb_czmq_socket_set_opt_xpub_verbose_def rb_czmq_socket_opt_sndbuf_def rb_czmq_socket_set_opt_sndbuf_def
  rb_czmq_socket_opt_rcvbuf_def rb_czmq_socket_set_opt_rcvbuf_def rb_czmq_socket_opt_linger_def
  rb_czmq_socket_set_opt_linger_def rb_czmq_socket_opt_backlog_def rb_czmq_socket_set_opt_backlog_def
  rb_czmq_socket_opt_reconnect_ivl_def rb_czmq_socket_set_opt_reconnect_ivl_def
  rb_czmq_socket_opt_reconnect_ivl_max_def rb_czmq_socket_set_opt_reconnect_ivl_max_def
  rb_czmq_socket_set_opt_identity_def rb_czmq_socket_set_opt_subscribe_def rb_czmq_socket_set_opt_unsubscribe_def
  rb_czmq_socket_opt_rcvmore_def rb_czmq_socket_opt_events_def rb_czmq_socket_opt_rcvtimeo_def
  rb_czmq_socket_set_opt_rcvtimeo_def rb_czmq_socket_opt_sndtimeo_def rb_czmq_socket_set_opt_sndtimeo_def
  rb_czmq_socket_opt_last_endpoint_def

lemma closed_socket_methods:
  assumes "socket_klass c" "p \<noteq> NULL" "socks s p = Some w" "has (s_flags w) ZMQ_SOCKET_DESTROYED"
  shows "list_all (\<lambda>(n, m). method_refuses A s (Object c p) m) (methods (init_rb_czmq_socket A))"
  by (simp add: init_rb_czmq_socket_def socket_method_defs option_method_defs ZmqSetSockOpt_def ZmqSetStringSockOpt_def
      ZmqSetBooleanSockOpt_def get_sock_opt_def closed_socket [OF assms])

lemma table_refuses:
  assumes "list_all (\<lambda>(n, m). method_refuses A s obj m) table" and "map_of table name = Some m"
  shows "refuses A (rb_method_call m argv obj) s"
  using assms by (auto intro!: refuses_call simp: list_all_iff dest: map_of_SomeD)

section \<open>Properties\<close>

text \<open>
  C14: after a context, a socket or a loop was destroyed, every method of its class refuses. Whatever
  method is called on the object, with whatever arguments, and whatever the libraries and the Ruby VM
  do, the call raises; no struct, array or object of the libraries is touched, only errno may be reset.
\<close>

theorem destroyed_refuses:
  assumes "destroyed s obj"
  shows "\<exists>e t. rb_send R A obj name argv s = Raise e t \<and> (t = s \<or> t = s\<lparr>lib := set_errno A 0 (lib s)\<rparr>)"
proof -
  obtain c p where obj: "obj = Object c p" "p \<noteq> NULL" using assms unfolding destroyed_def by blast
  have table: "list_all (\<lambda>(n, m). method_refuses A s obj m) (methods_of R A c)"
    using assms closed_socket_methods closed_context_methods closed_loop_methods
    unfolding obj(1) destroyed_def by (auto simp: methods_of_klass)
  have "refuses A (rb_send R A obj name argv) s"
  proof (cases "map_of (methods_of R A c) name")
    case None
    then show ?thesis by (auto simp: refuses_def rb_send_def obj(1))
  next
    case (Some m)
    then show ?thesis using table_refuses [OF table Some, of argv] by (simp add: rb_send_def obj(1))
  qed
  then show ?thesis unfolding refuses_def by blast
qed

theorem destroyed_refuses_witness:
  "\<exists>e t. rb_send \<lparr>rb_start = \<lambda>l run s. Return 0 s, rb_call = \<lambda>v m xs s. Return Qnil s, rb_responds = \<lambda>v m. True, rb_block = Qnil\<rparr>
     ref (Object rb_cZmqSubSocket 2) ''sndhwm='' [Fixnum 1000]
     (vm0\<lparr>socks := [2 \<mapsto> (sample_sock ZMQ_SOCKET_BOUND False)\<lparr>s_flags := ZMQ_SOCKET_DESTROYED\<rparr>]\<rparr>) = Raise e t"
proof -
  have "destroyed (vm0\<lparr>socks := [2 \<mapsto> (sample_sock ZMQ_SOCKET_BOUND False)\<lparr>s_flags := ZMQ_SOCKET_DESTROYED\<rparr>]\<rparr>)
      (Object rb_cZmqSubSocket 2)"
    by (simp add: destroyed_def socket_klass.simps ZMQ_SOCKET_DESTROYED_def has_def)
  from destroyed_refuses [OF this] show ?thesis by blast
qed

end
