(* ===== verification/Zmq_Footprint.thy ===== *)
theory Zmq_Footprint
  imports Zmq_Socket Zmq_Hoare Zmq_Docs
begin

text \<open>
  What a command leaves alone. \<open>keeps K m\<close> says that \<open>m\<close>, started where \<open>K\<close> holds, ends where \<open>K\<close> holds
  if it ends without a fault; that it does is shown elsewhere, so a footprint is a partial
  correctness statement and needs no invariant of the component. The rules take a function body apart
  along its combinators.
\<close>

definition wlp ::
  "('s, 'a) cmd \<Rightarrow> ('a \<Rightarrow> 's \<Rightarrow> bool) \<Rightarrow> (exn \<Rightarrow> 's \<Rightarrow> bool) \<Rightarrow> 's \<Rightarrow> bool" where
  "wlp m Q E s = (case m s of Return v s' \<Rightarrow> Q v s' | Raise e s' \<Rightarrow> E e s' | Crash f \<Rightarrow> True)"

definition keeps :: "('s \<Rightarrow> bool) \<Rightarrow> ('s, 'a) cmd \<Rightarrow> bool" where
  "keeps K m \<longleftrightarrow> (\<forall>s. K s \<longrightarrow> wlp m (\<lambda>_. K) (\<lambda>_. K) s)"

named_theorems wlp_simps \<open>weakest liberal preconditions of the combinators\<close>
named_theorems keeps_intros \<open>footprints of the combinators\<close>

lemma keepsI: "(\<And>s. K s \<Longrightarrow> wlp m (\<lambda>_. K) (\<lambda>_. K) s) \<Longrightarrow> keeps K m"
  by (simp add: keeps_def)

lemma keepsD: "keeps K m \<Longrightarrow> K s \<Longrightarrow> wlp m (\<lambda>_. K) (\<lambda>_. K) s"
  by (simp add: keeps_def)

lemma keeps_final: "keeps K m \<Longrightarrow> K s \<Longrightarrow> final_state (m s) = Some t \<Longrightarrow> K t"
  using keepsD [of K m s] by (cases "m s") (simp_all add: wlp_def)

section \<open>The combinators\<close>

lemma wlp_basic [wlp_simps]:
  "wlp (ret v) Q E s = Q v s" "wlp (raise e) Q E s = E e s" "wlp (crash f) Q E s"
  "wlp (rd g k) Q E s = wlp (k (g s)) Q E s" "wlp (wr h j) Q E s = wlp j Q E (h s)"
  "wlp (check b e j) Q E s = (if b then wlp j Q E s else E e s)"
  "wlp (require b f j) Q E s = (b \<longrightarrow> wlp j Q E s)"
  by (simp_all add: wlp_def)

lemma wlp_call [wlp_simps]: "wlp (call m k) Q E s = wlp m (\<lambda>v. wlp (k v) Q E) E s"
  by (simp add: wlp_def call_def split: outcome.split)

lemma wlp_deref [wlp_simps]: "wlp (deref h p k) Q E s \<longleftrightarrow> (\<forall>r. h s p = Some r \<longrightarrow> wlp (k r) Q E s)"
  by (simp add: wlp_def deref_def split: option.split)

lemma wlp_lib [wlp_simps]:
  "wlp (ask f k) Q E s = wlp (k (f (lib s))) Q E s"
  "wlp (tell g j) Q E s = wlp j Q E (s\<lparr>lib := g (lib s)\<rparr>)"
  "wlp (invoke i k') Q E s = wlp (k' (fst (i (lib s)))) Q E (s\<lparr>lib := snd (i (lib s))\<rparr>)"
  by (simp_all add: wlp_def invoke_def split: prod.split)

lemma wlp_make_struct [wlp_simps]:
  "wlp (make_struct put k) Q E s = wlp (k (fresh s)) Q E (put (fresh s) s\<lparr>fresh := Suc (fresh s)\<rparr>)"
  by (simp add: wlp_def)

lemma wlp_set [wlp_simps]:
  "wlp (set_frame p g1 k) Q E s \<longleftrightarrow> (\<forall>r. frames s p = Some r \<longrightarrow> wlp k Q E (s\<lparr>frames := (frames s)(p \<mapsto> g1 r)\<rparr>))"
  "wlp (set_msg p g2 k) Q E s \<longleftrightarrow> (\<forall>r. msgs s p = Some r \<longrightarrow> wlp k Q E (s\<lparr>msgs := (msgs s)(p \<mapsto> g2 r)\<rparr>))"
  "wlp (set_sock p g3 k) Q E s \<longleftrightarrow> (\<forall>r. socks s p = Some r \<longrightarrow> wlp k Q E (s\<lparr>socks := (socks s)(p \<mapsto> g3 r)\<rparr>))"
  "wlp (set_ctx p g4 k) Q E s \<longleftrightarrow> (\<forall>r. ctxs s p = Some r \<longrightarrow> wlp k Q E (s\<lparr>ctxs := (ctxs s)(p \<mapsto> g4 r)\<rparr>))"
  by (simp_all add: set_frame_def set_msg_def set_sock_def set_ctx_def wlp_simps)

text \<open>An object of the library that is allocated.\<close>

definition alive :: "('w czmq \<Rightarrow> 'w \<Rightarrow> ptr \<rightharpoonup> 'b) \<Rightarrow> 'w czmq \<Rightarrow> ptr \<Rightarrow> 'w \<Rightarrow> bool" where
  "alive h A p w \<longleftrightarrow> h A w p \<noteq> None"

abbreviation live_zframe :: "'w czmq \<Rightarrow> ptr \<Rightarrow> 'w \<Rightarrow> bool" where "live_zframe \<equiv> alive (\<lambda>A w. zframes (view A w))"
abbreviation live_zmsg :: "'w czmq \<Rightarrow> ptr \<Rightarrow> 'w \<Rightarrow> bool" where "live_zmsg \<equiv> alive (\<lambda>A w. zmsgs (view A w))"
abbreviation live_zlist :: "'w czmq \<Rightarrow> ptr \<Rightarrow> 'w \<Rightarrow> bool" where "live_zlist \<equiv> alive (\<lambda>A w. zlists (view A w))"
abbreviation live_zsock :: "'w czmq \<Rightarrow> ptr \<Rightarrow> 'w \<Rightarrow> bool" where "live_zsock \<equiv> alive (\<lambda>A w. zsocks (view A w))"
abbreviation live_zctx :: "'w czmq \<Rightarrow> ptr \<Rightarrow> 'w \<Rightarrow> bool" where "live_zctx \<equiv> alive (\<lambda>A w. zctxs (view A w))"

lemma wlp_live [wlp_simps]:
  "wlp (live_frame A p k) Q E s \<longleftrightarrow> (live_zframe A p (lib s) \<longrightarrow> wlp k Q E s)"
  "wlp (live_msg A p k) Q E s \<longleftrightarrow> (live_zmsg A p (lib s) \<longrightarrow> wlp k Q E s)"
  "wlp (live_list A p k) Q E s \<longleftrightarrow> (live_zlist A p (lib s) \<longrightarrow> wlp k Q E s)"
  "wlp (live_sock A p k) Q E s \<longleftrightarrow> (live_zsock A p (lib s) \<longrightarrow> wlp k Q E s)"
  "wlp (live_ctx A p k) Q E s \<longleftrightarrow> (live_zctx A p (lib s) \<longrightarrow> wlp k Q E s)"
  by (auto simp: alive_def wlp_def live_frame_def live_msg_def live_list_def live_sock_def live_ctx_def)

lemma wlp_branch [wlp_simps]:
  "wlp (if b then m1 else m2) Q E s = (if b then wlp m1 Q E s else wlp m2 Q E s)"
  "wlp (case x of None \<Rightarrow> m3 | Some y \<Rightarrow> k y) Q E s = (case x of None \<Rightarrow> wlp m3 Q E s | Some y \<Rightarrow> wlp (k y) Q E s)"
  "wlp (case z of (u, v) \<Rightarrow> h u v) Q E s = (case z of (u, v) \<Rightarrow> wlp (h u v) Q E s)"
  by (simp_all split: option.split prod.split)

lemma wlp_ary [wlp_simps]:
  "wlp (rb_ary_push a x k) Q E s = wlp k Q E (rb_ary_store_all a (ary s a @ [x]) s)"
  "wlp (rb_ary_delete a x k) Q E s = wlp k Q E (rb_ary_store_all a (removeAll x (ary s a)) s)"
  "wlp (rb_ary_new h) Q E s = wlp (h (Object rb_cArray (fresh s))) Q E
     (s\<lparr>arrays := (arrays s)(fresh s \<mapsto> []), fresh := Suc (fresh s)\<rparr>)"
  by (simp_all add: rb_ary_push_def rb_ary_delete_def rb_ary_new_def wlp_simps)

lemma wlp_ret_fun [simp]: "wlp (ret v) Q E = Q v"
  by (rule ext) (simp add: wlp_simps)

lemma wlp_conseq:
  assumes "wlp m Q E s" and "\<And>v t. Q v t \<Longrightarrow> Q' v t" and "\<And>e t. E e t \<Longrightarrow> E' e t"
  shows "wlp m Q' E' s"
  using assms by (auto simp: wlp_def split: outcome.splits)

text \<open>A footprint of a part of a body, and what comes after it.\<close>

lemma wlp_keeps_call:
  "keeps K m \<Longrightarrow> K s \<Longrightarrow> (\<And>v t. K t \<Longrightarrow> wlp (k v) (\<lambda>_. K) (\<lambda>_. K) t) \<Longrightarrow>
     wlp (call m k) (\<lambda>_. K) (\<lambda>_. K) s"
  unfolding wlp_call by (rule wlp_conseq [OF keepsD])

lemma keeps_combine [keeps_intros]:
  "(\<And>s. K s \<Longrightarrow> K (s\<lparr>lib := g (lib s)\<rparr>)) \<Longrightarrow> keeps K j \<Longrightarrow> keeps K (tell g j)"
  "(\<And>r. keeps K (k r)) \<Longrightarrow> keeps K (deref h p k)"
  "keeps K m1 \<Longrightarrow> keeps K m2 \<Longrightarrow> keeps K (if b then m1 else m2)"
  "keeps K m1 \<Longrightarrow> keeps K (check b e m1)"
  by (auto simp: keeps_def wlp_simps)

lemma keeps_call [keeps_intros]:
  "keeps K m \<Longrightarrow> (\<And>v. keeps K (k v)) \<Longrightarrow> keeps K (call m k)"
  by (rule keepsI) (rule wlp_keeps_call, assumption+, rule keepsD)

text \<open>A loop keeps what its body keeps.\<close>

lemma iterate_keeps:
  assumes "iterate b c x s = Some r" and "\<And>x. b x \<Longrightarrow> keeps K (c x)" and "K s"
  shows "wlp (\<lambda>_. r) (\<lambda>_. K) (\<lambda>_. K) s"
proof -
  let ?P = "\<lambda>b c x s r. (\<forall>x. b x \<longrightarrow> keeps K (c x)) \<longrightarrow> K s \<longrightarrow> wlp (\<lambda>_. r) (\<lambda>_. K) (\<lambda>_. K) s"
  have "?P b c x s r"
  proof (rule iterate.raw_induct [of ?P "(((b, c), x), s)", simplified, OF _ assms(1)])
    fix it b c x s r
    assume step: "\<And>b c x s r. it b c x s = Some r \<Longrightarrow> ?P b c x s r"
      and r: "(if b x then case c x s of Return y s' \<Rightarrow> it b c y s' | Raise e s' \<Rightarrow> Some (Raise e s')
         | Crash f \<Rightarrow> Some (Crash f) else Some (Return x s)) = Some r"
    show "?P b c x s r"
    proof (intro impI)
      assume body: "\<forall>x. b x \<longrightarrow> keeps K (c x)" and s: "K s"
      show "wlp (\<lambda>_. r) (\<lambda>_. K) (\<lambda>_. K) s"
      proof (cases "b x")
        case True
        then have "wlp (c x) (\<lambda>_. K) (\<lambda>_. K) s" using body s by (simp add: keepsD)
        then show ?thesis using step r body True
          by (cases "c x s") (auto simp: wlp_def)
      qed (use r s in \<open>auto simp: wlp_def\<close>)
    qed
  qed
  then show ?thesis using assms(2,3) by blast
qed

lemma keeps_while:
  assumes "\<And>x. b x \<Longrightarrow> keeps K (c x)" and "\<And>x. keeps K (k x)"
  shows "keeps K (while_do b c k x)"
proof (rule keepsI)
  fix s assume s: "K s"
  show "wlp (while_do b c k x) (\<lambda>_. K) (\<lambda>_. K) s"
  proof (cases "iterate b c x s")
    case None
    then show ?thesis by (simp add: wlp_def while_do_def)
  next
    case (Some r)
    have "wlp (\<lambda>_. r) (\<lambda>_. K) (\<lambda>_. K) s" by (rule iterate_keeps [OF Some assms(1) s])
    moreover have "wlp (k y) (\<lambda>_. K) (\<lambda>_. K) u" if "K u" for y u using keepsD [OF assms(2) that] .
    ultimately show ?thesis by (cases r) (simp_all add: wlp_def while_do_def Some call_def)
  qed
qed

section \<open>The guards\<close>

text \<open>The guards change nothing: the rest runs in the state they were started in, or not at all.\<close>

lemma guard_wlp:
  assumes "\<And>e. E e s"
  shows "wlp k Q E s \<Longrightarrow> wlp (ZmqAssertFrameOwned p k) Q E s"
    "(\<And>p. wlp (h p) Q E s) \<Longrightarrow> wlp (ZmqGetFrame v h) Q E s"
    "(\<And>p. wlp (h p) Q E s) \<Longrightarrow> wlp (ZmqGetMessage v h) Q E s"
    "(\<And>p. wlp (h p) Q E s) \<Longrightarrow> wlp (GetZmqSocket v h) Q E s"
    "wlp k Q E s \<Longrightarrow> wlp (ZmqAssertSocketNotPending q msg k) Q E s"
    "wlp k Q E s \<Longrightarrow> wlp (ZmqSockGuardCrossThread q k) Q E s"
    "(\<And>cs. wlp (g cs) Q E s) \<Longrightarrow> wlp (Check_String v g) Q E s"
    "(\<And>cs. wlp (g cs) Q E s) \<Longrightarrow> wlp (StringValueCStr str g) Q E s"
    "(\<And>a b. wlp (f a b) Q E s) \<Longrightarrow> wlp (rb_scan_args_11 argv f) Q E s"
    "(\<And>a. wlp (o1 a) Q E s) \<Longrightarrow> wlp (rb_scan_args_01 argv o1) Q E s"
    "(\<And>p. wlp (h p) Q E s) \<Longrightarrow> wlp (ZmqGetContext v h) Q E s"
    "wlp k Q E s \<Longrightarrow> wlp (ZmqAssertContextPidMatches q k) Q E s"
    "(\<And>n. wlp (i n) Q E s) \<Longrightarrow> wlp (Check_Fixnum v i) Q E s"
    "(\<And>n. wlp (i n) Q E s) \<Longrightarrow> wlp (FIX2INT n i) Q E s"
  using assms by (auto simp: ZmqAssertFrameOwned_def frame_accessible_def ZmqGetFrame_def ZmqGetMessage_def
      GetZmqSocket_def fetch_def ZmqAssertSocketNotPending_def ZmqSockGuardCrossThread_def Check_String_def
      StringValueCStr_def rb_scan_args_11_def rb_scan_args_01_def ZmqGetContext_def ZmqAssertContextPidMatches_def
      Check_Fixnum_def FIX2INT_def wlp_simps split: rvalue.split list.split)

lemma StringValue_wlp:
  assumes "\<And>e. E e s" and "\<And>cs. wlp (g cs) Q E s"
  shows "wlp (StringValue A v g) Q E s"
  using assms
  by (auto simp: StringValue_def rb_czmq_frame_to_s_def rb_czmq_frame_data_def ZmqReturnNilUnlessFrameOwned_def
      frame_accessible_def Let_def wlp_simps intro!: guard_wlp split: rvalue.split)

lemma assert_wlp:
  assumes "wlp k Q E s" and "Q Qfalse s" and "\<And>e. E e s"
  shows "wlp (ZmqAssert A rc k) Q E s"
  using assms by (simp add: ZmqAssert_def ZmqAssertSysError_def wlp_simps Let_def)

end
