(* ===== verification/Zmq_Apart.thy ===== *)
theory Zmq_Apart
  imports Zmq_Footprint Zmq_Life Zmq_Exchange
begin

text \<open>
  What the calls on frames and messages leave of contexts and sockets, and the other way round. The
  two halves of the program share the libraries and the allocator; both keep lists of libczmq, a
  context its sockets and a message its frame objects, and those must stay apart.
\<close>

section \<open>What a call on frames and messages leaves\<close>

text \<open>
  The contexts and sockets of the library, and the lists at the addresses \<open>L\<close>, which are all allocated.
\<close>

definition seen :: "'w czmq \<Rightarrow> ptr set \<Rightarrow> 'w \<Rightarrow>
    (ptr \<rightharpoonup> int) \<times> (ptr \<rightharpoonup> ptr \<times> int) \<times> (ptr \<rightharpoonup> void list) \<times> bool" where
  "seen A L w =
     (zctxs (view A w), zsocks (view A w), zlists (view A w) |` L, L \<subseteq> dom (zlists (view A w)))"

text \<open>Steps of the library that \<open>L\<close> and the liveness of an object do not notice.\<close>

lemma seen_view: "view A w' = view A w \<Longrightarrow> seen A L w' = seen A L w"
  by (simp add: seen_def)

lemma seen_lists:
  "view A w' = (view A w)\<lparr>zlists := (zlists (view A w))(l := x)\<rparr> \<Longrightarrow> l \<notin> L \<Longrightarrow> seen A L w' = seen A L w"
  by (auto simp: seen_def)

lemma seen_parts:
  "zctxs (view A w') = zctxs (view A w) \<Longrightarrow> zsocks (view A w') = zsocks (view A w) \<Longrightarrow>
     zlists (view A w') = zlists (view A w) \<Longrightarrow> seen A L w' = seen A L w"
  by (simp add: seen_def)

named_theorems seen_simps \<open>what a library call on frames and messages leaves\<close>

lemma seen_errno [seen_simps]:
  assumes "zframe_doc A"
  shows "seen A L (set_errno A e w) = seen A L w" 
    "live_zframe A p (set_errno A e w) = live_zframe A p w" "live_zmsg A p (set_errno A e w) = live_zmsg A p w"
    "live_zlist A p (set_errno A e w) = live_zlist A p w" "live_zsock A p (set_errno A e w) = live_zsock A p w"
    "live_zctx A p (set_errno A e w) = live_zctx A p w"
  using zframe_docD(1) [OF assms] by (simp_all add: seen_def alive_def)

lemma seen_zlist_new [seen_simps]:
  assumes "zlist_doc A" and "snd (snd (snd (seen A L w)))"
  shows "seen A L (snd (zlist_new A w)) = seen A L w" "fst (zlist_new A w) \<notin> L"
proof -
  note new = zlist_newD [OF assms(1), where w = w]
  show n: "fst (zlist_new A w) \<notin> L" using assms(2) new(2) by (auto simp: seen_def)
  show "seen A L (snd (zlist_new A w)) = seen A L w" by (rule seen_lists [OF new(3) n])
qed

lemma seen_zlist [seen_simps]:
  assumes "zlist_doc A" and "live_zlist A l w"
  shows "l \<notin> L \<Longrightarrow> seen A L (zlist_push A l x w) = seen A L w"
    "l \<notin> L \<Longrightarrow> seen A L (zlist_append A l x w) = seen A L w"
    "l \<notin> L \<Longrightarrow> seen A L (zlist_remove A l x w) = seen A L w"
    "l \<notin> L \<Longrightarrow> seen A L (snd (zlist_pop A l w)) = seen A L w"
    "l \<notin> L \<Longrightarrow> seen A L (zlist_destroy A l w) = seen A L w"
    "seen A L (snd (zlist_first A l w)) = seen A L w"
    "seen A L (snd (zlist_next A l w)) = seen A L w"
    "seen A L (snd (zlist_last A l w)) = seen A L w"
    "live_zlist A l (zlist_push A l x w)" "live_zlist A l (snd (zlist_first A l w))"
proof -
  obtain xs where "zlists (view A w) l = Some xs" using assms(2) by (auto simp: alive_def)
  note doc = zlist_liveD [OF assms(1) this]
  show "l \<notin> L \<Longrightarrow> seen A L (zlist_push A l x w) = seen A L w"
    "l \<notin> L \<Longrightarrow> seen A L (zlist_append A l x w) = seen A L w"
    "l \<notin> L \<Longrightarrow> seen A L (zlist_remove A l x w) = seen A L w"
    "l \<notin> L \<Longrightarrow> seen A L (snd (zlist_pop A l w)) = seen A L w"
    "l \<notin> L \<Longrightarrow> seen A L (zlist_destroy A l w) = seen A L w"
    by (rule seen_lists, rule doc, assumption)+
  show "seen A L (snd (zlist_first A l w)) = seen A L w" "seen A L (snd (zlist_next A l w)) = seen A L w"
    "seen A L (snd (zlist_last A l w)) = seen A L w"
    by (rule seen_view, rule doc)+
  show "live_zlist A l (zlist_push A l x w)" "live_zlist A l (snd (zlist_first A l w))"
    using \<open>zlists (view A w) l = Some xs\<close> by (simp_all add: alive_def doc)
qed

lemma seen_zframe [seen_simps]:
  assumes "zframe_doc A"
  shows "seen A L (snd (zframe_new A d w)) = seen A L w"
    "live_zframe A p w \<Longrightarrow> seen A L (snd (zframe_dup A p w)) = seen A L w"
    "live_zframe A p w \<Longrightarrow> seen A L (zframe_destroy A p w) = seen A L w"
    "live_zframe A p w \<Longrightarrow> seen A L (zframe_print A p cs w) = seen A L w"
    "live_zframe A p w \<Longrightarrow> seen A L (zframe_reset A p d w) = seen A L w"
  using zframe_docD(4) [OF assms, of w d] zframe_liveD(3,5-7) [OF assms, of w p]
  by (auto simp: alive_def zframe_alloc_doc_def seen_def split: if_splits)

lemma seen_alloc: "zmsg_alloc_doc A w bs r \<Longrightarrow> seen A L (snd r) = seen A L w"
  by (auto simp: zmsg_alloc_doc_def seen_def split: if_splits)

lemma seen_put:
  assumes "zmsg_put_doc A w m fs r \<or> zmsg_mem_doc A w m f d r" and "live_zmsg A m w"
  shows "seen A L (snd r) = seen A L w" "live_zmsg A m (snd r)"
  using assms by (auto simp: zmsg_put_doc_def zmsg_mem_doc_def seen_def alive_def split: if_splits)

lemma seen_zmsg [seen_simps]:
  assumes "zmsg_doc A"
  shows "seen A L (snd (zmsg_new A w)) = seen A L w" "live_zmsg A m w \<Longrightarrow> seen A L (snd (zmsg_dup A m w)) = seen A L w"
    "live_zmsg A m w \<Longrightarrow> seen A L (snd (zmsg_push A m f w)) = seen A L w"
    "live_zmsg A m w \<Longrightarrow> seen A L (snd (zmsg_add A m f w)) = seen A L w"
    "live_zmsg A m w \<Longrightarrow> seen A L (snd (zmsg_pushmem A m d w)) = seen A L w"
    "live_zmsg A m w \<Longrightarrow> seen A L (snd (zmsg_addmem A m d w)) = seen A L w"
    "live_zmsg A m w \<Longrightarrow> live_zmsg A m (snd (zmsg_pushmem A m d w))"
    "live_zmsg A m w \<Longrightarrow> live_zmsg A m (snd (zmsg_addmem A m d w))"
proof -
  show "seen A L (snd (zmsg_new A w)) = seen A L w" by (rule seen_alloc [OF zmsg_newD(2) [OF assms]])
  assume "live_zmsg A m w"
  then obtain fs where "zmsgs (view A w) m = Some fs" by (auto simp: alive_def)
  note doc = zmsg_liveD [OF assms this] and live = \<open>live_zmsg A m w\<close>
  show "seen A L (snd (zmsg_dup A m w)) = seen A L w" by (rule seen_alloc [OF doc(17)])
  show "seen A L (snd (zmsg_push A m f w)) = seen A L w" by (rule seen_put [OF disjI1 [OF doc(3)] live])
  show "seen A L (snd (zmsg_add A m f w)) = seen A L w" by (rule seen_put [OF disjI1 [OF doc(4)] live])
  show "seen A L (snd (zmsg_pushmem A m d w)) = seen A L w" "live_zmsg A m (snd (zmsg_pushmem A m d w))"
    by (rule seen_put [OF disjI2 [OF doc(7)] live])+
  show "seen A L (snd (zmsg_addmem A m d w)) = seen A L w" "live_zmsg A m (snd (zmsg_addmem A m d w))"
    by (rule seen_put [OF disjI2 [OF doc(8)] live])+
qed

lemma seen_zmsg' [seen_simps]:
  assumes "zmsg_doc A" and "live_zmsg A m w"
  shows "seen A L (snd (zmsg_pop A m w)) = seen A L w" "seen A L (snd (zmsg_popstr A m w)) = seen A L w"
    "seen A L (zmsg_remove A m f w) = seen A L w" "seen A L (snd (zmsg_first A m w)) = seen A L w"
    "seen A L (snd (zmsg_last A m w)) = seen A L w" "seen A L (snd (zmsg_next A m w)) = seen A L w"
    "seen A L (zmsg_destroy A m w) = seen A L w" "seen A L (zmsg_dump A m w) = seen A L w"
    "live_zframe A f w \<Longrightarrow> seen A L (zmsg_wrap A m f w) = seen A L w"
    "live_zframe A f w \<Longrightarrow> live_zmsg A m (zmsg_wrap A m f w)" "live_zmsg A m (snd (zmsg_first A m w))"
proof -
  obtain fs where fs: "zmsgs (view A w) m = Some fs" using assms(2) by (auto simp: alive_def)
  note doc = zmsg_liveD [OF assms(1) fs]
  show "seen A L (snd (zmsg_pop A m w)) = seen A L w" "seen A L (snd (zmsg_popstr A m w)) = seen A L w"
    "seen A L (zmsg_remove A m f w) = seen A L w" "seen A L (snd (zmsg_first A m w)) = seen A L w"
    "seen A L (snd (zmsg_last A m w)) = seen A L w" "seen A L (snd (zmsg_next A m w)) = seen A L w"
    "seen A L (zmsg_destroy A m w) = seen A L w" "seen A L (zmsg_dump A m w) = seen A L w"
    by (rule seen_parts; simp add: doc(6,10,11,13,15,16,18,19) split: list.split)+
  show "live_zmsg A m (snd (zmsg_first A m w))" by (simp add: alive_def doc(13) fs)
  assume "live_zframe A f w"
  then obtain e where "view A (zmsg_wrap A m f w) = (view A w)
      \<lparr>zframes := (zframes (view A w))(e \<mapsto> []), zmsgs := (zmsgs (view A w))(m \<mapsto> f # e # fs)\<rparr>"
    using zmsg_wrapD [OF assms(1) fs, of f] unfolding alive_def by blast
  then show "seen A L (zmsg_wrap A m f w) = seen A L w" "live_zmsg A m (zmsg_wrap A m f w)"
    by (simp_all add: alive_def seen_def)
qed

lemma seen_io [seen_simps]:
  assumes "zsend_doc A" and "live_zsock A h w"
  shows "live_zframe A p w \<Longrightarrow> seen A L (snd (zframe_send A p h fl w)) = seen A L w"
    "live_zmsg A m w \<Longrightarrow> seen A L (snd (zmsg_send A m h w)) = seen A L w"
    "seen A L (snd (zframe_recv A h w)) = seen A L w" "seen A L (snd (zframe_recv_nowait A h w)) = seen A L w"
    "seen A L (snd (zmsg_recv A h w)) = seen A L w"
proof -
  obtain st where "zsocks (view A w) h = Some st" using assms(2) by (auto simp: alive_def)
  note doc = zsendD [OF assms(1) this]
  have frame: "\<exists>d. zframe_alloc_doc A w d r \<Longrightarrow> seen A L (snd r) = seen A L w" for r
    by (auto simp: zframe_alloc_doc_def seen_def split: if_splits)
  show "seen A L (snd (zframe_recv A h w)) = seen A L w" "seen A L (snd (zframe_recv_nowait A h w)) = seen A L w"
    by (rule frame [OF doc(3)], rule frame [OF doc(4)])
  show "seen A L (snd (zmsg_recv A h w)) = seen A L w" by (rule exE [OF doc(5)]) (rule seen_alloc)
  show "seen A L (snd (zframe_send A p h fl w)) = seen A L w" if "live_zframe A p w"
    using doc(1) that by (fastforce simp: alive_def zframe_send_doc_def seen_def)
  show "seen A L (snd (zmsg_send A m h w)) = seen A L w" if "live_zmsg A m w"
    using doc(2) that by (fastforce simp: alive_def zmsg_send_doc_def seen_def)
qed

lemma seen_sock [seen_simps]:
  assumes "zsock_doc A" and "live_zsock A h w"
  shows "seen A L (snd (zmq_sendmsg A h d fl w)) = seen A L w" "seen A L (snd (zmq_recvmsg A h fl w)) = seen A L w"
proof -
  obtain c t where "zsocks (view A w) h = Some (c, t)" using assms(2) by (auto simp: alive_def)
  note doc = zsocket_liveD [OF assms(1) this]
  show "seen A L (snd (zmq_sendmsg A h d fl w)) = seen A L w" "seen A L (snd (zmq_recvmsg A h fl w)) = seen A L w"
    by (rule seen_view, rule doc)+
qed

text \<open>
  Contexts and sockets are as they were in \<open>s\<close>, the lists \<open>L\<close> too, and no message keeps its frame objects
  in one of those.
\<close>

definition outside :: "'w czmq \<Rightarrow> ptr set \<Rightarrow> 'w vm \<Rightarrow> 'w vm \<Rightarrow> bool" where
  "outside A L s t \<longleftrightarrow>
     ctxs t = ctxs s \<and> socks t = socks s \<and> ctx_map t = ctx_map s \<and> pid t = pid s \<and> thread t = thread s \<and>
     fresh s \<le> fresh t \<and> seen A L (lib t) = seen A L (lib s) \<and> snd (snd (snd (seen A L (lib s)))) \<and>
     NULL \<notin> L \<and> (\<forall>m w. msgs t m = Some w \<longrightarrow> m_frames w \<notin> L)"

lemma outside_guards [wlp_simps]:
  "wlp (ZmqAssertMessageOwned m k) Q E s \<longleftrightarrow>
     (\<forall>w. msgs s m = Some w \<longrightarrow> (if has (m_flags w) ZMQ_MESSAGE_OWNED then wlp k Q E s
        else E (TypeError ''Cannot modify a message that is gone.'') s))"
  "wlp (ZmqAssertFrameOwnedNoMessage p k) Q E s \<longleftrightarrow>
     (\<forall>f. frames s p = Some f \<longrightarrow> (if has (f_flags f) ZMQ_FRAME_OWNED then wlp k Q E s
        else E (ZmqError ''Cannot access frame that belongs to another message or is gone.'') s))"
  by (simp_all add: ZmqAssertMessageOwned_def ZmqAssertFrameOwnedNoMessage_def wlp_simps)

lemmas outside_steps = wlp_simps Let_def NIL_P_def ZmqAssertSysError_def


text \<open>The loop that wraps the frames of a new message.\<close>

lemma attach_outside:
  assumes "\<And>v. keeps (outside A L s) (k v)"
  shows "keeps (outside A L s) (attach_new_frame m zf k)"
proof (rule keepsI)
  fix t assume "outside A L s t"
  then have o: "outside A L s (t\<lparr>fresh := Suc (fresh t), frames := x\<rparr>)"
    "outside A L s (t\<lparr>frames := x, fresh := Suc (fresh t)\<rparr>)" for x by (simp_all add: outside_def)
  show "wlp (attach_new_frame m zf k) (\<lambda>_. outside A L s) (\<lambda>_. outside A L s) t"
    using keepsD [OF assms o(1)] o
    by (auto simp: attach_new_frame_def rb_czmq_alloc_frame_def ZmqGetFrame_def fetch_def wlp_simps)
qed

lemma wrap_loop_outside:
  assumes "lib_doc A" and "l \<notin> L"
  shows "keeps (outside A L s) (while_do (\<lambda>zframe. zframe \<noteq> NULL)
    (\<lambda>zframe. attach_new_frame m zframe (\<lambda>frame_object. live_list A l (
       tell (zlist_append A l (VAL frame_object)) (live_msg A msg (invoke (zmsg_next A msg) (\<lambda>next_frame. ret next_frame))))))
    (\<lambda>_. ret (Object rb_cZmqMessage m)) zframe)"
  by (rule keeps_while, rule attach_outside; rule keepsI)
    (simp_all add: outside_steps seen_simps lib_docD [OF assms(1)] outside_def assms(2))

lemma alloc_message_outside:
  assumes "lib_doc A"
  shows "keeps (outside A L s) (rb_czmq_alloc_message A msg)"
proof (rule keepsI)
  fix t assume t: "outside A L s t"
  let ?w = "set_errno A 0 (lib t)"
  have "fst (zlist_new A ?w) \<notin> L"
    using t by (simp add: seen_simps lib_docD [OF assms] outside_def)
  note loop = keepsD [OF wrap_loop_outside [OF assms this], simplified]
  show "wlp (rb_czmq_alloc_message A msg) (\<lambda>_. outside A L s) (\<lambda>_. outside A L s) t"
    using t by (auto simp: rb_czmq_alloc_message_def ZmqAssertObjOnAlloc_def outside_steps intro!: loop)
      (auto simp: outside_def seen_simps lib_docD [OF assms] split: if_splits)
qed

lemmas outside_body = rb_czmq_frame_s_new_def rb_czmq_frame_destroy_def rb_czmq_free_frame_def rb_czmq_alloc_frame_def
  rb_czmq_message_new_def rb_czmq_message_push_def rb_czmq_message_add_def rb_czmq_message_pushstr_def
  rb_czmq_message_addstr_def rb_czmq_message_pop_def rb_czmq_message_remove_def rb_czmq_message_wrap_def
  rb_czmq_message_destroy_def rb_czmq_free_message_def attach_new_frame_def detach_frame_def

lemmas outside_simps = outside_body outside_steps seen_simps outside_def

lemma exec_outside:
  assumes "lib_doc A"
  shows "keeps (outside A L s) (exec A c)"
proof (rule keepsI)
  fix t assume t: "outside A L s t"
  note simps = outside_simps lib_docD [OF assms]
  note alloc = keepsD [OF alloc_message_outside [OF assms]]
  show "wlp (exec A c) (\<lambda>_. outside A L s) (\<lambda>_. outside A L s) t"
  proof (cases c)
    case Message_new
    have "outside A L s (t\<lparr>lib := snd (zmsg_new A (lib t))\<rparr>)" using t by (simp add: simps)
    then show ?thesis using alloc by (simp add: Message_new rb_czmq_message_new_def wlp_simps)
  next
    case (Dup m)
    have "outside A L s (t\<lparr>lib := snd (zmsg_dup A n (lib t))\<rparr>)" if "live_zmsg A n (lib t)" for n
      using t that by (simp add: simps)
    then show ?thesis using alloc t by (auto simp: Dup rb_czmq_message_dup_def wlp_simps intro!: guard_wlp)
  qed (use t in \<open>simp_all only: exec.simps\<close>, auto simp: simps split: if_splits intro!: guard_wlp assert_wlp)
qed

lemma frame_flags_wlp:
  assumes "\<And>n. wlp (k n) Q E s" and "\<And>e. E e s"
  shows "wlp (frame_flags A v k) Q E s"
proof (cases "flags_of A v")
  case None
  then obtain e where "frame_flags A v k s = Raise e s" using frame_flags_run(2) by blast
  then show ?thesis using assms(2) by (simp add: wlp_def)
next
  case (Some n)
  then show ?thesis using assms(1) [of n] by (simp add: wlp_def frame_flags_run(1))
qed

lemmas io_body = run_io.simps rb_czmq_socket_send_def rb_czmq_socket_sendm_def rb_czmq_socket_recv_def
  rb_czmq_socket_recv_nonblock_def rb_czmq_nogvl_send_frame_def rb_czmq_socket_send_frame_def rb_czmq_socket_recv_frame_def
  rb_czmq_socket_recv_frame_nonblock_def rb_czmq_socket_send_message_def rb_czmq_socket_recv_message_def
  rb_czmq_nogvl_zstr_send_def rb_czmq_nogvl_zstr_sendm_def rb_czmq_nogvl_zstr_send_internal_def rb_czmq_nogvl_recv_def
  rb_czmq_nogvl_recv_frame_def rb_czmq_nogvl_send_message_def rb_czmq_nogvl_recv_message_def
  received_frame_def ZmqDumpFrame_def ZmqDumpMessage_def verbose_log_def verbose_log_str_def
  rb_czmq_alloc_frame_def

lemma io_outside:
  assumes "exchange_doc A"
  shows "keeps (outside A L s) (run_io A obj c)"
proof (rule keepsI)
  fix t assume t: "outside A L s t"
  note simps = outside_simps lib_docD [OF exchange_docD(1) [OF assms]] exchange_docD(2,3) [OF assms]
  note alloc = keepsD [OF alloc_message_outside [OF exchange_docD(1) [OF assms]]]
  show "wlp (run_io A obj c) (\<lambda>_. outside A L s) (\<lambda>_. outside A L s) t"
    using t by (cases c; simp only: io_body) (auto simp: simps intro!: guard_wlp assert_wlp StringValue_wlp frame_flags_wlp alloc)
qed

end
