(* ===== verification/Zmq_Beside.thy ===== *)
theory Zmq_Beside
  imports Zmq_Footprint Zmq_Life Zmq_Exchange
begin

section \<open>What a call on contexts and sockets leaves\<close>

text \<open>The frames and messages of the library, and the lists at the addresses \<open>L\<close>.\<close>

definition kept :: "'w czmq \<Rightarrow> ptr set \<Rightarrow> 'w \<Rightarrow>
    (ptr \<rightharpoonup> string) \<times> (ptr \<rightharpoonup> ptr list) \<times> (ptr \<rightharpoonup> void list) \<times> bool" where
  "kept A L w =
     (zframes (view A w), zmsgs (view A w), zlists (view A w) |` L, L \<subseteq> dom (zlists (view A w)))"

named_theorems kept_simps \<open>what a library call on contexts and sockets leaves\<close>

lemma kept_view: "view A w' = view A w \<Longrightarrow> kept A L w' = kept A L w"
  by (simp add: kept_def)

lemma kept_lists:
  "view A w' = (view A w)\<lparr>zlists := (zlists (view A w))(l := x)\<rparr> \<Longrightarrow> l \<notin> L \<Longrightarrow> kept A L w' = kept A L w"
  by (auto simp: kept_def)

lemma kept_zlist_new [kept_simps]:
  assumes "zlist_doc A" and "snd (snd (snd (kept A L w)))"
  shows "kept A L (snd (zlist_new A w)) = kept A L w" "fst (zlist_new A w) \<notin> L"
proof -
  note new = zlist_newD [OF assms(1), where w = w]
  show n: "fst (zlist_new A w) \<notin> L" using assms(2) new(2) by (auto simp: kept_def)
  show "kept A L (snd (zlist_new A w)) = kept A L w" by (rule kept_lists [OF new(3) n])
qed

lemma kept_zlist [kept_simps]:
  assumes "zlist_doc A" and "live_zlist A l w" and "l \<notin> L"
  shows "kept A L (zlist_push A l x w) = kept A L w" "kept A L (zlist_remove A l x w) = kept A L w"
    "kept A L (snd (zlist_pop A l w)) = kept A L w" "kept A L (zlist_destroy A l w) = kept A L w"
proof -
  obtain xs where "zlists (view A w) l = Some xs" using assms(2) by (auto simp: alive_def)
  note doc = zlist_liveD [OF assms(1) this]
  show "kept A L (zlist_push A l x w) = kept A L w" "kept A L (zlist_remove A l x w) = kept A L w"
    "kept A L (snd (zlist_pop A l w)) = kept A L w" "kept A L (zlist_destroy A l w) = kept A L w"
    by (rule kept_lists, rule doc, rule assms(3))+
qed

lemma kept_errno [kept_simps]:
  assumes "zsock_doc A"
  shows "kept A L (set_errno A e w) = kept A L w" "kept A L (zsys_handler_reset A w) = kept A L w"
    "kept A L (snd (zctx_new A w)) = kept A L w"
    "live_zlist A p (set_errno A e w) = live_zlist A p w" "live_zsock A p (set_errno A e w) = live_zsock A p w"
    "live_zctx A p (set_errno A e w) = live_zctx A p w"
    "fst (zctx_new A w) \<noteq> NULL \<Longrightarrow> live_zctx A (fst (zctx_new A w)) (snd (zctx_new A w))"
proof -
  show "kept A L (set_errno A e w) = kept A L w" "kept A L (zsys_handler_reset A w) = kept A L w"
    "live_zlist A p (set_errno A e w) = live_zlist A p w" "live_zsock A p (set_errno A e w) = live_zsock A p w"
    "live_zctx A p (set_errno A e w) = live_zctx A p w"
    using zsock_docD(4,5) [OF assms] by (simp_all add: kept_def alive_def)
  obtain c w' where new: "zctx_new A w = (c, w')" by fastforce
  note doc = zctx_newD [OF assms new]
  show "kept A L (snd (zctx_new A w)) = kept A L w"
    using doc(1,3) by (cases "c = NULL") (simp_all add: kept_def new)
  show "live_zctx A (fst (zctx_new A w)) (snd (zctx_new A w))" if "fst (zctx_new A w) \<noteq> NULL"
    using doc(3) that by (simp add: alive_def new)
qed

lemma kept_ctx [kept_simps]:
  assumes "zsock_doc A" and "live_zctx A c w"
  shows "kept A L (zctx_destroy A c w) = kept A L w" "kept A L (zctx_set_linger A c i w) = kept A L w"
    "kept A L (zctx_set_iothreads A c i w) = kept A L w" "kept A L (snd (zsocket_new A c t w)) = kept A L w"
proof -
  obtain n where n: "zctxs (view A w) c = Some n" using assms(2) by (auto simp: alive_def)
  note doc = zctx_liveD [OF assms(1) n]
  show "kept A L (zctx_destroy A c w) = kept A L w" "kept A L (zctx_set_linger A c i w) = kept A L w"
    "kept A L (zctx_set_iothreads A c i w) = kept A L w" by (simp_all add: kept_def doc)
  show "kept A L (snd (zsocket_new A c t w)) = kept A L w"
  proof -
    obtain h w' where new: "zsocket_new A c t w = (h, w')" by fastforce
    note doc = zsocket_newD [OF assms(1) n new]
    show ?thesis using doc(1,3) by (cases "h = NULL") (simp_all add: kept_def new)
  qed
qed

lemma kept_sock [kept_simps]:
  assumes "zsock_doc A" and "live_zsock A h w"
  shows "kept A L (snd (zmq_sendmsg A h d fl w)) = kept A L w" "kept A L (snd (zmq_recvmsg A h fl w)) = kept A L w"
    "kept A L (snd (zsocket_bind A h ep w)) = kept A L w" "kept A L (snd (zsocket_connect A h ep w)) = kept A L w"
    "kept A L (snd (zsocket_disconnect A h ep w)) = kept A L w" "kept A L (snd (zsocket_unbind A h ep w)) = kept A L w"
    "kept A L (zsocket_set_str A opt h cs w) = kept A L w" "kept A L (zsocket_set_opt A opt h i w) = kept A L w"
    "kept A L (snd (zsocket_poll A h i w)) = kept A L w" "kept A L (zsocket_destroy A c' h w) = kept A L w"
proof -
  obtain c t where "zsocks (view A w) h = Some (c, t)" using assms(2) by (auto simp: alive_def)
  note doc = zsocket_liveD [OF assms(1) this] and set = zsocket_set_optD [OF assms(1) this]
  show "kept A L (snd (zmq_sendmsg A h d fl w)) = kept A L w" "kept A L (snd (zmq_recvmsg A h fl w)) = kept A L w"
    "kept A L (snd (zsocket_bind A h ep w)) = kept A L w" "kept A L (snd (zsocket_connect A h ep w)) = kept A L w"
    "kept A L (snd (zsocket_disconnect A h ep w)) = kept A L w" "kept A L (snd (zsocket_unbind A h ep w)) = kept A L w"
    "kept A L (zsocket_set_str A opt h cs w) = kept A L w" "kept A L (zsocket_set_opt A opt h i w) = kept A L w"
    "kept A L (snd (zsocket_poll A h i w)) = kept A L w" "kept A L (zsocket_destroy A c' h w) = kept A L w"
    by (simp_all add: kept_def doc(1,3-10) set)
qed

text \<open>
  Frames and messages are as they were in \<open>s\<close>, the lists \<open>L\<close> too, and no context keeps its sockets in one
  of those.
\<close>

definition beside :: "'w czmq \<Rightarrow> ptr set \<Rightarrow> 'w vm \<Rightarrow> 'w vm \<Rightarrow> bool" where
  "beside A L s t \<longleftrightarrow>
     frames t = frames s \<and> msgs t = msgs s \<and> fresh s \<le> fresh t \<and>
     kept A L (lib t) = kept A L (lib s) \<and> snd (snd (snd (kept A L (lib s)))) \<and>
     NULL \<notin> L \<and> (\<forall>p c. ctxs t p = Some c \<longrightarrow> c_sockets c \<notin> L)"

lemmas beside_simps = wlp_simps kept_simps beside_def Let_def NIL_P_def ZmqAssertSysError_def

lemma destroy_socket_beside:
  assumes "zlist_doc A" and "zsock_doc A"
  shows "keeps (beside A L s) (rb_czmq_context_destroy_socket A q)"
  by (rule keepsI) (auto simp: rb_czmq_context_destroy_socket_def rb_czmq_nogvl_zsocket_destroy_def
      mark_socket_closed_def beside_simps assms)

lemma pop_socket_beside:
  assumes "zlist_doc A" and "l \<notin> L" and "\<And>p. keeps (beside A L s) (k p)"
  shows "keeps (beside A L s) (pop_socket A l k)"
proof (rule keepsI)
  fix t assume "beside A L s t"
  then have "beside A L s (t\<lparr>lib := snd (zlist_pop A l (lib t))\<rparr>)" if "live_zlist A l (lib t)"
    using that assms(1,2) by (simp add: beside_def kept_simps)
  then show "wlp (pop_socket A l k) (\<lambda>_. beside A L s) (\<lambda>_. beside A L s) t"
    by (auto simp: pop_socket_def wlp_simps keepsD [OF assms(3)] split: option.split void.split)
qed

lemma free_ctx_beside:
  assumes "zlist_doc A" and "zsock_doc A"
  shows "keeps (beside A L s) (rb_czmq_free_ctx A p)"
proof (rule keepsI)
  fix t assume t: "beside A L s t"
  have ret: "keeps (beside A L s) (ret x)" for x :: ptr by (rule keepsI) (simp add: wlp_simps)
  have loop: "keeps (beside A L s) (pop_socket A l (while_do (\<lambda>socket. socket \<noteq> NULL)
      (\<lambda>socket. call (rb_czmq_context_destroy_socket A socket) (\<lambda>_. pop_socket A l ret)) k))"
    if "l \<notin> L" and "\<And>x. keeps (beside A L s) (k x)" for l and k :: "ptr \<Rightarrow> ('a, unit) vcmd"
    by (intro pop_socket_beside [OF assms(1) that(1)] keeps_while keeps_call destroy_socket_beside assms ret that(2))
  show "wlp (rb_czmq_free_ctx A p) (\<lambda>_. beside A L s) (\<lambda>_. beside A L s) t"
    unfolding rb_czmq_free_ctx_def wlp_deref
  proof (intro allI impI keepsD [OF loop] keepsI t)
    fix c assume "ctxs t p = Some c"
    then show l: "c_sockets c \<notin> L" using t by (simp add: beside_def)
    fix x :: ptr and u assume "beside A L s u"
    then show "wlp (call (rb_czmq_nogvl_zctx_destroy A p) (\<lambda>_. set_ctx p (\<lambda>c. c\<lparr>c_ctx := NULL\<rparr>) (
        wr (\<lambda>s. s\<lparr>ctx_map := (ctx_map s)(c_pidValue c := Qnil)\<rparr>) (live_list A (c_sockets c) (
        tell (zlist_destroy A (c_sockets c)) (set_ctx p (\<lambda>c. c\<lparr>c_sockets := NULL\<rparr>) (ret ())))))))
      (\<lambda>_. beside A L s) (\<lambda>_. beside A L s) u"
      using l by (auto simp: beside_simps assms rb_czmq_nogvl_zctx_destroy_def)
  qed
qed

text \<open>Every call.\<close>

lemma store_all_sel [simp]:
  "frames (rb_ary_store_all a xs s) = frames s" "msgs (rb_ary_store_all a xs s) = msgs s"
  "fresh (rb_ary_store_all a xs s) = fresh s" "lib (rb_ary_store_all a xs s) = lib s"
  "ctxs (rb_ary_store_all a xs s) = ctxs s" "socks (rb_ary_store_all a xs s) = socks s"
  by (simp_all add: rb_ary_store_all_def split: rvalue.split klass.split)

lemmas life_body = rb_czmq_ctx_s_new_def rb_czmq_ctx_set_linger_def rb_czmq_ctx_set_iothreads_def
  rb_czmq_socket_bind_def rb_czmq_socket_connect_def
  rb_czmq_socket_disconnect_def rb_czmq_socket_unbind_def rb_czmq_socket_send_def rb_czmq_socket_recv_def
  rb_czmq_socket_set_verbose_def
  rb_czmq_nogvl_zctx_new_def get_pid_def
  on_socket_eqs on_socket_def record_endpoint_def forget_endpoint_def verbose_log_def verbose_log_str_def gc_log_def
  rb_czmq_nogvl_zstr_send_def rb_czmq_nogvl_zstr_send_internal_def rb_czmq_nogvl_recv_def rb_str_new_cstr_def

text \<open>The end of a collection, and of a call on a new socket.\<close>

lemma collect_beside:
  assumes "life_doc A"
  shows "keeps (beside A L s) (rb_czmq_free_ctx_gc A p)" "keeps (beside A L s) (rb_czmq_free_sock_gc A q)"
proof -
  have d: "zlist_doc A" "zsock_doc A" using assms by (simp_all add: life_doc_def)
  have ret: "keeps (beside A L s) (wr (\<lambda>s. s\<lparr>ctxs := (ctxs s)(p := None)\<rparr>) (ret ()))"
    "keeps (beside A L s) (wr (\<lambda>s. s\<lparr>socks := (socks s)(q := None)\<rparr>) (ret ()))" "keeps (beside A L s) (ret ())"
    by (rule keepsI; auto simp: beside_simps)+
  have log: "keeps (beside A L s) k \<Longrightarrow> keeps (beside A L s) (gc_log A q k)" for k :: "('a, unit) vcmd"
    by (auto simp: keeps_def gc_log_def wlp_simps)
  show "keeps (beside A L s) (rb_czmq_free_ctx_gc A p)" "keeps (beside A L s) (rb_czmq_free_sock_gc A q)"
    unfolding rb_czmq_free_ctx_gc_def rb_czmq_free_sock_gc_def Let_def
    by (intro keeps_intros free_ctx_beside destroy_socket_beside d ret log)+
qed

lemma socket_class_wlp:
  "(\<And>c. wlp (k c) Q E s) \<Longrightarrow> (\<And>e. E e s) \<Longrightarrow> wlp (rb_czmq_ctx_socket_klass A n k) Q E s"
  by (simp add: rb_czmq_ctx_socket_klass_def wlp_simps)

lemma socket_alloc_beside:
  assumes "life_doc A"
  shows "keeps (beside A L s) (rb_czmq_socket_alloc A ctx z h)"
proof (rule keepsI)
  fix t assume "beside A L s t"
  then show "wlp (rb_czmq_socket_alloc A ctx z h) (\<lambda>_. beside A L s) (\<lambda>_. beside A L s) t"
    using assms by (auto simp: life_doc_def rb_czmq_socket_alloc_def ZmqAssertObjOnAlloc_def beside_simps
        intro!: socket_class_wlp guard_wlp)
qed

lemma ctx_socket_beside:
  assumes "life_doc A"
  shows "keeps (beside A L s) (rb_czmq_ctx_socket A obj v)"
proof -
  have d: "zlist_doc A" "zsock_doc A" using assms by (simp_all add: life_doc_def)
  have new: "keeps (beside A L s) (rb_czmq_nogvl_socket_new A z n)" for z n
    by (rule keepsI) (auto simp: rb_czmq_nogvl_socket_new_def beside_simps d)
  have errno: "beside A L s t \<Longrightarrow> beside A L s (t\<lparr>lib := set_errno A 0 (lib t)\<rparr>)" for t
    by (simp add: beside_simps d)
  have push: "l \<notin> L \<Longrightarrow> keeps (beside A L s) (live_list A l (tell (zlist_push A l x) (ret r)))" for l x and r :: rvalue
    by (rule keepsI) (auto simp: beside_simps d)
  have "keeps (beside A L s) (deref ctxs p (\<lambda>c. call (rb_czmq_nogvl_socket_new A (c_ctx c) n) (\<lambda>h.
      call (rb_czmq_socket_alloc A obj (c_ctx c) h) (\<lambda>so. GetZmqSocket so (\<lambda>q. live_list A (c_sockets c) (
      tell (zlist_push A (c_sockets c) (PTR q)) (ret so)))))))" for p n
  proof (rule keepsI)
    fix t assume t: "beside A L s t"
    then have l: "ctxs t p = Some c \<Longrightarrow> c_sockets c \<notin> L" for c by (simp add: beside_def)
    have g: "(\<And>q. keeps (beside A L s) (k q)) \<Longrightarrow> keeps (beside A L s) (GetZmqSocket so k)"
      for so and k :: "ptr \<Rightarrow> ('a, rvalue) vcmd" by (auto simp: keeps_def intro!: guard_wlp)
    show "wlp (deref ctxs p (\<lambda>c. call (rb_czmq_nogvl_socket_new A (c_ctx c) n) (\<lambda>h.
      call (rb_czmq_socket_alloc A obj (c_ctx c) h) (\<lambda>so. GetZmqSocket so (\<lambda>q. live_list A (c_sockets c) (
      tell (zlist_push A (c_sockets c) (PTR q)) (ret so))))))) (\<lambda>_. beside A L s) (\<lambda>_. beside A L s) t"
      unfolding wlp_deref by (intro allI impI keepsD [where K = "beside A L s", OF _ t] keeps_call new socket_alloc_beside [OF assms] g push l)
  qed
  note open_it = keepsD [OF this]
  show ?thesis
    unfolding rb_czmq_ctx_socket_def Let_def
    by (rule keepsI) (auto simp: wlp_lib errno rb_const_get_ZMQ_def wlp_branch wlp_basic
        split: rvalue.split option.split intro!: guard_wlp open_it)
qed

lemma life_beside:
  assumes "life_doc A"
  shows "keeps (beside A L s) (run_life A c)"
proof (rule keepsI)
  fix t assume t: "beside A L s t"
  have d: "zlist_doc A" "zsock_doc A" using assms by (simp_all add: life_doc_def)
  note free = keepsD [OF free_ctx_beside [OF d]] and close = keepsD [OF destroy_socket_beside [OF d]]
  show "wlp (run_life A c) (\<lambda>_. beside A L s) (\<lambda>_. beside A L s) t"
  proof (cases c)
    case (Ctx_socket p v)
    then show ?thesis using keepsD [OF ctx_socket_beside [OF assms] t] by simp
  next
    case (Collect_ctx p)
    then show ?thesis using keepsD [OF collect_beside(1) [OF assms] t] by (simp add: wlp_simps)
  next
    case (Collect_sock q)
    then show ?thesis using keepsD [OF collect_beside(2) [OF assms] t] by (simp add: wlp_simps)
  next
    case (Ctx_destroy p)
    then show ?thesis using t by (auto simp: rb_czmq_ctx_destroy_def wlp_simps intro!: guard_wlp free)
  next
    case (Sock_close q)
    have "beside A L s (t\<lparr>socks := x\<rparr>)" for x using t by (simp add: beside_def)
    then show ?thesis using t by (auto simp: Sock_close rb_czmq_socket_close_def wlp_simps intro!: guard_wlp close)
  qed (use t in \<open>simp_all only: run_life.simps\<close>, auto simp: life_body beside_simps ZmqAssertObjOnAlloc_def d
      split: rvalue.split option.split intro!: guard_wlp assert_wlp StringValue_wlp)
qed

end
