(* ===== verification/Zmq_Program.thy ===== *)
theory Zmq_Program
  imports Zmq_Apart Zmq_Beside
begin

text \<open>
  Whole programs: calls on contexts and sockets, calls on frames and messages, sends and receives,
  collections, forks and thread switches in any order. Each half keeps its own invariant; what a call
  of one half leaves alone carries the invariant and the abstract state of the other over it.
\<close>

section \<open>Two machines on one state\<close>

text \<open>
  Two components that work on the same state keep both invariants together when the final state of a
  call of one has the invariant of the other and what joins them. A call may rely on both.
\<close>

locale pair = left: machine runL validL invL ok + right: machine runR validR invR ok
  for runL :: "'c \<Rightarrow> ('s, 'a) cmd" and validL :: "'s \<Rightarrow> 'c \<Rightarrow> bool" and invL :: "'s \<Rightarrow> bool" and ok :: bool
    and runR :: "'d \<Rightarrow> ('s, 'a) cmd" and validR :: "'s \<Rightarrow> 'd \<Rightarrow> bool" and invR :: "'s \<Rightarrow> bool" +
  fixes join :: "'s \<Rightarrow> bool" and valid :: "'s \<Rightarrow> 'c + 'd \<Rightarrow> bool"
  assumes left_valid: "invL s \<Longrightarrow> valid s (Inl c) \<Longrightarrow> validL s c"
    and right_valid: "invL s \<Longrightarrow> valid s (Inr d) \<Longrightarrow> validR s d"
    and left_leaves: "ok \<Longrightarrow> invR s \<Longrightarrow> join s \<Longrightarrow> final_state (runL c s) = Some t \<Longrightarrow> invR t \<and> join t"
    and right_leaves: "ok \<Longrightarrow> invL s \<Longrightarrow> join s \<Longrightarrow> final_state (runR d s) = Some t \<Longrightarrow> invL t \<and> join t"
begin

lemma left_keeps:
  assumes "ok" and "invL s" and "invR s" and "join s" and "valid s (Inl c)"
  shows "wp (runL c) (\<lambda>_ t. invL t \<and> invR t \<and> join t) (\<lambda>_ t. invL t \<and> invR t \<and> join t) s"
proof (rule wpI)
  note wp = left.keeps [OF assms(1,2) left_valid [OF assms(2,5)]]
  show "safe (runL c s)" by (rule wp_safe [OF wp])
  show "invL t \<and> invR t \<and> join t" if "final_state (runL c s) = Some t" for t
    using wp_final [OF wp that] left_leaves [OF assms(1,3,4) that] by blast
qed

lemma right_keeps:
  assumes "ok" and "invL s" and "invR s" and "join s" and "valid s (Inr d)"
  shows "wp (runR d) (\<lambda>_ t. invL t \<and> invR t \<and> join t) (\<lambda>_ t. invL t \<and> invR t \<and> join t) s"
proof (rule wpI)
  note wp = right.keeps [OF assms(1,3) right_valid [OF assms(2,5)]]
  show "safe (runR d s)" by (rule wp_safe [OF wp])
  show "invL t \<and> invR t \<and> join t" if "final_state (runR d s) = Some t" for t
    using wp_final [OF wp that] right_leaves [OF assms(1,2,4) that] by blast
qed

end

sublocale pair \<subseteq> both: machine "case_sum runL runR" valid "\<lambda>s. invL s \<and> invR s \<and> join s" ok
proof
  show "wp (case_sum runL runR c) (\<lambda>_ t. invL t \<and> invR t \<and> join t) (\<lambda>_ t. invL t \<and> invR t \<and> join t) s"
    if "ok" "invL s \<and> invR s \<and> join s" "valid s c" for s c
    using left_keeps [of s] right_keeps [of s] that by (cases c) simp_all
qed

section \<open>The lists of contexts and the lists of messages\<close>

text \<open>No context keeps its sockets in the list a message keeps its frame objects in.\<close>

definition apart :: "'w vm \<Rightarrow> bool" where
  "apart s \<longleftrightarrow>
     (\<forall>p c m w. ctxs s p = Some c \<longrightarrow> msgs s m = Some w \<longrightarrow> c_sockets c = m_frames w \<longrightarrow> m_frames w = NULL)"

definition message_lists :: "'w vm \<Rightarrow> ptr set" where
  "message_lists s = {m_frames w | m w. msgs s m = Some w \<and> m_frames w \<noteq> NULL}"

definition context_lists :: "'w vm \<Rightarrow> ptr set" where
  "context_lists s = {c_sockets c | p c. ctxs s p = Some c \<and> c_sockets c \<noteq> NULL}"

lemma apart_lists:
  "apart s \<longleftrightarrow> (\<forall>p c. ctxs s p = Some c \<longrightarrow> c_sockets c \<notin> message_lists s)"
  "apart s \<longleftrightarrow> (\<forall>m w. msgs s m = Some w \<longrightarrow> m_frames w \<notin> context_lists s)"
  by (fastforce simp: apart_def message_lists_def context_lists_def)+

text \<open>What a call leaves, from the state before it.\<close>

lemma beside_start:
  assumes "fm_inv A s" and "apart s"
  shows "beside A (message_lists s) s s"
proof -
  have "m_frames w \<in> dom (zlists (view A (lib s)))" if "msgs s m = Some w" "m_frames w \<noteq> NULL" for m w
    using ownsD(4) [OF fm_invD [OF assms(1)] that(1)] that(2) by (auto simp: message_ok_def holds_frames_def)
  then have "message_lists s \<subseteq> dom (zlists (view A (lib s)))" by (auto simp: message_lists_def)
  then show ?thesis
    using assms(2) unfolding apart_lists(1) by (simp add: beside_def kept_def) (auto simp: message_lists_def)
qed

lemma outside_start:
  assumes "life_inv A s" and "apart s"
  shows "outside A (context_lists s) s s"
proof -
  have "c_sockets c \<in> dom (zlists (view A (lib s)))" if "ctxs s p = Some c" "c_sockets c \<noteq> NULL" for p c
    using lifeD(6) [OF life_invD [OF assms(1)] that(1)] that(2) by (auto simp: ctx_ok_def)
  then have "context_lists s \<subseteq> dom (zlists (view A (lib s)))" by (auto simp: context_lists_def)
  then show ?thesis
    using assms(2) unfolding apart_lists(2) by (simp add: outside_def seen_def) (auto simp: context_lists_def)
qed

lemma same_on: "f |` L = g |` L \<Longrightarrow> l \<in> L \<Longrightarrow> f l = g l"
  by (metis restrict_in)

lemma beside_end:
  assumes "beside A (message_lists s) s t" and "fm_inv A s"
  shows "fm_inv A t" and "abs_store A t = abs_store A s" and "apart t"
proof -
  note b = assms(1) [unfolded beside_def kept_def, simplified]
  note own = fm_invD [OF assms(2)]
  have l: "zlists (view A (lib t)) (m_frames w) = zlists (view A (lib s)) (m_frames w)"
    if "msgs s m = Some w" "m_frames w \<noteq> NULL" for m w
    by (rule same_on [where L = "message_lists s"]) (use b that in \<open>auto simp: message_lists_def\<close>)
  have "owns (frames s) (msgs s) (zframes (view A (lib s))) (zmsgs (view A (lib s))) (zlists (view A (lib t))) (fresh s)"
    by (rule owns_lists_cong [OF own l]) simp_all
  from owns_frames_mono [OF this, of "zframes (view A (lib t))" "fresh t"] show "fm_inv A t"
    using b by (simp add: fm_inv_def)
  have "contents_of (frames s) (msgs s) (zframes (view A (lib s))) (zlists (view A (lib t))) m =
      contents_of (frames s) (msgs s) (zframes (view A (lib s))) (zlists (view A (lib s))) m" for m
    by (rule contents_cong [OF own refl]) (use l owned_messageD(4) [OF own] in blast)
  then show "abs_store A t = abs_store A s"
    using b unfolding abs_store_def by (intro store_eqI) simp_all
  have "message_lists t = message_lists s" using b by (simp add: message_lists_def)
  then show "apart t" using b by (simp add: apart_lists(1))
qed

lemma outside_end:
  assumes "outside A (context_lists s) s t" and "life_inv A s" and "zlist_doc A"
  shows "life_inv A t" and "abs_life t = abs_life s" and "apart t"
proof -
  note o = assms(1) [unfolded outside_def seen_def, simplified]
  note D = lifeD [OF life_invD [OF assms(2)]]
  show "life_inv A t"
    unfolding life_inv_def
  proof (rule lifeI)
    fix p c assume c: "ctxs t p = Some c"
    have "zlists (view A (lib t)) (c_sockets c) = zlists (view A (lib s)) (c_sockets c)" if "c_sockets c \<noteq> NULL"
      by (rule same_on [where L = "context_lists s"]) (use o c that in \<open>auto simp: context_lists_def\<close>)
    moreover have "c_sockets c \<noteq> NULL" if "c_flags c = 0"
      using D(6) [of p c] o c that zlist_newD(5) [OF assms(3), of "lib s"] unfolding ctx_ok_def
      by (cases "c_sockets c = NULL") auto
    ultimately show "ctx_ok (socks t) (ctx_map t) (zctxs (view A (lib t))) (zlists (view A (lib t))) p c"
      using o c by (intro ctx_ok_cong [OF D(6)]) auto
  qed (use D o in \<open>auto dest: order_trans\<close>)
  show "abs_life t = abs_life s" by (rule abs_life_cong) (use o in simp_all)
  have "context_lists t = context_lists s" using o by (simp add: context_lists_def)
  then show "apart t" using o by (simp add: apart_lists(2))
qed

section \<open>Whole programs\<close>

declare socket_klass.simps [simp del]

text \<open>
  A call needs its objects, as every object a Ruby program holds is allocated; the pipes of beacons
  are left to beacon.c.
\<close>

fun call_valid :: "'w czmq \<Rightarrow> 'w vm \<Rightarrow> life_call + xcall \<Rightarrow> bool" where
  "call_valid A s (Inl c) \<longleftrightarrow> life_valid A s c"
| "call_valid A s (Inr (Store c)) \<longleftrightarrow> valid A s c"
| "call_valid A s (Inr (Io obj c)) \<longleftrightarrow>
     (\<forall>k q. obj = Object k q \<longrightarrow> socket_klass k \<longrightarrow> q \<noteq> NULL \<longrightarrow> usable s q) \<and> io_args s c"

definition program_inv :: "'w czmq \<Rightarrow> 'w vm \<Rightarrow> bool" where
  "program_inv A s \<longleftrightarrow> life_inv A s \<and> fm_inv A s \<and> apart s"

definition program_doc :: "'w czmq \<Rightarrow> bool" where
  "program_doc A \<longleftrightarrow> exchange_doc A \<and> zctx_never_fails A"

lemma program_docD:
  assumes "program_doc A"
  shows "exchange_doc A" "life_doc A" "lib_doc A" "zlist_doc A"
  using assms exchange_docD [of A] lib_docD [of A] by (simp_all add: program_doc_def life_doc_def)

lemma usable_sound:
  assumes "life_inv A s" and "\<And>k q. obj = Object k q \<Longrightarrow> socket_klass k \<Longrightarrow> q \<noteq> NULL \<Longrightarrow> usable s q"
  shows "sound_value A s obj"
  unfolding sound_value_def
proof (intro allI impI)
  fix k q assume "obj = Object k q" "socket_klass k" "q \<noteq> NULL"
  then obtain w where w: "socks s q = Some w" "s_context w \<noteq> Qnil"
    using assms(2) by (auto simp: usable_def split: option.splits)
  have f: "s_flags w = 0 \<or> s_flags w = 1" using lifeD(8) [OF life_invD [OF assms(1)] w(1)] by (auto simp: sock_ok_def)
  have "zsocks (view A (lib s)) (s_socket w) \<noteq> None" if "s_flags w = 0"
    by (rule sock_atE [OF assms(1) w(1) that w(2)]) (auto simp: sock_at_def)
  then show "\<exists>w. socks s q = Some w \<and>
      (has (s_flags w) ZMQ_SOCKET_DESTROYED \<or> zsocks (view A (lib s)) (s_socket w) \<noteq> None)"
    using w(1) f by auto
qed

lemma xcall_leaves:
  assumes "program_doc A" and "life_inv A s" and "apart s" and "final_state (xexec A c s) = Some t"
  shows "life_inv A t \<and> abs_life t = abs_life s \<and> apart t"
proof -
  have k: "keeps (outside A (context_lists s) s) (xexec A c)"
    by (cases c) (simp_all add: exec_outside io_outside program_docD [OF assms(1)])
  show ?thesis using outside_end [OF keeps_final [OF k outside_start [OF assms(2,3)] assms(4)] assms(2) program_docD(4) [OF assms(1)]] by blast
qed

lemma life_call_leaves:
  assumes "program_doc A" and "fm_inv A s" and "apart s" and "final_state (run_life A c s) = Some t"
  shows "fm_inv A t \<and> abs_store A t = abs_store A s \<and> apart t"
proof -
  have k: "keeps (beside A (message_lists s) s) (run_life A c)"
    by (rule life_beside [OF program_docD(2) [OF assms(1)]])
  show ?thesis using beside_end [OF keeps_final [OF k beside_start [OF assms(2,3)] assms(4)] assms(2)] by blast
qed

interpretation program: pair "run_life A" "life_valid A" "life_inv A" "program_doc A" "xexec A" "xvalid A" "fm_inv A"
    apart "call_valid A"
proof
  show "wp (run_life A c) (\<lambda>_. life_inv A) (\<lambda>_. life_inv A) s"
    if "program_doc A" "life_inv A s" "life_valid A s c" for s c
    by (rule life.keeps [OF program_docD(2) [OF that(1)] that(2,3)])
  show "wp (xexec A c) (\<lambda>_. fm_inv A) (\<lambda>_. fm_inv A) s"
    if "program_doc A" "fm_inv A s" "xvalid A s c" for s c
    by (rule exchange.keeps [OF program_docD(1) [OF that(1)] that(2,3)])
  show "xvalid A s c" if "life_inv A s" "call_valid A s (Inr c)" for s c
    using that(2) usable_sound [OF that(1)] by (cases c) simp_all
qed (use xcall_leaves life_call_leaves in \<open>simp, blast+\<close>)

end
