(* ===== verification/Zmq_Quiet.thy ===== *)
theory Zmq_Quiet
  imports Zmq_Program Zmq_Options Zmq_Monitor
begin

text \<open>
  The calls that change neither contexts and sockets nor frames and messages: the readers of frames
  and messages, the accessors and options of sockets, polling. Each needs the invariant to be safe,
  and leaves it.
\<close>

declare socket_klass.simps [simp del]

section \<open>States that differ in nothing the program owns\<close>

definition quiet :: "'w czmq \<Rightarrow> 'w vm \<Rightarrow> 'w vm \<Rightarrow> bool" where
  "quiet A s t \<longleftrightarrow>
     alike A s t \<and> frames t = frames s \<and> msgs t = msgs s \<and>
     zframes (view A (lib t)) = zframes (view A (lib s)) \<and> zmsgs (view A (lib t)) = zmsgs (view A (lib s))"

lemma quiet_program:
  assumes "quiet A s t" and "program_inv A s"
  shows "program_inv A t" and "abs_life t = abs_life s" and "abs_store A t = abs_store A s"
proof -
  note q = assms(1) [unfolded quiet_def alike_def]
  note life = alike_life [of A s t] and inv = assms(2) [unfolded program_inv_def]
  show "abs_life t = abs_life s" using life assms(1) inv by (simp add: quiet_def)
  show "abs_store A t = abs_store A s" using q by (simp add: abs_store_def)
  have "fm_inv A t"
    using owns_frames_mono [OF fm_invD [of A s], of "zframes (view A (lib s))" "fresh t"] q inv
    by (simp add: fm_inv_def)
  moreover have "apart t" using inv q by (simp add: apart_def)
  ultimately show "program_inv A t" using life assms(1) inv by (simp add: quiet_def program_inv_def)
qed

text \<open>The objects of the library that the program owns.\<close>

definition same_objects :: "'w czmq \<Rightarrow> 'w \<Rightarrow> 'w \<Rightarrow> bool" where
  "same_objects A w w' \<longleftrightarrow>
     zframes (view A w') = zframes (view A w) \<and> zmsgs (view A w') = zmsgs (view A w) \<and>
     zlists (view A w') = zlists (view A w) \<and> zctxs (view A w') = zctxs (view A w) \<and>
     zsocks (view A w') = zsocks (view A w)"

lemma same_objects_view: "view A w' = view A w \<Longrightarrow> same_objects A w w'"
  by (simp add: same_objects_def)

lemma quiet_refl [simp]: "quiet A s s"
  by (simp add: quiet_def alike_def)

lemma quiet_lib: "quiet A s t \<Longrightarrow> same_objects A (lib t) w \<Longrightarrow> quiet A s (t\<lparr>lib := w\<rparr>)"
  by (simp add: quiet_def alike_def same_objects_def)

text \<open>An object a Ruby program holds is allocated; the pipes of beacons are left to beacon.c.\<close>

fun held :: "'w vm \<Rightarrow> rvalue \<Rightarrow> bool" where
  "held s (Object k p) \<longleftrightarrow>
     p \<noteq> NULL \<and> (socket_klass k \<longrightarrow> usable s p) \<and> (k = rb_cZmqContext \<longrightarrow> ctxs s p \<noteq> None) \<and>
     (k = rb_cZmqFrame \<longrightarrow> frames s p \<noteq> None) \<and> (k = rb_cZmqMessage \<longrightarrow> msgs s p \<noteq> None)"
| "held s v \<longleftrightarrow> True"

section \<open>What the guards let through\<close>

lemma quiet_socket:
  assumes "program_inv A s" and "held s obj" and "\<And>e. E e s"
    and k: "\<And>q w. socks s q = Some w \<Longrightarrow> zsocks (view A (lib s)) (s_socket w) \<noteq> None \<Longrightarrow> wp (k q) Q E s"
  shows "wp (GetZmqSocket obj k) Q E s"
proof (rule wp_GetZmqSocket, rule assms(3))
  have inv: "life_inv A s" using assms(1) by (simp add: program_inv_def)
  fix c q assume q: "obj = Object c q" "socket_klass c" "q \<noteq> NULL"
  then have u: "usable s q" using assms(2) by simp
  then show "socks s q \<noteq> None" by (auto simp: usable_def split: option.splits)
  show "wp (k q) Q E s" if w: "socks s q = Some w" "\<not> has (s_flags w) ZMQ_SOCKET_DESTROYED" for w
  proof (rule k [OF w(1)])
    have "s_flags w = 0" using lifeD(8) [OF life_invD [OF inv] w(1)] w(2) by (auto simp: sock_ok_def)
    moreover have "s_context w \<noteq> Qnil" using u w(1) by (simp add: usable_def)
    ultimately show "zsocks (view A (lib s)) (s_socket w) \<noteq> None"
      by (rule sock_atE [OF inv w(1)]) (simp add: sock_at_def)
  qed
qed

lemma wp_frame_guards [wp_simps]:
  "accessible s p \<Longrightarrow> wp (ZmqAssertFrameOwned p k) Q E s = wp k Q E s"
  "accessible s p \<Longrightarrow> wp (ZmqReturnNilUnlessFrameOwned p k') Q E s = wp k' Q E s"
  "gone s p \<Longrightarrow> wp (ZmqAssertFrameOwned p k) Q E s =
     E (ZmqError ''Cannot access frame that belongs to another message or is gone.'') s"
  "gone s p \<Longrightarrow> wp (ZmqReturnNilUnlessFrameOwned p k') Q E s = Q Qnil s"
  by (simp_all add: wp_def run)

lemma held_frame_cases:
  assumes "program_inv A s" and "frames s p = Some f"
  shows "accessible s p \<and> zframes (view A (lib s)) (f_frame f) \<noteq> None \<or> gone s p"
proof -
  note own = fm_invD [of A s] and inv = assms(1) [unfolded program_inv_def]
  have flags: "m_flags w = 0 \<or> m_flags w = 1" if "msgs s m = Some w" for m w
    using ownsD(4) [OF own that] inv by (auto simp: message_ok_def)
  have "frame_ok (msgs s) (zframes (view A (lib s))) (zlists (view A (lib s))) (fresh s) p f"
    by (rule ownsD(2) [OF own assms(2)]) (use inv in simp)
  then have "readable (frames s) (msgs s) p \<and> accessible s p \<or> gone s p"
    using assms(2) by (auto simp: frame_ok_def gone_def readable_def accessible_def dest: flags split: option.splits)
  then show ?thesis using readable_live [OF own, of p] inv assms(2) by (auto simp: czframe_def)
qed

lemma quiet_frame:
  assumes "program_inv A s" and "held s obj" and "\<And>e. E e s" and "Q Qnil s"
    and k: "\<And>p f. obj = Frame p \<Longrightarrow> frames s p = Some f \<Longrightarrow> accessible s p \<Longrightarrow> zframes (view A (lib s)) (f_frame f) \<noteq> None \<Longrightarrow>
      wp (k p) Q E s"
  shows "wp (ZmqGetFrame obj (\<lambda>p. ZmqAssertFrameOwned p (k p))) Q E s"
    and "wp (ZmqGetFrame obj (\<lambda>p. ZmqReturnNilUnlessFrameOwned p (k p))) Q E s"
proof -
  have "wp (ZmqAssertFrameOwned p (k p)) Q E s \<and> wp (ZmqReturnNilUnlessFrameOwned p (k p)) Q E s"
    if p: "obj = Frame p" "p \<noteq> NULL" for p
  proof -
    obtain f where f: "frames s p = Some f" using assms(2) p by auto
    show ?thesis using held_frame_cases [OF assms(1) f] k [OF p(1) f] assms(3,4) by (auto simp: wp_frame_guards)
  qed
  then show "wp (ZmqGetFrame obj (\<lambda>p. ZmqAssertFrameOwned p (k p))) Q E s"
    "wp (ZmqGetFrame obj (\<lambda>p. ZmqReturnNilUnlessFrameOwned p (k p))) Q E s"
    using assms(3) by (auto simp: ZmqGetFrame_def wp_simps split: rvalue.split)
qed

lemma held_message_cases:
  assumes "program_inv A s" and "msgs s m = Some w"
  shows "m_flags w = 1 \<and> zmsgs (view A (lib s)) (m_message w) \<noteq> None \<and> zlists (view A (lib s)) (m_frames w) \<noteq> None \<or>
    m_flags w = 0"
proof -
  have own: "fm_inv A s" using assms(1) by (simp add: program_inv_def)
  show ?thesis using ownsD(4) [OF fm_invD [OF own] assms(2)] owned_messageD(5,6) [OF fm_invD [OF own] assms(2)]
    by (auto simp: message_ok_def)
qed

lemma quiet_message:
  assumes "program_inv A s" and "held s obj" and "\<And>e. E e s" and "Q Qnil s"
    and k: "\<And>m w. msgs s m = Some w \<Longrightarrow> m_flags w = 1 \<Longrightarrow> zmsgs (view A (lib s)) (m_message w) \<noteq> None \<Longrightarrow>
      zlists (view A (lib s)) (m_frames w) \<noteq> None \<Longrightarrow> wp (k m) Q E s"
  shows "wp (ZmqGetMessage obj (\<lambda>m. ZmqAssertMessageOwned m (k m))) Q E s"
    and "wp (ZmqGetMessage obj (\<lambda>m. ZmqReturnNilUnlessOwned m (k m))) Q E s"
proof -
  have "wp (ZmqAssertMessageOwned m (k m)) Q E s \<and> wp (ZmqReturnNilUnlessOwned m (k m)) Q E s"
    if m: "obj = Message m" "m \<noteq> NULL" for m
  proof -
    obtain w where w: "msgs s m = Some w" using assms(2) m by auto
    show ?thesis using held_message_cases [OF assms(1) w] k [OF w] w assms(3,4)
      by (auto simp: ZmqAssertMessageOwned_def ZmqReturnNilUnlessOwned_def wp_simps)
  qed
  then show "wp (ZmqGetMessage obj (\<lambda>m. ZmqAssertMessageOwned m (k m))) Q E s"
    "wp (ZmqGetMessage obj (\<lambda>m. ZmqReturnNilUnlessOwned m (k m))) Q E s"
    using assms(3) by (auto simp: ZmqGetMessage_def wp_simps split: rvalue.split)
qed

section \<open>Sockets\<close>

text \<open>A command that is quiet wherever the program has got to without noise.\<close>

definition calm :: "'w czmq \<Rightarrow> 'w vm \<Rightarrow> ('w, 'a) vcmd \<Rightarrow> bool" where
  "calm A s m \<longleftrightarrow> wp m (\<lambda>_. quiet A s) (\<lambda>_. quiet A s) s"

lemma calmI: "wp m (\<lambda>_. quiet A s) (\<lambda>_. quiet A s) s \<Longrightarrow> calm A s m"
  by (simp add: calm_def)

lemma objects_option:
  assumes "zsock_doc A" and "zsocks (view A w) h = Some c"
  shows "same_objects A w (zsocket_set_opt A opt h n w)" "same_objects A w (zsocket_set_str A opt h cs w)"
    "same_objects A w (snd (zsocket_poll A h i w))"
    "zsocks (view A (zsocket_set_opt A opt h n w)) = zsocks (view A w)"
    "zsocks (view A (zsocket_set_str A opt h cs w)) = zsocks (view A w)"
proof -
  obtain d t where "zsocks (view A w) h = Some (d, t)" using assms(2) by (cases c) auto
  note doc = zsocket_liveD(1-10) [OF assms(1) this] and set = zsocket_set_optD [OF assms(1) this]
  show "same_objects A w (zsocket_set_opt A opt h n w)" "same_objects A w (zsocket_set_str A opt h cs w)"
    "same_objects A w (snd (zsocket_poll A h i w))"
    "zsocks (view A (zsocket_set_opt A opt h n w)) = zsocks (view A w)"
    "zsocks (view A (zsocket_set_str A opt h cs w)) = zsocks (view A w)" by (simp_all add: same_objects_def doc set)
qed

lemma option_calm:
  assumes "zsock_doc A" and "program_inv A s" and "held s obj"
  shows "calm A s (ZmqSetSockOpt A obj opt v)" "calm A s (ZmqSetBooleanSockOpt A obj opt v)"
    "calm A s (ZmqSetStringSockOpt A obj opt v (\<lambda>sock. ZmqAssertSockOptFor A sock ty))"
    "\<And>k. (\<And>n. calm A s (k n)) \<Longrightarrow> calm A s (get_sock_opt A obj opt k)"
    "calm A s (rb_czmq_socket_set_opt_identity A obj v)"
proof -
  note socket = quiet_socket [OF assms(2,3) quiet_refl]
  note simps = wp_simps verbose_log_def CheckBoolean_def ZmqAssertSockOptFor_def objects_option [OF assms(1)]
  show "calm A s (ZmqSetSockOpt A obj opt v)" "calm A s (ZmqSetBooleanSockOpt A obj opt v)"
    "calm A s (ZmqSetStringSockOpt A obj opt v (\<lambda>sock. ZmqAssertSockOptFor A sock ty))"
    "\<And>k. (\<And>n. calm A s (k n)) \<Longrightarrow> calm A s (get_sock_opt A obj opt k)"
    "calm A s (rb_czmq_socket_set_opt_identity A obj v)"
    unfolding ZmqSetSockOpt_def ZmqSetBooleanSockOpt_def ZmqSetStringSockOpt_def get_sock_opt_def
      rb_czmq_socket_set_opt_identity_def calm_def
    by (rule socket; auto simp: simps Let_def intro!: quiet_lib split: rvalue.split)+
qed

lemma socket_calm:
  assumes "zsock_doc A" and "program_inv A s" and "held s obj"
  shows "calm A s (rb_czmq_socket_endpoints obj)" "calm A s (rb_czmq_socket_state obj)" "calm A s (rb_czmq_socket_fd A obj)"
    "calm A s (rb_czmq_socket_poll A obj v)" "calm A s (rb_czmq_socket_opt_linger obj)"
    "calm A s (rb_czmq_socket_opt_last_endpoint A obj)"
  unfolding rb_czmq_socket_endpoints_def rb_czmq_socket_state_def rb_czmq_socket_fd_def rb_czmq_socket_poll_def
    rb_czmq_socket_opt_linger_def rb_czmq_socket_opt_last_endpoint_def rb_czmq_nogvl_poll_def calm_def
  by (rule quiet_socket [OF assms(2,3) quiet_refl];
      auto simp: wp_simps objects_option(3) [OF assms(1)] rb_str_new_cstr_def intro!: quiet_lib split: rvalue.split option.split)+

section \<open>Frames\<close>

lemma frame_readers_calm:
  assumes "zframe_doc A" and "program_inv A s" and "held s obj"
  shows "calm A s (rb_czmq_frame_size A obj)" "calm A s (rb_czmq_frame_data A obj)" "calm A s (rb_czmq_frame_to_s A obj)"
    "calm A s (rb_czmq_frame_strhex A obj)" "calm A s (rb_czmq_frame_data_equals_p A obj v)"
    "calm A s (rb_czmq_frame_more_p A obj)" "calm A s (rb_czmq_frame_print A argv obj)"
    "calm A s (rb_czmq_frame_gone obj)"
proof -
  note frame = quiet_frame [OF assms(2,3) quiet_refl quiet_refl]
  show "calm A s (rb_czmq_frame_size A obj)" "calm A s (rb_czmq_frame_data A obj)" "calm A s (rb_czmq_frame_to_s A obj)"
    "calm A s (rb_czmq_frame_strhex A obj)" "calm A s (rb_czmq_frame_data_equals_p A obj v)"
    "calm A s (rb_czmq_frame_more_p A obj)" "calm A s (rb_czmq_frame_print A argv obj)"
    unfolding rb_czmq_frame_size_def rb_czmq_frame_data_def rb_czmq_frame_to_s_def rb_czmq_frame_strhex_def
      rb_czmq_frame_data_equals_p_def rb_czmq_frame_more_p_def rb_czmq_frame_print_def calm_def
    by (rule frame; auto simp: wp_simps Let_def rb_scan_args_01_def zframe_liveD [OF assms(1)]
        intro!: quiet_lib same_objects_view split: rvalue.split list.split)+
  show "calm A s (rb_czmq_frame_gone obj)"
  proof (rule calmI)
    have "wp (frame_accessible p (\<lambda>ok. ret (if ok then Qfalse else Qtrue))) (\<lambda>_. quiet A s) (\<lambda>_. quiet A s) s"
      if "frames s p = Some f" for p f
      using held_frame_cases [OF assms(2) that] by (auto simp: wp_def run)
    then show "wp (rb_czmq_frame_gone obj) (\<lambda>_. quiet A s) (\<lambda>_. quiet A s) s"
      using assms(3) by (auto simp: rb_czmq_frame_gone_def ZmqGetFrame_def wp_simps split: rvalue.split)
  qed
qed

lemma frame_compare_calm:
  assumes "zframe_doc A" and "program_inv A s" and "held s obj" and "held s v"
  shows "calm A s (rb_czmq_frame_eql_p A obj v)" "calm A s (rb_czmq_frame_equals A obj v)"
    "frame_body A s v \<noteq> None \<or> (\<forall>p. v \<noteq> Frame p) \<Longrightarrow> calm A s (rb_czmq_frame_cmp A obj v)"
proof -
  note frame = quiet_frame [OF assms(2,3) quiet_refl quiet_refl]
  show eql: "calm A s (rb_czmq_frame_eql_p A obj v)"
    unfolding rb_czmq_frame_eql_p_def calm_def
  proof (rule frame, goal_cases)
    case f: (1 p f)
    show ?case
    proof (cases v)
      case (Object k q)
      show ?thesis
      proof (cases "k = rb_cZmqFrame")
        case True
        then obtain g where g: "q \<noteq> NULL" "frames s q = Some g" using assms(4) Object by auto
        show ?thesis using held_frame_cases [OF assms(2) g(2)] f g True
          by (auto simp: Object ZmqGetFrame_def wp_simps)
      qed (simp add: Object ZmqGetFrame_def wp_simps)
    qed (simp_all add: ZmqGetFrame_def wp_simps)
  qed
  then show "calm A s (rb_czmq_frame_equals A obj v)" by (simp add: rb_czmq_frame_equals_def calm_def)
  show "calm A s (rb_czmq_frame_cmp A obj v)" if v: "frame_body A s v \<noteq> None \<or> (\<forall>p. v \<noteq> Frame p)"
  proof (cases "obj = v")
    case False
    show ?thesis
      unfolding rb_czmq_frame_cmp_def calm_def if_not_P [OF False]
    proof (rule frame, goal_cases)
      case f: (1 p f)
      show ?case
      proof (cases "frame_body A s v")
        case None
        then have "\<forall>p. v \<noteq> Frame p" using v by simp
        then show ?thesis by (auto simp: ZmqGetFrame_def wp_simps split: rvalue.split)
      next
        case (Some b)
        then obtain q g where "v = Frame q" "q \<noteq> NULL" "frames s q = Some g" "zframes (view A (lib s)) (f_frame g) = Some b"
          by (rule frame_bodyE)
        then show ?thesis using f by (simp add: wp_simps Let_def)
      qed
    qed
  qed (simp add: rb_czmq_frame_cmp_def calm_def)
qed

section \<open>Messages\<close>

lemma message_readers_calm:
  assumes "zlist_doc A" and "zmsg_doc A" and "program_inv A s" and "held s obj"
  shows "calm A s (rb_czmq_message_size A obj)" "calm A s (rb_czmq_message_content_size A obj)"
    "calm A s (rb_czmq_message_print A obj)" "calm A s (rb_czmq_message_encode A obj)"
    "calm A s (rb_czmq_message_first A obj)" "calm A s (rb_czmq_message_next A obj)"
    "calm A s (rb_czmq_message_last A obj)" "calm A s (rb_czmq_message_gone obj)"
proof -
  note message = quiet_message [OF assms(3,4) quiet_refl quiet_refl]
  show "calm A s (rb_czmq_message_size A obj)" "calm A s (rb_czmq_message_content_size A obj)"
    "calm A s (rb_czmq_message_print A obj)" "calm A s (rb_czmq_message_encode A obj)"
    "calm A s (rb_czmq_message_first A obj)" "calm A s (rb_czmq_message_next A obj)"
    "calm A s (rb_czmq_message_last A obj)"
    unfolding rb_czmq_message_size_def rb_czmq_message_content_size_def rb_czmq_message_print_def
      rb_czmq_message_encode_def rb_czmq_message_first_def rb_czmq_message_next_def rb_czmq_message_last_def calm_def
    by (rule message; auto simp: wp_simps zlist_liveD [OF assms(1)] zmsg_liveD [OF assms(2)]
        intro!: quiet_lib same_objects_view)+
  show "calm A s (rb_czmq_message_gone obj)"
    using assms(4) by (auto simp: calm_def rb_czmq_message_gone_def ZmqGetMessage_def wp_simps split: rvalue.split)
qed

lemma message_equals_calm:
  assumes "program_inv A s" and "held s obj" and "held s v"
  shows "calm A s (rb_czmq_message_equals A obj v)"
proof (cases "\<exists>m n. obj = Message m \<and> v = Message n \<and> obj \<noteq> v")
  case True
  then obtain m n where m: "obj = Message m" "v = Message n" "obj \<noteq> v" by blast
  then obtain w u where w: "m \<noteq> NULL" "msgs s m = Some w" "n \<noteq> NULL" "msgs s n = Some u" using assms(2,3) by auto
  show ?thesis
    using m w held_message_cases [OF assms(1) w(2)] held_message_cases [OF assms(1) w(4)]
    by (auto simp: calm_def rb_czmq_message_equals_def rb_czmq_message_eql_p_def ZmqAssertMessage_def
        ZmqAssertMessageOwned_def wp_simps)
next
  case False
  have obj: "ZmqGetMessage obj k s = Raise e s" if "\<forall>m. obj \<noteq> Message m" "e = TypeError ''ZMQ::Message''" for e k
    using that by (cases obj) (auto simp: ZmqGetMessage_def fetch_def)
  show ?thesis
  proof (cases "\<exists>m. obj = Message m \<and> obj \<noteq> v")
    case True
    then show ?thesis using False assms(2)
      by (auto simp: calm_def rb_czmq_message_equals_def rb_czmq_message_eql_p_def ZmqAssertMessage_def wp_simps
          split: rvalue.split)
  next
    case False
    then show ?thesis by (cases "obj = v") (simp_all add: calm_def rb_czmq_message_equals_def rb_czmq_message_eql_p_def wp_def obj)
  qed
qed

text \<open>
  \<^verbatim>\<open>to_a\<close> walks a list: that it ends without a fault is one result, what it leaves alone is another.
\<close>

lemma quiet_array [simp]:
  "quiet A s (t\<lparr>arrays := ar\<rparr>) = quiet A s t"
  "quiet A s t \<Longrightarrow> quiet A s (t\<lparr>arrays := ar, fresh := Suc (fresh t)\<rparr>)"
  by (auto simp: quiet_def alike_def)

lemma quiet_push: "quiet A s t \<Longrightarrow> quiet A s (rb_ary_store_all a xs t)"
  by (simp add: rb_ary_store_all_def split: rvalue.split klass.split)

lemma quiet_list:
  assumes "zlist_doc A" and "live_zlist A l (lib t)" and "quiet A s t"
  shows "quiet A s (t\<lparr>lib := snd (zlist_first A l (lib t))\<rparr>)" "quiet A s (t\<lparr>lib := snd (zlist_next A l (lib t))\<rparr>)"
proof -
  obtain xs where "zlists (view A (lib t)) l = Some xs" using assms(2) by (auto simp: alive_def)
  note doc = zlist_liveD [OF assms(1) this]
  show "quiet A s (t\<lparr>lib := snd (zlist_first A l (lib t))\<rparr>)" "quiet A s (t\<lparr>lib := snd (zlist_next A l (lib t))\<rparr>)"
    by (intro quiet_lib [OF assms(3)] same_objects_view doc)+
qed

lemma to_a_leaves:
  assumes "zlist_doc A" and "quiet A s t" and "live_zlist A l (lib t)"
  shows "wlp (while_do (\<lambda>frame_obj. frame_obj \<noteq> Qfalse)
       (\<lambda>frame_obj. rb_ary_push array frame_obj (invoke (zlist_next A l) (\<lambda>next_obj. ret (VALUE_of next_obj))))
       (\<lambda>_. ret array) x) (\<lambda>_. quiet A s) (\<lambda>_. quiet A s) t"
proof -
  let ?K = "\<lambda>u. quiet A s u \<and> live_zlist A l (lib u)"
  have k: "keeps ?K (while_do (\<lambda>frame_obj. frame_obj \<noteq> Qfalse)
       (\<lambda>frame_obj. rb_ary_push array frame_obj (invoke (zlist_next A l) (\<lambda>next_obj. ret (VALUE_of next_obj))))
       (\<lambda>_. ret array) x)"
  proof (rule keeps_while, rule keepsI)
    fix x u assume u: "?K u"
    let ?u = "rb_ary_store_all array (ary u array @ [x]) u"
    have k: "quiet A s ?u" "live_zlist A l (lib ?u)" using u by (simp_all add: quiet_push)
    then obtain xs where "zlists (view A (lib ?u)) l = Some xs" by (auto simp: alive_def)
    then have "live_zlist A l (snd (zlist_next A l (lib ?u)))"
      by (simp add: alive_def zlist_liveD(13) [OF assms(1)])
    then show "wlp (rb_ary_push array x (invoke (zlist_next A l) (\<lambda>next_obj. ret (VALUE_of next_obj)))) (\<lambda>_. ?K) (\<lambda>_. ?K) u"
      using quiet_list(2) [OF assms(1) k(2,1)] by (simp add: wlp_simps)
  qed (simp add: keeps_def wlp_simps)
  show ?thesis by (rule wlp_conseq [OF keepsD [OF k]]) (use assms(2,3) in auto)
qed

lemma to_a_quiet:
  assumes "zlist_doc A" and "quiet A s s"
  shows "wlp (rb_czmq_message_to_a A obj) (\<lambda>_. quiet A s) (\<lambda>_. quiet A s) s"
proof -
  have live: "live_zlist A l (snd (zlist_first A l w))" if "live_zlist A l w" for l w
    using that zlist_liveD(10) [OF assms(1)] by (auto simp: alive_def)
  show ?thesis
    using assms(2) unfolding rb_czmq_message_to_a_def
    by (intro guard_wlp) (auto simp: wlp_simps ZmqAssertMessageOwned_def intro!: to_a_leaves [OF assms(1)]
        quiet_list(1) [OF assms(1), where t = "s\<lparr>arrays := ar, fresh := n\<rparr>" for ar n, simplified] live)
qed

lemma to_a_calm:
  assumes "lib_doc A" and "program_inv A s" and "held s obj"
  shows "calm A s (rb_czmq_message_to_a A obj)"
proof -
  have inv: "fm_inv A s" using assms(2) by (simp add: program_inv_def)
  have "safe (rb_czmq_message_to_a A obj s)"
  proof (cases obj)
    case (Object k m)
    show ?thesis
    proof (cases "k = rb_cZmqMessage")
      case True
      then obtain w where w: "m \<noteq> NULL" "msgs s m = Some w" using assms(3) Object by auto
      show ?thesis
      proof (cases "contents (abs_store A s) m")
        case None
        have "msgs s m \<noteq> None" using w(2) by simp
        then obtain u where "msgs s m = Some u" "m_flags u = 0" by (rule gone_message [OF inv _ None])
        then show ?thesis using True w by (simp add: Object rb_czmq_message_to_a_def)
      next
        case (Some xs)
        then show ?thesis using to_a_refines [OF assms(1) inv Some] True by (auto simp: Object)
      qed
    qed (simp add: Object rb_czmq_message_to_a_def ZmqGetMessage_def fetch_def)
  qed (simp_all add: rb_czmq_message_to_a_def ZmqGetMessage_def fetch_def)
  then show ?thesis
    using to_a_quiet [OF lib_docD(1) [OF assms(1)] quiet_refl [of A s], of obj]
    by (cases "rb_czmq_message_to_a A obj s") (simp_all add: calm_def wp_def wlp_def)
qed

section \<open>Monitors\<close>

text \<open>The method only starts the monitor; its thread is another matter.\<close>

definition zmonitor_doc :: "'w czmq \<Rightarrow> bool" where
  "zmonitor_doc A \<longleftrightarrow>
     (\<forall>h ep n w. zsocks (view A w) h \<noteq> None \<longrightarrow> view A (snd (zmq_socket_monitor A h ep n w)) = view A w)"

lemma monitor_calm:
  assumes "zmonitor_doc A" and "program_inv A s" and "held s obj"
  shows "calm A s (rb_czmq_socket_monitor A argv obj)"
  unfolding rb_czmq_socket_monitor_def calm_def
proof (rule quiet_socket [OF assms(2,3) quiet_refl], goal_cases)
  case w: (1 q w)
  have v: "view A (snd (zmq_socket_monitor A (s_socket w) ep n (lib s))) = view A (lib s)" for ep n
    using w(2) assms(1) by (simp add: zmonitor_doc_def)
  have told: "quiet A s t"
    if "ctxs t = ctxs s" "ctx_map t = ctx_map s" "fresh s \<le> fresh t" "thread t = thread s" "pid t = pid s"
      "frames t = frames s" "msgs t = msgs s" "view A (lib t) = view A (lib s)"
      "socks t = socks s \<or> (\<exists>u. socks t = (socks s)(q \<mapsto> u) \<and> same_life w u)" for t
    using that w(1) by (auto simp: quiet_def alike_def)
  have at: "socks t q = Some x \<Longrightarrow> wp (deref socks q k) Q E t = wp (k x) Q E t"
      "socks t q = Some x \<Longrightarrow> wp (set_sock q g k') Q E t = wp k' Q E (t\<lparr>socks := (socks t)(q \<mapsto> g x)\<rparr>)"
    for t x k k' g Q E by (simp_all add: wp_simps)
  have start: "wp (deref socks q (\<lambda>w. live_sock A (s_socket w) (
      invoke (zmq_socket_monitor A (s_socket w) ep evts) (\<lambda>rc.
      if rc = 0 then
        set_sock q (\<lambda>w. w\<lparr>s_monitor_endpoint := endpoint\<rparr>) (
        set_sock q (\<lambda>w. w\<lparr>s_monitor_handler := handler\<rparr>) (
        rb_object_new rb_cThread (\<lambda>thread.
        set_sock q (\<lambda>w. w\<lparr>s_monitor_thread := thread\<rparr>) (ret Qtrue))))
      else ret Qfalse)))) (\<lambda>_. quiet A s) (\<lambda>_. quiet A s) t"
    if "t = s \<or> t = s\<lparr>fresh := Suc (fresh s)\<rparr>" for t ep evts endpoint handler
    using that w v by (elim disjE; simp add: at wp_live wp_invoke wp_make_struct rb_object_new_def)
      (auto intro!: told simp: same_life_def)
  have "quiet A s (s\<lparr>fresh := Suc (fresh s)\<rparr>)" by (rule told) simp_all
  then show ?case
    using w(1) start
    by (simp add: wp_ZmqSockGuardCrossThread Let_def rb_scan_args_12_def rb_object_new_def rb_const_get_ZMQ_def
        wp_Check_String wp_Check_Fixnum wp_FIX2INT wp_StringValueCStr wp_make_struct split: rvalue.split list.split option.split)
qed

end
