(* ===== verification/Zmq_Copies.thy ===== *)
theory Zmq_Copies
  imports Zmq_Quiet
begin

text \<open>
  The three calls that neither the store of frames and messages nor the exchange over sockets has:
  \<^verbatim>\<open>dup\<close> and \<^verbatim>\<open>reset\<close> of a frame object, which work on a frame that a message holds too, and
  \<^verbatim>\<open>ZMQ::Message.decode\<close> of any string.
\<close>

declare socket_klass.simps [simp del]

datatype copy_call = Frame_dup rvalue | Frame_reset rvalue rvalue | Decode rvalue

fun run_copy :: "'w czmq \<Rightarrow> copy_call \<Rightarrow> ('w, rvalue) vcmd" where
  "run_copy A (Frame_dup obj) = rb_czmq_frame_dup A obj"
| "run_copy A (Frame_reset obj v) = rb_czmq_frame_reset A obj v"
| "run_copy A (Decode v) = rb_czmq_message_s_decode A v"

fun copy_valid :: "'w vm \<Rightarrow> copy_call \<Rightarrow> bool" where
  "copy_valid s (Frame_dup obj) \<longleftrightarrow> held s obj"
| "copy_valid s (Frame_reset obj v) \<longleftrightarrow> held s obj"
| "copy_valid s (Decode v) \<longleftrightarrow> True"

text \<open>The frame object can be read, from the program or inside a message, and has this body.\<close>

definition reads :: "store \<Rightarrow> ptr \<Rightarrow> string \<Rightarrow> bool" where
  "reads st p b \<longleftrightarrow> owned st p = Some b \<or> (\<exists>m xs. contents st m = Some xs \<and> (p, b) \<in> set xs)"

fun copy_result :: "ptr \<Rightarrow> copy_call \<Rightarrow> store \<Rightarrow> store \<Rightarrow> bool" where
  "copy_result n (Frame_dup obj) st st' \<longleftrightarrow>
     st' = st \<or> (\<exists>p b. obj = Frame p \<and> reads st p b \<and> st' = st\<lparr>owned := (owned st)(n \<mapsto> b)\<rparr>)"
| "copy_result n (Frame_reset obj v) st st' \<longleftrightarrow>
     st' = st \<or> (\<exists>p b d. obj = Frame p \<and> v = RString d \<and> reads st p b \<and> st' = set_body p d st)"
| "copy_result n (Decode v) st st' \<longleftrightarrow>
     st' = st \<or> (\<exists>bs. st' = st\<lparr>contents := (contents st)(n \<mapsto> zip [Suc n..<Suc n + length bs] bs)\<rparr>)"

text \<open>libczmq decodes a string to a new message of some bodies, or to none.\<close>

definition copy_doc :: "'w czmq \<Rightarrow> bool" where
  "copy_doc A \<longleftrightarrow> program_doc A \<and> (\<forall>cs w. \<exists>bs. zmsg_alloc_doc A w bs (zmsg_decode A cs w))"

lemma copy_docD:
  assumes "copy_doc A"
  shows "program_doc A" "zframe_doc A" "zmsg_doc A" "zlist_doc A" "lib_doc A" "zsock_doc A"
    and "\<exists>bs. zmsg_alloc_doc A w bs (zmsg_decode A cs w)"
proof -
  show p: "program_doc A" and "\<exists>bs. zmsg_alloc_doc A w bs (zmsg_decode A cs w)" using assms by (simp_all add: copy_doc_def)
  note x = program_docD(1) [OF p]
  show "zframe_doc A" "zmsg_doc A" "zlist_doc A" "lib_doc A" "zsock_doc A"
    using exchange_docD(1,2) [OF x] lib_docD [OF exchange_docD(1) [OF x]] by simp_all
qed

section \<open>Contexts and sockets are left alone\<close>

lemma copy_outside:
  assumes "copy_doc A"
  shows "keeps (outside A L s) (run_copy A c)"
proof (rule keepsI)
  fix t assume t: "outside A L s t"
  note simps = outside_steps outside_def seen_simps copy_docD [OF assms] rb_czmq_alloc_frame_def
  note alloc = keepsD [OF alloc_message_outside [OF copy_docD(5) [OF assms]]]
  show "wlp (run_copy A c) (\<lambda>_. outside A L s) (\<lambda>_. outside A L s) t"
  proof (cases c)
    case (Decode v)
    have "seen A L (snd (zmsg_decode A cs (lib t))) = seen A L (lib t)" for cs
      by (rule exE [OF copy_docD(7) [OF assms, of "lib t" cs]]) (rule seen_alloc)
    then have "outside A L s (t\<lparr>lib := snd (zmsg_decode A cs (lib t))\<rparr>)" for cs using t by (simp add: outside_def)
    then show ?thesis using alloc t
      by (auto simp: Decode rb_czmq_message_s_decode_def wlp_simps intro!: guard_wlp)
  qed (use t in \<open>auto simp: simps rb_czmq_frame_dup_def rb_czmq_frame_reset_def intro!: guard_wlp\<close>)
qed

section \<open>What they do to frames and messages\<close>

lemma frame_readsE:
  assumes "fm_inv A s" and "accessible s p" and "frames s p = Some f" and "zframes (view A (lib s)) (f_frame f) = Some b"
  shows "reads (abs_store A s) p b" and "readable (frames s) (msgs s) p"
proof -
  note own = fm_invD [OF assms(1)]
  have body: "body_of (frames s) (zframes (view A (lib s))) p = b" using assms(3,4) by (simp add: body_of_def czframe_def)
  have flags: "f_flags f = 1 \<or> f_flags f = 0" using ownsD(2) [OF own assms(3)] by (auto simp: frame_ok_def)
  have "reads (abs_store A s) p b \<and> readable (frames s) (msgs s) p"
  proof (cases "f_flags f = 1")
    case True
    then show ?thesis using body assms(3) by (auto simp: reads_def abs_store_def owned_of_def readable_def)
  next
    case False
    then obtain w where w: "f_message f \<noteq> NULL" "msgs s (f_message f) = Some w" "has (m_flags w) ZMQ_MESSAGE_OWNED"
      using assms(2,3) flags by (auto simp: accessible_def split: option.splits)
    have one: "m_flags w = 1" using ownsD(4) [OF own w(2)] w(3) by (auto simp: message_ok_def)
    obtain ps where ps: "holds_frames (frames s) (zframes (view A (lib s))) (zmsgs (view A (lib s)))
        (zlists (view A (lib s))) (f_message f) w ps" "p \<in> set ps"
      by (rule attachedE [OF own assms(3) False w(1,2) one])
    have "contents (abs_store A s) (f_message f) = Some (items (frames s) (zframes (view A (lib s))) ps)"
      using contents_holds [where ms = "msgs s", OF ps(1) w(2) one] by (simp add: abs_store_def)
    moreover have "(p, b) \<in> set (items (frames s) (zframes (view A (lib s))) ps)" using ps(2) body by auto
    ultimately show ?thesis using assms(3) w one unfolding reads_def readable_def by blast
  qed
  then show "reads (abs_store A s) p b" "readable (frames s) (msgs s) p" by simp_all
qed

definition copied :: "'w czmq \<Rightarrow> 'w vm \<Rightarrow> copy_call \<Rightarrow> 'w vm \<Rightarrow> bool" where
  "copied A s c t \<longleftrightarrow> fm_inv A t \<and> copy_result (fresh s) c (abs_store A s) (abs_store A t)"

lemma copied_same: "fm_inv A t \<Longrightarrow> abs_store A t = abs_store A s \<Longrightarrow> copied A s c t"
  by (cases c) (simp_all add: copied_def)

lemma frame_dup_copied:
  assumes "copy_doc A" and "program_inv A s" and "held s obj"
  shows "wp (rb_czmq_frame_dup A obj) (\<lambda>_. copied A s (Frame_dup obj)) (\<lambda>_. copied A s (Frame_dup obj)) s"
proof -
  note doc = copy_docD [OF assms(1)]
  have inv: "fm_inv A s" using assms(2) by (simp add: program_inv_def)
  note same = copied_same [OF inv refl]
  show ?thesis
    unfolding rb_czmq_frame_dup_def
  proof (rule quiet_frame(1) [where Q = "\<lambda>_. copied A s (Frame_dup obj)" and E = "\<lambda>_. copied A s (Frame_dup obj)", OF assms(2,3) same same], goal_cases)
    case f: (1 p f)
    then obtain b where b: "zframes (view A (lib s)) (f_frame f) = Some b" by blast
    obtain h w1 where call: "zframe_dup A (f_frame f) (lib s) = (h, w1)" by fastforce
    have alloc: "zframe_alloc_doc A (lib s) b (h, w1)" using zframe_liveD(3) [OF doc(2) b] call by simp
    show ?case
    proof (cases "h = NULL")
      case True
      then have "view A w1 = view A (lib s)" using alloc by (simp add: zframe_alloc_doc_def)
      then have "copied A s (Frame_dup obj) (s\<lparr>lib := w1\<rparr>)" using inv by (intro copied_same) simp_all
      then show ?thesis using f call True by (simp add: wp_simps Let_def)
    next
      case False
      then have h: "zframes (view A (lib s)) h = None"
        and v1: "view A w1 = (view A (lib s))\<lparr>zframes := (zframes (view A (lib s)))(h \<mapsto> b)\<rparr>"
        using alloc by (simp_all add: zframe_alloc_doc_def)
      then show ?thesis
        using f call False frame_readsE(1) [OF inv f(3,2) b] owns_new_frame [OF fm_invD [OF inv] h]
          store_new_frame [OF fm_invD [OF inv] h]
        by (auto simp: wp_simps rb_czmq_alloc_frame_def copied_def fm_inv_def abs_store_def v1)
    qed
  qed
qed

lemma set_errno_inv:
  assumes "zframe_doc A" and "program_inv A s"
  shows "program_inv A (s\<lparr>lib := set_errno A e (lib s)\<rparr>)"
  by (rule quiet_program(1) [OF quiet_lib [OF quiet_refl same_objects_view] assms(2)])
    (rule zframe_docD(1) [OF assms(1)])

lemma frame_reset_copied:
  assumes "copy_doc A" and "program_inv A s" and "held s obj"
  shows "wp (rb_czmq_frame_reset A obj v) (\<lambda>_. copied A s (Frame_reset obj v)) (\<lambda>_. copied A s (Frame_reset obj v)) s"
proof -
  note doc = copy_docD [OF assms(1)]
  let ?s = "s\<lparr>lib := set_errno A 0 (lib s)\<rparr>"
  have v: "view A (set_errno A 0 (lib s)) = view A (lib s)" by (rule zframe_docD(1) [OF doc(2)])
  have inv: "fm_inv A s" using assms(2) by (simp add: program_inv_def)
  have pinv: "program_inv A ?s" by (rule set_errno_inv [OF doc(2) assms(2)])
  have inv': "fm_inv A ?s" using pinv by (simp add: program_inv_def)
  have same: "copied A s (Frame_reset obj v) ?s" by (rule copied_same) (use inv' v in simp_all)
  have held': "held ?s obj" using assms(3) by (cases obj) (simp_all add: usable_def)
  show ?thesis
    unfolding rb_czmq_frame_reset_def wp_tell
  proof (rule quiet_frame(1) [where Q = "\<lambda>_. copied A s (Frame_reset obj v)" and E = "\<lambda>_. copied A s (Frame_reset obj v)", OF pinv held' same same], goal_cases)
    case f: (1 p f)
    then obtain b where b: "zframes (view A (lib s)) (f_frame f) = Some b" using v by auto
    show ?case
    proof (cases v)
      case (RString d)
      let ?w = "zframe_reset A (f_frame f) d (set_errno A 0 (lib s))"
      have acc: "accessible s p" using f(3) by (simp add: accessible_def cong: option.case_cong)
      note r = frame_readsE [OF inv acc _ b]
      have w: "view A ?w = (view A (lib s))\<lparr>zframes := (zframes (view A (lib s)))(f_frame f \<mapsto> d)\<rparr>"
        using zframe_liveD(7) [OF doc(2), of "set_errno A 0 (lib s)"] v b by simp
      have c: "czframe (frames s) p = f_frame f" using f(2) by (simp add: czframe_def)
      have "copied A s (Frame_reset obj v) (s\<lparr>lib := ?w\<rparr>)"
        using r f(1,2) store_set_body [OF fm_invD [OF inv], of p d] RString
          owns_frames_mono [OF fm_invD [OF inv], where zf' = "(zframes (view A (lib s)))(f_frame f \<mapsto> d)" and n' = "fresh s"]
        by (auto simp: copied_def fm_inv_def abs_store_def w c)
      then show ?thesis using f b v RString by (auto simp: wp_simps Let_def)
    qed (use same in \<open>simp_all add: wp_simps\<close>)
  qed
qed

lemma decode_copied:
  assumes "copy_doc A" and "fm_inv A s"
  shows "wp (rb_czmq_message_s_decode A v) (\<lambda>_. copied A s (Decode v)) (\<lambda>_. copied A s (Decode v)) s"
proof (cases v)
  case (RString cs)
  obtain bs where "zmsg_alloc_doc A (lib s) bs (zmsg_decode A cs (lib s))" using copy_docD(7) [OF assms(1)] by blast
  from decode_refines [OF copy_docD(5) [OF assms(1)] assms(2) this] show ?thesis
    using RString by (auto simp: wp_def copied_def steps_to_def simp del: upt_Suc split: if_splits)
qed (use copied_same [OF assms(2) refl] in \<open>simp_all add: rb_czmq_message_s_decode_def wp_simps\<close>)

lemma copy_call:
  assumes "copy_doc A" and "program_inv A s" and "copy_valid s c"
  shows "safe (run_copy A c s)"
    and "final_state (run_copy A c s) = Some t \<Longrightarrow>
      program_inv A t \<and> abs_life t = abs_life s \<and> copy_result (fresh s) c (abs_store A s) (abs_store A t)"
proof -
  have i: "life_inv A s" "fm_inv A s" "apart s" using assms(2) by (simp_all add: program_inv_def)
  have w: "wp (run_copy A c) (\<lambda>_. copied A s c) (\<lambda>_. copied A s c) s"
    using frame_dup_copied [OF assms(1,2)] frame_reset_copied [OF assms(1,2)] decode_copied [OF assms(1) i(2)] assms(3)
    by (cases c) simp_all
  show "safe (run_copy A c s)" by (rule wp_safe [OF w])
  assume t: "final_state (run_copy A c s) = Some t"
  have "outside A (context_lists s) s t"
    by (rule keeps_final [where K = "outside A (context_lists s) s" and m = "run_copy A c"])
      (rule copy_outside [OF assms(1)], rule outside_start [OF i(1,3)], rule t)
  from outside_end [OF this i(1) copy_docD(4) [OF assms(1)]] wp_final [OF w t]
  show "program_inv A t \<and> abs_life t = abs_life s \<and> copy_result (fresh s) c (abs_store A s) (abs_store A t)"
    by (simp add: copied_def program_inv_def)
qed

end
