(* ===== verification/Zmq_Collect.thy ===== *)
theory Zmq_Collect
  imports Zmq_Program
begin

text \<open>
  Garbage collection of frame and message objects. A run of the collector marks, for every message it
  keeps, the frame objects in its list, and frees the structs of the objects it found dead, in any
  order: a frame may go before or after the message that holds it.
\<close>

declare socket_klass.simps [simp del]

section \<open>Objects that are gone\<close>

text \<open>The state without the structs of some frames and messages.\<close>

abbreviation without :: "ptr set \<Rightarrow> ptr set \<Rightarrow> 'w vm \<Rightarrow> 'w vm" where
  "without P M s \<equiv> s\<lparr>frames := frames s |` (- P), msgs := msgs s |` (- M)\<rparr>"

text \<open>
  Frame objects that point to a dead message are dead, and the frame objects of a live message live.
\<close>

definition closed :: "'w czmq \<Rightarrow> ptr set \<Rightarrow> ptr set \<Rightarrow> 'w vm \<Rightarrow> bool" where
  "closed A P M s \<longleftrightarrow>
     (\<forall>p f. frames s p = Some f \<longrightarrow> f_message f \<in> M \<longrightarrow> p \<in> P) \<and>
     (\<forall>m xs. contents (abs_store A s) m = Some xs \<longrightarrow> m \<notin> M \<longrightarrow> fst ` set xs \<inter> P = {})"

lemma closedD:
  assumes "closed A P M s"
  shows "frames s p = Some f \<Longrightarrow> p \<notin> P \<Longrightarrow> f_message f \<notin> M"
    and "msg_at A s m w ps \<Longrightarrow> m \<notin> M \<Longrightarrow> p \<in> set ps \<Longrightarrow> p \<notin> P"
proof -
  show "frames s p = Some f \<Longrightarrow> p \<notin> P \<Longrightarrow> f_message f \<notin> M" using assms by (auto simp: closed_def)
  assume m: "msg_at A s m w ps" "m \<notin> M" "p \<in> set ps"
  note at = msg_atD [OF m(1)]
  have "contents (abs_store A s) m = Some (items (frames s) (zframes (view A (lib s))) ps)"
    using contents_holds [where ms = "msgs s", OF at(6,1,2)] by (simp add: abs_store_def)
  then have "fst ` set (items (frames s) (zframes (view A (lib s))) ps) \<inter> P = {}"
    using assms m(2) unfolding closed_def by blast
  then show "p \<notin> P" using m(3) by (force simp: image_image)
qed

text \<open>What is left has the invariant, and the abstract store is what is left of it.\<close>

lemma without_inv:
  assumes inv: "fm_inv A s" and cl: "closed A P M s"
  shows "fm_inv A (without P M s)"
    and "abs_store A (without P M s) =
      \<lparr>owned = owned (abs_store A s) |` (- P), contents = contents (abs_store A s) |` (- M)\<rparr>"
proof -
  let ?fr = "frames s |` (- P)" and ?ms = "msgs s |` (- M)" and ?v = "view A (lib s)"
  note own = fm_invD [OF inv]
  have cz: "czframe ?fr p = czframe (frames s) p" if "p \<notin> P" for p using that by (simp add: czframe_def)
  have re: "readable ?fr ?ms p \<Longrightarrow> p \<notin> P \<and> readable (frames s) (msgs s) p" for p
    by (auto simp: readable_def restrict_map_def split: if_splits)
  have holds: "holds_frames ?fr (zframes ?v) (zmsgs ?v) (zlists ?v) m w ps"
    if "msgs s m = Some w" "m_flags w = 1" "m \<notin> M"
      "holds_frames (frames s) (zframes ?v) (zmsgs ?v) (zlists ?v) m w ps" for m w ps
  proof (rule holds_frames_cong [OF that(4)])
    have "msg_at A s m w ps" using that owned_messageD [OF own that(1,2)] by (simp add: msg_at_def)
    then show "?fr p = frames s p" if "p \<in> set ps" for p using closedD(2) [OF cl _ \<open>m \<notin> M\<close> that] by simp
  qed simp_all
  have "readable_inj ?fr ?ms"
    using own re cz by (auto simp: owns_def readable_inj_def inj_on_def)
  moreover have "frame_ok ?ms (zframes ?v) (zlists ?v) (fresh s) p f" if "?fr p = Some f" for p f
  proof -
    have p: "frames s p = Some f" "p \<notin> P" using that by (auto simp: restrict_map_def split: if_splits)
    show ?thesis using ownsD(2) [OF own p(1)] closedD(1) [OF cl p] by (simp add: frame_ok_def)
  qed
  moreover have "message_ok ?fr (zframes ?v) (zmsgs ?v) (zlists ?v) (fresh s) m w" if "?ms m = Some w" for m w
  proof -
    have m: "msgs s m = Some w" "m \<notin> M" using that by (auto simp: restrict_map_def split: if_splits)
    show ?thesis by (rule message_ok_cong [OF ownsD(4) [OF own m(1)]]) (use holds m in blast)+
  qed
  moreover have "handles_inj ?ms h" if "handles_inj (msgs s) h" for h
    using that by (auto simp: handles_inj_def restrict_map_def)
  ultimately show "fm_inv A (without P M s)"
    using own by (simp add: fm_inv_def owns_def frames_ok_def messages_ok_def)
  have "contents_of ?fr ?ms (zframes ?v) (zlists ?v) m = contents_of (frames s) (msgs s) (zframes ?v) (zlists ?v) m"
    if "m \<notin> M" for m
  proof (rule contents_cong [OF own])
    fix w ps assume w: "msgs s m = Some w" "m_flags w = 1"
      and ps: "holds_frames (frames s) (zframes ?v) (zmsgs ?v) (zlists ?v) m w ps"
    have "msg_at A s m w ps" using w ps owned_messageD [OF own w] by (simp add: msg_at_def)
    then show "zlists ?v (m_frames w) = zlists ?v (m_frames w) \<and>
        (\<forall>p\<in>set ps. body_of ?fr (zframes ?v) p = body_of (frames s) (zframes ?v) p)"
      using closedD(2) [OF cl _ that] cz by (simp add: body_of_def)
  qed (use that in simp)
  moreover have "contents_of ?fr ?ms (zframes ?v) (zlists ?v) m = None" if "m \<in> M" for m
    using that by (simp add: contents_of_def)
  moreover have "owned_of ?fr (zframes ?v) p = (owned_of (frames s) (zframes ?v) |` (- P)) p" for p
    using cz [of p] by (cases "p \<in> P") (simp_all add: owned_of_def body_of_def split: option.split)
  ultimately show "abs_store A (without P M s) =
      \<lparr>owned = owned (abs_store A s) |` (- P), contents = contents (abs_store A s) |` (- M)\<rparr>"
    unfolding abs_store_def by (intro store_eqI) (auto simp: restrict_map_def)
qed

section \<open>Freeing one object\<close>

text \<open>
  The invariant holds all the time of a ghost of the state, in which the structs that were freed are
  still there.
\<close>

lemma message_object_freed:
  assumes own: "owns fr ms zf zm zl n" and m: "ms m = Some w" "m_flags w = 0"
  shows "owns fr (ms(m \<mapsto> \<lparr>m_message = NULL, m_flags = 0, m_frames = NULL\<rparr>)) zf zm (zl(m_frames w := None)) n"
    and "store_of fr (ms(m \<mapsto> \<lparr>m_message = NULL, m_flags = 0, m_frames = NULL\<rparr>)) zf (zl(m_frames w := None)) =
      store_of fr ms zf zl"
proof -
  let ?ms = "ms(m \<mapsto> \<lparr>m_message = NULL, m_flags = 0, m_frames = NULL\<rparr>)" and ?zl = "zl(m_frames w := None)"
  have at: "m \<noteq> NULL" "m < n" using ownsD(4) [OF own m(1)] by (simp_all add: message_ok_def)
  have zl: "?zl (m_frames v) = zl (m_frames v)" if "ms k = Some v" "k \<noteq> m" "m_frames v \<noteq> NULL" for k v
    using ownsD(6) [OF own m(1) that(1)] that by auto
  have re: "readable fr ?ms p \<longleftrightarrow> readable fr ms p" for p using m by (auto simp: readable_def)
  have "frame_ok ?ms zf ?zl n p f" if p: "fr p = Some f" for p f
    using ownsD(2) [OF own p] owned_messageD(4) [OF own] zl by (fastforce simp: frame_ok_def)
  moreover have "message_ok fr zf zm ?zl n k v" if k: "?ms k = Some v" for k v
  proof (cases "k = m")
    case True
    then show ?thesis using k at by (auto simp: message_ok_def)
  next
    case False
    then have k': "ms k = Some v" using k by simp
    show ?thesis
    proof (rule message_ok_cong [OF ownsD(4) [OF own k']])
      fix ps assume ps: "holds_frames fr zf zm zl k v ps" "m_flags v = 1"
      have "holds_frames fr zf zm ?zl k v ps"
        by (rule holds_frames_cong [OF ps(1)]) (use zl [OF k' False] owned_messageD(4) [OF own k' ps(2)] in simp_all)
      then show "\<exists>qs. holds_frames fr zf zm ?zl k v qs" ..
    qed (use zl [OF k' False] in simp_all)
  qed
  moreover have "handles_inj ?ms owned_message" "handles_inj ?ms m_frames"
    using own m(1) by (auto simp: owns_def handles_inj_def owned_message_def)
  ultimately show "owns fr ?ms zf zm ?zl n"
    using own by (simp add: owns_def frames_ok_def messages_ok_def readable_inj_def re)
  have "contents_of fr ?ms zf ?zl k = contents_of fr ms zf zl k" for k
  proof (cases "k = m")
    case False
    then show ?thesis
      using zl owned_messageD(4) [OF own] by (intro contents_cong [OF own]) auto
  qed (use m in \<open>simp add: contents_of_def\<close>)
  then show "store_of fr ?ms zf ?zl = store_of fr ms zf zl" by (intro store_eqI) (simp_all add: store_of_def)
qed

text \<open>What freeing one object does to the ghost.\<close>

datatype garbage = Frame_object ptr | Message_object ptr

fun free_gc :: "'w czmq \<Rightarrow> garbage \<Rightarrow> ('w, unit) vcmd" where
  "free_gc A (Frame_object p) = rb_czmq_free_frame_gc A p"
| "free_gc A (Message_object m) = rb_czmq_free_message_gc A m"

definition dead_frames :: "garbage set \<Rightarrow> ptr set" where
  "dead_frames G = {p. Frame_object p \<in> G}"

definition dead_messages :: "garbage set \<Rightarrow> ptr set" where
  "dead_messages G = {m. Message_object m \<in> G}"

lemma dead_simps [simp]:
  "dead_frames {} = {}" "dead_messages {} = {}"
  "dead_frames (insert (Frame_object p) G) = insert p (dead_frames G)"
  "dead_frames (insert (Message_object m) G) = dead_frames G"
  "dead_messages (insert (Frame_object p) G) = dead_messages G"
  "dead_messages (insert (Message_object m) G) = insert m (dead_messages G)"
  "p \<in> dead_frames G \<longleftrightarrow> Frame_object p \<in> G" "m \<in> dead_messages G \<longleftrightarrow> Message_object m \<in> G"
  by (auto simp: dead_frames_def dead_messages_def)

abbreviation spared :: "garbage set \<Rightarrow> 'w vm \<Rightarrow> 'w vm" where
  "spared G \<equiv> without (dead_frames G) (dead_messages G)"

definition forget :: "garbage \<Rightarrow> store \<Rightarrow> store" where
  "forget x st = (case x of
     Frame_object p \<Rightarrow> st\<lparr>owned := (owned st)(p := None)\<rparr>
   | Message_object m \<Rightarrow> st\<lparr>contents := (contents st)(m := None)\<rparr>)"

fun allocated :: "'w vm \<Rightarrow> garbage \<Rightarrow> bool" where
  "allocated s (Frame_object p) \<longleftrightarrow> frames s p \<noteq> None"
| "allocated s (Message_object m) \<longleftrightarrow> msgs s m \<noteq> None"

text \<open>The state \<open>t\<close> after \<open>x\<close> was freed in \<open>s\<close>.\<close>

definition freed :: "'w czmq \<Rightarrow> garbage \<Rightarrow> 'w vm \<Rightarrow> 'w vm \<Rightarrow> bool" where
  "freed A x s t \<longleftrightarrow>
     fm_inv A t \<and> abs_store A t = forget x (abs_store A s) \<and> (\<forall>y. allocated t y \<longleftrightarrow> allocated s y) \<and>
     (\<forall>p g. frames t p = Some g \<longrightarrow> f_message g = NULL \<or> frames s p = Some g)"

lemma free_frame_gc_run:
  assumes doc: "lib_doc A" and inv: "fm_inv A s" and p: "frames s p = Some f" "p \<notin> P"
  shows "\<exists>t. rb_czmq_free_frame_gc A p (without P M s) = Return () (without (insert p P) M t) \<and>
    freed A (Frame_object p) s t"
proof -
  note own = fm_invD [OF inv] and ok = ownsD(2) [OF fm_invD [OF inv] p(1)]
  have restrict: "(frames s |` (- P))(p := None) = frames s |` (- insert p P)" by (auto simp: restrict_map_def)
  have nn: "p \<noteq> NULL" using ok by (simp add: frame_ok_def)
  consider "f_flags f = 1" | "f_flags f = 0" using ok by (auto simp: frame_ok_def)
  then show ?thesis
  proof cases
    case 1
    note f = owned_frameD [OF own p(1) 1]
    obtain b where b: "zframes (view A (lib s)) (f_frame f) = Some b" using f(2) by blast
    have h: "f_frame f \<noteq> NULL" by (rule live_not_null [OF zframe_docD(3) [OF lib_docD(2) [OF doc]] b])
    let ?t = "s\<lparr>lib := zframe_destroy A (f_frame f) (lib s),
      frames := (frames s)(p \<mapsto> \<lparr>f_frame = NULL, f_message = NULL, f_flags = 0\<rparr>)\<rparr>"
    have "rb_czmq_free_frame_gc A p (without P M s) = Return () (without (insert p P) M ?t)"
      using p b h nn 1 f(1) restrict
      by (simp add: rb_czmq_free_frame_gc_def rb_czmq_free_frame_def call_def)
    moreover have "allocated ?t y \<longleftrightarrow> allocated s y" for y using p(1) by (cases y) simp_all
    then have "freed A (Frame_object p) s ?t"
      using owns_kill_frame [OF own p(1) 1] store_kill_frame [OF own p(1) 1] zframe_liveD(5) [OF lib_docD(2) [OF doc] b] p(1)
      by (simp add: freed_def fm_inv_def abs_store_def forget_def)
    ultimately show ?thesis by blast
  next
    case 2
    have "owned (abs_store A s) p = None" using p(1) 2 by (simp add: abs_store_def owned_of_def)
    then have "freed A (Frame_object p) s s"
      using inv by (simp add: freed_def forget_def fun_upd_idem)
    moreover have "rb_czmq_free_frame_gc A p (without P M s) = Return () (without (insert p P) M s)"
      using p nn 2 restrict by (simp add: rb_czmq_free_frame_gc_def rb_czmq_free_frame_def call_def)
    ultimately show ?thesis by blast
  qed
qed

lemma free_message_gc_run:
  assumes doc: "lib_doc A" and inv: "fm_inv A s" and m: "msgs s m = Some w" "m \<notin> M"
  shows "\<exists>t. rb_czmq_free_message_gc A m (without P M s) = Return () (without P (insert m M) t) \<and>
    freed A (Message_object m) s t"
proof -
  let ?u = "\<lparr>m_message = NULL, m_flags = 0, m_frames = NULL\<rparr>" and ?v = "view A (lib s)" and ?w0 = "set_errno A 0 (lib s)"
  note own = fm_invD [OF inv]
  have restrict: "(msgs s |` (- M))(m := None) = msgs s |` (- insert m M)" by (auto simp: restrict_map_def)
  have ok: "message_ok (frames s) (zframes ?v) (zmsgs ?v) (zlists ?v) (fresh s) m w" by (rule ownsD(4) [OF own m(1)])
  have nn: "m \<noteq> NULL" using ok by (simp add: message_ok_def)
  have v0: "view A ?w0 = ?v" by (simp add: zframe_docD lib_docD doc)
  have z0: "zlists ?v NULL = None" using zlist_newD(5) [OF lib_docD(1) [OF doc]] by simp
  have alloc: "allocated (s\<lparr>lib := x, msgs := (msgs s)(m \<mapsto> ?u)\<rparr>) y \<longleftrightarrow> allocated s y" for x y
    using m(1) by (cases y) simp_all
  consider ps where "msg_at A s m w ps" | "m_flags w = 0"
    using ok m(1) unfolding message_ok_def msg_at_def by blast
  then show ?thesis
  proof cases
    case (1 ps)
    let ?fs = "map (czframe (frames s)) ps"
    note at = msg_atD [OF 1]
    have v1: "view A (zmsg_destroy A (m_message w) ?w0) =
        ?v\<lparr>zframes := (zframes ?v) |` (- set ?fs), zmsgs := (zmsgs ?v)(m_message w := None)\<rparr>"
      using zmsg_liveD(18) [of A ?w0 "m_message w" ?fs] doc at v0 by (simp add: lib_docD)
    have l: "zlists (view A (zmsg_destroy A (m_message w) ?w0)) (m_frames w) = Some (map FO ps)" using v1 at by simp
    note v2 = zlist_liveD(7) [OF lib_docD(1) [OF doc] l]
    let ?t = "s\<lparr>lib := zlist_destroy A (m_frames w) (zmsg_destroy A (m_message w) ?w0), msgs := (msgs s)(m \<mapsto> ?u)\<rparr>"
    have "rb_czmq_free_message_gc A m (without P M s) = Return () (without P (insert m M) ?t)"
      using at v0 l m nn restrict by (simp add: rb_czmq_free_message_gc_def rb_czmq_free_message_def call_def)
    moreover have "freed A (Message_object m) s ?t"
      using owns_kill_message [OF own at(1,2,6)] store_kill_message [OF own at(1,2,6)] alloc
      by (simp add: freed_def fm_inv_def abs_store_def forget_def v1 v2)
    ultimately show ?thesis by blast
  next
    case 2
    let ?w1 = "if m_frames w = NULL then ?w0 else zlist_destroy A (m_frames w) ?w0"
    let ?t = "s\<lparr>lib := ?w1, msgs := (msgs s)(m \<mapsto> ?u)\<rparr>"
    have l: "m_frames w \<noteq> NULL \<Longrightarrow> \<exists>xs. zlists (view A ?w0) (m_frames w) = Some xs"
      using ok 2 v0 by (auto simp: message_ok_def)
    have v1: "view A ?w1 = ?v\<lparr>zlists := (zlists ?v)(m_frames w := None)\<rparr>"
      using l zlist_liveD(7) [OF lib_docD(1) [OF doc]] v0 z0 by (auto simp: fun_upd_idem)
    have "contents (abs_store A s) m = None" using m(1) 2 by (simp add: abs_store_def contents_of_def)
    then have "(contents (abs_store A s))(m := None) = contents (abs_store A s)" by (rule fun_upd_idem)
    then have "freed A (Message_object m) s ?t"
      using message_object_freed [OF own m(1) 2] alloc
      by (simp add: freed_def fm_inv_def abs_store_def forget_def v1)
    moreover have "rb_czmq_free_message_gc A m (without P M s) = Return () (without P (insert m M) ?t)"
      using m nn 2 l v0 restrict
      by (auto simp: rb_czmq_free_message_gc_def rb_czmq_free_message_def call_def)
    ultimately show ?thesis by blast
  qed
qed

section \<open>A run of the collector\<close>

fun sweep :: "'w czmq \<Rightarrow> garbage list \<Rightarrow> ('w, rvalue) vcmd" where
  "sweep A [] = ret Qnil"
| "sweep A (x # xs) = call (free_gc A x) (\<lambda>_. sweep A xs)"

definition swept :: "garbage set \<Rightarrow> store \<Rightarrow> store" where
  "swept G st = \<lparr>owned = owned st |` (- dead_frames G), contents = contents st |` (- dead_messages G)\<rparr>"

lemma free_gc_run:
  assumes "lib_doc A" and "fm_inv A g" and "allocated g x" and "x \<notin> D"
  shows "\<exists>t. free_gc A x (spared D g) = Return () (spared (insert x D) t) \<and> freed A x g t"
proof (cases x)
  case (Frame_object p)
  then obtain f where "frames g p = Some f" using assms(3) by auto
  then show ?thesis using free_frame_gc_run [OF assms(1,2)] assms(4) Frame_object by simp
next
  case (Message_object m)
  then obtain w where "msgs g m = Some w" using assms(3) by auto
  then show ?thesis using free_message_gc_run [OF assms(1,2)] assms(4) Message_object by simp
qed

lemma closed_freed:
  assumes "freed A x g t" and "closed A P M g" and "NULL \<notin> M"
  shows "closed A P M t"
  using assms unfolding freed_def closed_def
  by (cases x) (fastforce simp: forget_def split: if_splits)+

lemma swept_forget: "x \<in> G \<Longrightarrow> swept G (forget x st) = swept G st"
  by (cases x) (simp_all add: swept_def forget_def restrict_map_def fun_eq_iff)

lemma sweep_run:
  assumes "lib_doc A" and "fm_inv A g" and "list_all (allocated g) xs" and "distinct xs" and "set xs \<inter> D = {}"
    and "closed A (dead_frames (set xs \<union> D)) (dead_messages (set xs \<union> D)) g"
    and "NULL \<notin> dead_messages (set xs \<union> D)"
  shows "\<exists>t. sweep A xs (spared D g) = Return Qnil t \<and> fm_inv A t \<and>
    abs_store A t = swept (set xs \<union> D) (abs_store A g)"
  using assms(2-7)
proof (induction xs arbitrary: D g)
  case Nil
  then show ?case using without_inv [of A g] by (simp add: swept_def)
next
  case (Cons x xs)
  obtain t where t: "free_gc A x (spared D g) = Return () (spared (insert x D) t)" "freed A x g t"
    using free_gc_run [OF assms(1) Cons.prems(1), of x D] Cons.prems(2,4) by auto
  have G: "set xs \<union> insert x D = set (x # xs) \<union> D" by auto
  have "closed A (dead_frames (set xs \<union> insert x D)) (dead_messages (set xs \<union> insert x D)) t"
    unfolding G by (rule closed_freed [OF t(2) Cons.prems(5,6)])
  moreover have "fm_inv A t" "list_all (allocated t) xs"
    using t(2) Cons.prems(2) by (simp_all add: freed_def list_all_iff)
  ultimately obtain u where "sweep A xs (spared (insert x D) t) = Return Qnil u" "fm_inv A u"
    "abs_store A u = swept (set xs \<union> insert x D) (abs_store A t)"
    using Cons.IH [of t "insert x D"] Cons.prems(3,4,6) G by auto
  moreover have "swept (set (x # xs) \<union> D) (abs_store A t) = swept (set (x # xs) \<union> D) (abs_store A g)"
    using t(2) by (simp add: freed_def swept_forget)
  ultimately show ?case using t(1) unfolding G by (simp add: call_def)
qed

section \<open>Marking\<close>

text \<open>The mark function of a message marks its frame objects, in order.\<close>

lemma mark_loop:
  fixes k :: "rvalue \<times> rvalue list \<Rightarrow> ('w, rvalue list) vcmd"
  assumes doc: "zlist_doc A"
    and "zlists (view A (lib s)) l = Some (map FO (done @ p # rest))" "zlist_cursor A l (lib s) = Some (length done)"
  defines "body \<equiv> \<lambda>(frame, marked). invoke (zlist_next A l) (\<lambda>next_frame. ret (VALUE_of next_frame, marked @ [frame]))"
  shows "\<exists>w'. while_do (\<lambda>(frame, marked). frame \<noteq> Qfalse) body k (Frame p, acc) s =
      k (Qfalse, acc @ map Frame (p # rest)) (s\<lparr>lib := w'\<rparr>) \<and> view A w' = view A (lib s)"
  using assms(2,3)
proof (induction rest arbitrary: "done" p s acc)
  case (Cons q rest)
  obtain w1 where nxt: "zlist_next A l (lib s) = (Some (FO q), w1)" and v1: "view A w1 = view A (lib s)"
    and c1: "zlist_cursor A l w1 = Some (Suc (length done))"
    using zlist_liveD(13) [OF doc Cons.prems(1)] zlist_cursorD(2,3) [OF doc Cons.prems(1,2)]
    by (cases "zlist_next A l (lib s)") (simp add: nth_append)
  have "zlists (view A (lib (s\<lparr>lib := w1\<rparr>))) l = Some (map FO ((done @ [p]) @ q # rest))"
    "zlist_cursor A l (lib (s\<lparr>lib := w1\<rparr>)) = Some (length (done @ [p]))"
    using Cons.prems v1 c1 by simp_all
  note IH = Cons.IH [OF this, of "acc @ [Frame p]"]
  have "body (Frame p, acc) s = Return (Frame q, acc @ [Frame p]) (s\<lparr>lib := w1\<rparr>)" using nxt by (simp add: body_def)
  then show ?case using IH v1 by (subst while_do_step) simp_all
next
  case Nil
  obtain w1 where nxt: "zlist_next A l (lib s) = (None, w1)" and v1: "view A w1 = view A (lib s)"
    using zlist_liveD(13) [OF doc Nil.prems(1)] zlist_cursorD(2) [OF doc Nil.prems(1,2)]
    by (cases "zlist_next A l (lib s)") simp
  have "body (Frame p, acc) s = Return (Qfalse, acc @ [Frame p]) (s\<lparr>lib := w1\<rparr>)" using nxt by (simp add: body_def)
  then show ?case using v1 by (subst while_do_step) (auto simp: while_do_stop intro!: exI [of _ w1])
qed

lemma mark_message_run:
  assumes "lib_doc A" and "msg_at A s m w ps"
  shows "\<exists>w'. rb_czmq_mark_message A m s = Return (map Frame ps) (s\<lparr>lib := w'\<rparr>) \<and> view A w' = view A (lib s)"
proof -
  note at = msg_atD [OF assms(2)] and doc = lib_docD(1) [OF assms(1)]
  obtain x w1 where first: "zlist_first A (m_frames w) (lib s) = (x, w1)" by fastforce
  have x: "x = (case ps of [] \<Rightarrow> None | p # _ \<Rightarrow> Some (FO p))" and v1: "view A w1 = view A (lib s)"
    and c1: "ps \<noteq> [] \<Longrightarrow> zlist_cursor A (m_frames w) w1 = Some 0"
    using zlist_liveD(9,10) [OF doc at(8)] zlist_cursorD(1) [OF doc at(8)] first
    by (simp_all split: list.splits)
  show ?thesis
  proof (cases ps)
    case Nil
    then show ?thesis
      using at first x v1 by (auto simp: rb_czmq_mark_message_def while_do_stop)
  next
    case (Cons p rest)
    have pre: "zlists (view A (lib (s\<lparr>lib := w1\<rparr>))) (m_frames w) = Some (map FO ([] @ p # rest))"
      "zlist_cursor A (m_frames w) (lib (s\<lparr>lib := w1\<rparr>)) = Some (length ([] :: ptr list))"
      using Cons at v1 c1 by simp_all
    show ?thesis
      using mark_loop [OF doc pre, of "\<lambda>(frame, marked). ret marked" "[]"] at first x v1 Cons
      by (auto simp: rb_czmq_mark_message_def)
  qed
qed

text \<open>
  What a run may free: objects that exist, each once, that no message left over marks, and with a
  message all frame objects that point to it. The collector does not see to the last condition, as a
  frame object does not mark its message; a run that breaks it leaves the frame object dangling.
\<close>

definition marked :: "'w czmq \<Rightarrow> 'w vm \<Rightarrow> ptr \<Rightarrow> rvalue set" where
  "marked A s m = (case rb_czmq_mark_message A m s of Return vs t \<Rightarrow> set vs | _ \<Rightarrow> {})"

definition collectable :: "'w czmq \<Rightarrow> 'w vm \<Rightarrow> garbage list \<Rightarrow> bool" where
  "collectable A s xs \<longleftrightarrow>
     distinct xs \<and> list_all (allocated s) xs \<and>
     (\<forall>m. msgs s m \<noteq> None \<longrightarrow> Message_object m \<notin> set xs \<longrightarrow> (\<forall>p. Frame p \<in> marked A s m \<longrightarrow> Frame_object p \<notin> set xs)) \<and>
     (\<forall>p f. frames s p = Some f \<longrightarrow> Message_object (f_message f) \<in> set xs \<longrightarrow> Frame_object p \<in> set xs)"

lemma marked_at:
  assumes "lib_doc A" and "msg_at A s m w ps"
  shows "marked A s m = Frame ` set ps"
  using mark_message_run [OF assms] by (auto simp: marked_def)

lemma collectable_closed:
  assumes "lib_doc A" and "fm_inv A s" and "collectable A s xs"
  shows "closed A (dead_frames (set xs)) (dead_messages (set xs)) s"
proof -
  have "fst ` set ys \<inter> dead_frames (set xs) = {}"
    if m: "contents (abs_store A s) m = Some ys" "Message_object m \<notin> set xs" for m ys
  proof -
    obtain w ps where at: "msg_at A s m w ps" and ys: "ys = items (frames s) (zframes (view A (lib s))) ps"
      by (rule contentsE [OF assms(2) m(1)])
    show ?thesis using marked_at [OF assms(1) at] assms(3) m(2) msg_atD(1) [OF at] unfolding collectable_def ys by auto
  qed
  then show ?thesis using assms(3) by (simp add: closed_def collectable_def)
qed

lemma sweep_performed:
  assumes "lib_doc A" and "fm_inv A s" and "collectable A s xs"
  shows "\<exists>t. sweep A xs s = Return Qnil t \<and> fm_inv A t \<and> abs_store A t = swept (set xs) (abs_store A s)"
proof -
  have "msgs s NULL = None" using ownsD(8) [OF fm_invD [OF assms(2)]] .
  then have "NULL \<notin> dead_messages (set xs)" using assms(3) by (auto simp: collectable_def list_all_iff)
  moreover have "spared {} s = s" by (simp add: restrict_map_def)
  ultimately show ?thesis
    using sweep_run [OF assms(1,2), of xs "{}"] collectable_closed [OF assms] assms(3)
    by (simp add: collectable_def)
qed

section \<open>Contexts and sockets are left alone\<close>

lemma free_gc_outside:
  assumes "lib_doc A"
  shows "keeps (outside A L s) (free_gc A x)"
proof (rule keepsI)
  fix t assume "outside A L s t"
  then show "wlp (free_gc A x) (\<lambda>_. outside A L s) (\<lambda>_. outside A L s) t"
    by (cases x) (auto simp: rb_czmq_free_frame_gc_def rb_czmq_free_message_gc_def outside_simps lib_docD [OF assms] split: if_splits)
qed

lemma sweep_outside:
  assumes "lib_doc A"
  shows "keeps (outside A L s) (sweep A xs)"
  by (induction xs) (simp add: keeps_def wlp_def, simp add: keeps_call free_gc_outside [OF assms])

lemma collect_call:
  assumes "program_doc A" and "program_inv A s" and "collectable A s xs"
  shows "\<exists>t. sweep A xs s = Return Qnil t \<and> program_inv A t \<and> abs_life t = abs_life s \<and>
    abs_store A t = swept (set xs) (abs_store A s)"
proof -
  note doc = program_docD [OF assms(1)]
  have i: "life_inv A s" "fm_inv A s" "apart s" using assms(2) by (simp_all add: program_inv_def)
  obtain t where t: "sweep A xs s = Return Qnil t" "fm_inv A t" "abs_store A t = swept (set xs) (abs_store A s)"
    using sweep_performed [OF doc(3) i(2) assms(3)] by blast
  have "outside A (context_lists s) s t"
    by (rule keeps_final [OF sweep_outside [OF doc(3), where xs = xs] outside_start [OF i(1,3)]]) (simp add: t(1))
  from outside_end [OF this i(1) doc(4)] show ?thesis using t by (simp add: program_inv_def)
qed

end
