(* ===== verification/Zmq_Ruby.thy ===== *)
theory Zmq_Ruby
  imports Zmq_Copies Zmq_Collect Zmq_Method_Theorems
begin

text \<open>
  Ruby programs: any method of the tables of ZMQ::Context, ZMQ::Socket, ZMQ::Frame and ZMQ::Message,
  called by name with any arguments, in any order, with runs of the collector, forks and thread switches
  in between. A call by name is a call of one of the machines, or it changes nothing the program owns.
\<close>

declare socket_klass.simps [simp del]

section \<open>What a method call means\<close>

datatype meaning = Life life_call | Exchange xcall | Copy copy_call | Collect "garbage list" | Nothing

fun no_arg :: "meaning \<Rightarrow> rvalue list \<Rightarrow> meaning" where
  "no_arg x [] = x"
| "no_arg x argv = Nothing"

fun one_arg :: "(rvalue \<Rightarrow> meaning) \<Rightarrow> rvalue list \<Rightarrow> meaning" where
  "one_arg f [v] = f v"
| "one_arg f argv = Nothing"

fun with_frame :: "(ptr \<Rightarrow> call) \<Rightarrow> rvalue list \<Rightarrow> meaning" where
  "with_frame f [Object rb_cZmqFrame p] = Exchange (Store (f p))"
| "with_frame f argv = Nothing"

fun with_string :: "(string \<Rightarrow> call) \<Rightarrow> rvalue list \<Rightarrow> meaning" where
  "with_string f [RString cs] = Exchange (Store (f cs))"
| "with_string f argv = Nothing"

definition context_calls :: "ptr \<Rightarrow> (string \<times> (rvalue list \<Rightarrow> meaning)) list" where
  "context_calls p =
     [(''destroy'', no_arg (Life (Ctx_destroy p))),
      (''iothreads='', one_arg (\<lambda>v. Life (Ctx_set_iothreads p v))),
      (''linger='', one_arg (\<lambda>v. Life (Ctx_set_linger p v))),
      (''socket'', one_arg (\<lambda>v. Life (Ctx_socket p v)))]"

definition socket_calls :: "rvalue \<Rightarrow> ptr \<Rightarrow> (string \<times> (rvalue list \<Rightarrow> meaning)) list" where
  "socket_calls obj q =
     [(''close'', no_arg (Life (Sock_close q))),
      (''real_bind'', one_arg (\<lambda>v. Life (Sock_bind q v))),
      (''real_connect'', one_arg (\<lambda>v. Life (Sock_connect q v))),
      (''disconnect'', one_arg (\<lambda>v. Life (Sock_disconnect q v))),
      (''unbind'', one_arg (\<lambda>v. Life (Sock_unbind q v))),
      (''verbose='', one_arg (\<lambda>v. Life (Sock_set_verbose q v))),
      (''send'', one_arg (\<lambda>v. Exchange (Io obj (Send_str v)))),
      (''sendm'', one_arg (\<lambda>v. Exchange (Io obj (Sendm_str v)))),
      (''send_frame'', \<lambda>argv. Exchange (Io obj (Send_frame argv))),
      (''send_message'', one_arg (\<lambda>v. Exchange (Io obj (Send_message v)))),
      (''recv'', no_arg (Exchange (Io obj Recv_str))),
      (''recv_nonblock'', no_arg (Exchange (Io obj Recv_str_nonblock))),
      (''recv_frame'', no_arg (Exchange (Io obj Recv_frame))),
      (''recv_frame_nonblock'', no_arg (Exchange (Io obj Recv_frame_nonblock))),
      (''recv_message'', no_arg (Exchange (Io obj Recv_message)))]"

definition frame_calls :: "ptr \<Rightarrow> (string \<times> (rvalue list \<Rightarrow> meaning)) list" where
  "frame_calls p =
     [(''destroy'', no_arg (Exchange (Store (Frame_destroy p)))),
      (''dup'', no_arg (Copy (Frame_dup (Frame p)))),
      (''reset'', one_arg (\<lambda>v. Copy (Frame_reset (Frame p) v)))]"

definition message_calls :: "ptr \<Rightarrow> (string \<times> (rvalue list \<Rightarrow> meaning)) list" where
  "message_calls m =
     [(''push'', with_frame (Push m)), (''add'', with_frame (Add m)), (''wrap'', with_frame (Wrap m)),
      (''remove'', with_frame (Remove m)), (''pushstr'', with_string (Pushstr m)), (''addstr'', with_string (Addstr m)),
      (''pop'', no_arg (Exchange (Store (Pop m)))), (''dup'', no_arg (Exchange (Store (Dup m)))),
      (''destroy'', no_arg (Exchange (Store (Destroy m))))]"

fun calls_of :: "klass \<Rightarrow> ptr \<Rightarrow> (string \<times> (rvalue list \<Rightarrow> meaning)) list" where
  "calls_of rb_cZmqContext p = context_calls p"
| "calls_of rb_cZmqFrame p = frame_calls p"
| "calls_of rb_cZmqMessage p = message_calls p"
| "calls_of k p = (if socket_klass k then socket_calls (Object k p) p else [])"

fun means :: "rvalue \<Rightarrow> string \<Rightarrow> rvalue list \<Rightarrow> meaning" where
  "means (Object k p) name argv =
     (case map_of (calls_of k p) name of None \<Rightarrow> Nothing | Some f \<Rightarrow> f argv)"
| "means v name argv = Nothing"

text \<open>A command does what its meaning says: it is that call, or it is quiet.\<close>

fun fits :: "'w czmq \<Rightarrow> 'w vm \<Rightarrow> ('w, rvalue) vcmd \<Rightarrow> meaning \<Rightarrow> bool" where
  "fits A s m (Life c) \<longleftrightarrow> m = run_life A c"
| "fits A s m (Exchange c) \<longleftrightarrow> m = xexec A c"
| "fits A s m (Copy c) \<longleftrightarrow> m = run_copy A c"
| "fits A s m (Collect xs) \<longleftrightarrow> m = sweep A xs"
| "fits A s m Nothing \<longleftrightarrow> calm A s m"

section \<open>The tables\<close>

lemma raise_calm [simp]: "calm A s (raise e)"
  by (simp add: calm_def)

lemma check_calm: "(b \<Longrightarrow> calm A s m) \<Longrightarrow> calm A s (check b e m)"
  by (auto simp: calm_def wp_check)

lemma check_True [simp]: "check True e m = m" "check False e m = raise e"
  by (auto simp: check_def raise_def)

text \<open>A method without arguments, with one, and with all of them as an array.\<close>

lemma fits_no_arg:
  "fits A s (g obj) x \<Longrightarrow> fits A s (rb_method_call (Method0 g) argv obj) (no_arg x argv)"
  by (cases argv) (simp_all add: rb_method_call_def)

lemma fits_one_arg:
  "(\<And>v. argv = [v] \<Longrightarrow> fits A s (g obj v) (f v)) \<Longrightarrow> fits A s (rb_method_call (Method1 g) argv obj) (one_arg f argv)"
  by (cases "(f, argv)" rule: one_arg.cases) (simp_all add: rb_method_call_def)

lemma calm_method:
  "calm A s (g obj) \<Longrightarrow> calm A s (rb_method_call (Method0 g) argv obj)"
  "(\<And>v. argv = [v] \<Longrightarrow> calm A s (h obj v)) \<Longrightarrow> calm A s (rb_method_call (Method1 h) argv obj)"
  "calm A s (k argv obj) \<Longrightarrow> calm A s (rb_method_call (Method_argv k) argv obj)"
  by (auto simp: rb_method_call_def calm_def wp_simps split: list.split)

text \<open>
  Which calls a program may make. An argument is an object the program holds; the number of a socket
  type is one libzmq has; and the calls that are known to break what the objects share, each of
  which has its own theorem, are left out: \<^verbatim>\<open>destroy\<close> and \<^verbatim>\<open>wrap\<close> of a frame that a live message holds,
  \<^verbatim>\<open>remove\<close> of a frame of another message, \<^verbatim>\<open>popstr\<close> and \<^verbatim>\<open>unwrap\<close>, and \<^verbatim>\<open><=>\<close> with a frame that is gone.
\<close>

definition unheld :: "'w czmq \<Rightarrow> 'w vm \<Rightarrow> ptr \<Rightarrow> bool" where
  "unheld A s p \<longleftrightarrow> owned (abs_store A s) p \<noteq> None \<or> \<not> accessible s p"

definition allowed :: "'w czmq \<Rightarrow> 'w vm \<Rightarrow> klass \<Rightarrow> ptr \<Rightarrow> string \<Rightarrow> rvalue list \<Rightarrow> bool" where
  "allowed A s k p name argv \<longleftrightarrow>
     (k = rb_cZmqContext \<longrightarrow> name = ''socket'' \<longrightarrow>
        (\<forall>v n. argv = [v] \<longrightarrow> type_number A v = Some n \<longrightarrow> n \<in> range (socktype A))) \<and>
     (k = rb_cZmqFrame \<longrightarrow> name = ''destroy'' \<longrightarrow> unheld A s p) \<and>
     (k = rb_cZmqFrame \<longrightarrow> name = ''<=>'' \<longrightarrow> (\<forall>q. argv = [Frame q] \<longrightarrow> accessible s q)) \<and>
     (k = rb_cZmqMessage \<longrightarrow> name \<noteq> ''popstr'' \<and> name \<noteq> ''unwrap'') \<and>
     (k = rb_cZmqMessage \<longrightarrow> name = ''wrap'' \<longrightarrow> (\<forall>q. argv = [Frame q] \<longrightarrow> unheld A s q)) \<and>
     (k = rb_cZmqMessage \<longrightarrow> name = ''remove'' \<longrightarrow> (\<forall>q xs. argv = [Frame q] \<longrightarrow>
        contents (abs_store A s) p = Some xs \<longrightarrow> map_of xs q \<noteq> None))"

definition row_fits :: "'w czmq \<Rightarrow> 'w vm \<Rightarrow> klass \<Rightarrow> ptr \<Rightarrow> string \<Rightarrow> 'w rb_method \<Rightarrow> bool" where
  "row_fits A s k p n m \<longleftrightarrow>
     (\<forall>argv. list_all (held s) argv \<longrightarrow> allowed A s k p n argv \<longrightarrow>
        fits A s (rb_method_call m argv (Object k p)) (means (Object k p) n argv))"

lemma context_rows:
  "list_all (\<lambda>(n, m). row_fits A s rb_cZmqContext p n m) (methods (init_rb_czmq_context A))"
  by (auto simp: init_rb_czmq_context_def row_fits_def context_calls_def intro!: fits_no_arg fits_one_arg)

text \<open>Which socket class an object has makes no difference.\<close>

lemma any_socket:
  assumes "socket_klass k"
  shows "GetZmqSocket (Object k q) f = GetZmqSocket (Socket q) f"
  using assms by (simp add: GetZmqSocket_def fetch_def socket_klass.simps)

lemma socket_calls_fit:
  assumes "socket_klass k"
  shows "rb_czmq_socket_close A (Object k q) = run_life A (Sock_close q)"
    "rb_czmq_socket_bind A (Object k q) v = run_life A (Sock_bind q v)"
    "rb_czmq_socket_connect A (Object k q) v = run_life A (Sock_connect q v)"
    "rb_czmq_socket_disconnect A (Object k q) v = run_life A (Sock_disconnect q v)"
    "rb_czmq_socket_unbind A (Object k q) v = run_life A (Sock_unbind q v)"
    "rb_czmq_socket_set_verbose (Object k q) v = run_life A (Sock_set_verbose q v)"
  by (simp_all add: rb_czmq_socket_close_def rb_czmq_socket_bind_def rb_czmq_socket_connect_def
      rb_czmq_socket_disconnect_def rb_czmq_socket_unbind_def rb_czmq_socket_set_verbose_def any_socket [OF assms])

lemma calls_of_socket: "socket_klass k \<Longrightarrow> calls_of k q = socket_calls (Object k q) q"
  by (cases k) (simp_all add: socket_klass.simps)

definition ruby_doc :: "'w czmq \<Rightarrow> bool" where
  "ruby_doc A \<longleftrightarrow> copy_doc A \<and> zmonitor_doc A"

lemma ruby_docD: "ruby_doc A \<Longrightarrow> copy_doc A" "ruby_doc A \<Longrightarrow> zmonitor_doc A"
  by (simp_all add: ruby_doc_def)

lemma option_method_calm:
  assumes "ruby_doc A" and "program_inv A s" and "held s obj"
  shows "list_all (\<lambda>(n, m). n \<in> fst ` set (socket_calls obj q) \<or> (\<forall>argv. calm A s (rb_method_call m argv obj)))
    (methods (init_rb_czmq_socket A))"
proof -
  note doc = copy_docD [OF ruby_docD(1) [OF assms(1)]]
  note option = option_calm [OF doc(6) assms(2,3)] and reader = socket_calm [OF doc(6) assms(2,3)]
  note monitor = monitor_calm [OF ruby_docD(2) [OF assms(1)] assms(2,3)]
  have ret: "calm A s (ret v)" for v :: rvalue by (simp add: calm_def)
  have poll: "calm A s (rb_czmq_socket_poll A obj v)" for v by (rule reader(4))
  show ?thesis
    by (simp add: init_rb_czmq_socket_def socket_calls_def calm_method option reader monitor)
      (simp add: calm_method option_method_defs option ret)
qed

lemma socket_call_rows:
  fixes A :: "'w czmq"
  assumes "socket_klass k"
  shows "list_all (\<lambda>(n, m). n \<in> fst ` set (socket_calls (Object k q) q) \<longrightarrow> row_fits A s k q n m)
    (methods (init_rb_czmq_socket A))"
proof -
  have args: "rb_method_call (Method_argv g) argv obj = g argv obj" for g :: "rvalue list \<Rightarrow> rvalue \<Rightarrow> ('w, rvalue) vcmd" and argv obj
    by (simp add: rb_method_call_def)
  show ?thesis
    by (simp add: init_rb_czmq_socket_def row_fits_def calls_of_socket [OF assms] socket_calls_def fits_no_arg fits_one_arg
        socket_calls_fit [OF assms, where A = A] args)
qed

lemma socket_rows:
  assumes "ruby_doc A" and "program_inv A s" and "socket_klass k" and "held s (Object k q)"
  shows "list_all (\<lambda>(n, m). row_fits A s k q n m) (methods (init_rb_czmq_socket A))"
proof -
  have "row_fits A s k q n m" if nm: "(n, m) \<in> set (methods (init_rb_czmq_socket A))" for n m
  proof (cases "n \<in> fst ` set (socket_calls (Object k q) q)")
    case True
    then show ?thesis using socket_call_rows [OF assms(3)] nm by (fastforce simp: list_all_iff)
  next
    case False
    then have "map_of (socket_calls (Object k q) q) n = None" by (simp add: map_of_eq_None_iff)
    moreover have "\<forall>argv. calm A s (rb_method_call m argv (Object k q))"
      using option_method_calm [OF assms(1,2,4), of q] nm False by (fastforce simp: list_all_iff)
    ultimately show ?thesis by (simp add: row_fits_def calls_of_socket [OF assms(3)])
  qed
  then show ?thesis by (auto simp: list_all_iff)
qed

lemma accessible_body:
  assumes "program_inv A s" and "held s (Frame q)" and "accessible s q"
  shows "frame_body A s (Frame q) \<noteq> None"
proof -
  obtain f where f: "frames s q = Some f" using assms(2) by auto
  show ?thesis using held_frame_cases [OF assms(1) f] assms f gone_not_accessible [of s q] by (auto simp: frame_body_def)
qed

lemma frame_rows:
  assumes "ruby_doc A" and "program_inv A s" and "held s (Frame p)"
  shows "list_all (\<lambda>(n, m). row_fits A s rb_cZmqFrame p n m) (methods (init_rb_czmq_frame A))"
proof -
  note doc = copy_docD [OF ruby_docD(1) [OF assms(1)]]
  note reader = frame_readers_calm [OF doc(2) assms(2,3)] and compare = frame_compare_calm [OF doc(2) assms(2,3)]
  have cmp: "calm A s (rb_method_call (Method1 (rb_czmq_frame_cmp A)) argv (Frame p))"
    if "list_all (held s) argv" "\<forall>q. argv = [Frame q] \<longrightarrow> accessible s q" for argv
  proof (rule calm_method(2), rule compare(3))
    fix v assume "argv = [v]"
    then show "held s v" "frame_body A s v \<noteq> None \<or> (\<forall>p. v \<noteq> Frame p)"
      using that accessible_body [OF assms(2)] by auto
  qed
  have eq: "calm A s (rb_method_call (Method1 (rb_czmq_frame_eql_p A)) argv (Frame p))"
    "calm A s (rb_method_call (Method1 (rb_czmq_frame_equals A)) argv (Frame p))" if "list_all (held s) argv" for argv
    by (rule calm_method(2), rule compare(1,2), use that in simp)+
  show ?thesis
    by (simp add: init_rb_czmq_frame_def row_fits_def frame_calls_def fits_no_arg fits_one_arg)
      (simp add: calm_method reader eq allowed_def cmp)
qed

text \<open>A message that gets something that is no frame or no string.\<close>

lemma message_misuse_calm:
  assumes "ruby_doc A" and "program_inv A s" and "held s obj"
  shows "(\<forall>p. v \<noteq> Frame p) \<Longrightarrow> calm A s (rb_czmq_message_push A obj v)"
    "(\<forall>p. v \<noteq> Frame p) \<Longrightarrow> calm A s (rb_czmq_message_add A obj v)"
    "(\<forall>p. v \<noteq> Frame p) \<Longrightarrow> calm A s (rb_czmq_message_wrap A obj v)"
    "(\<forall>p. v \<noteq> Frame p) \<Longrightarrow> calm A s (rb_czmq_message_remove A obj v)"
    "(\<forall>cs. v \<noteq> RString cs) \<Longrightarrow> calm A s (rb_czmq_message_pushstr A obj v)"
    "(\<forall>cs. v \<noteq> RString cs) \<Longrightarrow> calm A s (rb_czmq_message_addstr A obj v)"
proof -
  note doc = copy_docD [OF ruby_docD(1) [OF assms(1)]]
  let ?s = "s\<lparr>lib := set_errno A 0 (lib s)\<rparr>"
  have q: "quiet A s ?s" by (rule quiet_lib [OF quiet_refl same_objects_view]) (rule zframe_docD(1) [OF doc(2)])
  have i: "program_inv A ?s" by (rule set_errno_inv [OF doc(2) assms(2)])
  have h: "held ?s obj" using assms(3) by (cases obj) (simp_all add: usable_def)
  note message = quiet_message(1) [where Q = "\<lambda>_. quiet A s" and E = "\<lambda>_. quiet A s"]
  show "(\<forall>p. v \<noteq> Frame p) \<Longrightarrow> calm A s (rb_czmq_message_push A obj v)"
    "(\<forall>p. v \<noteq> Frame p) \<Longrightarrow> calm A s (rb_czmq_message_add A obj v)"
    "(\<forall>p. v \<noteq> Frame p) \<Longrightarrow> calm A s (rb_czmq_message_wrap A obj v)"
    "(\<forall>p. v \<noteq> Frame p) \<Longrightarrow> calm A s (rb_czmq_message_remove A obj v)"
    "(\<forall>cs. v \<noteq> RString cs) \<Longrightarrow> calm A s (rb_czmq_message_pushstr A obj v)"
    "(\<forall>cs. v \<noteq> RString cs) \<Longrightarrow> calm A s (rb_czmq_message_addstr A obj v)"
    unfolding calm_def rb_czmq_message_push_def rb_czmq_message_add_def rb_czmq_message_wrap_def
      rb_czmq_message_remove_def rb_czmq_message_pushstr_def rb_czmq_message_addstr_def wp_tell
    by (rule message [OF i h q q] message [OF assms(2,3) quiet_refl quiet_refl];
        auto simp: ZmqGetFrame_def wp_fetch wp_Check_String q split: rvalue.split)+
qed

lemma fits_with_frame:
  assumes "\<And>p. g obj (Frame p) = exec A (f p)" and "\<And>v. \<forall>p. v \<noteq> Frame p \<Longrightarrow> calm A s (g obj v)"
  shows "fits A s (rb_method_call (Method1 g) argv obj) (with_frame f argv)"
proof (cases "\<exists>p. argv = [Frame p]")
  case False
  then have "with_frame f argv = Nothing" by (cases "(f, argv)" rule: with_frame.cases) auto
  moreover have "calm A s (rb_method_call (Method1 g) argv obj)" by (rule calm_method(2)) (use assms(2) False in auto)
  ultimately show ?thesis by simp
qed (auto simp: rb_method_call_def assms(1))

lemma fits_with_string:
  assumes "\<And>cs. g obj (RString cs) = exec A (f cs)" and "\<And>v. \<forall>cs. v \<noteq> RString cs \<Longrightarrow> calm A s (g obj v)"
  shows "fits A s (rb_method_call (Method1 g) argv obj) (with_string f argv)"
proof (cases "\<exists>cs. argv = [RString cs]")
  case False
  then have "with_string f argv = Nothing" by (cases "(f, argv)" rule: with_string.cases) auto
  moreover have "calm A s (rb_method_call (Method1 g) argv obj)" by (rule calm_method(2)) (use assms(2) False in auto)
  ultimately show ?thesis by simp
qed (auto simp: rb_method_call_def assms(1))

lemma message_rows:
  assumes "ruby_doc A" and "program_inv A s" and "held s (Message m)"
  shows "list_all (\<lambda>(n, r). row_fits A s rb_cZmqMessage m n r) (methods (init_rb_czmq_message A))"
proof -
  note doc = copy_docD [OF ruby_docD(1) [OF assms(1)]]
  note reader = message_readers_calm [OF doc(4,3) assms(2,3)] to_a_calm [OF doc(5) assms(2,3)]
  note misuse = message_misuse_calm [OF assms]
  have eq: "calm A s (rb_method_call (Method1 (rb_czmq_message_equals A)) argv (Message m))"
    if "list_all (held s) argv" for argv
    by (rule calm_method(2), rule message_equals_calm [OF assms(2,3)]) (use that in simp)
  show ?thesis
    by (simp add: init_rb_czmq_message_def row_fits_def message_calls_def fits_no_arg fits_with_frame fits_with_string misuse)
      (simp add: calm_method reader eq allowed_def)
qed

section \<open>A call by name\<close>

text \<open>The objects of these programs.\<close>

definition receiver :: "klass \<Rightarrow> bool" where
  "receiver k \<longleftrightarrow> socket_klass k \<or> k \<in> {rb_cZmqContext, rb_cZmqFrame, rb_cZmqMessage}"

lemma calls_in_table: "receiver k \<Longrightarrow> fst ` set (calls_of k p) \<subseteq> fst ` set (methods_of R A k)"
  unfolding receiver_def
  by (elim disjE insertE)
    (simp_all add: methods_of_klass calls_of_socket init_rb_czmq_context_def context_calls_def init_rb_czmq_frame_def
      frame_calls_def init_rb_czmq_message_def message_calls_def init_rb_czmq_socket_def socket_calls_def)

lemma send_fits:
  assumes "ruby_doc A" and "program_inv A s" and "receiver k" and "held s (Object k p)"
    and "list_all (held s) argv" and "allowed A s k p name argv"
  shows "fits A s (rb_send R A (Object k p) name argv) (means (Object k p) name argv)"
proof -
  have rows: "list_all (\<lambda>(n, m). row_fits A s k p n m) (methods_of R A k)"
    using assms(3,4) context_rows frame_rows [OF assms(1,2)] message_rows [OF assms(1,2)] socket_rows [OF assms(1,2)]
    unfolding receiver_def by (elim disjE insertE) (simp_all add: methods_of_klass)
  show ?thesis
  proof (cases "map_of (methods_of R A k) name")
    case None
    then have "map_of (calls_of k p) name = None"
      using calls_in_table [OF assms(3), of p R A] by (auto simp: map_of_eq_None_iff)
    then show ?thesis by (simp add: rb_send_def None)
  next
    case (Some m)
    then have "row_fits A s k p name m" using rows by (auto simp: list_all_iff dest: map_of_SomeD)
    then show ?thesis using assms(5,6) Some by (simp add: rb_send_def row_fits_def)
  qed
qed

section \<open>Programs\<close>

text \<open>
  Besides the methods of objects: the four ways to make an object, the collector, which frees the
  structs of contexts and sockets, one at a time, and of frames and messages in one run, a fork, and a
  switch of threads.
\<close>

datatype ruby_call =
    Send klass ptr string "rvalue list"
  | New_context "rvalue list" | New_frame "rvalue list" | New_message | Decode_message rvalue
  | Free_context ptr | Free_socket ptr | Free_all "garbage list"
  | Fork_process int | Other_thread rvalue

fun run_ruby :: "'w ruby \<Rightarrow> 'w czmq \<Rightarrow> ruby_call \<Rightarrow> ('w, rvalue) vcmd" where
  "run_ruby R A (Send k p name argv) = rb_send R A (Object k p) name argv"
| "run_ruby R A (New_context argv) = rb_czmq_ctx_s_new A argv"
| "run_ruby R A (New_frame argv) = rb_czmq_frame_s_new A argv"
| "run_ruby R A New_message = rb_czmq_message_new A"
| "run_ruby R A (Decode_message v) = rb_czmq_message_s_decode A v"
| "run_ruby R A (Free_context p) = call (rb_czmq_free_ctx_gc A p) (\<lambda>_. ret Qnil)"
| "run_ruby R A (Free_socket q) = call (rb_czmq_free_sock_gc A q) (\<lambda>_. ret Qnil)"
| "run_ruby R A (Free_all xs) = sweep A xs"
| "run_ruby R A (Fork_process i) = wr (\<lambda>s. s\<lparr>pid := i\<rparr>) (ret Qnil)"
| "run_ruby R A (Other_thread v) = wr (\<lambda>s. s\<lparr>thread := v\<rparr>) (ret Qnil)"

text \<open>
  The names are those the extension defines. The methods that lib/ adds in Ruby are programs over these.
\<close>

fun ruby_valid :: "'w ruby \<Rightarrow> 'w czmq \<Rightarrow> 'w vm \<Rightarrow> ruby_call \<Rightarrow> bool" where
  "ruby_valid R A s (Send k p name argv) \<longleftrightarrow>
     receiver k \<and> name \<in> fst ` set (methods_of R A k) \<and> held s (Object k p) \<and> list_all (held s) argv \<and>
     allowed A s k p name argv"
| "ruby_valid R A s (Free_context p) \<longleftrightarrow> ctxs s p \<noteq> None"
| "ruby_valid R A s (Free_socket q) \<longleftrightarrow> usable s q"
| "ruby_valid R A s (Free_all xs) \<longleftrightarrow> collectable A s xs"
| "ruby_valid R A s c \<longleftrightarrow> True"

fun frame_means :: "rvalue list \<Rightarrow> meaning" where
  "frame_means [] = Exchange (Store (Frame_new []))"
| "frame_means [Qnil] = Exchange (Store (Frame_new []))"
| "frame_means [RString d] = Exchange (Store (Frame_new d))"
| "frame_means argv = Nothing"

fun ruby_means :: "ruby_call \<Rightarrow> meaning" where
  "ruby_means (Send k p name argv) = means (Object k p) name argv"
| "ruby_means (New_context argv) = Life (Ctx_new argv)"
| "ruby_means (New_frame argv) = frame_means argv"
| "ruby_means New_message = Exchange (Store Message_new)"
| "ruby_means (Decode_message v) = Copy (Decode v)"
| "ruby_means (Free_context p) = Life (Collect_ctx p)"
| "ruby_means (Free_socket q) = Life (Collect_sock q)"
| "ruby_means (Free_all xs) = Collect xs"
| "ruby_means (Fork_process i) = Life (Fork i)"
| "ruby_means (Other_thread v) = Life (Switch_thread v)"

text \<open>A valid call is a valid call of its machine.\<close>

fun meaning_ok :: "'w czmq \<Rightarrow> 'w vm \<Rightarrow> meaning \<Rightarrow> bool" where
  "meaning_ok A s (Life c) \<longleftrightarrow> call_valid A s (Inl c)"
| "meaning_ok A s (Exchange c) \<longleftrightarrow> call_valid A s (Inr c)"
| "meaning_ok A s (Copy c) \<longleftrightarrow> copy_valid s c"
| "meaning_ok A s (Collect xs) \<longleftrightarrow> collectable A s xs"
| "meaning_ok A s Nothing \<longleftrightarrow> True"

lemma arg_ok:
  "meaning_ok A s x \<Longrightarrow> meaning_ok A s (no_arg x argv)"
  "(\<And>v. argv = [v] \<Longrightarrow> meaning_ok A s (f v)) \<Longrightarrow> meaning_ok A s (one_arg f argv)"
  "(\<And>p. argv = [Frame p] \<Longrightarrow> valid A s (g p)) \<Longrightarrow> meaning_ok A s (with_frame g argv)"
  "(\<And>cs. argv = [RString cs] \<Longrightarrow> valid A s (h cs)) \<Longrightarrow> meaning_ok A s (with_string h argv)"
proof -
  show "meaning_ok A s x \<Longrightarrow> meaning_ok A s (no_arg x argv)" by (cases argv) simp_all
  show "(\<And>v. argv = [v] \<Longrightarrow> meaning_ok A s (f v)) \<Longrightarrow> meaning_ok A s (one_arg f argv)"
    by (cases "(f, argv)" rule: one_arg.cases) simp_all
  show "(\<And>p. argv = [Frame p] \<Longrightarrow> valid A s (g p)) \<Longrightarrow> meaning_ok A s (with_frame g argv)"
    by (cases "(g, argv)" rule: with_frame.cases) simp_all
  show "(\<And>cs. argv = [RString cs] \<Longrightarrow> valid A s (h cs)) \<Longrightarrow> meaning_ok A s (with_string h argv)"
    by (cases "(h, argv)" rule: with_string.cases) simp_all
qed

lemma io_ok:
  assumes "held s (Object k q)" and "list_all (held s) argv"
  shows "call_valid A s (Inr (Io (Object k q) (Send_frame argv)))"
    "argv = [v] \<Longrightarrow> call_valid A s (Inr (Io (Object k q) (Send_message v)))"
    "argv = [v] \<Longrightarrow> call_valid A s (Inr (Io (Object k q) (Send_str v)))"
    "argv = [v] \<Longrightarrow> call_valid A s (Inr (Io (Object k q) (Sendm_str v)))"
    "c \<in> {Recv_str, Recv_str_nonblock, Recv_frame, Recv_frame_nonblock, Recv_message} \<Longrightarrow>
       call_valid A s (Inr (Io (Object k q) c))"
  using assms by (cases argv; auto)+

lemma calls_ok:
  assumes "receiver k" and "held s (Object k p)" and "list_all (held s) argv"
  shows "list_all (\<lambda>(n, f). allowed A s k p n argv \<longrightarrow> meaning_ok A s (f argv)) (calls_of k p)"
proof -
  have frame: "argv = [Frame q] \<Longrightarrow> frames s q \<noteq> None" for q using assms(3) by auto
  show ?thesis
    using assms(1,2) unfolding receiver_def
  proof (elim disjE insertE)
    assume k: "socket_klass k"
    then have u: "usable s p" using assms(2) by simp
    note io = io_ok [OF assms(2,3), where A = A]
    show ?thesis
      by (simp add: calls_of_socket [OF k] socket_calls_def del: call_valid.simps(3), intro conjI impI arg_ok(1,2))
        (use u io in \<open>simp_all del: call_valid.simps(3)\<close>)
  next
    assume "k = rb_cZmqContext"
    then show ?thesis using assms(2) by (auto simp: context_calls_def allowed_def intro!: arg_ok(1,2))
  next
    assume "k = rb_cZmqFrame"
    then show ?thesis using assms(2) by (auto simp: frame_calls_def allowed_def unheld_def intro!: arg_ok(1,2))
  next
    assume "k = rb_cZmqMessage"
    then show ?thesis
      using assms(2) frame
      by (auto simp: message_calls_def allowed_def unheld_def intro!: arg_ok split: option.split)
  qed simp
qed

lemma ruby_valid_fits:
  assumes "ruby_doc A" and "program_inv A s" and "ruby_valid R A s c"
  shows "fits A s (run_ruby R A c) (ruby_means c)" and "meaning_ok A s (ruby_means c)"
proof -
  show "fits A s (run_ruby R A c) (ruby_means c)"
  proof (cases c)
    case (Send k p name argv)
    then show ?thesis using send_fits [OF assms(1,2)] assms(3) by simp
  next
    case (New_frame argv)
    have nil: "rb_czmq_frame_s_new A [] = rb_czmq_frame_s_new A [RString []]"
      "rb_czmq_frame_s_new A [Qnil] = rb_czmq_frame_s_new A [RString []]"
      by (simp_all add: rb_czmq_frame_s_new_def rb_scan_args_01_def NIL_P_def Check_String_def)
    have q: "quiet A s (s\<lparr>lib := set_errno A 0 (lib s)\<rparr>)"
      by (rule quiet_lib [OF quiet_refl same_objects_view])
        (rule zframe_docD(1) [OF copy_docD(2) [OF ruby_docD(1) [OF assms(1)]]])
    then have other: "calm A s (rb_czmq_frame_s_new A argv)" if "frame_means argv = Nothing"
      using that by (cases argv rule: frame_means.cases)
        (simp_all add: calm_def rb_czmq_frame_s_new_def rb_scan_args_01_def NIL_P_def wp_simps split: list.split)
    show ?thesis
      using other by (cases argv rule: frame_means.cases) (simp_all add: New_frame nil)
  qed simp_all
  show "meaning_ok A s (ruby_means c)"
  proof (cases c)
    case (Send k p name argv)
    then show ?thesis
      using calls_ok [of k s p argv A] assms(3)
      by (auto simp: list_all_iff dest: map_of_SomeD split: option.split)
  next
    case (New_frame argv)
    then show ?thesis by (cases argv rule: frame_means.cases) simp_all
  qed (use assms(3) in simp_all)
qed

text \<open>
  What a call may do to the two abstract states, given how it ended: a call on contexts and sockets
  has its effect on them and none on frames and messages; a call on frames and messages is refused,
  or has a result its specification allows, and has no effect on contexts and sockets; a copy
  changes nothing or has its result; a run of the collector takes the dead objects away and changes nothing about the others; all
  other calls have no effect on either.
\<close>

fun performed :: "'w czmq \<Rightarrow> 'w vm \<Rightarrow> meaning \<Rightarrow> ('w vm, rvalue) outcome \<Rightarrow> 'w vm \<Rightarrow> bool" where
  "performed A s (Life c) r t \<longleftrightarrow>
     abs_life t = life_effect A (fresh s) (pid s) (thread s) c (abs_life s) \<and> abs_store A t = abs_store A s"
| "performed A s (Exchange c) r t \<longleftrightarrow>
     abs_life t = abs_life s \<and>
     (abs_store A t = abs_store A s \<and> ((\<exists>e. r = Raise e t) \<or> r = Return Qfalse t) \<or>
      (\<exists>v. r = Return v t \<and> xresult A (fresh s) c (abs_store A s) v (abs_store A t)))"
| "performed A s (Copy c) r t \<longleftrightarrow>
     abs_life t = abs_life s \<and> copy_result (fresh s) c (abs_store A s) (abs_store A t)"
| "performed A s (Collect xs) r t \<longleftrightarrow>
     r = Return Qnil t \<and> abs_life t = abs_life s \<and> abs_store A t = swept (set xs) (abs_store A s)"
| "performed A s Nothing r t \<longleftrightarrow> abs_life t = abs_life s \<and> abs_store A t = abs_store A s"

lemma life_performed:
  assumes "program_doc A" and "program_inv A s" and "call_valid A s (Inl c)"
  shows "\<exists>t. final_state (run_life A c s) = Some t \<and> program_inv A t \<and> performed A s (Life c) r t"
proof -
  have i: "life_inv A s" "fm_inv A s" "apart s" using assms(2) by (simp_all add: program_inv_def)
  note w = program.left_keeps [OF assms(1) i assms(3)]
  obtain t where t: "final_state (run_life A c s) = Some t" using safe_final [OF wp_safe [OF w]] by blast
  show ?thesis
    using t wp_final [OF w t] life_call_leaves [OF assms(1) i(2,3) t] assms(3)
      life.refines [OF program_docD(2) [OF assms(1)] i(1) _ t]
    by (simp add: program_inv_def)
qed

lemma exchange_performed:
  assumes "program_doc A" and "program_inv A s" and "call_valid A s (Inr c)"
  shows "\<exists>t. final_state (xexec A c s) = Some t \<and> program_inv A t \<and> performed A s (Exchange c) (xexec A c s) t"
proof -
  have i: "life_inv A s" "fm_inv A s" "apart s" using assms(2) by (simp_all add: program_inv_def)
  note w = program.right_keeps [OF assms(1) i assms(3)]
  obtain t where t: "final_state (xexec A c s) = Some t" using safe_final [OF wp_safe [OF w]] by blast
  have "xvalid A s c" by (rule program.right_valid [OF i(1) assms(3)])
  then have d: "does A s c" by (rule xexec_does [OF program_docD(1) [OF assms(1)] i(2)])
  then have "abs_store A t = abs_store A s \<and> ((\<exists>e. xexec A c s = Raise e t) \<or> xexec A c s = Return Qfalse t) \<or>
      (\<exists>v. xexec A c s = Return v t \<and> xresult A (fresh s) c (abs_store A s) v (abs_store A t))"
    using t unfolding does_def refused_def steps_to_def by auto
  then show ?thesis
    using t wp_final [OF w t] xcall_leaves [OF assms(1) i(1,3) t] by (simp add: program_inv_def)
qed

lemma meaning_performed:
  assumes "ruby_doc A" and "program_inv A s" and "fits A s m x" and "meaning_ok A s x"
  shows "\<exists>t. final_state (m s) = Some t \<and> program_inv A t \<and> performed A s x (m s) t"
proof (cases x)
  case (Life c)
  then show ?thesis using life_performed [OF copy_docD(1) [OF ruby_docD(1) [OF assms(1)]] assms(2)] assms(3,4) by simp
next
  case (Exchange c)
  then show ?thesis
    using exchange_performed [OF copy_docD(1) [OF ruby_docD(1) [OF assms(1)]] assms(2)] assms(3,4) by simp
next
  case (Copy c)
  have v: "copy_valid s c" using assms(4) Copy by simp
  note run = copy_call [OF ruby_docD(1) [OF assms(1)] assms(2) v]
  obtain t where "final_state (run_copy A c s) = Some t" using safe_final [OF run(1)] by blast
  then show ?thesis using run(2) assms(3) Copy by auto
next
  case (Collect xs)
  then show ?thesis
    using collect_call [OF copy_docD(1) [OF ruby_docD(1) [OF assms(1)]] assms(2), of xs] assms(3,4) by auto
next
  case Nothing
  then have w: "wp m (\<lambda>_. quiet A s) (\<lambda>_. quiet A s) s" using assms(3) by (simp add: calm_def)
  obtain t where t: "final_state (m s) = Some t" using safe_final [OF wp_safe [OF w]] by blast
  then show ?thesis using quiet_program [OF wp_final [OF w t] assms(2)] Nothing by simp
qed

lemma ruby_performed:
  assumes "ruby_doc A" and "program_inv A s" and "ruby_valid R A s c"
  shows "\<exists>t. final_state (run_ruby R A c s) = Some t \<and> program_inv A t \<and>
    performed A s (ruby_means c) (run_ruby R A c s) t"
  by (rule meaning_performed [OF assms(1,2) ruby_valid_fits [OF assms]])

abbreviation ruby_reach :: "'w ruby \<Rightarrow> 'w czmq \<Rightarrow> 'w vm \<Rightarrow> 'w vm \<Rightarrow> bool" where
  "ruby_reach R A \<equiv> runs (run_ruby R A) (ruby_valid R A)"

interpretation ruby: machine "run_ruby R A" "ruby_valid R A" "program_inv A" "ruby_doc A"
proof
  fix s c assume "ruby_doc A" "program_inv A s" "ruby_valid R A s c"
  from ruby_performed [OF this] obtain t where "final_state (run_ruby R A c s) = Some t" "program_inv A t" by blast
  then show "wp (run_ruby R A c) (\<lambda>_. program_inv A) (\<lambda>_. program_inv A) s"
    by (cases "run_ruby R A c s") (simp_all add: wp_def)
qed

text \<open>A new process has no objects.\<close>

lemma new_process_inv: "fresh_process s \<Longrightarrow> no_objects s \<Longrightarrow> program_inv A s"
  using fresh_process_inv [of s A] no_objects_inv [of s A]
  by (simp add: program_inv_def apart_def no_objects_def)

end
