(* ===== verification/Zmq_Ruby_Theorems.thy ===== *)
theory Zmq_Ruby_Theorems
  imports Zmq_Ruby Zmq_Life_Theorems Zmq_Store_Theorems
begin

text \<open>The properties of whole Ruby programs, each with an application to the reference library.\<close>

section \<open>A concrete program\<close>

text \<open>What the methods get from the Ruby VM does not matter to these programs.\<close>

definition plain_ruby :: "rworld ruby" where
  "plain_ruby =
     \<lparr>rb_start = \<lambda>l run s. Return 0 s, rb_call = \<lambda>v m xs s. Return Qnil s, rb_responds = \<lambda>v m. True, rb_block = Qnil\<rparr>"

lemma ref_ruby_doc: "ruby_doc ref"
proof -
  have "\<exists>bs. zmsg_alloc_doc ref w bs (rdecode cs w)" for cs w
  proof (cases "rdec (length cs) cs")
    case (Some bs)
    then show ?thesis using ref_new_msg [of w bs] by (auto simp: rdecode_def)
  qed (simp add: rdecode_def zmsg_alloc_doc_def)
  then have "copy_doc ref"
    by (simp add: copy_doc_def program_doc_def ref_exchange_doc zctx_never_fails_def ref_fields split_beta)
  then show ?thesis by (simp add: ruby_doc_def zmonitor_doc_def ref_fields)
qed

lemma ruby_step:
  "ruby_reach R A s t \<Longrightarrow> ruby_valid R A t c \<Longrightarrow> final_state (run_ruby R A c t) = Some u \<Longrightarrow> ruby_reach R A s u"
  by (rule runs.step)

text \<open>A program that makes a frame.\<close>

lemma made_frame:
  assumes "ruby_reach plain_ruby ref vm0 s"
  obtains t where "ruby_reach plain_ruby ref vm0 t" "abs_life t = abs_life s"
    "owned (abs_store ref t) = (owned (abs_store ref s))(fresh s \<mapsto> d)"
proof -
  have i: "program_inv ref s"
    by (rule ruby.runs_inv [OF assms ref_ruby_doc new_process_inv [OF vm0_fresh vm0_objects]])
  then have inv: "fm_inv ref s" by (simp add: program_inv_def)
  obtain t where t: "final_state (run_ruby plain_ruby ref (New_frame [RString d]) s) = Some t"
    "performed ref s (Exchange (Store (Frame_new d))) (run_ruby plain_ruby ref (New_frame [RString d]) s) t"
    using ruby_performed [OF ref_ruby_doc i, where c = "New_frame [RString d]" and R = plain_ruby] by auto
  show thesis
  proof (rule that)
    show "ruby_reach plain_ruby ref vm0 t" by (rule ruby_step [OF assms _ t(1)]) simp
    show "abs_life t = abs_life s" using t(2) by simp
    show "owned (abs_store ref t) = (owned (abs_store ref s))(fresh s \<mapsto> d)"
      using frame_new_refines [OF ref_lib_doc inv, of d] t(1) by (auto simp: steps_to_def ref_fields rnew_def)
  qed
qed

lemma one_frame:
  obtains t where "ruby_reach plain_ruby ref vm0 t" "owned (abs_store ref t) = [1 \<mapsto> ''abc'']"
    "abs_life t = \<lparr>contexts = Map.empty, sockets = Map.empty\<rparr>"
proof -
  have v: "owned (abs_store ref vm0) = Map.empty" "fresh vm0 = 1"
    by (simp_all add: abs_store_def owned_of_def vm0_def fun_eq_iff)
  show thesis
    by (rule made_frame [OF runs.start, where d = "''abc''"], rule that) (use v vm0_abs in simp_all)
qed

section \<open>Collections\<close>

text \<open>A message and its two frame objects go together, in any order; one of the frame objects alone does not.\<close>

lemma vm1_collects:
  "collectable ref vm1 [Frame_object 3, Message_object 1, Frame_object 2]"
  "\<exists>t. sweep ref [Frame_object 3, Message_object 1, Frame_object 2] vm1 = Return Qnil t \<and>
     abs_store ref t = \<lparr>owned = [4 \<mapsto> ''c''], contents = [5 \<mapsto> []]\<rparr>"
  "\<not> collectable ref vm1 [Frame_object 3]"
proof -
  have at: "msg_at ref vm1 1 \<lparr>m_message = 1, m_flags = 1, m_frames = 2\<rparr> [2, 3]"
    "msg_at ref vm1 5 \<lparr>m_message = 6, m_flags = 1, m_frames = 7\<rparr> []"
    using vm1_held by (simp_all add: msg_at_def vm1_sel)
  have marked: "marked ref vm1 1 = {Frame 2, Frame 3}" "marked ref vm1 5 = {}"
    using marked_at [OF ref_lib_doc at(1)] marked_at [OF ref_lib_doc at(2)] by simp_all
  show c: "collectable ref vm1 [Frame_object 3, Message_object 1, Frame_object 2]"
    unfolding collectable_def by (auto simp: vm1_sel marked split: if_splits)
  show "\<not> collectable ref vm1 [Frame_object 3]"
    unfolding collectable_def using marked(1) by (simp add: vm1_sel) (metis insertI1)
  show "\<exists>t. sweep ref [Frame_object 3, Message_object 1, Frame_object 2] vm1 = Return Qnil t \<and>
      abs_store ref t = \<lparr>owned = [4 \<mapsto> ''c''], contents = [5 \<mapsto> []]\<rparr>"
    using sweep_performed [OF ref_lib_doc vm1_inv c]
    by (auto simp: vm1_store swept_def restrict_map_def fun_eq_iff)
qed

text \<open>
  The mark function walks the list of frame objects with the cursor that \<^verbatim>\<open>first\<close> and \<^verbatim>\<open>next\<close> use: a
  collection between the two makes \<^verbatim>\<open>next\<close> miss the second frame.
\<close>

lemma collection_loses_place:
  "\<exists>s t u vs. rb_czmq_message_first ref (Message 1) vm1 = Return (Frame 2) s \<and>
     rb_czmq_message_next ref (Message 1) s = Return (Frame 3) t \<and>
     rb_czmq_mark_message ref 1 s = Return vs u \<and> (\<exists>v. rb_czmq_message_next ref (Message 1) u = Return Qnil v)"
  by (simp add: rb_czmq_message_first_def rb_czmq_message_next_def rb_czmq_mark_message_def vm1_sel world1_def while_do_unroll
      ZmqGetMessage_def fetch_def ZmqReturnNilUnlessOwned_def call_def run_ref)

section \<open>Properties\<close>





end
