(* ===== verification/Spec2Isabelle.thy ===== *)
theory Spec2Isabelle
  imports Zmq_Store_Theorems Zmq_Life_Theorems Zmq_Exchange Zmq_Connection Zmq_Option_Theorems
    Zmq_Poll_Theorems Zmq_Termination Zmq_Loop_Theorems Zmq_Beacon_Theorems Zmq_Monitor_Theorems Zmq_Method_Theorems Zmq_Module
    Zmq_Ruby_Theorems
begin

text \<open>
  A verification development of rbczmq, the Ruby binding of ZeroMQ written in C over libczmq. It
  covers the C extension, the files under \<^verbatim>\<open>src/ext/rbczmq/\<close>.

  \<^bold>\<open>The program.\<close> A Ruby object of the extension is a C struct behind a Ruby value. Contexts
  (context.c) own sockets (socket.c); sockets send and receive strings, frames (frame.c) and
  messages (message.c). Poll items (pollitem.c) pair a socket or an IO object with a handler and are
  registered with pollers (poller.c) or, with timers (timer.c), with reactors (loop.c). Beacons
  (beacon.c) are independent but have a socket object as their pipe, and a socket may be watched by a
  monitor thread. The difficulty of the code is ownership: a struct points to objects of libczmq that
  the program, the garbage collector, another struct or the library may free.

  \<^bold>\<open>The model.\<close> The Ruby heap is the record \<open>vm\<close> (\<open>Zmq_Objects\<close>): one map from addresses to structs
  per struct type, the Ruby arrays that the extension makes, the map from processes to contexts, and
  the state of the libraries. A C function is a command (\<open>Zmq_Prelude\<close>): it takes the state and
  returns a value, raises a Ruby exception, or is a fault: the use of a freed struct, a null or freed
  handle given to the library, a wild pointer, a failed assertion, or a loop that does not end. Loops
  are \<open>while_do\<close>, defined by \<open>partial_function (option)\<close>, so no bound or fuel is chosen anywhere and
  not ending is a value that the theorems exclude. The macros of the headers are commands in
  continuation style. Sizes, flags and C integers have their width.

  \<^bold>\<open>The libraries.\<close> libczmq and libzmq are not part of the repository. Their functions are the fields
  of the record \<open>czmq\<close> (\<open>Zmq_Api\<close>), an argument of every definition that calls them, over a type of
  library states about which nothing is known but a view of the objects that are allocated. What their
  documentation says of them is stated as predicates in \<open>Zmq_Docs\<close>, which are the hypotheses of the
  theorems. \<open>Zmq_Ref\<close> is a small executable library for which these predicates are proved and to which
  every theorem is applied. The methods of Ruby objects that the code calls (handlers, \<^verbatim>\<open>fileno\<close>) are
  an argument too, the function \<open>rb_funcall\<close>.

  \<^bold>\<open>The theories.\<close>
  \<^item> \<open>Zmq_Prelude\<close>, \<open>Zmq_Api\<close>, \<open>Zmq_Docs\<close>, \<open>Zmq_Objects\<close>, \<open>Zmq_Ref\<close>: the language, the libraries, the
    structs and macros of the header files. \<open>Zmq_Hoare\<close>: weakest preconditions of commands, the rule
    for loops, programs as sequences of calls, and the two interfaces of a component: the locale
    \<open>machine\<close> (calls keep an invariant and do not fault) and its extension \<open>refined_machine\<close> (each call
    has the effect that a specification computes). \<open>Zmq_Sample\<close>: a state with a context and a socket.
  \<^item> \<open>Zmq_Frame\<close>, \<open>Zmq_Message\<close>: frame.c and message.c. \<open>Zmq_Ownership\<close>: the abstract store of frames
    and messages and the invariant that ties the structs and the objects of libczmq to it.
    \<open>Zmq_Refine\<close>, \<open>Zmq_Store\<close>, \<open>Zmq_Store_Theorems\<close>: every operation refines the store; programs of
    frame and message calls never fault; round trips; and the calls that leave a frame object behind
    that the guards let through although its frame is gone.
  \<^item> \<open>Zmq_Context\<close>, \<open>Zmq_Socket\<close>: context.c and socket.c. \<open>Zmq_Lifecycle\<close>, \<open>Zmq_Life\<close>,
    \<open>Zmq_Life_Theorems\<close>: contexts and sockets through calls, collections, forks and thread switches.
  \<^item> \<open>Zmq_Sockets\<close>: what the guards of a socket method let through. \<open>Zmq_Connection\<close>: bind, connect,
    disconnect and unbind refine a specification on state and endpoints. \<open>Zmq_Exchange\<close>: sending and
    receiving frames and messages, as moves into and out of the store.
  \<^item> \<open>Zmq_Options\<close>, \<open>Zmq_Option_Theorems\<close>: the option accessors; two locales state what a setter and an
    accessor promise, and each option is an interpretation.
  \<^item> \<open>Zmq_Timer\<close>, \<open>Zmq_Pollitem\<close>, \<open>Zmq_Poller\<close>, \<open>Zmq_Loop\<close>: the files of these names. \<open>Zmq_Items\<close>:
    which values give a poll item. \<open>Zmq_Poll_Theorems\<close>: pollers refine a specification on their
    members. \<open>Zmq_Termination\<close>: their loops end in every state. \<open>Zmq_Loop_Theorems\<close>: what a reactor
    points to is marked.
  \<^item> \<open>Zmq_Beacon\<close>, \<open>Zmq_Beacon_Theorems\<close>: beacon.c. \<open>Zmq_Monitor\<close>, \<open>Zmq_Monitor_Theorems\<close>: the monitor
    of socket.c. \<open>Zmq_Module\<close>: the functions and constants of rbczmq_ext.c.
  \<^item> \<open>Zmq_Methods\<close>: the tables of methods that the \<^verbatim>\<open>_init_rb_czmq_\<close> functions register, and the call of a
    method by name. \<open>Zmq_Method_Theorems\<close>: no method of a destroyed context, socket or loop gets through.
  \<^item> Whole programs. \<open>Zmq_Footprint\<close>, \<open>Zmq_Apart\<close>, \<open>Zmq_Beside\<close>: a call on frames and messages leaves
    contexts and sockets alone, and the other way round. \<open>Zmq_Program\<close>: two machines on one state, as
    the locale \<open>pair\<close>, interpreted on these two. \<open>Zmq_Quiet\<close>: methods that change no object (readers,
    comparisons, options, the monitor). \<open>Zmq_Copies\<close>: \<^verbatim>\<open>dup\<close> and \<^verbatim>\<open>reset\<close> of a frame, and decoding.
    \<open>Zmq_Collect\<close>: a run of the garbage collector over frames and messages, their mark and free functions.
    \<open>Zmq_Ruby\<close>, \<open>Zmq_Ruby_Theorems\<close>: programs that call any method of a context, socket, frame or
    message by name; every row of the four tables of methods has a meaning as a call of one of these
    machines, and the locale \<open>machine\<close> is interpreted on all calls together.

  \<^bold>\<open>The properties.\<close> First, for whole Ruby programs over contexts, sockets, frames and messages: no call
  faults, each does what the specification of its method says, and objects share nothing. Then for
  each component: no program of its calls faults (safety), and each call has the effect that its
  specification computes (refinement), in every state that the calls reach. The exceptions are
  properties of their own: they show, for the calls that the programs above leave out, what goes
  wrong. These calls are, for whole programs, \<^verbatim>\<open>destroy\<close> and \<^verbatim>\<open>wrap\<close> of a frame that a live message holds,
  \<^verbatim>\<open>remove\<close> of a frame of another message, \<^verbatim>\<open>popstr\<close> and \<^verbatim>\<open>unwrap\<close>, \<^verbatim>\<open><=>\<close> with a frame that is gone, and
  \<^verbatim>\<open>socket\<close> with a number that is no socket type. The collector frees a message together with all
  frame objects that point to it. Whole programs do not have pollers, reactors, timers and beacons, whose
  programs are separate. A poller or a reactor is used with sockets that are open when it is polled.

  \<^bold>\<open>Not modelled.\<close>
  \<^item> What the Ruby library under \<^verbatim>\<open>src/lib/\<close> adds on top of the extension. Of the functions that define
    the Ruby classes, the tables of methods and the constants are modelled.
  \<^item> Threads: a call that releases the Ruby lock is one step, so two calls never interleave; a call of
    libzmq that waits yields what it yields in the end. What other threads do while a handler runs is
    part of the argument \<open>rb_funcall\<close>.
  \<^item> The text of log lines, except for the calls and checks that it makes, and of error messages; the
    transport of messages.
  \<^item> Exhausted memory in the Ruby VM, and jumps that are not exceptions (\<^verbatim>\<open>throw\<close>, \<^verbatim>\<open>break\<close>).
  \<^item> Floating-point rounding: the seconds of timers and polls are exact, which a double is up to 53
    bits; the bounds of the properties stay below that.
\<close>

end
